(* ===== verification/Prelude.thy ===== *)
theory Prelude
  imports Main "HOL-Library.Finite_Map" "HOL-Library.Monad_Syntax"
begin

text \<open>
  What every component of the development shares: the result type of the fallible Go
  functions, the collections of hints, and the generic facts about lists, options and
  finite maps the component proofs use.
\<close>

section \<open>Hint collections\<close>

named_theorems go_simps "characteristic equations of the modelled operations"
named_theorems go_dest "what a successful call of a modelled operation says"
named_theorems go_frame "what a modelled operation leaves unchanged"

section \<open>Results\<close>

text \<open>
  A Go function that returns \<open>(value, error)\<close> has the result \<open>error + value\<close>: \<open>Inl\<close>
  is the early return with an error, \<open>Inr\<close> the normal return. A function that returns
  only an \<open>error\<close> is an \<open>option\<close>, \<open>None\<close> being Go's \<open>nil\<close>.
\<close>

type_synonym ('e, 'a) result = "'e + 'a"

definition rbind :: "('e, 'a) result \<Rightarrow> ('a \<Rightarrow> ('e, 'b) result) \<Rightarrow> ('e, 'b) result" where
  "rbind r f = (case r of Inl e \<Rightarrow> Inl e | Inr x \<Rightarrow> f x)"

lemma rbind_simps [simp]:
  "rbind (Inl e) f = Inl e"
  "rbind (Inr x) f = f x"
  by (simp_all add: rbind_def)

lemma rbind_Inr_iff: "rbind r f = Inr y \<longleftrightarrow> (\<exists>x. r = Inr x \<and> f x = Inr y)"
  by (cases r) simp_all

text \<open>The first error of a loop that returns on the first failing element.\<close>

fun first_error :: "('a \<Rightarrow> 'e option) \<Rightarrow> 'a list \<Rightarrow> 'e option" where
  "first_error f [] = None"
| "first_error f (x # xs) = (case f x of Some e \<Rightarrow> Some e | None \<Rightarrow> first_error f xs)"

lemma first_error_None_iff [simp]: "first_error f xs = None \<longleftrightarrow> (\<forall>x \<in> set xs. f x = None)"
  by (induction xs) (auto split: option.splits)

lemma first_error_SomeD: "first_error f xs = Some e \<Longrightarrow> \<exists>x \<in> set xs. f x = Some e"
  by (induction xs) (auto split: option.splits)

lemma first_error_append:
  "first_error f (xs @ ys) =
     (case first_error f xs of Some e \<Rightarrow> Some e | None \<Rightarrow> first_error f ys)"
  by (induction xs) (simp_all split: option.split del: first_error_None_iff)

text \<open>A chain of checks: the second one runs only when the first one returned nil.\<close>

definition and_then :: "'e option \<Rightarrow> 'e option \<Rightarrow> 'e option" where
  "and_then a b = (case a of Some e \<Rightarrow> Some e | None \<Rightarrow> b)"

lemma and_then_simps [simp]:
  "and_then (Some e) b = Some e"
  "and_then None b = b"
  by (simp_all add: and_then_def)

lemma and_then_None_iff [simp]: "and_then a b = None \<longleftrightarrow> a = None \<and> b = None"
  by (cases a) simp_all

definition check :: "bool \<Rightarrow> 'e \<Rightarrow> 'e option" where
  "check bad e = (if bad then Some e else None)"

lemma check_simps [simp]:
  "check False e = None"
  "check True e = Some e"
  "check b e = None \<longleftrightarrow> \<not> b"
  by (simp_all add: check_def)

section \<open>Lists\<close>

lemma find_None_filter: "List.find P xs = None \<longleftrightarrow> filter P xs = []"
  by (auto simp: find_None_iff filter_empty_conv)

lemma find_SomeD: "List.find P xs = Some x \<Longrightarrow> x \<in> set xs \<and> P x"
  by (induction xs) (auto split: if_splits)

lemma find_filter: "List.find P (filter Q xs) = List.find (\<lambda>x. P x \<and> Q x) xs"
  by (induction xs) auto

lemma sum_list_map_filter_split:
  "sum_list (map f xs) =
     sum_list (map f (filter P xs)) + sum_list (map f (filter (\<lambda>x. \<not> P x) xs))"
  for f :: "'a \<Rightarrow> 'b::comm_monoid_add"
  by (induction xs) (auto simp: ac_simps)

text \<open>Summing group by group: the groups are the rows of a keyed list.\<close>

lemma sum_list_one_group:
  fixes x :: "'b::comm_monoid_add"
  assumes "distinct (map key as)"
  shows "sum_list (map (\<lambda>a. if k = key a then x else 0) as) = (if k \<in> key ` set as then x else 0)"
  using assms by (induction as) auto

lemma sum_list_groups:
  fixes g :: "'l \<Rightarrow> 'b::comm_monoid_add"
  assumes "distinct (map key as)" and "\<And>l. l \<in> set ls \<Longrightarrow> Q l \<Longrightarrow> f l \<in> key ` set as"
  shows "sum_list (map (\<lambda>a. sum_list (map g (filter (\<lambda>l. f l = key a \<and> Q l) ls))) as) =
    sum_list (map g (filter Q ls))"
  using assms(2)
proof (induction ls)
  case Nil
  then show ?case by simp
next
  case (Cons l ls)
  have "sum_list (map (\<lambda>a. sum_list (map g (filter (\<lambda>l. f l = key a \<and> Q l) (l # ls)))) as) =
      sum_list (map (\<lambda>a. (if f l = key a then (if Q l then g l else 0) else 0) +
        sum_list (map g (filter (\<lambda>l. f l = key a \<and> Q l) ls))) as)"
    by (rule arg_cong [of _ _ sum_list], rule map_cong) auto
  also have "\<dots> = (if f l \<in> key ` set as then (if Q l then g l else 0) else 0) + sum_list (map g (filter Q ls))"
    using Cons by (simp add: sum_list_addf sum_list_one_group [OF assms(1)])
  also have "\<dots> = sum_list (map g (filter Q (l # ls)))"
    using Cons.prems by auto
  finally show ?case .
qed

end
