(* ===== verification/GoStrings.thy ===== *)
theory GoStrings
  imports Prelude "HOL-Library.List_Lexorder" "HOL-Library.Char_ord"
begin

text \<open>
  The parts of Go's \<open>strings\<close>, \<open>strconv\<close> and \<open>unicode/utf8\<close> packages that the program
  uses. A Go string is a sequence of bytes, and so is a HOL \<^typ>\<open>string\<close>: one
  character is one byte, \<^const>\<open>length\<close> is Go's \<open>len\<close>, and the order of
  \<open>List_Lexorder\<close> over \<open>Char_ord\<close> is Go's \<open><\<close> on strings.
\<close>

section \<open>Bytes and digits\<close>

definition byte :: "char \<Rightarrow> nat" where
  "byte c = of_char c"

definition of_byte :: "nat \<Rightarrow> char" where
  "of_byte n = char_of n"

lemma byte_of_byte [simp]: "n < 256 \<Longrightarrow> byte (of_byte n) = n"
  by (simp add: byte_def of_byte_def)

definition is_digit :: "char \<Rightarrow> bool" where
  "is_digit c \<longleftrightarrow> 48 \<le> byte c \<and> byte c \<le> 57"

definition digit_val :: "char \<Rightarrow> nat" where
  "digit_val c = byte c - 48"

definition digit_char :: "nat \<Rightarrow> char" where
  "digit_char n = of_byte (48 + n)"

lemma digit_char_digit [simp]: "n < 10 \<Longrightarrow> is_digit (digit_char n)"
  by (simp add: is_digit_def digit_char_def)

lemma digit_val_char [simp]: "n < 10 \<Longrightarrow> digit_val (digit_char n) = n"
  by (simp add: digit_val_def digit_char_def)

lemma digit_val_less: "is_digit c \<Longrightarrow> digit_val c < 10"
  by (auto simp: is_digit_def digit_val_def)

lemma digit_char_val: "is_digit c \<Longrightarrow> digit_char (digit_val c) = c"
  by (simp add: is_digit_def digit_val_def digit_char_def byte_def of_byte_def)

lemma not_digit_punct [simp]:
  "\<not> is_digit (CHR ''.'')" "\<not> is_digit (CHR ''-'')" "\<not> is_digit (CHR ''+'')"
  "\<not> is_digit (CHR '' '')"
  by (simp_all add: is_digit_def byte_def)

lemma is_digit_0 [simp]: "is_digit (CHR ''0'')" and digit_val_0 [simp]: "digit_val (CHR ''0'') = 0"
  by (simp_all add: is_digit_def digit_val_def byte_def)

lemma digit_neq_punct: "is_digit c \<Longrightarrow> c \<noteq> CHR ''.'' \<and> c \<noteq> CHR ''-'' \<and> c \<noteq> CHR ''+''"
  by auto

lemma digit_char_eval:
  "digit_char 0 = CHR ''0''" "digit_char 1 = CHR ''1''" "digit_char 2 = CHR ''2''"
  "digit_char 3 = CHR ''3''" "digit_char 4 = CHR ''4''" "digit_char 5 = CHR ''5''"
  "digit_char 6 = CHR ''6''" "digit_char 7 = CHR ''7''" "digit_char 8 = CHR ''8''"
  "digit_char 9 = CHR ''9''"
  by (simp_all add: digit_char_def of_byte_def char_of_def bit_0)

section \<open>Decimal numbers: strconv.FormatInt and strconv.ParseInt in base 10\<close>

text \<open>The decimal digits of a natural number, most significant first.\<close>

fun show_nat :: "nat \<Rightarrow> string" where
  "show_nat n = (if n < 10 then [digit_char n] else show_nat (n div 10) @ [digit_char (n mod 10)])"

declare show_nat.simps [simp del]

definition FormatInt :: "int \<Rightarrow> string" where
  "FormatInt n = (if n < 0 then CHR ''-'' # show_nat (nat (- n)) else show_nat (nat n))"

text \<open>The value of a run of digits.\<close>

definition digits_val :: "string \<Rightarrow> nat" where
  "digits_val s = foldl (\<lambda>a c. 10 * a + digit_val c) 0 s"

lemma digits_val_Nil [simp]: "digits_val [] = 0"
  by (simp add: digits_val_def)

lemma digits_val_snoc [simp]: "digits_val (s @ [c]) = 10 * digits_val s + digit_val c"
  by (simp add: digits_val_def)

lemma digits_val_0_Cons [simp]: "digits_val (CHR ''0'' # s) = digits_val s"
  by (simp add: digits_val_def)

lemma show_nat_digits: "\<forall>c \<in> set (show_nat n). is_digit c"
proof (induction n rule: show_nat.induct)
  case (1 n)
  then show ?case by (cases "n < 10") (auto simp: show_nat.simps [of n])
qed

lemma show_nat_nonempty [simp]: "show_nat n \<noteq> []"
  by (simp add: show_nat.simps)

lemma digits_val_show_nat [simp]: "digits_val (show_nat n) = n"
proof (induction n rule: show_nat.induct)
  case (1 n)
  show ?case
  proof (cases "n < 10")
    case True
    have "digits_val ([] @ [digit_char n]) = n"
      by (subst digits_val_snoc) (simp add: True)
    with True show ?thesis by (simp add: show_nat.simps [of n])
  next
    case False
    with 1 have "digits_val (show_nat (n div 10)) = n div 10" by simp
    with False show ?thesis by (simp add: show_nat.simps [of n])
  qed
qed

text \<open>
  \<open>strconv.ParseInt(s, 10, 64)\<close> on a run of ASCII digits: the value, or the range error
  when it is above \<open>math.MaxInt64\<close>. The callers modelled here have checked that \<open>s\<close> is
  a non-empty run of digits; any other string is the syntax error (\<open>None\<close> too).
\<close>

definition isDigits_run :: "string \<Rightarrow> bool" where
  "isDigits_run s \<longleftrightarrow> s \<noteq> [] \<and> list_all is_digit s"

definition ParseInt10 :: "string \<Rightarrow> int option" where
  "ParseInt10 s =
     (if \<not> isDigits_run s then None
      else if digits_val s < 2 ^ 63 then Some (int (digits_val s)) else None)"

section \<open>Runes: unicode/utf8 and unicode.IsSpace\<close>

text \<open>Whether a byte continues a UTF-8 sequence.\<close>

definition is_cont :: "char \<Rightarrow> bool" where
  "is_cont c \<longleftrightarrow> 128 \<le> byte c \<and> byte c < 192"

text \<open>
  The number of bytes of the rune at the head of a non-empty string: the length of the
  well-formed UTF-8 sequence there, 1 where there is none (an invalid byte decodes to
  U+FFFD of width 1). The ranges of the second byte are those of \<open>utf8.acceptRanges\<close>.
\<close>

definition second_ok :: "nat \<Rightarrow> nat \<Rightarrow> bool" where
  "second_ok b0 b1 \<longleftrightarrow>
     (if b0 = 224 then 160 \<le> b1 \<and> b1 < 192
      else if b0 = 237 then 128 \<le> b1 \<and> b1 < 160
      else if b0 = 240 then 144 \<le> b1 \<and> b1 < 192
      else if b0 = 244 then 128 \<le> b1 \<and> b1 < 144
      else 128 \<le> b1 \<and> b1 < 192)"

fun rune_width :: "string \<Rightarrow> nat" where
  "rune_width [] = 0"
| "rune_width (a # s) =
     (let b0 = byte a in
      if 194 \<le> b0 \<and> b0 < 224 then
        (case s of b # _ \<Rightarrow> if second_ok b0 (byte b) then 2 else 1 | _ \<Rightarrow> 1)
      else if 224 \<le> b0 \<and> b0 < 240 then
        (case s of b # c # _ \<Rightarrow> if second_ok b0 (byte b) \<and> is_cont c then 3 else 1 | _ \<Rightarrow> 1)
      else if 240 \<le> b0 \<and> b0 < 245 then
        (case s of b # c # d # _ \<Rightarrow>
            if second_ok b0 (byte b) \<and> is_cont c \<and> is_cont d then 4 else 1 | _ \<Rightarrow> 1)
      else 1)"

lemma rune_width_pos: "s \<noteq> [] \<Longrightarrow> 0 < rune_width s"
  by (cases s) (auto simp: Let_def split: list.splits)

text \<open>\<open>utf8.RuneCountInString\<close>.\<close>

function rune_count :: "string \<Rightarrow> nat" where
  "rune_count s = (if s = [] then 0 else Suc (rune_count (drop (rune_width s) s)))"
  by pat_completeness auto
termination
  by (relation "measure length") (auto simp: rune_width_pos)

declare rune_count.simps [simp del]

lemma rune_count_Nil [simp]: "rune_count [] = 0"
  by (simp add: rune_count.simps)

lemma rune_count_le: "rune_count s \<le> length s"
proof (induction s rule: rune_count.induct)
  case (1 s)
  show ?case
  proof (cases "s = []")
    case False
    then have "rune_count s = Suc (rune_count (drop (rune_width s) s))"
      by (simp add: rune_count.simps [of s])
    also have "\<dots> \<le> Suc (length s - rune_width s)"
      using 1 False by simp
    also have "\<dots> \<le> length s"
      using rune_width_pos [OF False] False by (cases s) (simp_all del: rune_width.simps)
    finally show ?thesis .
  qed simp
qed

text \<open>
  The UTF-8 encodings of the runes \<open>unicode.IsSpace\<close> accepts: the six ASCII ones, then
  U+0085, U+00A0, U+1680, U+2000 to U+200A, U+2028, U+2029, U+202F, U+205F and U+3000.
\<close>

definition space_seqs :: "nat list list" where
  "space_seqs =
     [[9], [10], [11], [12], [13], [32],
      [194, 133], [194, 160], [225, 154, 128],
      [226, 128, 128], [226, 128, 129], [226, 128, 130], [226, 128, 131], [226, 128, 132],
      [226, 128, 133], [226, 128, 134], [226, 128, 135], [226, 128, 136], [226, 128, 137],
      [226, 128, 138], [226, 128, 168], [226, 128, 169], [226, 128, 175], [226, 129, 159],
      [227, 128, 128]]"

text \<open>The width of the white-space rune a string starts with, 0 if it starts with none.\<close>

definition space_prefix :: "string \<Rightarrow> nat" where
  "space_prefix s =
     (case List.find (\<lambda>q. take (length q) (map byte s) = q) space_seqs of
        None \<Rightarrow> 0 | Some q \<Rightarrow> length q)"

definition space_suffix :: "string \<Rightarrow> nat" where
  "space_suffix s =
     (case List.find (\<lambda>q. take (length q) (map byte (rev s)) = rev q) space_seqs of
        None \<Rightarrow> 0 | Some q \<Rightarrow> length q)"

function trim_left :: "string \<Rightarrow> string" where
  "trim_left s = (if s = [] \<or> space_prefix s = 0 then s else trim_left (drop (space_prefix s) s))"
  by pat_completeness auto
termination
  by (relation "measure length") auto

function trim_right :: "string \<Rightarrow> string" where
  "trim_right s =
     (if s = [] \<or> space_suffix s = 0 then s
      else trim_right (take (length s - space_suffix s) s))"
  by pat_completeness auto
termination
  by (relation "measure length") auto

declare trim_left.simps [simp del] trim_right.simps [simp del]

definition TrimSpace :: "string \<Rightarrow> string" where
  "TrimSpace s = trim_right (trim_left s)"

lemma TrimSpace_Nil [simp]: "TrimSpace [] = []"
  by (simp add: TrimSpace_def trim_left.simps trim_right.simps)

text \<open>For evaluating the trims and the digits of a concrete string.\<close>

lemmas trim_eval =
  TrimSpace_def trim_left.simps trim_right.simps space_prefix_def space_suffix_def
  byte_def space_seqs_def

lemmas digits_eval =
  show_nat.simps digit_char_eval digits_val_def digit_val_def is_digit_def byte_def

text \<open>A string that starts and ends with a printable ASCII byte is its own trim.\<close>

definition plain_char :: "char \<Rightarrow> bool" where
  "plain_char c \<longleftrightarrow> 32 < byte c \<and> byte c < 128"

lemma find_space_None:
  assumes "\<And>q. q \<in> set space_seqs \<Longrightarrow> \<not> P q"
  shows "List.find P space_seqs = None"
  using assms by (auto simp: find_None_iff)

lemma space_prefix_plain:
  assumes "plain_char c"
  shows "space_prefix (c # s) = 0"
proof -
  have "List.find (\<lambda>q. take (length q) (map byte (c # s)) = q) space_seqs = None"
    using assms by (auto simp: find_None_iff space_seqs_def plain_char_def)
  then show ?thesis by (simp add: space_prefix_def)
qed

lemma space_suffix_plain:
  assumes "plain_char c"
  shows "space_suffix (s @ [c]) = 0"
proof -
  have "List.find (\<lambda>q. take (length q) (map byte (rev (s @ [c]))) = rev q) space_seqs = None"
    using assms by (auto simp: find_None_iff space_seqs_def plain_char_def)
  then show ?thesis by (simp add: space_suffix_def)
qed

lemma TrimSpace_plain:
  assumes "s \<noteq> []" "plain_char (hd s)" "plain_char (last s)"
  shows "TrimSpace s = s"
proof -
  have "space_prefix s = 0"
    using assms by (cases s) (simp_all add: space_prefix_plain)
  moreover have "space_suffix s = 0"
    using space_suffix_plain [OF assms(3), of "butlast s"] assms(1) by simp
  ultimately show ?thesis
    by (simp add: TrimSpace_def trim_left.simps trim_right.simps)
qed

lemma plain_digit: "is_digit c \<Longrightarrow> plain_char c"
  by (simp add: is_digit_def plain_char_def)

lemma plain_punct [simp]: "plain_char (CHR ''-'')" "plain_char (CHR ''.'')"
  by (simp_all add: plain_char_def byte_def)

section \<open>Searching and splitting\<close>

text \<open>\<open>strings.Cut\<close> at a one-byte separator: before, after, and whether it was found.\<close>

fun Cut :: "string \<Rightarrow> char \<Rightarrow> string \<times> string \<times> bool" where
  "Cut [] sep = ([], [], False)"
| "Cut (c # s) sep =
     (if c = sep then ([], s, True)
      else (case Cut s sep of (a, b, f) \<Rightarrow> if f then (c # a, b, True) else (c # s, [], False)))"

lemma Cut_append:
  "\<forall>c \<in> set a. c \<noteq> sep \<Longrightarrow> Cut (a @ sep # b) sep = (a, b, True)"
  by (induction a) auto

lemma Cut_absent: "\<forall>c \<in> set a. c \<noteq> sep \<Longrightarrow> Cut a sep = (a, [], False)"
  by (induction a) auto

lemma Cut_join: "Cut s sep = (a, b, True) \<Longrightarrow> s = a @ sep # b"
  by (induction s arbitrary: a b) (auto split: if_splits prod.splits)

definition HasPrefix :: "string \<Rightarrow> string \<Rightarrow> bool" where
  "HasPrefix s p \<longleftrightarrow> take (length p) s = p"

definition TrimPrefix :: "string \<Rightarrow> string \<Rightarrow> string" where
  "TrimPrefix s p = (if HasPrefix s p then drop (length p) s else s)"

text \<open>\<open>strings.Join\<close> and \<open>strings.Split\<close> at a one-byte separator.\<close>

fun Join :: "string list \<Rightarrow> string \<Rightarrow> string" where
  "Join [] sep = []"
| "Join [x] sep = x"
| "Join (x # y # xs) sep = x @ sep @ Join (y # xs) sep"

fun Split :: "string \<Rightarrow> char \<Rightarrow> string list" where
  "Split [] sep = [[]]"
| "Split (c # s) sep =
     (if c = sep then [] # Split s sep
      else (case Split s sep of [] \<Rightarrow> [[c]] | x # xs \<Rightarrow> (c # x) # xs))"

lemma Split_nonempty [simp]: "Split s sep \<noteq> []"
  by (induction s) (auto split: list.splits)

lemma Join_Split: "Join (Split s sep) [sep] = s"
proof (induction s)
  case (Cons c s)
  obtain x xs where x: "Split s sep = x # xs"
    by (cases "Split s sep") auto
  with Cons.IH show ?case by (cases xs) auto
qed simp

end
