(* ===== verification/GoFloat.thy ===== *)
theory GoFloat
  imports Complex_Main Prelude "HOL-Library.Word"
begin

text \<open>
  Go's \<open>float64\<close>: the IEEE 754 binary64 numbers, as NaN, the two infinities and the
  finite values, which are rationals. Every arithmetic operation computes exactly on the
  rationals and rounds once to the nearest representable value, ties to even
  (\<open>rnd64\<close>). The sign of a zero is not kept: no operation of the modelled program
  depends on it. Go's \<open>int64\<close> is a 64-bit word read with \<^const>\<open>sint\<close>.
\<close>

datatype f64 = NaN | PInf | NInf | Fin rat

type_synonym i64 = "64 word"

section \<open>Rounding to binary64\<close>

text \<open>The exponent of the leading bit of a positive natural number.\<close>

fun ilog2 :: "nat \<Rightarrow> nat" where
  "ilog2 n = (if n < 2 then 0 else Suc (ilog2 (n div 2)))"

declare ilog2.simps [simp del]

lemma ilog2_bounds: "0 < n \<Longrightarrow> 2 ^ ilog2 n \<le> n \<and> n < 2 * 2 ^ ilog2 n"
proof (induction n rule: ilog2.induct)
  case (1 n)
  show ?case
  proof (cases "n < 2")
    case True
    with "1.prems" show ?thesis by (simp add: ilog2.simps [of n])
  next
    case False
    with 1 have "2 ^ ilog2 (n div 2) \<le> n div 2 \<and> n div 2 < 2 * 2 ^ ilog2 (n div 2)" by simp
    with False show ?thesis by (simp add: ilog2.simps [of n]) linarith
  qed
qed

definition pow2 :: "int \<Rightarrow> rat" where
  "pow2 e = (if 0 \<le> e then 2 ^ nat e else 1 / 2 ^ nat (- e))"

lemma pow2_powi: "pow2 e = 2 powi e"
  by (simp add: pow2_def power_int_def field_simps)

lemma pow2_pos [simp]: "0 < pow2 e"
  by (simp add: pow2_def)

lemma pow2_add: "pow2 (a + b) = pow2 a * pow2 b"
  by (simp add: pow2_powi power_int_add)

lemma pow2_mono: "a \<le> b \<Longrightarrow> pow2 a \<le> pow2 b"
  by (simp add: pow2_powi power_int_increasing)

lemma pow2_nat [simp]: "pow2 (int n) = 2 ^ n"
  by (simp add: pow2_def)

text \<open>The exponent of the leading bit of a positive rational.\<close>

definition exp2 :: "rat \<Rightarrow> int" where
  "exp2 a =
     (let (n, d) = quotient_of a; e = int (ilog2 (nat n)) - int (ilog2 (nat d))
      in if pow2 e \<le> a then e else e - 1)"

lemma exp2_bounds:
  assumes "0 < a"
  shows "pow2 (exp2 a) \<le> a \<and> a < pow2 (exp2 a + 1)"
proof -
  obtain n d where nd: "quotient_of a = (n, d)" by (cases "quotient_of a")
  then have d: "0 < d" and a: "a = of_int n / of_int d"
    by (simp_all add: quotient_of_denom_pos quotient_of_div)
  with assms have n: "0 < n" by (simp add: zero_less_divide_iff)
  define p q where "p = ilog2 (nat n)" and "q = ilog2 (nat d)"
  define e where "e = int p - int q"
  have "2 ^ p \<le> nat n \<and> nat n < 2 * 2 ^ p" and "2 ^ q \<le> nat d \<and> nat d < 2 * 2 ^ q"
    using ilog2_bounds [of "nat n"] ilog2_bounds [of "nat d"] n d by (simp_all add: p_def q_def)
  then have ni: "2 ^ p \<le> n \<and> n < 2 * 2 ^ p" and di: "2 ^ q \<le> d \<and> d < 2 * 2 ^ q"
    using n d by (auto simp: le_nat_iff nat_less_iff)
  have nr: "(2::rat) ^ p \<le> of_int n" "of_int n < (2::rat) * 2 ^ p"
    using ni of_int_le_iff [of "2 ^ p" n, where 'a = rat]
      of_int_less_iff [of n "2 * 2 ^ p", where 'a = rat] by simp_all
  have dr: "(2::rat) ^ q \<le> of_int d" "of_int d < (2::rat) * 2 ^ q"
    using di of_int_le_iff [of "2 ^ q" d, where 'a = rat]
      of_int_less_iff [of d "2 * 2 ^ q", where 'a = rat] by simp_all
  have pe: "pow2 e = 2 ^ p / 2 ^ q"
    by (simp add: e_def pow2_powi power_int_diff)
  have d0: "0 < (of_int d :: rat)" using d by simp
  have upper: "a < pow2 (e + 1)"
  proof -
    have "of_int n * (2::rat) ^ q < (2 * 2 ^ p) * of_int d"
      by (rule mult_less_le_imp_less [OF nr(2) dr(1)]) (use n in simp_all)
    then show ?thesis
      using d0 by (simp add: a pow2_add pe field_simps) (simp add: pow2_def)
  qed
  have lower: "pow2 (e - 1) \<le> a"
  proof -
    have "(2::rat) ^ p * of_int d \<le> of_int n * (2 * 2 ^ q)"
      by (rule mult_mono [OF nr(1) less_imp_le [OF dr(2)]]) (use n d0 in simp_all)
    then have "pow2 e * (1/2) \<le> a"
      using d0 by (simp add: a pe field_simps)
    moreover have "pow2 (e - 1) = pow2 e * (1/2)"
      using pow2_add [of e "- 1"] by (simp add: pow2_def [of "- 1"])
    ultimately show ?thesis by simp
  qed
  have "exp2 a = (if pow2 e \<le> a then e else e - 1)"
    by (simp add: exp2_def nd e_def p_def q_def)
  with upper lower show ?thesis by auto
qed

definition round_half_even :: "rat \<Rightarrow> int" where
  "round_half_even x =
     (let f = \<lfloor>x\<rfloor>; r = x - of_int f
      in if r < 1/2 then f else if 1/2 < r then f + 1 else if even f then f else f + 1)"

lemma round_half_even_int [simp]: "round_half_even (of_int n) = n"
  by (simp add: round_half_even_def)

text \<open>
  The nearest binary64 value: 53 significant bits, the least exponent \<open>-1074\<close>, infinity
  from \<open>2 ^ 1024\<close> on.
\<close>

definition rnd64 :: "rat \<Rightarrow> f64" where
  "rnd64 q =
     (if q = 0 then Fin 0
      else
        let a = \<bar>q\<bar>; k = max (exp2 a - 52) (- 1074);
            v = of_int (round_half_even (a / pow2 k)) * pow2 k
        in if 2 ^ 1024 \<le> v then (if q < 0 then NInf else PInf) else Fin (sgn q * v))"

lemma rnd64_exact:
  assumes "q \<noteq> 0" "\<bar>q\<bar> = of_int m * pow2 (max (exp2 \<bar>q\<bar> - 52) (- 1074))" "\<bar>q\<bar> < 2 ^ 1024"
  shows "rnd64 q = Fin q"
proof -
  define k where "k = max (exp2 \<bar>q\<bar> - 52) (- 1074)"
  have q: "\<bar>q\<bar> = of_int m * pow2 k" using assms(2) by (simp add: k_def)
  then have "\<bar>q\<bar> / pow2 k = of_int m"
    using pow2_pos [of k] by (simp add: less_imp_neq [symmetric])
  then have "of_int (round_half_even (\<bar>q\<bar> / pow2 k)) * pow2 k = \<bar>q\<bar>"
    by (simp add: q)
  moreover have "sgn q * \<bar>q\<bar> = q" by (simp add: sgn_mult_abs)
  ultimately show ?thesis
    using assms(1,3) by (simp add: rnd64_def Let_def flip: k_def)
qed

text \<open>For evaluating a rounding: the exponent is determined by its bounds.\<close>

lemma exp2_eqI:
  assumes "pow2 e \<le> a" "a < pow2 (e + 1)"
  shows "exp2 a = e"
proof -
  have "0 < a" using assms(1) pow2_pos [of e] by linarith
  then have b: "pow2 (exp2 a) \<le> a" "a < pow2 (exp2 a + 1)" using exp2_bounds by auto
  have "\<not> e < exp2 a"
    using pow2_mono [of "e + 1" "exp2 a"] assms(2) b(1) by fastforce
  moreover have "\<not> exp2 a < e"
    using pow2_mono [of "exp2 a + 1" e] assms(1) b(2) by fastforce
  ultimately show ?thesis by simp
qed

lemma rnd64_eval:
  assumes "pow2 e \<le> \<bar>q\<bar>" "\<bar>q\<bar> < pow2 (e + 1)" "- 1022 \<le> e"
    "v = of_int (round_half_even (\<bar>q\<bar> / pow2 (e - 52))) * pow2 (e - 52)" "v < 2 ^ 1024"
  shows "rnd64 q = Fin (sgn q * v)"
proof -
  have e: "exp2 \<bar>q\<bar> = e" using assms(1,2) by (rule exp2_eqI)
  have "q \<noteq> 0" using assms(1) pow2_pos [of e] by (metis abs_zero not_less)
  moreover have "max (e - 52) (- 1074) = e - 52" using assms(3) by simp
  ultimately show ?thesis
    using assms(4,5) by (simp add: rnd64_def e Let_def)
qed

text \<open>Every integer of at most 53 bits is representable.\<close>

lemma rnd64_of_int:
  assumes "\<bar>n\<bar> \<le> 2 ^ 53"
  shows "rnd64 (of_int n) = Fin (of_int n)"
proof (cases "n = 0")
  case True
  then show ?thesis by (simp add: rnd64_def)
next
  case False
  define a :: rat where "a = of_int \<bar>n\<bar>"
  have a: "\<bar>of_int n :: rat\<bar> = a" and a1: "1 \<le> a" and a53: "a \<le> 2 ^ 53"
    using False assms of_int_le_iff [of "\<bar>n\<bar>" "2 ^ 53", where 'a = rat]
    by (simp_all add: a_def)
  have a0: "0 < a" using a1 by linarith
  have e: "pow2 (exp2 a) \<le> a" "a < pow2 (exp2 a + 1)"
    using exp2_bounds [OF a0] by simp_all
  have e0: "0 \<le> exp2 a"
  proof (rule ccontr)
    assume "\<not> 0 \<le> exp2 a"
    then have "pow2 (exp2 a + 1) \<le> pow2 0" by (intro pow2_mono) simp
    with e(2) a1 show False by (simp add: pow2_def [of 0])
  qed
  have e53: "exp2 a \<le> 53"
  proof (rule ccontr)
    assume "\<not> exp2 a \<le> 53"
    then have "pow2 54 \<le> pow2 (exp2 a)" by (intro pow2_mono) simp
    moreover have "pow2 54 = 2 ^ 54" by (simp add: pow2_def)
    ultimately show False using e(1) a53 by simp
  qed
  have k: "max (exp2 a - 52) (- 1074) = exp2 a - 52" using e0 by simp
  have "\<exists>m. a = of_int m * pow2 (exp2 a - 52)"
  proof (cases "exp2 a = 53")
    case True
    then have "2 ^ 53 \<le> a" using e(1) by (simp add: pow2_def)
    with a53 have "a = 2 ^ 53" by simp
    then have "a = of_int (2 ^ 52) * pow2 (exp2 a - 52)"
      using True by (simp add: pow2_def)
    then show ?thesis by blast
  next
    case False
    with e53 have "0 \<le> 52 - exp2 a" by simp
    then have "pow2 (52 - exp2 a) = of_int (2 ^ nat (52 - exp2 a))"
      by (simp add: pow2_def)
    moreover have "pow2 (52 - exp2 a) * pow2 (exp2 a - 52) = 1"
      by (simp flip: pow2_add) (simp add: pow2_def)
    ultimately have "a = of_int (\<bar>n\<bar> * 2 ^ nat (52 - exp2 a)) * pow2 (exp2 a - 52)"
      by (simp add: a_def mult.assoc)
    then show ?thesis by blast
  qed
  then obtain m where m: "a = of_int m * pow2 (max (exp2 a - 52) (- 1074))"
    unfolding k by blast
  have "(2::rat) ^ 53 < 2 ^ 1024" by simp
  with a53 have "a < 2 ^ 1024" by linarith
  with m False show ?thesis by (intro rnd64_exact) (simp_all add: a)
qed

text \<open>Rounding an integer gives an integer (or an infinity).\<close>

lemma rnd64_int_whole:
  assumes "rnd64 (of_int n) = Fin x"
  shows "\<exists>m. x = of_int m"
proof (cases "n = 0")
  case True
  with assms show ?thesis by (auto simp: rnd64_def intro: exI [of _ 0])
next
  case False
  define k where "k = max (exp2 \<bar>of_int n\<bar> - 52) (- 1074)"
  define v where "v = of_int (round_half_even (\<bar>of_int n\<bar> / pow2 k)) * pow2 k"
  have x: "x = sgn (of_int n) * v"
    using assms False by (simp add: rnd64_def Let_def k_def v_def split: if_splits)
  have "\<exists>m. v = of_int m"
  proof (cases "0 \<le> k")
    case True
    then have "pow2 k = of_int (2 ^ nat k)" by (simp add: pow2_def)
    then have "v = of_int (round_half_even (\<bar>of_int n\<bar> / pow2 k) * 2 ^ nat k)"
      by (simp add: v_def)
    then show ?thesis by blast
  next
    case neg: False
    then have "1 / pow2 k = of_int (2 ^ nat (- k))" by (simp add: pow2_def)
    then have "\<bar>of_int n\<bar> / pow2 k = of_int (\<bar>n\<bar> * 2 ^ nat (- k))"
      by (simp add: divide_inverse)
    then have "v = of_int (\<bar>n\<bar> * 2 ^ nat (- k)) * pow2 k"
      by (simp only: v_def round_half_even_int)
    also have "\<dots> = of_int \<bar>n\<bar>" using neg by (simp add: pow2_def)
    finally show ?thesis by blast
  qed
  then obtain m where "v = of_int m" by blast
  then have "x = of_int (sgn n * m)" by (simp add: x sgn_if)
  then show ?thesis by blast
qed

section \<open>Operations\<close>

fun is_nan :: "f64 \<Rightarrow> bool" where
  "is_nan NaN = True" | "is_nan _ = False"

fun is_inf :: "f64 \<Rightarrow> bool" where
  "is_inf PInf = True" | "is_inf NInf = True" | "is_inf _ = False"

text \<open>Go's \<open>==\<close> and \<open><\<close> on \<open>float64\<close>: a NaN is equal to nothing and below nothing.\<close>

fun f_eq :: "f64 \<Rightarrow> f64 \<Rightarrow> bool" where
  "f_eq NaN _ = False"
| "f_eq _ NaN = False"
| "f_eq x y = (x = y)"

fun f_lt :: "f64 \<Rightarrow> f64 \<Rightarrow> bool" where
  "f_lt (Fin x) (Fin y) = (x < y)"
| "f_lt NInf PInf = True"
| "f_lt NInf (Fin _) = True"
| "f_lt (Fin _) PInf = True"
| "f_lt _ _ = False"

fun f_abs :: "f64 \<Rightarrow> f64" where
  "f_abs (Fin x) = Fin \<bar>x\<bar>"
| "f_abs NaN = NaN"
| "f_abs _ = PInf"

definition f_inf :: "rat \<Rightarrow> f64" where
  "f_inf s = (if s = 0 then NaN else if s < 0 then NInf else PInf)"

fun f_mul :: "f64 \<Rightarrow> f64 \<Rightarrow> f64" where
  "f_mul (Fin x) (Fin y) = rnd64 (x * y)"
| "f_mul (Fin x) PInf = f_inf x"
| "f_mul (Fin x) NInf = f_inf (- x)"
| "f_mul PInf (Fin y) = f_inf y"
| "f_mul NInf (Fin y) = f_inf (- y)"
| "f_mul PInf PInf = PInf"
| "f_mul PInf NInf = NInf"
| "f_mul NInf PInf = NInf"
| "f_mul NInf NInf = PInf"
| "f_mul _ _ = NaN"

fun f_div_fin :: "f64 \<Rightarrow> rat \<Rightarrow> f64" where
  "f_div_fin (Fin x) d = (if d = 0 then f_inf x else rnd64 (x / d))"
| "f_div_fin x d = x"

text \<open>\<open>math.Round\<close>: the nearest integer, ties away from zero; exact on every finite value.\<close>

definition round_away :: "rat \<Rightarrow> int" where
  "round_away x = (if x < 0 then - \<lfloor>- x + 1/2\<rfloor> else \<lfloor>x + 1/2\<rfloor>)"

fun f_round :: "f64 \<Rightarrow> f64" where
  "f_round (Fin x) = Fin (of_int (round_away x))"
| "f_round x = x"

lemma round_away_int [simp]: "round_away (of_int n) = n"
  by (simp add: round_away_def floor_eq_iff)

lemma round_away_error: "\<bar>of_int (round_away x) - x\<bar> \<le> 1/2"
proof -
  define f where "f y = \<lfloor>y + 1/2\<rfloor>" for y :: rat
  have f: "of_int (f y) \<le> y + 1/2 \<and> y + 1/2 < of_int (f y) + 1" for y
    using floor_correct [of "y + 1/2"] by (simp add: f_def)
  have "round_away x = (if x < 0 then - f (- x) else f x)"
    by (simp add: round_away_def f_def)
  then show ?thesis
    using f [of x] f [of "- x"] unfolding abs_le_iff by (cases "x < 0") simp_all
qed

text \<open>
  Conversions between \<open>int64\<close> and \<open>float64\<close>. A float whose truncation does not fit has an
  implementation-dependent conversion in Go; \<open>cv\<close> is what the implementation at hand
  makes of it.
\<close>

definition trunc :: "rat \<Rightarrow> int" where
  "trunc x = (if x < 0 then - \<lfloor>- x\<rfloor> else \<lfloor>x\<rfloor>)"

lemma trunc_int [simp]: "trunc (of_int n) = n"
  by (simp add: trunc_def)

definition fits64 :: "int \<Rightarrow> bool" where
  "fits64 n \<longleftrightarrow> - (2 ^ 63) \<le> n \<and> n < 2 ^ 63"

fun to_i64 :: "(f64 \<Rightarrow> i64) \<Rightarrow> f64 \<Rightarrow> i64" where
  "to_i64 cv (Fin x) = (if fits64 (trunc x) then word_of_int (trunc x) else cv (Fin x))"
| "to_i64 cv x = cv x"

definition of_i64 :: "i64 \<Rightarrow> f64" where
  "of_i64 n = rnd64 (of_int (sint n))"

lemma fits64_sint [simp]: "fits64 (sint (n :: i64))"
  using sint_ge [of n] sint_less [of n] by (simp add: fits64_def)

lemma sint_word_of_int64: "fits64 n \<Longrightarrow> sint (word_of_int n :: i64) = n"
  by (simp add: fits64_def signed_of_int signed_take_bit_int_eq_self)

lemma of_i64_small: "\<bar>sint n\<bar> \<le> 2 ^ 53 \<Longrightarrow> of_i64 n = Fin (of_int (sint n))"
  unfolding of_i64_def by (rule rnd64_of_int)

text \<open>
  Two implementations of the out-of-range conversion: amd64's \<open>CVTTSD2SQ\<close> gives
  \<open>math.MinInt64\<close>, arm64's \<open>FCVTZS\<close> saturates (and sends NaN to 0).
\<close>

definition cv_amd64 :: "f64 \<Rightarrow> i64" where
  "cv_amd64 x = word_of_int (- (2 ^ 63))"

fun cv_arm64 :: "f64 \<Rightarrow> i64" where
  "cv_arm64 (Fin x) = (if x < 0 then word_of_int (- (2 ^ 63)) else word_of_int (2 ^ 63 - 1))"
| "cv_arm64 PInf = word_of_int (2 ^ 63 - 1)"
| "cv_arm64 NInf = word_of_int (- (2 ^ 63))"
| "cv_arm64 NaN = 0"

end
