(* ===== verification/GoTime.thy ===== *)
theory GoTime
  imports GoStrings
begin

text \<open>
  The calendar part of Go's \<open>time\<close> package that the program uses: dates in the ISO layout
  \<open>2006-01-02\<close>, their validity and their order.
\<close>

section \<open>Civil dates\<close>

record date =
  d_year :: nat
  d_month :: nat
  d_day :: nat

definition is_leap :: "nat \<Rightarrow> bool" where
  "is_leap y \<longleftrightarrow> y mod 4 = 0 \<and> (y mod 100 \<noteq> 0 \<or> y mod 400 = 0)"

definition days_in :: "nat \<Rightarrow> nat \<Rightarrow> nat" where
  "days_in y m =
     (if m = 2 then (if is_leap y then 29 else 28)
      else if m \<in> {4, 6, 9, 11} then 30 else 31)"

definition valid_date :: "date \<Rightarrow> bool" where
  "valid_date d \<longleftrightarrow>
     1 \<le> d_month d \<and> d_month d \<le> 12 \<and> 1 \<le> d_day d \<and> d_day d \<le> days_in (d_year d) (d_month d)"

text \<open>
  \<open>time.Parse("2006-01-02", s)\<close>: four digits, a hyphen, two digits, a hyphen, two digits
  and nothing more; the month and the day have to exist. \<open>None\<close> is the parse error.
\<close>

fun ParseDate :: "string \<Rightarrow> date option" where
  "ParseDate [y1, y2, y3, y4, h1, m1, m2, h2, d1, d2] =
     (if list_all is_digit [y1, y2, y3, y4, m1, m2, d1, d2] \<and> h1 = CHR ''-'' \<and> h2 = CHR ''-''
      then
        (let d = \<lparr>d_year = digits_val [y1, y2, y3, y4], d_month = digits_val [m1, m2],
                  d_day = digits_val [d1, d2]\<rparr>
         in if valid_date d then Some d else None)
      else None)"
| "ParseDate _ = None"

lemma ParseDate_valid: "ParseDate s = Some d \<Longrightarrow> valid_date d"
  by (induction s rule: ParseDate.induct) (auto simp: Let_def split: if_splits)

lemma ParseDate_Nil [simp]: "ParseDate [] = None"
  by simp

section \<open>Order\<close>

text \<open>\<open>Before\<close> and \<open>After\<close> of two dates at midnight UTC.\<close>

definition date_before :: "date \<Rightarrow> date \<Rightarrow> bool" where
  "date_before a b \<longleftrightarrow>
     d_year a < d_year b \<or>
     (d_year a = d_year b \<and>
       (d_month a < d_month b \<or> (d_month a = d_month b \<and> d_day a < d_day b)))"

lemma date_before_irrefl [simp]: "\<not> date_before a a"
  by (simp add: date_before_def)

lemma date_before_trans: "date_before a b \<Longrightarrow> date_before b c \<Longrightarrow> date_before a c"
  by (auto simp: date_before_def)

lemma date_not_before_trans:
  "\<not> date_before b a \<Longrightarrow> \<not> date_before c b \<Longrightarrow> \<not> date_before c a"
  by (auto simp: date_before_def)

lemma date_before_total: "date_before a b \<or> a = b \<or> date_before b a"
  by (cases a; cases b) (auto simp: date_before_def)

end
