(* ===== verification/GoValue.thy ===== *)
theory GoValue
  imports GoStrings GoFloat GoTime
begin

text \<open>
  Go's \<open>any\<close>, as far as a record's field map holds it: the values \<open>encoding/json\<close>
  decodes to, and the integers a Go caller may put there itself. A \<open>map[string]any\<close> has no
  order and is a finite map. Values of the dynamic types \<open>float32\<close> and \<open>int32\<close> are not in
  the model.
\<close>

datatype gval =
  VNil
| VStr string
| VNum f64
| VInt i64
| VInt64 i64
| VBool bool
| VMap "(string, gval) fmap"
| VList "gval list"

type_synonym fields = "(string, gval) fmap"

fun is_str :: "gval \<Rightarrow> bool" where
  "is_str (VStr _) = True"
| "is_str _ = False"

text \<open>\<open>s, _ := data[k].(string)\<close>: the empty string when the value is absent or no string.\<close>

definition str_field :: "fields \<Rightarrow> string \<Rightarrow> string" where
  "str_field d k = (case fmlookup d k of Some (VStr s) \<Rightarrow> s | _ \<Rightarrow> [])"

text \<open>\<open>b, _ := data[k].(bool)\<close>: false when the value is absent or no bool.\<close>

definition bool_field :: "fields \<Rightarrow> string \<Rightarrow> bool" where
  "bool_field d k = (case fmlookup d k of Some (VBool b) \<Rightarrow> b | _ \<Rightarrow> False)"

text \<open>\<open>data[k]\<close> of a Go map: the zero value \<open>nil\<close> for an absent key.\<close>

definition get_field :: "fields \<Rightarrow> string \<Rightarrow> gval" where
  "get_field d k = (case fmlookup d k of Some v \<Rightarrow> v | None \<Rightarrow> VNil)"

lemma str_field_upd [simp]:
  "str_field (fmupd k (VStr s) d) k = s"
  "k \<noteq> k' \<Longrightarrow> str_field (fmupd k v d) k' = str_field d k'"
  by (simp_all add: str_field_def)

lemma get_field_upd [simp]:
  "get_field (fmupd k v d) k = v"
  "k \<noteq> k' \<Longrightarrow> get_field (fmupd k v d) k' = get_field d k'"
  by (simp_all add: get_field_def)

lemma str_field_get_field:
  "str_field d k = (case get_field d k of VStr s \<Rightarrow> s | _ \<Rightarrow> [])"
  by (simp add: str_field_def get_field_def split: option.split)

section \<open>The environment\<close>

text \<open>
  What the program relies on and does not define: Go's out-of-range float conversion on the
  machine at hand, the text \<open>fmt.Sprint\<close> gives a float or a composite value, the text
  Postgres' \<open>->>\<close> gives a JSON number, object or array, the SHA-256 digest (in hex) of
  the JSON encoding of a list of values, and the texts Postgres reads as a uuid (with the
  canonical spelling it stores) and as a date, its lower-casing of a text (what \<open>ILIKE\<close>
  compares) and the sort key its collation gives a text. Every definition that needs one of them takes the
  environment as an argument; no property assumes anything about it unless it says so.
\<close>

record env =
  e_cv :: "f64 \<Rightarrow> i64"
  e_sprint :: "gval \<Rightarrow> string"
  e_jtext :: "gval \<Rightarrow> string"
  e_digest :: "gval list \<Rightarrow> string"
  e_uuid :: "string \<Rightarrow> string option"
  e_pgdate :: "string \<Rightarrow> date option"
  e_lower :: "string \<Rightarrow> string"
  e_collate :: "string \<Rightarrow> string"

text \<open>\<open>fmt.Sprint\<close> of one value.\<close>

fun sprint :: "env \<Rightarrow> gval \<Rightarrow> string" where
  "sprint E (VStr s) = s"
| "sprint E (VBool b) = (if b then ''true'' else ''false'')"
| "sprint E (VInt n) = FormatInt (sint n)"
| "sprint E (VInt64 n) = FormatInt (sint n)"
| "sprint E VNil = ''<nil>''"
| "sprint E v = e_sprint E v"

section \<open>JSON\<close>

text \<open>
  A value survives \<open>json.Marshal\<close> unless it holds a NaN or an infinity; decoding it again
  turns every number into a \<open>float64\<close>. Strings are taken to be valid UTF-8.
\<close>

primrec json_ok :: "gval \<Rightarrow> bool" where
  "json_ok VNil = True"
| "json_ok (VStr s) = True"
| "json_ok (VNum x) = (\<not> is_nan x \<and> \<not> is_inf x)"
| "json_ok (VInt n) = True"
| "json_ok (VInt64 n) = True"
| "json_ok (VBool b) = True"
| "json_ok (VMap m) = (False |\<notin>| fmran (fmmap json_ok m))"
| "json_ok (VList xs) = list_all id (map json_ok xs)"

primrec json_norm :: "gval \<Rightarrow> gval" where
  "json_norm VNil = VNil"
| "json_norm (VStr s) = VStr s"
| "json_norm (VNum x) = VNum x"
| "json_norm (VInt n) = VNum (of_i64 n)"
| "json_norm (VInt64 n) = VNum (of_i64 n)"
| "json_norm (VBool b) = VBool b"
| "json_norm (VMap m) = VMap (fmmap json_norm m)"
| "json_norm (VList xs) = VList (map json_norm xs)"

definition json_norm_fields :: "fields \<Rightarrow> fields" where
  "json_norm_fields d = fmmap json_norm d"

definition json_ok_fields :: "fields \<Rightarrow> bool" where
  "json_ok_fields d = (False |\<notin>| fmran (fmmap json_ok d))"

lemma fmlookup_json_norm [simp]:
  "fmlookup (json_norm_fields d) k = map_option json_norm (fmlookup d k)"
  by (simp add: json_norm_fields_def)

lemma json_norm_is_str [simp]: "json_norm v = VStr s \<longleftrightarrow> v = VStr s"
  by (cases v) simp_all

lemma json_norm_is_bool [simp]: "json_norm v = VBool b \<longleftrightarrow> v = VBool b"
  by (cases v) simp_all

lemma json_norm_is_nil [simp]: "json_norm v = VNil \<longleftrightarrow> v = VNil"
  by (cases v) simp_all

lemma str_field_json_norm [simp]: "str_field (json_norm_fields d) k = str_field d k"
proof (cases "fmlookup d k")
  case (Some v)
  then show ?thesis by (cases v) (simp_all add: str_field_def)
qed (simp add: str_field_def)

lemma bool_field_json_norm [simp]: "bool_field (json_norm_fields d) k = bool_field d k"
proof (cases "fmlookup d k")
  case (Some v)
  then show ?thesis by (cases v) (simp_all add: bool_field_def)
qed (simp add: bool_field_def)

lemma json_norm_idem [simp]: "json_norm (json_norm v) = json_norm v"
proof (induction v)
  case (VMap m)
  then have "fmmap (json_norm \<circ> json_norm) m = fmmap json_norm m"
    by (intro fmap.map_cong0) simp
  then show ?case by (simp add: fmap.map_comp)
qed simp_all

text \<open>
  \<open>data->>k\<close> of a stored document: SQL NULL (\<open>None\<close>) for an absent key and for a JSON
  null, the characters of a string, \<open>true\<close> or \<open>false\<close>, and the JSON text of the rest.
\<close>

fun jsonb_text :: "env \<Rightarrow> gval \<Rightarrow> string option" where
  "jsonb_text E VNil = None"
| "jsonb_text E (VStr s) = Some s"
| "jsonb_text E (VBool b) = Some (if b then ''true'' else ''false'')"
| "jsonb_text E v = Some (e_jtext E v)"

definition arrow_text :: "env \<Rightarrow> fields \<Rightarrow> string \<Rightarrow> string option" where
  "arrow_text E d k = jsonb_text E (get_field d k)"

lemma arrow_text_str: "str_field d k = s \<Longrightarrow> s \<noteq> [] \<Longrightarrow> arrow_text E d k = Some s"
  by (auto simp: str_field_get_field arrow_text_def split: gval.splits)

section \<open>Equality\<close>

primrec has_nan :: "gval \<Rightarrow> bool" where
  "has_nan VNil = False"
| "has_nan (VStr s) = False"
| "has_nan (VNum x) = is_nan x"
| "has_nan (VInt n) = False"
| "has_nan (VInt64 n) = False"
| "has_nan (VBool b) = False"
| "has_nan (VMap m) = (True |\<in>| fmran (fmmap has_nan m))"
| "has_nan (VList xs) = list_ex id (map has_nan xs)"

text \<open>\<open>reflect.DeepEqual\<close>: structural equality, except that a NaN is not equal to itself.\<close>

definition DeepEqual :: "gval \<Rightarrow> gval \<Rightarrow> bool" where
  "DeepEqual a b \<longleftrightarrow> a = b \<and> \<not> has_nan a"

end
