(* ===== verification/Money.thy ===== *)
theory Money
  imports GoValue
begin

text \<open>
  \<open>internal/kernel/money/money.go\<close> and \<open>internal/kernel/ledger/money.go\<close>: amounts as
  64-bit counts of minor units, their parsing and printing, and the conversions from the
  \<open>float64\<close> amounts of number fields. A \<open>Money\<close> is an \<open>i64\<close>, so sums wrap as in Go.
\<close>

section \<open>The type and its constants\<close>

type_synonym money = i64

definition MaxMinorUnitScale :: int where
  "MaxMinorUnitScale = 6"

definition Decimals :: nat where
  "Decimals = 2"

datatype money_error =
  NotWhole
| NotANumber
| MinorUnitOutOfRange
| NotFinite
| TooLarge
| EmptyAmount
| InvalidAmount
| TooManyDecimals

section \<open>Conversions\<close>

text \<open>
  \<open>FromAny\<close>. The \<open>float64\<close> branch compares \<open>n\<close> with \<open>float64(int64(n))\<close>, whose inner
  conversion is implementation-dependent when \<open>n\<close> is out of range: it goes through \<open>cv\<close>.
\<close>

fun FromAny :: "(f64 \<Rightarrow> i64) \<Rightarrow> gval \<Rightarrow> (money_error, money) result" where
  "FromAny cv (VNum n) =
     (if \<not> f_eq n (of_i64 (to_i64 cv n)) then Inl NotWhole else Inr (to_i64 cv n))"
| "FromAny cv (VInt n) = Inr n"
| "FromAny cv (VInt64 n) = Inr n"
| "FromAny cv _ = Inl NotANumber"

text \<open>
  \<open>FromMajorUnits\<close>. \<open>math.Pow(10, k)\<close> is exact for \<open>k\<close> from 0 to 6, and \<open>math.Pow(2, 63)\<close>
  is \<open>2 ^ 63\<close>.
\<close>

definition FromMajorUnits :: "(f64 \<Rightarrow> i64) \<Rightarrow> f64 \<Rightarrow> int \<Rightarrow> (money_error, money) result" where
  "FromMajorUnits cv v minorUnit =
     (if minorUnit < 0 \<or> MaxMinorUnitScale < minorUnit then Inl MinorUnitOutOfRange
      else if is_nan v \<or> is_inf v then Inl NotFinite
      else
        (let scaled = f_round (f_mul v (Fin (10 ^ nat minorUnit)))
         in if \<not> f_lt (f_abs scaled) (Fin (2 ^ 63)) then Inl TooLarge
            else Inr (to_i64 cv scaled)))"

text \<open>\<open>ledger.ToMinorUnits\<close>: the older conversion, without any check.\<close>

definition ToMinorUnits :: "(f64 \<Rightarrow> i64) \<Rightarrow> f64 \<Rightarrow> i64" where
  "ToMinorUnits cv amount = to_i64 cv (f_round (f_mul amount (Fin 100)))"

definition Major :: "money \<Rightarrow> f64" where
  "Major m = f_div_fin (of_i64 m) 100"

section \<open>Parsing and printing\<close>

text \<open>\<open>isDigits\<close>: a non-empty run of ASCII digits.\<close>

definition isDigits :: "string \<Rightarrow> bool" where
  "isDigits s = (if s = [] then False else list_all is_digit s)"

text \<open>\<open>for len(frac) < Decimals { frac += "0" }\<close> and its mirror image in \<open>String\<close>.\<close>

definition pad_right :: "string \<Rightarrow> string" where
  "pad_right s = s @ replicate (Decimals - length s) (CHR ''0'')"

definition pad_left :: "string \<Rightarrow> string" where
  "pad_left s = replicate (Decimals - length s) (CHR ''0'') @ s"

text \<open>The sign of \<open>ParseString\<close>: whether the amount is negative, and what follows the sign.\<close>

fun split_sign :: "string \<Rightarrow> bool \<times> string" where
  "split_sign [] = (False, [])"
| "split_sign (c # cs) =
     (if c = CHR ''-'' then (True, cs) else if c = CHR ''+'' then (False, cs)
      else (False, c # cs))"

definition ParseString :: "string \<Rightarrow> (money_error, money) result" where
  "ParseString s0 =
     (let s = TrimSpace s0 in
      if s = [] then Inl EmptyAmount
      else
        (let (neg, rest) = split_sign s;
             (whole, fr, hasFrac) = Cut rest (CHR ''.'')
         in if whole = [] \<and> (\<not> hasFrac \<or> fr = []) then Inl InvalidAmount
            else if whole \<noteq> [] \<and> \<not> isDigits whole then Inl InvalidAmount
            else if fr \<noteq> [] \<and> \<not> isDigits fr then Inl InvalidAmount
            else if hasFrac \<and> Decimals < length fr then Inl TooManyDecimals
            else
              (case ParseInt10 ((if whole = [] then ''0'' else whole) @ pad_right fr) of
                 None \<Rightarrow> Inl InvalidAmount
               | Some n \<Rightarrow> Inr (if neg then - word_of_int n else word_of_int n))))"

text \<open>\<open>Money.String\<close>, built from \<open>strconv.FormatInt\<close>'s own digits.\<close>

definition money_String :: "money \<Rightarrow> string" where
  "money_String m =
     (let s = FormatInt (sint m);
          neg = HasPrefix s ''-'';
          digits = pad_left (TrimPrefix s ''-'');
          whole = take (length digits - Decimals) digits;
          fr = drop (length digits - Decimals) digits
      in (if neg then ''-'' else []) @ (if whole = [] then ''0'' else whole) @ ''.'' @ fr)"

text \<open>\<open>Sum\<close>: plain \<open>int64\<close> additions from 0.\<close>

definition Sum :: "money list \<Rightarrow> money" where
  "Sum ms = foldl (+) 0 ms"

section \<open>Facts about the digits\<close>

lemma digits_val_pad_left: "digits_val (pad_left s) = digits_val s"
proof -
  have "digits_val (replicate n (CHR ''0'') @ s) = digits_val s" for n
    by (induction n) simp_all
  then show ?thesis by (simp add: pad_left_def)
qed

lemma length_pad_left: "Decimals \<le> length (pad_left s)"
  by (simp add: pad_left_def)

lemma pad_left_digits: "list_all is_digit s \<Longrightarrow> list_all is_digit (pad_left s)"
  by (auto simp: pad_left_def list_all_iff)

lemma list_all_show_nat [simp]: "list_all is_digit (show_nat n)"
  using show_nat_digits by (simp add: list_all_iff)

lemma hd_show_nat: "hd (show_nat n) \<noteq> CHR ''-''"
proof -
  have "hd (show_nat n) \<in> set (show_nat n)" by (rule hd_in_set) simp
  then have "is_digit (hd (show_nat n))" using show_nat_digits by blast
  then show ?thesis by (simp add: digit_neq_punct)
qed

lemma show_nat_no_minus: "\<not> HasPrefix (show_nat n) ''-''"
  using hd_show_nat [of n] by (cases "show_nat n") (auto simp: HasPrefix_def)

lemma HasPrefix_FormatInt: "HasPrefix (FormatInt n) ''-'' \<longleftrightarrow> n < 0"
  by (simp add: FormatInt_def show_nat_no_minus) (simp add: HasPrefix_def)

lemma TrimPrefix_FormatInt: "TrimPrefix (FormatInt n) ''-'' = show_nat (nat \<bar>n\<bar>)"
  by (simp add: TrimPrefix_def HasPrefix_FormatInt) (simp add: FormatInt_def)

text \<open>
  What \<open>String\<close> prints: an optional sign, the whole part (never empty) and exactly two
  digits after the point, whose digits together are those of the magnitude.
\<close>

lemma money_String_shape:
  "\<exists>whole fr. money_String m = (if sint m < 0 then ''-'' else []) @ whole @ CHR ''.'' # fr \<and>
     whole \<noteq> [] \<and> list_all is_digit whole \<and> list_all is_digit fr \<and> length fr = 2 \<and>
     digits_val (whole @ fr) = nat \<bar>sint m\<bar>"
proof -
  define ds where "ds = pad_left (show_nat (nat \<bar>sint m\<bar>))"
  define k where "k = length ds - 2"
  have len: "2 \<le> length ds"
    using length_pad_left by (simp add: ds_def Decimals_def)
  have all: "list_all is_digit ds"
    by (simp add: ds_def pad_left_digits)
  have val: "digits_val ds = nat \<bar>sint m\<bar>"
    by (simp add: ds_def digits_val_pad_left)
  define whole where "whole = (if take k ds = [] then ''0'' else take k ds)"
  have "money_String m = (if sint m < 0 then ''-'' else []) @ whole @ CHR ''.'' # drop k ds"
    unfolding money_String_def Let_def HasPrefix_FormatInt TrimPrefix_FormatInt Decimals_def
      whole_def k_def ds_def by simp
  moreover have "list_all is_digit whole" "list_all is_digit (drop k ds)"
    using all by (auto simp: whole_def list_all_iff dest: in_set_takeD in_set_dropD)
  moreover have "digits_val (whole @ drop k ds) = nat \<bar>sint m\<bar>"
  proof (cases "take k ds = []")
    case True
    then have "drop k ds = ds" using append_take_drop_id [of k ds] by (metis append_Nil)
    with val show ?thesis unfolding whole_def if_P [OF True] by simp
  next
    case False
    with val show ?thesis unfolding whole_def if_not_P [OF False] by simp
  qed
  ultimately show ?thesis
    using len by (intro exI [of _ whole] exI [of _ "drop k ds"]) (simp add: whole_def k_def)
qed

lemma ParseString_shape:
  assumes "whole \<noteq> []" "list_all is_digit whole" "list_all is_digit fr" "length fr = 2"
  shows "ParseString ((if neg then ''-'' else []) @ whole @ CHR ''.'' # fr) =
    (if digits_val (whole @ fr) < 2 ^ 63
     then Inr (if neg then - word_of_nat (digits_val (whole @ fr))
               else word_of_nat (digits_val (whole @ fr)))
     else Inl InvalidAmount)"
proof -
  let ?s = "(if neg then ''-'' else []) @ whole @ CHR ''.'' # fr"
  obtain a b where fr: "fr = [a, b]"
    using assms(4) by (auto simp: numeral_2_eq_2 length_Suc_conv)
  have hw: "is_digit (hd whole)" using assms(1,2) by (cases whole) simp_all
  have trim: "TrimSpace ?s = ?s"
    using assms(3) hw assms(1)
    by (intro TrimSpace_plain) (auto simp: fr plain_digit hd_append)
  have sign: "split_sign ?s = (neg, whole @ CHR ''.'' # fr)"
    using hw assms(1) by (cases whole) (auto simp: digit_neq_punct)
  have cut: "Cut (whole @ CHR ''.'' # fr) (CHR ''.'') = (whole, fr, True)"
    using assms(2) by (intro Cut_append) (auto simp: list_all_iff)
  have "isDigits whole" "isDigits fr"
    using assms by (auto simp: isDigits_def)
  moreover have "isDigits_run (whole @ fr)"
    using assms by (simp add: isDigits_run_def)
  ultimately show ?thesis
    using assms(1,4) trim sign cut
    by (simp add: ParseString_def Let_def pad_right_def Decimals_def ParseInt10_def del: split_sign.simps)
qed

section \<open>Facts about the conversions\<close>

lemma f_eq_Fin [simp]: "f_eq (Fin x) y \<longleftrightarrow> y = Fin x"
  by (cases y) auto

lemma FromAny_NumI:
  assumes "fits64 (trunc q)" "rnd64 q = Fin q"
  shows "FromAny cv (VNum (Fin q)) =
    (if of_int \<lfloor>q\<rfloor> = q then Inr (word_of_int \<lfloor>q\<rfloor>) else Inl NotWhole)"
proof (cases "of_int \<lfloor>q\<rfloor> = q")
  case True
  then have t: "trunc q = \<lfloor>q\<rfloor>" by (metis trunc_int)
  have "of_i64 (word_of_int \<lfloor>q\<rfloor>) = rnd64 (of_int \<lfloor>q\<rfloor>)"
    using assms(1) unfolding of_i64_def t by (subst sint_word_of_int64) auto
  moreover have "rnd64 (of_int \<lfloor>q\<rfloor>) = Fin q" unfolding True by (rule assms(2))
  ultimately show ?thesis using True assms(1) t by simp
next
  case False
  have "of_i64 (word_of_int (trunc q)) \<noteq> Fin q"
  proof
    assume "of_i64 (word_of_int (trunc q)) = Fin q"
    then obtain m where "q = of_int m"
      using rnd64_int_whole unfolding of_i64_def by blast
    with False show False by simp
  qed
  with False assms(1) show ?thesis by simp
qed

lemma FromMajorUnits_cases:
  "FromMajorUnits cv v k =
     (if k < 0 \<or> 6 < k then Inl MinorUnitOutOfRange
      else case v of
        Fin x \<Rightarrow>
          (case rnd64 (x * 10 ^ nat k) of
             Fin p \<Rightarrow> if 2 ^ 63 \<le> \<bar>round_away p\<bar> then Inl TooLarge
                      else Inr (word_of_int (round_away p))
           | _ \<Rightarrow> Inl TooLarge)
      | _ \<Rightarrow> Inl NotFinite)"
proof -
  have big: "(2::rat) ^ 63 \<le> \<bar>of_int n\<bar> \<longleftrightarrow> 2 ^ 63 \<le> \<bar>n\<bar>" for n
    using of_int_le_iff [of "2 ^ 63" "\<bar>n\<bar>", where 'a = rat] by simp
  have fits: "fits64 n" if "\<bar>n\<bar> < 2 ^ 63" for n
    using that by (auto simp: fits64_def)
  show ?thesis
    using big fits
    by (auto simp: FromMajorUnits_def MaxMinorUnitScale_def Let_def not_less split: f64.splits)
qed

lemma FromMajorUnits_spec:
  assumes "FromMajorUnits cv v k = Inr m"
  shows "\<exists>x p. v = Fin x \<and> 0 \<le> k \<and> k \<le> 6 \<and> rnd64 (x * 10 ^ nat k) = Fin p \<and>
    sint m = round_away p \<and> \<bar>round_away p\<bar> < 2 ^ 63"
proof -
  have fits: "fits64 n" if "\<bar>n\<bar> < 2 ^ 63" for n
    using that by (auto simp: fits64_def)
  show ?thesis
    using assms fits
    by (auto simp: FromMajorUnits_cases sint_word_of_int64 not_le split: if_splits f64.splits)
qed

lemma Sum_eq: "Sum ms = sum_list ms"
proof -
  have "foldl (+) a ms = a + sum_list ms" for a
    by (induction ms arbitrary: a) (simp_all add: ac_simps)
  then show ?thesis by (simp add: Sum_def)
qed

lemma split_sign_cases:
  "split_sign s = (neg, rest) \<Longrightarrow>
     s = rest \<and> \<not> neg \<or> s = CHR ''+'' # rest \<and> \<not> neg \<or> s = CHR ''-'' # rest \<and> neg"
  by (cases s) (auto split: if_splits)

lemma Cut_not_found: "Cut s sep = (a, b, False) \<Longrightarrow> a = s \<and> b = []"
  by (induction s arbitrary: a b) (auto split: if_splits prod.splits)

lemma sint_word_of_nat64: "n < 2 ^ 63 \<Longrightarrow> sint (word_of_nat n :: i64) = int n"
  using sint_word_of_int64 [of "int n"] by (simp add: fits64_def)

lemma sint_minus_word_of_nat64: "n < 2 ^ 63 \<Longrightarrow> sint (- word_of_nat n :: i64) = - int n"
  using sint_word_of_int64 [of "- int n"] by (simp add: fits64_def)

lemma ParseString_Inr:
  assumes "ParseString s = Inr m"
  obtains neg whole fr has where
    "split_sign (TrimSpace s) = (neg, if has then whole @ CHR ''.'' # fr else whole)"
    "\<not> has \<Longrightarrow> fr = []"
    "list_all is_digit whole" "list_all is_digit fr" "length fr \<le> 2" "whole @ fr \<noteq> []"
    "sint m = (if neg then - 1 else 1) * int (digits_val (whole @ pad_right fr))"
proof -
  obtain neg rest where sr: "split_sign (TrimSpace s) = (neg, rest)" by fastforce
  obtain whole fr has where c: "Cut rest (CHR ''.'') = (whole, fr, has)"
    by (metis prod_cases3)
  have rest: "rest = (if has then whole @ CHR ''.'' # fr else whole)" "\<not> has \<Longrightarrow> fr = []"
    using c Cut_not_found Cut_join by (cases has; fastforce)+
  have *: "ParseInt10 ((if whole = [] then ''0'' else whole) @ pad_right fr) \<noteq> None"
    "whole @ fr \<noteq> []" "whole = [] \<or> isDigits whole" "fr = [] \<or> isDigits fr" "length fr \<le> 2"
    using assms rest(2)
    by (auto simp: ParseString_def Let_def sr c Decimals_def split: if_splits option.splits)
  have dv: "digits_val ((if whole = [] then ''0'' else whole) @ pad_right fr) =
      digits_val (whole @ pad_right fr)"
    by simp
  have n: "digits_val (whole @ pad_right fr) < 2 ^ 63"
    using *(1) unfolding ParseInt10_def dv by (auto split: if_splits)
  have "m = (if neg then - word_of_nat (digits_val (whole @ pad_right fr))
      else word_of_nat (digits_val (whole @ pad_right fr)))"
    using assms * unfolding ParseString_def Let_def sr c prod.case ParseInt10_def dv
    by (auto split: if_splits option.splits)
  then have "sint m = (if neg then - 1 else 1) * int (digits_val (whole @ pad_right fr))"
    using n by (simp add: sint_word_of_nat64 sint_minus_word_of_nat64)
  moreover have "list_all is_digit whole" "list_all is_digit fr"
    using *(3,4) by (auto simp: isDigits_def split: if_splits)
  ultimately show thesis
    using that [of neg has whole fr] *(2,5) rest sr by simp
qed

section \<open>Properties\<close>

text \<open>
  C1. Printing and parsing: every amount's canonical form parses back to that amount,
  except the least one: the digits of \<open>math.MinInt64\<close> do not fit before the sign is
  applied, and \<open>ParseString\<close> rejects them.
\<close>

theorem parse_print_roundtrip:
  "ParseString (money_String m) = (if sint m = - (2 ^ 63) then Inl InvalidAmount else Inr m)"
proof -
  obtain whole fr where
    s: "money_String m = (if sint m < 0 then ''-'' else []) @ whole @ CHR ''.'' # fr" and
    w: "whole \<noteq> []" "list_all is_digit whole" "list_all is_digit fr" "length fr = 2" and
    v: "digits_val (whole @ fr) = nat \<bar>sint m\<bar>"
    using money_String_shape by blast
  have fits: "- (2 ^ 63) \<le> sint m" "sint m < 2 ^ 63"
    using fits64_sint [of m] by (simp_all add: fits64_def)
  have neg: "- word_of_nat (nat \<bar>sint m\<bar>) = m" if "sint m < 0"
    using that by (simp flip: of_int_minus)
  have pos: "word_of_nat (nat \<bar>sint m\<bar>) = m" if "\<not> sint m < 0"
    using that by simp
  show ?thesis
    unfolding s ParseString_shape [OF w] v
    using fits neg pos by auto
qed

text \<open>
  What \<open>ParseString\<close> accepts and the amount it gives: after trimming, an optional
  sign, digits, and possibly a point and at most two more digits, with at least one digit
  in all; the amount is the digits with the fraction padded to two places, exactly, with
  the sign applied and no wrap-around.
\<close>

theorem parse_exact:
  assumes "ParseString s = Inr m"
  shows "\<exists>sign whole fr.
    (TrimSpace s = sign @ whole \<and> fr = [] \<or> TrimSpace s = sign @ whole @ ''.'' @ fr) \<and>
    sign \<in> {[], ''+'', ''-''} \<and> list_all is_digit (whole @ fr) \<and> whole @ fr \<noteq> [] \<and>
    length fr \<le> 2 \<and>
    sint m = (if sign = ''-'' then - 1 else 1) * int (digits_val (whole @ pad_right fr))"
proof -
  from assms obtain neg whole fr has where
    p: "split_sign (TrimSpace s) = (neg, if has then whole @ CHR ''.'' # fr else whole)"
      "\<not> has \<Longrightarrow> fr = []" and
    r: "list_all is_digit whole" "list_all is_digit fr" "length fr \<le> 2" "whole @ fr \<noteq> []"
      "sint m = (if neg then - 1 else 1) * int (digits_val (whole @ pad_right fr))"
    by (rule ParseString_Inr) blast
  obtain sign where "sign \<in> {[], ''+'', ''-''}" "neg \<longleftrightarrow> sign = ''-''"
    "TrimSpace s = sign @ (if has then whole @ CHR ''.'' # fr else whole)"
    using split_sign_cases [OF p(1)] that [of "[]"] that [of "''+''"] that [of "''-''"]
    by (elim disjE) simp_all
  with p(2) r show ?thesis
    by (intro exI [of _ sign] exI [of _ whole] exI [of _ fr], cases has) simp_all
qed

theorem parse_exact_witness:
  "ParseString '' -3.4 '' = Inr (- 340) \<and> (\<exists>sign whole fr.
    (TrimSpace '' -3.4 '' = sign @ whole \<and> fr = [] \<or>
     TrimSpace '' -3.4 '' = sign @ whole @ ''.'' @ fr) \<and>
    sign \<in> {[], ''+'', ''-''} \<and> list_all is_digit (whole @ fr) \<and> whole @ fr \<noteq> [] \<and>
    length fr \<le> 2 \<and>
    sint (- 340 :: i64) = (if sign = ''-'' then - 1 else 1) * int (digits_val (whole @ pad_right fr)))"
proof -
  have "pad_right ''4'' = ''40''"
    by (simp add: pad_right_def Decimals_def numeral_2_eq_2)
  then have h: "ParseString '' -3.4 '' = Inr (- 340)"
    by (simp add: ParseString_def trim_eval digits_eval ParseInt10_def isDigits_def
        isDigits_run_def Decimals_def)
  show ?thesis using h parse_exact [OF h] by (intro conjI)
qed

text \<open>
  \<open>FromMajorUnits\<close> on every input: the scale and finiteness checks in order, then the
  amount times \<open>10 ^ minorUnit\<close> rounded once to a float and once, half away from zero, to
  an integer, which is returned exactly when its magnitude is below \<open>2 ^ 63\<close>. The
  implementation-dependent conversion \<open>cv\<close> is never reached.
\<close>

theorem from_major_units_total:
  "FromMajorUnits cv v k =
     (if k < 0 \<or> 6 < k then Inl MinorUnitOutOfRange
      else case v of
        Fin x \<Rightarrow>
          (case rnd64 (x * 10 ^ nat k) of
             Fin p \<Rightarrow> if 2 ^ 63 \<le> \<bar>round_away p\<bar> then Inl TooLarge
                      else Inr (word_of_int (round_away p))
           | _ \<Rightarrow> Inl TooLarge)
      | _ \<Rightarrow> Inl NotFinite)"
  by (rule FromMajorUnits_cases)

text \<open>
  \<open>FromAny\<close> on a finite float (\<open>rnd64 q = Fin q\<close>: a value a \<open>float64\<close> can have) whose
  truncation fits an \<open>int64\<close>: accepted, unchanged, exactly when it is whole.
\<close>

theorem from_any_whole:
  assumes "fits64 (trunc q)" "rnd64 q = Fin q"
  shows "FromAny cv (VNum (Fin q)) =
    (if of_int \<lfloor>q\<rfloor> = q then Inr (word_of_int \<lfloor>q\<rfloor>) else Inl NotWhole)"
  using assms by (rule FromAny_NumI)

theorem from_any_whole_witness:
  "fits64 (trunc (21/2)) \<and> rnd64 (21/2) = Fin (21/2) \<and>
   FromAny cv_amd64 (VNum (Fin (21/2))) =
     (if of_int \<lfloor>21/2::rat\<rfloor> = (21/2::rat) then Inr (word_of_int \<lfloor>21/2::rat\<rfloor>) else Inl NotWhole)"
proof -
  have h: "fits64 (trunc (21/2))" by (simp add: fits64_def trunc_def)
  have h2: "rnd64 (21/2) = Fin (21/2)"
    by (subst rnd64_eval [where e = 3, OF _ _ _ refl])
      (simp_all add: pow2_def round_half_even_def Let_def)
  show ?thesis using h h2 from_any_whole [OF h h2] by (intro conjI)
qed

text \<open>
  At \<open>2 ^ 63\<close>, one above the largest amount, \<open>FromAny\<close> depends on the machine: with
  amd64's conversion it is rejected, with arm64's saturating one the test
  \<open>n != float64(int64(n))\<close> passes and the value is accepted as \<open>math.MaxInt64\<close>.
\<close>

theorem from_any_platform_dependent:
  "FromAny cv_amd64 (VNum (Fin (2 ^ 63))) = Inl NotWhole \<and>
   FromAny cv_arm64 (VNum (Fin (2 ^ 63))) = Inr (word_of_int (2 ^ 63 - 1))"
proof -
  have lo: "rnd64 (- 9223372036854775808) = Fin (- 9223372036854775808)"
    by (subst rnd64_eval [where e = 63, OF _ _ _ refl])
      (simp_all add: pow2_def round_half_even_def Let_def)
  have "\<lfloor>9223372036854775807 / 1024 :: rat\<rfloor> = 9007199254740991"
    by (simp add: floor_eq_iff)
  then have hi: "rnd64 9223372036854775807 = Fin 9223372036854775808"
    by (subst rnd64_eval [where e = 62, OF _ _ _ refl])
      (simp_all add: pow2_def round_half_even_def Let_def)
  have "\<not> fits64 (trunc (2 ^ 63))" by (simp add: fits64_def trunc_def)
  then show ?thesis
    using lo hi by (simp add: cv_amd64_def of_i64_def)
qed

end
