(* ===== verification/Entity.thy ===== *)
theory Entity
  imports Money GoTime "HOL-Library.Multiset"
begin

text \<open>
  The data of \<open>internal/kernel/entity/definition.go\<close> and the field-level half of
  \<open>validate.go\<close>: fields, relationships and definitions as records, and
  \<open>validateFieldValue\<close>, which decides whether one value fits one field. Error details
  (message texts) are not kept; every return has its own constructor or error kind.
\<close>

section \<open>Field types\<close>

text \<open>\<open>FieldOther\<close> stands for every string that is not one of the declared constants.\<close>

datatype FieldType =
  FieldString | FieldNumber | FieldBool | FieldDate | FieldEnum | FieldReference
| FieldI18nText | FieldMoney | FieldOther string

definition allFieldTypes :: "FieldType list" where
  "allFieldTypes =
     [FieldString, FieldNumber, FieldBool, FieldDate, FieldEnum, FieldReference, FieldI18nText,
      FieldMoney]"

definition type_valid :: "FieldType \<Rightarrow> bool" where
  "type_valid t \<longleftrightarrow> t \<in> set allFieldTypes"

fun FieldTypeJSONShape :: "FieldType \<Rightarrow> string option" where
  "FieldTypeJSONShape FieldString = Some ''string''"
| "FieldTypeJSONShape FieldDate = Some ''string''"
| "FieldTypeJSONShape FieldReference = Some ''string''"
| "FieldTypeJSONShape FieldEnum = Some ''string''"
| "FieldTypeJSONShape FieldNumber = Some ''number''"
| "FieldTypeJSONShape FieldMoney = Some ''number''"
| "FieldTypeJSONShape FieldBool = Some ''boolean''"
| "FieldTypeJSONShape FieldI18nText = Some ''object''"
| "FieldTypeJSONShape (FieldOther _) = None"

section \<open>Fields, relationships, definitions\<close>

record TargetFilterCondition =
  tf_entity :: string
  tf_entity_field :: string
  tf_field :: string
  tf_value :: string

record Field =
  f_name :: string
  f_type :: FieldType
  f_required :: bool
  f_default :: gval
  f_enum_values :: "string list"
  f_target :: string
  f_visible_if :: string
  f_not_before :: string
  f_target_filter :: "TargetFilterCondition list"
  f_must_match :: string
  f_min :: "f64 option"
  f_max :: "f64 option"
  f_max_length :: "int option"

datatype RelationshipKind =
  RelationReference | RelationComposition | RelationRelatedList | RelationOther string

record Relationship =
  r_name :: string
  r_kind :: RelationshipKind
  r_target :: string
  r_parent_field :: string

record ConditionalUnique =
  cu_fields :: "string list"
  cu_when_field :: string
  cu_when_value :: string

record Definition =
  d_entity_type :: string
  d_version :: int
  d_module :: string
  d_label_field :: string
  d_status_type_code :: string
  d_fields :: "Field list"
  d_relationships :: "Relationship list"
  d_quick_creatable :: bool
  d_unique :: "string list list"
  d_unique_when :: "ConditionalUnique list"

definition StatusIDFieldName :: string where
  "StatusIDFieldName = ''status_id''"

definition StatusTypeIDFieldName :: string where
  "StatusTypeIDFieldName = ''status_type_id''"

text \<open>A field with a name and a type and every other part at Go's zero value.\<close>

definition mk_field :: "string \<Rightarrow> FieldType \<Rightarrow> Field" where
  "mk_field n t =
     \<lparr>f_name = n, f_type = t, f_required = False, f_default = VNil, f_enum_values = [],
      f_target = [], f_visible_if = [], f_not_before = [], f_target_filter = [],
      f_must_match = [], f_min = None, f_max = None, f_max_length = None\<rparr>"

definition mk_definition :: "string \<Rightarrow> Field list \<Rightarrow> Definition" where
  "mk_definition n fs =
     \<lparr>d_entity_type = n, d_version = 0, d_module = [], d_label_field = [],
      d_status_type_code = [], d_fields = fs, d_relationships = [], d_quick_creatable = False,
      d_unique = [], d_unique_when = []\<rparr>"

definition FieldByName :: "Definition \<Rightarrow> string \<Rightarrow> Field option" where
  "FieldByName d n = List.find (\<lambda>f. f_name f = n) (d_fields d)"

lemma FieldByName_SomeD:
  "FieldByName d n = Some f \<Longrightarrow> f \<in> set (d_fields d) \<and> f_name f = n"
  unfolding FieldByName_def by (rule find_SomeD)

lemma FieldByName_None_iff:
  "FieldByName d n = None \<longleftrightarrow> n \<notin> f_name ` set (d_fields d)"
  by (auto simp: FieldByName_def find_None_iff)

section \<open>Constraint names\<close>

text \<open>The fields sorted (bytewise, as \<open>slices.Sort\<close> does) and joined with a plus sign.\<close>

definition UniqueConstraintName :: "string list \<Rightarrow> string" where
  "UniqueConstraintName fs = Join (sort fs) ''+''"

definition ConditionalUniqueConstraintName :: "ConditionalUnique \<Rightarrow> string" where
  "ConditionalUniqueConstraintName cu =
     UniqueConstraintName (cu_fields cu) @ ''?'' @ cu_when_field cu @ ''='' @ cu_when_value cu"

text \<open>A constraint's name does not depend on the order its fields are declared in.\<close>

lemma UniqueConstraintName_perm:
  "mset fs = mset gs \<Longrightarrow> UniqueConstraintName fs = UniqueConstraintName gs"
  by (metis UniqueConstraintName_def properties_for_sort sorted_sort mset_sort)

section \<open>Validation errors\<close>

datatype ValidationErrorKind =
  KindRequired | KindTypeMismatch | KindEnumInvalid | KindI18nTextInvalid | KindNotBefore
| KindBelowMinimum | KindAboveMaximum | KindTooLong | KindInvalid

definition AllValidationErrorKinds :: "ValidationErrorKind list" where
  "AllValidationErrorKinds =
     [KindRequired, KindTypeMismatch, KindEnumInvalid, KindI18nTextInvalid, KindNotBefore,
      KindBelowMinimum, KindAboveMaximum, KindTooLong, KindInvalid]"

lemma AllValidationErrorKinds_complete: "k \<in> set AllValidationErrorKinds"
  by (cases k) (simp_all add: AllValidationErrorKinds_def)

record ValidationError =
  ve_kind :: ValidationErrorKind
  ve_entity_type :: string
  ve_field_name :: string
  ve_other_field :: string

definition verr :: "ValidationErrorKind \<Rightarrow> string \<Rightarrow> string \<Rightarrow> ValidationError" where
  "verr k et n = \<lparr>ve_kind = k, ve_entity_type = et, ve_field_name = n, ve_other_field = []\<rparr>"

lemma verr_sel [simp]:
  "ve_kind (verr k et n) = k" "ve_entity_type (verr k et n) = et"
  "ve_field_name (verr k et n) = n" "ve_other_field (verr k et n) = []"
  by (simp_all add: verr_def)

section \<open>One value against one field\<close>

text \<open>\<open>IsBlankString\<close>: a string that is empty or white space only.\<close>

fun IsBlankString :: "gval \<Rightarrow> bool" where
  "IsBlankString (VStr s) \<longleftrightarrow> TrimSpace s = []"
| "IsBlankString _ \<longleftrightarrow> False"

text \<open>\<open>i18nTextHasContent\<close>: some locale has a non-empty string.\<close>

fun i18nTextHasContent :: "gval \<Rightarrow> bool" where
  "i18nTextHasContent (VMap m) \<longleftrightarrow>
     fBex (fmran m) (\<lambda>v. case v of VStr s \<Rightarrow> s \<noteq> [] | _ \<Rightarrow> False)"
| "i18nTextHasContent _ \<longleftrightarrow> False"

text \<open>The number a \<open>FieldNumber\<close> value stands for; \<open>None\<close> for any other dynamic type.\<close>

fun number_of :: "gval \<Rightarrow> f64 option" where
  "number_of (VNum n) = Some n"
| "number_of (VInt n) = Some (of_i64 n)"
| "number_of (VInt64 n) = Some (of_i64 n)"
| "number_of _ = None"

definition below_min :: "Field \<Rightarrow> f64 \<Rightarrow> bool" where
  "below_min f x \<longleftrightarrow> (case f_min f of Some m \<Rightarrow> f_lt x m | None \<Rightarrow> False)"

definition above_max :: "Field \<Rightarrow> f64 \<Rightarrow> bool" where
  "above_max f x \<longleftrightarrow> (case f_max f of Some m \<Rightarrow> f_lt m x | None \<Rightarrow> False)"

definition too_long :: "Field \<Rightarrow> string \<Rightarrow> bool" where
  "too_long f s \<longleftrightarrow> (case f_max_length f of Some n \<Rightarrow> n < int (rune_count s) | None \<Rightarrow> False)"

definition validateFieldValue ::
    "(f64 \<Rightarrow> i64) \<Rightarrow> string \<Rightarrow> Field \<Rightarrow> gval \<Rightarrow> ValidationError option" where
  "validateFieldValue cv et f v =
     (let newErr = (\<lambda>k. Some (verr k et (f_name f))) in
      case f_type f of
        FieldString \<Rightarrow>
          (case v of
             VStr s \<Rightarrow> if too_long f s then newErr KindTooLong else None
           | _ \<Rightarrow> newErr KindTypeMismatch)
      | FieldDate \<Rightarrow> if is_str v then None else newErr KindTypeMismatch
      | FieldReference \<Rightarrow> if is_str v then None else newErr KindTypeMismatch
      | FieldNumber \<Rightarrow>
          (case number_of v of
             None \<Rightarrow> newErr KindTypeMismatch
           | Some num \<Rightarrow>
               if is_nan num \<or> is_inf num then newErr KindTypeMismatch
               else if below_min f num then newErr KindBelowMinimum
               else if above_max f num then newErr KindAboveMaximum
               else None)
      | FieldMoney \<Rightarrow>
          (case FromAny cv v of
             Inl e \<Rightarrow> newErr KindTypeMismatch
           | Inr m \<Rightarrow>
               if below_min f (of_i64 m) then newErr KindBelowMinimum
               else if above_max f (of_i64 m) then newErr KindAboveMaximum
               else None)
      | FieldBool \<Rightarrow> (case v of VBool _ \<Rightarrow> None | _ \<Rightarrow> newErr KindTypeMismatch)
      | FieldEnum \<Rightarrow>
          (case v of
             VStr s \<Rightarrow> if s \<in> set (f_enum_values f) then None else newErr KindEnumInvalid
           | _ \<Rightarrow> newErr KindTypeMismatch)
      | FieldI18nText \<Rightarrow>
          (case v of
             VMap m \<Rightarrow> if fBall (fmran m) is_str then None else newErr KindI18nTextInvalid
           | _ \<Rightarrow> newErr KindI18nTextInvalid)
      | FieldOther _ \<Rightarrow> newErr KindInvalid)"

text \<open>
  The abstract typing a value has to satisfy: what a stored value of each field type is.
\<close>

fun has_shape :: "FieldType \<Rightarrow> gval \<Rightarrow> bool" where
  "has_shape FieldBool v = (\<exists>b. v = VBool b)"
| "has_shape FieldNumber v = (number_of v \<noteq> None)"
| "has_shape FieldMoney v = (number_of v \<noteq> None)"
| "has_shape FieldI18nText v = (\<exists>m. v = VMap m \<and> fBall (fmran m) is_str)"
| "has_shape (FieldOther _) v = False"
| "has_shape _ v = is_str v"

lemma is_str_iff: "is_str v \<longleftrightarrow> (\<exists>s. v = VStr s)"
  by (cases v) simp_all

lemma FromAny_shape: "FromAny cv v = Inr m \<Longrightarrow> number_of v \<noteq> None"
  by (cases v) simp_all

lemma validateFieldValue_shape [go_dest]:
  "validateFieldValue cv et f v = None \<Longrightarrow> has_shape (f_type f) v"
  by (cases "f_type f"; cases v)
    (auto simp: validateFieldValue_def Let_def is_str_iff split: if_splits sum.splits
      dest: FromAny_shape)

lemma validateFieldValue_names:
  "validateFieldValue cv et f v = Some e \<Longrightarrow>
     ve_field_name e = f_name f \<and> ve_entity_type e = et \<and>
     ve_kind e \<noteq> KindRequired \<and> ve_kind e \<noteq> KindNotBefore"
  by (auto simp: validateFieldValue_def Let_def
      split: FieldType.splits gval.splits option.splits sum.splits if_splits)

lemma validateFieldValue_not_nil: "validateFieldValue cv et f VNil \<noteq> None"
  by (auto simp: validateFieldValue_def Let_def split: FieldType.split)

end
