(* ===== verification/Ids.thy ===== *)
theory Ids
  imports GoStrings
begin

text \<open>
  \<open>internal/kernel/ids\<close>: the canonical spelling of a record id. Postgres reads several
  spellings of one uuid (upper case, braces, no hyphens); two values name the same record
  exactly when their canonical spellings agree.
\<close>

definition is_upper_hex :: "char \<Rightarrow> bool" where
  "is_upper_hex c \<longleftrightarrow> byte (CHR ''A'') \<le> byte c \<and> byte c \<le> byte (CHR ''F'')"

definition isHexDigit :: "char \<Rightarrow> bool" where
  "isHexDigit c \<longleftrightarrow>
     (byte (CHR ''0'') \<le> byte c \<and> byte c \<le> byte (CHR ''9'')) \<or>
     (byte (CHR ''a'') \<le> byte c \<and> byte c \<le> byte (CHR ''f'')) \<or>
     is_upper_hex c"

text \<open>\<open>strings.ToLower\<close> on hexadecimal digits.\<close>

definition hex_lower :: "char \<Rightarrow> char" where
  "hex_lower c = (if is_upper_hex c then char_of (byte c + 32) else c)"

definition strip_braces :: "string \<Rightarrow> string" where
  "strip_braces s =
     (if 2 \<le> length s \<and> hd s = CHR ''{'' \<and> last s = CHR ''}'' then butlast (tl s) else s)"

definition hyphenate :: "string \<Rightarrow> string" where
  "hyphenate h =
     take 8 h @ ''-'' @ take 4 (drop 8 h) @ ''-'' @ take 4 (drop 12 h) @ ''-'' @
     take 4 (drop 16 h) @ ''-'' @ drop 20 h"

definition Canonical :: "string \<Rightarrow> string option" where
  "Canonical s =
     (let hex = filter (\<lambda>c. c \<noteq> CHR ''-'') (strip_braces s) in
      if length hex \<noteq> 32 then None
      else if \<not> list_all isHexDigit hex then None
      else Some (hyphenate (map hex_lower hex)))"

text \<open>The abstract value of an id: its 32 lower-case hexadecimal digits.\<close>

definition is_canonical :: "string \<Rightarrow> bool" where
  "is_canonical s \<longleftrightarrow> Canonical s = Some s"

lemma byte_eq_iff: "byte c = byte d \<longleftrightarrow> c = d"
  by (simp add: byte_def)

lemma hyphen_not_hex [simp]: "\<not> isHexDigit (CHR ''-'')"
  by (simp add: isHexDigit_def is_upper_hex_def byte_def)

lemma brace_not_hex [simp]: "\<not> isHexDigit (CHR ''{'')"
  by (simp add: isHexDigit_def is_upper_hex_def byte_def)

lemma byte_char_of: "n < 256 \<Longrightarrow> byte (char_of n) = n"
  by (simp add: byte_def)

lemma hex_lower_hex [simp]:
  "isHexDigit (hex_lower c) = isHexDigit c" "\<not> is_upper_hex (hex_lower c)"
  by (auto simp: hex_lower_def isHexDigit_def is_upper_hex_def byte_char_of)
    (auto simp: byte_def)

lemma hex_lower_idem [simp]: "hex_lower (hex_lower c) = hex_lower c"
  by (simp add: hex_lower_def [of "hex_lower c"])

lemma hex_lower_not_hyphen: "isHexDigit c \<Longrightarrow> hex_lower c \<noteq> CHR ''-''"
  using hyphen_not_hex hex_lower_hex(1) by metis

lemma filter_hyphen_hex: "list_all isHexDigit h \<Longrightarrow> filter (\<lambda>c. c \<noteq> CHR ''-'') h = h"
  by (induction h) auto

lemma take_drop_pieces:
  "take 8 h @ take 4 (drop 8 h) @ take 4 (drop 12 h) @ take 4 (drop 16 h) @ drop 20 h = h"
proof -
  have "drop 16 h = take 4 (drop 16 h) @ drop 20 h"
    using append_take_drop_id [of 4 "drop 16 h"] by simp
  moreover have "drop 12 h = take 4 (drop 12 h) @ drop 16 h"
    using append_take_drop_id [of 4 "drop 12 h"] by simp
  moreover have "drop 8 h = take 4 (drop 8 h) @ drop 12 h"
    using append_take_drop_id [of 4 "drop 8 h"] by simp
  ultimately show ?thesis using append_take_drop_id [of 8 h] by simp
qed

lemma filter_hyphenate:
  assumes "list_all isHexDigit h"
  shows "filter (\<lambda>c. c \<noteq> CHR ''-'') (hyphenate h) = h"
proof -
  have sub: "list_all isHexDigit (take n (drop m h))" "list_all isHexDigit (drop m h)"
    "list_all isHexDigit (take m h)" for n m
    using assms by (auto simp: list_all_iff dest: in_set_takeD in_set_dropD)
  have "filter (\<lambda>c. c \<noteq> CHR ''-'') (hyphenate h) =
      take 8 h @ take 4 (drop 8 h) @ take 4 (drop 12 h) @ take 4 (drop 16 h) @ drop 20 h"
    by (simp add: hyphenate_def filter_hyphen_hex sub)
  also have "\<dots> = h" by (rule take_drop_pieces)
  finally show ?thesis .
qed

lemma strip_braces_hyphenate:
  assumes "list_all isHexDigit h" and "h \<noteq> []"
  shows "strip_braces (hyphenate h) = hyphenate h"
proof -
  obtain c t where h: "h = c # t" using assms(2) by (cases h) auto
  with assms(1) have "isHexDigit c" by simp
  then have "hd (hyphenate h) \<noteq> CHR ''{''"
    using h by (auto simp: hyphenate_def)
  then show ?thesis by (simp add: strip_braces_def)
qed

lemma Canonical_SomeD:
  assumes "Canonical s = Some c"
  obtains h where "list_all isHexDigit h" "length h = 32" "map hex_lower h = h" "c = hyphenate h"
proof -
  let ?h = "map hex_lower (filter (\<lambda>c. c \<noteq> CHR ''-'') (strip_braces s))"
  have "list_all isHexDigit ?h" "length ?h = 32" "c = hyphenate ?h"
    using assms by (auto simp: Canonical_def Let_def list_all_iff split: if_splits)
  moreover have "map hex_lower ?h = ?h" by simp
  ultimately show thesis using that by blast
qed

lemma Canonical_hyphenate:
  assumes "list_all isHexDigit h" "length h = 32" "map hex_lower h = h"
  shows "Canonical (hyphenate h) = Some (hyphenate h)"
proof -
  have "h \<noteq> []" using assms(2) by auto
  then show ?thesis
    using assms by (simp add: Canonical_def strip_braces_hyphenate filter_hyphenate)
qed

lemma Canonical_idem [go_simps]: "Canonical s = Some c \<Longrightarrow> Canonical c = Some c"
  by (erule Canonical_SomeD) (simp add: Canonical_hyphenate)

lemma Canonical_fixpoint: "Canonical s = Some c \<Longrightarrow> is_canonical c"
  by (simp add: is_canonical_def Canonical_idem)

lemma Canonical_length: "Canonical s = Some c \<Longrightarrow> length c = 36"
  by (erule Canonical_SomeD) (simp add: hyphenate_def)

end
