(* ===== verification/AuditTrail.thy ===== *)
theory AuditTrail
  imports GoValue
begin

text \<open>
  \<open>internal/kernel/audit\<close>: who acts, and the entry every change leaves. The wall-clock
  time an entry is built at is not kept (the table's own \<open>created_at\<close> is).
\<close>

datatype ActorType = ActorHuman | ActorAgent | ActorSystem

datatype Action = ActionCreate | ActionUpdate | ActionDelete | ActionExport

record Actor =
  a_type :: ActorType
  a_id :: string
  a_model_version :: string
  a_input :: string

datatype audit_error = ErrMissingActorID | ErrMissingModelVersion | ErrMissingInput

definition Actor_Validate :: "Actor \<Rightarrow> audit_error option" where
  "Actor_Validate a =
     (if a_id a = [] then Some ErrMissingActorID
      else if a_type a = ActorAgent \<and> a_model_version a = [] then Some ErrMissingModelVersion
      else if a_type a = ActorAgent \<and> a_input a = [] then Some ErrMissingInput
      else None)"

text \<open>The hash of the actor's input, empty for no input; the digest is the environment's.\<close>

definition InputHash :: "env \<Rightarrow> Actor \<Rightarrow> string" where
  "InputHash E a = (if a_input a = [] then [] else e_digest E [VStr (a_input a)])"

record Entry =
  en_entity_type :: string
  en_record_id :: string
  en_action :: Action
  en_actor :: Actor
  en_diff :: "fields option"

definition audit_New ::
    "string \<Rightarrow> string \<Rightarrow> Action \<Rightarrow> Actor \<Rightarrow> fields option \<Rightarrow> (audit_error, Entry) result" where
  "audit_New et rid act actor diff =
     (case Actor_Validate actor of
        Some e \<Rightarrow> Inl e
      | None \<Rightarrow> Inr \<lparr>en_entity_type = et, en_record_id = rid, en_action = act,
                     en_actor = actor, en_diff = diff\<rparr>)"

text \<open>An actor whose action may be recorded: a name, and for a model its version and input.\<close>

definition accountable :: "Actor \<Rightarrow> bool" where
  "accountable a \<longleftrightarrow>
     a_id a \<noteq> [] \<and> (a_type a = ActorAgent \<longrightarrow> a_model_version a \<noteq> [] \<and> a_input a \<noteq> [])"

lemma Actor_Validate_None_iff [simp]: "Actor_Validate a = None \<longleftrightarrow> accountable a"
  by (auto simp: Actor_Validate_def accountable_def)

lemma audit_New_Inr_iff:
  "audit_New et rid act a diff = Inr e \<longleftrightarrow>
     accountable a \<and> e = \<lparr>en_entity_type = et, en_record_id = rid, en_action = act,
       en_actor = a, en_diff = diff\<rparr>"
  by (auto simp: audit_New_def split: option.split simp flip: Actor_Validate_None_iff)

end
