(* ===== verification/GoClock.thy ===== *)
theory GoClock
  imports GoTime "HOL-Library.Product_Lexorder"
begin

text \<open>
  Points in time in UTC as \<open>time.Time\<close> shows them (\<open>Year\<close>, \<open>Month\<close>, \<open>Day\<close>, \<open>Hour\<close>,
  \<open>Minute\<close> and the nanoseconds within the minute), their order, and the calendar steps the
  scheduler takes: \<open>Truncate\<close>, \<open>Add\<close>, \<open>AddDate\<close> and \<open>Weekday\<close>.
\<close>

section \<open>Instants\<close>

datatype gtime = Time (t_year: nat) (t_month: nat) (t_day: nat) (t_hour: nat) (t_min: nat) (t_ns: nat)

definition valid_time :: "gtime \<Rightarrow> bool" where
  "valid_time t \<longleftrightarrow>
     1 \<le> t_month t \<and> t_month t \<le> 12 \<and> 1 \<le> t_day t \<and> t_day t \<le> days_in (t_year t) (t_month t) \<and>
     t_hour t < 24 \<and> t_min t < 60 \<and> t_ns t < 60000000000"

definition whole_minute :: "gtime \<Rightarrow> bool" where
  "whole_minute t \<longleftrightarrow> valid_time t \<and> t_ns t = 0"

text \<open>The fields from the coarsest on, nested so that each key extends the coarser one.\<close>

definition ym :: "gtime \<Rightarrow> nat \<times> nat" where
  "ym t = (t_year t, t_month t)"

definition ymd :: "gtime \<Rightarrow> (nat \<times> nat) \<times> nat" where
  "ymd t = (ym t, t_day t)"

definition ymdh :: "gtime \<Rightarrow> ((nat \<times> nat) \<times> nat) \<times> nat" where
  "ymdh t = (ymd t, t_hour t)"

definition ymdhm :: "gtime \<Rightarrow> (((nat \<times> nat) \<times> nat) \<times> nat) \<times> nat" where
  "ymdhm t = (ymdh t, t_min t)"

definition time_key :: "gtime \<Rightarrow> ((((nat \<times> nat) \<times> nat) \<times> nat) \<times> nat) \<times> nat" where
  "time_key t = (ymdhm t, t_ns t)"

lemmas keys = time_key_def ymdhm_def ymdh_def ymd_def ym_def

lemma time_key_inj: "time_key a = time_key b \<longleftrightarrow> a = b"
  by (cases a; cases b) (simp add: keys)

text \<open>\<open>Before\<close> is the strict order, so that the library's order facts apply to instants.\<close>

instantiation gtime :: linorder
begin

definition less_eq_gtime :: "gtime \<Rightarrow> gtime \<Rightarrow> bool" where
  "a \<le> b \<longleftrightarrow> time_key a \<le> time_key b"

definition less_gtime :: "gtime \<Rightarrow> gtime \<Rightarrow> bool" where
  "a < b \<longleftrightarrow> time_key a < time_key b"

instance
proof
  fix x y z :: gtime
  show "(x < y) = (x \<le> y \<and> \<not> y \<le> x)"
    unfolding less_eq_gtime_def less_gtime_def by (rule less_le_not_le)
  show "x \<le> x" unfolding less_eq_gtime_def by (rule order_refl)
  show "x \<le> y \<Longrightarrow> y \<le> z \<Longrightarrow> x \<le> z" unfolding less_eq_gtime_def by (rule order_trans)
  show "x \<le> y \<Longrightarrow> y \<le> x \<Longrightarrow> x = y"
    unfolding less_eq_gtime_def using order_antisym time_key_inj by blast
  show "x \<le> y \<or> y \<le> x" unfolding less_eq_gtime_def by (rule linear)
qed

end

text \<open>Orders on nested keys.\<close>

lemma nest_le: "(k, n) \<le> (k', n') \<Longrightarrow> k \<le> k'"
  for k k' :: "'a::linorder" and n n' :: nat
  by auto

lemma nest_less: "k < k' \<Longrightarrow> (k, n) < (k', n')"
  for k k' :: "'a::linorder" and n n' :: nat
  by simp

lemma nest_less_least: "(k', n') < (k, n) \<Longrightarrow> n \<le> n' \<Longrightarrow> k' < k"
  for k k' :: "'a::linorder" and n n' :: nat
  by auto

lemma nest_between: "(k, n) \<le> (k', n') \<Longrightarrow> (k', n') < (k, Suc n) \<Longrightarrow> k' = k \<and> n' = n"
  for k k' :: "'a::linorder" and n n' :: nat
  by auto

lemma le_ymdhm: "t \<le> u \<Longrightarrow> ymdhm t \<le> ymdhm u"
  unfolding less_eq_gtime_def time_key_def by (rule nest_le)

lemma le_ymdh: "t \<le> u \<Longrightarrow> ymdh t \<le> ymdh u"
  using le_ymdhm [of t u] unfolding ymdhm_def by (blast intro: nest_le)

lemma le_ymd: "t \<le> u \<Longrightarrow> ymd t \<le> ymd u"
  using le_ymdh [of t u] unfolding ymdh_def by (blast intro: nest_le)

lemma le_ym: "t \<le> u \<Longrightarrow> ym t \<le> ym u"
  using le_ymd [of t u] unfolding ymd_def by (blast intro: nest_le)

lemma less_of_ymdhm: "ymdhm t < ymdhm u \<Longrightarrow> t < u"
  unfolding less_gtime_def time_key_def by (rule nest_less)

lemma less_of_ymdh: "ymdh t < ymdh u \<Longrightarrow> t < u"
  by (rule less_of_ymdhm, unfold ymdhm_def, rule nest_less)

lemma less_of_ymd: "ymd t < ymd u \<Longrightarrow> t < u"
  by (rule less_of_ymdh, unfold ymdh_def, rule nest_less)

lemma less_of_ym: "ym t < ym u \<Longrightarrow> t < u"
  by (rule less_of_ymd, unfold ymd_def, rule nest_less)

text \<open>Below an instant whose finer fields are at their least, the coarser key is smaller.\<close>

lemma ymdhm_less: "u < t \<Longrightarrow> t_ns t = 0 \<Longrightarrow> ymdhm u < ymdhm t"
  unfolding less_gtime_def time_key_def by (erule nest_less_least) simp

lemma ymdh_less: "u < t \<Longrightarrow> t_ns t = 0 \<Longrightarrow> t_min t = 0 \<Longrightarrow> ymdh u < ymdh t"
  using ymdhm_less [of u t] unfolding ymdhm_def by (metis le0 nest_less_least)

lemma ymd_less: "u < t \<Longrightarrow> t_ns t = 0 \<Longrightarrow> t_min t = 0 \<Longrightarrow> t_hour t = 0 \<Longrightarrow> ymd u < ymd t"
  using ymdh_less [of u t] unfolding ymdh_def by (metis le0 nest_less_least)

lemma ym_less:
  "u < t \<Longrightarrow> t_ns t = 0 \<Longrightarrow> t_min t = 0 \<Longrightarrow> t_hour t = 0 \<Longrightarrow> t_day t = 1 \<Longrightarrow> valid_time u \<Longrightarrow>
    ym u < ym t"
  using ymd_less [of u t] unfolding ymd_def valid_time_def by (metis nest_less_least)

section \<open>Calendar steps\<close>

text \<open>\<open>time.Date(y, m, 1, 0, 0, 0, 0).AddDate(0, 1, 0)\<close>.\<close>

definition next_month :: "gtime \<Rightarrow> gtime" where
  "next_month t =
     (if t_month t < 12 then Time (t_year t) (t_month t + 1) 1 0 0 0
      else Time (t_year t + 1) 1 1 0 0 0)"

text \<open>\<open>time.Date(y, m, d, 0, 0, 0, 0).AddDate(0, 0, 1)\<close>.\<close>

definition next_day :: "gtime \<Rightarrow> gtime" where
  "next_day t =
     (if t_day t < days_in (t_year t) (t_month t) then Time (t_year t) (t_month t) (t_day t + 1) 0 0 0
      else next_month t)"

text \<open>\<open>time.Date(y, m, d, h, 0, 0, 0).Add(time.Hour)\<close>.\<close>

definition next_hour :: "gtime \<Rightarrow> gtime" where
  "next_hour t =
     (if t_hour t < 23 then Time (t_year t) (t_month t) (t_day t) (t_hour t + 1) 0 0
      else next_day t)"

text \<open>\<open>t.Truncate(time.Minute).Add(time.Minute)\<close>, which is \<open>t.Add(time.Minute)\<close> on a whole minute.\<close>

definition next_minute :: "gtime \<Rightarrow> gtime" where
  "next_minute t =
     (if t_min t < 59 then Time (t_year t) (t_month t) (t_day t) (t_hour t) (t_min t + 1) 0
      else next_hour t)"

text \<open>\<open>t.AddDate(n, 0, 0)\<close>: 29 February of a common year is normalised to 1 March.\<close>

definition add_years :: "nat \<Rightarrow> gtime \<Rightarrow> gtime" where
  "add_years n t =
     (if t_day t \<le> days_in (t_year t + n) (t_month t)
      then Time (t_year t + n) (t_month t) (t_day t) (t_hour t) (t_min t) (t_ns t)
      else Time (t_year t + n) (t_month t + 1) (t_day t - days_in (t_year t + n) (t_month t)) (t_hour t) (t_min t) (t_ns t))"

lemma days_in_bounds: "28 \<le> days_in y m" "days_in y m \<le> 31"
  by (auto simp: days_in_def)

lemmas step_defs = next_minute_def next_hour_def next_day_def next_month_def

lemma next_month_valid: "whole_minute (next_month t)"
  using days_in_bounds(1) [of "t_year t" "t_month t + 1"] days_in_bounds(1) [of "t_year t + 1" 1]
  by (auto simp: whole_minute_def valid_time_def next_month_def)

lemma next_day_valid: "valid_time t \<Longrightarrow> whole_minute (next_day t)"
  using next_month_valid [of t] by (auto simp: whole_minute_def valid_time_def next_day_def)

lemma next_hour_valid: "valid_time t \<Longrightarrow> whole_minute (next_hour t)"
  using next_day_valid [of t] by (auto simp: whole_minute_def valid_time_def next_hour_def)

lemma next_minute_valid: "valid_time t \<Longrightarrow> whole_minute (next_minute t)"
  using next_hour_valid [of t] by (auto simp: whole_minute_def valid_time_def next_minute_def)

lemma whole_minute_valid: "whole_minute t \<Longrightarrow> valid_time t"
  by (simp add: whole_minute_def)

text \<open>Each step moves forward, and between an instant and the step only the finer fields change.\<close>

lemma next_month_gt: "t < next_month t"
  by (rule less_of_ym) (simp add: ym_def next_month_def)

lemma next_day_gt: "t < next_day t"
  using next_month_gt [of t] by (auto simp: next_day_def keys intro: less_of_ymd)

lemma next_hour_gt: "t < next_hour t"
  using next_day_gt [of t] by (auto simp: next_hour_def keys intro: less_of_ymdh)

lemma next_minute_gt: "t < next_minute t"
  using next_hour_gt [of t] by (auto simp: next_minute_def keys intro: less_of_ymdhm)

lemma before_next_month:
  assumes "t \<le> u" "u < next_month t" "valid_time u" "valid_time t"
  shows "ym u = ym t"
proof -
  have "ym t \<le> ym u" by (rule le_ym [OF assms(1)])
  moreover have "ym u < ym (next_month t)"
    by (rule ym_less [OF assms(2) _ _ _ _ assms(3)]) (simp_all add: next_month_def)
  ultimately show ?thesis
    using assms(3,4) by (auto simp: ym_def next_month_def valid_time_def split: if_splits)
qed

lemma before_next_day:
  assumes "t \<le> u" "u < next_day t" "valid_time u" "valid_time t"
  shows "ymd u = ymd t"
proof (cases "t_day t < days_in (t_year t) (t_month t)")
  case True
  then have "ymd u < ymd (next_day t)"
    by (intro ymd_less [OF assms(2)]) (simp_all add: next_day_def)
  with True have "ymd u < (ym t, Suc (t_day t))"
    by (simp add: next_day_def ymd_def ym_def)
  with le_ymd [OF assms(1)] show ?thesis
    unfolding ymd_def by (simp add: nest_between)
next
  case False
  then have *: "ym u = ym t"
    using before_next_month [OF assms(1) _ assms(3,4)] assms(2) by (simp add: next_day_def)
  then have "t_day u \<le> t_day t"
    using False assms(3) by (simp add: ym_def valid_time_def)
  with le_ymd [OF assms(1)] * show ?thesis by (simp add: ymd_def)
qed

lemma before_next_hour:
  assumes "t \<le> u" "u < next_hour t" "valid_time u" "valid_time t"
  shows "ymdh u = ymdh t"
proof (cases "t_hour t < 23")
  case True
  then have "ymdh u < ymdh (next_hour t)"
    by (intro ymdh_less [OF assms(2)]) (simp_all add: next_hour_def)
  with True have "ymdh u < (ymd t, Suc (t_hour t))"
    by (simp add: next_hour_def keys)
  with le_ymdh [OF assms(1)] show ?thesis
    unfolding ymdh_def by (simp add: nest_between)
next
  case False
  then have *: "ymd u = ymd t"
    using before_next_day [OF assms(1) _ assms(3,4)] assms(2) by (simp add: next_hour_def)
  have "t_hour u \<le> t_hour t"
    using False assms(3) by (simp add: valid_time_def)
  with le_ymdh [OF assms(1)] * show ?thesis by (simp add: ymdh_def)
qed

lemma before_next_minute:
  assumes "t \<le> u" "u < next_minute t" "valid_time u" "valid_time t"
  shows "ymdhm u = ymdhm t"
proof (cases "t_min t < 59")
  case True
  then have "ymdhm u < ymdhm (next_minute t)"
    by (intro ymdhm_less [OF assms(2)]) (simp_all add: next_minute_def)
  with True have "ymdhm u < (ymdh t, Suc (t_min t))"
    by (simp add: next_minute_def keys)
  with le_ymdhm [OF assms(1)] show ?thesis
    unfolding ymdhm_def by (simp add: nest_between)
next
  case False
  then have *: "ymdh u = ymdh t"
    using before_next_hour [OF assms(1) _ assms(3,4)] assms(2) by (simp add: next_minute_def)
  have "t_min u \<le> t_min t"
    using False assms(3) by (simp add: valid_time_def)
  with le_ymdhm [OF assms(1)] * show ?thesis by (simp add: ymdhm_def)
qed

text \<open>After a whole minute, nothing lies before the next minute but that minute.\<close>

lemma next_minute_least:
  assumes "a < u" "whole_minute u" "valid_time a"
  shows "next_minute a \<le> u"
proof (rule ccontr)
  assume "\<not> next_minute a \<le> u"
  then have "ymdhm u = ymdhm a"
    using before_next_minute [of a u] assms by (simp add: whole_minute_def)
  with assms show False by (simp add: less_gtime_def time_key_def whole_minute_def)
qed

section \<open>Weekdays\<close>

text \<open>
  The number of days since 1 January of year 0 of the proleptic Gregorian calendar, a
  Saturday; \<open>Weekday\<close> counts from Sunday, which is 0.
\<close>

definition days_before_year :: "nat \<Rightarrow> nat" where
  "days_before_year y =
     (if y = 0 then 0 else 365 * y + (y - 1) div 4 - (y - 1) div 100 + (y - 1) div 400 + 1)"

definition day_number :: "gtime \<Rightarrow> nat" where
  "day_number t =
     days_before_year (t_year t) + sum_list (map (days_in (t_year t)) [1 ..< t_month t]) + (t_day t - 1)"

definition Weekday :: "gtime \<Rightarrow> nat" where
  "Weekday t = (day_number t + 6) mod 7"

lemma Weekday_sample: "Weekday (Time 2026 3 1 0 0 0) = 0" "Weekday (Time 2000 1 1 0 0 0) = 6"
  by (simp_all add: Weekday_def day_number_def days_before_year_def days_in_def is_leap_def upt_rec)

text \<open>Every weekday occurs within the first seven days of every month.\<close>

lemma weekday_in_month:
  assumes "w < 7"
  shows "\<exists>d. 1 \<le> d \<and> d \<le> 7 \<and> Weekday (Time y m d h mi ns) = w"
proof -
  define b where "b = days_before_year y + sum_list (map (days_in y) [1 ..< m]) + 6"
  define k where "k = (w + 7 - b mod 7) mod 7"
  have "(b + k) mod 7 = w"
  proof -
    have "b mod 7 \<le> w + 7" by (simp add: le_add2 order_trans [OF less_imp_le [OF mod_less_divisor]])
    then have r: "b mod 7 + (w + 7 - b mod 7) = w + 7" by simp
    have "(b + k) mod 7 = (b mod 7 + (w + 7 - b mod 7)) mod 7"
      unfolding k_def by (simp only: mod_add_left_eq mod_add_right_eq)
    also have "\<dots> = w" unfolding r using assms by simp
    finally show ?thesis .
  qed
  then have "Weekday (Time y m (k + 1) h mi ns) = w"
    by (simp add: Weekday_def day_number_def b_def add.assoc add.commute add.left_commute)
  moreover have "k < 7" by (simp add: k_def)
  ultimately show ?thesis by (intro exI [of _ "k + 1"]) auto
qed

text \<open>Eight consecutive years have a leap year among them, century years included.\<close>

lemma leap_year_within_eight: "\<exists>k < 8. is_leap (y + k)"
proof -
  define k where "k = (4 - y mod 4) mod 4"
  have k: "k < 4" "(y + k) mod 4 = 0"
  proof -
    show "k < 4" by (simp add: k_def)
    have r: "y mod 4 + (4 - y mod 4) = 4" using mod_less_divisor [of 4 y] by simp
    have "(y + k) mod 4 = (y mod 4 + (4 - y mod 4)) mod 4"
      unfolding k_def by (simp only: mod_add_left_eq mod_add_right_eq)
    then show "(y + k) mod 4 = 0" unfolding r by simp
  qed
  show ?thesis
  proof (cases "is_leap (y + k)")
    case True
    with k show ?thesis by (intro exI [of _ k]) simp
  next
    case False
    with k have "(y + k) mod 100 = 0" by (auto simp: is_leap_def)
    then have "(y + k + 4) mod 100 \<noteq> 0" by (simp add: mod_add_left_eq [of "y + k" 100 4, symmetric] del: mod_add_left_eq)
    moreover have "(y + k + 4) mod 4 = 0" using k(2) by simp
    ultimately have "is_leap (y + (k + 4))" by (simp add: is_leap_def add.assoc)
    with k show ?thesis by (intro exI [of _ "k + 4"]) auto
  qed
qed

end
