(* ===== verification/Cron.thy ===== *)
theory Cron
  imports GoClock "HOL-Library.Word"
begin

text \<open>
  The cron expressions of scheduled workflows (\<open>internal/kernel/workflow/cron.go\<close>): the
  parser \<open>ParseSchedule\<close> and the search \<open>Schedule.Next\<close>. The parser's inner loop steps an
  \<open>int\<close> that wraps, so it is a partial function whose value \<open>None\<close> is a loop that does not
  end; a run-time panic is the error \<open>CronPanic\<close>.
\<close>

section \<open>White space\<close>

text \<open>
  \<open>strings.Fields\<close>: the maximal runs of runes that are not white space. The accumulator
  is the run being read.
\<close>

function fields_from :: "string \<Rightarrow> string \<Rightarrow> string list" where
  "fields_from acc s =
     (if s = [] then (if acc = [] then [] else [acc])
      else if space_prefix s \<noteq> 0
      then (if acc = [] then [] else [acc]) @ fields_from [] (drop (space_prefix s) s)
      else fields_from (acc @ take (rune_width s) s) (drop (rune_width s) s))"
  by pat_completeness auto
termination
  by (relation "measure (\<lambda>(acc, s). length s)") (auto simp: rune_width_pos)

declare fields_from.simps [simp del]

definition Fields :: "string \<Rightarrow> string list" where
  "Fields s = fields_from [] s"

section \<open>Schedules\<close>

record cronField =
  cf_bits :: "bool list"
  cf_min :: int

definition matches :: "cronField \<Rightarrow> int \<Rightarrow> bool" where
  "matches f v =
     (let i = v - cf_min f in
      if i < 0 \<or> i \<ge> int (length (cf_bits f)) then False else cf_bits f ! nat i)"

record Schedule =
  s_minute :: cronField
  s_hour :: cronField
  s_dom :: cronField
  s_month :: cronField
  s_dow :: cronField
  s_dom_restricted :: bool
  s_dow_restricted :: bool
  s_expr :: string

datatype cron_error =
    CronFieldCount | CronEmpty | CronBadStep | CronStepNeedsRange | CronBadStart | CronBadEnd
  | CronInverted | CronNotNumber | CronOutOfRange | CronPanic | CronNoOccurrence

text \<open>\<open>atoiStrict\<close>: \<open>strconv.Atoi\<close> on digits only.\<close>

definition atoiStrict :: "string \<Rightarrow> int option" where
  "atoiStrict s = (if s = [] then None else if \<not> list_all is_digit s then None else ParseInt10 s)"

text \<open>Go's \<open>int\<close> addition, which wraps at 64 bits.\<close>

definition int_add :: "int \<Rightarrow> int \<Rightarrow> int" where
  "int_add a b = sint (word_of_int (a + b) :: 64 word)"

text \<open>
  The loop \<open>for v := lo; v <= hi; v += step\<close> that sets the bits; an index outside the
  slice panics.
\<close>

partial_function (option) mark_bits ::
    "int \<Rightarrow> int \<Rightarrow> int \<Rightarrow> int \<Rightarrow> bool list \<Rightarrow> (cron_error, bool list) result option" where
  "mark_bits mn v hi step bits =
     (if \<not> v \<le> hi then Some (Inr bits)
      else if v - mn < 0 \<or> v - mn \<ge> int (length bits) then Some (Inl CronPanic)
      else mark_bits mn (int_add v step) hi step (bits[nat (v - mn) := True]))"

text \<open>The bounds and the step one part of a field's list denotes.\<close>

definition part_step :: "string \<Rightarrow> (cron_error, string \<times> int) result" where
  "part_step part =
     (case Cut part (CHR ''/'') of (base, st, found) \<Rightarrow>
        if \<not> found then Inr (part, 1)
        else case atoiStrict st of
          None \<Rightarrow> Inl CronBadStep
        | Some n \<Rightarrow>
            if n < 1 then Inl CronBadStep
            else if base \<noteq> ''*'' \<and> CHR ''-'' \<notin> set base then Inl CronStepNeedsRange
            else Inr (base, n))"

definition part_range :: "string \<Rightarrow> int \<Rightarrow> int \<Rightarrow> (cron_error, int \<times> int) result" where
  "part_range part mn mx =
     (if part = ''*'' then Inr (mn, mx)
      else if CHR ''-'' \<in> set part then
        (case Cut part (CHR ''-'') of (a, b, _) \<Rightarrow>
           case atoiStrict a of
             None \<Rightarrow> Inl CronBadStart
           | Some lo \<Rightarrow>
               (case atoiStrict b of
                  None \<Rightarrow> Inl CronBadEnd
                | Some hi \<Rightarrow> if lo > hi then Inl CronInverted else Inr (lo, hi)))
      else case atoiStrict part of
        None \<Rightarrow> Inl CronNotNumber
      | Some n \<Rightarrow> Inr (n, n))"

fun mark_parts :: "int \<Rightarrow> int \<Rightarrow> string list \<Rightarrow> bool list \<Rightarrow> (cron_error, bool list) result option" where
  "mark_parts mn mx [] bits = Some (Inr bits)"
| "mark_parts mn mx (part # ps) bits =
     (case part_step part of
        Inl e \<Rightarrow> Some (Inl e)
      | Inr (base, step) \<Rightarrow>
          (case part_range base mn mx of
             Inl e \<Rightarrow> Some (Inl e)
           | Inr (lo, hi) \<Rightarrow>
               if lo < mn \<or> hi > mx then Some (Inl CronOutOfRange)
               else case mark_bits mn lo hi step bits of
                 None \<Rightarrow> None
               | Some (Inl e) \<Rightarrow> Some (Inl e)
               | Some (Inr bits') \<Rightarrow> mark_parts mn mx ps bits'))"

definition parseCronField :: "string \<Rightarrow> int \<Rightarrow> int \<Rightarrow> (cron_error, cronField) result option" where
  "parseCronField s mn mx =
     (if s = [] then Some (Inl CronEmpty)
      else case mark_parts mn mx (Split s (CHR '','')) (replicate (nat (mx - mn + 1)) False) of
        None \<Rightarrow> None
      | Some (Inl e) \<Rightarrow> Some (Inl e)
      | Some (Inr bits) \<Rightarrow> Some (Inr \<lparr>cf_bits = bits, cf_min = mn\<rparr>))"

definition cron_specs :: "(int \<times> int) list" where
  "cron_specs = [(0, 59), (0, 23), (1, 31), (1, 12), (0, 6)]"

fun parse_fields :: "string list \<Rightarrow> (int \<times> int) list \<Rightarrow> (cron_error, cronField list) result option" where
  "parse_fields (f # fs) ((mn, mx) # specs) =
     (case parseCronField f mn mx of
        None \<Rightarrow> None
      | Some (Inl e) \<Rightarrow> Some (Inl e)
      | Some (Inr p) \<Rightarrow>
          (case parse_fields fs specs of
             None \<Rightarrow> None
           | Some (Inl e) \<Rightarrow> Some (Inl e)
           | Some (Inr ps) \<Rightarrow> Some (Inr (p # ps))))"
| "parse_fields _ _ = Some (Inr [])"

definition ParseSchedule :: "string \<Rightarrow> (cron_error, Schedule) result option" where
  "ParseSchedule expr =
     (let fields = Fields expr in
      if length fields \<noteq> 5 then Some (Inl CronFieldCount)
      else case parse_fields fields cron_specs of
        None \<Rightarrow> None
      | Some (Inl e) \<Rightarrow> Some (Inl e)
      | Some (Inr p) \<Rightarrow>
          Some (Inr \<lparr>s_minute = p ! 0, s_hour = p ! 1, s_dom = p ! 2, s_month = p ! 3, s_dow = p ! 4,
            s_dom_restricted = (fields ! 2 \<noteq> ''*''), s_dow_restricted = (fields ! 4 \<noteq> ''*''),
            s_expr = Join fields '' ''\<rparr>))"

section \<open>The next occurrence\<close>

definition matchesDay :: "Schedule \<Rightarrow> gtime \<Rightarrow> bool" where
  "matchesDay s t =
     (let dom = matches (s_dom s) (int (t_day t));
          dow = matches (s_dow s) (int (Weekday t))
      in if s_dom_restricted s \<and> s_dow_restricted s then dom \<or> dow
         else if s_dom_restricted s then dom
         else if s_dow_restricted s then dow
         else True)"

definition maxScheduleGapYears :: nat where
  "maxScheduleGapYears = 10"

text \<open>
  The search ends on every argument, valid or not: each step lowers the years left, or keeps
  them and lowers the months left, and so on down to the minutes.
\<close>

definition search_rel :: "((Schedule \<times> gtime \<times> gtime) \<times> Schedule \<times> gtime \<times> gtime) set" where
  "search_rel = measures [\<lambda>(s, l, t). Suc (t_year l) - t_year t, \<lambda>(s, l, t). 12 - t_month t,
    \<lambda>(s, l, t). 31 - t_day t, \<lambda>(s, l, t). 23 - t_hour t, \<lambda>(s, l, t). 59 - t_min t]"

lemma year_le: "t < limit \<Longrightarrow> t_year t \<le> t_year limit"
  using le_ym [of t limit, OF less_imp_le] unfolding ym_def by auto

lemma search_month: "t < limit \<Longrightarrow> ((s, limit, next_month t), (s, limit, t)) \<in> search_rel"
  using year_le [of t limit] unfolding search_rel_def next_month_def
  by (cases "t_month t < 12") (simp_all add: Suc_diff_le, arith)

lemma search_day: "t < limit \<Longrightarrow> ((s, limit, next_day t), (s, limit, t)) \<in> search_rel"
proof (cases "t_day t < days_in (t_year t) (t_month t)")
  case True
  then have "t_day t < 31" using days_in_bounds(2) [of "t_year t" "t_month t"] by simp
  with True show ?thesis unfolding search_rel_def next_day_def by (simp, arith)
qed (simp add: next_day_def search_month)

lemma search_hour: "t < limit \<Longrightarrow> ((s, limit, next_hour t), (s, limit, t)) \<in> search_rel"
proof (cases "t_hour t < 23")
  case True
  then show ?thesis unfolding search_rel_def next_hour_def by (simp, arith)
qed (simp add: next_hour_def search_day)

lemma search_minute: "t < limit \<Longrightarrow> ((s, limit, next_minute t), (s, limit, t)) \<in> search_rel"
proof (cases "t_min t < 59")
  case True
  then show ?thesis unfolding search_rel_def next_minute_def by (simp, arith?)
qed (simp add: next_minute_def search_hour)

text \<open>The search loop of \<open>Next\<close>.\<close>

function next_from :: "Schedule \<Rightarrow> gtime \<Rightarrow> gtime \<Rightarrow> gtime option" where
  "next_from s limit t =
     (if \<not> t < limit then None
      else if \<not> matches (s_month s) (int (t_month t)) then next_from s limit (next_month t)
      else if \<not> matchesDay s t then next_from s limit (next_day t)
      else if \<not> matches (s_hour s) (int (t_hour t)) then next_from s limit (next_hour t)
      else if \<not> matches (s_minute s) (int (t_min t)) then next_from s limit (next_minute t)
      else Some t)"
  by pat_completeness auto
termination
  by (relation search_rel)
    (simp_all add: search_month search_day search_hour search_minute, simp add: search_rel_def)

declare next_from.simps [simp del]

definition Next :: "Schedule \<Rightarrow> gtime \<Rightarrow> (cron_error, gtime) result" where
  "Next s after =
     (let t = next_minute after; limit = add_years maxScheduleGapYears t in
      case next_from s limit t of
        None \<Rightarrow> Inl CronNoOccurrence
      | Some r \<Rightarrow> Inr r)"

section \<open>The search finds the first occurrence\<close>

definition occurs_at :: "Schedule \<Rightarrow> gtime \<Rightarrow> bool" where
  "occurs_at s t \<longleftrightarrow>
     matches (s_month s) (int (t_month t)) \<and> matchesDay s t \<and>
     matches (s_hour s) (int (t_hour t)) \<and> matches (s_minute s) (int (t_min t))"

lemma Weekday_ymd: "ymd a = ymd b \<Longrightarrow> Weekday a = Weekday b"
  by (simp add: Weekday_def day_number_def keys)

lemma matchesDay_ymd: "ymd a = ymd b \<Longrightarrow> matchesDay s a = matchesDay s b"
  using Weekday_ymd [of a b] by (simp add: matchesDay_def keys)

text \<open>
  The outcome of the search from \<open>t\<close>: the least whole minute from \<open>t\<close> on at which the
  schedule occurs, or none below the limit.
\<close>

definition first_from :: "Schedule \<Rightarrow> gtime \<Rightarrow> gtime \<Rightarrow> gtime option \<Rightarrow> bool" where
  "first_from s limit t r \<longleftrightarrow>
     (case r of
        None \<Rightarrow> \<forall>u. whole_minute u \<longrightarrow> t \<le> u \<longrightarrow> u < limit \<longrightarrow> \<not> occurs_at s u
      | Some v \<Rightarrow> whole_minute v \<and> t \<le> v \<and> v < limit \<and> occurs_at s v \<and>
          (\<forall>u. whole_minute u \<longrightarrow> t \<le> u \<longrightarrow> u < v \<longrightarrow> \<not> occurs_at s u))"

text \<open>A jump over instants at which the schedule does not occur preserves the outcome.\<close>

lemma first_from_jump:
  assumes "t < t'" and "\<And>u. whole_minute u \<Longrightarrow> t \<le> u \<Longrightarrow> u < t' \<Longrightarrow> \<not> occurs_at s u"
    and "first_from s limit t' r"
  shows "first_from s limit t r"
proof (cases r)
  case None
  have "\<not> occurs_at s u" if "whole_minute u" "t \<le> u" "u < limit" for u
  proof (cases "u < t'")
    case True
    with assms(2) that show ?thesis by blast
  next
    case False
    with assms(3) None that show ?thesis by (simp add: first_from_def)
  qed
  with None show ?thesis by (simp add: first_from_def)
next
  case (Some v)
  with assms(3) have v: "whole_minute v" "t' \<le> v" "v < limit" "occurs_at s v"
    and least: "\<And>u. whole_minute u \<Longrightarrow> t' \<le> u \<Longrightarrow> u < v \<Longrightarrow> \<not> occurs_at s u"
    by (simp_all add: first_from_def)
  have "\<not> occurs_at s u" if "whole_minute u" "t \<le> u" "u < v" for u
  proof (cases "u < t'")
    case True
    with assms(2) that show ?thesis by blast
  next
    case False
    with least that show ?thesis by simp
  qed
  with Some v assms(1) show ?thesis by (simp add: first_from_def)
qed

lemma next_from_first: "whole_minute t \<Longrightarrow> first_from s limit t (next_from s limit t)"
proof (induction s limit t rule: next_from.induct)
  case (1 s limit t)
  have v: "valid_time t" using "1.prems" by (rule whole_minute_valid)
  have w: "valid_time u" if "whole_minute u" for u using that by (rule whole_minute_valid)
  show ?case
  proof (cases "t < limit")
    case False
    then show ?thesis by (auto simp: next_from.simps [of s limit t] first_from_def)
  next
    case lim: True
    consider (month) "\<not> matches (s_month s) (int (t_month t))"
      | (day) "matches (s_month s) (int (t_month t))" "\<not> matchesDay s t"
      | (hour) "matches (s_month s) (int (t_month t))" "matchesDay s t"
          "\<not> matches (s_hour s) (int (t_hour t))"
      | (minute) "matches (s_month s) (int (t_month t))" "matchesDay s t"
          "matches (s_hour s) (int (t_hour t))" "\<not> matches (s_minute s) (int (t_min t))"
      | (found) "occurs_at s t"
      unfolding occurs_at_def by blast
    then show ?thesis
    proof cases
      case month
      have "first_from s limit t (next_from s limit (next_month t))"
      proof (rule first_from_jump [OF next_month_gt])
        fix u assume "whole_minute u" "t \<le> u" "u < next_month t"
        with month show "\<not> occurs_at s u"
          using before_next_month [of t u] v w by (simp add: occurs_at_def ym_def)
      qed (use 1 lim month next_month_valid in simp)
      with lim month show ?thesis by (simp add: next_from.simps [of s limit t])
    next
      case day
      have "first_from s limit t (next_from s limit (next_day t))"
      proof (rule first_from_jump [OF next_day_gt])
        fix u assume "whole_minute u" "t \<le> u" "u < next_day t"
        with day show "\<not> occurs_at s u"
          using matchesDay_ymd [OF before_next_day [of t u]] v w by (simp add: occurs_at_def)
      qed (use 1 lim day next_day_valid v in simp)
      with lim day show ?thesis by (simp add: next_from.simps [of s limit t])
    next
      case hour
      have "first_from s limit t (next_from s limit (next_hour t))"
      proof (rule first_from_jump [OF next_hour_gt])
        fix u assume "whole_minute u" "t \<le> u" "u < next_hour t"
        with hour show "\<not> occurs_at s u"
          using before_next_hour [of t u] v w by (simp add: occurs_at_def ymdh_def)
      qed (use 1 lim hour next_hour_valid v in simp)
      with lim hour show ?thesis by (simp add: next_from.simps [of s limit t])
    next
      case minute
      have "first_from s limit t (next_from s limit (next_minute t))"
      proof (rule first_from_jump [OF next_minute_gt])
        fix u assume "whole_minute u" "t \<le> u" "u < next_minute t"
        with minute show "\<not> occurs_at s u"
          using before_next_minute [of t u] v w by (simp add: occurs_at_def ymdhm_def)
      qed (use 1 lim minute next_minute_valid v in simp)
      with lim minute show ?thesis by (simp add: next_from.simps [of s limit t])
    next
      case found
      then have "next_from s limit t = Some t"
        using lim by (simp add: next_from.simps [of s limit t] occurs_at_def)
      with found lim "1.prems" show ?thesis by (simp add: first_from_def not_less [symmetric])
    qed
  qed
qed

section \<open>Ten years are enough\<close>

lemma days_in_not_february: "m \<noteq> 2 \<Longrightarrow> days_in y m = days_in y' m"
  by (simp add: days_in_def)

lemma days_in_least: "\<not> is_leap y \<Longrightarrow> days_in y m \<le> days_in y' m"
  by (simp add: days_in_def)

lemma day_occurs_within:
  assumes u: "1 \<le> t_day u" "t_day u \<le> days_in (t_year u) (t_month u)" and m: "matchesDay s u"
  shows "\<exists>y d. ys < y \<and> y < ys + 10 \<and> 1 \<le> d \<and> d \<le> days_in y (t_month u) \<and>
    matchesDay s (Time y (t_month u) d h mi 0)"
proof (cases "s_dom_restricted s \<and> matches (s_dom s) (int (t_day u))")
  case True
  obtain k where k: "k < 8" "is_leap (Suc ys + k)" using leap_year_within_eight by blast
  have "t_day u \<le> days_in (Suc ys + k) (t_month u)"
  proof (cases "t_month u = 2")
    case True
    with u k show ?thesis by (simp add: days_in_def split: if_splits)
  next
    case False
    with u show ?thesis using days_in_not_february [of "t_month u" "t_year u" "Suc ys + k"] by simp
  qed
  moreover have "matchesDay s (Time (Suc ys + k) (t_month u) (t_day u) h mi 0)"
    using True by (simp add: matchesDay_def)
  ultimately show ?thesis
    using u k by (intro exI [of _ "Suc ys + k"] exI [of _ "t_day u"]) simp
next
  case False
  obtain d where d: "1 \<le> d" "d \<le> 7" "Weekday (Time (Suc ys) (t_month u) d h mi 0) = Weekday u"
    using weekday_in_month [of "Weekday u" "Suc ys" "t_month u" h mi 0] by (auto simp: Weekday_def)
  have "matchesDay s (Time (Suc ys) (t_month u) d h mi 0)"
    using m False d(3) by (auto simp: matchesDay_def Let_def split: if_splits)
  moreover have "d \<le> days_in (Suc ys) (t_month u)"
    using d(2) days_in_bounds(1) [of "Suc ys" "t_month u"] by simp
  ultimately show ?thesis
    using d(1) by (intro exI [of _ "Suc ys"] exI [of _ d]) simp
qed

lemma year_add_years [simp]: "t_year (add_years n t) = t_year t + n"
  by (simp add: add_years_def)

lemma less_of_year: "t_year a < t_year b \<Longrightarrow> a < b"
  by (rule less_of_ym) (simp add: ym_def)

lemma occurs_in_window:
  assumes u: "valid_time u" "occurs_at s u"
  shows "\<exists>w. whole_minute w \<and> t \<le> w \<and> w < add_years maxScheduleGapYears t \<and> occurs_at s w"
proof -
  obtain y d where w: "t_year t < y" "y < t_year t + 10" "1 \<le> d" "d \<le> days_in y (t_month u)"
    "matchesDay s (Time y (t_month u) d (t_hour u) (t_min u) 0)"
    using day_occurs_within [of u s "t_year t" "t_hour u" "t_min u"] u
    by (auto simp: valid_time_def occurs_at_def)
  let ?w = "Time y (t_month u) d (t_hour u) (t_min u) 0"
  have "whole_minute ?w" using u w by (simp add: whole_minute_def valid_time_def)
  moreover have "t < ?w" using w by (intro less_of_year) simp
  moreover have "?w < add_years maxScheduleGapYears t"
    using w by (intro less_of_year) (simp add: maxScheduleGapYears_def)
  moreover have "occurs_at s ?w" using u w by (simp add: occurs_at_def)
  ultimately show ?thesis by (meson less_imp_le)
qed

lemma Next_possible:
  assumes "valid_time a" and "valid_time u" and "occurs_at s u"
  shows "\<exists>t. Next s a = Inr t"
proof -
  have "first_from s (add_years 10 (next_minute a)) (next_minute a) (next_from s (add_years 10 (next_minute a)) (next_minute a))"
    by (rule next_from_first [OF next_minute_valid [OF assms(1)]])
  with occurs_in_window [OF assms(2,3), of "next_minute a"] show ?thesis
    by (cases "next_from s (add_years 10 (next_minute a)) (next_minute a)")
      (auto simp: Next_def Let_def maxScheduleGapYears_def first_from_def)
qed

text \<open>What the value of \<open>Next\<close> says: the first occurrence strictly after \<open>a\<close>.\<close>

lemma Next_outcome:
  assumes "valid_time a"
  shows "case Next s a of
      Inr t \<Rightarrow> whole_minute t \<and> a < t \<and> occurs_at s t \<and>
        \<not> (\<exists>u. whole_minute u \<and> a < u \<and> u < t \<and> occurs_at s u)
    | Inl e \<Rightarrow> e = CronNoOccurrence \<and>
        \<not> (\<exists>u. whole_minute u \<and> a < u \<and> u < add_years 10 (next_minute a) \<and> occurs_at s u)"
proof -
  let ?t = "next_minute a"
  have "first_from s (add_years 10 ?t) ?t (next_from s (add_years 10 ?t) ?t)"
    by (rule next_from_first [OF next_minute_valid [OF assms]])
  moreover have "?t \<le> u" if "whole_minute u" "a < u" for u
    by (rule next_minute_least [OF that(2,1) assms])
  ultimately show ?thesis
    using next_minute_gt [of a]
    by (cases "next_from s (add_years 10 ?t) ?t")
      (auto simp: Next_def Let_def maxScheduleGapYears_def first_from_def)
qed

section \<open>The parser's loop\<close>

lemma int_add_mod: "int_add a b = (a + b + 2 ^ 63) mod 2 ^ 64 - 2 ^ 63"
  unfolding int_add_def sint_sbintrunc' by (simp add: signed_take_bit_eq_take_bit_shift take_bit_eq_mod)

lemma int_add_small: "0 \<le> a + b \<Longrightarrow> a + b < 2 ^ 63 \<Longrightarrow> int_add a b = a + b"
  unfolding int_add_mod by (subst mod_pos_pos_trivial) auto

lemma int_add_wrap: "2 ^ 63 \<le> a + b \<Longrightarrow> a + b < 2 ^ 64 \<Longrightarrow> int_add a b < 0"
proof -
  assume ab: "2 ^ 63 \<le> a + b" "a + b < 2 ^ 64"
  have "(a + b + 2 ^ 63) mod 2 ^ 64 = (a + b - 2 ^ 63) mod 2 ^ 64"
  proof -
    have "a + b + 2 ^ 63 = (a + b - 2 ^ 63) + 2 ^ 64" by simp
    then show ?thesis by (simp only: mod_add_self2)
  qed
  also have "\<dots> = a + b - 2 ^ 63" using ab by (intro mod_pos_pos_trivial) auto
  finally have "int_add a b = a + b - 2 ^ 63 - 2 ^ 63" unfolding int_add_mod by (simp only:)
  then show ?thesis using ab by simp
qed

text \<open>
  With a positive step the loop ends: it passes the upper bound, leaves the slice, or wraps
  below zero and panics there.
\<close>

lemma mark_bits_ends:
  assumes "1 \<le> step" "step < 2 ^ 63" "0 \<le> mn" "mn + int (length bits) \<le> 2 ^ 32" "v < 2 ^ 63"
  shows "\<exists>r. mark_bits mn v hi step bits = Some r"
  using assms(4,5)
proof (induction "nat (mn + int (length bits) - v)" arbitrary: v bits rule: less_induct)
  case less
  show ?case
  proof (cases "v \<le> hi \<and> 0 \<le> v - mn \<and> v - mn < int (length bits)")
    case False
    then show ?thesis by (subst mark_bits.simps) auto
  next
    case in_range: True
    let ?bits = "bits[nat (v - mn) := True]"
    have "\<exists>r. mark_bits mn (int_add v step) hi step ?bits = Some r"
    proof (cases "v + step < 2 ^ 63")
      case True
      then have "int_add v step = v + step"
        using in_range assms by (intro int_add_small) auto
      then show ?thesis
        using in_range assms True less.prems by (intro less.hyps) auto
    next
      case False
      then have "int_add v step < 0"
        using in_range assms less.prems by (intro int_add_wrap) auto
      then have "int_add v step - mn < 0" using assms by simp
      then show ?thesis by (subst mark_bits.simps) auto
    qed
    with in_range show ?thesis by (subst mark_bits.simps) auto
  qed
qed

text \<open>Without wrap-around it sets exactly the bits of the arithmetic progression.\<close>

lemma mark_bits_exact:
  assumes "1 \<le> step" "hi + step < 2 ^ 63" "0 \<le> mn" "hi < mn + int (length bits)" "mn \<le> v"
  shows "\<exists>bs. mark_bits mn v hi step bits = Some (Inr bs) \<and> length bs = length bits \<and>
    (\<forall>i < length bits. bs ! i \<longleftrightarrow> bits ! i \<or> (\<exists>k. mn + int i = v + int k * step \<and> mn + int i \<le> hi))"
  using assms(4,5)
proof (induction "nat (hi + 1 - v)" arbitrary: v bits rule: less_induct)
  case less
  show ?case
  proof (cases "v \<le> hi")
    case False
    then have "mark_bits mn v hi step bits = Some (Inr bits)" by (subst mark_bits.simps) simp
    moreover have "\<not> (\<exists>k. mn + int i = v + int k * step \<and> mn + int i \<le> hi)" for i
    proof
      assume "\<exists>k. mn + int i = v + int k * step \<and> mn + int i \<le> hi"
      then obtain k where "v + int k * step \<le> hi" by auto
      moreover have "0 \<le> int k * step" using assms(1) by simp
      ultimately show False using False by linarith
    qed
    ultimately show ?thesis by (intro exI [of _ bits]) blast
  next
    case True
    let ?j = "nat (v - mn)"
    let ?bits = "bits[?j := True]"
    have add: "int_add v step = v + step"
      using True less.prems assms by (intro int_add_small) auto
    have "\<exists>bs. mark_bits mn (v + step) hi step ?bits = Some (Inr bs) \<and> length bs = length ?bits \<and>
      (\<forall>i < length ?bits. bs ! i \<longleftrightarrow> ?bits ! i \<or> (\<exists>k. mn + int i = v + step + int k * step \<and> mn + int i \<le> hi))"
      using True less.prems assms by (intro less.hyps) auto
    then obtain bs where bs: "mark_bits mn (v + step) hi step ?bits = Some (Inr bs)" "length bs = length bits"
      and nth: "\<And>i. i < length bits \<Longrightarrow>
        bs ! i \<longleftrightarrow> ?bits ! i \<or> (\<exists>k. mn + int i = v + step + int k * step \<and> mn + int i \<le> hi)"
      by auto
    have "mark_bits mn v hi step bits = Some (Inr bs)"
      using True less.prems assms(3,4) bs(1) by (subst mark_bits.simps) (simp add: add)
    moreover have "bs ! i \<longleftrightarrow> bits ! i \<or> (\<exists>k. mn + int i = v + int k * step \<and> mn + int i \<le> hi)"
      if i: "i < length bits" for i
    proof -
      have split: "(\<exists>k. mn + int i = v + int k * step) \<longleftrightarrow>
          mn + int i = v \<or> (\<exists>k. mn + int i = v + step + int k * step)"
      proof
        assume "\<exists>k. mn + int i = v + int k * step"
        then obtain k where "mn + int i = v + int k * step" ..
        then show "mn + int i = v \<or> (\<exists>k. mn + int i = v + step + int k * step)"
          by (cases k) (auto simp: algebra_simps)
      next
        assume "mn + int i = v \<or> (\<exists>k. mn + int i = v + step + int k * step)"
        then show "\<exists>k. mn + int i = v + int k * step"
        proof
          assume "mn + int i = v"
          then show ?thesis by (intro exI [of _ 0]) simp
        next
          assume "\<exists>k. mn + int i = v + step + int k * step"
          then obtain k where "mn + int i = v + step + int k * step" ..
          then show ?thesis by (intro exI [of _ "Suc k"]) (simp add: algebra_simps)
        qed
      qed
      have "?bits ! i \<longleftrightarrow> bits ! i \<or> mn + int i = v"
        using i True less.prems by (auto simp: nth_list_update)
      with nth [OF i] split True show ?thesis by auto
    qed
    ultimately show ?thesis using bs(2) by auto
  qed
qed

section \<open>The parser ends\<close>

lemma ParseInt10_bound: "ParseInt10 s = Some n \<Longrightarrow> 0 \<le> n \<and> n < 2 ^ 63"
  by (auto simp: ParseInt10_def split: if_splits)

lemma atoiStrict_bound: "atoiStrict s = Some n \<Longrightarrow> 0 \<le> n \<and> n < 2 ^ 63"
  by (auto simp: atoiStrict_def dest: ParseInt10_bound split: if_splits)

lemma part_step_bound: "part_step p = Inr (b, st) \<Longrightarrow> 1 \<le> st \<and> st < 2 ^ 63"
  by (auto simp: part_step_def dest: atoiStrict_bound split: prod.splits if_splits option.splits)

lemma part_range_bound:
  "part_range p mn mx = Inr (lo, hi) \<Longrightarrow> mn < 2 ^ 63 \<Longrightarrow> lo < 2 ^ 63"
  by (auto simp: part_range_def dest: atoiStrict_bound split: prod.splits if_splits option.splits)

lemma mark_bits_length:
  "mark_bits mn v hi step bits = Some r \<Longrightarrow> r = Inr bs \<Longrightarrow> length bs = length bits"
proof (induction mn v hi step bits r arbitrary: bs rule: mark_bits.raw_induct [rotated, consumes 1, case_names 1])
  case (1 mark mn v hi step bits r)
  show ?case
  proof (cases "v \<le> hi \<and> \<not> (v - mn < 0 \<or> v - mn \<ge> int (length bits))")
    case True
    with 1(2) have "mark mn (int_add v step) hi step (bits[nat (v - mn) := True]) = Some r" by auto
    from 1(1) [OF this 1(3)] show ?thesis by simp
  qed (use 1(2,3) in \<open>auto split: if_splits\<close>)
qed

lemma mark_parts_ends:
  assumes "0 \<le> mn" "mn < 2 ^ 32"
  shows "mn + int (length bits) \<le> 2 ^ 32 \<Longrightarrow> \<exists>r. mark_parts mn mx ps bits = Some r"
proof (induction ps arbitrary: bits)
  case (Cons p ps)
  show ?case
  proof (cases "part_step p")
    case (Inr bs)
    then obtain base st where st: "part_step p = Inr (base, st)" by (cases bs) auto
    show ?thesis
    proof (cases "part_range base mn mx")
      case (Inr lh)
      then obtain lo hi where lh: "part_range base mn mx = Inr (lo, hi)" by (cases lh) auto
      obtain r where r: "mark_bits mn lo hi st bits = Some r"
        using mark_bits_ends [of st mn bits lo hi] part_step_bound [OF st] part_range_bound [OF lh] assms Cons.prems
        by auto
      have "\<exists>q. mark_parts mn mx ps b = Some q" if "r = Inr b" for b
        using Cons.IH [of b] mark_bits_length [OF r that] Cons.prems by simp
      with st lh r show ?thesis by (auto split: sum.splits)
    qed (simp add: st)
  qed simp
qed simp

lemma parseCronField_ends:
  assumes "0 \<le> mn" "mn < 2 ^ 31" "mx < 2 ^ 31"
  shows "\<exists>r. parseCronField s mn mx = Some r"
proof -
  obtain r where "mark_parts mn mx (Split s (CHR '','')) (replicate (nat (mx - mn + 1)) False) = Some r"
    using mark_parts_ends [of mn "replicate (nat (mx - mn + 1)) False"] assms by fastforce
  then show ?thesis by (auto simp: parseCronField_def split: sum.splits)
qed

lemma parse_fields_end:
  "(\<And>mn mx. (mn, mx) \<in> set specs \<Longrightarrow> 0 \<le> mn \<and> mn < 2 ^ 31 \<and> mx < 2 ^ 31) \<Longrightarrow>
    \<exists>r. parse_fields fs specs = Some r"
proof (induction fs specs rule: parse_fields.induct)
  case (1 f fs mn mx specs)
  obtain r where r: "parseCronField f mn mx = Some r"
    using parseCronField_ends [of mn mx f] 1(2) by auto
  show ?case
  proof (cases r)
    case (Inr p)
    have "\<exists>q. parse_fields fs specs = Some q" using 1 r Inr by auto
    with r Inr show ?thesis by (auto split: sum.splits)
  qed (simp add: r)
qed simp_all

lemma ParseSchedule_ends: "\<exists>r. ParseSchedule e = Some r"
proof -
  have "\<exists>r. parse_fields (Fields e) cron_specs = Some r"
    by (rule parse_fields_end) (auto simp: cron_specs_def)
  then show ?thesis by (auto simp: ParseSchedule_def Let_def split: sum.splits)
qed

section \<open>What an expression means\<close>

text \<open>The written form of one part of a field: a range with an optional step.\<close>

datatype part_base = Every | Value nat | Range nat nat

fun show_base :: "part_base \<Rightarrow> string" where
  "show_base Every = ''*''"
| "show_base (Value a) = show_nat a"
| "show_base (Range a b) = show_nat a @ CHR ''-'' # show_nat b"

fun show_part :: "part_base \<times> nat option \<Rightarrow> string" where
  "show_part (b, None) = show_base b"
| "show_part (b, Some n) = show_base b @ CHR ''/'' # show_nat n"

text \<open>Which parts are legal in a field with the bounds \<open>mn\<close> and \<open>mx\<close>.\<close>

fun legal_part :: "nat \<Rightarrow> nat \<Rightarrow> part_base \<times> nat option \<Rightarrow> bool" where
  "legal_part mn mx (b, st) \<longleftrightarrow>
     (case b of Every \<Rightarrow> True | Value a \<Rightarrow> mn \<le> a \<and> a \<le> mx \<and> st = None
      | Range a c \<Rightarrow> mn \<le> a \<and> a \<le> c \<and> c \<le> mx) \<and>
     (case st of None \<Rightarrow> True | Some n \<Rightarrow> 1 \<le> n \<and> n < 2 ^ 62)"

text \<open>The values a part denotes.\<close>

fun denotes :: "nat \<Rightarrow> nat \<Rightarrow> part_base \<times> nat option \<Rightarrow> nat \<Rightarrow> bool" where
  "denotes mn mx (b, st) v \<longleftrightarrow>
     (let lo = (case b of Every \<Rightarrow> mn | Value a \<Rightarrow> a | Range a c \<Rightarrow> a);
          hi = (case b of Every \<Rightarrow> mx | Value a \<Rightarrow> a | Range a c \<Rightarrow> c)
      in lo \<le> v \<and> v \<le> hi \<and> (case st of None \<Rightarrow> True | Some n \<Rightarrow> (v - lo) mod n = 0))"

lemma digit_not_sep: "c \<in> set (show_nat n) \<Longrightarrow> c \<noteq> CHR ''-'' \<and> c \<noteq> CHR ''/'' \<and> c \<noteq> CHR '','' \<and> c \<noteq> CHR ''*''"
  using show_nat_digits [of n] by (auto simp: is_digit_def byte_def)

lemma atoiStrict_show_nat: "n < 2 ^ 63 \<Longrightarrow> atoiStrict (show_nat n) = Some (int n)"
  using show_nat_digits [of n] by (simp add: atoiStrict_def ParseInt10_def isDigits_run_def list_all_iff)

lemma base_no_slash: "c \<in> set (show_base b) \<Longrightarrow> c \<noteq> CHR ''/'' \<and> c \<noteq> CHR '',''"
  by (cases b) (auto dest: digit_not_sep)

lemma part_step_show:
  assumes "legal_part mn mx (b, st)"
  shows "part_step (show_part (b, st)) = Inr (show_base b, case st of None \<Rightarrow> 1 | Some n \<Rightarrow> int n)"
proof (cases st)
  case None
  then show ?thesis using base_no_slash by (simp add: part_step_def Cut_absent)
next
  case (Some n)
  have "Cut (show_base b @ CHR ''/'' # show_nat n) (CHR ''/'') = (show_base b, show_nat n, True)"
    using base_no_slash by (intro Cut_append) auto
  moreover have "show_base b = ''*'' \<or> CHR ''-'' \<in> set (show_base b)"
    using assms Some by (cases b) auto
  ultimately show ?thesis
    using assms Some by (auto simp: part_step_def atoiStrict_show_nat)
qed

lemma show_nat_not_star: "show_nat a \<noteq> ''*''"
proof
  assume "show_nat a = ''*''"
  then have "CHR ''*'' \<in> set (show_nat a)" by simp
  then show False using digit_not_sep by blast
qed

lemma part_range_show:
  assumes "legal_part mn mx (b, st)" "mx < 2 ^ 62"
  shows "part_range (show_base b) (int mn) (int mx) =
    (case b of Every \<Rightarrow> Inr (int mn, int mx) | Value a \<Rightarrow> Inr (int a, int a) | Range a c \<Rightarrow> Inr (int a, int c))"
proof (cases b)
  case (Value a)
  have "CHR ''-'' \<notin> set (show_nat a)" using digit_not_sep by blast
  then show ?thesis
    using assms Value show_nat_not_star [of a] by (simp add: part_range_def atoiStrict_show_nat)
next
  case (Range a c)
  have "Cut (show_nat a @ CHR ''-'' # show_nat c) (CHR ''-'') = (show_nat a, show_nat c, True)"
    using digit_not_sep by (intro Cut_append) auto
  moreover have "show_nat a @ CHR ''-'' # show_nat c \<noteq> ''*''"
    by (cases "show_nat a") auto
  ultimately show ?thesis
    using assms Range by (simp add: part_range_def atoiStrict_show_nat)
qed (simp add: part_range_def)

lemma progression_iff: "(\<exists>k. m = a + k * n) \<longleftrightarrow> a \<le> m \<and> (m - a) mod n = 0"
  for a m n :: nat
proof
  assume "a \<le> m \<and> (m - a) mod n = 0"
  then have "m = a + (m - a) div n * n"
    using div_mult_mod_eq [of "m - a" n] by simp
  then show "\<exists>k. m = a + k * n" ..
qed auto

text \<open>The bits a list of legal parts sets.\<close>

lemma mark_parts_show:
  assumes "mx < 2 ^ 62" "list_all (legal_part mn mx) ps" "length bits = Suc mx - mn" "mn \<le> mx"
  shows "\<exists>bs. mark_parts (int mn) (int mx) (map show_part ps) bits = Some (Inr bs) \<and>
    length bs = length bits \<and>
    (\<forall>i < length bits. bs ! i \<longleftrightarrow> bits ! i \<or> (\<exists>p \<in> set ps. denotes mn mx p (mn + i)))"
  using assms(2,3)
proof (induction ps arbitrary: bits)
  case (Cons p ps)
  obtain b st where p: "p = (b, st)" by (cases p)
  define lo where "lo = (case b of Every \<Rightarrow> mn | Value a \<Rightarrow> a | Range a c \<Rightarrow> a)"
  define hi where "hi = (case b of Every \<Rightarrow> mx | Value a \<Rightarrow> a | Range a c \<Rightarrow> c)"
  define n where "n = (case st of None \<Rightarrow> 1 | Some n \<Rightarrow> n)"
  have legal: "legal_part mn mx (b, st)" using Cons.prems p by simp
  have lo: "mn \<le> lo" and hi: "hi \<le> mx" and n: "1 \<le> n" "n < 2 ^ 62"
    using legal assms(4) unfolding lo_def hi_def n_def
    by (simp_all split: part_base.splits option.splits)
  have range: "part_range (show_base b) (int mn) (int mx) = Inr (int lo, int hi)"
    using part_range_show [OF legal assms(1)] unfolding lo_def hi_def by (cases b) simp_all
  have step: "part_step (show_part p) = Inr (show_base b, int n)"
    using part_step_show [OF legal] unfolding p n_def by (cases st) simp_all
  have den: "(\<exists>k. int mn + int i = int lo + int k * int n \<and> int mn + int i \<le> int hi) \<longleftrightarrow>
      denotes mn mx p (mn + i)" for i
  proof -
    have "(\<exists>k. int mn + int i = int lo + int k * int n) \<longleftrightarrow> (\<exists>k. mn + i = lo + k * n)"
      by (simp only: of_nat_add [symmetric] of_nat_mult [symmetric] of_nat_eq_iff)
    also have "\<dots> \<longleftrightarrow> lo \<le> mn + i \<and> (mn + i - lo) mod n = 0"
      by (rule progression_iff)
    finally have "(\<exists>k. int mn + int i = int lo + int k * int n) \<longleftrightarrow>
      lo \<le> mn + i \<and> (mn + i - lo) mod n = 0" .
    moreover have "denotes mn mx p (mn + i) \<longleftrightarrow> lo \<le> mn + i \<and> mn + i \<le> hi \<and> (mn + i - lo) mod n = 0"
      unfolding p lo_def hi_def n_def by (cases st) (simp_all add: Let_def)
    moreover have "int mn + int i \<le> int hi \<longleftrightarrow> mn + i \<le> hi" by linarith
    ultimately show ?thesis by (simp del: denotes.simps) blast
  qed
  have "\<exists>bs. mark_bits (int mn) (int lo) (int hi) (int n) bits = Some (Inr bs) \<and> length bs = length bits \<and>
    (\<forall>i < length bits. bs ! i \<longleftrightarrow> bits ! i \<or>
      (\<exists>k. int mn + int i = int lo + int k * int n \<and> int mn + int i \<le> int hi))"
    using lo hi n assms(1,4) Cons.prems(2) by (intro mark_bits_exact) auto
  then obtain bs where bs: "mark_bits (int mn) (int lo) (int hi) (int n) bits = Some (Inr bs)"
    "length bs = length bits"
    and nth: "\<And>i. i < length bits \<Longrightarrow> bs ! i \<longleftrightarrow> bits ! i \<or> denotes mn mx p (mn + i)"
    unfolding den by blast
  have "length bs = Suc mx - mn" "list_all (legal_part mn mx) ps" using Cons.prems bs(2) by simp_all
  then obtain cs where cs: "mark_parts (int mn) (int mx) (map show_part ps) bs = Some (Inr cs)"
    "length cs = length bs"
    "\<And>i. i < length bs \<Longrightarrow> cs ! i \<longleftrightarrow> bs ! i \<or> (\<exists>p \<in> set ps. denotes mn mx p (mn + i))"
    using Cons.IH [of bs] by blast
  have "mark_parts (int mn) (int mx) (map show_part (p # ps)) bits = Some (Inr cs)"
    using step range lo hi bs(1) cs(1) by (simp del: show_part.simps)
  moreover have "cs ! i \<longleftrightarrow> bits ! i \<or> (\<exists>q \<in> set (p # ps). denotes mn mx q (mn + i))" if "i < length bits" for i
    using cs(3) [of i] bs(2) nth [OF that] that by (simp del: denotes.simps)
  moreover have "length cs = length bits" using cs(2) bs(2) by simp
  ultimately show ?case by (intro exI [of _ cs]) simp
qed simp

lemma Split_no_sep: "sep \<notin> set s \<Longrightarrow> Split s sep = [s]"
  by (induction s) auto

lemma Split_sep: "sep \<notin> set s \<Longrightarrow> Split (s @ sep # t) sep = s # Split t sep"
  by (induction s) auto

lemma Split_Join: "xs \<noteq> [] \<Longrightarrow> (\<And>x. x \<in> set xs \<Longrightarrow> sep \<notin> set x) \<Longrightarrow> Split (Join xs [sep]) sep = xs"
  by (induction xs "[sep]" rule: Join.induct) (simp_all add: Split_no_sep Split_sep)

lemma show_part_no_comma: "CHR '','' \<notin> set (show_part p)"
proof (cases p)
  case (Pair b st)
  then show ?thesis using base_no_slash [of "CHR '',''" b] digit_not_sep by (cases st) auto
qed

lemma show_base_nonempty: "show_base b \<noteq> []"
  by (cases b) simp_all

lemma show_part_nonempty: "show_part p \<noteq> []"
  by (cases p rule: show_part.cases) (simp_all add: show_base_nonempty)

lemma Join_nonempty: "xs \<noteq> [] \<Longrightarrow> [] \<notin> set xs \<Longrightarrow> Join xs sep \<noteq> []"
  by (induction xs sep rule: Join.induct) auto

lemma parseCronField_show:
  assumes "mx < 2 ^ 62" "mn \<le> mx" "ps \<noteq> []" "list_all (legal_part mn mx) ps"
  shows "\<exists>f. parseCronField (Join (map show_part ps) '','') (int mn) (int mx) = Some (Inr f) \<and>
    (\<forall>v. matches f (int v) \<longleftrightarrow> mn \<le> v \<and> v \<le> mx \<and> (\<exists>p \<in> set ps. denotes mn mx p v))"
proof -
  let ?s = "Join (map show_part ps) '',''"
  have ne: "?s \<noteq> []"
    using assms(3) show_part_nonempty by (intro Join_nonempty) (auto simp: image_iff intro: sym)
  have split: "Split ?s (CHR '','') = map show_part ps"
    using assms(3) show_part_no_comma by (intro Split_Join) auto
  have len: "nat (int mx - int mn + 1) = Suc mx - mn" using assms(2) by simp
  obtain bs where bs: "mark_parts (int mn) (int mx) (map show_part ps) (replicate (Suc mx - mn) False) = Some (Inr bs)"
    "length bs = Suc mx - mn" "\<And>i. i < Suc mx - mn \<Longrightarrow> bs ! i \<longleftrightarrow> (\<exists>p \<in> set ps. denotes mn mx p (mn + i))"
    using mark_parts_show [OF assms(1,4) _ assms(2), of "replicate (Suc mx - mn) False"] by auto
  let ?f = "\<lparr>cf_bits = bs, cf_min = int mn\<rparr>"
  have "parseCronField ?s (int mn) (int mx) = Some (Inr ?f)"
    using ne bs(1) by (simp add: parseCronField_def split len)
  moreover have "matches ?f (int v) \<longleftrightarrow> mn \<le> v \<and> v \<le> mx \<and> (\<exists>p \<in> set ps. denotes mn mx p v)" for v
  proof (cases "mn \<le> v \<and> v \<le> mx")
    case True
    then have "nat (int v - int mn) = v - mn" "v - mn < Suc mx - mn" by auto
    then show ?thesis using True bs(2) bs(3) [of "v - mn"] by (auto simp: matches_def simp del: denotes.simps)
  next
    case False
    then show ?thesis using bs(2) assms(2) by (auto simp: matches_def simp del: denotes.simps)
  qed
  ultimately show ?thesis by blast
qed

section \<open>Properties\<close>

text \<open>
  A field of a cron expression means what it says: a comma-separated list of legal parts
  (every value, one value, a range, each but the second with an optional step) is accepted, and
  the parsed field matches exactly the values inside the field's bounds that one of the parts
  denotes.
\<close>
theorem cron_field_meaning:
  assumes "mx < 2 ^ 62" and "mn \<le> mx" and "ps \<noteq> []" and "list_all (legal_part mn mx) ps"
  shows "\<exists>f. parseCronField (Join (map show_part ps) '','') (int mn) (int mx) = Some (Inr f) \<and>
    (\<forall>v. matches f (int v) \<longleftrightarrow> mn \<le> v \<and> v \<le> mx \<and> (\<exists>p \<in> set ps. denotes mn mx p v))"
  by (rule parseCronField_show [OF assms])

theorem cron_field_meaning_witness:
  "\<exists>f. parseCronField ''*/15,7,9-17'' 0 59 = Some (Inr f) \<and> matches f 45 \<and> matches f 7 \<and> \<not> matches f 46"
proof -
  let ?ps = "[(Every, Some 15), (Value 7, None), (Range 9 17, None)]"
  have written: "Join (map show_part ?ps) '','' = ''*/15,7,9-17''"
    by (simp add: show_nat.simps digit_char_eval digit_char_eval(2) [simplified])
  obtain f where "parseCronField ''*/15,7,9-17'' 0 59 = Some (Inr f)"
    and m: "\<forall>v. matches f (int v) \<longleftrightarrow> 0 \<le> v \<and> v \<le> 59 \<and> (\<exists>p \<in> set ?ps. denotes 0 59 p v)"
    using cron_field_meaning [of 59 0 ?ps] unfolding written by auto
  moreover have "matches f 45" using m [rule_format, of 45] by simp
  moreover have "matches f 7" using m [rule_format, of 7] by simp
  moreover have "\<not> matches f 46" using m [rule_format, of 46] by simp
  ultimately show ?thesis by blast
qed

text \<open>
  C12. Parsing a cron expression always ends, whatever the text: with a schedule, an error, or
  the run-time panic of the next property; no step, however large, makes the loop over a range
  run forever.
\<close>
theorem parse_schedule_terminates: "\<exists>r. ParseSchedule e = Some r"
  by (rule ParseSchedule_ends)

text \<open>
  C13. The next occurrence is the first one: when \<open>Next\<close> returns an instant it is a whole
  minute strictly after the given one at which all fields match, and no earlier one is skipped
  over by the jumps to the next month, day or hour; when it returns the error, the schedule
  occurs at no minute of the ten years it searches.
\<close>
theorem next_is_first_occurrence:
  assumes "valid_time a"
  shows "case Next s a of
      Inr t \<Rightarrow> whole_minute t \<and> a < t \<and> occurs_at s t \<and>
        \<not> (\<exists>u. whole_minute u \<and> a < u \<and> u < t \<and> occurs_at s u)
    | Inl e \<Rightarrow> e = CronNoOccurrence \<and>
        \<not> (\<exists>u. whole_minute u \<and> a < u \<and> u < add_years 10 (next_minute a) \<and> occurs_at s u)"
  by (rule Next_outcome [OF assms])

text \<open>
  C14. A schedule that can occur does occur: if there is any valid minute, in any year, at which
  the schedule matches, then from every valid instant \<open>Next\<close> finds an occurrence, so the
  ten-year bound rejects only impossible dates. A leap day is no exception, not even across a
  century year.
\<close>
theorem next_finds_possible_schedules:
  assumes "valid_time a" and "valid_time u" and "occurs_at s u"
  shows "\<exists>t. Next s a = Inr t"
  by (rule Next_possible [OF assms])

text \<open>The schedule of \<open>0 0 29 2 *\<close>, midnight of every 29 February.\<close>

definition only :: "nat \<Rightarrow> nat \<Rightarrow> nat \<Rightarrow> cronField" where
  "only mn mx v = \<lparr>cf_bits = map (\<lambda>i. i = v) [mn ..< Suc mx], cf_min = int mn\<rparr>"

definition leap_schedule :: Schedule where
  "leap_schedule =
     \<lparr>s_minute = only 0 59 0, s_hour = only 0 23 0, s_dom = only 1 31 29, s_month = only 1 12 2,
      s_dow = \<lparr>cf_bits = replicate 7 True, cf_min = 0\<rparr>, s_dom_restricted = True,
      s_dow_restricted = False, s_expr = ''0 0 29 2 *''\<rparr>"

lemma leap_schedule_occurs: "occurs_at leap_schedule (Time 2000 2 29 0 0 0)"
  by (simp add: occurs_at_def matchesDay_def matches_def leap_schedule_def only_def upt_rec)

theorem next_is_first_occurrence_witness:
  "case Next leap_schedule (Time 2096 2 29 0 0 0) of
      Inr t \<Rightarrow> whole_minute t \<and> Time 2096 2 29 0 0 0 < t \<and> occurs_at leap_schedule t \<and>
        \<not> (\<exists>u. whole_minute u \<and> Time 2096 2 29 0 0 0 < u \<and> u < t \<and> occurs_at leap_schedule u)
    | Inl e \<Rightarrow> e = CronNoOccurrence \<and>
        \<not> (\<exists>u. whole_minute u \<and> Time 2096 2 29 0 0 0 < u \<and>
            u < add_years 10 (next_minute (Time 2096 2 29 0 0 0)) \<and> occurs_at leap_schedule u)"
  by (rule next_is_first_occurrence) (simp add: valid_time_def days_in_def is_leap_def)

theorem next_finds_possible_schedules_witness: "\<exists>t. Next leap_schedule (Time 2096 2 29 0 0 0) = Inr t"
  by (rule next_finds_possible_schedules [OF _ _ leap_schedule_occurs])
    (simp_all add: valid_time_def days_in_def is_leap_def)

text \<open>
  A huge step crashes the parser: for \<open>0 0 1-31/9223372036854775807 * *\<close>, five fields of
  the documented subset with a positive step, the loop variable wraps past the largest
  \<open>int\<close>, compares as below the upper bound again, and the negative index panics.
\<close>
theorem parse_schedule_panics: "ParseSchedule ''0 0 */9223372036854775807 * *'' = Some (Inl CronPanic)"
proof -
  have fields: "Fields ''0 0 */9223372036854775807 * *'' = [''0'', ''0'', ''*/9223372036854775807'', ''*'', ''*'']"
    unfolding Fields_def
    by (simp add: fields_from.simps space_prefix_def space_seqs_def byte_def)
  have eval: "digits_val ''9223372036854775807'' = 9223372036854775807" "digits_val ''0'' = 0"
    by (simp_all add: digits_val_def digit_val_def byte_def)
  have atoi: "atoiStrict ''9223372036854775807'' = Some 9223372036854775807" "atoiStrict ''0'' = Some 0"
    by (simp_all add: atoiStrict_def ParseInt10_def isDigits_run_def is_digit_def byte_def eval)
  have zero: "parseCronField ''0'' 0 n = Some (Inr \<lparr>cf_bits = (replicate (nat (n + 1)) False)[0 := True], cf_min = 0\<rparr>)"
    if "0 \<le> n" for n
    using that by (simp add: parseCronField_def part_step_def part_range_def atoi mark_bits.simps [of 0] int_add_small)
  have huge: "mark_bits 1 1 31 9223372036854775807 (replicate 31 False) = Some (Inl CronPanic)"
  proof -
    have "int_add 1 9223372036854775807 < 0" by (rule int_add_wrap) simp_all
    then show ?thesis by (simp add: mark_bits.simps [of 1])
  qed
  have "parseCronField ''*/9223372036854775807'' 1 31 = Some (Inl CronPanic)"
    by (simp add: parseCronField_def part_step_def part_range_def atoi huge)
  then show ?thesis
    by (simp add: ParseSchedule_def fields cron_specs_def zero)
qed

end
