(* ===== verification/Workflow.thy ===== *)
theory Workflow
  imports Cron GoValue
begin

text \<open>
  Workflow definitions (\<open>internal/kernel/workflow/workflow.go\<close>): triggers and steps,
  \<open>Definition.Validate\<close>, and the in-memory executor \<open>Execute\<close>. A parameter map is the
  \<open>map[string]any\<close> that \<open>encoding/json\<close> decodes.
\<close>

section \<open>Definitions\<close>

datatype TriggerType =
  TriggerOnCreate | TriggerOnUpdate | TriggerManual | TriggerScheduled | TriggerOther string

record Trigger =
  tr_type :: TriggerType
  tr_entity_type :: string
  tr_cron :: string

datatype StepKind = StepRequireApproval | StepNotify | StepOther string

record Step =
  st_kind :: StepKind
  st_params :: fields

record WfDefinition =
  wf_name :: string
  wf_version :: int
  wf_trigger :: Trigger
  wf_steps :: "Step list"

datatype wf_error =
    WfNameRequired | WfEntityTypeRequired | WfCronNotAllowed | WfCronRequired | WfEntityTypeNotAllowed
  | WfCron cron_error | WfUnknownTrigger | WfNoSteps | WfUnknownKind nat
  | WfBadRole nat | WfBadDepartment nat | WfDepartmentNoRole nat
  | WfBadEscalateHours nat | WfEscalateNoRole nat
  | WfBadEscalateRole nat | WfBadEscalateDepartment nat | WfEscalateDepartmentNoRole nat

definition maxEscalateAfterHours :: rat where
  "maxEscalateAfterHours = 1000000"

fun validEscalateAfterHours :: "f64 \<Rightarrow> bool" where
  "validEscalateAfterHours (Fin h) = (h > 0 \<and> h < maxEscalateAfterHours)"
| "validEscalateAfterHours _ = False"

definition validationEpoch :: gtime where
  "validationEpoch = Time 2000 1 1 0 0 0"

text \<open>The result of \<open>ParseSchedule\<close>, which always ends (\<open>ParseSchedule_ends\<close>).\<close>

definition parsed_schedule :: "string \<Rightarrow> (cron_error, Schedule) result" where
  "parsed_schedule e = the (ParseSchedule e)"

lemma ParseSchedule_parsed: "ParseSchedule e = Some (parsed_schedule e)"
  using ParseSchedule_ends [of e] by (auto simp: parsed_schedule_def)

section \<open>Definition.Validate\<close>

text \<open>A parameter that, when present, has to be a non-empty string.\<close>

definition bad_string_param :: "fields \<Rightarrow> string \<Rightarrow> bool" where
  "bad_string_param p k =
     (case fmlookup p k of None \<Rightarrow> False | Some (VStr s) \<Rightarrow> s = [] | Some _ \<Rightarrow> True)"

definition has_param :: "fields \<Rightarrow> string \<Rightarrow> bool" where
  "has_param p k \<longleftrightarrow> fmlookup p k \<noteq> None"

definition bad_hours_param :: "fields \<Rightarrow> bool" where
  "bad_hours_param p =
     (case fmlookup p ''escalate_after_hours'' of
        None \<Rightarrow> False
      | Some (VNum h) \<Rightarrow> \<not> validEscalateAfterHours h
      | Some _ \<Rightarrow> True)"

definition check_trigger :: "Trigger \<Rightarrow> wf_error option" where
  "check_trigger t =
     (if tr_type t = TriggerOnCreate \<or> tr_type t = TriggerOnUpdate then
        and_then (check (tr_entity_type t = []) WfEntityTypeRequired)
          (check (tr_cron t \<noteq> []) WfCronNotAllowed)
      else if tr_type t = TriggerManual then check (tr_cron t \<noteq> []) WfCronNotAllowed
      else if tr_type t = TriggerScheduled then
        (if tr_cron t = [] then Some WfCronRequired
         else if tr_entity_type t \<noteq> [] then Some WfEntityTypeNotAllowed
         else case parsed_schedule (tr_cron t) of
           Inl e \<Rightarrow> Some (WfCron e)
         | Inr sched \<Rightarrow>
             (case Next sched validationEpoch of Inl e \<Rightarrow> Some (WfCron e) | Inr _ \<Rightarrow> None))
      else Some WfUnknownTrigger)"

definition check_step :: "nat \<Rightarrow> Step \<Rightarrow> wf_error option" where
  "check_step i s =
     (case st_kind s of
        StepRequireApproval \<Rightarrow>
          (let p = st_params s in
           if bad_string_param p ''role'' then Some (WfBadRole i)
           else if bad_string_param p ''department'' then Some (WfBadDepartment i)
           else if has_param p ''department'' \<and> \<not> has_param p ''role'' then Some (WfDepartmentNoRole i)
           else if bad_hours_param p then Some (WfBadEscalateHours i)
           else if has_param p ''escalate_after_hours'' \<and> \<not> has_param p ''escalate_role''
           then Some (WfEscalateNoRole i)
           else if bad_string_param p ''escalate_role'' then Some (WfBadEscalateRole i)
           else if bad_string_param p ''escalate_department'' then Some (WfBadEscalateDepartment i)
           else if has_param p ''escalate_department'' \<and> \<not> has_param p ''escalate_role''
           then Some (WfEscalateDepartmentNoRole i)
           else None)
      | StepNotify \<Rightarrow> None
      | StepOther _ \<Rightarrow> Some (WfUnknownKind i))"

fun check_steps :: "nat \<Rightarrow> Step list \<Rightarrow> wf_error option" where
  "check_steps i [] = None"
| "check_steps i (s # ss) = and_then (check_step i s) (check_steps (Suc i) ss)"

definition WfDefinition_Validate :: "WfDefinition \<Rightarrow> wf_error option" where
  "WfDefinition_Validate d =
     (if wf_name d = [] then Some WfNameRequired
      else and_then (check_trigger (wf_trigger d))
        (if wf_steps d = [] then Some WfNoSteps else check_steps 0 (wf_steps d)))"

section \<open>Execute\<close>

datatype step_status = StepPending | StepDone

record StepResult =
  sr_kind :: StepKind
  sr_status :: step_status

fun run_steps :: "Step list \<Rightarrow> StepResult list" where
  "run_steps [] = []"
| "run_steps (s # ss) =
     (case st_kind s of
        StepRequireApproval \<Rightarrow> [\<lparr>sr_kind = st_kind s, sr_status = StepPending\<rparr>]
      | StepNotify \<Rightarrow> \<lparr>sr_kind = st_kind s, sr_status = StepDone\<rparr> # run_steps ss
      | StepOther _ \<Rightarrow> run_steps ss)"

definition Execute :: "WfDefinition \<Rightarrow> (wf_error, StepResult list) result" where
  "Execute d =
     (case WfDefinition_Validate d of Some e \<Rightarrow> Inl e | None \<Rightarrow> Inr (run_steps (wf_steps d)))"

section \<open>What validation guarantees\<close>

lemma check_steps_None_iff: "check_steps i ss = None \<longleftrightarrow> (\<forall>k < length ss. check_step (i + k) (ss ! k) = None)"
proof (induction ss arbitrary: i)
  case (Cons s ss)
  have "check_steps i (s # ss) = None \<longleftrightarrow>
      check_step i s = None \<and> (\<forall>k < length ss. check_step (Suc (i + k)) (ss ! k) = None)"
    by (simp add: Cons.IH)
  also have "\<dots> \<longleftrightarrow> (\<forall>k < length (s # ss). check_step (i + k) ((s # ss) ! k) = None)"
    by (auto simp: nth_Cons split: nat.splits)
  finally show ?case .
qed simp

lemma good_string_param:
  "\<not> bad_string_param p k \<Longrightarrow> has_param p k \<Longrightarrow> \<exists>s. fmlookup p k = Some (VStr s) \<and> s \<noteq> []"
  by (auto simp: bad_string_param_def has_param_def split: option.splits gval.splits)

text \<open>
  The escalation threshold \<open>time.Duration(hours * float64(time.Hour))\<close>, in nanoseconds.
\<close>

definition escalation_threshold :: "(f64 \<Rightarrow> i64) \<Rightarrow> f64 \<Rightarrow> i64" where
  "escalation_threshold cv h = to_i64 cv (f_mul h (Fin 3600000000000))"

text \<open>A step the queue may rely on.\<close>

definition step_ok :: "Step \<Rightarrow> bool" where
  "step_ok s \<longleftrightarrow>
     (case st_kind s of
        StepNotify \<Rightarrow> True
      | StepOther _ \<Rightarrow> False
      | StepRequireApproval \<Rightarrow>
          (\<forall>k v. k \<in> {''role'', ''department'', ''escalate_role'', ''escalate_department''} \<longrightarrow>
             fmlookup (st_params s) k = Some v \<longrightarrow> (\<exists>t. v = VStr t \<and> t \<noteq> [])) \<and>
          (has_param (st_params s) ''department'' \<longrightarrow> has_param (st_params s) ''role'') \<and>
          (has_param (st_params s) ''escalate_department'' \<longrightarrow> has_param (st_params s) ''escalate_role'') \<and>
          (\<forall>v. fmlookup (st_params s) ''escalate_after_hours'' = Some v \<longrightarrow>
             (\<exists>h. v = VNum (Fin h) \<and> 0 < h \<and> h < 1000000) \<and> has_param (st_params s) ''escalate_role''))"

lemma bad_string_param_None: "\<not> bad_string_param p k \<Longrightarrow> fmlookup p k = Some v \<Longrightarrow> \<exists>t. v = VStr t \<and> t \<noteq> []"
  by (auto simp: bad_string_param_def split: gval.splits)

lemma bad_hours_param_None:
  "\<not> bad_hours_param p \<Longrightarrow> fmlookup p ''escalate_after_hours'' = Some v \<Longrightarrow>
    \<exists>h. v = VNum (Fin h) \<and> 0 < h \<and> h < 1000000"
  by (auto simp: bad_hours_param_def maxEscalateAfterHours_def split: gval.splits elim: validEscalateAfterHours.elims)

lemma check_step_ok: "check_step i s = None \<Longrightarrow> step_ok s"
  unfolding check_step_def step_ok_def
  by (auto simp: Let_def has_param_def split: StepKind.splits if_splits
      dest: bad_string_param_None bad_hours_param_None)

text \<open>A scheduled workflow that validates fires again after any instant.\<close>

lemma validated_schedule_occurs:
  assumes "check_trigger t = None" "tr_type t = TriggerScheduled"
  shows "\<exists>s. ParseSchedule (tr_cron t) = Some (Inr s) \<and> (\<forall>a. valid_time a \<longrightarrow> (\<exists>n. Next s a = Inr n))"
proof -
  obtain s n where s: "parsed_schedule (tr_cron t) = Inr s" "Next s validationEpoch = Inr n"
    using assms by (auto simp: check_trigger_def split: if_splits sum.splits)
  let ?e = "next_minute validationEpoch"
  have e: "valid_time validationEpoch"
    by (simp add: validationEpoch_def valid_time_def days_in_def is_leap_def)
  have "first_from s (add_years 10 ?e) ?e (next_from s (add_years 10 ?e) ?e)"
    by (rule next_from_first [OF next_minute_valid [OF e]])
  with s(2) have n: "whole_minute n" "occurs_at s n"
    by (auto simp: Next_def Let_def maxScheduleGapYears_def first_from_def split: option.splits)
  have "\<exists>m. Next s a = Inr m" if "valid_time a" for a
    by (rule Next_possible [OF that whole_minute_valid [OF n(1)] n(2)])
  then show ?thesis using s(1) ParseSchedule_parsed by auto
qed

section \<open>Properties\<close>

text \<open>
  What publishing a workflow guarantees: a definition \<open>Validate\<close> accepts has a name and at
  least one step, every step is a notification or an approval whose routing and escalation
  parameters have the types and the roles they need and whose escalation delay is finite, positive and
  below a million hours, and a scheduled definition has an expression that parses and whose next
  occurrence exists from every instant, so a published schedule never falls silent.
\<close>
theorem validated_workflow_can_run:
  assumes "WfDefinition_Validate d = None"
  shows "wf_name d \<noteq> [] \<and> wf_steps d \<noteq> [] \<and> list_all step_ok (wf_steps d) \<and>
    (tr_type (wf_trigger d) = TriggerScheduled \<longrightarrow>
      (\<exists>s. ParseSchedule (tr_cron (wf_trigger d)) = Some (Inr s) \<and>
        (\<forall>a. valid_time a \<longrightarrow> (\<exists>n. Next s a = Inr n))))"
proof -
  have v: "wf_name d \<noteq> []" "check_trigger (wf_trigger d) = None" "wf_steps d \<noteq> []"
    "check_steps 0 (wf_steps d) = None"
    using assms by (auto simp: WfDefinition_Validate_def split: if_splits)
  have "list_all step_ok (wf_steps d)"
    using v(4) check_step_ok by (auto simp: check_steps_None_iff list_all_length)
  with v validated_schedule_occurs [OF v(2)] show ?thesis by blast
qed

definition nightly :: WfDefinition where
  "nightly =
     \<lparr>wf_name = ''nightly'', wf_version = 1,
      wf_trigger = \<lparr>tr_type = TriggerScheduled, tr_entity_type = [], tr_cron = ''0 3 * * *''\<rparr>,
      wf_steps = [\<lparr>st_kind = StepNotify, st_params = fmempty\<rparr>]\<rparr>"

lemma nightly_schedule:
  "ParseSchedule ''0 3 * * *'' = Some (Inr
     \<lparr>s_minute = \<lparr>cf_bits = (replicate 60 False)[0 := True], cf_min = 0\<rparr>,
      s_hour = \<lparr>cf_bits = (replicate 24 False)[3 := True], cf_min = 0\<rparr>,
      s_dom = \<lparr>cf_bits = replicate 31 True, cf_min = 1\<rparr>,
      s_month = \<lparr>cf_bits = replicate 12 True, cf_min = 1\<rparr>,
      s_dow = \<lparr>cf_bits = replicate 7 True, cf_min = 0\<rparr>,
      s_dom_restricted = False, s_dow_restricted = False, s_expr = ''0 3 * * *''\<rparr>)"
proof -
  have fields: "Fields ''0 3 * * *'' = [''0'', ''3'', ''*'', ''*'', ''*'']"
    unfolding Fields_def
    by (simp add: fields_from.simps space_prefix_def space_seqs_def byte_def)
  have atoi: "atoiStrict ''0'' = Some 0" "atoiStrict ''3'' = Some 3"
    by (simp_all add: atoiStrict_def ParseInt10_def isDigits_run_def is_digit_def byte_def
        digits_val_def digit_val_def)
  have minute: "parseCronField ''0'' 0 59 = Some (Inr \<lparr>cf_bits = (replicate 60 False)[0 := True], cf_min = 0\<rparr>)"
    by (simp add: parseCronField_def part_step_def part_range_def atoi mark_bits.simps [of 0] int_add_small)
  have hour: "parseCronField ''3'' 0 23 = Some (Inr \<lparr>cf_bits = (replicate 24 False)[3 := True], cf_min = 0\<rparr>)"
    by (simp add: parseCronField_def part_step_def part_range_def atoi mark_bits.simps [of 0] int_add_small)
  have star: "parseCronField ''*'' 1 31 = Some (Inr \<lparr>cf_bits = replicate 31 True, cf_min = 1\<rparr>)"
    "parseCronField ''*'' 1 12 = Some (Inr \<lparr>cf_bits = replicate 12 True, cf_min = 1\<rparr>)"
    "parseCronField ''*'' 0 6 = Some (Inr \<lparr>cf_bits = replicate 7 True, cf_min = 0\<rparr>)"
    by (simp_all add: parseCronField_def part_step_def part_range_def mark_bits.simps int_add_small numeral_nat)
  show ?thesis
    by (simp add: ParseSchedule_def fields cron_specs_def minute hour star)
qed

lemma nightly_valid: "WfDefinition_Validate nightly = None"
  by (simp add: WfDefinition_Validate_def nightly_def check_trigger_def parsed_schedule_def nightly_schedule
      Next_def validationEpoch_def next_from.simps step_defs add_years_def matchesDay_def matches_def check_step_def
      days_in_def is_leap_def less_gtime_def keys maxScheduleGapYears_def numeral_nat)

theorem validated_workflow_can_run_witness:
  "wf_name nightly \<noteq> [] \<and> (\<exists>s. ParseSchedule ''0 3 * * *'' = Some (Inr s) \<and> (\<exists>n. Next s validationEpoch = Inr n))"
proof -
  have "valid_time validationEpoch"
    by (simp add: validationEpoch_def valid_time_def days_in_def is_leap_def)
  then show ?thesis
    using validated_workflow_can_run [OF nightly_valid] by (auto simp: nightly_def)
qed

end
