(* ===== verification/Store.thy ===== *)
theory Store
  imports Entity Ids AuditTrail Workflow
begin

text \<open>
  A tenant's database as \<open>internal/db/migrations/tenant\<close> declares it, and the way the Go
  code runs statements against it: one statement at a time, each of which may fail, and
  transactions that take effect as a whole or not at all.
\<close>

section \<open>Errors\<close>

text \<open>
  The sentinel errors of the repositories and engines. \<open>ErrDB\<close> is every other failure of
  the driver: a lost connection, a value Postgres refuses, a violated check.
\<close>

text \<open>
  \<open>TargetConstraintError.Detail\<close>: the text that names the target, the field and the value, or the
  general one a caller gets who may not read them.
\<close>

datatype Detail = Verbatim | Withheld

datatype err =
  ErrDB
| ErrMarshal
| ErrNotFound
| ErrVersionConflict
| ErrUniqueKeyConflict
| ErrNoFieldPairs
| ErrValidation ValidationError
| ErrUniqueConstraintViolation string string
| ErrTargetConstraintViolation string string string Detail
| ErrReferenceCycle string string
| ErrHookRejected string
| ErrAudit audit_error
| ErrInvalidTransition
| ErrStatusRequired
| ErrDenied string
| ErrSoRReadOnly string string string
| ErrSoRModeReserved
| ErrGLAccountCodeConflict
| ErrNoLines
| ErrNoJournalLines
| ErrEmptyAcctID
| ErrBadLine
| ErrUnbalanced
| ErrInactiveAccount string
| ErrInvalidDate
| ErrPeriodClosed
| ErrNoJobAvailable
| ErrNoScheduleDue
| ErrWorkflow wf_error
| ErrCron cron_error
| ErrHandlerNotAllowed
| ErrDefinitionStatus
| ErrPlain
| ErrVendorInvoiceMatchFailed

section \<open>Tables\<close>

record rrow =
  rr_id :: string
  rr_type :: string
  rr_data :: fields
  rr_version :: int
  rr_created :: nat
  rr_deleted :: bool

record krow =
  uk_type :: string
  uk_name :: string
  uk_value :: string
  uk_record :: string

record arow =
  al_type :: string
  al_record :: "string option"
  al_action :: Action
  al_actor_type :: ActorType
  al_actor_id :: string
  al_model_version :: "string option"
  al_input_hash :: "string option"
  al_diff :: "fields option"

record garow =
  ga_id :: string
  ga_code :: string
  ga_name :: string
  ga_type :: string
  ga_currency :: string
  ga_active :: bool
  ga_source :: "string option"

record jerow =
  je_id :: string
  je_date :: date
  je_description :: string
  je_source_type :: "string option"
  je_source_id :: "string option"
  je_posted :: nat

record jlrow =
  jl_entry :: string
  jl_account :: string
  jl_debit :: int
  jl_credit :: int

datatype JobStatus = JQueued | JRunning | JWaitingApproval | JDone | JDeadLetter

text \<open>Why a step failed; the text kept in \<open>last_error\<close> names it.\<close>

datatype step_error =
    LookupFailed | InvalidWorkflow wf_error | NoHandler nat | StepFailed nat string | LeaseExpired

record jobrow =
  jb_id :: string
  jb_workflow :: string
  jb_version :: int
  jb_entity_type :: "string option"
  jb_record :: "string option"
  jb_step :: int
  jb_status :: JobStatus
  jb_attempts :: int
  jb_max :: int
  jb_last_error :: "step_error option"
  jb_run_after :: nat
  jb_escalated :: bool
  jb_actor_type :: ActorType
  jb_actor_id :: string
  jb_model_version :: "string option"
  jb_input_hash :: "string option"
  jb_created :: nat
  jb_updated :: nat

record schedrow =
  sc_name :: string
  sc_version :: int
  sc_cron :: string
  sc_next_due :: gtime
  sc_last_fired :: "gtime option"

text \<open>
  The three registries of definitions (\<open>entity_definitions\<close>, \<open>form_definitions\<close>,
  \<open>workflow_definitions\<close>) have the same columns; a row carries the registry it is of.
\<close>

datatype Registry = EntityDefinitions | FormDefinitions | WorkflowDefinitions

datatype DefinitionStatus = StatusDraft | StatusApproved | StatusPublished | StatusRolledBack

record defrow =
  df_id :: string
  df_registry :: Registry
  df_key :: string
  df_version :: int
  df_status :: DefinitionStatus
  df_definition :: gval
  df_author_type :: ActorType
  df_author :: string
  df_approved_by :: "string option"

record db =
  db_records :: "rrow list"
  db_keys :: "krow list"
  db_audit :: "arow list"
  db_accounts :: "garow list"
  db_entries :: "jerow list"
  db_lines :: "jlrow list"
  db_jobs :: "jobrow list"
  db_schedules :: "schedrow list"
  db_defs :: "defrow list"

definition empty_db :: db where
  "empty_db =
     \<lparr>db_records = [], db_keys = [], db_audit = [], db_accounts = [], db_entries = [],
      db_lines = [], db_jobs = [], db_schedules = [], db_defs = []\<rparr>"

section \<open>Running statements\<close>

text \<open>
  The world a call runs in: the database, the outcome of the statements to come (\<open>True\<close>
  for one that fails; none fails after the script ends), the ids \<open>gen_random_uuid\<close> will
  give and how many it gave, and the time \<open>now()\<close>.
\<close>

record world =
  w_db :: db
  w_faults :: "bool list"
  w_newid :: "nat \<Rightarrow> string"
  w_ids :: nat
  w_now :: nat

type_synonym 'a dbm = "world \<Rightarrow> (err + 'a) \<times> world"

definition ret :: "'a \<Rightarrow> 'a dbm" where
  "ret x w = (Inr x, w)"

definition fail :: "err \<Rightarrow> 'a dbm" where
  "fail e w = (Inl e, w)"

definition bindM :: "'a dbm \<Rightarrow> ('a \<Rightarrow> 'b dbm) \<Rightarrow> 'b dbm" where
  "bindM m f w = (case m w of (Inl e, w') \<Rightarrow> (Inl e, w') | (Inr x, w') \<Rightarrow> f x w')"

definition thenM :: "'a dbm \<Rightarrow> 'b dbm \<Rightarrow> 'b dbm" where
  "thenM m n = bindM m (\<lambda>_. n)"

text \<open>An early return: go on only when a check gave nil.\<close>

definition guardM :: "err option \<Rightarrow> unit dbm" where
  "guardM c = (case c of Some e \<Rightarrow> fail e | None \<Rightarrow> ret ())"

text \<open>\<open>errors.Is(err, e)\<close>: recover from one error.\<close>

definition catchM :: "'a dbm \<Rightarrow> (err \<Rightarrow> 'a dbm) \<Rightarrow> 'a dbm" where
  "catchM m h w = (case m w of (Inl e, w') \<Rightarrow> h e w' | (Inr x, w') \<Rightarrow> (Inr x, w'))"

text \<open>A lookup whose \<open>ErrNotFound\<close> the caller reads as an absent row.\<close>

definition optionalM :: "'a dbm \<Rightarrow> 'a option dbm" where
  "optionalM m =
     catchM (bindM m (\<lambda>x. ret (Some x))) (\<lambda>e. if e = ErrNotFound then ret None else fail e)"

fun forEach :: "'a list \<Rightarrow> ('a \<Rightarrow> unit dbm) \<Rightarrow> unit dbm" where
  "forEach [] f = ret ()"
| "forEach (x # xs) f = thenM (f x) (forEach xs f)"

text \<open>Whether the next statement fails, and the world once it has been sent.\<close>

definition faulty :: "world \<Rightarrow> bool" where
  "faulty w \<longleftrightarrow> (case w_faults w of [] \<Rightarrow> False | b # _ \<Rightarrow> b)"

definition sent :: "world \<Rightarrow> world" where
  "sent w = w\<lparr>w_faults := tl (w_faults w)\<rparr>"

text \<open>A statement: it fails outright, or is refused, or gives a result and the next database.\<close>

definition stmt :: "(db \<Rightarrow> (err, 'a \<times> db) result) \<Rightarrow> 'a dbm" where
  "stmt f w =
     (if faulty w then (Inl ErrDB, sent w)
      else case f (w_db w) of
        Inl e \<Rightarrow> (Inl e, sent w)
      | Inr (x, d) \<Rightarrow> (Inr x, (sent w)\<lparr>w_db := d\<rparr>))"

text \<open>A statement that only reads.\<close>

definition query :: "(db \<Rightarrow> (err, 'a) result) \<Rightarrow> 'a dbm" where
  "query f = stmt (\<lambda>d. rbind (f d) (\<lambda>x. Inr (x, d)))"

text \<open>The id of the row an insert makes.\<close>

definition fresh_id :: "string dbm" where
  "fresh_id w = (Inr (w_newid w (w_ids w)), w\<lparr>w_ids := w_ids w + 1\<rparr>)"

definition now :: "nat dbm" where
  "now w = (Inr (w_now w), w)"

text \<open>
  \<open>BeginTx\<close>, the body, \<open>Commit\<close>, with the deferred \<open>Rollback\<close>: a body that returns an
  error, and a commit that fails, leave the database as it was. No body below goes on after
  a statement Postgres refused, so the aborted state of a transaction needs no flag.
\<close>

definition in_tx :: "'a dbm \<Rightarrow> 'a dbm" where
  "in_tx body w =
     (case query (\<lambda>_. Inr ()) w of
        (Inl e, w1) \<Rightarrow> (Inl e, w1)
      | (Inr _, w1) \<Rightarrow>
          (case body w1 of
             (Inl e, w2) \<Rightarrow> (Inl e, w2\<lparr>w_db := w_db w\<rparr>)
           | (Inr x, w2) \<Rightarrow>
               (case query (\<lambda>_. Inr ()) w2 of
                  (Inl e, w3) \<Rightarrow> (Inl e, w3\<lparr>w_db := w_db w\<rparr>)
                | (Inr _, w3) \<Rightarrow> (Inr x, w3))))"

section \<open>What a call can do\<close>

lemma ret_iff [simp]: "ret x w = (r, w') \<longleftrightarrow> r = Inr x \<and> w' = w"
  by (auto simp: ret_def)

lemma fail_iff [simp]: "fail e w = (r, w') \<longleftrightarrow> r = Inl e \<and> w' = w"
  by (auto simp: fail_def)

lemma bindM_Inr_iff:
  "bindM m f w = (Inr y, w') \<longleftrightarrow> (\<exists>x w1. m w = (Inr x, w1) \<and> f x w1 = (Inr y, w'))"
  by (auto simp: bindM_def split: prod.splits sum.splits)

lemma thenM_Inr_iff:
  "thenM m n w = (Inr y, w') \<longleftrightarrow> (\<exists>x w1. m w = (Inr x, w1) \<and> n w1 = (Inr y, w'))"
  by (simp add: thenM_def bindM_Inr_iff)

lemma bindM_ret_iff [simp]: "bindM (ret x) f = f x"
  by (simp add: bindM_def ret_def fun_eq_iff)

lemma bindM_fail_iff [simp]: "bindM (fail e) f = fail e"
  by (simp add: bindM_def fail_def fun_eq_iff)

lemma guardM_Inr_iff [simp]: "guardM c w = (Inr u, w') \<longleftrightarrow> c = None \<and> w' = w"
  by (auto simp: guardM_def split: option.splits)

lemma stmt_Inr_iff:
  "stmt f w = (Inr x, w') \<longleftrightarrow>
     \<not> faulty w \<and> (\<exists>d. f (w_db w) = Inr (x, d) \<and> w' = (sent w)\<lparr>w_db := d\<rparr>)"
  by (auto simp: stmt_def split: sum.splits)

lemma query_Inr_iff:
  "query f w = (Inr x, w') \<longleftrightarrow> \<not> faulty w \<and> f (w_db w) = Inr x \<and> w' = sent w"
  by (auto simp: query_def stmt_Inr_iff rbind_Inr_iff sent_def)

lemma query_db: "query f w = (r, w') \<Longrightarrow> w_db w' = w_db w"
  and query_newid: "query f w = (r, w') \<Longrightarrow> w_newid w' = w_newid w"
  by (auto simp: query_def stmt_def sent_def rbind_def split: if_splits sum.splits)

lemma sent_sel [simp]:
  "w_db (sent w) = w_db w" "w_newid (sent w) = w_newid w" "w_ids (sent w) = w_ids w"
  "w_now (sent w) = w_now w"
  by (simp_all add: sent_def)

lemma fresh_id_Inr_iff:
  "fresh_id w = (r, w') \<longleftrightarrow> r = Inr (w_newid w (w_ids w)) \<and> w' = w\<lparr>w_ids := w_ids w + 1\<rparr>"
  by (auto simp: fresh_id_def)

lemma now_iff [simp]: "now w = (r, w') \<longleftrightarrow> r = Inr (w_now w) \<and> w' = w"
  by (auto simp: now_def)

lemmas run_iffs = bindM_Inr_iff thenM_Inr_iff stmt_Inr_iff query_Inr_iff fresh_id_Inr_iff

text \<open>A transaction that fails leaves the database as it was, whatever its body does.\<close>

lemma in_tx_error [go_frame]: "in_tx body w = (Inl e, w') \<Longrightarrow> w_db w' = w_db w"
  by (auto simp: in_tx_def dest: query_db split: prod.splits sum.splits)

lemma in_tx_success:
  assumes "in_tx body w = (Inr x, w')"
  obtains w1 w2 where "w_db w1 = w_db w" "w_newid w1 = w_newid w" "w_ids w1 = w_ids w"
    "w_now w1 = w_now w" "body w1 = (Inr x, w2)" "w_db w' = w_db w2"
proof -
  have q: "query (\<lambda>_. Inr ()) w = (if faulty w then (Inl ErrDB, sent w) else (Inr (), sent w))" for w
    by (simp add: query_def stmt_def sent_def)
  obtain w2 where "body (sent w) = (Inr x, w2)" "w' = sent w2"
    using assms by (auto simp: in_tx_def q split: prod.splits sum.splits if_splits)
  then show thesis using that [of "sent w" w2] by simp
qed

lemma in_tx_no_faults:
  assumes "w_faults w = []" and "body w = (Inr x, w')" and "w_faults w' = []"
  shows "in_tx body w = (Inr x, w')"
proof -
  have "sent w = w" "sent w' = w'" using assms(1,3) by (simp_all add: sent_def)
  then show ?thesis
    using assms by (simp add: in_tx_def query_def stmt_def faulty_def)
qed

section \<open>Invariants of the database\<close>

text \<open>
  \<open>keeps I m\<close>: whenever \<open>m\<close> succeeds in a world whose database satisfies \<open>I\<close>, the database
  satisfies \<open>I\<close> afterwards. \<open>reads m\<close>: \<open>m\<close> never changes the database (nor the ids to come).
\<close>

definition keeps :: "(db \<Rightarrow> bool) \<Rightarrow> 'a dbm \<Rightarrow> bool" where
  "keeps I m \<longleftrightarrow> (\<forall>w x w'. I (w_db w) \<longrightarrow> m w = (Inr x, w') \<longrightarrow> I (w_db w'))"

definition reads :: "'a dbm \<Rightarrow> bool" where
  "reads m \<longleftrightarrow> (\<forall>w r w'. m w = (r, w') \<longrightarrow> w_db w' = w_db w \<and> w_newid w' = w_newid w)"

named_theorems keeps_intro "rules for invariants and read-only calls"

lemma keepsI: "(\<And>w x w'. I (w_db w) \<Longrightarrow> m w = (Inr x, w') \<Longrightarrow> I (w_db w')) \<Longrightarrow> keeps I m"
  by (simp add: keeps_def)

lemma keepsD: "keeps I m \<Longrightarrow> m w = (Inr x, w') \<Longrightarrow> I (w_db w) \<Longrightarrow> I (w_db w')"
  by (auto simp: keeps_def)

lemma readsD: "reads m \<Longrightarrow> m w = (r, w') \<Longrightarrow> w_db w' = w_db w"
  and reads_newid: "reads m \<Longrightarrow> m w = (r, w') \<Longrightarrow> w_newid w' = w_newid w"
  by (auto simp: reads_def)

lemma reads_keeps: "reads m \<Longrightarrow> keeps I m"
  by (auto simp: reads_def keeps_def)

lemma keeps_ret [keeps_intro]: "keeps I (ret x)"
  and keeps_fail [keeps_intro]: "keeps I (fail e)"
  and keeps_guard [keeps_intro]: "keeps I (guardM c)"
  by (auto simp: keeps_def)

lemma keeps_bind [keeps_intro]: "keeps I m \<Longrightarrow> (\<And>x. keeps I (f x)) \<Longrightarrow> keeps I (bindM m f)"
  unfolding keeps_def bindM_Inr_iff by blast

lemma keeps_then [keeps_intro]: "keeps I m \<Longrightarrow> keeps I n \<Longrightarrow> keeps I (thenM m n)"
  by (simp add: thenM_def keeps_bind)

lemma keeps_if [keeps_intro]: "keeps I m \<Longrightarrow> keeps I n \<Longrightarrow> keeps I (if b then m else n)"
  by simp

lemma keeps_forM [keeps_intro]: "(\<And>x. x \<in> set xs \<Longrightarrow> keeps I (f x)) \<Longrightarrow> keeps I (forEach xs f)"
  by (induction xs) (auto intro: keeps_intro)

lemma keeps_stmt: "(\<And>d x d'. I d \<Longrightarrow> f d = Inr (x, d') \<Longrightarrow> I d') \<Longrightarrow> keeps I (stmt f)"
  by (auto simp: keeps_def stmt_Inr_iff)

lemma keeps_query [keeps_intro]: "keeps I (query f)"
  by (auto simp: keeps_def query_Inr_iff)

lemma keeps_fresh [keeps_intro]: "keeps I fresh_id" and keeps_now [keeps_intro]: "keeps I now"
  by (auto simp: keeps_def fresh_id_def)

lemma keeps_in_tx [keeps_intro]: "keeps I body \<Longrightarrow> keeps I (in_tx body)"
  by (rule keepsI) (erule in_tx_success, drule (1) keepsD, simp_all)

text \<open>Outside a transaction a recovered call has to keep the invariant when it fails, too.\<close>

lemma keeps_case_option [keeps_intro]:
  "(x = None \<Longrightarrow> keeps I m) \<Longrightarrow> (\<And>y. x = Some y \<Longrightarrow> keeps I (n y)) \<Longrightarrow>
     keeps I (case x of None \<Rightarrow> m | Some y \<Rightarrow> n y)"
  by (cases x) auto

lemma keeps_case_sum [keeps_intro]:
  "(\<And>e. x = Inl e \<Longrightarrow> keeps I (m e)) \<Longrightarrow> (\<And>y. x = Inr y \<Longrightarrow> keeps I (n y)) \<Longrightarrow>
     keeps I (case x of Inl e \<Rightarrow> m e | Inr y \<Rightarrow> n y)"
  by (cases x) auto

lemma keeps_conj: "keeps I m \<Longrightarrow> keeps J m \<Longrightarrow> keeps (\<lambda>d. I d \<and> J d) m"
  by (auto simp: keeps_def)

named_theorems reads_intro "rules for read-only calls"

lemma reads_ret [reads_intro]: "reads (ret x)"
  and reads_fail [reads_intro]: "reads (fail e)"
  and reads_now [reads_intro]: "reads now"
  by (auto simp: reads_def)

lemma reads_guard [reads_intro]: "reads (guardM c)"
  by (auto simp: reads_def guardM_def split: option.splits)

lemma reads_fresh [reads_intro]: "reads fresh_id"
  by (auto simp: reads_def fresh_id_def)

lemma reads_query [reads_intro]: "reads (query f)"
  by (auto simp: reads_def dest: query_db query_newid)

lemma reads_bind [reads_intro]: "reads m \<Longrightarrow> (\<And>x. reads (f x)) \<Longrightarrow> reads (bindM m f)"
  by (fastforce simp: reads_def bindM_def split: prod.splits sum.splits)

lemma reads_then [reads_intro]: "reads m \<Longrightarrow> reads n \<Longrightarrow> reads (thenM m n)"
  by (simp add: thenM_def reads_bind)

lemma reads_catch [reads_intro]: "reads m \<Longrightarrow> (\<And>e. reads (h e)) \<Longrightarrow> reads (catchM m h)"
  by (fastforce simp: reads_def catchM_def split: prod.splits sum.splits)

lemma optionalM_Inr_iff:
  "optionalM m w = (Inr r, w') \<longleftrightarrow>
     (case r of Some x \<Rightarrow> m w = (Inr x, w') | None \<Rightarrow> m w = (Inl ErrNotFound, w'))"
  by (auto simp: optionalM_def catchM_def bindM_def ret_def fail_def
      split: prod.splits sum.splits option.splits)

lemma reads_optional [reads_intro]: "reads m \<Longrightarrow> reads (optionalM m)"
  unfolding optionalM_def by (intro reads_intro) (auto intro: reads_intro)

lemma reads_if [reads_intro]: "reads m \<Longrightarrow> reads n \<Longrightarrow> reads (if b then m else n)"
  by simp

lemma reads_forM [reads_intro]: "(\<And>x. x \<in> set xs \<Longrightarrow> reads (f x)) \<Longrightarrow> reads (forEach xs f)"
  by (induction xs) (auto intro: reads_intro)

lemma reads_case_option [reads_intro]:
  "(x = None \<Longrightarrow> reads m) \<Longrightarrow> (\<And>y. x = Some y \<Longrightarrow> reads (n y)) \<Longrightarrow>
     reads (case x of None \<Rightarrow> m | Some y \<Rightarrow> n y)"
  by (cases x) auto

lemma reads_case_sum [reads_intro]:
  "(\<And>e. x = Inl e \<Longrightarrow> reads (m e)) \<Longrightarrow> (\<And>y. x = Inr y \<Longrightarrow> reads (n y)) \<Longrightarrow>
     reads (case x of Inl e \<Rightarrow> m e | Inr y \<Rightarrow> n y)"
  by (cases x) auto

end
