(* ===== verification/Records.thy ===== *)
theory Records
  imports Store "HOL-Library.AList"
begin

text \<open>
  The repositories of \<open>internal/data\<close> over the generic tables: \<open>records.go\<close>,
  \<open>record_unique_keys.go\<close> and \<open>audit.go\<close>. Each SQL statement is one \<^const>\<open>stmt\<close>; its
  WHERE clause is a predicate on rows, its \<open>ORDER BY\<close> a stable sort, and a text given for a
  uuid column is read by \<^const>\<open>e_uuid\<close>.
\<close>

section \<open>The records table\<close>

record Record =
  rec_id :: string
  rec_type :: string
  rec_data :: fields
  rec_version :: int

definition live :: "string \<Rightarrow> rrow \<Rightarrow> bool" where
  "live et r \<longleftrightarrow> rr_type r = et \<and> \<not> rr_deleted r"

definition to_record :: "rrow \<Rightarrow> Record" where
  "to_record r = \<lparr>rec_id = rr_id r, rec_type = rr_type r, rec_data = rr_data r, rec_version = rr_version r\<rparr>"

text \<open>\<open>data->>f = v\<close>\<close>

definition field_is :: "env \<Rightarrow> rrow \<Rightarrow> string \<times> string \<Rightarrow> bool" where
  "field_is E r = (\<lambda>(f, v). arrow_text E (rr_data r) f = Some v)"

text \<open>\<open>ORDER BY created_at, id\<close>\<close>

definition by_age :: "rrow list \<Rightarrow> rrow list" where
  "by_age rs = sort_key rr_created (sort_key rr_id rs)"

text \<open>\<open>UPDATE ... SET ... WHERE\<close>: change the rows a predicate selects.\<close>

definition upd_where :: "('r \<Rightarrow> bool) \<Rightarrow> ('r \<Rightarrow> 'r) \<Rightarrow> 'r list \<Rightarrow> 'r list" where
  "upd_where P g rs = map (\<lambda>r. if P r then g r else r) rs"

lemma upd_where_simps:
  "upd_where P g [] = []"
  "upd_where P g (r # rs) = (if P r then g r else r) # upd_where P g rs"
  by (simp_all add: upd_where_def)

lemma map_upd_where: "(\<And>x. f (g x) = f x) \<Longrightarrow> map f (upd_where P g rs) = map f rs"
  by (simp add: upd_where_def)

lemma image_upd_where: "(\<And>x. f (g x) = f x) \<Longrightarrow> f ` set (upd_where P g rs) = f ` set rs"
  using map_upd_where [of f g P rs] by (metis set_map)

lemma in_upd_where:
  "x \<in> set (upd_where P g rs) \<longleftrightarrow> (\<exists>r \<in> set rs. x = (if P r then g r else r))"
  by (auto simp: upd_where_def)

text \<open>A parameter of a uuid column.\<close>

definition uuid_arg :: "env \<Rightarrow> string \<Rightarrow> (string \<Rightarrow> (err, 'a) result) \<Rightarrow> (err, 'a) result" where
  "uuid_arg E s f = (case e_uuid E s of None \<Rightarrow> Inl ErrDB | Some u \<Rightarrow> f u)"

text \<open>The range of a Postgres \<open>INTEGER\<close>.\<close>

definition max_int4 :: int where
  "max_int4 = 2147483647"

definition int4_arg :: "int option \<Rightarrow> bool" where
  "int4_arg v \<longleftrightarrow> (case v of None \<Rightarrow> True | Some n \<Rightarrow> - max_int4 - 1 \<le> n \<and> n \<le> max_int4)"

definition CreateTx :: "string \<Rightarrow> fields \<Rightarrow> Record dbm" where
  "CreateTx et data =
     (if \<not> json_ok_fields data then fail ErrMarshal
      else bindM fresh_id (\<lambda>u. bindM now (\<lambda>t.
        stmt (\<lambda>d.
          if u \<in> rr_id ` set (db_records d) then Inl ErrDB
          else Inr (\<lparr>rec_id = u, rec_type = et, rec_data = data, rec_version = 1\<rparr>,
            d\<lparr>db_records := db_records d @
              [\<lparr>rr_id = u, rr_type = et, rr_data = json_norm_fields data, rr_version = 1,
                rr_created = t, rr_deleted = False\<rparr>]\<rparr>)))))"

definition get_where :: "env \<Rightarrow> (rrow \<Rightarrow> bool) \<Rightarrow> string \<Rightarrow> string \<Rightarrow> Record dbm" where
  "get_where E P et rid =
     query (\<lambda>d. uuid_arg E rid (\<lambda>u.
       case List.find (\<lambda>r. rr_id r = u \<and> P r) (db_records d) of
         None \<Rightarrow> Inl ErrNotFound
       | Some r \<Rightarrow> Inr \<lparr>rec_id = rid, rec_type = et, rec_data = rr_data r, rec_version = rr_version r\<rparr>))"

definition GetTx :: "env \<Rightarrow> string \<Rightarrow> string \<Rightarrow> Record dbm" where
  "GetTx E et rid = get_where E (live et) et rid"

definition GetTxIncludingDeleted :: "env \<Rightarrow> string \<Rightarrow> string \<Rightarrow> Record dbm" where
  "GetTxIncludingDeleted E et rid = get_where E (\<lambda>r. rr_type r = et) et rid"

definition ListTx :: "string \<Rightarrow> Record list dbm" where
  "ListTx et = query (\<lambda>d. Inr (map to_record (sort_key rr_created (filter (live et) (db_records d)))))"

definition CountByEntityType :: "string \<Rightarrow> int dbm" where
  "CountByEntityType et = query (\<lambda>d. Inr (int (length (filter (live et) (db_records d)))))"

definition ListPage :: "string \<Rightarrow> int \<Rightarrow> int \<Rightarrow> Record list dbm" where
  "ListPage et limit offset =
     query (\<lambda>d. if limit < 0 \<or> offset < 0 then Inl ErrDB
       else Inr (map to_record
         (take (nat limit) (drop (nat offset) (by_age (filter (live et) (db_records d)))))))"

definition ListByField :: "env \<Rightarrow> string \<Rightarrow> string \<Rightarrow> string \<Rightarrow> Record list dbm" where
  "ListByField E et f v =
     query (\<lambda>d. Inr (map to_record
       (by_age (filter (\<lambda>r. live et r \<and> field_is E r (f, v)) (db_records d)))))"

text \<open>A Go \<open>map[string]string\<close>; the order of its pairs is that of the iteration.\<close>

type_synonym equals = "(string \<times> string) list"

definition ExistsByFieldsQ :: "env \<Rightarrow> string \<Rightarrow> equals \<Rightarrow> bool dbm" where
  "ExistsByFieldsQ E et equals =
     (if equals = [] then fail ErrNoFieldPairs
      else query (\<lambda>d. Inr (list_ex (\<lambda>r. live et r \<and> list_all (field_is E r) equals) (db_records d))))"

definition GetByFieldsQ :: "env \<Rightarrow> string \<Rightarrow> equals \<Rightarrow> Record option dbm" where
  "GetByFieldsQ E et equals =
     (if equals = [] then fail ErrNoFieldPairs
      else query (\<lambda>d. Inr (
        case by_age (filter (\<lambda>r. live et r \<and> list_all (field_is E r) equals) (db_records d)) of
          [] \<Rightarrow> None
        | r # _ \<Rightarrow> Some (to_record r))))"

text \<open>
  The \<open>SELECT DISTINCT\<close> of the match's result field, then the filter of the Go loop. The
  order of the rows of a \<open>DISTINCT\<close> is unspecified; here it is the table's.
\<close>

definition DistinctFieldValues :: "env \<Rightarrow> string \<Rightarrow> string \<Rightarrow> string \<Rightarrow> string \<Rightarrow> string list dbm" where
  "DistinctFieldValues E et match_f match_v result_f =
     query (\<lambda>d. Inr (filter (\<lambda>s. s \<noteq> []) (List.map_filter id (remdups
       (map (\<lambda>r. arrow_text E (rr_data r) result_f)
         (filter (\<lambda>r. live et r \<and> field_is E r (match_f, match_v)) (db_records d)))))))"

text \<open>Which row the \<open>UPDATE\<close> of \<open>UpdateTx\<close> changes, and what it changes.\<close>

definition update_hits :: "string \<Rightarrow> string \<Rightarrow> int option \<Rightarrow> rrow \<Rightarrow> bool" where
  "update_hits et u ev r \<longleftrightarrow>
     rr_id r = u \<and> live et r \<and> (case ev of None \<Rightarrow> True | Some v \<Rightarrow> rr_version r = v)"

definition update_row :: "fields \<Rightarrow> rrow \<Rightarrow> rrow" where
  "update_row data r = r\<lparr>rr_data := json_norm_fields data, rr_version := rr_version r + 1\<rparr>"

definition UpdateTx :: "env \<Rightarrow> string \<Rightarrow> string \<Rightarrow> fields \<Rightarrow> int option \<Rightarrow> int dbm" where
  "UpdateTx E et rid data ev =
     (if \<not> json_ok_fields data then fail ErrMarshal
      else bindM
        (stmt (\<lambda>d. uuid_arg E rid (\<lambda>u.
           if \<not> int4_arg ev then Inl ErrDB
           else case List.find (update_hits et u ev) (db_records d) of
             None \<Rightarrow> Inr (None, d)
           | Some r \<Rightarrow>
               if rr_version r = max_int4 then Inl ErrDB
               else Inr (Some (rr_version r + 1),
                 d\<lparr>db_records := upd_where (update_hits et u ev) (update_row data) (db_records d)\<rparr>))))
        (\<lambda>updated. case updated of
           Some v \<Rightarrow> ret v
         | None \<Rightarrow>
             thenM (query (\<lambda>d. uuid_arg E rid (\<lambda>u.
                 if list_ex (\<lambda>r. rr_id r = u \<and> live et r) (db_records d) then Inr ()
                 else Inl ErrNotFound)))
               (fail ErrVersionConflict)))"

definition DeleteTx :: "env \<Rightarrow> string \<Rightarrow> string \<Rightarrow> unit dbm" where
  "DeleteTx E et rid =
     bindM
       (stmt (\<lambda>d. uuid_arg E rid (\<lambda>u.
          Inr (length (filter (\<lambda>r. rr_id r = u \<and> live et r) (db_records d)),
            d\<lparr>db_records := upd_where (\<lambda>r. rr_id r = u \<and> live et r) (\<lambda>r. r\<lparr>rr_deleted := True\<rparr>) (db_records d)\<rparr>))))
       (\<lambda>n. if n = 0 then fail ErrNotFound else ret ())"

section \<open>The record_unique_keys table\<close>

definition key_of :: "krow \<Rightarrow> string \<times> string \<times> string" where
  "key_of k = (uk_type k, uk_name k, uk_value k)"

definition owned :: "string \<Rightarrow> string \<Rightarrow> string \<Rightarrow> krow \<Rightarrow> bool" where
  "owned et cn u k \<longleftrightarrow> uk_record k = u \<and> uk_type k = et \<and> uk_name k = cn"

definition UpdateValueTx :: "env \<Rightarrow> string \<Rightarrow> string \<Rightarrow> string \<Rightarrow> string \<Rightarrow> nat dbm" where
  "UpdateValueTx E et cn v rid =
     stmt (\<lambda>d. uuid_arg E rid (\<lambda>u.
       let new = upd_where (owned et cn u) (\<lambda>k. k\<lparr>uk_value := v\<rparr>) (db_keys d) in
       if \<not> distinct (map key_of new) then Inl ErrUniqueKeyConflict
       else Inr (length (filter (owned et cn u) (db_keys d)), d\<lparr>db_keys := new\<rparr>)))"

definition InsertTx :: "env \<Rightarrow> string \<Rightarrow> string \<Rightarrow> string \<Rightarrow> string \<Rightarrow> unit dbm" where
  "InsertTx E et cn v rid =
     bindM (UpdateValueTx E et cn v rid) (\<lambda>n.
       if 0 < n then ret ()
       else stmt (\<lambda>d. uuid_arg E rid (\<lambda>u.
         case List.find (\<lambda>k. key_of k = (et, cn, v)) (db_keys d) of
           Some k \<Rightarrow> if uk_record k = u then Inr ((), d) else Inl ErrUniqueKeyConflict
         | None \<Rightarrow>
             if u \<notin> rr_id ` set (db_records d) then Inl ErrDB
             else Inr ((), d\<lparr>db_keys := db_keys d @
               [\<lparr>uk_type = et, uk_name = cn, uk_value = v, uk_record = u\<rparr>]\<rparr>))))"

definition DeleteForConstraintTx :: "env \<Rightarrow> string \<Rightarrow> string \<Rightarrow> string \<Rightarrow> unit dbm" where
  "DeleteForConstraintTx E et cn rid =
     stmt (\<lambda>d. uuid_arg E rid (\<lambda>u.
       Inr ((), d\<lparr>db_keys := filter (\<lambda>k. \<not> owned et cn u k) (db_keys d)\<rparr>)))"

definition DeleteForRecordTx :: "env \<Rightarrow> string \<Rightarrow> unit dbm" where
  "DeleteForRecordTx E rid =
     stmt (\<lambda>d. uuid_arg E rid (\<lambda>u.
       Inr ((), d\<lparr>db_keys := filter (\<lambda>k. uk_record k \<noteq> u) (db_keys d)\<rparr>)))"

section \<open>The audit_log table\<close>

definition nullable :: "string \<Rightarrow> string option" where
  "nullable s = (if s = [] then None else Some s)"

definition nullable_uuid :: "env \<Rightarrow> string \<Rightarrow> (string option \<Rightarrow> (err, 'a) result) \<Rightarrow> (err, 'a) result" where
  "nullable_uuid E s f = (if s = [] then f None else uuid_arg E s (\<lambda>u. f (Some u)))"

definition audit_row :: "env \<Rightarrow> Entry \<Rightarrow> string option \<Rightarrow> arow" where
  "audit_row E e rid =
     \<lparr>al_type = en_entity_type e, al_record = rid, al_action = en_action e,
      al_actor_type = a_type (en_actor e), al_actor_id = a_id (en_actor e),
      al_model_version = nullable (a_model_version (en_actor e)),
      al_input_hash = nullable (InputHash E (en_actor e)),
      al_diff = map_option json_norm_fields (en_diff e)\<rparr>"

definition audit_Insert :: "env \<Rightarrow> Entry \<Rightarrow> unit dbm" where
  "audit_Insert E e =
     (if (case en_diff e of None \<Rightarrow> False | Some x \<Rightarrow> \<not> json_ok_fields x) then fail ErrMarshal
      else stmt (\<lambda>d. nullable_uuid E (en_record_id e) (\<lambda>rid.
        Inr ((), d\<lparr>db_audit := db_audit d @ [audit_row E e rid]\<rparr>))))"

text \<open>Building an entry and writing it, as every engine does.\<close>

definition write_audit ::
    "env \<Rightarrow> string \<Rightarrow> string \<Rightarrow> Action \<Rightarrow> Actor \<Rightarrow> fields option \<Rightarrow> unit dbm" where
  "write_audit E et rid act actor diff =
     (case audit_New et rid act actor diff of
        Inl e \<Rightarrow> fail (ErrAudit e)
      | Inr entry \<Rightarrow> audit_Insert E entry)"

section \<open>What the statements do when they succeed\<close>

lemma uuid_arg_Inr_iff [simp]:
  "uuid_arg E s f = Inr x \<longleftrightarrow> (\<exists>u. e_uuid E s = Some u \<and> f u = Inr x)"
  by (simp add: uuid_arg_def split: option.split)

lemma CreateTx_success [go_dest]:
  assumes "CreateTx et data w = (Inr r, w')"
  obtains "json_ok_fields data" "rec_id r \<notin> rr_id ` set (db_records (w_db w))"
    "r = \<lparr>rec_id = rec_id r, rec_type = et, rec_data = data, rec_version = 1\<rparr>"
    "rec_id r = w_newid w (w_ids w)"
    "w_db w' = (w_db w)\<lparr>db_records := db_records (w_db w) @
       [\<lparr>rr_id = rec_id r, rr_type = et, rr_data = json_norm_fields data, rr_version = 1,
         rr_created = w_now w, rr_deleted = False\<rparr>]\<rparr>"
  using assms by (auto simp: CreateTx_def run_iffs split: if_splits)

lemma get_where_success:
  assumes "get_where E P et rid w = (Inr r, w')"
  obtains u row where "e_uuid E rid = Some u" "row \<in> set (db_records (w_db w))" "rr_id row = u"
    "P row" "r = \<lparr>rec_id = rid, rec_type = et, rec_data = rr_data row, rec_version = rr_version row\<rparr>"
proof -
  obtain u row where "e_uuid E rid = Some u"
    and f: "List.find (\<lambda>r. rr_id r = u \<and> P r) (db_records (w_db w)) = Some row"
    and "r = \<lparr>rec_id = rid, rec_type = et, rec_data = rr_data row, rec_version = rr_version row\<rparr>"
    using assms by (auto simp: get_where_def run_iffs split: option.splits)
  then show thesis using that find_SomeD [OF f] by blast
qed

lemma UpdateTx_success [go_dest]:
  assumes "UpdateTx E et rid data ev w = (Inr v, w')"
  obtains u row where "json_ok_fields data" "e_uuid E rid = Some u"
    "row \<in> set (db_records (w_db w))" "update_hits et u ev row" "v = rr_version row + 1"
    "w_db w' = (w_db w)\<lparr>db_records :=
       upd_where (update_hits et u ev) (update_row data) (db_records (w_db w))\<rparr>"
  using assms
  by (auto simp: UpdateTx_def run_iffs split: if_splits option.splits dest!: find_SomeD)

lemma DeleteTx_success [go_dest]:
  assumes "DeleteTx E et rid w = (Inr v, w')"
  obtains u row where "e_uuid E rid = Some u" "row \<in> set (db_records (w_db w))" "rr_id row = u"
    "live et row"
    "w_db w' = (w_db w)\<lparr>db_records :=
       upd_where (\<lambda>r. rr_id r = u \<and> live et r) (\<lambda>r. r\<lparr>rr_deleted := True\<rparr>) (db_records (w_db w))\<rparr>"
  using assms
  by (auto simp: DeleteTx_def run_iffs filter_empty_conv split: if_splits)

lemma UpdateValueTx_success:
  assumes "UpdateValueTx E et cn v rid w = (Inr n, w')"
  obtains u where "e_uuid E rid = Some u"
    "w_db w' = (w_db w)\<lparr>db_keys :=
       upd_where (owned et cn u) (\<lambda>k. k\<lparr>uk_value := v\<rparr>) (db_keys (w_db w))\<rparr>"
    "distinct (map key_of (db_keys (w_db w')))"
    "n = length (filter (owned et cn u) (db_keys (w_db w)))"
  using assms by (auto simp: UpdateValueTx_def run_iffs Let_def split: if_splits)

lemma upd_where_none: "filter P rs = [] \<Longrightarrow> upd_where P g rs = rs"
  by (induction rs) (auto simp: upd_where_def split: if_splits)

lemma InsertTx_success [go_dest]:
  assumes "InsertTx E et cn v rid w = (Inr x, w')"
  obtains (repointed) u where "e_uuid E rid = Some u"
    "\<exists>k \<in> set (db_keys (w_db w)). owned et cn u k"
    "w_db w' = (w_db w)\<lparr>db_keys :=
       upd_where (owned et cn u) (\<lambda>k. k\<lparr>uk_value := v\<rparr>) (db_keys (w_db w))\<rparr>"
    "distinct (map key_of (db_keys (w_db w')))"
  | (present) u k where "e_uuid E rid = Some u" "k \<in> set (db_keys (w_db w))"
    "key_of k = (et, cn, v)" "uk_record k = u" "w_db w' = w_db w"
  | (added) u where "e_uuid E rid = Some u" "u \<in> rr_id ` set (db_records (w_db w))"
    "(et, cn, v) \<notin> key_of ` set (db_keys (w_db w))"
    "w_db w' = (w_db w)\<lparr>db_keys := db_keys (w_db w) @
       [\<lparr>uk_type = et, uk_name = cn, uk_value = v, uk_record = u\<rparr>]\<rparr>"
proof -
  from assms obtain n w1 where upd: "UpdateValueTx E et cn v rid w = (Inr n, w1)"
    and rest: "(if 0 < n then ret () else stmt (\<lambda>d. uuid_arg E rid (\<lambda>u.
         case List.find (\<lambda>k. key_of k = (et, cn, v)) (db_keys d) of
           Some k \<Rightarrow> if uk_record k = u then Inr ((), d) else Inl ErrUniqueKeyConflict
         | None \<Rightarrow>
             if u \<notin> rr_id ` set (db_records d) then Inl ErrDB
             else Inr ((), d\<lparr>db_keys := db_keys d @
               [\<lparr>uk_type = et, uk_name = cn, uk_value = v, uk_record = u\<rparr>]\<rparr>)))) w1 = (Inr x, w')"
    unfolding InsertTx_def bindM_Inr_iff by blast
  from upd obtain u where u: "e_uuid E rid = Some u"
    and d1: "w_db w1 = (w_db w)\<lparr>db_keys :=
       upd_where (owned et cn u) (\<lambda>k. k\<lparr>uk_value := v\<rparr>) (db_keys (w_db w))\<rparr>"
    and dist: "distinct (map key_of (db_keys (w_db w1)))"
    and n: "n = length (filter (owned et cn u) (db_keys (w_db w)))"
    by (rule UpdateValueTx_success)
  show thesis
  proof (cases "0 < n")
    case True
    with rest have "w' = w1" by simp
    moreover have "\<exists>k \<in> set (db_keys (w_db w)). owned et cn u k"
      using True n by (auto simp: filter_empty_conv)
    ultimately show thesis using repointed [OF u] d1 dist by simp
  next
    case False
    then have same: "w_db w1 = w_db w" using d1 n by (simp add: upd_where_none)
    show thesis
    proof (cases "List.find (\<lambda>k. key_of k = (et, cn, v)) (db_keys (w_db w))")
      case None
      then have "(et, cn, v) \<notin> key_of ` set (db_keys (w_db w))"
        by (auto simp: find_None_iff)
      then show thesis
        using added [OF u] rest False None u same by (auto simp: stmt_Inr_iff split: if_splits)
    next
      case (Some k)
      then show thesis
        using present [OF u] find_SomeD [OF Some] rest False u same
        by (auto simp: stmt_Inr_iff split: if_splits)
    qed
  qed
qed

lemma reads_get_where [reads_intro]: "reads (get_where E P et rid)"
  unfolding get_where_def by (intro reads_intro)

lemma reads_repo [reads_intro]:
  "reads (GetTx E et rid)" "reads (GetTxIncludingDeleted E et rid)" "reads (ListTx et)"
  "reads (CountByEntityType et)" "reads (ListPage et limit offset)" "reads (ListByField E et f v)"
  "reads (ExistsByFieldsQ E et equals)" "reads (GetByFieldsQ E et equals)"
  "reads (DistinctFieldValues E et mf mv rf)"
  unfolding GetTx_def GetTxIncludingDeleted_def ListTx_def CountByEntityType_def ListPage_def
    ListByField_def ExistsByFieldsQ_def GetByFieldsQ_def DistinctFieldValues_def
  by (intro reads_intro)+

section \<open>What the tables guarantee\<close>

text \<open>Primary keys, versions that count from 1, and the constraints of the key table.\<close>

definition records_wf :: "db \<Rightarrow> bool" where
  "records_wf d \<longleftrightarrow>
     distinct (map rr_id (db_records d)) \<and>
     (\<forall>r \<in> set (db_records d). 1 \<le> rr_version r \<and> rr_version r \<le> max_int4)"

definition keys_wf :: "db \<Rightarrow> bool" where
  "keys_wf d \<longleftrightarrow>
     distinct (map key_of (db_keys d)) \<and>
     uk_record ` set (db_keys d) \<subseteq> rr_id ` set (db_records d)"

definition tables_wf :: "db \<Rightarrow> bool" where
  "tables_wf d \<longleftrightarrow> records_wf d \<and> keys_wf d"

lemma update_row_sel [simp]:
  "rr_id (update_row data r) = rr_id r" "rr_type (update_row data r) = rr_type r"
  "rr_deleted (update_row data r) = rr_deleted r" "rr_created (update_row data r) = rr_created r"
  "rr_version (update_row data r) = rr_version r + 1"
  "rr_data (update_row data r) = json_norm_fields data"
  by (simp_all add: update_row_def)

lemma rr_id_unique:
  "records_wf d \<Longrightarrow> r \<in> set (db_records d) \<Longrightarrow> r' \<in> set (db_records d) \<Longrightarrow> rr_id r = rr_id r' \<Longrightarrow> r = r'"
  unfolding records_wf_def by (meson eq_key_imp_eq_value distinct_map inj_onD)

lemma tables_wf_parts:
  "tables_wf d \<longleftrightarrow>
     distinct (map rr_id (db_records d)) \<and> distinct (map key_of (db_keys d)) \<and>
     (\<forall>r \<in> set (db_records d). 1 \<le> rr_version r \<and> rr_version r \<le> max_int4) \<and>
     uk_record ` set (db_keys d) \<subseteq> rr_id ` set (db_records d)"
  by (auto simp: tables_wf_def records_wf_def keys_wf_def)

lemma CreateTx_wf [keeps_intro]: "keeps tables_wf (CreateTx et data)"
  by (rule keepsI, erule CreateTx_success) (auto simp: tables_wf_parts max_int4_def)

lemma UpdateTx_below_max:
  assumes "UpdateTx E et rid data ev w = (Inr v, w')" "records_wf (w_db w)"
    and "r \<in> set (db_records (w_db w))" "e_uuid E rid = Some u" "update_hits et u ev r"
  shows "rr_version r \<noteq> max_int4"
proof -
  obtain r' where "r' \<in> set (db_records (w_db w))" "update_hits et u ev r'" "rr_version r' \<noteq> max_int4"
    using assms(1,4)
    by (auto simp: UpdateTx_def run_iffs split: if_splits option.splits dest!: find_SomeD)
  moreover from this have "r' = r"
    using assms by (auto simp: update_hits_def intro: rr_id_unique)
  ultimately show ?thesis by simp
qed

lemma UpdateTx_wf [keeps_intro]: "keeps tables_wf (UpdateTx E et rid data ev)"
proof (rule keepsI)
  fix w v w'
  assume I: "tables_wf (w_db w)" and run: "UpdateTx E et rid data ev w = (Inr v, w')"
  from run obtain u where u: "e_uuid E rid = Some u"
    and d: "w_db w' = (w_db w)\<lparr>db_records :=
       upd_where (update_hits et u ev) (update_row data) (db_records (w_db w))\<rparr>"
    by (auto elim: UpdateTx_success)
  have "1 \<le> rr_version r \<and> rr_version r \<le> max_int4" if "r \<in> set (db_records (w_db w'))" for r
    using that I UpdateTx_below_max [OF run _ _ u]
    by (fastforce simp: d tables_wf_def records_wf_def in_upd_where split: if_splits)
  then show "tables_wf (w_db w')"
    using I by (simp add: d tables_wf_parts map_upd_where image_upd_where)
qed

lemma DeleteTx_wf [keeps_intro]: "keeps tables_wf (DeleteTx E et rid)"
  by (rule keepsI, erule DeleteTx_success)
    (auto simp: tables_wf_parts map_upd_where image_upd_where in_upd_where)

lemma UpdateValueTx_wf [keeps_intro]: "keeps tables_wf (UpdateValueTx E et cn v rid)"
  by (rule keepsI, erule UpdateValueTx_success)
    (simp add: tables_wf_parts image_upd_where)

lemma InsertTx_wf [keeps_intro]: "keeps tables_wf (InsertTx E et cn v rid)"
  by (rule keepsI, erule InsertTx_success)
    (simp_all add: tables_wf_parts image_upd_where key_of_def)

lemma DeleteForConstraintTx_wf [keeps_intro]: "keeps tables_wf (DeleteForConstraintTx E et cn rid)"
  and DeleteForRecordTx_wf [keeps_intro]: "keeps tables_wf (DeleteForRecordTx E rid)"
  unfolding DeleteForConstraintTx_def DeleteForRecordTx_def
  by (intro keeps_stmt; force simp: tables_wf_def records_wf_def keys_wf_def distinct_map
      intro: inj_on_subset)+

lemma audit_Insert_keeps: "(\<And>d a. I d \<Longrightarrow> I (d\<lparr>db_audit := a\<rparr>)) \<Longrightarrow> keeps I (audit_Insert E e)"
  unfolding audit_Insert_def
  by (intro keeps_intro keeps_stmt) (auto simp: nullable_uuid_def split: if_splits)

lemma write_audit_keeps:
  "(\<And>d a. I d \<Longrightarrow> I (d\<lparr>db_audit := a\<rparr>)) \<Longrightarrow> keeps I (write_audit E et rid act actor diff)"
  unfolding write_audit_def by (intro keeps_intro audit_Insert_keeps)

lemma write_audit_wf [keeps_intro]: "keeps tables_wf (write_audit E et rid act actor diff)"
  by (rule write_audit_keeps) (simp add: tables_wf_def records_wf_def keys_wf_def)

lemma write_audit_success:
  assumes "write_audit E et rid act actor diff w = (Inr u, w')"
  obtains e rid' where "accountable actor"
    "e = \<lparr>en_entity_type = et, en_record_id = rid, en_action = act, en_actor = actor, en_diff = diff\<rparr>"
    "rid' = (if rid = [] then None else e_uuid E rid)"
    "w_db w' = (w_db w)\<lparr>db_audit := db_audit (w_db w) @ [audit_row E e rid']\<rparr>"
  using assms
  by (auto simp: write_audit_def audit_New_Inr_iff audit_Insert_def nullable_uuid_def run_iffs
      split: sum.splits if_splits option.splits)

text \<open>The audit row of a call, with the id as Postgres stores it.\<close>

definition audit_of :: "env \<Rightarrow> string \<Rightarrow> string \<Rightarrow> Action \<Rightarrow> Actor \<Rightarrow> fields option \<Rightarrow> arow" where
  "audit_of E et rid act actor diff =
     audit_row E \<lparr>en_entity_type = et, en_record_id = rid, en_action = act, en_actor = actor, en_diff = diff\<rparr>
       (if rid = [] then None else e_uuid E rid)"

lemma write_audit_db:
  assumes "write_audit E et rid act actor diff w = (Inr u, w')"
  shows "accountable actor \<and>
    w_db w' = (w_db w)\<lparr>db_audit := db_audit (w_db w) @ [audit_of E et rid act actor diff]\<rparr>"
  using assms by (auto elim!: write_audit_success simp: audit_of_def)

end
