(* ===== verification/EntityValidate.thy ===== *)
theory EntityValidate
  imports Entity
begin

text \<open>
  \<open>Definition.Validate\<close> of \<open>internal/kernel/entity/definition.go\<close>: the checks a definition
  passes before it is published, each phase of the function as one definition, composed in
  its order. The map iterations of the source that stop at the first bad entry are modelled
  as "some entry is bad": which entry is reported is not determined by the code.
\<close>

datatype def_error =
  EntityTypeRequired
| UnknownFieldType string
| LabelNotAField
| LabelBadType
| EmptyFieldName
| ReservedFieldName string
| DuplicateField string
| EnumWithoutValues string
| InvalidDefault string
| ReferenceWithoutTarget string
| FilterOnNonReference string
| FilterMissingFieldOrValue string
| FilterMissingEntityField string
| FilterSameColumns string
| MustMatchOnNonReference string
| MustMatchUnknownField string
| MinMaxOnNonNumber string
| MinAboveMax string
| MaxLengthOnNonString string
| NegativeMaxLength string
| NotBeforeOnNonDate string
| NotBeforeSelf string
| NotBeforeUnknown string
| NotBeforeTargetNotDate string
| NotBeforeCycle
| UniqueEmptySet
| UniqueUnknownField string
| UniqueRepeatedField string
| UniqueDuplicate string
| WhenEmptySet
| WhenUnknownField string
| WhenRepeatedField string
| WhenNoField
| WhenUnknownWhenField string
| WhenNoValue
| WhenValueNotInEnum
| WhenValueNotBool
| WhenFieldBadType
| WhenDuplicate string
| RelationshipWithoutTarget string
| RelationshipWithoutParentField string
| StatusFieldMissing
| StatusFieldNotStatusReference
| StatusFieldNotRequired

section \<open>The header and the label\<close>

definition check_header :: "Definition \<Rightarrow> def_error option" where
  "check_header d =
     and_then (check (d_entity_type d = []) EntityTypeRequired)
       (first_error (\<lambda>f. check (\<not> type_valid (f_type f)) (UnknownFieldType (f_name f))) (d_fields d))"

definition check_label :: "Definition \<Rightarrow> def_error option" where
  "check_label d =
     (if d_label_field d = [] then None
      else case FieldByName d (d_label_field d) of
        None \<Rightarrow> Some LabelNotAField
      | Some f \<Rightarrow>
          check (f_type f \<notin> {FieldString, FieldNumber, FieldDate, FieldEnum}) LabelBadType)"

section \<open>The fields\<close>

definition check_condition :: "Field \<Rightarrow> TargetFilterCondition \<Rightarrow> def_error option" where
  "check_condition f c =
     and_then (check (tf_field c = [] \<or> tf_value c = []) (FilterMissingFieldOrValue (f_name f)))
    (and_then (check (tf_entity c \<noteq> [] \<and> tf_entity_field c = []) (FilterMissingEntityField (f_name f)))
       (check (tf_entity c \<noteq> [] \<and> tf_entity_field c = tf_field c) (FilterSameColumns (f_name f))))"

definition check_must_match :: "Definition \<Rightarrow> Field \<Rightarrow> def_error option" where
  "check_must_match d f =
     (if f_must_match f = [] then None
      else and_then (check (f_type f \<noteq> FieldReference) (MustMatchOnNonReference (f_name f)))
        (check (FieldByName d (f_must_match f) = None) (MustMatchUnknownField (f_name f))))"

definition check_bounds :: "Field \<Rightarrow> def_error option" where
  "check_bounds f =
     and_then (check ((f_min f \<noteq> None \<or> f_max f \<noteq> None) \<and> f_type f \<noteq> FieldNumber \<and> f_type f \<noteq> FieldMoney)
                (MinMaxOnNonNumber (f_name f)))
    (and_then (case (f_min f, f_max f) of
                 (Some a, Some b) \<Rightarrow> check (f_lt b a) (MinAboveMax (f_name f))
               | _ \<Rightarrow> None)
    (and_then (check (f_max_length f \<noteq> None \<and> f_type f \<noteq> FieldString) (MaxLengthOnNonString (f_name f)))
       (case f_max_length f of
          Some n \<Rightarrow> check (n < 0) (NegativeMaxLength (f_name f))
        | None \<Rightarrow> None)))"

definition check_field ::
    "(f64 \<Rightarrow> i64) \<Rightarrow> Definition \<Rightarrow> string list \<Rightarrow> Field \<Rightarrow> def_error option" where
  "check_field cv d seen f =
     and_then (check (f_name f = []) EmptyFieldName)
    (and_then (check (HasPrefix (f_name f) ''_'') (ReservedFieldName (f_name f)))
    (and_then (check (f_name f \<in> set seen) (DuplicateField (f_name f)))
    (and_then (check (f_type f = FieldEnum \<and> f_enum_values f = []) (EnumWithoutValues (f_name f)))
    (and_then (check (f_default f \<noteq> VNil \<and> validateFieldValue cv (d_entity_type d) f (f_default f) \<noteq> None)
                (InvalidDefault (f_name f)))
    (and_then (check (f_type f = FieldReference \<and> f_target f = []) (ReferenceWithoutTarget (f_name f)))
    (and_then (check (f_target_filter f \<noteq> [] \<and> f_type f \<noteq> FieldReference) (FilterOnNonReference (f_name f)))
    (and_then (first_error (check_condition f) (f_target_filter f))
    (and_then (check_must_match d f)
       (check_bounds f)))))))))"

text \<open>The loop over the fields with its map \<open>seen\<close> of the names so far.\<close>

fun check_fields ::
    "(f64 \<Rightarrow> i64) \<Rightarrow> Definition \<Rightarrow> string list \<Rightarrow> Field list \<Rightarrow> def_error option" where
  "check_fields cv d seen [] = None"
| "check_fields cv d seen (f # fs) =
     and_then (check_field cv d seen f) (check_fields cv d (f_name f # seen) fs)"

section \<open>not\_before: targets and cycles\<close>

text \<open>\<open>fieldTypes\<close> and \<open>notBefore\<close>: later fields overwrite earlier ones of the same name.\<close>

definition field_types :: "Field list \<Rightarrow> (string, FieldType) fmap" where
  "field_types fs = foldl (\<lambda>m f. fmupd (f_name f) (f_type f) m) fmempty fs"

definition check_not_before :: "Definition \<Rightarrow> Field \<Rightarrow> def_error option" where
  "check_not_before d f =
     (if f_not_before f = [] then None
      else and_then (check (f_type f \<noteq> FieldDate) (NotBeforeOnNonDate (f_name f)))
          (and_then (check (f_not_before f = f_name f) (NotBeforeSelf (f_name f)))
             (case fmlookup (field_types (d_fields d)) (f_not_before f) of
                None \<Rightarrow> Some (NotBeforeUnknown (f_name f))
              | Some t \<Rightarrow> check (t \<noteq> FieldDate) (NotBeforeTargetNotDate (f_name f)))))"

definition not_before_map :: "Field list \<Rightarrow> (string, string) fmap" where
  "not_before_map fs =
     foldl (\<lambda>m f. if f_not_before f \<noteq> [] then fmupd (f_name f) (f_not_before f) m else m) fmempty fs"

text \<open>The next name of the walk: \<open>notBefore[name]\<close>, the empty string for an absent key.\<close>

definition nb_next :: "(string, string) fmap \<Rightarrow> string \<Rightarrow> string" where
  "nb_next nb n = (case fmlookup nb n of Some m \<Rightarrow> m | None \<Rightarrow> [])"

text \<open>
  The walk from one start: it ends at the empty name, and finds a cycle when it comes to a
  name it has visited. It stops because every other step visits a new key of the map.
\<close>

function nb_walk_cycle :: "(string, string) fmap \<Rightarrow> string \<Rightarrow> string fset \<Rightarrow> bool" where
  "nb_walk_cycle nb n visited =
     (if n = [] then False
      else if n |\<in>| visited then True
      else nb_walk_cycle nb (nb_next nb n) (finsert n visited))"
  by pat_completeness auto
termination
proof (relation "measure (\<lambda>(nb, n, visited).
    2 * fcard (fmdom nb |-| visited) + (if n = [] then 0 else 1))")
  fix nb :: "(string, string) fmap" and n :: string and visited :: "string fset"
  assume n: "n \<noteq> []" "n |\<notin>| visited"
  have le: "fcard (fmdom nb |-| finsert n visited) \<le> fcard (fmdom nb |-| visited)"
    by (rule fcard_mono) auto
  show "((nb, nb_next nb n, finsert n visited), nb, n, visited) \<in> measure (\<lambda>(nb, n, visited).
      2 * fcard (fmdom nb |-| visited) + (if n = [] then 0 else 1))"
  proof (cases "n |\<in>| fmdom nb")
    case True
    with n(2) have "fmdom nb |-| finsert n visited |\<subset>| fmdom nb |-| visited" by auto
    then have "fcard (fmdom nb |-| finsert n visited) < fcard (fmdom nb |-| visited)"
      by (rule pfsubset_fcard_mono)
    with n(1) show ?thesis by simp
  next
    case False
    then have "nb_next nb n = []" by (simp add: nb_next_def fmdom_notD)
    with le n(1) show ?thesis by simp
  qed
qed simp

declare nb_walk_cycle.simps [simp del]

definition check_cycles :: "Definition \<Rightarrow> def_error option" where
  "check_cycles d =
     (let nb = not_before_map (d_fields d)
      in check (fBex (fmdom nb) (\<lambda>start. nb_walk_cycle nb start {||})) NotBeforeCycle)"

section \<open>Uniqueness constraints\<close>

text \<open>The fields of one set: each one declared, none twice.\<close>

fun check_set ::
    "(string \<Rightarrow> def_error) \<Rightarrow> (string \<Rightarrow> def_error) \<Rightarrow> Definition \<Rightarrow> string list \<Rightarrow> string list \<Rightarrow>
     def_error option" where
  "check_set unknown repeated d seen [] = None"
| "check_set unknown repeated d seen (n # ns) =
     and_then (check (FieldByName d n = None) (unknown n))
    (and_then (check (n \<in> set seen) (repeated n))
       (check_set unknown repeated d (n # seen) ns))"

definition check_unique_set :: "Definition \<Rightarrow> string list \<Rightarrow> string list \<Rightarrow> def_error option" where
  "check_unique_set d seenConstraints s =
     and_then (check (s = []) UniqueEmptySet)
    (and_then (check_set UniqueUnknownField UniqueRepeatedField d [] s)
       (check (UniqueConstraintName s \<in> set seenConstraints) (UniqueDuplicate (UniqueConstraintName s))))"

fun check_unique :: "Definition \<Rightarrow> string list \<Rightarrow> string list list \<Rightarrow> def_error option" where
  "check_unique d seen [] = None"
| "check_unique d seen (s # ss) =
     and_then (check_unique_set d seen s) (check_unique d (UniqueConstraintName s # seen) ss)"

definition check_when_value :: "Field \<Rightarrow> string \<Rightarrow> def_error option" where
  "check_when_value f v =
     (case f_type f of
        FieldEnum \<Rightarrow> check (v \<notin> set (f_enum_values f)) WhenValueNotInEnum
      | FieldBool \<Rightarrow> check (v \<noteq> ''true'' \<and> v \<noteq> ''false'') WhenValueNotBool
      | FieldI18nText \<Rightarrow> Some WhenFieldBadType
      | FieldMoney \<Rightarrow> Some WhenFieldBadType
      | FieldReference \<Rightarrow> Some WhenFieldBadType
      | _ \<Rightarrow> None)"

definition check_when :: "Definition \<Rightarrow> string list \<Rightarrow> ConditionalUnique \<Rightarrow> def_error option" where
  "check_when d seenConstraints cu =
     and_then (check (cu_fields cu = []) WhenEmptySet)
    (and_then (check_set WhenUnknownField WhenRepeatedField d [] (cu_fields cu))
    (and_then (check (cu_when_field cu = []) WhenNoField)
       (case FieldByName d (cu_when_field cu) of
          None \<Rightarrow> Some (WhenUnknownWhenField (cu_when_field cu))
        | Some f \<Rightarrow>
            and_then (check (cu_when_value cu = []) WhenNoValue)
           (and_then (check_when_value f (cu_when_value cu))
              (check (ConditionalUniqueConstraintName cu \<in> set seenConstraints)
                 (WhenDuplicate (ConditionalUniqueConstraintName cu)))))))"

fun check_unique_when ::
    "Definition \<Rightarrow> string list \<Rightarrow> ConditionalUnique list \<Rightarrow> def_error option" where
  "check_unique_when d seen [] = None"
| "check_unique_when d seen (c # cs) =
     and_then (check_when d seen c)
       (check_unique_when d (ConditionalUniqueConstraintName c # seen) cs)"

section \<open>Relationships and status\<close>

definition check_relationship :: "Relationship \<Rightarrow> def_error option" where
  "check_relationship r =
     and_then (check (r_target r = []) (RelationshipWithoutTarget (r_name r)))
       (check ((r_kind r = RelationComposition \<or> r_kind r = RelationRelatedList) \<and>
               r_parent_field r = []) (RelationshipWithoutParentField (r_name r)))"

definition check_status :: "Definition \<Rightarrow> def_error option" where
  "check_status d =
     (if d_status_type_code d = [] then None
      else case FieldByName d StatusIDFieldName of
        None \<Rightarrow> Some StatusFieldMissing
      | Some sf \<Rightarrow>
          and_then (check (f_type sf \<noteq> FieldReference \<or> f_target sf \<noteq> ''Status'')
                      StatusFieldNotStatusReference)
            (check (\<not> f_required sf) StatusFieldNotRequired))"

section \<open>Validate\<close>

definition Validate :: "(f64 \<Rightarrow> i64) \<Rightarrow> Definition \<Rightarrow> def_error option" where
  "Validate cv d =
     and_then (check_header d)
    (and_then (check_label d)
    (and_then (check_fields cv d [] (d_fields d))
    (and_then (first_error (check_not_before d) (d_fields d))
    (and_then (check_cycles d)
    (and_then (check_unique d [] (d_unique d))
    (and_then (check_unique_when d (rev (map UniqueConstraintName (d_unique d))) (d_unique_when d))
    (and_then (first_error check_relationship (d_relationships d))
       (check_status d))))))))"

text \<open>\<open>Unmarshal\<close>, with the JSON decoder as an argument: nothing invalid is loaded.\<close>

datatype load_error = BadJSON | BadDefinition def_error

definition Unmarshal ::
    "(string \<Rightarrow> Definition option) \<Rightarrow> (f64 \<Rightarrow> i64) \<Rightarrow> string \<Rightarrow> (load_error, Definition) result" where
  "Unmarshal decode cv raw =
     (case decode raw of
        None \<Rightarrow> Inl BadJSON
      | Some d \<Rightarrow> (case Validate cv d of Some e \<Rightarrow> Inl (BadDefinition e) | None \<Rightarrow> Inr d))"

section \<open>What a valid definition guarantees\<close>

lemma check_fields_distinct:
  "check_fields cv d seen fs = None \<Longrightarrow>
     distinct (map f_name fs) \<and> set (map f_name fs) \<inter> set seen = {}"
proof (induction fs arbitrary: seen)
  case (Cons f fs)
  then have "check_fields cv d (f_name f # seen) fs = None" "f_name f \<notin> set seen"
    by (auto simp: check_field_def)
  with Cons.IH [of "f_name f # seen"] show ?case by auto
qed simp

lemma check_fields_each:
  "check_fields cv d seen fs = None \<Longrightarrow> f \<in> set fs \<Longrightarrow> \<exists>s. check_field cv d s f = None"
  by (induction fs arbitrary: seen) auto

lemma Validate_parts:
  assumes "Validate cv d = None"
  shows "check_header d = None" "check_label d = None" "check_fields cv d [] (d_fields d) = None"
    "first_error (check_not_before d) (d_fields d) = None" "check_cycles d = None"
    "check_unique d [] (d_unique d) = None"
    "check_unique_when d (rev (map UniqueConstraintName (d_unique d))) (d_unique_when d) = None"
    "first_error check_relationship (d_relationships d) = None" "check_status d = None"
  using assms unfolding Validate_def and_then_None_iff by blast+

lemma Validate_distinct: "Validate cv d = None \<Longrightarrow> distinct (map f_name (d_fields d))"
  using Validate_parts(3) check_fields_distinct by blast

lemma Validate_field:
  assumes "Validate cv d = None" "f \<in> set (d_fields d)"
  shows "f_name f \<noteq> []" "type_valid (f_type f)"
    "f_default f \<noteq> VNil \<Longrightarrow> validateFieldValue cv (d_entity_type d) f (f_default f) = None"
    "f_type f = FieldReference \<Longrightarrow> f_target f \<noteq> []"
proof -
  obtain s where s: "check_field cv d s f = None"
    using Validate_parts(3) [OF assms(1)] assms(2) check_fields_each by blast
  then show "f_name f \<noteq> []" "f_type f = FieldReference \<Longrightarrow> f_target f \<noteq> []"
    "f_default f \<noteq> VNil \<Longrightarrow> validateFieldValue cv (d_entity_type d) f (f_default f) = None"
    by (auto simp: check_field_def)
  show "type_valid (f_type f)"
    using Validate_parts(1) [OF assms(1)] assms(2) by (auto simp: check_header_def)
qed

lemma FieldByName_in:
  assumes "distinct (map f_name (d_fields d))" "f \<in> set (d_fields d)"
  shows "FieldByName d (f_name f) = Some f"
proof -
  obtain g where g: "FieldByName d (f_name f) = Some g"
    using assms(2) FieldByName_None_iff by fastforce
  then have "g \<in> set (d_fields d)" "f_name g = f_name f" using FieldByName_SomeD by blast+
  with assms have "g = f" by (meson distinct_map inj_onD)
  with g show ?thesis by simp
qed

subsection \<open>The not\_before relation has no cycle\<close>

definition nb_rel :: "(string, string) fmap \<Rightarrow> (string \<times> string) set" where
  "nb_rel nb = {(a, b). fmlookup nb a = Some b \<and> b \<noteq> []}"

lemma nb_rel_next: "(a, b) \<in> nb_rel nb \<Longrightarrow> nb_next nb a = b"
  by (simp add: nb_rel_def nb_next_def)

lemma nb_walk_ends:
  "\<not> nb_walk_cycle nb n visited \<Longrightarrow> \<exists>k. (nb_next nb ^^ k) n = []"
proof (induction nb n visited rule: nb_walk_cycle.induct)
  case (1 nb n visited)
  show ?case
  proof (cases "n = []")
    case True
    then show ?thesis by (intro exI [of _ 0]) simp
  next
    case False
    with "1.prems" have "n |\<notin>| visited" "\<not> nb_walk_cycle nb (nb_next nb n) (finsert n visited)"
      by (auto simp: nb_walk_cycle.simps [of nb n] split: if_splits)
    with False "1.IH" obtain k where "(nb_next nb ^^ k) (nb_next nb n) = []" by blast
    then have "(nb_next nb ^^ Suc k) n = []" by (simp add: funpow_swap1)
    then show ?thesis by blast
  qed
qed

text \<open>From a name on a cycle every step stays on the cycle, so the walk never ends.\<close>

lemma nb_cycle_step:
  assumes "(n, n) \<in> (nb_rel nb)\<^sup>+"
  shows "n \<noteq> [] \<and> (nb_next nb n, nb_next nb n) \<in> (nb_rel nb)\<^sup>+"
proof -
  obtain m where m: "(n, m) \<in> nb_rel nb" "(m, n) \<in> (nb_rel nb)\<^sup>*"
    using assms by (meson tranclD)
  obtain p where "(p, n) \<in> nb_rel nb"
    using assms by (meson tranclD2)
  then have "n \<noteq> []" by (simp add: nb_rel_def)
  moreover have "(m, m) \<in> (nb_rel nb)\<^sup>+" using m by (rule rtrancl_into_trancl1 [rotated])
  ultimately show ?thesis using nb_rel_next [OF m(1)] by simp
qed

lemma nb_walk_acyclic:
  assumes "\<And>n. n |\<in>| fmdom nb \<Longrightarrow> \<not> nb_walk_cycle nb n {||}"
  shows "acyclic (nb_rel nb)"
proof (rule acyclicI, intro allI notI)
  fix n assume n: "(n, n) \<in> (nb_rel nb)\<^sup>+"
  have cyc: "((nb_next nb ^^ k) n, (nb_next nb ^^ k) n) \<in> (nb_rel nb)\<^sup>+" for k
    by (induction k) (auto simp: n nb_cycle_step)
  obtain m where "(n, m) \<in> nb_rel nb" using n by (meson tranclD)
  then have "n |\<in>| fmdom nb" by (auto simp: nb_rel_def intro: fmdomI)
  then obtain k where "(nb_next nb ^^ k) n = []" using assms nb_walk_ends by blast
  with nb_cycle_step [OF cyc [of k]] show False by simp
qed

lemma fmlookup_foldl_upd:
  assumes "distinct (map f_name fs)"
  shows "fmlookup (foldl (\<lambda>m f. if P f then fmupd (f_name f) (g f) m else m) m0 fs) n =
    (case List.find (\<lambda>f. f_name f = n) fs of
       Some f \<Rightarrow> if P f then Some (g f) else fmlookup m0 n
     | None \<Rightarrow> fmlookup m0 n)"
  using assms
proof (induction fs arbitrary: m0)
  case (Cons f fs)
  show ?case
  proof (cases "f_name f = n")
    case True
    with Cons.prems have "List.find (\<lambda>f. f_name f = n) fs = None"
      by (auto simp: find_None_iff image_iff)
    with Cons True show ?thesis by simp
  next
    case False
    with Cons show ?thesis by (auto split: option.split)
  qed
qed simp

lemma fmlookup_not_before_map:
  assumes "distinct (map f_name (d_fields d))"
  shows "fmlookup (not_before_map (d_fields d)) n =
    (case FieldByName d n of Some f \<Rightarrow> if f_not_before f \<noteq> [] then Some (f_not_before f) else None
     | None \<Rightarrow> None)"
  using fmlookup_foldl_upd [OF assms, where P = "\<lambda>f. f_not_before f \<noteq> []" and g = f_not_before]
  by (simp add: not_before_map_def FieldByName_def split: option.split)

definition not_before_rel :: "Definition \<Rightarrow> (string \<times> string) set" where
  "not_before_rel d =
     {(f_name f, f_not_before f) | f. f \<in> set (d_fields d) \<and> f_not_before f \<noteq> []}"

lemma nb_rel_not_before_map:
  assumes "distinct (map f_name (d_fields d))"
  shows "nb_rel (not_before_map (d_fields d)) = not_before_rel d"
  using FieldByName_in [OF assms]
  by (auto simp: nb_rel_def not_before_rel_def fmlookup_not_before_map [OF assms]
      split: option.splits if_splits dest!: FieldByName_SomeD)

lemma Validate_acyclic:
  assumes "Validate cv d = None"
  shows "acyclic (not_before_rel d)"
proof -
  have "\<not> nb_walk_cycle (not_before_map (d_fields d)) n {||}"
    if "n |\<in>| fmdom (not_before_map (d_fields d))" for n
    using Validate_parts(5) [OF assms] that by (auto simp: check_cycles_def Let_def)
  then have "acyclic (nb_rel (not_before_map (d_fields d)))" by (rule nb_walk_acyclic)
  then show ?thesis using nb_rel_not_before_map [OF Validate_distinct [OF assms]] by simp
qed

end
