(* ===== verification/EntityRecord.thy ===== *)
theory EntityRecord
  imports EntityValidate
begin

text \<open>
  The record-level half of \<open>internal/kernel/entity/validate.go\<close>: \<open>ApplyDefaults\<close>,
  \<open>ValidateRecord\<close> and the date ordering \<open>validateNotBefore\<close>, and what a record that passes
  them satisfies.
\<close>

section \<open>Defaults\<close>

text \<open>\<open>cloneDefault\<close> copies a map; a value of the model is its own copy.\<close>

definition cloneDefault :: "gval \<Rightarrow> gval" where
  "cloneDefault v = (case v of VMap m \<Rightarrow> VMap m | _ \<Rightarrow> v)"

lemma cloneDefault_id [simp]: "cloneDefault v = v"
  by (cases v) (simp_all add: cloneDefault_def)

definition apply_default :: "fields \<Rightarrow> Field \<Rightarrow> fields" where
  "apply_default data f =
     (if f_default f = VNil then data
      else if get_field data (f_name f) \<noteq> VNil then data
      else fmupd (f_name f) (cloneDefault (f_default f)) data)"

text \<open>A nil map (\<open>None\<close>) is left alone; otherwise the fields are filled in order, in place.\<close>

definition ApplyDefaults :: "Definition \<Rightarrow> fields option \<Rightarrow> fields option" where
  "ApplyDefaults d data = map_option (\<lambda>m. foldl apply_default m (d_fields d)) data"

section \<open>Date ordering\<close>

definition field_map :: "Field list \<Rightarrow> (string, Field) fmap" where
  "field_map fs = foldl (\<lambda>m f. fmupd (f_name f) f m) fmempty fs"

text \<open>
  The loop of \<open>validateNotBefore\<close> for a field whose own date is \<open>this\<close>: the first field
  along the \<open>NotBefore\<close> links that holds a non-empty string decides; blank ones are
  skipped; a name seen before, or no field at all, ends the walk.
\<close>

function nb_compare ::
    "string \<Rightarrow> (string, Field) fmap \<Rightarrow> Field \<Rightarrow> fields \<Rightarrow> date \<Rightarrow> string \<Rightarrow> string fset \<Rightarrow>
     ValidationError option" where
  "nb_compare et fm f data this n visited =
     (if n = [] \<or> n |\<in>| visited then None
      else if str_field data n \<noteq> [] then
        (case ParseDate (str_field data n) of
           None \<Rightarrow> None
         | Some other \<Rightarrow>
             if date_before this other
             then Some ((verr KindNotBefore et (f_name f))\<lparr>ve_other_field := n\<rparr>)
             else None)
      else
        (case fmlookup fm n of
           None \<Rightarrow> None
         | Some prev \<Rightarrow> nb_compare et fm f data this (f_not_before prev) (finsert n visited)))"
  by pat_completeness auto
termination
proof (relation "measure (\<lambda>(et, fm, f, data, this, n, visited). fcard (fmdom fm |-| visited))")
  fix et :: string and fm :: "(string, Field) fmap" and f data this
    and n :: string and visited :: "string fset" and prev
  assume "\<not> (n = [] \<or> n |\<in>| visited)" and p: "fmlookup fm n = Some prev"
  then have "fmdom fm |-| finsert n visited |\<subset>| fmdom fm |-| visited"
    by (auto intro: fmdomI [OF p])
  then have "fcard (fmdom fm |-| finsert n visited) < fcard (fmdom fm |-| visited)"
    by (rule pfsubset_fcard_mono)
  then show "((et, fm, f, data, this, f_not_before prev, finsert n visited),
      et, fm, f, data, this, n, visited)
      \<in> measure (\<lambda>(et, fm, f, data, this, n, visited). fcard (fmdom fm |-| visited))"
    by simp
qed simp

declare nb_compare.simps [simp del]

definition validateNotBefore ::
    "string \<Rightarrow> (string, Field) fmap \<Rightarrow> Field \<Rightarrow> fields \<Rightarrow> ValidationError option" where
  "validateNotBefore et fm f data =
     (if str_field data (f_name f) = [] then None
      else case ParseDate (str_field data (f_name f)) of
        None \<Rightarrow> None
      | Some this \<Rightarrow> nb_compare et fm f data this (f_not_before f) {||})"

section \<open>ValidateRecord\<close>

definition validate_field ::
    "(f64 \<Rightarrow> i64) \<Rightarrow> string \<Rightarrow> fields \<Rightarrow> Field \<Rightarrow> ValidationError option" where
  "validate_field cv et data f =
     (let v = get_field data (f_name f); absent = (v = VNil) in
      if f_required f \<and> (absent \<or> IsBlankString v) then Some (verr KindRequired et (f_name f))
      else if absent then None
      else case validateFieldValue cv et f v of
        Some e \<Rightarrow> Some e
      | None \<Rightarrow>
          if f_required f \<and> f_type f = FieldI18nText \<and> \<not> i18nTextHasContent v
          then Some (verr KindRequired et (f_name f)) else None)"

definition ValidateRecord ::
    "(f64 \<Rightarrow> i64) \<Rightarrow> Definition \<Rightarrow> fields \<Rightarrow> ValidationError option" where
  "ValidateRecord cv d data =
     and_then (first_error (validate_field cv (d_entity_type d) data) (d_fields d))
       (first_error
          (\<lambda>f. if f_not_before f = [] then None
               else validateNotBefore (d_entity_type d) (field_map (d_fields d)) f data)
          (d_fields d))"

section \<open>Facts about defaults\<close>

lemma get_field_apply_default:
  "get_field (apply_default data f) n =
     (if f_name f = n \<and> get_field data n = VNil then f_default f else get_field data n)"
  by (cases "f_name f = n") (auto simp: apply_default_def)

lemma defaults_keep: "get_field m k \<noteq> VNil \<Longrightarrow> fmlookup (the (ApplyDefaults def (Some m))) k = fmlookup m k"
proof -
  have "get_field m k \<noteq> VNil \<Longrightarrow> fmlookup (foldl apply_default m fs) k = fmlookup m k" for fs
  proof (induction fs arbitrary: m)
    case (Cons f fs)
    have "fmlookup (apply_default m f) k = fmlookup m k"
      using Cons.prems by (auto simp: apply_default_def get_field_def)
    then show ?case using Cons by (simp add: get_field_def)
  qed simp
  then show "get_field m k \<noteq> VNil \<Longrightarrow> fmlookup (the (ApplyDefaults def (Some m))) k = fmlookup m k"
    by (simp add: ApplyDefaults_def)
qed

lemma defaults_keep_field: "get_field m k \<noteq> VNil \<Longrightarrow> get_field (the (ApplyDefaults def (Some m))) k = get_field m k"
  by (drule defaults_keep [of m k def]) (simp add: get_field_def)

lemma get_field_foldl_default:
  assumes "distinct (map f_name fs)"
  shows "get_field (foldl apply_default data fs) n =
    (if get_field data n \<noteq> VNil then get_field data n
     else case List.find (\<lambda>f. f_name f = n) fs of Some f \<Rightarrow> f_default f | None \<Rightarrow> VNil)"
  using assms
proof (induction fs arbitrary: data)
  case (Cons f fs)
  show ?case
  proof (cases "f_name f = n")
    case True
    with Cons.prems have "List.find (\<lambda>f. f_name f = n) fs = None"
      by (auto simp: find_None_iff image_iff)
    with Cons True show ?thesis by (simp add: get_field_apply_default)
  next
    case False
    with Cons show ?thesis by (simp add: get_field_apply_default)
  qed
qed simp

section \<open>Facts about validation\<close>

lemma validate_field_shape:
  assumes "validate_field cv et data f = None" "get_field data (f_name f) \<noteq> VNil"
  shows "has_shape (f_type f) (get_field data (f_name f))"
proof -
  have "validateFieldValue cv et f (get_field data (f_name f)) = None"
    using assms by (auto simp: validate_field_def Let_def split: if_splits option.splits)
  then show ?thesis by (rule validateFieldValue_shape)
qed

lemma ValidateRecord_fields:
  "ValidateRecord cv d data = None \<Longrightarrow> f \<in> set (d_fields d) \<Longrightarrow>
     validate_field cv (d_entity_type d) data f = None"
  by (simp add: ValidateRecord_def)

lemma field_map_lookup:
  assumes "distinct (map f_name (d_fields d))"
  shows "fmlookup (field_map (d_fields d)) n = FieldByName d n"
  using fmlookup_foldl_upd [OF assms, where P = "\<lambda>f. True" and g = id]
  by (simp add: field_map_def FieldByName_def split: option.split)

text \<open>
  The walk compares with every later field of the chain, given that each non-blank field on
  the way is itself not before the last one.
\<close>

lemma nb_compare_order:
  assumes "nb_compare et fm f data this n visited = None"
    and "\<And>m g. fmlookup fm m = Some g \<Longrightarrow> f_name g = m"
    and "acyclic r" and "\<And>a b. (a, b) \<in> r \<longleftrightarrow> (\<exists>g. fmlookup fm a = Some g \<and> f_not_before g = b \<and> b \<noteq> [])"
    and "(n, b) \<in> r\<^sup>*" "n \<noteq> []" and "\<And>m. (n, m) \<in> r\<^sup>* \<Longrightarrow> m |\<notin>| visited"
    and "str_field data b \<noteq> []" "ParseDate (str_field data b) = Some last_date"
    and "\<And>m. (n, m) \<in> r\<^sup>* \<Longrightarrow> str_field data m \<noteq> [] \<Longrightarrow> m \<noteq> b \<Longrightarrow> (m, b) \<in> r\<^sup>+ \<Longrightarrow>
      \<exists>dm. ParseDate (str_field data m) = Some dm \<and> \<not> date_before dm last_date"
  shows "\<not> date_before this last_date"
  using assms
proof (induction et fm f data this n visited rule: nb_compare.induct)
  case (1 et fm f data this n visited)
  have nv: "\<not> (n = [] \<or> n |\<in>| visited)" using "1.prems"(6,7) by blast
  show ?case
  proof (cases "str_field data n = []")
    case False
    show ?thesis
    proof (cases "n = b")
      case True
      then show ?thesis
        using "1.prems"(1,9) nv False by (auto simp: nb_compare.simps [of et fm f] split: if_splits)
    next
      case nb: False
      with "1.prems"(5) have "(n, b) \<in> r\<^sup>+" by (metis rtranclD)
      with "1.prems"(10) False nb obtain dm where
        dm: "ParseDate (str_field data n) = Some dm" "\<not> date_before dm last_date" by blast
      then have "\<not> date_before this dm"
        using "1.prems"(1) nv False by (auto simp: nb_compare.simps [of et fm f] split: if_splits)
      with dm(2) show ?thesis by (meson date_not_before_trans)
    qed
  next
    case True
    with "1.prems"(8) have "n \<noteq> b" by auto
    then obtain p where p: "(n, p) \<in> r" "(p, b) \<in> r\<^sup>*"
      using "1.prems"(5) by (meson converse_rtranclE)
    then obtain g where g: "fmlookup fm n = Some g" "f_not_before g = p" "p \<noteq> []"
      using "1.prems"(4) by blast
    have rec: "nb_compare et fm f data this p (finsert n visited) = None"
      using "1.prems"(1) nv True g by (simp add: nb_compare.simps [of et fm f data this n])
    have pre: "(n, m) \<in> r\<^sup>*" if "(p, m) \<in> r\<^sup>*" for m
      using p(1) that by (rule converse_rtrancl_into_rtrancl)
    have fresh: "m |\<notin>| finsert n visited" if "(p, m) \<in> r\<^sup>*" for m
    proof
      assume "m |\<in>| finsert n visited"
      with "1.prems"(7) [OF pre [OF that]] have "m = n" by simp
      with p(1) that have "(n, n) \<in> r\<^sup>+" by (metis rtrancl_into_trancl2)
      with "1.prems"(3) show False by (simp add: acyclic_def)
    qed
    have "\<not> (str_field data n \<noteq> [])" using True by simp
    from "1.IH" [OF nv this g(1), unfolded g(2), OF rec "1.prems"(2,3,4) p(2) g(3) fresh
        "1.prems"(8,9) "1.prems"(10) [OF pre]]
    show ?thesis .
  qed
qed

text \<open>
  In a valid definition, a record that passes and whose dates all parse is ordered along
  every chain of \<open>not_before\<close> links.
\<close>

lemma ValidateRecord_ordered:
  assumes d: "Validate cv d = None" and r: "ValidateRecord cv d data = None"
    and parses: "\<And>f. f \<in> set (d_fields d) \<Longrightarrow> f_type f = FieldDate \<Longrightarrow>
      str_field data (f_name f) \<noteq> [] \<Longrightarrow> ParseDate (str_field data (f_name f)) \<noteq> None"
    and ab: "(a, b) \<in> (not_before_rel d)\<^sup>+"
    and da: "ParseDate (str_field data a) = Some da" and db: "ParseDate (str_field data b) = Some db"
  shows "\<not> date_before da db"
proof -
  let ?r = "not_before_rel d"
  have dist: "distinct (map f_name (d_fields d))" using d by (rule Validate_distinct)
  note lk = field_map_lookup [OF dist]
  have acyc: "acyclic ?r" using d by (rule Validate_acyclic)
  have "?r \<subseteq> (\<lambda>f. (f_name f, f_not_before f)) ` set (d_fields d)"
    by (auto simp: not_before_rel_def)
  then have "finite ?r" by (rule finite_subset) simp
  with acyc have wf: "wf ((?r\<inverse>)\<^sup>+)"
    by (simp add: finite_acyclic_wf_converse wf_trancl)
  have rel: "(x, y) \<in> ?r \<longleftrightarrow>
      (\<exists>g. fmlookup (field_map (d_fields d)) x = Some g \<and> f_not_before g = y \<and> y \<noteq> [])" for x y
    unfolding lk using FieldByName_in [OF dist] FieldByName_SomeD
    by (auto simp: not_before_rel_def dest: FieldByName_SomeD)
  have src: "\<exists>f \<in> set (d_fields d). f_name f = x \<and> f_type f = FieldDate \<and> f_not_before f = y \<and> y \<noteq> []"
    if xy: "(x, y) \<in> ?r" for x y
  proof -
    obtain f where f: "f \<in> set (d_fields d)" "f_name f = x" "f_not_before f = y" "y \<noteq> []"
      using xy by (auto simp: not_before_rel_def)
    then have "check_not_before d f = None" using Validate_parts(4) [OF d] by simp
    with f show ?thesis by (auto simp: check_not_before_def)
  qed
  show ?thesis
    using ab da
  proof (induction a arbitrary: da rule: wf_induct_rule [OF wf])
    case (1 a)
    obtain n where n: "(a, n) \<in> ?r" "(n, b) \<in> ?r\<^sup>*" using "1.prems"(1) by (meson tranclD)
    obtain f where f: "f \<in> set (d_fields d)" "f_name f = a" "f_not_before f = n" "n \<noteq> []"
      using src [OF n(1)] by blast
    have "validateNotBefore (d_entity_type d) (field_map (d_fields d)) f data = None"
      using r f by (auto simp: ValidateRecord_def)
    then have walk: "nb_compare (d_entity_type d) (field_map (d_fields d)) f data da n {||} = None"
      using "1.prems"(2) f by (auto simp: validateNotBefore_def split: if_splits)
    show ?case
    proof (rule nb_compare_order [OF walk _ acyc rel n(2) f(4)])
      show "f_name g = m" if "fmlookup (field_map (d_fields d)) m = Some g" for m g
        using that lk FieldByName_SomeD by simp
      show "str_field data b \<noteq> []" using db by auto
      show "ParseDate (str_field data b) = Some db" by (rule db)
      fix m
      assume m: "(n, m) \<in> ?r\<^sup>*" "str_field data m \<noteq> []" "(m, b) \<in> ?r\<^sup>+"
      obtain m' where "(m, m') \<in> ?r" using m(3) by (meson tranclD)
      then obtain g where "g \<in> set (d_fields d)" "f_name g = m" "f_type g = FieldDate"
        using src by blast
      with parses m(2) obtain dm where dm: "ParseDate (str_field data m) = Some dm" by blast
      have "(a, m) \<in> ?r\<^sup>+" using n(1) m(1) by (rule rtrancl_into_trancl2)
      then have "(m, a) \<in> (?r\<inverse>)\<^sup>+" by (simp add: trancl_converse)
      from "1.IH" [OF this m(3) dm] dm
      show "\<exists>dm. ParseDate (str_field data m) = Some dm \<and> \<not> date_before dm db" by blast
    qed simp
  qed
qed

subsection \<open>Constraint names\<close>

lemma check_unique_distinct:
  "check_unique d seen ss = None \<Longrightarrow>
     distinct (map UniqueConstraintName ss) \<and> set (map UniqueConstraintName ss) \<inter> set seen = {}"
proof (induction ss arbitrary: seen)
  case (Cons s ss)
  then have "check_unique d (UniqueConstraintName s # seen) ss = None"
    "UniqueConstraintName s \<notin> set seen"
    by (auto simp: check_unique_set_def)
  with Cons.IH [of "UniqueConstraintName s # seen"] show ?case by auto
qed simp

lemma check_when_new: "check_when d seen c = None \<Longrightarrow> ConditionalUniqueConstraintName c \<notin> set seen"
  by (auto simp: check_when_def split: option.splits)

lemma check_unique_when_distinct:
  "check_unique_when d seen cs = None \<Longrightarrow>
     distinct (map ConditionalUniqueConstraintName cs) \<and>
     set (map ConditionalUniqueConstraintName cs) \<inter> set seen = {}"
proof (induction cs arbitrary: seen)
  case (Cons c cs)
  then have "check_unique_when d (ConditionalUniqueConstraintName c # seen) cs = None"
    "ConditionalUniqueConstraintName c \<notin> set seen"
    by (auto dest: check_when_new)
  with Cons.IH [of "ConditionalUniqueConstraintName c # seen"] show ?case by auto
qed simp

lemma check_set_known:
  "check_set u rp d seen ns = None \<Longrightarrow> (\<forall>n \<in> set ns. FieldByName d n \<noteq> None) \<and> distinct ns"
proof -
  have "check_set u rp d seen ns = None \<Longrightarrow>
      (\<forall>n \<in> set ns. FieldByName d n \<noteq> None) \<and> distinct ns \<and> set ns \<inter> set seen = {}"
  proof (induction ns arbitrary: seen)
    case (Cons n ns)
    then have "check_set u rp d (n # seen) ns = None" "n \<notin> set seen" "FieldByName d n \<noteq> None"
      by auto
    with Cons.IH [of "n # seen"] show ?case by auto
  qed simp
  then show "check_set u rp d seen ns = None \<Longrightarrow> (\<forall>n \<in> set ns. FieldByName d n \<noteq> None) \<and> distinct ns"
    by blast
qed

definition constraint_names :: "Definition \<Rightarrow> string list" where
  "constraint_names d =
     map UniqueConstraintName (d_unique d) @ map ConditionalUniqueConstraintName (d_unique_when d)"

lemma Validate_constraint_names:
  assumes "Validate cv d = None"
  shows "distinct (constraint_names d)"
  using check_unique_distinct [OF Validate_parts(6) [OF assms]]
    check_unique_when_distinct [OF Validate_parts(7) [OF assms]]
  by (simp add: constraint_names_def Int_commute)

lemma check_unique_sets:
  "check_unique d seen ss = None \<Longrightarrow> s \<in> set ss \<Longrightarrow> s \<noteq> [] \<and> (\<forall>n \<in> set s. FieldByName d n \<noteq> None)"
  by (induction ss arbitrary: seen) (auto simp: check_unique_set_def dest: check_set_known)

section \<open>Properties\<close>

text \<open>
  C2. A definition that passes \<open>Validate\<close> has distinct field names, distinct constraint names
  over both kinds of uniqueness constraint, only declared fields in each constraint, and no
  cycle of \<open>not_before\<close> links.
\<close>

theorem valid_definition_well_formed:
  assumes "Validate cv d = None"
  shows "distinct (map f_name (d_fields d)) \<and> distinct (constraint_names d) \<and>
    (\<forall>s \<in> set (d_unique d). s \<noteq> [] \<and> (\<forall>n \<in> set s. \<exists>f. FieldByName d n = Some f)) \<and>
    acyclic (not_before_rel d)"
proof (intro conjI ballI)
  show "distinct (map f_name (d_fields d))" using assms by (rule Validate_distinct)
  show "distinct (constraint_names d)" using assms by (rule Validate_constraint_names)
  show "acyclic (not_before_rel d)" using assms by (rule Validate_acyclic)
  fix s assume "s \<in> set (d_unique d)"
  then have s: "s \<noteq> [] \<and> (\<forall>n \<in> set s. FieldByName d n \<noteq> None)"
    using check_unique_sets [OF Validate_parts(6) [OF assms]] by blast
  show "s \<noteq> []" using s by simp
  show "\<exists>f. FieldByName d n = Some f" if "n \<in> set s" for n using s that by blast
qed

definition sample_dates :: Definition where
  "sample_dates =
     (mk_definition ''Invoice''
        [mk_field ''invoice_date'' FieldDate,
         (mk_field ''sent_date'' FieldDate)\<lparr>f_not_before := ''invoice_date''\<rparr>,
         (mk_field ''due_date'' FieldDate)\<lparr>f_not_before := ''sent_date''\<rparr>])
     \<lparr>d_unique := [[''invoice_date'']]\<rparr>"

lemma sample_dates_valid: "Validate cv sample_dates = None"
  by (simp add: sample_dates_def Validate_def check_header_def check_label_def check_field_def
      check_must_match_def check_bounds_def check_not_before_def check_cycles_def
      check_unique_set_def check_status_def mk_definition_def mk_field_def type_valid_def
      allFieldTypes_def HasPrefix_def FieldByName_def field_types_def not_before_map_def
      nb_walk_cycle.simps nb_next_def Let_def)

theorem valid_definition_well_formed_witness:
  "Validate cv_amd64 sample_dates = None \<and>
   distinct (map f_name (d_fields sample_dates)) \<and> distinct (constraint_names sample_dates) \<and>
    (\<exists>f. FieldByName sample_dates ''invoice_date'' = Some f) \<and>
    acyclic (not_before_rel sample_dates)"
proof -
  have "[''invoice_date''] \<in> set (d_unique sample_dates)" by (simp add: sample_dates_def)
  then show ?thesis
    using sample_dates_valid valid_definition_well_formed [OF sample_dates_valid] by fastforce
qed

text \<open>
  In a record that passes \<open>ValidateRecord\<close> against a valid definition, and whose dates
  all parse, no date is before a date it is declared not to precede, also through fields of
  the chain that were left blank.
\<close>

theorem validated_dates_ordered:
  assumes "Validate cv d = None" and "ValidateRecord cv d data = None"
    and "\<And>f. f \<in> set (d_fields d) \<Longrightarrow> f_type f = FieldDate \<Longrightarrow>
      str_field data (f_name f) \<noteq> [] \<Longrightarrow> ParseDate (str_field data (f_name f)) \<noteq> None"
    and "(a, b) \<in> (not_before_rel d)\<^sup>+"
    and "ParseDate (str_field data a) = Some da" and "ParseDate (str_field data b) = Some db"
  shows "\<not> date_before da db"
  using assms by (rule ValidateRecord_ordered)

lemma not_before_relI:
  "f \<in> set (d_fields d) \<Longrightarrow> f_not_before f \<noteq> [] \<Longrightarrow> (f_name f, f_not_before f) \<in> not_before_rel d"
  by (auto simp: not_before_rel_def)

definition sample_record :: fields where
  "sample_record =
     fmupd ''due_date'' (VStr ''2026-03-01'') (fmupd ''invoice_date'' (VStr ''2026-02-01'') fmempty)"

theorem validated_dates_ordered_witness:
  "ValidateRecord cv_amd64 sample_dates sample_record = None \<and>
   (''due_date'', ''invoice_date'') \<in> (not_before_rel sample_dates)\<^sup>+ \<and>
   \<not> date_before \<lparr>d_year = 2026, d_month = 3, d_day = 1\<rparr> \<lparr>d_year = 2026, d_month = 2, d_day = 1\<rparr>"
proof -
  have p1: "ParseDate (str_field sample_record ''due_date'') = Some \<lparr>d_year = 2026, d_month = 3, d_day = 1\<rparr>"
    and p2: "ParseDate (str_field sample_record ''invoice_date'') = Some \<lparr>d_year = 2026, d_month = 2, d_day = 1\<rparr>"
    by (simp_all add: sample_record_def str_field_def digits_eval Let_def valid_date_def days_in_def is_leap_def)
  have v: "ValidateRecord cv_amd64 sample_dates sample_record = None"
    using p1 p2
    by (simp add: ValidateRecord_def sample_dates_def mk_definition_def mk_field_def validate_field_def
        validateFieldValue_def validateNotBefore_def nb_compare.simps field_map_def Let_def
        sample_record_def get_field_def str_field_def date_before_def)
  have r: "(''due_date'', ''sent_date'') \<in> not_before_rel sample_dates"
    "(''sent_date'', ''invoice_date'') \<in> not_before_rel sample_dates"
    using not_before_relI [of "(mk_field ''due_date'' FieldDate)\<lparr>f_not_before := ''sent_date''\<rparr>" sample_dates]
      not_before_relI [of "(mk_field ''sent_date'' FieldDate)\<lparr>f_not_before := ''invoice_date''\<rparr>" sample_dates]
    by (simp_all add: sample_dates_def mk_definition_def mk_field_def)
  then have c: "(''due_date'', ''invoice_date'') \<in> (not_before_rel sample_dates)\<^sup>+" by auto
  have d: "ParseDate (str_field sample_record (f_name f)) \<noteq> None"
    if "f \<in> set (d_fields sample_dates)" "str_field sample_record (f_name f) \<noteq> []" for f
    using that p1 p2
    by (auto simp: sample_dates_def mk_definition_def mk_field_def sample_record_def str_field_def
        simp del: ParseDate.simps)
  show ?thesis
    using v c validated_dates_ordered [OF sample_dates_valid v d c p1 p2] by (intro conjI)
qed

text \<open>
  C3. \<open>ValidateRecord\<close> is sound for the declared types: in a record it accepts, every declared
  field is either absent (and then not required) or holds a value of its field type; a
  required string is not blank and a required translated text has some content.
\<close>

theorem validated_record_typed:
  assumes "ValidateRecord cv d data = None" and "f \<in> set (d_fields d)"
  shows "if get_field data (f_name f) = VNil then \<not> f_required f
    else has_shape (f_type f) (get_field data (f_name f)) \<and>
      (f_required f \<longrightarrow> \<not> IsBlankString (get_field data (f_name f)) \<and>
         (f_type f = FieldI18nText \<longrightarrow> i18nTextHasContent (get_field data (f_name f))))"
proof -
  have v: "validate_field cv (d_entity_type d) data f = None"
    using assms by (rule ValidateRecord_fields)
  show ?thesis
    using v validate_field_shape [OF v]
    by (auto simp: validate_field_def Let_def split: if_splits option.splits)
qed

theorem validated_record_typed_witness:
  "ValidateRecord cv_amd64 (mk_definition ''T'' [(mk_field ''n'' FieldBool)\<lparr>f_required := True\<rparr>])
     (fmupd ''n'' (VBool True) fmempty) = None \<and>
   has_shape FieldBool (VBool True)"
proof -
  let ?f = "(mk_field ''n'' FieldBool)\<lparr>f_required := True\<rparr>"
  have v: "ValidateRecord cv_amd64 (mk_definition ''T'' [?f]) (fmupd ''n'' (VBool True) fmempty) = None"
    by (simp add: ValidateRecord_def mk_definition_def mk_field_def validate_field_def
        validateFieldValue_def Let_def)
  show ?thesis
    using v validated_record_typed [OF v, of ?f] by (simp add: mk_definition_def mk_field_def)
qed

text \<open>
  \<open>ApplyDefaults\<close> keeps every present value, fills each absent declared field with its
  default (a value the field accepts, when the definition is valid), touches nothing else,
  and changes nothing when applied again.
\<close>

theorem defaults_fill_absent:
  assumes "Validate cv d = None" and "ApplyDefaults d (Some m) = Some m'"
  shows "(\<forall>n. get_field m n \<noteq> VNil \<longrightarrow> get_field m' n = get_field m n) \<and>
    (\<forall>n. get_field m n = VNil \<longrightarrow> get_field m' n =
       (case FieldByName d n of Some f \<Rightarrow> f_default f | None \<Rightarrow> VNil)) \<and>
    (\<forall>f \<in> set (d_fields d). f_default f \<noteq> VNil \<longrightarrow>
       validateFieldValue cv (d_entity_type d) f (f_default f) = None) \<and>
    (\<forall>n. get_field (the (ApplyDefaults d (Some m'))) n = get_field m' n)"
proof -
  have dist: "distinct (map f_name (d_fields d))" using assms(1) by (rule Validate_distinct)
  have m': "m' = foldl apply_default m (d_fields d)"
    using assms(2) by (simp add: ApplyDefaults_def)
  note gf = get_field_foldl_default [OF dist, folded FieldByName_def]
  show ?thesis
    using Validate_field(3) [OF assms(1)]
    by (auto simp: m' gf ApplyDefaults_def split: option.split)
qed

theorem defaults_fill_absent_witness:
  "let d = mk_definition ''T'' [(mk_field ''a'' FieldBool)\<lparr>f_default := VBool True\<rparr>];
       m = fmempty; m' = fmupd ''a'' (VBool True) fmempty
   in Validate cv_amd64 d = None \<and> ApplyDefaults d (Some m) = Some m' \<and>
     get_field m' ''a'' = (case FieldByName d ''a'' of Some f \<Rightarrow> f_default f | None \<Rightarrow> VNil) \<and>
     get_field m' ''b'' = (case FieldByName d ''b'' of Some f \<Rightarrow> f_default f | None \<Rightarrow> VNil)"
proof -
  let ?d = "mk_definition ''T'' [(mk_field ''a'' FieldBool)\<lparr>f_default := VBool True\<rparr>]"
  have v: "Validate cv_amd64 ?d = None"
    by (simp add: Validate_def check_header_def check_label_def check_field_def
        check_must_match_def check_bounds_def check_not_before_def check_cycles_def
        check_status_def mk_definition_def mk_field_def type_valid_def allFieldTypes_def
        HasPrefix_def not_before_map_def validateFieldValue_def Let_def)
  have a: "ApplyDefaults ?d (Some fmempty) = Some (fmupd ''a'' (VBool True) fmempty)"
    by (simp add: ApplyDefaults_def apply_default_def mk_definition_def mk_field_def get_field_def)
  have n: "get_field fmempty x = VNil" for x by (simp add: get_field_def)
  show ?thesis using v a n defaults_fill_absent [OF v a] unfolding Let_def by blast
qed

end
