(* ===== verification/UniqueKeys.thy ===== *)
theory UniqueKeys
  imports Records EntityRecord
begin

text \<open>
  \<open>internal/kernel/crud/unique_constraints.go\<close>: how a record's values are turned into the
  key rows that make Postgres enforce a definition's unique sets.
\<close>

section \<open>Keys\<close>

definition valueMatches :: "env \<Rightarrow> gval \<Rightarrow> string \<Rightarrow> bool" where
  "valueMatches E a b \<longleftrightarrow> a \<noteq> VNil \<and> sprint E a = b"

definition canonicalSort :: "string list \<Rightarrow> string list" where
  "canonicalSort fs = sort fs"

text \<open>The loop of \<open>uniqueKeyValue\<close>: \<open>None\<close> once a value is absent, nil or blank.\<close>

fun key_values :: "string list \<Rightarrow> fields \<Rightarrow> gval list option" where
  "key_values [] f = Some []"
| "key_values (n # ns) f =
     (let v = get_field f n in
      if v = VNil then None
      else if IsBlankString v then None
      else map_option (\<lambda>vs. v # vs) (key_values ns f))"

definition uniqueKeyValue :: "env \<Rightarrow> string list \<Rightarrow> fields \<Rightarrow> (err, string option) result" where
  "uniqueKeyValue E srt f =
     (case key_values srt f of
        None \<Rightarrow> Inr None
      | Some vs \<Rightarrow> if \<not> list_all json_ok vs then Inl ErrMarshal else Inr (Some (e_digest E vs)))"

definition conditionalKeyValue ::
    "env \<Rightarrow> ConditionalUnique \<Rightarrow> fields \<Rightarrow> (err, string option) result" where
  "conditionalKeyValue E cu f =
     (if \<not> valueMatches E (get_field f (cu_when_field cu)) (cu_when_value cu) then Inr None
      else uniqueKeyValue E (canonicalSort (cu_fields cu)) f)"

text \<open>The conflict of the key table reported as the constraint it stands for.\<close>

definition as_violation :: "string \<Rightarrow> string \<Rightarrow> 'a dbm \<Rightarrow> 'a dbm" where
  "as_violation et cn m =
     catchM m (\<lambda>e. fail (if e = ErrUniqueKeyConflict then ErrUniqueConstraintViolation et cn else e))"

definition writeConstraintKey ::
    "env \<Rightarrow> string \<Rightarrow> string \<Rightarrow> string option \<Rightarrow> string \<Rightarrow> unit dbm" where
  "writeConstraintKey E et cn v rid =
     (case v of
        None \<Rightarrow> ret ()
      | Some v \<Rightarrow> as_violation et cn (InsertTx E et cn v rid))"

definition updateConstraintKey ::
    "env \<Rightarrow> string \<Rightarrow> string \<Rightarrow> string option \<Rightarrow> string \<Rightarrow> unit dbm" where
  "updateConstraintKey E et cn v rid =
     (case v of
        None \<Rightarrow> DeleteForConstraintTx E et cn rid
      | Some v \<Rightarrow>
          bindM (as_violation et cn (UpdateValueTx E et cn v rid)) (\<lambda>n.
            if n = 0 then as_violation et cn (InsertTx E et cn v rid) else ret ()))"

definition with_key :: "(err, string option) result \<Rightarrow> (string option \<Rightarrow> unit dbm) \<Rightarrow> unit dbm" where
  "with_key r f = (case r of Inl e \<Rightarrow> fail e | Inr v \<Rightarrow> f v)"

definition WriteUniqueConstraintKeys :: "env \<Rightarrow> Definition \<Rightarrow> string \<Rightarrow> fields \<Rightarrow> unit dbm" where
  "WriteUniqueConstraintKeys E d rid f =
     thenM
       (forEach (d_unique d) (\<lambda>fs.
          let srt = canonicalSort fs in
          with_key (uniqueKeyValue E srt f) (\<lambda>v.
            writeConstraintKey E (d_entity_type d) (UniqueConstraintName srt) v rid)))
       (forEach (d_unique_when d) (\<lambda>cu.
          with_key (conditionalKeyValue E cu f) (\<lambda>v.
            writeConstraintKey E (d_entity_type d) (ConditionalUniqueConstraintName cu) v rid)))"

definition UpdateUniqueConstraintKeys :: "env \<Rightarrow> Definition \<Rightarrow> string \<Rightarrow> fields \<Rightarrow> unit dbm" where
  "UpdateUniqueConstraintKeys E d rid f =
     thenM
       (forEach (d_unique d) (\<lambda>fs.
          let srt = canonicalSort fs in
          with_key (uniqueKeyValue E srt f) (\<lambda>v.
            updateConstraintKey E (d_entity_type d) (UniqueConstraintName srt) v rid)))
       (forEach (d_unique_when d) (\<lambda>cu.
          with_key (conditionalKeyValue E cu f) (\<lambda>v.
            updateConstraintKey E (d_entity_type d) (ConditionalUniqueConstraintName cu) v rid)))"

definition deleteUniqueConstraintKeys :: "env \<Rightarrow> string \<Rightarrow> unit dbm" where
  "deleteUniqueConstraintKeys E rid = DeleteForRecordTx E rid"

section \<open>What a record demands of the key table\<close>

text \<open>Every constraint's name with the key the record has under it.\<close>

definition constraint_keys ::
    "env \<Rightarrow> Definition \<Rightarrow> fields \<Rightarrow> (string \<times> (err, string option) result) list" where
  "constraint_keys E d f =
     map (\<lambda>s. (UniqueConstraintName s, uniqueKeyValue E (canonicalSort s) f)) (d_unique d) @
     map (\<lambda>cu. (ConditionalUniqueConstraintName cu, conditionalKeyValue E cu f)) (d_unique_when d)"

lemma map_fst_constraint_keys: "map fst (constraint_keys E d f) = constraint_names d"
  by (simp add: constraint_keys_def constraint_names_def comp_def)

lemma UniqueConstraintName_sort [simp]:
  "UniqueConstraintName (canonicalSort s) = UniqueConstraintName s"
  by (rule UniqueConstraintName_perm) (simp add: canonicalSort_def)

lemma forEach_map: "forEach (map g xs) f = forEach xs (\<lambda>x. f (g x))"
  by (induction xs) simp_all

lemma thenM_assoc: "thenM (thenM a b) c = thenM a (thenM b c)"
  by (simp add: thenM_def bindM_def fun_eq_iff split: prod.splits sum.splits)

lemma thenM_ret_left [simp]: "thenM (ret ()) m = m"
  by (simp add: thenM_def)

lemma forEach_append: "forEach (xs @ ys) f = thenM (forEach xs f) (forEach ys f)"
  by (induction xs) (simp_all add: thenM_assoc)

lemma WriteUniqueConstraintKeys_eq:
  "WriteUniqueConstraintKeys E d rid f =
     forEach (constraint_keys E d f) (\<lambda>(cn, r).
       with_key r (\<lambda>v. writeConstraintKey E (d_entity_type d) cn v rid))"
  by (simp add: WriteUniqueConstraintKeys_def constraint_keys_def forEach_append forEach_map)

lemma UpdateUniqueConstraintKeys_eq:
  "UpdateUniqueConstraintKeys E d rid f =
     forEach (constraint_keys E d f) (\<lambda>(cn, r).
       with_key r (\<lambda>v. updateConstraintKey E (d_entity_type d) cn v rid))"
  by (simp add: UpdateUniqueConstraintKeys_def constraint_keys_def forEach_append forEach_map)

text \<open>
  What one step for the constraint \<open>cn\<close> of record \<open>u\<close> does to the key table: rows of other
  constraints and records stay, every new row is the record's own, and a key that applies is
  held by the record afterwards.
\<close>

definition key_step :: "string \<Rightarrow> string \<Rightarrow> string \<Rightarrow> string option \<Rightarrow> db \<Rightarrow> db \<Rightarrow> bool" where
  "key_step et cn u v d d' \<longleftrightarrow>
     d'\<lparr>db_keys := db_keys d\<rparr> = d \<and>
     (\<forall>k \<in> set (db_keys d). \<not> owned et cn u k \<longrightarrow> k \<in> set (db_keys d')) \<and>
     (\<forall>k \<in> set (db_keys d'). k \<in> set (db_keys d) \<or> owned et cn u k) \<and>
     (\<forall>v'. v = Some v' \<longrightarrow> (\<exists>k \<in> set (db_keys d'). key_of k = (et, cn, v') \<and> uk_record k = u))"

lemma as_violation_Inr [simp]: "as_violation et cn m w = (Inr x, w') \<longleftrightarrow> m w = (Inr x, w')"
  by (auto simp: as_violation_def catchM_def split: prod.splits sum.splits)

lemma upd_where_key_step:
  assumes "\<exists>k \<in> set (db_keys d). owned et cn u k"
  shows "key_step et cn u (Some v) d
     (d\<lparr>db_keys := upd_where (owned et cn u) (\<lambda>k. k\<lparr>uk_value := v\<rparr>) (db_keys d)\<rparr>)"
    (is "key_step et cn u (Some v) d (d\<lparr>db_keys := ?new\<rparr>)")
proof -
  from assms obtain k where k: "k \<in> set (db_keys d)" "owned et cn u k" by blast
  then have "k\<lparr>uk_value := v\<rparr> \<in> set ?new" by (force simp: in_upd_where)
  moreover have "key_of (k\<lparr>uk_value := v\<rparr>) = (et, cn, v)" "uk_record (k\<lparr>uk_value := v\<rparr>) = u"
    using k(2) by (simp_all add: owned_def key_of_def)
  ultimately have "\<exists>k \<in> set ?new. key_of k = (et, cn, v) \<and> uk_record k = u" by blast
  moreover have "k \<in> set ?new" if "k \<in> set (db_keys d)" "\<not> owned et cn u k" for k
    using that by (force simp: in_upd_where)
  moreover have "k \<in> set (db_keys d) \<or> owned et cn u k" if "k \<in> set ?new" for k
    using that by (auto simp: in_upd_where owned_def)
  ultimately show ?thesis by (simp add: key_step_def)
qed

lemma InsertTx_key_step:
  assumes "InsertTx E et cn v rid w = (Inr x, w')" and "e_uuid E rid = Some u"
  shows "key_step et cn u (Some v) (w_db w) (w_db w')"
  using assms(1)
proof (cases rule: InsertTx_success)
  case (repointed u')
  then show ?thesis using upd_where_key_step assms(2) by simp
next
  case (present u' k)
  then show ?thesis using assms(2) by (auto simp: key_step_def)
next
  case (added u')
  then show ?thesis using assms(2) by (auto simp: key_step_def owned_def key_of_def)
qed

lemma writeConstraintKey_step:
  assumes "writeConstraintKey E et cn v rid w = (Inr x, w')" and "e_uuid E rid = Some u"
  shows "key_step et cn u v (w_db w) (w_db w')"
  using assms by (cases v) (auto simp: writeConstraintKey_def key_step_def [of _ _ _ None] dest: InsertTx_key_step)

lemma updateConstraintKey_step:
  assumes run: "updateConstraintKey E et cn v rid w = (Inr x, w')" and u: "e_uuid E rid = Some u"
  shows "key_step et cn u v (w_db w) (w_db w')"
proof (cases v)
  case None
  then show ?thesis
    using run u by (auto simp: updateConstraintKey_def DeleteForConstraintTx_def stmt_Inr_iff key_step_def)
next
  case (Some v')
  with run obtain n w1 where upd: "UpdateValueTx E et cn v' rid w = (Inr n, w1)"
    and rest: "(if n = 0 then as_violation et cn (InsertTx E et cn v' rid) else ret ()) w1 = (Inr x, w')"
    by (auto simp: updateConstraintKey_def bindM_Inr_iff)
  from upd u have d1: "w_db w1 = (w_db w)\<lparr>db_keys :=
       upd_where (owned et cn u) (\<lambda>k. k\<lparr>uk_value := v'\<rparr>) (db_keys (w_db w))\<rparr>"
    and n: "n = length (filter (owned et cn u) (db_keys (w_db w)))"
    by (auto elim: UpdateValueTx_success)
  show ?thesis
  proof (cases "n = 0")
    case True
    then have "w_db w1 = w_db w" using d1 n by (simp add: upd_where_none)
    then show ?thesis using InsertTx_key_step [of E et cn v' rid w1 x w' u] rest True u Some by simp
  next
    case False
    then have "\<exists>k \<in> set (db_keys (w_db w)). owned et cn u k"
      using n by (auto simp: filter_empty_conv)
    then show ?thesis using upd_where_key_step rest False d1 Some by auto
  qed
qed

text \<open>The whole loop: afterwards the record holds every key that applies to it.\<close>

definition holds_keys :: "string \<Rightarrow> string \<Rightarrow> (string \<times> (err, string option) result) list \<Rightarrow> db \<Rightarrow> bool" where
  "holds_keys et u cks d \<longleftrightarrow>
     (\<forall>cn v. (cn, Inr (Some v)) \<in> set cks \<longrightarrow>
        (\<exists>k \<in> set (db_keys d). key_of k = (et, cn, v) \<and> uk_record k = u))"

definition own_row :: "string \<Rightarrow> string list \<Rightarrow> string \<Rightarrow> krow \<Rightarrow> bool" where
  "own_row et cns u k \<longleftrightarrow> uk_record k = u \<and> uk_type k = et \<and> uk_name k \<in> set cns"

definition keys_written ::
    "string \<Rightarrow> string \<Rightarrow> (string \<times> (err, string option) result) list \<Rightarrow> db \<Rightarrow> db \<Rightarrow> bool" where
  "keys_written et u cks d d' \<longleftrightarrow>
     d'\<lparr>db_keys := db_keys d\<rparr> = d \<and>
     (\<forall>k \<in> set (db_keys d). \<not> own_row et (map fst cks) u k \<longrightarrow> k \<in> set (db_keys d')) \<and>
     (\<forall>k \<in> set (db_keys d'). k \<in> set (db_keys d) \<or> own_row et (map fst cks) u k) \<and>
     holds_keys et u cks d'"

lemma keys_written_Nil: "keys_written et u [] d d"
  by (simp add: keys_written_def holds_keys_def)

lemma keys_written_Cons:
  assumes s: "key_step et cn u v d d1" and r: "keys_written et u cks d1 d2"
    and new: "cn \<notin> fst ` set cks"
  shows "keys_written et u ((cn, Inr v) # cks) d d2"
  unfolding keys_written_def holds_keys_def
proof (intro conjI allI impI ballI)
  have "d1 = d\<lparr>db_keys := db_keys d1\<rparr>" "d2 = d1\<lparr>db_keys := db_keys d2\<rparr>"
    using s r unfolding key_step_def keys_written_def by (metis db.surjective db.update_convs(2))+
  then have "d2 = d\<lparr>db_keys := db_keys d2\<rparr>" by (metis db.surjective db.update_convs(2))
  then show "d2\<lparr>db_keys := db_keys d\<rparr> = d" by (metis db.surjective db.update_convs(2))
next
  fix k assume "k \<in> set (db_keys d)" "\<not> own_row et (map fst ((cn, Inr v) # cks)) u k"
  then show "k \<in> set (db_keys d2)"
    using s r by (auto simp: key_step_def keys_written_def own_row_def owned_def)
next
  fix k assume "k \<in> set (db_keys d2)"
  then show "k \<in> set (db_keys d) \<or> own_row et (map fst ((cn, Inr v) # cks)) u k"
    using s r by (auto simp: key_step_def keys_written_def own_row_def owned_def)
next
  fix cn' v' assume "(cn', Inr (Some v')) \<in> set ((cn, Inr v) # cks)"
  then consider "cn' = cn" "v = Some v'" | "(cn', Inr (Some v')) \<in> set cks" by auto
  then show "\<exists>k \<in> set (db_keys d2). key_of k = (et, cn', v') \<and> uk_record k = u"
  proof cases
    case 1
    then obtain k where "k \<in> set (db_keys d1)" "key_of k = (et, cn, v')" "uk_record k = u"
      using s by (auto simp: key_step_def)
    moreover have "\<not> own_row et (map fst cks) u k"
      using new calculation by (auto simp: own_row_def key_of_def)
    ultimately show ?thesis using r 1 by (auto simp: keys_written_def)
  next
    case 2
    then show ?thesis using r by (auto simp: keys_written_def holds_keys_def)
  qed
qed

lemma forEach_keys_written:
  assumes step: "\<And>cn v w x w'. f cn v w = (Inr x, w') \<Longrightarrow> key_step et cn u v (w_db w) (w_db w')"
    and "distinct (map fst cks)"
    and "forEach cks (\<lambda>(cn, r). with_key r (f cn)) w = (Inr x, w')"
  shows "keys_written et u cks (w_db w) (w_db w')"
  using assms(2,3)
proof (induction cks arbitrary: w)
  case Nil
  then show ?case by (simp add: keys_written_Nil)
next
  case (Cons c cks)
  obtain cn r where c: "c = (cn, r)" by force
  with Cons.prems obtain v x1 w1 where r: "r = Inr v" and "f cn v w = (Inr x1, w1)"
    and "forEach cks (\<lambda>(cn, r). with_key r (f cn)) w1 = (Inr x, w')"
    by (auto simp: thenM_Inr_iff with_key_def split: sum.splits)
  then show ?case
    using Cons.IH [of w1] Cons.prems(1) c step [of cn v w x1 w1]
    by (auto intro!: keys_written_Cons)
qed

lemma WriteUniqueConstraintKeys_written [go_dest]:
  assumes "WriteUniqueConstraintKeys E d rid f w = (Inr x, w')" and "e_uuid E rid = Some u"
    and "distinct (constraint_names d)"
  shows "keys_written (d_entity_type d) u (constraint_keys E d f) (w_db w) (w_db w')"
  using assms forEach_keys_written [of "\<lambda>cn v. writeConstraintKey E (d_entity_type d) cn v rid"]
  by (simp add: WriteUniqueConstraintKeys_eq map_fst_constraint_keys writeConstraintKey_step)

lemma UpdateUniqueConstraintKeys_written [go_dest]:
  assumes "UpdateUniqueConstraintKeys E d rid f w = (Inr x, w')" and "e_uuid E rid = Some u"
    and "distinct (constraint_names d)"
  shows "keys_written (d_entity_type d) u (constraint_keys E d f) (w_db w) (w_db w')"
  using assms forEach_keys_written [of "\<lambda>cn v. updateConstraintKey E (d_entity_type d) cn v rid"]
  by (simp add: UpdateUniqueConstraintKeys_eq map_fst_constraint_keys updateConstraintKey_step)

section \<open>The key table stays well formed\<close>

lemma keeps_as_violation [keeps_intro]: "keeps I m \<Longrightarrow> keeps I (as_violation et cn m)"
  by (auto simp: keeps_def)

lemma keeps_with_key [keeps_intro]: "(\<And>v. keeps I (f v)) \<Longrightarrow> keeps I (with_key r f)"
  by (auto simp: with_key_def intro: keeps_intro)

lemma unique_keys_wf [keeps_intro]:
  "keeps tables_wf (WriteUniqueConstraintKeys E d rid f)"
  "keeps tables_wf (UpdateUniqueConstraintKeys E d rid f)"
  "keeps tables_wf (deleteUniqueConstraintKeys E rid)"
  unfolding WriteUniqueConstraintKeys_def UpdateUniqueConstraintKeys_def
    deleteUniqueConstraintKeys_def writeConstraintKey_def updateConstraintKey_def Let_def
  by (intro keeps_intro)+

text \<open>The key operations leave the records alone.\<close>

lemma key_ops_records:
  "keeps (\<lambda>D. db_records D = rs) (InsertTx E et cn v rid)"
  "keeps (\<lambda>D. db_records D = rs) (UpdateValueTx E et cn v rid)"
  "keeps (\<lambda>D. db_records D = rs) (DeleteForConstraintTx E et cn rid)"
  by (rule keepsI, erule InsertTx_success, simp_all)
    (rule keepsI, erule UpdateValueTx_success, simp,
     auto simp: keeps_def DeleteForConstraintTx_def stmt_Inr_iff)

lemma update_keys_records: "keeps (\<lambda>D. db_records D = rs) (UpdateUniqueConstraintKeys E d rid f)"
  and write_keys_records: "keeps (\<lambda>D. db_records D = rs) (WriteUniqueConstraintKeys E d rid f)"
  unfolding UpdateUniqueConstraintKeys_def WriteUniqueConstraintKeys_def updateConstraintKey_def
    writeConstraintKey_def Let_def
  by (intro keeps_intro key_ops_records)+

end
