(* ===== verification/TargetConstraints.thy ===== *)
theory TargetConstraints
  imports UniqueKeys
begin

text \<open>
  \<open>internal/kernel/crud/target_constraints.go\<close>: the declarative conditions a reference's
  target has to satisfy when a record is written.
\<close>

section \<open>The check\<close>

text \<open>The regular expression \<open>uuidPattern\<close>: 8-4-4-4-12 hexadecimal digits.\<close>

definition uuid_shape :: "bool list" where
  "uuid_shape =
     replicate 8 False @ [True] @ replicate 4 False @ [True] @ replicate 4 False @ [True] @
     replicate 4 False @ [True] @ replicate 12 False"

definition looksLikeUUID :: "string \<Rightarrow> bool" where
  "looksLikeUUID s \<longleftrightarrow>
     list_all2 (\<lambda>hyphen c. if hyphen then c = CHR ''-'' else isHexDigit c) uuid_shape s"

text \<open>\<open>loadTarget\<close>: a target once found is not read again; one not found is.\<close>

definition loadTarget :: "env \<Rightarrow> Field \<Rightarrow> string \<Rightarrow> Record option \<Rightarrow> Record option dbm" where
  "loadTarget E f tid cached =
     (case cached of
        Some r \<Rightarrow> ret (Some r)
      | None \<Rightarrow>
          if \<not> looksLikeUUID tid then ret None
          else optionalM (GetTx E (f_target f) tid))"

definition join_pairs :: "TargetFilterCondition \<Rightarrow> string \<Rightarrow> equals" where
  "join_pairs c tid = AList.update (tf_field c) (tf_value c) [(tf_entity_field c, tid)]"

definition check_target_condition ::
    "env \<Rightarrow> string \<Rightarrow> Field \<Rightarrow> string \<Rightarrow> Record \<Rightarrow> TargetFilterCondition \<Rightarrow> unit dbm" where
  "check_target_condition E et f tid r c =
     (if tf_entity c = [] then
        (if \<not> valueMatches E (get_field (rec_data r) (tf_field c)) (tf_value c)
         then fail (ErrTargetConstraintViolation et (f_name f) [] Verbatim) else ret ())
      else
        bindM (ExistsByFieldsQ E (tf_entity c) (join_pairs c tid)) (\<lambda>found.
          if \<not> found then fail (ErrTargetConstraintViolation et (f_name f) (tf_entity c) Verbatim)
          else ret ()))"

definition check_target_filter :: "env \<Rightarrow> string \<Rightarrow> Field \<Rightarrow> string \<Rightarrow> Record option dbm" where
  "check_target_filter E et f tid =
     (if f_target_filter f = [] then ret None
      else bindM (loadTarget E f tid None) (\<lambda>t.
        case t of
          None \<Rightarrow> ret None
        | Some r \<Rightarrow>
            thenM (forEach (f_target_filter f) (check_target_condition E et f tid r)) (ret (Some r))))"

definition check_must_match_parent ::
    "env \<Rightarrow> string \<Rightarrow> Field \<Rightarrow> string \<Rightarrow> fields \<Rightarrow> Record option \<Rightarrow> unit dbm" where
  "check_must_match_parent E et f tid flds cached =
     (let mm = f_must_match f; own = str_field flds mm in
      if mm = [] then ret ()
      else if own = [] then ret ()
      else bindM (loadTarget E f tid cached) (\<lambda>t.
        case t of
          None \<Rightarrow> ret ()
        | Some r \<Rightarrow>
            if get_field (rec_data r) mm = VNil then ret ()
            else if \<not> valueMatches E (get_field (rec_data r) mm) own
            then fail (ErrTargetConstraintViolation et (f_name f) [] Verbatim)
            else ret ()))"

definition check_field_target :: "env \<Rightarrow> string \<Rightarrow> fields \<Rightarrow> Field \<Rightarrow> unit dbm" where
  "check_field_target E et flds f =
     (let tid = str_field flds (f_name f) in
      if f_type f \<noteq> FieldReference then ret ()
      else if f_target_filter f = [] \<and> f_must_match f = [] then ret ()
      else if tid = [] then ret ()
      else bindM (check_target_filter E et f tid) (check_must_match_parent E et f tid flds))"

definition checkReferenceTargetConstraints :: "env \<Rightarrow> Definition \<Rightarrow> fields \<Rightarrow> unit dbm" where
  "checkReferenceTargetConstraints E d flds =
     forEach (d_fields d) (check_field_target E (d_entity_type d) flds)"

lemma reads_target_constraints [reads_intro]:
  "reads (checkReferenceTargetConstraints E d flds)"
proof -
  have l: "reads (loadTarget E f tid c)" for f tid c
    unfolding loadTarget_def by (intro reads_intro)
  show ?thesis
    unfolding checkReferenceTargetConstraints_def check_field_target_def check_target_filter_def
      check_must_match_parent_def check_target_condition_def Let_def
    by (intro reads_intro l)
qed

section \<open>What the check establishes\<close>

text \<open>
  The abstract contract of a field's target: when the field names a record that is there, the
  record satisfies every condition, and agrees with the parent field unless it has no value
  for it. A dangling reference is not this check's concern.
\<close>

definition join_holds :: "env \<Rightarrow> db \<Rightarrow> string \<Rightarrow> TargetFilterCondition \<Rightarrow> bool" where
  "join_holds E D tid c \<longleftrightarrow>
     (\<exists>r \<in> set (db_records D). live (tf_entity c) r \<and> (\<forall>p \<in> set (join_pairs c tid). field_is E r p))"

definition condition_holds :: "env \<Rightarrow> db \<Rightarrow> string \<Rightarrow> rrow \<Rightarrow> TargetFilterCondition \<Rightarrow> bool" where
  "condition_holds E D tid r c \<longleftrightarrow>
     (if tf_entity c = [] then valueMatches E (get_field (rr_data r) (tf_field c)) (tf_value c)
      else join_holds E D tid c)"

definition parent_agrees :: "env \<Rightarrow> Field \<Rightarrow> fields \<Rightarrow> rrow \<Rightarrow> bool" where
  "parent_agrees E f flds r \<longleftrightarrow>
     (let mm = f_must_match f; own = str_field flds mm; v = get_field (rr_data r) mm in
      mm = [] \<or> own = [] \<or> v = VNil \<or> valueMatches E v own)"

definition target_ok :: "env \<Rightarrow> db \<Rightarrow> fields \<Rightarrow> Field \<Rightarrow> bool" where
  "target_ok E D flds f \<longleftrightarrow>
     (let tid = str_field flds (f_name f) in
      f_type f = FieldReference \<longrightarrow> tid \<noteq> [] \<longrightarrow> looksLikeUUID tid \<longrightarrow>
      (\<forall>r \<in> set (db_records D). e_uuid E tid = Some (rr_id r) \<longrightarrow> live (f_target f) r \<longrightarrow>
         (\<forall>c \<in> set (f_target_filter f). condition_holds E D tid r c) \<and> parent_agrees E f flds r))"

lemma find_unique_row:
  assumes "records_wf D" "r \<in> set (db_records D)" "P r"
  shows "List.find (\<lambda>x. rr_id x = rr_id r \<and> P x) (db_records D) = Some r"
proof (cases "List.find (\<lambda>x. rr_id x = rr_id r \<and> P x) (db_records D)")
  case None
  then show ?thesis using assms by (auto simp: find_None_iff)
next
  case (Some r')
  then show ?thesis using find_SomeD [OF Some] rr_id_unique [OF assms(1)] assms(2) by blast
qed

lemma GetTx_row:
  assumes "records_wf (w_db w)" "r \<in> set (db_records (w_db w))" "live et r"
    and "e_uuid E rid = Some (rr_id r)" "\<not> faulty w"
  shows "GetTx E et rid w =
     (Inr \<lparr>rec_id = rid, rec_type = et, rec_data = rr_data r, rec_version = rr_version r\<rparr>, sent w)"
proof -
  have "List.find (\<lambda>x. rr_id x = rr_id r \<and> live et x) (db_records (w_db w)) = Some r"
    using assms by (intro find_unique_row)
  then show ?thesis
    using assms(4,5) by (simp add: GetTx_def get_where_def query_def stmt_def uuid_arg_def sent_def)
qed

lemma loadTarget_found:
  assumes wf: "records_wf (w_db w)" and r: "r \<in> set (db_records (w_db w))" "live (f_target f) r"
    and u: "e_uuid E tid = Some (rr_id r)" "looksLikeUUID tid"
    and run: "loadTarget E f tid None w = (Inr t, w')"
  shows "t = Some \<lparr>rec_id = tid, rec_type = f_target f, rec_data = rr_data r, rec_version = rr_version r\<rparr>"
proof (cases "faulty w")
  case True
  then have "GetTx E (f_target f) tid w = (Inl ErrDB, sent w)"
    by (simp add: GetTx_def get_where_def query_def stmt_def)
  then show ?thesis using run u by (auto simp: loadTarget_def optionalM_Inr_iff split: option.splits)
next
  case False
  then show ?thesis
    using run u GetTx_row [OF wf r u(1) False]
    by (auto simp: loadTarget_def optionalM_Inr_iff split: option.splits)
qed

lemma reads_loadTarget [reads_intro]: "reads (loadTarget E f tid c)"
  unfolding loadTarget_def by (intro reads_intro)

lemma reads_check_target_condition [reads_intro]: "reads (check_target_condition E et f tid r c)"
  unfolding check_target_condition_def by (intro reads_intro)

lemma check_target_condition_holds:
  assumes "check_target_condition E et f tid t c w = (Inr x, w')"
    and "rec_data t = rr_data r"
  shows "condition_holds E (w_db w) tid r c"
  using assms
  by (auto simp: check_target_condition_def condition_holds_def join_holds_def ExistsByFieldsQ_def
      run_iffs list_ex_iff list_all_iff split: if_splits)

lemma forEach_reads:
  assumes "\<And>x. reads (f x)" and "forEach xs f w = (Inr y, w')" and "x \<in> set xs"
  shows "\<exists>w1 u w2. w_db w1 = w_db w \<and> f x w1 = (Inr u, w2)"
  using assms(2,3)
proof (induction xs arbitrary: w)
  case (Cons a xs)
  then obtain u w1 where a: "f a w = (Inr u, w1)" and rest: "forEach xs f w1 = (Inr y, w')"
    by (auto simp: thenM_Inr_iff)
  then have "w_db w1 = w_db w" using assms(1) by (blast intro: readsD)
  then show ?case using a rest Cons by (metis set_ConsD)
qed simp

lemma check_must_match_parent_found:
  assumes "check_must_match_parent E et f tid flds (Some t) w = (Inr x, w')"
    and "rec_data t = rr_data r"
  shows "parent_agrees E f flds r"
  using assms
  by (auto simp: check_must_match_parent_def parent_agrees_def loadTarget_def Let_def split: if_splits)

lemma check_must_match_parent_load:
  assumes run: "check_must_match_parent E et f tid flds None w = (Inr x, w')"
    and "records_wf (w_db w)" "r \<in> set (db_records (w_db w))" "live (f_target f) r"
    and "e_uuid E tid = Some (rr_id r)" "looksLikeUUID tid"
  shows "parent_agrees E f flds r"
proof (cases "f_must_match f = [] \<or> str_field flds (f_must_match f) = []")
  case True
  then show ?thesis by (auto simp: parent_agrees_def)
next
  case False
  with run obtain t w1 where "loadTarget E f tid None w = (Inr t, w1)"
    and "(case t of None \<Rightarrow> ret () | Some r \<Rightarrow>
            if get_field (rec_data r) (f_must_match f) = VNil then ret ()
            else if \<not> valueMatches E (get_field (rec_data r) (f_must_match f)) (str_field flds (f_must_match f))
            then fail (ErrTargetConstraintViolation et (f_name f) [] Verbatim)
            else ret ()) w1 = (Inr x, w')"
    by (auto simp: check_must_match_parent_def Let_def bindM_Inr_iff)
  then show ?thesis
    using loadTarget_found [OF assms(2-6)] by (auto simp: parent_agrees_def Let_def split: if_splits)
qed

lemma check_field_target_ok:
  assumes run: "check_field_target E et flds f w = (Inr x, w')" and wf: "records_wf (w_db w)"
  shows "target_ok E (w_db w) flds f"
proof -
  let ?tid = "str_field flds (f_name f)"
  {
    fix r assume f: "f_type f = FieldReference" "?tid \<noteq> []" "looksLikeUUID ?tid"
      and r: "r \<in> set (db_records (w_db w))" "e_uuid E ?tid = Some (rr_id r)" "live (f_target f) r"
    have "(\<forall>c \<in> set (f_target_filter f). condition_holds E (w_db w) ?tid r c) \<and> parent_agrees E f flds r"
    proof (cases "f_target_filter f = []")
      case True
      then show ?thesis
        using run f check_must_match_parent_load [OF _ wf r(1,3,2) f(3)]
        by (cases "f_must_match f = []")
          (auto simp: check_field_target_def check_target_filter_def parent_agrees_def Let_def)
    next
      case False
      with run f obtain c w1 where flt: "check_target_filter E et f ?tid w = (Inr c, w1)"
        and mm: "check_must_match_parent E et f ?tid flds c w1 = (Inr x, w')"
        by (auto simp: check_field_target_def Let_def bindM_Inr_iff)
      from flt False obtain t w2 where ld: "loadTarget E f ?tid None w = (Inr t, w2)"
        and each: "(case t of None \<Rightarrow> ret None | Some r \<Rightarrow>
            thenM (forEach (f_target_filter f) (check_target_condition E et f ?tid r)) (ret (Some r))) w2
          = (Inr c, w1)"
        by (auto simp: check_target_filter_def bindM_Inr_iff)
      define t' where "t' = \<lparr>rec_id = ?tid, rec_type = f_target f, rec_data = rr_data r, rec_version = rr_version r\<rparr>"
      have t: "t = Some t'" and t': "rec_data t' = rr_data r"
        using loadTarget_found [OF wf r(1,3,2) f(3) ld] by (simp_all add: t'_def)
      have d2: "w_db w2 = w_db w" using ld by (rule readsD [OF reads_loadTarget])
      from each t obtain y w3 where fe: "forEach (f_target_filter f) (check_target_condition E et f ?tid t') w2 = (Inr y, w3)"
        and c: "c = Some t'"
        by (auto simp: thenM_Inr_iff)
      have "condition_holds E (w_db w) ?tid r cd" if "cd \<in> set (f_target_filter f)" for cd
        using forEach_reads [OF reads_check_target_condition fe that] d2 t'
          check_target_condition_holds by metis
      moreover have "parent_agrees E f flds r"
        using mm t' unfolding c by (rule check_must_match_parent_found)
      ultimately show ?thesis by blast
    qed
  }
  then show ?thesis by (auto simp: target_ok_def Let_def)
qed

lemma checkReferenceTargetConstraints_ok [go_dest]:
  assumes "checkReferenceTargetConstraints E d flds w = (Inr x, w')" and "records_wf (w_db w)"
    and "f \<in> set (d_fields d)"
  shows "target_ok E (w_db w) flds f"
proof -
  have "reads (check_field_target E (d_entity_type d) flds f)" for f
    unfolding check_field_target_def check_target_filter_def check_must_match_parent_def Let_def
    by (intro reads_intro)
  then obtain w1 u w2 where "w_db w1 = w_db w"
    "check_field_target E (d_entity_type d) flds f w1 = (Inr u, w2)"
    using forEach_reads assms(1,3) unfolding checkReferenceTargetConstraints_def by metis
  then show ?thesis using check_field_target_ok assms(2) by metis
qed

end
