(* ===== verification/Crud.thy ===== *)
theory Crud
  imports TargetConstraints
begin

text \<open>
  The generic engine of \<open>internal/kernel/crud/crud.go\<close>: create, update and delete of a record
  against the definition of its entity type, each one transaction with its unique keys, its
  audit entry and the hook registered for the type.
\<close>

section \<open>Hooks\<close>

type_synonym hook = "Definition \<Rightarrow> Record \<Rightarrow> Action \<Rightarrow> Actor \<Rightarrow> unit dbm"

type_synonym hooks = "string \<rightharpoonup> hook"

definition SetHook :: "hooks \<Rightarrow> string \<Rightarrow> hook \<Rightarrow> hooks" where
  "SetHook hooks et h = hooks(et \<mapsto> h)"

definition runHook :: "hooks \<Rightarrow> hook" where
  "runHook hooks d r act actor =
     (case hooks (d_entity_type d) of None \<Rightarrow> ret () | Some h \<Rightarrow> h d r act actor)"

section \<open>Operations\<close>

definition validation :: "env \<Rightarrow> Definition \<Rightarrow> fields \<Rightarrow> unit dbm" where
  "validation E d flds = guardM (map_option ErrValidation (ValidateRecord (e_cv E) d flds))"

text \<open>The fields \<open>Create\<close> works with: never nil, the absent ones at their defaults.\<close>

definition create_fields :: "Definition \<Rightarrow> fields option \<Rightarrow> fields" where
  "create_fields d flds =
     the (ApplyDefaults d (Some (case flds of None \<Rightarrow> fmempty | Some m \<Rightarrow> m)))"

definition create_body :: "env \<Rightarrow> hooks \<Rightarrow> Definition \<Rightarrow> fields \<Rightarrow> Actor \<Rightarrow> Record dbm" where
  "create_body E hooks d flds actor =
     thenM (checkReferenceTargetConstraints E d flds)
     (bindM (CreateTx (d_entity_type d) flds) (\<lambda>r.
      thenM (WriteUniqueConstraintKeys E d (rec_id r) flds)
     (thenM (write_audit E (d_entity_type d) (rec_id r) ActionCreate actor (Some flds))
     (thenM (runHook hooks d r ActionCreate actor)
      (ret r)))))"

definition Create :: "env \<Rightarrow> hooks \<Rightarrow> Definition \<Rightarrow> fields option \<Rightarrow> Actor \<Rightarrow> Record dbm" where
  "Create E hooks d flds actor =
     (let flds = create_fields d flds in
      thenM (validation E d flds) (in_tx (create_body E hooks d flds actor)))"

definition selfReferenceFields :: "Definition \<Rightarrow> Field list" where
  "selfReferenceFields d =
     filter (\<lambda>f. f_type f = FieldReference \<and> f_target f = d_entity_type d) (d_fields d)"

definition maxReferenceChainWalk :: nat where
  "maxReferenceChainWalk = 10000"

text \<open>The loop of \<open>checkSelfReferenceCycle\<close>, with the hops left and the ids visited.\<close>

fun walk_chain :: "env \<Rightarrow> string \<Rightarrow> string \<Rightarrow> string \<Rightarrow> nat \<Rightarrow> string list \<Rightarrow> string \<Rightarrow> unit dbm" where
  "walk_chain E et rid fname 0 visited cur = fail (ErrReferenceCycle et fname)"
| "walk_chain E et rid fname (Suc n) visited cur =
     (if cur = rid then fail (ErrReferenceCycle et fname)
      else if cur \<in> set visited then ret ()
      else bindM (optionalM (GetTxIncludingDeleted E et cur)) (\<lambda>t.
        case t of
          None \<Rightarrow> ret ()
        | Some r \<Rightarrow>
            let nxt = str_field (rec_data r) fname in
            if nxt = [] then ret ()
            else case Canonical nxt of
              None \<Rightarrow> ret ()
            | Some c \<Rightarrow> walk_chain E et rid fname n (cur # visited) c))"

definition checkSelfReferenceCycle ::
    "env \<Rightarrow> string \<Rightarrow> string \<Rightarrow> string \<Rightarrow> string \<Rightarrow> unit dbm" where
  "checkSelfReferenceCycle E et rid fname new_parent =
     walk_chain E et rid fname maxReferenceChainWalk [] new_parent"

definition canonical_or_self :: "string \<Rightarrow> string" where
  "canonical_or_self s = (case Canonical s of None \<Rightarrow> s | Some c \<Rightarrow> c)"

definition check_self_reference :: "env \<Rightarrow> Definition \<Rightarrow> string \<Rightarrow> fields \<Rightarrow> Field \<Rightarrow> unit dbm" where
  "check_self_reference E d rid flds f =
     (let p = str_field flds (f_name f) in
      if p = [] then ret ()
      else case Canonical p of
        None \<Rightarrow> ret ()
      | Some cp \<Rightarrow>
          if cp = canonical_or_self rid then fail (ErrReferenceCycle (d_entity_type d) (f_name f))
          else checkSelfReferenceCycle E (d_entity_type d) (canonical_or_self rid) (f_name f) cp)"

definition LockSelfReferenceChainTx :: "string \<Rightarrow> unit dbm" where
  "LockSelfReferenceChainTx et = query (\<lambda>_. Inr ())"

definition check_self_references :: "env \<Rightarrow> Definition \<Rightarrow> string \<Rightarrow> fields \<Rightarrow> unit dbm" where
  "check_self_references E d rid flds =
     thenM
       (if selfReferenceFields d \<noteq> [] then LockSelfReferenceChainTx (d_entity_type d) else ret ())
       (forEach (selfReferenceFields d) (check_self_reference E d rid flds))"

text \<open>The version to answer: read again when a hook may have written the record.\<close>

definition final_version :: "env \<Rightarrow> hooks \<Rightarrow> Definition \<Rightarrow> string \<Rightarrow> int \<Rightarrow> int dbm" where
  "final_version E hooks d rid v =
     (if hooks (d_entity_type d) \<noteq> None
      then bindM (GetTx E (d_entity_type d) rid) (\<lambda>r. ret (rec_version r))
      else ret v)"

definition update_body ::
    "env \<Rightarrow> hooks \<Rightarrow> Definition \<Rightarrow> string \<Rightarrow> fields \<Rightarrow> int option \<Rightarrow> Actor \<Rightarrow> int dbm" where
  "update_body E hooks d rid flds ev actor =
     thenM (check_self_references E d rid flds)
     (thenM (checkReferenceTargetConstraints E d flds)
     (bindM (UpdateTx E (d_entity_type d) rid flds ev) (\<lambda>v.
      thenM (UpdateUniqueConstraintKeys E d rid flds)
     (thenM (write_audit E (d_entity_type d) rid ActionUpdate actor (Some flds))
     (thenM (runHook hooks d
              \<lparr>rec_id = rid, rec_type = d_entity_type d, rec_data = flds, rec_version = v\<rparr>
              ActionUpdate actor)
      (final_version E hooks d rid v))))))"

definition Update ::
    "env \<Rightarrow> hooks \<Rightarrow> Definition \<Rightarrow> string \<Rightarrow> fields \<Rightarrow> int option \<Rightarrow> Actor \<Rightarrow> int dbm" where
  "Update E hooks d rid flds ev actor =
     thenM (validation E d flds) (in_tx (update_body E hooks d rid flds ev actor))"

definition delete_body :: "env \<Rightarrow> Definition \<Rightarrow> string \<Rightarrow> Actor \<Rightarrow> unit dbm" where
  "delete_body E d rid actor =
     thenM (DeleteTx E (d_entity_type d) rid)
     (thenM (deleteUniqueConstraintKeys E rid)
      (write_audit E (d_entity_type d) rid ActionDelete actor None))"

definition Delete :: "env \<Rightarrow> Definition \<Rightarrow> string \<Rightarrow> Actor \<Rightarrow> unit dbm" where
  "Delete E d rid actor = in_tx (delete_body E d rid actor)"

section \<open>Atomicity\<close>

lemma thenM_guard_error:
  assumes "thenM (guardM c) m w = (Inl e, w')" and "\<And>w'. m w = (Inl e, w') \<Longrightarrow> w_db w' = w_db w"
  shows "w_db w' = w_db w"
  using assms by (cases c) (auto simp: thenM_def guardM_def)

lemma Create_error [go_frame]: "Create E hooks d flds actor w = (Inl e, w') \<Longrightarrow> w_db w' = w_db w"
  unfolding Create_def Let_def validation_def by (erule thenM_guard_error) (rule in_tx_error)

lemma Update_error [go_frame]:
  "Update E hooks d rid flds ev actor w = (Inl e, w') \<Longrightarrow> w_db w' = w_db w"
  unfolding Update_def validation_def by (erule thenM_guard_error) (rule in_tx_error)

lemma Delete_error [go_frame]: "Delete E d rid actor w = (Inl e, w') \<Longrightarrow> w_db w' = w_db w"
  unfolding Delete_def by (rule in_tx_error)

section \<open>What a successful call went through\<close>

lemma create_fields_total: "ApplyDefaults d (Some m) = Some (create_fields d (Some m))"
  by (simp add: create_fields_def ApplyDefaults_def)

lemma Create_success:
  assumes "Create E hooks d flds actor w = (Inr r, w')"
  obtains w1 w2 w3 w4 w5 x where
    "ValidateRecord (e_cv E) d (create_fields d flds) = None"
    "w_db w1 = w_db w" "w_newid w1 = w_newid w"
    "checkReferenceTargetConstraints E d (create_fields d flds) w1 = (Inr (), w2)"
    "CreateTx (d_entity_type d) (create_fields d flds) w2 = (Inr r, w3)"
    "WriteUniqueConstraintKeys E d (rec_id r) (create_fields d flds) w3 = (Inr (), w4)"
    "write_audit E (d_entity_type d) (rec_id r) ActionCreate actor (Some (create_fields d flds)) w4
       = (Inr (), w5)"
    "runHook hooks d r ActionCreate actor w5 = (Inr (), x)" "w_db w' = w_db x"
proof -
  from assms have v: "ValidateRecord (e_cv E) d (create_fields d flds) = None"
    and tx: "in_tx (create_body E hooks d (create_fields d flds) actor) w = (Inr r, w')"
    by (auto simp: Create_def validation_def Let_def thenM_Inr_iff)
  from tx obtain w1 w2 where "w_db w1 = w_db w" "w_newid w1 = w_newid w"
    "create_body E hooks d (create_fields d flds) actor w1 = (Inr r, w2)" "w_db w' = w_db w2"
    by (rule in_tx_success)
  with v show thesis
    by (auto simp: create_body_def thenM_Inr_iff bindM_Inr_iff intro: that)
qed

lemma Update_success:
  assumes "Update E hooks d rid flds ev actor w = (Inr v, w')"
  obtains w1 w2 w3 w4 w5 w6 w7 v0 where
    "ValidateRecord (e_cv E) d flds = None" "w_db w1 = w_db w"
    "check_self_references E d rid flds w1 = (Inr (), w2)"
    "checkReferenceTargetConstraints E d flds w2 = (Inr (), w3)"
    "UpdateTx E (d_entity_type d) rid flds ev w3 = (Inr v0, w4)"
    "UpdateUniqueConstraintKeys E d rid flds w4 = (Inr (), w5)"
    "write_audit E (d_entity_type d) rid ActionUpdate actor (Some flds) w5 = (Inr (), w6)"
    "runHook hooks d \<lparr>rec_id = rid, rec_type = d_entity_type d, rec_data = flds, rec_version = v0\<rparr>
       ActionUpdate actor w6 = (Inr (), w7)"
    "hooks (d_entity_type d) = None \<Longrightarrow> v = v0" "w_db w' = w_db w7"
proof -
  from assms have v: "ValidateRecord (e_cv E) d flds = None"
    and tx: "in_tx (update_body E hooks d rid flds ev actor) w = (Inr v, w')"
    by (auto simp: Update_def validation_def thenM_Inr_iff)
  from tx obtain w1 w2 where w1: "w_db w1 = w_db w"
    "update_body E hooks d rid flds ev actor w1 = (Inr v, w2)" and w2: "w_db w' = w_db w2"
    by (rule in_tx_success)
  have fv: "reads (final_version E hooks d rid v0)" for v0
    unfolding final_version_def by (intro reads_intro)
  from w1(2) obtain a b c x e f v0 where steps:
    "check_self_references E d rid flds w1 = (Inr (), a)"
    "checkReferenceTargetConstraints E d flds a = (Inr (), b)"
    "UpdateTx E (d_entity_type d) rid flds ev b = (Inr v0, c)"
    "UpdateUniqueConstraintKeys E d rid flds c = (Inr (), x)"
    "write_audit E (d_entity_type d) rid ActionUpdate actor (Some flds) x = (Inr (), e)"
    "runHook hooks d \<lparr>rec_id = rid, rec_type = d_entity_type d, rec_data = flds, rec_version = v0\<rparr>
       ActionUpdate actor e = (Inr (), f)"
    and last: "final_version E hooks d rid v0 f = (Inr v, w2)"
    by (auto simp: update_body_def thenM_Inr_iff bindM_Inr_iff)
  have "w_db w2 = w_db f" using fv last by (rule readsD)
  moreover have "v = v0" if "hooks (d_entity_type d) = None"
    using last that by (simp add: final_version_def)
  ultimately show thesis using that [OF v w1(1) steps] w2 by simp
qed

lemma Delete_success:
  assumes "Delete E d rid actor w = (Inr u, w')"
  obtains w1 w2 w3 w4 where "w_db w1 = w_db w"
    "DeleteTx E (d_entity_type d) rid w1 = (Inr (), w2)"
    "deleteUniqueConstraintKeys E rid w2 = (Inr (), w3)"
    "write_audit E (d_entity_type d) rid ActionDelete actor None w3 = (Inr (), w4)"
    "w_db w' = w_db w4"
proof -
  from assms obtain w1 w2 where "w_db w1 = w_db w" "delete_body E d rid actor w1 = (Inr u, w2)"
    "w_db w' = w_db w2"
    unfolding Delete_def by (rule in_tx_success)
  then show thesis by (auto simp: delete_body_def thenM_Inr_iff intro: that)
qed

section \<open>The tables stay well formed\<close>

lemma reads_walk_chain [reads_intro]: "reads (walk_chain E et rid fname n visited cur)"
proof (induction n arbitrary: visited cur)
  case 0
  then show ?case by (simp add: reads_fail)
next
  case (Suc n)
  then show ?case by (auto simp: Let_def intro!: reads_intro)
qed

lemma reads_check_self_references [reads_intro]: "reads (check_self_references E d rid flds)"
  unfolding check_self_references_def check_self_reference_def LockSelfReferenceChainTx_def
    checkSelfReferenceCycle_def Let_def
  by (intro reads_intro)

definition hooks_keep :: "(db \<Rightarrow> bool) \<Rightarrow> hooks \<Rightarrow> bool" where
  "hooks_keep I hooks \<longleftrightarrow> (\<forall>et h d r act actor. hooks et = Some h \<longrightarrow> keeps I (h d r act actor))"

lemma hooks_keep_empty [simp]: "hooks_keep I Map.empty"
  by (simp add: hooks_keep_def)

lemma runHook_keeps [keeps_intro]: "hooks_keep I hooks \<Longrightarrow> keeps I (runHook hooks d r act actor)"
  by (auto simp: runHook_def hooks_keep_def intro: keeps_intro split: option.split)

lemma keeps_checks [keeps_intro]:
  "keeps I (checkReferenceTargetConstraints E d flds)" "keeps I (check_self_references E d rid flds)"
  "keeps I (final_version E hooks d rid v)" "keeps I (validation E d flds)"
  unfolding final_version_def validation_def
  by (rule reads_keeps, intro reads_intro)+

lemma Create_wf [keeps_intro]:
  assumes "hooks_keep tables_wf hooks"
  shows "keeps tables_wf (Create E hooks d fo actor)"
  unfolding Create_def create_body_def Let_def by (intro keeps_intro assms)

lemma Update_wf [keeps_intro]:
  assumes "hooks_keep tables_wf hooks"
  shows "keeps tables_wf (Update E hooks d rid flds ev actor)"
  unfolding Update_def update_body_def by (intro keeps_intro assms)

lemma Delete_wf [keeps_intro]: "keeps tables_wf (Delete E d rid actor)"
  unfolding Delete_def delete_body_def by (intro keeps_intro)

end
