(* ===== verification/CrudUnique.thy ===== *)
theory CrudUnique
  imports Crud
begin

text \<open>
  The promise of \<open>Definition.Unique\<close>: over any history of engine calls, whatever statements
  fail on the way, no two live records of a type agree on the fields of a unique set.
\<close>

section \<open>Stored documents are JSON\<close>

lemma json_ok_VMap: "json_ok (VMap m) \<longleftrightarrow> (\<forall>k v. fmlookup m k = Some v \<longrightarrow> json_ok v)"
  by (force simp: fmlookup_ran_iff)

lemma json_ok_fields_iff: "json_ok_fields m \<longleftrightarrow> (\<forall>k v. fmlookup m k = Some v \<longrightarrow> json_ok v)"
  by (force simp: json_ok_fields_def fmlookup_ran_iff)

lemma round_half_even_le: "of_int (round_half_even x) \<le> x + 1"
proof -
  have "round_half_even x \<le> \<lfloor>x\<rfloor> + 1" by (simp add: round_half_even_def Let_def)
  then have "(of_int (round_half_even x) :: rat) \<le> of_int (\<lfloor>x\<rfloor> + 1)" by (simp only: of_int_le_iff)
  then show ?thesis using of_int_floor_le [of x] unfolding of_int_add of_int_1 by linarith
qed

text \<open>Every \<open>int64\<close> converts to a finite float.\<close>

lemma of_i64_finite: "\<exists>z. of_i64 n = Fin z"
proof (cases "sint n = 0")
  case True
  then show ?thesis unfolding of_i64_def True by (simp add: rnd64_def)
next
  case False
  define a :: rat where "a = of_int \<bar>sint n\<bar>"
  have "\<bar>sint n\<bar> \<le> 2 ^ 63"
    using sint_range_size [of n] by (simp add: word_size abs_le_iff)
  then have "a \<le> of_int (2 ^ 63)" unfolding a_def by (simp only: of_int_le_iff)
  then have a63: "a \<le> 2 ^ 63" by simp
  have "0 < \<bar>sint n\<bar>" using False by (simp only: zero_less_abs_iff not_False_eq_True)
  then have "0 < a" by (simp only: a_def of_int_0_less_iff)
  have "exp2 a < 64"
  proof (rule ccontr)
    assume "\<not> exp2 a < 64"
    then have "pow2 64 \<le> a" using exp2_bounds [OF \<open>0 < a\<close>] pow2_mono [of 64 "exp2 a"] by simp
    then show False using a63 by (simp add: pow2_def)
  qed
  define k where "k = max (exp2 a - 52) (- 1074)"
  define v where "v = of_int (round_half_even (a / pow2 k)) * pow2 k"
  have "pow2 k \<le> pow2 12" using \<open>exp2 a < 64\<close> by (intro pow2_mono) (simp add: k_def)
  then have k12: "pow2 k \<le> 2 ^ 12" by (simp add: pow2_def)
  have "v \<le> (a / pow2 k + 1) * pow2 k"
    unfolding v_def by (intro mult_right_mono round_half_even_le) (simp add: less_imp_le)
  also have "\<dots> = a + pow2 k" using pow2_pos [of k] by (simp add: distrib_right del: pow2_pos)
  also have "\<dots> \<le> 2 ^ 63 + 2 ^ 12" using a63 k12 by (rule add_mono)
  also have "\<dots> < (2::rat) ^ 1024" by simp
  finally have "\<not> 2 ^ 1024 \<le> v" by simp
  then have "rnd64 (of_int (sint n)) = Fin (sgn (of_int (sint n)) * v)"
    unfolding rnd64_def v_def k_def a_def Let_def of_int_abs using False by (simp only: of_int_eq_0_iff if_False)
  then show ?thesis unfolding of_i64_def by blast
qed

lemma json_ok_of_i64: "json_ok (VNum (of_i64 n))"
  using of_i64_finite [of n] by auto

lemma json_ok_norm: "json_ok v \<Longrightarrow> json_ok (json_norm v)"
proof (induction v)
  case (VMap m)
  have "json_ok (json_norm v)" if "fmlookup m k = Some v" for k v
  proof (rule VMap.IH)
    show "v \<in> fmran' m" using that by (rule fmran'I)
    show "json_ok v" using VMap.prems that unfolding json_ok_VMap by blast
  qed
  then show ?case unfolding json_norm.simps json_ok_VMap by auto
next
  case (VList xs)
  then show ?case by (auto simp: list_all_iff)
next
  case (VInt n)
  show ?case unfolding json_norm.simps by (rule json_ok_of_i64)
next
  case (VInt64 n)
  show ?case unfolding json_norm.simps by (rule json_ok_of_i64)
qed simp_all

lemma json_ok_norm_fields: "json_ok_fields f \<Longrightarrow> json_ok_fields (json_norm_fields f)"
  by (auto simp: json_ok_fields_iff json_ok_norm)

lemma json_ok_get_field: "json_ok_fields f \<Longrightarrow> json_ok (get_field f n)"
  by (auto simp: json_ok_fields_iff get_field_def split: option.split)

section \<open>The invariant\<close>

text \<open>Every live record of the definition's type holds the keys its stored document asks for.\<close>

definition backed :: "env \<Rightarrow> Definition \<Rightarrow> db \<Rightarrow> bool" where
  "backed E d D \<longleftrightarrow>
     (\<forall>r \<in> set (db_records D). live (d_entity_type d) r \<longrightarrow>
        holds_keys (d_entity_type d) (rr_id r) (constraint_keys E d (rr_data r)) D)"

definition docs_ok :: "db \<Rightarrow> bool" where
  "docs_ok D \<longleftrightarrow> (\<forall>r \<in> set (db_records D). json_ok_fields (rr_data r))"

definition schema_inv :: "env \<Rightarrow> Definition set \<Rightarrow> db \<Rightarrow> bool" where
  "schema_inv E S D \<longleftrightarrow> tables_wf D \<and> docs_ok D \<and> (\<forall>d \<in> S. backed E d D)"

text \<open>A schema: valid definitions, one per entity type.\<close>

definition valid_schema :: "env \<Rightarrow> Definition set \<Rightarrow> bool" where
  "valid_schema E S \<longleftrightarrow> (\<forall>d \<in> S. Validate (e_cv E) d = None) \<and> inj_on d_entity_type S"

text \<open>
  The ids the database generates read back as themselves; the documents callers pass are as
  \<open>encoding/json\<close> decodes them (numbers are floats).
\<close>

definition ids_read_back :: "env \<Rightarrow> world \<Rightarrow> bool" where
  "ids_read_back E w \<longleftrightarrow> (\<forall>n. e_uuid E (w_newid w n) = Some (w_newid w n))"

definition decoded :: "fields \<Rightarrow> bool" where
  "decoded f \<longleftrightarrow> json_norm_fields f = f"

lemma backed_audit [simp]: "backed E d (D\<lparr>db_audit := a\<rparr>) \<longleftrightarrow> backed E d D"
  by (simp add: backed_def holds_keys_def)

lemma schema_inv_audit [simp]: "schema_inv E S (D\<lparr>db_audit := a\<rparr>) \<longleftrightarrow> schema_inv E S D"
  by (simp add: schema_inv_def docs_ok_def tables_wf_parts)

lemma holds_keys_mono:
  assumes "holds_keys et u cks D" "\<And>k. k \<in> set (db_keys D) \<Longrightarrow> uk_record k = u \<Longrightarrow> k \<in> set (db_keys D')"
  shows "holds_keys et u cks D'"
  using assms unfolding holds_keys_def by blast

text \<open>
  Writing one record and its keys: every other live record was there before, with the same
  document and keys.
\<close>

lemma write_backed:
  assumes S: "inj_on d_entity_type S" "d \<in> S" "d' \<in> S"
    and pre: "backed E d' D" and keys: "db_keys D1 = db_keys D"
    and rows: "\<And>r. r \<in> set (db_records D1) \<Longrightarrow> \<not> rr_deleted r \<Longrightarrow>
      r \<in> set (db_records D) \<and> rr_id r \<noteq> u \<or> rr_id r = u \<and> rr_type r = d_entity_type d \<and> rr_data r = f"
    and wr: "keys_written (d_entity_type d) u (constraint_keys E d f) D1 D2"
  shows "backed E d' D2"
  unfolding backed_def
proof (intro ballI impI)
  fix r assume r: "r \<in> set (db_records D2)" "live (d_entity_type d') r"
  have "db_records D2 = db_records D1"
    using wr unfolding keys_written_def by (metis db.select_convs(1) db.surjective db.update_convs(2))
  then consider (old) "r \<in> set (db_records D)" "rr_id r \<noteq> u"
    | (new) "rr_id r = u" "rr_type r = d_entity_type d" "rr_data r = f"
    using rows [of r] r by (auto simp: live_def)
  then show "holds_keys (d_entity_type d') (rr_id r) (constraint_keys E d' (rr_data r)) D2"
  proof cases
    case old
    then have "holds_keys (d_entity_type d') (rr_id r) (constraint_keys E d' (rr_data r)) D"
      using pre r(2) by (simp add: backed_def)
    then show ?thesis
      by (rule holds_keys_mono) (use wr keys old(2) in \<open>auto simp: keys_written_def own_row_def\<close>)
  next
    case new
    then have "d' = d" using S r(2) by (auto simp: live_def inj_on_def)
    then show ?thesis using wr new by (simp add: keys_written_def)
  qed
qed

lemma keys_written_docs: "keys_written et u cks D D' \<Longrightarrow> docs_ok D \<Longrightarrow> docs_ok D'"
  unfolding keys_written_def docs_ok_def by (metis db.select_convs(1) db.surjective db.update_convs(2))

section \<open>Every engine call keeps it\<close>

lemma Create_inv:
  assumes S: "valid_schema E S" "d \<in> S" and hooks: "hooks_keep (schema_inv E S) hooks"
    and ids: "ids_read_back E w" and dec: "decoded (create_fields d fo)"
    and inv: "schema_inv E S (w_db w)" and run: "Create E hooks d fo actor w = (Inr r, w')"
  shows "schema_inv E S (w_db w')"
  using run
proof (cases rule: Create_success)
  case (1 w1 w2 w3 w4 w5 x)
  let ?f = "create_fields d fo"
  have w2: "w_db w2 = w_db w" using 1(2,4) reads_target_constraints by (metis readsD)
  have c: "rec_id r \<notin> rr_id ` set (db_records (w_db w))" "json_ok_fields ?f"
    "w_db w3 = (w_db w)\<lparr>db_records := db_records (w_db w) @
       [\<lparr>rr_id = rec_id r, rr_type = d_entity_type d, rr_data = ?f, rr_version = 1,
         rr_created = w_now w2, rr_deleted = False\<rparr>]\<rparr>"
    using 1(5) dec w2 by (auto elim!: CreateTx_success simp: decoded_def)
  have "w_newid w2 = w_newid w" using 1(3,4) reads_target_constraints by (metis reads_newid)
  then have id: "e_uuid E (rec_id r) = Some (rec_id r)"
    using 1(5) ids by (auto elim!: CreateTx_success simp: ids_read_back_def)
  have dist: "distinct (constraint_names d)"
    using S by (auto simp: valid_schema_def intro: Validate_constraint_names)
  have wr: "keys_written (d_entity_type d) (rec_id r) (constraint_keys E d ?f) (w_db w3) (w_db w4)"
    using 1(6) id dist by (rule WriteUniqueConstraintKeys_written)
  have "backed E d' (w_db w4)" if "d' \<in> S" for d'
  proof (rule write_backed [OF _ S(2) that _ _ _ wr])
    show "inj_on d_entity_type S" using S by (simp add: valid_schema_def)
    show "backed E d' (w_db w)" using inv that by (simp add: schema_inv_def)
    show "db_keys (w_db w3) = db_keys (w_db w)" by (simp add: c(3))
    show "r' \<in> set (db_records (w_db w)) \<and> rr_id r' \<noteq> rec_id r \<or>
       rr_id r' = rec_id r \<and> rr_type r' = d_entity_type d \<and> rr_data r' = ?f"
      if "r' \<in> set (db_records (w_db w3))" for r'
      using that c(1) by (auto simp: c(3)) (metis imageI)+
  qed
  moreover have "docs_ok (w_db w4)"
    by (rule keys_written_docs [OF wr]) (use inv c in \<open>auto simp: schema_inv_def docs_ok_def\<close>)
  moreover have "tables_wf (w_db w4)"
    using keepsD [OF CreateTx_wf 1(5)] keepsD [OF unique_keys_wf(1) 1(6)] inv w2
    by (simp add: schema_inv_def)
  ultimately have "schema_inv E S (w_db w4)" by (simp add: schema_inv_def)
  moreover have "w_db w5 = (w_db w4)\<lparr>db_audit := db_audit (w_db w5)\<rparr>"
    using 1(7) by (rule write_audit_success) simp
  ultimately have "schema_inv E S (w_db w5)" by (metis schema_inv_audit)
  then show ?thesis using keepsD [OF runHook_keeps [OF hooks] 1(8)] 1(9) by simp
qed

lemma Update_inv:
  assumes S: "valid_schema E S" "d \<in> S" and hooks: "hooks_keep (schema_inv E S) hooks"
    and dec: "decoded f"
    and inv: "schema_inv E S (w_db w)" and run: "Update E hooks d rid f ev actor w = (Inr v, w')"
  shows "schema_inv E S (w_db w')"
  using run
proof (cases rule: Update_success)
  case (1 w1 w2 w3 w4 w5 w6 w7 v0)
  let ?et = "d_entity_type d"
  have w3: "w_db w3 = w_db w"
    using 1(2-4) reads_target_constraints reads_check_self_references by (metis readsD)
  obtain u row where u: "json_ok_fields f" "e_uuid E rid = Some u"
    "row \<in> set (db_records (w_db w))" "update_hits ?et u ev row"
    and w4: "w_db w4 = (w_db w)\<lparr>db_records :=
       upd_where (update_hits ?et u ev) (update_row f) (db_records (w_db w))\<rparr>"
    using 1(5) by (rule UpdateTx_success) (simp add: w3)
  have wf: "records_wf (w_db w)" using inv by (simp add: schema_inv_def tables_wf_def)
  have dist: "distinct (constraint_names d)"
    using S by (auto simp: valid_schema_def intro: Validate_constraint_names)
  have wr: "keys_written ?et u (constraint_keys E d f) (w_db w4) (w_db w5)"
    using 1(6) u(2) dist by (rule UpdateUniqueConstraintKeys_written)
  have "backed E d' (w_db w5)" if "d' \<in> S" for d'
  proof (rule write_backed [OF _ S(2) that _ _ _ wr])
    show "inj_on d_entity_type S" using S by (simp add: valid_schema_def)
    show "backed E d' (w_db w)" using inv that by (simp add: schema_inv_def)
    show "db_keys (w_db w4) = db_keys (w_db w)" by (simp add: w4)
    show "r \<in> set (db_records (w_db w)) \<and> rr_id r \<noteq> u \<or>
       rr_id r = u \<and> rr_type r = ?et \<and> rr_data r = f"
      if r: "r \<in> set (db_records (w_db w4))" for r
    proof -
      obtain r0 where r0: "r0 \<in> set (db_records (w_db w))"
        "r = (if update_hits ?et u ev r0 then update_row f r0 else r0)"
        using r by (auto simp: w4 in_upd_where)
      show ?thesis
      proof (cases "update_hits ?et u ev r0")
        case True
        then show ?thesis using r0 dec by (simp add: update_hits_def live_def decoded_def)
      next
        case False
        then have "r0 \<noteq> row" using u(4) by auto
        then have "rr_id r0 \<noteq> u"
          using rr_id_unique [OF wf r0(1) u(3)] u(4) by (auto simp: update_hits_def)
        then show ?thesis using False r0 by simp
      qed
    qed
  qed
  moreover have "docs_ok (w_db w5)"
    by (rule keys_written_docs [OF wr])
      (use inv u in \<open>auto simp: schema_inv_def docs_ok_def w4 in_upd_where json_ok_norm_fields\<close>)
  moreover have "tables_wf (w_db w5)"
    using keepsD [OF UpdateTx_wf 1(5)] keepsD [OF unique_keys_wf(2) 1(6)] inv w3
    by (simp add: schema_inv_def)
  ultimately have "schema_inv E S (w_db w5)" by (simp add: schema_inv_def)
  moreover have "w_db w6 = (w_db w5)\<lparr>db_audit := db_audit (w_db w6)\<rparr>"
    using 1(7) by (rule write_audit_success) simp
  ultimately have "schema_inv E S (w_db w6)" by (metis schema_inv_audit)
  then show ?thesis using keepsD [OF runHook_keeps [OF hooks] 1(8)] 1(10) by simp
qed

lemma Delete_inv:
  assumes inv: "schema_inv E S (w_db w)" and run: "Delete E d rid actor w = (Inr x, w')"
  shows "schema_inv E S (w_db w')"
proof -
  have "tables_wf (w_db w')"
    using keepsD [OF Delete_wf run] inv by (simp add: schema_inv_def)
  moreover from run obtain w1 w2 w3 w4 where w1: "w_db w1 = w_db w"
    and del: "DeleteTx E (d_entity_type d) rid w1 = (Inr (), w2)"
    and keys: "deleteUniqueConstraintKeys E rid w2 = (Inr (), w3)"
    and aud: "write_audit E (d_entity_type d) rid ActionDelete actor None w3 = (Inr (), w4)"
    and w': "w_db w' = w_db w4"
    by (rule Delete_success)
  from del obtain u row where u: "e_uuid E rid = Some u" "row \<in> set (db_records (w_db w))"
    "rr_id row = u" "live (d_entity_type d) row"
    and w2: "w_db w2 = (w_db w)\<lparr>db_records :=
       upd_where (\<lambda>r. rr_id r = u \<and> live (d_entity_type d) r) (\<lambda>r. r\<lparr>rr_deleted := True\<rparr>)
         (db_records (w_db w))\<rparr>"
    by (rule DeleteTx_success) (simp add: w1)
  have w3: "w_db w3 = (w_db w2)\<lparr>db_keys := filter (\<lambda>k. uk_record k \<noteq> u) (db_keys (w_db w2))\<rparr>"
    using keys u(1) by (auto simp: deleteUniqueConstraintKeys_def DeleteForRecordTx_def stmt_Inr_iff)
  have w4: "db_records (w_db w4) = db_records (w_db w3)" "db_keys (w_db w4) = db_keys (w_db w3)"
    using aud by (auto elim!: write_audit_success)
  have wf: "records_wf (w_db w)" using inv by (simp add: schema_inv_def tables_wf_def)
  have kept: "r \<in> set (db_records (w_db w)) \<and> rr_id r \<noteq> u"
    if r: "r \<in> set (db_records (w_db w'))" "\<not> rr_deleted r" for r
  proof -
    from r(1) obtain r0 where r0: "r0 \<in> set (db_records (w_db w))"
      "r = (if rr_id r0 = u \<and> live (d_entity_type d) r0 then r0\<lparr>rr_deleted := True\<rparr> else r0)"
      by (auto simp: w' w4 w3 w2 in_upd_where)
    then have "\<not> (rr_id r0 = u \<and> live (d_entity_type d) r0)" using r(2) by auto
    moreover from this have "r = r0" using r0(2) by (auto split: if_splits)
    ultimately show ?thesis using r0(1) rr_id_unique [OF wf r0(1) u(2)] u(3,4) by auto
  qed
  have "docs_ok (w_db w')"
    using inv by (auto simp: schema_inv_def docs_ok_def w' w4 w3 w2 in_upd_where)
  moreover have "backed E d' (w_db w')" if "d' \<in> S" for d'
    unfolding backed_def
  proof (intro ballI impI)
    fix r assume r: "r \<in> set (db_records (w_db w'))" "live (d_entity_type d') r"
    then have r0: "r \<in> set (db_records (w_db w))" "rr_id r \<noteq> u" using kept by (auto simp: live_def)
    then have "holds_keys (d_entity_type d') (rr_id r) (constraint_keys E d' (rr_data r)) (w_db w)"
      using inv that r(2) by (auto simp: schema_inv_def backed_def)
    then show "holds_keys (d_entity_type d') (rr_id r) (constraint_keys E d' (rr_data r)) (w_db w')"
      by (rule holds_keys_mono) (use r0(2) in \<open>simp add: w' w4 w3 w2\<close>)
  qed
  ultimately show ?thesis by (simp add: schema_inv_def)
qed

section \<open>Histories of engine calls\<close>

text \<open>
  One call of the engine on a definition of the schema, in any world (any ids, any failing
  statements), successful or not.
\<close>

inductive engine_step :: "env \<Rightarrow> Definition set \<Rightarrow> hooks \<Rightarrow> db \<Rightarrow> db \<Rightarrow> bool"
  for E :: env and S :: "Definition set" and hooks :: hooks where
  step_create: "d \<in> S \<Longrightarrow> ids_read_back E w \<Longrightarrow> decoded (create_fields d fo) \<Longrightarrow>
    Create E hooks d fo actor w = (res, w') \<Longrightarrow> engine_step E S hooks (w_db w) (w_db w')"
| step_update: "d \<in> S \<Longrightarrow> decoded f \<Longrightarrow>
    Update E hooks d rid f ev actor w = (resv, w') \<Longrightarrow> engine_step E S hooks (w_db w) (w_db w')"
| step_delete: "d \<in> S \<Longrightarrow>
    Delete E d rid actor w = (resu, w') \<Longrightarrow> engine_step E S hooks (w_db w) (w_db w')"

inductive_cases engine_stepE: "engine_step E S hooks D D'"

lemma engine_step_inv:
  assumes "engine_step E S hooks D D'" "valid_schema E S" "hooks_keep (schema_inv E S) hooks"
    and "schema_inv E S D"
  shows "schema_inv E S D'"
  using assms(1)
proof cases
  case (step_create d w fo actor res w')
  then show ?thesis using assms Create_inv Create_error by (cases res) metis+
next
  case (step_update d f rid ev actor w resv w')
  then show ?thesis using assms Update_inv Update_error by (cases resv) metis+
next
  case (step_delete d rid actor w resu w')
  then show ?thesis using assms Delete_inv Delete_error by (cases resu) metis+
qed

lemma engine_history_inv:
  assumes "(engine_step E S hooks)\<^sup>*\<^sup>* D D'" "valid_schema E S" "hooks_keep (schema_inv E S) hooks"
    and "schema_inv E S D"
  shows "schema_inv E S D'"
  using assms(1)
proof induction
  case base
  show ?case by (rule assms(4))
next
  case (step D1 D2)
  then show ?case using engine_step_inv assms(2,3) by blast
qed

text \<open>Agreeing on every field of a set, none of them blank.\<close>

definition same_key :: "string list \<Rightarrow> fields \<Rightarrow> fields \<Rightarrow> bool" where
  "same_key s f g \<longleftrightarrow>
     map (get_field f) s = map (get_field g) s \<and>
     (\<forall>n \<in> set s. get_field f n \<noteq> VNil \<and> \<not> IsBlankString (get_field f n))"

lemma key_values_Some:
  "(\<forall>n \<in> set s. get_field f n \<noteq> VNil \<and> \<not> IsBlankString (get_field f n)) \<Longrightarrow>
     key_values s f = Some (map (get_field f) s)"
  by (induction s) (auto simp: Let_def)

lemma key_values_cong: "map (get_field f) s = map (get_field g) s \<Longrightarrow> key_values s f = key_values s g"
  by (induction s) (auto simp: Let_def)

lemma key_values_same:
  "same_key s f g \<Longrightarrow> key_values s f = Some (map (get_field f) s) \<and> key_values s g = key_values s f"
  using key_values_Some key_values_cong unfolding same_key_def by metis

lemma uniqueKeyValue_same:
  assumes "same_key s f g" "json_ok_fields f"
  shows "\<exists>v. uniqueKeyValue E (canonicalSort s) f = Inr (Some v) \<and> uniqueKeyValue E (canonicalSort s) g = Inr (Some v)"
proof -
  have "set (canonicalSort s) = set s" by (simp add: canonicalSort_def)
  with assms(1) have k: "same_key (canonicalSort s) f g" unfolding same_key_def map_eq_conv by blast
  have "list_all json_ok (map (get_field f) (canonicalSort s))"
    using assms(2) by (simp add: list_all_iff json_ok_get_field)
  then show ?thesis using key_values_same [OF k] by (simp add: uniqueKeyValue_def)
qed

lemma schema_inv_unique:
  assumes inv: "schema_inv E S D" and d: "d \<in> S" "s \<in> set (d_unique d)"
    and r: "r1 \<in> set (db_records D)" "live (d_entity_type d) r1"
    and r': "r2 \<in> set (db_records D)" "live (d_entity_type d) r2"
    and same: "same_key s (rr_data r1) (rr_data r2)"
  shows "r1 = r2"
proof -
  have "json_ok_fields (rr_data r1)" using inv r(1) by (simp add: schema_inv_def docs_ok_def)
  with same obtain v where v: "uniqueKeyValue E (canonicalSort s) (rr_data r1) = Inr (Some v)"
    "uniqueKeyValue E (canonicalSort s) (rr_data r2) = Inr (Some v)"
    using uniqueKeyValue_same by blast
  let ?cn = "UniqueConstraintName s"
  have m: "(?cn, Inr (Some v)) \<in> set (constraint_keys E d (rr_data r1))"
    "(?cn, Inr (Some v)) \<in> set (constraint_keys E d (rr_data r2))"
    unfolding constraint_keys_def using d(2) v by (force intro!: image_eqI [of _ _ s])+
  obtain k1 k2 where k: "k1 \<in> set (db_keys D)" "key_of k1 = (d_entity_type d, ?cn, v)" "uk_record k1 = rr_id r1"
    "k2 \<in> set (db_keys D)" "key_of k2 = (d_entity_type d, ?cn, v)" "uk_record k2 = rr_id r2"
    using inv d(1) r r' m unfolding schema_inv_def backed_def holds_keys_def by metis
  have "distinct (map key_of (db_keys D))" using inv by (simp add: schema_inv_def tables_wf_parts)
  then have "k1 = k2" using k by (metis distinct_map inj_onD)
  then have "rr_id r1 = rr_id r2" using k by simp
  then show ?thesis using inv r(1) r'(1) rr_id_unique by (metis schema_inv_def tables_wf_def)
qed

end
