(* ===== verification/Hierarchy.thy ===== *)
theory Hierarchy
  imports Crud
begin

text \<open>
  Hierarchies: a field that refers to its own entity type (a parent account, a manager). The
  engine's walk over the stored chain keeps every such hierarchy free of cycles, through
  deleted records and through every spelling of an id.
\<close>

section \<open>The stored parent graph\<close>

text \<open>The canonical id a document's field names, if it names one.\<close>

definition parent_id :: "fields \<Rightarrow> string \<Rightarrow> string option" where
  "parent_id f n = (if str_field f n = [] then None else Canonical (str_field f n))"

definition parent_rel :: "string \<Rightarrow> string \<Rightarrow> db \<Rightarrow> (string \<times> string) set" where
  "parent_rel et n D =
     {(rr_id r, p) | r p. r \<in> set (db_records D) \<and> rr_type r = et \<and> parent_id (rr_data r) n = Some p}"

text \<open>
  How Postgres reads ids: it accepts every canonical spelling as itself, and whatever else it
  accepts it stores in the canonical spelling.
\<close>

definition pg_uuid :: "env \<Rightarrow> bool" where
  "pg_uuid E \<longleftrightarrow>
     (\<forall>s. is_canonical s \<longrightarrow> e_uuid E s = Some s) \<and>
     (\<forall>s u. e_uuid E s = Some u \<longrightarrow> Canonical s = Some u)"

lemma parent_id_canonical: "parent_id f n = Some p \<Longrightarrow> is_canonical p"
  by (auto simp: parent_id_def intro: Canonical_fixpoint split: if_splits)

lemma parent_rel_functional:
  assumes "records_wf D" "(a, p) \<in> parent_rel et n D" "(a, q) \<in> parent_rel et n D"
  shows "p = q"
  using assms rr_id_unique [OF assms(1)] by (auto simp: parent_rel_def) (metis option.inject)

section \<open>The walk\<close>

text \<open>What a step of the walk reads.\<close>

lemma GetTxIncludingDeleted_cases:
  assumes "pg_uuid E" "is_canonical cur" "records_wf (w_db w)"
    and "optionalM (GetTxIncludingDeleted E et cur) w = (Inr t, w')"
  shows "case t of
      None \<Rightarrow> \<forall>r \<in> set (db_records (w_db w)). rr_type r = et \<longrightarrow> rr_id r \<noteq> cur
    | Some rec \<Rightarrow> \<exists>r \<in> set (db_records (w_db w)). rr_type r = et \<and> rr_id r = cur \<and> rec_data rec = rr_data r"
proof (cases t)
  case None
  have u: "e_uuid E cur = Some cur" using assms(1,2) by (simp add: pg_uuid_def)
  have "GetTxIncludingDeleted E et cur w = (Inl ErrNotFound, w')"
    using assms(4) None by (simp add: optionalM_Inr_iff)
  then show ?thesis
    using None u
    by (auto simp: GetTxIncludingDeleted_def get_where_def query_def stmt_def uuid_arg_def rbind_def
        find_None_iff split: if_splits option.splits)
next
  case (Some rec)
  then have "GetTxIncludingDeleted E et cur w = (Inr rec, w')"
    using assms(4) by (simp add: optionalM_Inr_iff)
  then obtain u row where "e_uuid E cur = Some u" "row \<in> set (db_records (w_db w))" "rr_id row = u"
    "rr_type row = et" "rec = \<lparr>rec_id = cur, rec_type = et, rec_data = rr_data row, rec_version = rr_version row\<rparr>"
    unfolding GetTxIncludingDeleted_def by (rule get_where_success)
  then show ?thesis using Some assms(1,2) by (auto simp: pg_uuid_def)
qed

text \<open>
  The loop's invariant: the visited ids are closed under the parent relation but for the edge
  to the current id. When the walk ends without an error, the set of ids it has seen is closed
  and does not hold the record's own id.
\<close>

definition closed_but :: "(string \<times> string) set \<Rightarrow> string set \<Rightarrow> string \<Rightarrow> bool" where
  "closed_but R V cur \<longleftrightarrow> (\<forall>a b. a \<in> V \<longrightarrow> (a, b) \<in> R \<longrightarrow> b \<in> V \<or> b = cur)"

lemma walk_chain_closed:
  assumes "pg_uuid E" and "walk_chain E et rid n k visited cur w = (Inr x, w')"
    and "is_canonical cur" "records_wf (w_db w)" "rid \<notin> set visited"
    and "closed_but (parent_rel et n (w_db w)) (set visited) cur"
  shows "\<exists>V. set visited \<subseteq> V \<and> cur \<in> V \<and> rid \<notin> V \<and>
    (\<forall>a b. a \<in> V \<longrightarrow> (a, b) \<in> parent_rel et n (w_db w) \<longrightarrow> b \<in> V)"
  using assms(2-6)
proof (induction k arbitrary: visited cur w)
  case 0
  then show ?case by simp
next
  case (Suc k)
  let ?R = "parent_rel et n (w_db w)"
  from Suc.prems(1) have ne: "cur \<noteq> rid" by (auto split: if_splits)
  show ?case
  proof (cases "cur \<in> set visited")
    case True
    then show ?thesis using Suc.prems(4,5) by (auto simp: closed_but_def intro!: exI [of _ "set visited"])
  next
    case False
    with Suc.prems(1) ne obtain t w1
      where get: "optionalM (GetTxIncludingDeleted E et cur) w = (Inr t, w1)"
        and rest: "(case t of None \<Rightarrow> ret () | Some r \<Rightarrow>
            let nxt = str_field (rec_data r) n in
            if nxt = [] then ret ()
            else case Canonical nxt of None \<Rightarrow> ret ()
              | Some c \<Rightarrow> walk_chain E et rid n k (cur # visited) c) w1 = (Inr x, w')"
      by (auto simp: bindM_Inr_iff)
    have "reads (optionalM (GetTxIncludingDeleted E et cur))" by (intro reads_intro)
    then have db: "w_db w1 = w_db w" using get by (rule readsD)
    note facts = GetTxIncludingDeleted_cases [OF assms(1) Suc.prems(2,3) get]
    let ?V = "insert cur (set visited)"
    have V: "set visited \<subseteq> ?V" "cur \<in> ?V" "rid \<notin> ?V" using ne Suc.prems(4) by auto
    have edges: "b \<in> ?V \<or> (cur, b) \<in> ?R" if "a \<in> ?V" "(a, b) \<in> ?R" for a b
      using that Suc.prems(5) unfolding closed_but_def by blast
    show ?thesis
    proof (cases "\<exists>p. (cur, p) \<in> ?R")
      case False
      then have "\<forall>a b. a \<in> ?V \<longrightarrow> (a, b) \<in> ?R \<longrightarrow> b \<in> ?V" using edges by meson
      then show ?thesis using V by (intro exI [of _ ?V] conjI)
    next
      case True
      then obtain p where p: "(cur, p) \<in> ?R" by blast
      then obtain r where r: "r \<in> set (db_records (w_db w))" "rr_type r = et" "rr_id r = cur"
        "parent_id (rr_data r) n = Some p"
        by (auto simp: parent_rel_def)
      obtain rec where t: "t = Some rec" "rec_data rec = rr_data r"
        using facts r rr_id_unique [OF Suc.prems(3)] by (cases t) (simp, simp, blast)
      have "walk_chain E et rid n k (cur # visited) p w1 = (Inr x, w')"
        using rest t r(4) by (auto simp: parent_id_def Let_def split: if_splits)
      moreover have "closed_but ?R (set (cur # visited)) p"
        using edges parent_rel_functional [OF Suc.prems(3) p] unfolding closed_but_def list.set by blast
      ultimately obtain V' where "set (cur # visited) \<subseteq> V'" "p \<in> V'" "rid \<notin> V'"
        "\<forall>a b. a \<in> V' \<longrightarrow> (a, b) \<in> ?R \<longrightarrow> b \<in> V'"
        using Suc.IH [of "cur # visited" p w1] parent_id_canonical [OF r(4)] Suc.prems(3,4) ne
        by (auto simp: db)
      then show ?thesis by (intro exI [of _ V']) auto
    qed
  qed
qed

lemma closed_rtrancl:
  "(a, b) \<in> R\<^sup>* \<Longrightarrow> a \<in> V \<Longrightarrow> (\<And>x y. x \<in> V \<Longrightarrow> (x, y) \<in> R \<Longrightarrow> y \<in> V) \<Longrightarrow> b \<in> V"
  by (induction rule: rtrancl_induct) auto

lemma checkSelfReferenceCycle_sound:
  assumes "pg_uuid E" "checkSelfReferenceCycle E et rid n p w = (Inr x, w')"
    and "is_canonical p" "records_wf (w_db w)"
  shows "(p, rid) \<notin> (parent_rel et n (w_db w))\<^sup>*"
proof
  assume path: "(p, rid) \<in> (parent_rel et n (w_db w))\<^sup>*"
  have "\<exists>V. set [] \<subseteq> V \<and> p \<in> V \<and> rid \<notin> V \<and>
    (\<forall>a b. a \<in> V \<longrightarrow> (a, b) \<in> parent_rel et n (w_db w) \<longrightarrow> b \<in> V)"
    using assms by (intro walk_chain_closed) (auto simp: checkSelfReferenceCycle_def closed_but_def)
  then show False using closed_rtrancl [OF path] by blast
qed

section \<open>The engine keeps hierarchies acyclic\<close>

lemma check_self_reference_sound:
  assumes pg: "pg_uuid E" and run: "check_self_reference E d rid flds f w = (Inr x, w')"
    and u: "e_uuid E rid = Some u" and wf: "records_wf (w_db w)"
    and p: "parent_id flds (f_name f) = Some p"
  shows "(p, u) \<notin> (parent_rel (d_entity_type d) (f_name f) (w_db w))\<^sup>*"
proof -
  have c: "Canonical rid = Some u" using pg u by (simp add: pg_uuid_def)
  then have "checkSelfReferenceCycle E (d_entity_type d) u (f_name f) p w = (Inr x, w')"
    using run p by (auto simp: check_self_reference_def parent_id_def canonical_or_self_def Let_def split: if_splits)
  then show ?thesis using checkSelfReferenceCycle_sound pg parent_id_canonical [OF p] wf by blast
qed

lemma check_self_references_sound:
  assumes pg: "pg_uuid E" and run: "check_self_references E d rid flds w = (Inr x, w')"
    and u: "e_uuid E rid = Some u" and wf: "records_wf (w_db w)"
    and f: "f \<in> set (selfReferenceFields d)" and p: "parent_id flds (f_name f) = Some p"
  shows "(p, u) \<notin> (parent_rel (d_entity_type d) (f_name f) (w_db w))\<^sup>*"
proof -
  from run obtain y w1 where l: "(if selfReferenceFields d \<noteq> [] then LockSelfReferenceChainTx (d_entity_type d)
      else ret ()) w = (Inr y, w1)"
    and each: "forEach (selfReferenceFields d) (check_self_reference E d rid flds) w1 = (Inr x, w')"
    by (auto simp: check_self_references_def thenM_Inr_iff)
  have "reads (if selfReferenceFields d \<noteq> [] then LockSelfReferenceChainTx (d_entity_type d) else ret ())"
    unfolding LockSelfReferenceChainTx_def by (intro reads_intro)
  then have db: "w_db w1 = w_db w" using l by (rule readsD)
  have "reads (check_self_reference E d rid flds f)" for f
    unfolding check_self_reference_def checkSelfReferenceCycle_def Let_def by (intro reads_intro)
  then obtain w2 v w3 where "w_db w2 = w_db w1" "check_self_reference E d rid flds f w2 = (Inr v, w3)"
    using forEach_reads each f by metis
  then show ?thesis using check_self_reference_sound pg u wf p db by metis
qed

text \<open>Giving one node a new parent from which the node is not reachable makes no cycle.\<close>

lemma acyclic_redirect:
  assumes "acyclic R" "(p, u) \<notin> R\<^sup>*" "R' \<subseteq> R \<union> {(u, p)}"
  shows "acyclic R'"
proof -
  have "acyclic (insert (u, p) R)" using assms(1,2) by (simp add: acyclic_insert)
  then show ?thesis using assms(3) by (auto intro: acyclic_subset)
qed

lemma parent_rel_update:
  assumes "db_records D' = upd_where (update_hits et u ev) (update_row f) (db_records D)"
  shows "parent_rel et n D' \<subseteq> parent_rel et n D \<union> {(u, p) | p. parent_id (json_norm_fields f) n = Some p}"
  by (auto simp: parent_rel_def assms in_upd_where update_hits_def)

lemma parent_id_json_norm [simp]: "parent_id (json_norm_fields f) n = parent_id f n"
  by (simp add: parent_id_def)

lemma Update_acyclic:
  assumes pg: "pg_uuid E" and f: "f \<in> set (selfReferenceFields d)"
    and wf: "records_wf (w_db w)" and ac: "acyclic (parent_rel (d_entity_type d) (f_name f) (w_db w))"
    and hooks: "hooks_keep (\<lambda>D. acyclic (parent_rel (d_entity_type d) (f_name f) D)) hooks"
    and run: "Update E hooks d rid flds ev actor w = (r, w')"
  shows "acyclic (parent_rel (d_entity_type d) (f_name f) (w_db w'))"
proof (cases r)
  case (Inl e)
  then show ?thesis using run ac Update_error by metis
next
  case (Inr v)
  let ?R = "\<lambda>D. parent_rel (d_entity_type d) (f_name f) D"
  from run [unfolded Inr] show ?thesis
  proof (cases rule: Update_success)
    case (1 w1 w2 w3 w4 w5 w6 w7 v0)
    have w3: "w_db w2 = w_db w" "w_db w3 = w_db w"
      using 1(2-4) reads_target_constraints reads_check_self_references by (metis readsD)+
    obtain u where u: "e_uuid E rid = Some u"
      and w4: "w_db w4 = (w_db w)\<lparr>db_records :=
         upd_where (update_hits (d_entity_type d) u ev) (update_row flds) (db_records (w_db w))\<rparr>"
      using 1(5) by (rule UpdateTx_success) (simp add: w3)
    have sub: "?R (w_db w4) \<subseteq> ?R (w_db w) \<union> {(u, p) | p. parent_id flds (f_name f) = Some p}"
      using parent_rel_update [of "w_db w4" "d_entity_type d" u ev flds "w_db w" "f_name f"] by (simp add: w4)
    have "acyclic (?R (w_db w4))"
    proof (cases "parent_id flds (f_name f)")
      case None
      then have "?R (w_db w4) \<subseteq> ?R (w_db w)" using sub by auto
      then show ?thesis using ac by (auto intro: acyclic_subset)
    next
      case (Some p)
      have "(p, u) \<notin> (?R (w_db w1))\<^sup>*"
        using check_self_references_sound [OF pg 1(3) u _ f Some] wf by (simp add: 1(2))
      then show ?thesis using acyclic_redirect [OF ac, of p u] sub Some by (auto simp: 1(2))
    qed
    moreover have "db_records (w_db w5) = db_records (w_db w4)"
      using keepsD [OF update_keys_records 1(6), of "db_records (w_db w4)"] by simp
    moreover have "db_records (w_db w6) = db_records (w_db w5)"
      using 1(7) by (auto elim!: write_audit_success)
    ultimately have "acyclic (?R (w_db w6))" by (simp add: parent_rel_def)
    then show ?thesis using keepsD [OF runHook_keeps [OF hooks] 1(8)] 1(10) by simp
  qed
qed

end
