(* ===== verification/Locking.thy ===== *)
theory Locking
  imports Crud
begin

text \<open>
  Optimistic locking: the contract a store of versioned documents keeps, what its clients may
  conclude from it (no update is lost), and the two layers that keep it, the repository's
  \<open>UpdateTx\<close> and the engine's \<open>Update\<close>.
\<close>

section \<open>The contract\<close>

text \<open>
  \<open>lookup\<close> gives the document and the version under a key, \<open>upd\<close> replaces the document,
  expecting a version or none; \<open>stored\<close> is the document a request leaves in the store, \<open>wf\<close>
  the states the contract speaks of.
\<close>

locale versioned_store =
  fixes lookup :: "'s \<Rightarrow> 'k \<Rightarrow> ('d \<times> int) option"
    and upd :: "'k \<Rightarrow> 'v \<Rightarrow> int option \<Rightarrow> 's \<Rightarrow> ('e + int) \<times> 's"
    and stored :: "'v \<Rightarrow> 'd"
    and wf :: "'s \<Rightarrow> bool"
  assumes upd_wf: "wf s \<Longrightarrow> upd k v ev s = (r, s') \<Longrightarrow> wf s'"
    and upd_success: "wf s \<Longrightarrow> upd k v ev s = (Inr n, s') \<Longrightarrow>
      \<exists>v0. lookup s k = Some (v0, n - 1) \<and> (ev = None \<or> ev = Some (n - 1)) \<and>
        lookup s' k = Some (stored v, n)"
    and upd_mono: "wf s \<Longrightarrow> upd k v ev s = (r, s') \<Longrightarrow> lookup s k' = Some (v0, n0) \<Longrightarrow>
      \<exists>v1 n1. lookup s' k' = Some (v1, n1) \<and> n0 \<le> n1"
    and upd_error: "wf s \<Longrightarrow> upd k v ev s = (Inl e, s') \<Longrightarrow> lookup s' = lookup s"
begin

text \<open>A history of calls by any number of clients, failing ones included.\<close>

definition call :: "'s \<Rightarrow> 's \<Rightarrow> bool" where
  "call s s' \<longleftrightarrow> (\<exists>k v ev r. upd k v ev s = (r, s'))"

lemma history_wf: "call\<^sup>*\<^sup>* s s' \<Longrightarrow> wf s \<Longrightarrow> wf s'"
  by (induction rule: rtranclp_induct) (auto simp: call_def intro: upd_wf)

lemma history_version:
  assumes "call\<^sup>*\<^sup>* s s'" "wf s" "lookup s k = Some (v0, n0)"
  shows "\<exists>v1 n1. lookup s' k = Some (v1, n1) \<and> n0 \<le> n1"
  using assms(1)
proof induction
  case (step s1 s2)
  then obtain v1 n1 where "lookup s1 k = Some (v1, n1)" "n0 \<le> n1" by blast
  moreover have "wf s1" using step.hyps(1) assms(2) by (rule history_wf)
  ultimately show ?case using step.hyps(2) upd_mono unfolding call_def by (meson order_trans)
qed (use assms(3) in blast)

text \<open>
  Of two updates that expect the same version only the first can succeed, whatever calls come
  between them: nobody's change is overwritten unseen.
\<close>

lemma no_lost_update:
  assumes "wf s" "upd k v1 (Some n) s = (Inr m, s1)" "call\<^sup>*\<^sup>* s1 s2"
    and "upd k v2 (Some n) s2 = (r, s3)"
  shows "\<exists>e. r = Inl e \<and> lookup s3 = lookup s2"
proof (cases r)
  case (Inl e)
  have "wf s2" using assms(1-3) upd_wf history_wf by metis
  then show ?thesis using Inl upd_error assms(4) by metis
next
  case (Inr m2)
  have wf1: "wf s1" using assms(1,2) by (rule upd_wf)
  then have wf2: "wf s2" using history_wf assms(3) by blast
  have "lookup s1 k = Some (stored v1, m)" "m = n + 1"
    using upd_success [OF assms(1,2)] by auto
  then obtain v3 n3 where "lookup s2 k = Some (v3, n3)" "n + 1 \<le> n3"
    using history_version [OF assms(3) wf1] by blast
  moreover have "\<exists>v4. lookup s2 k = Some (v4, n)"
    using upd_success [OF wf2 assms(4) [unfolded Inr]] by auto
  ultimately show ?thesis by auto
qed

text \<open>Without an expected version an update succeeds on whatever is there: the last one wins.\<close>

lemma last_wins:
  assumes "wf s" "upd k v ev s = (Inr n, s')"
  shows "lookup s' k = Some (stored v, n)"
  using upd_success [OF assms] by blast

end

section \<open>The records table\<close>

definition live_doc :: "env \<Rightarrow> string \<Rightarrow> world \<Rightarrow> string \<Rightarrow> (fields \<times> int) option" where
  "live_doc E et w rid =
     (case e_uuid E rid of
        None \<Rightarrow> None
      | Some u \<Rightarrow>
          map_option (\<lambda>r. (rr_data r, rr_version r))
            (List.find (\<lambda>r. rr_id r = u \<and> live et r) (db_records (w_db w))))"

definition world_wf :: "world \<Rightarrow> bool" where
  "world_wf w \<longleftrightarrow> tables_wf (w_db w)"

lemma live_doc_eq:
  assumes "records_wf (w_db w)" "e_uuid E rid = Some u"
  shows "live_doc E et w rid = Some (f, n) \<longleftrightarrow>
    (\<exists>r \<in> set (db_records (w_db w)). rr_id r = u \<and> live et r \<and> rr_data r = f \<and> rr_version r = n)"
proof
  assume "live_doc E et w rid = Some (f, n)"
  then show "\<exists>r \<in> set (db_records (w_db w)). rr_id r = u \<and> live et r \<and> rr_data r = f \<and> rr_version r = n"
    using assms(2) by (auto simp: live_doc_def dest!: find_SomeD)
next
  assume "\<exists>r \<in> set (db_records (w_db w)). rr_id r = u \<and> live et r \<and> rr_data r = f \<and> rr_version r = n"
  then obtain r where "r \<in> set (db_records (w_db w))" "live et r"
    "rr_id r = u" "rr_data r = f" "rr_version r = n" by blast
  then show "live_doc E et w rid = Some (f, n)"
    using assms find_unique_row [of "w_db w" r "live et"] by (auto simp: live_doc_def)
qed

lemma UpdateTx_error: "UpdateTx E et rid f ev w = (Inl e, w') \<Longrightarrow> w_db w' = w_db w"
  by (auto simp: UpdateTx_def bindM_def thenM_def stmt_def query_def rbind_def sent_def fail_def ret_def
      uuid_arg_def Let_def split: if_splits option.splits sum.splits prod.splits)

text \<open>What an update does to the documents, from its effect on the table.\<close>

lemma live_doc_update:
  assumes wf: "records_wf (w_db w)" "records_wf (w_db w')" and u: "e_uuid E rid = Some u"
    and row: "row \<in> set (db_records (w_db w))" "update_hits et u ev row"
    and recs: "db_records (w_db w') = upd_where (update_hits et u ev) (update_row f) (db_records (w_db w))"
  shows "live_doc E et w rid = Some (rr_data row, rr_version row)"
    and "live_doc E et w' rid = Some (json_norm_fields f, rr_version row + 1)"
    and "live_doc E et w k' = Some (f0, n0) \<Longrightarrow> \<exists>f1 n1. live_doc E et w' k' = Some (f1, n1) \<and> n0 \<le> n1"
proof -
  show "live_doc E et w rid = Some (rr_data row, rr_version row)"
    using row by (auto simp: live_doc_eq [OF wf(1) u] update_hits_def)
  have "update_row f row \<in> set (db_records (w_db w'))" using row by (force simp: recs in_upd_where)
  then show "live_doc E et w' rid = Some (json_norm_fields f, rr_version row + 1)"
    using row(2) unfolding live_doc_eq [OF wf(2) u]
    by (intro bexI [of _ "update_row f row"]) (auto simp: update_hits_def live_def)
  assume old: "live_doc E et w k' = Some (f0, n0)"
  then obtain u' where u': "e_uuid E k' = Some u'" by (auto simp: live_doc_def split: option.splits)
  with old obtain r where r: "r \<in> set (db_records (w_db w))" "rr_id r = u'" "live et r" "rr_version r = n0"
    by (auto simp: live_doc_eq [OF wf(1) u'])
  define r' where "r' = (if update_hits et u ev r then update_row f r else r)"
  have "r' \<in> set (db_records (w_db w'))" using r(1) by (auto simp: recs in_upd_where r'_def)
  moreover have "rr_id r' = u'" "live et r'" "n0 \<le> rr_version r'" using r by (auto simp: r'_def live_def)
  ultimately show "\<exists>f1 n1. live_doc E et w' k' = Some (f1, n1) \<and> n0 \<le> n1"
    using live_doc_eq [OF wf(2) u'] by blast
qed

lemma live_doc_cong:
  "db_records (w_db w') = db_records (w_db w) \<Longrightarrow> live_doc E et w' = live_doc E et w"
  by (simp add: live_doc_def fun_eq_iff split: option.split)

lemma live_doc_same: "w_db w' = w_db w \<Longrightarrow> live_doc E et w' = live_doc E et w"
  by (rule live_doc_cong) simp

lemma wf_records: "world_wf w \<Longrightarrow> records_wf (w_db w)"
  by (simp add: world_wf_def tables_wf_def)

lemma UpdateTx_effect:
  assumes "world_wf w" "UpdateTx E et rid f ev w = (Inr n, w')"
  shows "world_wf w' \<and> (\<exists>f0. live_doc E et w rid = Some (f0, n - 1)) \<and> (ev = None \<or> ev = Some (n - 1)) \<and>
    live_doc E et w' rid = Some (json_norm_fields f, n) \<and>
    (\<forall>k' f0 n0. live_doc E et w k' = Some (f0, n0) \<longrightarrow>
       (\<exists>f1 n1. live_doc E et w' k' = Some (f1, n1) \<and> n0 \<le> n1))"
proof -
  have wf': "world_wf w'" using keepsD [OF UpdateTx_wf assms(2)] assms(1) by (simp add: world_wf_def)
  from assms(2) obtain u row where u: "e_uuid E rid = Some u"
    and row: "row \<in> set (db_records (w_db w))" "update_hits et u ev row" "n = rr_version row + 1"
    and recs: "w_db w' = (w_db w)\<lparr>db_records :=
       upd_where (update_hits et u ev) (update_row f) (db_records (w_db w))\<rparr>"
    by (rule UpdateTx_success)
  have r': "db_records (w_db w') = upd_where (update_hits et u ev) (update_row f) (db_records (w_db w))"
    by (simp add: recs)
  note eff = live_doc_update [OF wf_records [OF assms(1)] wf_records [OF wf'] u row(1,2) r']
  have "ev = None \<or> ev = Some (n - 1)" using row by (auto simp: update_hits_def split: option.splits)
  then show ?thesis using wf' eff row(3) by auto
qed

interpretation repo: versioned_store "live_doc E et" "UpdateTx E et" json_norm_fields world_wf
proof unfold_locales
  fix w k f ev n w' assume wf: "world_wf w" and run: "UpdateTx E et k f ev w = (Inr n, w')"
  show "\<exists>v0. live_doc E et w k = Some (v0, n - 1) \<and> (ev = None \<or> ev = Some (n - 1)) \<and>
    live_doc E et w' k = Some (json_norm_fields f, n)"
    using UpdateTx_effect [OF wf run] by blast
next
  fix w k f ev e w' assume "UpdateTx E et k f ev w = (Inl e, w')"
  then show "live_doc E et w' = live_doc E et w" using UpdateTx_error live_doc_same by blast
next
  fix w k f ev r w' assume wf: "world_wf w" and run: "UpdateTx E et k f ev w = (r, w')"
  show "world_wf w'"
  proof (cases r)
    case (Inl e)
    then show ?thesis using wf run UpdateTx_error by (metis world_wf_def)
  next
    case (Inr n)
    then show ?thesis using UpdateTx_effect [OF wf] run by blast
  qed
next
  fix w k f ev r w' k' f0 n0
  assume wf: "world_wf w" and run: "UpdateTx E et k f ev w = (r, w')"
    and old: "live_doc E et w k' = Some (f0, n0)"
  show "\<exists>f1 n1. live_doc E et w' k' = Some (f1, n1) \<and> n0 \<le> n1"
  proof (cases r)
    case (Inl e)
    then have "live_doc E et w' = live_doc E et w" using run UpdateTx_error live_doc_same by blast
    then show ?thesis using old by auto
  next
    case (Inr n)
    then show ?thesis using UpdateTx_effect [OF wf] run old by blast
  qed
qed

section \<open>The engine\<close>

text \<open>The engine with no hook on the type: the same contract, one transaction further out.\<close>

lemma Update_effect:
  assumes hooks: "hooks (d_entity_type d) = None" and wf: "world_wf w"
    and run: "Update E hooks d rid f ev actor w = (Inr n, w')"
  shows "world_wf w' \<and> (\<exists>f0. live_doc E (d_entity_type d) w rid = Some (f0, n - 1)) \<and>
    (ev = None \<or> ev = Some (n - 1)) \<and>
    live_doc E (d_entity_type d) w' rid = Some (json_norm_fields f, n) \<and>
    (\<forall>k' f0 n0. live_doc E (d_entity_type d) w k' = Some (f0, n0) \<longrightarrow>
       (\<exists>f1 n1. live_doc E (d_entity_type d) w' k' = Some (f1, n1) \<and> n0 \<le> n1))"
  using run
proof (cases rule: Update_success)
  case (1 w1 w2 w3 w4 w5 w6 w7 v0)
  let ?doc = "live_doc E (d_entity_type d)"
  have w3: "w_db w3 = w_db w"
    using 1(2-4) reads_target_constraints reads_check_self_references by (metis readsD)
  have n: "n = v0" using 1(9) hooks by simp
  have wf3: "world_wf w3" using wf w3 by (simp add: world_wf_def)
  note eff = UpdateTx_effect [OF wf3 1(5)]
  have w6: "w_db w7 = w_db w6" using 1(8) hooks by (simp add: runHook_def)
  have recs: "db_records (w_db w') = db_records (w_db w4)"
    using keepsD [OF update_keys_records 1(6), of "db_records (w_db w4)"] 1(7,10) w6
    by (auto elim!: write_audit_success)
  have "tables_wf (w_db w5)" using keepsD [OF unique_keys_wf(2) 1(6)] eff by (simp add: world_wf_def)
  then have "world_wf w'" using keepsD [OF write_audit_wf 1(7)] w6 1(10) by (simp add: world_wf_def)
  moreover have "?doc w' = ?doc w4" using recs by (rule live_doc_cong)
  moreover have "?doc w3 = ?doc w" using w3 by (rule live_doc_same)
  ultimately show ?thesis using eff n by simp
qed

interpretation engine: versioned_store "live_doc E (d_entity_type d)"
    "\<lambda>rid (f, actor) ev. Update E Map.empty d rid f ev actor" "\<lambda>(f, actor). json_norm_fields f" world_wf
proof unfold_locales
  fix w k fa ev n w'
  assume wf: "world_wf w" and run: "(case fa of (f, actor) \<Rightarrow> \<lambda>ev. Update E Map.empty d k f ev actor) ev w = (Inr n, w')"
  show "\<exists>v0. live_doc E (d_entity_type d) w k = Some (v0, n - 1) \<and> (ev = None \<or> ev = Some (n - 1)) \<and>
    live_doc E (d_entity_type d) w' k = Some (case fa of (f, actor) \<Rightarrow> json_norm_fields f, n)"
    using Update_effect [OF _ wf] run by (cases fa) simp
next
  fix w k fa ev e w'
  assume "(case fa of (f, actor) \<Rightarrow> \<lambda>ev. Update E Map.empty d k f ev actor) ev w = (Inl e, w')"
  then show "live_doc E (d_entity_type d) w' = live_doc E (d_entity_type d) w"
    by (cases fa) (simp only: prod.case, rule live_doc_same, rule Update_error)
next
  fix w k fa ev r w'
  assume wf: "world_wf w"
    and run0: "(case fa of (f, actor) \<Rightarrow> \<lambda>ev. Update E Map.empty d k f ev actor) ev w = (r, w')"
  obtain f actor where run: "Update E Map.empty d k f ev actor w = (r, w')"
    using run0 by (cases fa) simp
  show "world_wf w'"
  proof (cases r)
    case (Inl e)
    then show ?thesis using wf run Update_error by (metis world_wf_def)
  next
    case (Inr n)
    then show ?thesis using Update_effect [OF _ wf] run by simp
  qed
next
  fix w k fa ev r w' k' f0 n0
  assume wf: "world_wf w"
    and run0: "(case fa of (f, actor) \<Rightarrow> \<lambda>ev. Update E Map.empty d k f ev actor) ev w = (r, w')"
    and old: "live_doc E (d_entity_type d) w k' = Some (f0, n0)"
  obtain f actor where run: "Update E Map.empty d k f ev actor w = (r, w')"
    using run0 by (cases fa) simp
  show "\<exists>f1 n1. live_doc E (d_entity_type d) w' k' = Some (f1, n1) \<and> n0 \<le> n1"
  proof (cases r)
    case (Inl e)
    then have "live_doc E (d_entity_type d) w' = live_doc E (d_entity_type d) w"
      using run Update_error live_doc_same by blast
    then show ?thesis using old by auto
  next
    case (Inr n)
    then show ?thesis using Update_effect [OF _ wf] run old by simp
  qed
qed

end
