(* ===== verification/CrudProps.thy ===== *)
theory CrudProps
  imports CrudUnique Hierarchy Locking
begin

text \<open>
  The properties of the record engine, each with a concrete run: an account type whose code
  is unique and whose parent is an account, in an empty database.
\<close>

section \<open>A concrete setting\<close>

definition sample_env :: env where
  "sample_env =
     \<lparr>e_cv = cv_amd64, e_sprint = (\<lambda>_. []), e_jtext = (\<lambda>_. []), e_digest = (\<lambda>vs. ''h''),
      e_uuid = Canonical, e_pgdate = ParseDate,
      e_lower = id, e_collate = id\<rparr>"

definition id_a :: string where "id_a = ''00000000-0000-0000-0000-00000000000a''"
definition id_b :: string where "id_b = ''00000000-0000-0000-0000-00000000000b''"

lemmas hex_eval = isHexDigit_def is_upper_hex_def hex_lower_def byte_def

lemma Canonical_id_a: "Canonical id_a = Some id_a"
  by (simp add: id_a_def Canonical_def strip_braces_def hyphenate_def hex_eval)

lemma Canonical_id_b: "Canonical id_b = Some id_b"
  by (simp add: id_b_def Canonical_def strip_braces_def hyphenate_def hex_eval)

lemma ids_distinct [simp]: "id_a \<noteq> []" "id_b \<noteq> []" "id_a \<noteq> id_b" "id_b \<noteq> id_a"
  by (simp_all add: id_a_def id_b_def)

definition sample_actor :: Actor where
  "sample_actor = \<lparr>a_type = ActorHuman, a_id = ''u1'', a_model_version = [], a_input = []\<rparr>"

definition account_def :: Definition where
  "account_def =
     (mk_definition ''Account''
        [(mk_field ''code'' FieldString)\<lparr>f_required := True\<rparr>,
         (mk_field ''parent'' FieldReference)\<lparr>f_target := ''Account''\<rparr>])
     \<lparr>d_unique := [[''code'']]\<rparr>"

definition sample_world :: "db \<Rightarrow> world" where
  "sample_world D = \<lparr>w_db = D, w_faults = [], w_newid = (\<lambda>_. id_a), w_ids = 0, w_now = 7\<rparr>"

definition code_doc :: fields where
  "code_doc = fmupd ''code'' (VStr ''1000'') fmempty"

definition row_a :: rrow where
  "row_a = \<lparr>rr_id = id_a, rr_type = ''Account'', rr_data = code_doc, rr_version = 1, rr_created = 7,
     rr_deleted = False\<rparr>"

definition audit_a :: arow where
  "audit_a = \<lparr>al_type = ''Account'', al_record = Some id_a, al_action = ActionCreate,
     al_actor_type = ActorHuman, al_actor_id = ''u1'', al_model_version = None,
     al_input_hash = None, al_diff = Some code_doc\<rparr>"

definition db_a :: db where
  "db_a = empty_db\<lparr>db_records := [row_a],
     db_keys := [\<lparr>uk_type = ''Account'', uk_name = ''code'', uk_value = ''h'', uk_record = id_a\<rparr>],
     db_audit := [audit_a]\<rparr>"

lemma account_valid: "Validate cv account_def = None"
  by (simp add: account_def_def Validate_def check_header_def check_label_def check_field_def
      check_must_match_def check_bounds_def check_not_before_def check_cycles_def
      check_unique_set_def check_status_def mk_definition_def mk_field_def type_valid_def
      allFieldTypes_def HasPrefix_def FieldByName_def field_types_def not_before_map_def
      nb_walk_cycle.simps nb_next_def Let_def)

lemma code_doc_lookup [simp]:
  "get_field code_doc ''code'' = VStr ''1000''" "get_field code_doc ''parent'' = VNil"
  "str_field code_doc ''parent'' = []"
  by (simp_all add: code_doc_def get_field_def str_field_def)

lemma code_doc_json [simp]: "json_ok_fields code_doc" "json_norm_fields code_doc = code_doc"
  by (simp_all add: json_ok_fields_iff code_doc_def json_norm_fields_def fmmap_fmupd)

lemma account_sel [simp]:
  "d_entity_type account_def = ''Account''" "d_unique account_def = [[''code'']]"
  "d_unique_when account_def = []"
  "d_fields account_def = [(mk_field ''code'' FieldString)\<lparr>f_required := True\<rparr>,
     (mk_field ''parent'' FieldReference)\<lparr>f_target := ''Account''\<rparr>]"
  by (simp_all add: account_def_def mk_definition_def)

lemma account_create_fields: "create_fields account_def (Some code_doc) = code_doc"
  by (simp add: create_fields_def ApplyDefaults_def apply_default_def mk_field_def)

lemma trim_1000: "TrimSpace ''1000'' = ''1000''"
  by (simp add: trim_eval)

lemma code_doc_valid: "ValidateRecord cv account_def code_doc = None"
  by (simp add: ValidateRecord_def validate_field_def validateFieldValue_def validateNotBefore_def
      nb_compare.simps field_map_def too_long_def mk_field_def trim_1000 Let_def)

lemma sample_env_sel [simp]:
  "e_uuid sample_env = Canonical" "e_cv sample_env = cv_amd64" "e_digest sample_env vs = ''h''"
  by (simp_all add: sample_env_def)

lemmas stmt_eval = bindM_def thenM_def ret_def fail_def stmt_def query_def faulty_def sent_def
  fresh_id_def now_def guardM_def rbind_def in_tx_def uuid_arg_def nullable_uuid_def

lemma sample_create:
  "Create sample_env Map.empty account_def (Some code_doc) sample_actor (sample_world empty_db) =
     (Inr \<lparr>rec_id = id_a, rec_type = ''Account'', rec_data = code_doc, rec_version = 1\<rparr>,
      (sample_world db_a)\<lparr>w_ids := 1\<rparr>)"
  by (simp add: Create_def create_body_def validation_def account_create_fields code_doc_valid
      checkReferenceTargetConstraints_def check_field_target_def mk_field_def CreateTx_def
      WriteUniqueConstraintKeys_def writeConstraintKey_def with_key_def uniqueKeyValue_def
      canonicalSort_def trim_1000 as_violation_def catchM_def InsertTx_def UpdateValueTx_def
      upd_where_def UniqueConstraintName_def write_audit_def audit_New_def Actor_Validate_def audit_Insert_def
      audit_row_def nullable_def InputHash_def sample_actor_def runHook_def
      sample_world_def empty_db_def db_a_def row_a_def audit_a_def Canonical_id_a stmt_eval Let_def)

text \<open>One call each, for the witnesses below.\<close>

lemma sample_ids: "ids_read_back sample_env (sample_world D)"
  by (simp add: ids_read_back_def sample_world_def Canonical_id_a)

lemma empty_inv: "schema_inv E S empty_db"
  by (simp add: schema_inv_def tables_wf_parts docs_ok_def backed_def empty_db_def)

lemma sample_schema: "valid_schema sample_env {account_def}"
  by (simp add: valid_schema_def account_valid)

lemma sample_step: "engine_step sample_env {account_def} Map.empty empty_db db_a"
proof -
  have "engine_step sample_env {account_def} Map.empty (w_db (sample_world empty_db))
      (w_db ((sample_world db_a)\<lparr>w_ids := 1\<rparr>))"
    by (rule step_create [OF _ sample_ids _ sample_create])
      (simp_all add: account_create_fields decoded_def)
  then show ?thesis by (simp add: sample_world_def)
qed

lemma db_a_inv: "schema_inv sample_env {account_def} db_a"
  using sample_step sample_schema hooks_keep_empty empty_inv by (rule engine_step_inv)

section \<open>Atomicity and the audit trail\<close>

lemma keys_written_db: "keys_written et u cks D D' \<Longrightarrow> D' = D\<lparr>db_keys := db_keys D'\<rparr>"
  unfolding keys_written_def by (metis db.surjective db.update_convs(2))

lemma write_keys_audit: "keeps (\<lambda>D. db_audit D = a) (WriteUniqueConstraintKeys E d rid f)"
  and update_keys_audit: "keeps (\<lambda>D. db_audit D = a) (UpdateUniqueConstraintKeys E d rid f)"
proof -
  have ops: "keeps (\<lambda>D. db_audit D = a) (InsertTx E et cn v rid)"
    "keeps (\<lambda>D. db_audit D = a) (UpdateValueTx E et cn v rid)"
    "keeps (\<lambda>D. db_audit D = a) (DeleteForConstraintTx E et cn rid)" for et cn v rid
    by (rule keepsI, erule InsertTx_success, simp_all)
      (rule keepsI, erule UpdateValueTx_success, simp,
       auto simp: keeps_def DeleteForConstraintTx_def stmt_Inr_iff)
  show "keeps (\<lambda>D. db_audit D = a) (WriteUniqueConstraintKeys E d rid f)"
    "keeps (\<lambda>D. db_audit D = a) (UpdateUniqueConstraintKeys E d rid f)"
    unfolding UpdateUniqueConstraintKeys_def WriteUniqueConstraintKeys_def updateConstraintKey_def
      writeConstraintKey_def Let_def
    by (intro keeps_intro ops)+
qed

text \<open>The key rows a created document gets: one for each constraint that applies to it.\<close>

definition created_keys :: "string \<Rightarrow> string \<Rightarrow> (string \<times> (err, string option) result) list \<Rightarrow> krow list" where
  "created_keys et u cks =
     concat (map (\<lambda>(cn, r). case r of
        Inr (Some v) \<Rightarrow> [\<lparr>uk_type = et, uk_name = cn, uk_value = v, uk_record = u\<rparr>] | _ \<Rightarrow> []) cks)"

lemma write_new_key:
  assumes "writeConstraintKey E et cn v rid w = (Inr x, w')" and "e_uuid E rid = Some u"
    and "\<forall>k \<in> set (db_keys (w_db w)). uk_record k = u \<longrightarrow> uk_name k \<noteq> cn"
  shows "w_db w' = (w_db w)\<lparr>db_keys := db_keys (w_db w) @ created_keys et u [(cn, Inr v)]\<rparr>"
proof (cases v)
  case None
  then show ?thesis using assms(1) by (simp add: writeConstraintKey_def created_keys_def)
next
  case (Some v1)
  with assms(1) have "InsertTx E et cn v1 rid w = (Inr x, w')" by (simp add: writeConstraintKey_def)
  then show ?thesis
    by (rule InsertTx_success) (use assms(2,3) Some in \<open>auto simp: owned_def key_of_def created_keys_def\<close>)
qed

lemma write_new_keys:
  assumes "forEach cks (\<lambda>(cn, r). with_key r (\<lambda>v. writeConstraintKey E et cn v rid)) w = (Inr x, w')"
    and "e_uuid E rid = Some u" and "distinct (map fst cks)"
    and "\<forall>k \<in> set (db_keys (w_db w)). uk_record k = u \<longrightarrow> uk_name k \<notin> fst ` set cks"
  shows "w_db w' = (w_db w)\<lparr>db_keys := db_keys (w_db w) @ created_keys et u cks\<rparr>"
  using assms
proof (induction cks arbitrary: w)
  case Nil
  then show ?case by (simp add: created_keys_def)
next
  case (Cons c cks)
  obtain cn r where c: "c = (cn, r)" by force
  with Cons.prems(1) obtain v x1 w1 where r: "r = Inr v" and s: "writeConstraintKey E et cn v rid w = (Inr x1, w1)"
    and rest: "forEach cks (\<lambda>(cn, r). with_key r (\<lambda>v. writeConstraintKey E et cn v rid)) w1 = (Inr x, w')"
    by (auto simp: thenM_Inr_iff with_key_def split: sum.splits)
  have w1: "w_db w1 = (w_db w)\<lparr>db_keys := db_keys (w_db w) @ created_keys et u [(cn, Inr v)]\<rparr>"
    using write_new_key [OF s Cons.prems(2)] Cons.prems(4) c by auto
  then have "\<forall>k \<in> set (db_keys (w_db w1)). uk_record k = u \<longrightarrow> uk_name k \<notin> fst ` set cks"
    using Cons.prems(3,4) c by (auto simp: created_keys_def split: option.splits)
  then show ?case using Cons.IH [OF rest Cons.prems(2)] Cons.prems(3) w1 c r by (simp add: created_keys_def)
qed

lemma Create_effect:
  assumes hooks: "hooks (d_entity_type d) = None"
    and wf: "tables_wf (w_db w)" and ids: "ids_read_back E w" and d: "distinct (constraint_names d)"
    and run: "Create E hooks d fo actor w = (Inr r, w')"
  shows "ValidateRecord (e_cv E) d (create_fields d fo) = None \<and> accountable actor \<and>
    rec_data r = create_fields d fo \<and> rec_version r = 1 \<and> rec_id r \<notin> rr_id ` set (db_records (w_db w)) \<and>
    (\<exists>t. w_db w' = (w_db w)\<lparr>
       db_records := db_records (w_db w) @
         [\<lparr>rr_id = rec_id r, rr_type = d_entity_type d, rr_data = json_norm_fields (create_fields d fo),
           rr_version = 1, rr_created = t, rr_deleted = False\<rparr>],
       db_keys := db_keys (w_db w) @
         created_keys (d_entity_type d) (rec_id r) (constraint_keys E d (create_fields d fo)),
       db_audit := db_audit (w_db w) @
         [audit_of E (d_entity_type d) (rec_id r) ActionCreate actor (Some (create_fields d fo))]\<rparr>)"
  using run
proof (cases rule: Create_success)
  case (1 w1 w2 w3 w4 w5 x)
  have w2: "w_db w2 = w_db w" using 1(2,4) reads_target_constraints by (metis readsD)
  have n2: "w_newid w2 = w_newid w" using 1(3,4) reads_target_constraints by (metis reads_newid)
  have x: "w_db x = w_db w5" using 1(8) hooks by (simp add: runHook_def)
  have aud: "accountable actor \<and> w_db w5 = (w_db w4)\<lparr>db_audit := db_audit (w_db w4) @
      [audit_of E (d_entity_type d) (rec_id r) ActionCreate actor (Some (create_fields d fo))]\<rparr>"
    using 1(7) by (rule write_audit_db)
  show ?thesis
  proof (rule CreateTx_success [OF 1(5)])
    assume fresh: "rec_id r \<notin> rr_id ` set (db_records (w_db w2))" and id: "rec_id r = w_newid w2 (w_ids w2)"
      and r: "r = \<lparr>rec_id = rec_id r, rec_type = d_entity_type d, rec_data = create_fields d fo, rec_version = 1\<rparr>"
      and w3: "w_db w3 = (w_db w2)\<lparr>db_records := db_records (w_db w2) @
        [\<lparr>rr_id = rec_id r, rr_type = d_entity_type d, rr_data = json_norm_fields (create_fields d fo),
          rr_version = 1, rr_created = w_now w2, rr_deleted = False\<rparr>]\<rparr>"
    have doc: "rec_data r = create_fields d fo" "rec_version r = 1" using r by (metis Record.select_convs(3,4))+
    have u: "e_uuid E (rec_id r) = Some (rec_id r)" using ids id n2 by (simp add: ids_read_back_def)
    have "uk_record ` set (db_keys (w_db w)) \<subseteq> rr_id ` set (db_records (w_db w))"
      using wf by (simp add: tables_wf_parts)
    then have "\<forall>k \<in> set (db_keys (w_db w3)). uk_record k \<noteq> rec_id r"
      using fresh w2 w3 by (metis db.select_convs(2) db.surjective db.update_convs(1) imageI subsetD)
    then have "w_db w4 = (w_db w3)\<lparr>db_keys := db_keys (w_db w3) @
        created_keys (d_entity_type d) (rec_id r) (constraint_keys E d (create_fields d fo))\<rparr>"
      by (intro write_new_keys [OF 1(6) [unfolded WriteUniqueConstraintKeys_eq] u])
        (use d in \<open>auto simp: map_fst_constraint_keys\<close>)
    then show ?thesis
      using 1(1,9) doc fresh w2 w3 x aud by (intro conjI exI [of _ "w_now w2"]) simp_all
  qed
qed

text \<open>
  C4. \<open>Create\<close> is all or nothing, whatever statement fails: on an error, with whatever hook, the
  database is as it was; on success (for a valid definition with no hook on the type, in well-formed
  tables) the whole effect is the one new row with the validated record, defaults filled in, at
  version 1, one key row for each unique constraint that applies to it, and one audit entry by an
  accountable actor.
\<close>

theorem create_all_or_nothing:
  assumes run: "Create E hooks d fo actor w = (res, w')"
  shows "case res of
      Inl e \<Rightarrow> w_db w' = w_db w
    | Inr r \<Rightarrow>
        hooks (d_entity_type d) = None \<longrightarrow> Validate (e_cv E) d = None \<longrightarrow> tables_wf (w_db w) \<longrightarrow> ids_read_back E w \<longrightarrow>
        ValidateRecord (e_cv E) d (create_fields d fo) = None \<and> accountable actor \<and>
        rec_data r = create_fields d fo \<and> rec_version r = 1 \<and> rec_id r \<notin> rr_id ` set (db_records (w_db w)) \<and>
        (\<exists>t. w_db w' = (w_db w)\<lparr>
           db_records := db_records (w_db w) @
             [\<lparr>rr_id = rec_id r, rr_type = d_entity_type d, rr_data = json_norm_fields (create_fields d fo),
               rr_version = 1, rr_created = t, rr_deleted = False\<rparr>],
           db_keys := db_keys (w_db w) @
             created_keys (d_entity_type d) (rec_id r) (constraint_keys E d (create_fields d fo)),
           db_audit := db_audit (w_db w) @
             [audit_of E (d_entity_type d) (rec_id r) ActionCreate actor (Some (create_fields d fo))]\<rparr>)"
proof (cases res)
  case (Inl e)
  then show ?thesis using Create_error run by simp
next
  case (Inr r)
  then show ?thesis using Create_effect [OF _ _ _ _ run [unfolded Inr]] Validate_constraint_names by simp
qed

theorem create_all_or_nothing_witness:
  "Create sample_env Map.empty account_def (Some code_doc) sample_actor (sample_world empty_db) =
     (Inr \<lparr>rec_id = id_a, rec_type = ''Account'', rec_data = code_doc, rec_version = 1\<rparr>,
      (sample_world db_a)\<lparr>w_ids := 1\<rparr>) \<and>
   accountable sample_actor \<and> db_keys db_a = [\<lparr>uk_type = ''Account'', uk_name = ''code'', uk_value = ''h'', uk_record = id_a\<rparr>] \<and>
   (\<exists>t. db_a = empty_db\<lparr>
     db_records := [\<lparr>rr_id = id_a, rr_type = ''Account'', rr_data = code_doc, rr_version = 1, rr_created = t,
       rr_deleted = False\<rparr>],
     db_keys := created_keys ''Account'' id_a (constraint_keys sample_env account_def code_doc),
     db_audit := [audit_of sample_env ''Account'' id_a ActionCreate sample_actor (Some code_doc)]\<rparr>)"
proof -
  have "tables_wf empty_db" using empty_inv by (simp add: schema_inv_def)
  then show ?thesis
    using sample_create create_all_or_nothing [OF sample_create] account_valid [of cv_amd64] sample_ids [of empty_db]
    by (simp add: account_create_fields sample_world_def) (simp add: db_a_def empty_db_def)
qed

lemma Update_table:
  assumes hooks: "hooks (d_entity_type d) = None"
    and run: "Update E hooks d rid f ev actor w = (Inr v, w')"
  shows "ValidateRecord (e_cv E) d f = None \<and> accountable actor \<and>
    (\<exists>u row. e_uuid E rid = Some u \<and> row \<in> set (db_records (w_db w)) \<and>
       update_hits (d_entity_type d) u ev row \<and> v = rr_version row + 1 \<and>
       db_records (w_db w') =
         upd_where (update_hits (d_entity_type d) u ev) (update_row f) (db_records (w_db w))) \<and>
    db_audit (w_db w') = db_audit (w_db w) @
      [audit_of E (d_entity_type d) rid ActionUpdate actor (Some f)]"
  using run
proof (cases rule: Update_success)
  case (1 w1 w2 w3 w4 w5 w6 w7 v0)
  have w3: "w_db w3 = w_db w"
    using 1(2-4) reads_target_constraints reads_check_self_references by (metis readsD)
  have w7: "w_db w7 = w_db w6" using 1(8) hooks by (simp add: runHook_def)
  have aud: "accountable actor \<and> w_db w6 = (w_db w5)\<lparr>db_audit := db_audit (w_db w5) @
      [audit_of E (d_entity_type d) rid ActionUpdate actor (Some f)]\<rparr>"
    using 1(7) by (rule write_audit_db)
  have k: "db_records (w_db w5) = db_records (w_db w4)" "db_audit (w_db w5) = db_audit (w_db w4)"
    using keepsD [OF update_keys_records 1(6), of "db_records (w_db w4)"]
      keepsD [OF update_keys_audit 1(6), of "db_audit (w_db w4)"] by simp_all
  obtain u row where "e_uuid E rid = Some u" "row \<in> set (db_records (w_db w3))"
    "update_hits (d_entity_type d) u ev row" "v0 = rr_version row + 1"
    and w4: "w_db w4 = (w_db w3)\<lparr>db_records :=
       upd_where (update_hits (d_entity_type d) u ev) (update_row f) (db_records (w_db w3))\<rparr>"
    using 1(5) by (rule UpdateTx_success)
  moreover have "v = v0" using 1(9) hooks by simp
  ultimately show ?thesis using 1(1,10) w3 w7 aud k by (simp add: w4) blast
qed

text \<open>
  \<open>Update\<close> is all or nothing: on an error the database is as it was; on success (and no
  hook on the type) the record was live, at the expected version if one was given, its stored
  document is the validated one at the next version, every other row is untouched, and exactly
  one audit entry by an accountable actor records it.
\<close>

theorem update_all_or_nothing:
  assumes "hooks (d_entity_type d) = None" and "Update E hooks d rid f ev actor w = (res, w')"
  shows "case res of
      Inl e \<Rightarrow> w_db w' = w_db w
    | Inr v \<Rightarrow>
        ValidateRecord (e_cv E) d f = None \<and> accountable actor \<and>
        (\<exists>u row. e_uuid E rid = Some u \<and> row \<in> set (db_records (w_db w)) \<and>
           update_hits (d_entity_type d) u ev row \<and> v = rr_version row + 1 \<and>
           db_records (w_db w') =
             upd_where (update_hits (d_entity_type d) u ev) (update_row f) (db_records (w_db w))) \<and>
        db_audit (w_db w') = db_audit (w_db w) @
          [audit_of E (d_entity_type d) rid ActionUpdate actor (Some f)]"
  using assms Update_error Update_table by (cases res) (fastforce, simp)

text \<open>An update of the sample account: a new code, and a parent that is not there.\<close>

definition child_doc :: fields where
  "child_doc = fmupd ''parent'' (VStr id_b) (fmupd ''code'' (VStr ''1000'') fmempty)"

definition db_a2 :: db where
  "db_a2 = db_a\<lparr>db_records := [row_a\<lparr>rr_data := child_doc, rr_version := 2\<rparr>],
     db_audit := [audit_a, audit_a\<lparr>al_action := ActionUpdate, al_diff := Some child_doc\<rparr>]\<rparr>"

lemma child_doc_lookup [simp]:
  "get_field child_doc ''code'' = VStr ''1000''" "get_field child_doc ''parent'' = VStr id_b"
  "str_field child_doc ''parent'' = id_b" "str_field child_doc ''code'' = ''1000''"
  by (simp_all add: child_doc_def get_field_def str_field_def)

lemma child_doc_json [simp]: "json_ok_fields child_doc" "json_norm_fields child_doc = child_doc"
  by (simp_all add: json_ok_fields_iff child_doc_def json_norm_fields_def fmmap_fmupd)

lemma child_doc_valid: "ValidateRecord cv account_def child_doc = None"
  by (simp add: ValidateRecord_def validate_field_def validateFieldValue_def validateNotBefore_def
      nb_compare.simps field_map_def too_long_def mk_field_def trim_1000 Let_def)

lemma walk_max:
  "walk_chain E et rid n maxReferenceChainWalk visited cur =
     (if cur = rid then fail (ErrReferenceCycle et n)
      else if cur \<in> set visited then ret ()
      else bindM (optionalM (GetTxIncludingDeleted E et cur)) (\<lambda>t.
        case t of
          None \<Rightarrow> ret ()
        | Some r \<Rightarrow>
            let nxt = str_field (rec_data r) n in
            if nxt = [] then ret ()
            else case Canonical nxt of
              None \<Rightarrow> ret ()
            | Some c \<Rightarrow> walk_chain E et rid n 9999 (cur # visited) c))"
  using walk_chain.simps(2) [of E et rid n 9999 visited cur] by (simp add: maxReferenceChainWalk_def)

lemma sample_update:
  "Update sample_env Map.empty account_def id_a child_doc (Some 1) sample_actor (sample_world db_a) =
     (Inr 2, sample_world db_a2)"
  by (simp add: Update_def update_body_def validation_def child_doc_valid check_self_references_def
      selfReferenceFields_def LockSelfReferenceChainTx_def check_self_reference_def
      canonical_or_self_def checkSelfReferenceCycle_def walk_max optionalM_def catchM_def
      GetTxIncludingDeleted_def get_where_def final_version_def
      checkReferenceTargetConstraints_def check_field_target_def mk_field_def UpdateTx_def
      UpdateUniqueConstraintKeys_def updateConstraintKey_def with_key_def uniqueKeyValue_def
      canonicalSort_def trim_1000 as_violation_def UpdateValueTx_def int4_arg_def max_int4_def
      upd_where_def update_hits_def update_row_def live_def owned_def UniqueConstraintName_def
      write_audit_def audit_New_def Actor_Validate_def audit_Insert_def
      audit_row_def nullable_def InputHash_def sample_actor_def runHook_def
      sample_world_def empty_db_def db_a_def db_a2_def row_a_def audit_a_def
      Canonical_id_a Canonical_id_b stmt_eval Let_def)

theorem update_all_or_nothing_witness:
  "Update sample_env Map.empty account_def id_a child_doc (Some 1) sample_actor (sample_world db_a) =
     (Inr 2, sample_world db_a2) \<and>
   accountable sample_actor \<and> length (db_audit db_a2) = 2"
  using sample_update update_all_or_nothing [OF _ sample_update]
  by (simp add: db_a2_def)

section \<open>Unique sets, versions, hierarchies, targets\<close>

text \<open>
  C5. Unique sets hold over every history: starting from a database that satisfies the schema's
  invariant (an empty one does), after any sequence of creates, updates and deletes on valid
  definitions, of which any statement may fail, no two different live records of a type agree
  on all fields of one of its unique sets, unless one of those fields is absent or blank.
\<close>

theorem unique_sets_hold:
  assumes "valid_schema E S" and "hooks_keep (schema_inv E S) hooks"
    and "(engine_step E S hooks)\<^sup>*\<^sup>* empty_db D"
    and "d \<in> S" and "s \<in> set (d_unique d)"
    and "r1 \<in> set (db_records D)" and "live (d_entity_type d) r1"
    and "r2 \<in> set (db_records D)" and "live (d_entity_type d) r2"
    and "same_key s (rr_data r1) (rr_data r2)"
  shows "r1 = r2"
proof -
  have "schema_inv E S D"
    using assms(3,1,2) empty_inv by (rule engine_history_inv)
  then show ?thesis using assms(4-10) by (rule schema_inv_unique)
qed

theorem unique_sets_hold_witness:
  "(engine_step sample_env {account_def} Map.empty)\<^sup>*\<^sup>* empty_db db_a \<and>
   row_a \<in> set (db_records db_a) \<and> live ''Account'' row_a \<and>
   same_key [''code''] (rr_data row_a) (rr_data row_a) \<and> row_a = row_a"
proof -
  have h: "(engine_step sample_env {account_def} Map.empty)\<^sup>*\<^sup>* empty_db db_a"
    using sample_step by blast
  have r: "row_a \<in> set (db_records db_a)" by (simp add: db_a_def)
  have l: "live ''Account'' row_a" by (simp add: live_def row_a_def)
  have k: "same_key [''code''] (rr_data row_a) (rr_data row_a)"
    by (simp add: same_key_def row_a_def trim_1000)
  have "row_a = row_a"
    by (rule unique_sets_hold [OF sample_schema hooks_keep_empty h, of account_def "[''code'']"])
      (simp_all add: r l k)
  then show ?thesis using h r l k by (intro conjI)
qed

text \<open>
  C6. No update is lost: when two updates of a record expect the same version and the first
  succeeded, the second one fails and changes nothing, whatever updates were made in between.
\<close>

theorem updates_never_lost:
  assumes "world_wf w" and "Update E Map.empty d rid f1 (Some n) actor1 w = (Inr m, w1)"
    and "(\<lambda>x y. \<exists>k g ev actor r. Update E Map.empty d k g ev actor x = (r, y))\<^sup>*\<^sup>* w1 w2"
    and "Update E Map.empty d rid f2 (Some n) actor2 w2 = (r, w3)"
  shows "\<exists>e. r = Inl e \<and> live_doc E (d_entity_type d) w3 = live_doc E (d_entity_type d) w2"
proof -
  have "engine.call E d = (\<lambda>x y. \<exists>k g ev actor r. Update E Map.empty d k g ev actor x = (r, y))"
    unfolding engine.call_def fun_eq_iff by (metis (no_types, lifting) case_prod_conv surj_pair)
  then show ?thesis
    using engine.no_lost_update [of w E d rid "(f1, actor1)" n m w1 w2 "(f2, actor2)" r w3] assms by simp
qed

theorem updates_never_lost_witness:
  "\<exists>e w3. Update sample_env Map.empty account_def id_a child_doc (Some 1) sample_actor
     (sample_world db_a2) = (Inl e, w3)"
proof -
  obtain r w3 where second: "Update sample_env Map.empty account_def id_a child_doc (Some 1)
      sample_actor (sample_world db_a2) = (r, w3)" by fastforce
  have "world_wf (sample_world db_a)"
    using db_a_inv by (simp add: world_wf_def schema_inv_def sample_world_def)
  then show ?thesis
    using updates_never_lost [OF _ sample_update rtranclp.rtrancl_refl second] second by blast
qed

text \<open>
  C7. Hierarchies stay acyclic: an update, successful or not, of a type with a field that
  refers to its own type never closes a cycle in the stored parent graph, deleted records
  included and whichever spelling of an id the document uses.
\<close>

theorem hierarchy_stays_acyclic:
  assumes "pg_uuid E" and "tables_wf (w_db w)" and "f \<in> set (selfReferenceFields d)"
    and "hooks_keep (\<lambda>D. acyclic (parent_rel (d_entity_type d) (f_name f) D)) hooks"
    and "acyclic (parent_rel (d_entity_type d) (f_name f) (w_db w))"
    and "Update E hooks d rid flds ev actor w = (r, w')"
  shows "acyclic (parent_rel (d_entity_type d) (f_name f) (w_db w'))"
  using Update_acyclic [OF assms(1,3) _ assms(5,4,6)] assms(2) by (simp add: tables_wf_def)

lemma sample_pg_uuid: "pg_uuid sample_env"
  by (simp add: pg_uuid_def is_canonical_def)

theorem hierarchy_stays_acyclic_witness:
  "parent_rel ''Account'' ''parent'' db_a2 = {(id_a, id_b)} \<and> acyclic (parent_rel ''Account'' ''parent'' db_a2)"
proof -
  let ?f = "(mk_field ''parent'' FieldReference)\<lparr>f_target := ''Account''\<rparr>"
  have f: "?f \<in> set (selfReferenceFields account_def)" "f_name ?f = ''parent''"
    by (simp_all add: selfReferenceFields_def mk_field_def)
  have "tables_wf db_a" using db_a_inv by (simp add: schema_inv_def)
  then have wf: "tables_wf (w_db (sample_world db_a))" by (simp add: sample_world_def)
  have "parent_rel ''Account'' ''parent'' db_a = {}"
    by (simp add: parent_rel_def db_a_def row_a_def parent_id_def)
  then have ac: "acyclic (parent_rel (d_entity_type account_def) (f_name ?f) (w_db (sample_world db_a)))"
    using f(2) by (simp add: sample_world_def acyclic_def)
  have "acyclic (parent_rel (d_entity_type account_def) (f_name ?f) (w_db (sample_world db_a2)))"
    by (rule hierarchy_stays_acyclic [OF sample_pg_uuid wf f(1) hooks_keep_empty ac sample_update])
  moreover have "parent_rel ''Account'' ''parent'' db_a2 = {(id_a, id_b)}"
    by (simp add: parent_rel_def db_a2_def row_a_def parent_id_def Canonical_id_b)
  ultimately show ?thesis using f(2) by (simp add: sample_world_def)
qed

text \<open>
  C8. Declared target conditions are enforced on references in the hyphenated spelling: after a
  successful create or update, every reference of the document that is written as 8-4-4-4-12
  hexadecimal digits, of either case, and names a live record of the field's target type names one
  that satisfies all the field's conditions and agrees with the field's parent (judged on the
  database the call started from). References in the other spellings Postgres reads escape the
  check, as \<open>other_spelling_escapes_filters\<close> shows.
\<close>

theorem written_targets_satisfy_filters:
  assumes "tables_wf (w_db w)" and "f \<in> set (d_fields d)"
    and "Create E hooks d fo actor w = (Inr r, w1) \<and> flds = create_fields d fo \<or>
      Update E hooks d rid flds ev actor w = (Inr v, w2)"
  shows "target_ok E (w_db w) flds f"
proof -
  have wf: "records_wf (w_db w)" using assms(1) by (simp add: tables_wf_def)
  from assms(3) show ?thesis
  proof
    assume c: "Create E hooks d fo actor w = (Inr r, w1) \<and> flds = create_fields d fo"
    then show ?thesis
      using checkReferenceTargetConstraints_ok [OF _ _ assms(2)] wf
      by (elim conjE Create_success) metis
  next
    assume "Update E hooks d rid flds ev actor w = (Inr v, w2)"
    then show ?thesis
    proof (cases rule: Update_success)
      case (1 w1 w2 w3 w4 w5 w6 w7 v0)
      have "w_db w2 = w_db w" using 1(2,3) reads_check_self_references by (metis readsD)
      then show ?thesis using checkReferenceTargetConstraints_ok [OF 1(4) _ assms(2)] wf by simp
    qed
  qed
qed

text \<open>
  The check takes a reference that is not in the hyphenated spelling for one that names nothing. But
  Postgres reads an id in braces, or without hyphens, as the same uuid.
\<close>

lemma other_spelling_escapes_filters:
  "Canonical (''{'' @ id_a @ ''}'') = Some id_a \<and> \<not> looksLikeUUID (''{'' @ id_a @ ''}'') \<and>
   (\<not> looksLikeUUID (str_field flds (f_name f)) \<longrightarrow> check_field_target E et flds f w = (Inr (), w))"
proof (intro conjI impI)
  show "Canonical (''{'' @ id_a @ ''}'') = Some id_a"
    by (simp add: id_a_def Canonical_def strip_braces_def hyphenate_def hex_eval)
  show "\<not> looksLikeUUID (''{'' @ id_a @ ''}'')"
    unfolding looksLikeUUID_def by (auto simp: uuid_shape_def id_a_def dest: list_all2_lengthD)
  assume "\<not> looksLikeUUID (str_field flds (f_name f))"
  then show "check_field_target E et flds f w = (Inr (), w)"
    by (simp add: check_field_target_def check_target_filter_def check_must_match_parent_def loadTarget_def Let_def)
qed

definition filtered_def :: Definition where
  "filtered_def =
     mk_definition ''Account''
       [(mk_field ''code'' FieldString)\<lparr>f_required := True\<rparr>,
        (mk_field ''parent'' FieldReference)\<lparr>f_target := ''Account'',
          f_target_filter :=
            [\<lparr>tf_entity = [], tf_entity_field = [], tf_field = ''code'', tf_value = ''1000''\<rparr>]\<rparr>]"

definition under_a :: fields where
  "under_a = fmupd ''parent'' (VStr id_a) (fmupd ''code'' (VStr ''1100'') fmempty)"

lemma filtered_sel [simp]:
  "d_entity_type filtered_def = ''Account''" "d_unique filtered_def = []" "d_unique_when filtered_def = []"
  "d_fields filtered_def =
       [(mk_field ''code'' FieldString)\<lparr>f_required := True\<rparr>,
        (mk_field ''parent'' FieldReference)\<lparr>f_target := ''Account'',
          f_target_filter :=
            [\<lparr>tf_entity = [], tf_entity_field = [], tf_field = ''code'', tf_value = ''1000''\<rparr>]\<rparr>]"
  by (simp_all add: filtered_def_def mk_definition_def)

lemma under_a_lookup [simp]:
  "get_field under_a ''code'' = VStr ''1100''" "get_field under_a ''parent'' = VStr id_a"
  "str_field under_a ''parent'' = id_a" "str_field under_a ''code'' = ''1100''"
  by (simp_all add: under_a_def get_field_def str_field_def)

lemma under_a_json [simp]: "json_ok_fields under_a" "json_norm_fields under_a = under_a"
  by (simp_all add: json_ok_fields_iff under_a_def json_norm_fields_def fmmap_fmupd)

lemma under_a_valid: "ValidateRecord cv filtered_def under_a = None"
  by (simp add: ValidateRecord_def validate_field_def validateFieldValue_def validateNotBefore_def
      nb_compare.simps field_map_def too_long_def mk_field_def trim_eval Let_def)

lemma looks_id_a: "looksLikeUUID id_a"
  by (simp add: looksLikeUUID_def uuid_shape_def id_a_def hex_eval numeral_eq_Suc)

definition next_world :: world where
  "next_world = (sample_world db_a)\<lparr>w_newid := (\<lambda>_. id_b)\<rparr>"

lemma sample_filtered_create:
  "\<exists>r w'. Create sample_env Map.empty filtered_def (Some under_a) sample_actor next_world = (Inr r, w')"
proof -
  have f: "create_fields filtered_def (Some under_a) = under_a"
    by (simp add: create_fields_def ApplyDefaults_def apply_default_def mk_field_def)
  show ?thesis
    by (simp add: Create_def create_body_def validation_def f under_a_valid
        checkReferenceTargetConstraints_def check_field_target_def check_target_filter_def
        check_target_condition_def check_must_match_parent_def loadTarget_def optionalM_def catchM_def
        GetTx_def get_where_def live_def valueMatches_def looks_id_a mk_field_def selfReferenceFields_def CreateTx_def WriteUniqueConstraintKeys_def
        write_audit_def audit_New_def Actor_Validate_def audit_Insert_def audit_row_def nullable_def
        InputHash_def sample_actor_def runHook_def next_world_def
        sample_world_def empty_db_def db_a_def row_a_def audit_a_def Canonical_id_a Canonical_id_b
        stmt_eval Let_def)
qed

theorem written_targets_satisfy_filters_witness:
  "target_ok sample_env db_a under_a
     ((mk_field ''parent'' FieldReference)\<lparr>f_target := ''Account'', f_target_filter :=
       [\<lparr>tf_entity = [], tf_entity_field = [], tf_field = ''code'', tf_value = ''1000''\<rparr>]\<rparr>)"
    (is "target_ok _ _ _ ?f")
proof -
  obtain r w' where c: "Create sample_env Map.empty filtered_def (Some under_a) sample_actor next_world = (Inr r, w')"
    using sample_filtered_create by blast
  have "tables_wf db_a" using db_a_inv by (simp add: schema_inv_def)
  then have wf: "tables_wf (w_db next_world)" by (simp add: next_world_def sample_world_def)
  have f: "?f \<in> set (d_fields filtered_def)" by simp
  have "create_fields filtered_def (Some under_a) = under_a"
    by (simp add: create_fields_def ApplyDefaults_def apply_default_def mk_field_def)
  then have "target_ok sample_env (w_db next_world) under_a ?f"
    using written_targets_satisfy_filters [OF wf f] c by metis
  then show ?thesis by (simp add: next_world_def sample_world_def)
qed

end
