(* ===== verification/Backfill.thy ===== *)
theory Backfill
  imports UniqueKeys TargetConstraints
begin

text \<open>
  The walks over existing records that go with a newly declared constraint
  (\<open>internal/kernel/crud/unique_constraints.go\<close>, \<open>target_constraints.go\<close>): the counts of records that
  violate it, and the backfill of the key table.
\<close>

section \<open>A page at a time\<close>

definition pageSize :: nat where
  "pageSize = 200"

text \<open>The loop over one page. An error ends it, with what was counted until then.\<close>

fun page_loop :: "(Record \<Rightarrow> 's \<Rightarrow> 's dbm) \<Rightarrow> Record list \<Rightarrow> 's \<Rightarrow> world \<Rightarrow> ('s \<times> err option) \<times> world" where
  "page_loop body [] s w = ((s, None), w)"
| "page_loop body (r # rs) s w =
     (case body r s w of
        (Inl e, w1) \<Rightarrow> ((s, Some e), w1)
      | (Inr s1, w1) \<Rightarrow> page_loop body rs s1 w1)"

text \<open>
  The loop over the pages, which ends on a short page. That it ends at all is a theorem about the
  body: \<open>None\<close> is a walk that goes on for ever.
\<close>

partial_function (option) walk_pages ::
    "(Record \<Rightarrow> 's \<Rightarrow> 's dbm) \<Rightarrow> string \<Rightarrow> nat \<Rightarrow> 's \<Rightarrow> world \<Rightarrow> (('s \<times> err option) \<times> world) option" where
  "walk_pages body et offset s w =
     (case ListPage et (int pageSize) (int offset) w of
        (Inl e, w1) \<Rightarrow> Some ((s, Some e), w1)
      | (Inr page, w1) \<Rightarrow>
          if page = [] then Some ((s, None), w1)
          else
            (case page_loop body page s w1 of
               ((s1, Some e), w2) \<Rightarrow> Some ((s1, Some e), w2)
             | ((s1, None), w2) \<Rightarrow>
                 if length page < pageSize then Some ((s1, None), w2)
                 else walk_pages body et (offset + pageSize) s1 w2))"

section \<open>Counting what violates a unique set\<close>

text \<open>\<open>seen[value]++\<close>\<close>

fun bump :: "string \<Rightarrow> (string \<times> nat) list \<Rightarrow> (string \<times> nat) list" where
  "bump v [] = [(v, 1)]"
| "bump v ((x, n) # seen) = (if x = v then (x, n + 1) # seen else (x, n) # bump v seen)"

type_synonym keyfun = "fields \<Rightarrow> (err, string option) result"

definition tally :: "keyfun \<Rightarrow> Record \<Rightarrow> (string \<times> nat) list \<Rightarrow> (string \<times> nat) list dbm" where
  "tally key r seen =
     (case key (rec_data r) of
        Inl e \<Rightarrow> fail e
      | Inr None \<Rightarrow> ret seen
      | Inr (Some v) \<Rightarrow> ret (bump v seen))"

definition violations :: "(string \<times> nat) list \<Rightarrow> nat" where
  "violations seen = sum_list (map snd (filter (\<lambda>(v, n). 1 < n) seen))"

definition count_walk :: "keyfun \<Rightarrow> string \<Rightarrow> world \<Rightarrow> ((err + nat) \<times> world) option" where
  "count_walk key et w =
     map_option (\<lambda>((seen, e), w1). (case e of Some e \<Rightarrow> Inl e | None \<Rightarrow> Inr (violations seen), w1))
       (walk_pages (tally key) et 0 [] w)"

definition CountUniqueConstraintViolations ::
    "env \<Rightarrow> string \<Rightarrow> string list \<Rightarrow> world \<Rightarrow> ((err + nat) \<times> world) option" where
  "CountUniqueConstraintViolations E et fs = count_walk (uniqueKeyValue E (canonicalSort fs)) et"

definition CountConditionalUniqueConstraintViolations ::
    "env \<Rightarrow> string \<Rightarrow> ConditionalUnique \<Rightarrow> world \<Rightarrow> ((err + nat) \<times> world) option" where
  "CountConditionalUniqueConstraintViolations E et cu = count_walk (conditionalKeyValue E cu) et"

section \<open>Backfilling the keys\<close>

text \<open>One record: the pair counts the backfilled and the skipped.\<close>

definition back_one :: "env \<Rightarrow> keyfun \<Rightarrow> string \<Rightarrow> string \<Rightarrow> Record \<Rightarrow> nat \<times> nat \<Rightarrow> (nat \<times> nat) dbm" where
  "back_one E key et cn r = (\<lambda>(backfilled, skipped).
     case key (rec_data r) of
       Inl e \<Rightarrow> fail e
     | Inr None \<Rightarrow> ret (backfilled, skipped)
     | Inr (Some v) \<Rightarrow>
         catchM (bindM (InsertTx E et cn v (rec_id r)) (\<lambda>_. ret (backfilled + 1, skipped)))
           (\<lambda>e. if e = ErrUniqueKeyConflict then ret (backfilled, skipped + 1) else fail e))"

definition BackfillUniqueConstraintKeys ::
    "env \<Rightarrow> string \<Rightarrow> string list \<Rightarrow> world \<Rightarrow> (((nat \<times> nat) \<times> err option) \<times> world) option" where
  "BackfillUniqueConstraintKeys E et fs w =
     (let srt = canonicalSort fs in
      walk_pages (back_one E (uniqueKeyValue E srt) et (UniqueConstraintName srt)) et 0 (0, 0) w)"

definition BackfillConditionalUniqueConstraintKeys ::
    "env \<Rightarrow> string \<Rightarrow> ConditionalUnique \<Rightarrow> world \<Rightarrow> (((nat \<times> nat) \<times> err option) \<times> world) option" where
  "BackfillConditionalUniqueConstraintKeys E et cu w =
     walk_pages (back_one E (conditionalKeyValue E cu) et (ConditionalUniqueConstraintName cu)) et 0 (0, 0) w"

section \<open>Counting what violates the constraints of a reference\<close>

definition count_target :: "env \<Rightarrow> Definition \<Rightarrow> Record \<Rightarrow> nat \<Rightarrow> nat dbm" where
  "count_target E narrow r n =
     catchM (thenM (checkReferenceTargetConstraints E narrow (rec_data r)) (ret n))
       (\<lambda>e. case e of ErrTargetConstraintViolation _ _ _ _ \<Rightarrow> ret (n + 1) | _ \<Rightarrow> fail e)"

definition CountTargetConstraintViolations ::
    "env \<Rightarrow> Definition \<Rightarrow> string \<Rightarrow> world \<Rightarrow> ((err + nat) \<times> world) option" where
  "CountTargetConstraintViolations E d name w =
     (case FieldByName d name of
        None \<Rightarrow> Some (Inr 0, w)
      | Some f \<Rightarrow>
          if f_type f \<noteq> FieldReference \<or> f_target_filter f = [] \<and> f_must_match f = [] then Some (Inr 0, w)
          else
            map_option (\<lambda>((n, e), w1). (case e of Some e \<Rightarrow> Inl e | None \<Rightarrow> Inr n, w1))
              (walk_pages (count_target E (mk_definition (d_entity_type d) [f])) (d_entity_type d) 0 0 w))"

end
