(* ===== verification/Depreciation.thy ===== *)
theory Depreciation
  imports Money GoTime "HOL-Library.Signed_Division"
begin

text \<open>
  Straight-line depreciation (\<open>internal/kernel/assets/depreciation.go\<close>): the schedule of an asset in
  integer minor units, one row for each month of its useful life.
\<close>

section \<open>The code\<close>

definition MethodStraightLine :: string where
  "MethodStraightLine = ''straight_line''"

record Input =
  in_method :: string
  in_date :: string
  in_cost :: i64
  in_salvage :: i64
  in_life :: i64

record Period =
  pd_sequence :: nat
  pd_end :: string
  pd_charge :: i64
  pd_book :: i64

datatype schedule_error =
  UnsupportedMethod
| BadAcquisitionDate
| BadUsefulLife
| NegativeAmount
| SalvageAboveCost

definition MaxUsefulLifeMonths :: i64 where
  "MaxUsefulLifeMonths = 1200"

definition MinorUnits :: "(f64 \<Rightarrow> i64) \<Rightarrow> f64 \<Rightarrow> int \<Rightarrow> (money_error, i64) result" where
  "MinorUnits cv v minorUnit = FromMajorUnits cv v minorUnit"

text \<open>
  The parts of the \<open>time\<close> package used here: \<open>AddDate(0, n, 0)\<close> of the first of a month, the day
  before a date, and \<open>Format("2006-01-02")\<close>, which pads the year to four digits but does not cut it.
\<close>

definition add_months :: "nat \<Rightarrow> date \<Rightarrow> date" where
  "add_months n d =
     d\<lparr>d_year := d_year d + (d_month d - 1 + n) div 12, d_month := (d_month d - 1 + n) mod 12 + 1\<rparr>"

definition day_before :: "date \<Rightarrow> date" where
  "day_before d =
     (if 1 < d_day d then d\<lparr>d_day := d_day d - 1\<rparr>
      else if 1 < d_month d then d\<lparr>d_month := d_month d - 1, d_day := days_in (d_year d) (d_month d - 1)\<rparr>
      else d\<lparr>d_year := d_year d - 1, d_month := 12, d_day := 31\<rparr>)"

definition zeros_to :: "nat \<Rightarrow> string \<Rightarrow> string" where
  "zeros_to n s = replicate (n - length s) (CHR ''0'') @ s"

definition FormatDate :: "date \<Rightarrow> string" where
  "FormatDate d =
     zeros_to 4 (show_nat (d_year d)) @ ''-'' @ zeros_to 2 (show_nat (d_month d)) @ ''-'' @
     zeros_to 2 (show_nat (d_day d))"

definition endOfMonth :: "date \<Rightarrow> nat \<Rightarrow> string" where
  "endOfMonth start i =
     (let first = start\<lparr>d_day := 1\<rparr>; nxt = add_months (i + 1) first in FormatDate (day_before nxt))"

text \<open>The loop of \<open>Build\<close>, with the rows left, the index and the book value.\<close>

fun build_rows :: "date \<Rightarrow> i64 \<Rightarrow> i64 \<Rightarrow> nat \<Rightarrow> nat \<Rightarrow> i64 \<Rightarrow> Period list" where
  "build_rows start per rm 0 i book = []"
| "build_rows start per rm (Suc k) i book =
     (let amount = (if of_nat i <s rm then per + 1 else per); book = book - amount in
      \<lparr>pd_sequence = i + 1, pd_end = endOfMonth start i, pd_charge = amount, pd_book = book\<rparr> #
      build_rows start per rm k (Suc i) book)"

definition Build :: "Input \<Rightarrow> (schedule_error, Period list) result" where
  "Build inp =
     (if in_method inp \<noteq> MethodStraightLine then Inl UnsupportedMethod
      else case ParseDate (in_date inp) of
        None \<Rightarrow> Inl BadAcquisitionDate
      | Some start \<Rightarrow>
          if in_life inp <=s 0 \<or> MaxUsefulLifeMonths <s in_life inp then Inl BadUsefulLife
          else if in_cost inp <s 0 \<or> in_salvage inp <s 0 then Inl NegativeAmount
          else if in_cost inp <s in_salvage inp then Inl SalvageAboveCost
          else
            (let base = in_cost inp - in_salvage inp; n = in_life inp;
                 per = word_of_int (sint base sdiv sint n); rm = word_of_int (sint base smod sint n)
             in Inr (build_rows start per rm (unat n) 0 (in_cost inp))))"

section \<open>The schedule\<close>

text \<open>The last day of the month \<open>i\<close> months after a date.\<close>

definition month_end :: "date \<Rightarrow> nat \<Rightarrow> date" where
  "month_end start i =
     (let m = d_month start - 1 + i; y = d_year start + m div 12 in
      \<lparr>d_year = y, d_month = m mod 12 + 1, d_day = days_in y (m mod 12 + 1)\<rparr>)"

lemma endOfMonth_month_end: "endOfMonth start i = FormatDate (month_end start i)"
proof -
  define m where "m = d_month start - Suc 0 + i"
  have "day_before (add_months (i + 1) (start\<lparr>d_day := 1\<rparr>)) = month_end start i"
  proof (cases "m mod 12 = 11")
    case True
    then have "(m + 1) div 12 = m div 12 + 1" "(m + 1) mod 12 = 0" by (simp_all add: mod_Suc div_Suc)
    then have "add_months (i + 1) (start\<lparr>d_day := 1\<rparr>) = \<lparr>d_year = d_year start + m div 12 + 1, d_month = 1, d_day = 1\<rparr>"
      by (cases start) (simp add: add_months_def m_def)
    then show ?thesis using True by (simp add: day_before_def month_end_def days_in_def Let_def flip: m_def)
  next
    case False
    then have "(m + 1) div 12 = m div 12" "(m + 1) mod 12 = m mod 12 + 1" by (simp_all add: mod_Suc div_Suc)
    then have "add_months (i + 1) (start\<lparr>d_day := 1\<rparr>) = \<lparr>d_year = d_year start + m div 12, d_month = m mod 12 + 2, d_day = 1\<rparr>"
      by (cases start) (simp add: add_months_def m_def)
    then show ?thesis by (simp add: day_before_def month_end_def Let_def flip: m_def)
  qed
  then show ?thesis by (simp add: endOfMonth_def Let_def)
qed

definition charge :: "int \<Rightarrow> int \<Rightarrow> nat \<Rightarrow> int" where
  "charge per rm i = per + of_bool (int i < rm)"

lemma sum_charges:
  assumes "0 \<le> rm"
  shows "(\<Sum>j < k. charge per rm j) = int k * per + min (int k) rm"
  using assms by (induction k) (auto simp: charge_def algebra_simps min_def)

lemma fits64_between: "0 \<le> x \<Longrightarrow> x \<le> sint (y :: i64) \<Longrightarrow> fits64 x"
  using fits64_sint [of y] by (auto simp: fits64_def)

lemma build_rows_at:
  assumes "0 \<le> p" "0 \<le> r" "i + k \<le> 1200" "sint (per :: i64) = p" "sint rm = r"
    and "sint book = b - (\<Sum>j < i. charge p r j)" "(\<Sum>j < i + k. charge p r j) \<le> b" "fits64 b"
  shows "length (build_rows start per rm k i book) = k \<and>
    (\<forall>n < k. build_rows start per rm k i book ! n =
       \<lparr>pd_sequence = i + n + 1, pd_end = endOfMonth start (i + n), pd_charge = word_of_int (charge p r (i + n)),
        pd_book = word_of_int (b - (\<Sum>j < i + n + 1. charge p r j))\<rparr>)"
  using assms
proof (induction k arbitrary: i book)
  case (Suc k)
  let ?amount = "if of_nat i <s rm then per + 1 else per"
  have c0: "0 \<le> charge p r j" for j using Suc.prems(1) by (simp add: charge_def)
  have up: "(\<Sum>j < i + 1. charge p r j) \<le> (\<Sum>j < i + Suc k. charge p r j)"
    by (rule sum_mono2) (use c0 in auto)
  have below: "(\<Sum>j < i. charge p r j) \<ge> 0" by (rule sum_nonneg) (use c0 in auto)
  have i: "sint (of_nat i :: i64) = int i"
    using Suc.prems(3) by (simp add: sint_word_of_nat64)
  have am: "?amount = word_of_int (charge p r i)"
    using Suc.prems(4,5) i by (auto simp: charge_def word_sless_alt simp flip: wi_hom_add)
  have b1: "0 \<le> b - (\<Sum>j < i + 1. charge p r j)" "b - (\<Sum>j < i + 1. charge p r j) \<le> b"
    using up Suc.prems(7) below c0 [of i] by simp_all
  have "book - ?amount = word_of_int (b - (\<Sum>j < i + 1. charge p r j))"
  proof -
    have "book = word_of_int (b - (\<Sum>j < i. charge p r j))"
      unfolding Suc.prems(6) [symmetric] by simp
    moreover have "b - (\<Sum>j < i + 1. charge p r j) = b - (\<Sum>j < i. charge p r j) - charge p r i" by simp
    ultimately show ?thesis unfolding am by (simp only: wi_hom_sub)
  qed
  moreover have "sint (word_of_int (b - (\<Sum>j < i + 1. charge p r j)) :: i64) = b - (\<Sum>j < Suc i. charge p r j)"
    using b1 Suc.prems(8) by (subst sint_word_of_int64) (auto simp: fits64_def)
  ultimately have rest: "length (build_rows start per rm k (Suc i) (book - ?amount)) = k \<and>
    (\<forall>n < k. build_rows start per rm k (Suc i) (book - ?amount) ! n =
       \<lparr>pd_sequence = Suc i + n + 1, pd_end = endOfMonth start (Suc i + n), pd_charge = word_of_int (charge p r (Suc i + n)),
        pd_book = word_of_int (b - (\<Sum>j < Suc i + n + 1. charge p r j))\<rparr>)"
    using Suc.prems by (intro Suc.IH) simp_all
  show ?case
    using rest \<open>book - ?amount = _\<close> am by (auto simp: Let_def nth_Cons split: nat.split)
qed simp

text \<open>What \<open>Build\<close> answers on terms it accepts.\<close>

definition terms_ok :: "Input \<Rightarrow> bool" where
  "terms_ok inp \<longleftrightarrow>
     in_method inp = MethodStraightLine \<and> ParseDate (in_date inp) \<noteq> None \<and>
     1 \<le> sint (in_life inp) \<and> sint (in_life inp) \<le> 1200 \<and>
     0 \<le> sint (in_salvage inp) \<and> sint (in_salvage inp) \<le> sint (in_cost inp)"

lemma Build_accepts: "(\<exists>ps. Build inp = Inr ps) \<longleftrightarrow> terms_ok inp"
  by (auto simp: Build_def terms_ok_def MaxUsefulLifeMonths_def word_sle_eq word_sless_alt not_less Let_def
      split: option.split)

lemma Build_rows:
  fixes inp :: Input
  defines "b \<equiv> sint (in_cost inp)" and "n \<equiv> sint (in_life inp)"
    and "p \<equiv> (sint (in_cost inp) - sint (in_salvage inp)) div sint (in_life inp)"
    and "r \<equiv> (sint (in_cost inp) - sint (in_salvage inp)) mod sint (in_life inp)"
  assumes ok: "terms_ok inp" and start: "ParseDate (in_date inp) = Some start"
  obtains ps where "Build inp = Inr ps" "int (length ps) = n"
    "\<And>i. i < length ps \<Longrightarrow> ps ! i = \<lparr>pd_sequence = i + 1, pd_end = FormatDate (month_end start i),
       pd_charge = word_of_int (charge p r i), pd_book = word_of_int (b - (\<Sum>j < i + 1. charge p r j))\<rparr>"
    "(\<Sum>j < length ps. charge p r j) = b - sint (in_salvage inp)" "0 \<le> p" "0 \<le> r" "r < n"
proof -
  let ?base = "in_cost inp - in_salvage inp" and ?s = "sint (in_salvage inp)"
  have t: "in_method inp = MethodStraightLine" "1 \<le> n" "n \<le> 1200" "0 \<le> ?s" "?s \<le> b"
    using ok by (simp_all add: terms_ok_def b_def n_def)
  have base: "sint ?base = b - ?s"
  proof -
    have "?base = word_of_int (b - ?s)" by (simp add: b_def flip: wi_hom_sub)
    moreover have "fits64 (b - ?s)" using t fits64_between [of "b - ?s" "in_cost inp"] by (simp add: b_def)
    ultimately show ?thesis using sint_word_of_int64 by metis
  qed
  have pr: "0 \<le> p" "0 \<le> r" "r < n" "b - ?s = n * p + r"
    using t by (simp_all add: p_def r_def b_def n_def pos_imp_zdiv_nonneg_iff)
  have nn: "int (unat (in_life inp)) = n"
  proof -
    have "in_life inp = word_of_nat (nat n)"
      using t by (intro signed_word_eqI) (simp add: sint_word_of_nat64 n_def)
    then show ?thesis using t by (simp add: uint_word_of_int)
  qed
  let ?per = "word_of_int (sint ?base sdiv sint (in_life inp)) :: i64"
  let ?rm = "word_of_int (sint ?base smod sint (in_life inp)) :: i64"
  have "p \<le> b - ?s" using mult_right_mono [OF t(2) pr(1)] pr(2,4) by simp
  moreover have "r \<le> b - ?s" using pr(1,4) t(2) by simp
  ultimately have le: "p \<le> sint (in_cost inp)" "r \<le> sint (in_cost inp)"
    using t(4) unfolding b_def by linarith+
  have "sint ?base sdiv sint (in_life inp) = p" "sint ?base smod sint (in_life inp) = r"
    using t unfolding base by (simp_all add: sgn_if signed_divide_int_def signed_modulo_int_def p_def r_def b_def n_def)
  then have div: "sint ?per = p" "sint ?rm = r"
    using pr(1,2) le fits64_between by (simp_all add: sint_word_of_int64)
  have run: "Build inp = Inr (build_rows start ?per ?rm (unat (in_life inp)) 0 (in_cost inp))"
    using t start unfolding b_def n_def
    by (simp add: Build_def MaxUsefulLifeMonths_def word_sle_eq word_sless_alt Let_def)
  have total: "(\<Sum>j < unat (in_life inp). charge p r j) = b - ?s"
    using pr nn by (simp add: sum_charges min_def)
  note rows = build_rows_at [OF pr(1,2), of 0 "unat (in_life inp)" ?per ?rm "in_cost inp" b start]
  show thesis
  proof (rule that [OF run])
    show "int (length (build_rows start ?per ?rm (unat (in_life inp)) 0 (in_cost inp))) = n"
      using rows div nn t total by (simp add: b_def)
  qed (use rows div nn t total pr in \<open>simp_all add: b_def endOfMonth_month_end\<close>)
qed

lemma charge_nonneg: "0 \<le> p \<Longrightarrow> 0 \<le> charge p r j"
  by (simp add: charge_def)

lemma charge_le_total: "0 \<le> p \<Longrightarrow> j < n \<Longrightarrow> charge p r j \<le> (\<Sum>i < n. charge p r i)"
  by (rule member_le_sum) (simp_all add: charge_nonneg)

lemma prefix_le_total: "0 \<le> p \<Longrightarrow> k \<le> n \<Longrightarrow> (\<Sum>i < k. charge p r i) \<le> (\<Sum>i < n. charge p r i)"
  by (rule sum_mono2) (auto simp: charge_nonneg)

text \<open>
  C27. On terms it accepts, \<open>Build\<close> gives one row for each month of the life, numbered from one and
  dated with the ends of the months from the acquisition on. The charges add up to cost less
  salvage exactly, differ by at most one minor unit, and every book value is the cost less the
  charges so far, so that it never falls below the salvage value and ends on it.
\<close>

theorem depreciation_exact:
  assumes ok: "terms_ok inp" and start: "ParseDate (in_date inp) = Some start"
  shows "\<exists>ps. Build inp = Inr ps \<and> int (length ps) = sint (in_life inp) \<and>
    sum_list (map (sint \<circ> pd_charge) ps) = sint (in_cost inp) - sint (in_salvage inp) \<and>
    pd_book (last ps) = in_salvage inp \<and>
    (\<forall>i < length ps. pd_sequence (ps ! i) = i + 1 \<and> pd_end (ps ! i) = FormatDate (month_end start i) \<and>
       sint (pd_book (ps ! i)) = sint (in_cost inp) - sum_list (map (sint \<circ> pd_charge) (take (i + 1) ps)) \<and>
       0 \<le> sint (pd_charge (ps ! i)) \<and> sint (in_salvage inp) \<le> sint (pd_book (ps ! i))) \<and>
    (\<forall>x \<in> set ps. \<forall>y \<in> set ps. sint (pd_charge x) \<le> sint (pd_charge y) + 1)"
proof -
  let ?b = "sint (in_cost inp)" and ?s = "sint (in_salvage inp)"
  define p r where "p = (?b - ?s) div sint (in_life inp)" and "r = (?b - ?s) mod sint (in_life inp)"
  from Build_rows [OF ok start, folded p_def r_def] obtain ps where run: "Build inp = Inr ps"
    and len: "int (length ps) = sint (in_life inp)"
    and at: "\<And>i. i < length ps \<Longrightarrow> ps ! i = \<lparr>pd_sequence = i + 1, pd_end = FormatDate (month_end start i),
       pd_charge = word_of_int (charge p r i), pd_book = word_of_int (?b - (\<Sum>j < i + 1. charge p r j))\<rparr>"
    and total: "(\<Sum>j < length ps. charge p r j) = ?b - ?s" and p0: "0 \<le> p" "0 \<le> r" by blast
  have s: "0 \<le> ?s" "0 < length ps" using ok len by (auto simp: terms_ok_def)
  have ch: "sint (pd_charge (ps ! i)) = charge p r i" if "i < length ps" for i
  proof -
    have "charge p r i \<le> ?b" using charge_le_total [OF p0(1) that, of r] total s(1) by linarith
    then have "fits64 (charge p r i)" by (rule fits64_between [OF charge_nonneg [OF p0(1)]])
    then show ?thesis using at [OF that] by (simp add: sint_word_of_int64)
  qed
  have pre: "sum_list (map (sint \<circ> pd_charge) (take k ps)) = (\<Sum>j < k. charge p r j)" if "k \<le> length ps" for k
    using that ch by (simp add: sum_list_sum_nth atLeast0LessThan)
  have bk: "sint (pd_book (ps ! i)) = ?b - (\<Sum>j < i + 1. charge p r j)" "?s \<le> ?b - (\<Sum>j < i + 1. charge p r j)"
    if "i < length ps" for i
  proof -
    have "(\<Sum>j < i + 1. charge p r j) \<le> ?b - ?s" using prefix_le_total [OF p0(1), of "i + 1" "length ps" r] that total by simp
    moreover have "0 \<le> (\<Sum>j < i + 1. charge p r j)" by (rule sum_nonneg) (rule charge_nonneg [OF p0(1)])
    ultimately have le: "?s \<le> ?b - (\<Sum>j < i + 1. charge p r j)" "?b - (\<Sum>j < i + 1. charge p r j) \<le> ?b"
      by linarith+
    then show "?s \<le> ?b - (\<Sum>j < i + 1. charge p r j)" by blast
    have "pd_book (ps ! i) = word_of_int (?b - (\<Sum>j < i + 1. charge p r j))"
      by (simp only: at [OF that] Period.select_convs)
    moreover have "fits64 (?b - (\<Sum>j < i + 1. charge p r j))" by (rule fits64_between [OF order_trans [OF s(1) le(1)] le(2)])
    ultimately show "sint (pd_book (ps ! i)) = ?b - (\<Sum>j < i + 1. charge p r j)"
      by (simp only: sint_word_of_int64)
  qed
  have near: "sint (pd_charge x) \<le> sint (pd_charge y) + 1" if "x \<in> set ps" "y \<in> set ps" for x y
    using that ch by (auto simp: in_set_conv_nth charge_def)
  have "sint (pd_book (last ps)) = ?s"
    using bk(1) [of "length ps - 1"] s total by (simp add: last_conv_nth del: sum.lessThan_Suc)
  then have last: "pd_book (last ps) = in_salvage inp" by (simp add: signed_word_eqI)
  show ?thesis
    using run len last near pre [of "length ps"] total at ch bk pre charge_nonneg [OF p0(1)]
    by (intro exI [of _ ps]) (simp del: sum.lessThan_Suc)
qed

definition van :: Input where
  "van = \<lparr>in_method = ''straight_line'', in_date = ''2026-01-31'', in_cost = 10000, in_salvage = 1000, in_life = 7\<rparr>"

lemma van_date: "ParseDate (in_date van) = Some \<lparr>d_year = 2026, d_month = 1, d_day = 31\<rparr>"
  by (simp add: van_def digits_eval valid_date_def days_in_def Let_def)

theorem depreciation_exact_witness:
  "\<exists>ps. Build van = Inr ps \<and> length ps = 7 \<and> sum_list (map (sint \<circ> pd_charge) ps) = 9000 \<and>
     sint (pd_book (last ps)) = 1000 \<and> pd_end (ps ! 1) = ''2026-02-28''"
proof -
  have "terms_ok van" using van_date by (simp add: terms_ok_def van_def MethodStraightLine_def)
  from depreciation_exact [OF this van_date] obtain ps where ps: "Build van = Inr ps"
    "int (length ps) = sint (in_life van)" "sum_list (map (sint \<circ> pd_charge) ps) = sint (in_cost van) - sint (in_salvage van)"
    "pd_book (last ps) = in_salvage van"
    "\<forall>i < length ps. pd_end (ps ! i) = FormatDate (month_end \<lparr>d_year = 2026, d_month = 1, d_day = 31\<rparr> i)" by blast
  have "FormatDate (month_end \<lparr>d_year = 2026, d_month = 1, d_day = 31\<rparr> 1) = ''2026-02-28''"
    by (simp add: FormatDate_def month_end_def zeros_to_def days_in_def is_leap_def digits_eval Let_def
        flip: numeral_2_eq_2)
  then show ?thesis using ps by (intro exI [of _ ps]) (simp add: van_def)
qed

end
