(* ===== verification/CrudStatus.thy ===== *)
theory CrudStatus
  imports Locking
begin

text \<open>
  \<open>internal/kernel/crud/status.go\<close>: the check of a record's \<open>status_id\<close> against the graph of
  statuses its type declares, run by the handlers before \<open>Create\<close> and \<open>Update\<close>; and the contract
  that makes the check and the later update agree on the status the record moves from.
\<close>

section \<open>The check\<close>

definition Get :: "env \<Rightarrow> string \<Rightarrow> string \<Rightarrow> Record dbm" where
  "Get E et rid = get_where E (live et) et rid"

definition statusTypeIDByCode :: "env \<Rightarrow> string \<Rightarrow> string dbm" where
  "statusTypeIDByCode E code =
     bindM (ListByField E ''StatusType'' ''code'' code) (\<lambda>matches.
       case matches of [] \<Rightarrow> fail ErrInvalidTransition | m # _ \<Rightarrow> ret (rec_id m))"

text \<open>The new status: it has to exist and to belong to the status type.\<close>

definition new_status :: "env \<Rightarrow> string \<Rightarrow> string \<Rightarrow> Record dbm" where
  "new_status E stid new =
     bindM (catchM (Get E ''Status'' new)
         (\<lambda>e. if e = ErrNotFound then fail ErrInvalidTransition else fail e)) (\<lambda>st.
       if str_field (rec_data st) StatusTypeIDFieldName \<noteq> stid then fail ErrInvalidTransition
       else ret st)"

text \<open>The status the stored record has; none on a create.\<close>

definition current_status :: "env \<Rightarrow> Definition \<Rightarrow> string \<Rightarrow> bool \<Rightarrow> string dbm" where
  "current_status E d rid isCreate =
     (if isCreate then ret []
      else bindM (Get E (d_entity_type d) rid) (\<lambda>r. ret (str_field (rec_data r) StatusIDFieldName)))"

definition is_edge :: "string \<Rightarrow> string \<Rightarrow> fields \<Rightarrow> bool" where
  "is_edge from_id to_id t \<longleftrightarrow>
     str_field t ''from_status_id'' = from_id \<and> str_field t ''to_status_id'' = to_id"

definition check_edge ::
    "env \<Rightarrow> string \<Rightarrow> string \<Rightarrow> string \<Rightarrow> int option \<Rightarrow> unit dbm" where
  "check_edge E stid cur new ev =
     bindM (ListByField E ''StatusTransition'' StatusTypeIDFieldName stid) (\<lambda>ts.
       if \<not> list_ex (\<lambda>t. is_edge cur new (rec_data t)) ts then fail ErrInvalidTransition
       else if ev = None then fail ErrInvalidTransition
       else ret ())"

definition ValidateStatusTransition ::
    "env \<Rightarrow> Definition \<Rightarrow> string \<Rightarrow> fields \<Rightarrow> bool \<Rightarrow> int option \<Rightarrow> unit dbm" where
  "ValidateStatusTransition E d rid flds isCreate ev =
     (let new = str_field flds StatusIDFieldName in
      if d_status_type_code d = [] then ret ()
      else if new = [] then (if isCreate then fail ErrStatusRequired else ret ())
      else
        bindM (statusTypeIDByCode E (d_status_type_code d)) (\<lambda>stid.
        bindM (new_status E stid new) (\<lambda>st.
        bindM (current_status E d rid isCreate) (\<lambda>cur.
          if cur = [] then
            (if bool_field (rec_data st) ''is_initial'' then ret () else fail ErrInvalidTransition)
          else if cur = new then (if ev = None then fail ErrInvalidTransition else ret ())
          else check_edge E stid cur new ev))))"

lemma reads_Get [reads_intro]: "reads (Get E et rid)"
  unfolding Get_def by (rule reads_get_where)

lemma reads_ValidateStatusTransition [reads_intro]:
  "reads (ValidateStatusTransition E d rid flds isCreate ev)"
  unfolding ValidateStatusTransition_def statusTypeIDByCode_def new_status_def current_status_def
    check_edge_def Let_def list.case_eq_if
  by (intro reads_intro)

section \<open>The declared graph\<close>

text \<open>
  The graph of a status type as the tables hold it: \<open>typed\<close> relates a type's code to its id,
  \<open>edge\<close> is a live transition of the type.
\<close>

definition typed :: "env \<Rightarrow> db \<Rightarrow> string \<Rightarrow> string \<Rightarrow> bool" where
  "typed E D code stid \<longleftrightarrow>
     (\<exists>r \<in> set (db_records D). live ''StatusType'' r \<and> field_is E r (''code'', code) \<and> rr_id r = stid)"

definition status_edge :: "env \<Rightarrow> db \<Rightarrow> string \<Rightarrow> string \<Rightarrow> string \<Rightarrow> bool" where
  "status_edge E D stid from_id to_id \<longleftrightarrow>
     (\<exists>r \<in> set (db_records D). live ''StatusTransition'' r \<and>
        field_is E r (StatusTypeIDFieldName, stid) \<and> is_edge from_id to_id (rr_data r))"

definition initial_status :: "env \<Rightarrow> db \<Rightarrow> string \<Rightarrow> bool" where
  "initial_status E D s \<longleftrightarrow>
     (\<exists>r \<in> set (db_records D). live ''Status'' r \<and> e_uuid E s = Some (rr_id r) \<and>
        bool_field (rr_data r) ''is_initial'')"

text \<open>A step the graph allows: stay, start in an initial status, or follow an edge.\<close>

definition status_step :: "env \<Rightarrow> db \<Rightarrow> string \<Rightarrow> string \<Rightarrow> string \<Rightarrow> bool" where
  "status_step E D code old new \<longleftrightarrow>
     new = old \<or> (old = [] \<and> initial_status E D new) \<or>
     (\<exists>stid. typed E D code stid \<and> status_edge E D stid old new)"

lemma ListByField_rows:
  assumes "ListByField E et f v w = (Inr rs, w')" "r \<in> set rs"
  shows "\<exists>row \<in> set (db_records (w_db w)). live et row \<and> field_is E row (f, v) \<and> r = to_record row"
  using assms by (auto simp: ListByField_def query_Inr_iff by_age_def)

lemma statusTypeIDByCode_typed:
  assumes "statusTypeIDByCode E code w = (Inr stid, w')"
  shows "typed E (w_db w) code stid"
proof -
  from assms obtain rs w1 where l: "ListByField E ''StatusType'' ''code'' code w = (Inr rs, w1)"
    and m: "(case rs of [] \<Rightarrow> fail ErrInvalidTransition | m # _ \<Rightarrow> ret (rec_id m)) w1 = (Inr stid, w')"
    by (auto simp: statusTypeIDByCode_def bindM_Inr_iff)
  from m obtain r where "r \<in> set rs" "stid = rec_id r" by (cases rs) auto
  then show ?thesis using ListByField_rows [OF l] unfolding typed_def by (force simp: to_record_def)
qed

lemma new_status_row:
  assumes "new_status E stid new w = (Inr st, w')"
  shows "\<exists>row \<in> set (db_records (w_db w)). live ''Status'' row \<and> e_uuid E new = Some (rr_id row) \<and>
    rec_data st = rr_data row"
proof -
  from assms obtain w1 where "Get E ''Status'' new w = (Inr st, w1)"
    by (auto simp: new_status_def bindM_Inr_iff catchM_def fail_def split: prod.splits sum.splits if_splits)
  then show ?thesis unfolding Get_def by (auto elim!: get_where_success)
qed

lemma check_edge_edge:
  assumes "check_edge E stid cur new ev w = (Inr u, w')"
  shows "status_edge E (w_db w) stid cur new \<and> ev \<noteq> None"
proof -
  from assms obtain rs w1 where "ListByField E ''StatusTransition'' StatusTypeIDFieldName stid w = (Inr rs, w1)"
    "list_ex (\<lambda>t. is_edge cur new (rec_data t)) rs" "ev \<noteq> None"
    by (auto simp: check_edge_def bindM_Inr_iff split: if_splits)
  then show ?thesis using ListByField_rows unfolding status_edge_def list_ex_iff
    by (force simp: to_record_def)
qed

lemma reads_status_parts:
  "reads (statusTypeIDByCode E code)" "reads (new_status E stid new)"
  unfolding statusTypeIDByCode_def new_status_def list.case_eq_if by (intro reads_intro)+

lemma current_status_update:
  assumes "records_wf (w_db w)" "live_doc E (d_entity_type d) w rid = Some (f0, n)"
    and "current_status E d rid False w = (Inr cur, w')"
  shows "cur = str_field f0 StatusIDFieldName \<and> w_db w' = w_db w"
proof -
  from assms(3) obtain r where r: "Get E (d_entity_type d) rid w = (Inr r, w')"
    "cur = str_field (rec_data r) StatusIDFieldName"
    by (auto simp: current_status_def bindM_Inr_iff)
  from r(1) obtain u row where u: "e_uuid E rid = Some u" and row: "row \<in> set (db_records (w_db w))"
    "rr_id row = u" "live (d_entity_type d) row" "rec_data r = rr_data row"
    unfolding Get_def by (auto elim!: get_where_success)
  have "live_doc E (d_entity_type d) w rid = Some (rec_data r, rr_version row)"
    unfolding live_doc_eq [OF assms(1) u] using row by (intro bexI [of _ row]) auto
  moreover have "w_db w' = w_db w" using r(1) reads_Get by (metis readsD)
  ultimately show ?thesis using assms(2) r(2) by simp
qed

text \<open>What a successful check says of an update.\<close>

lemma ValidateStatusTransition_step:
  assumes wf: "records_wf (w_db w)" and doc: "live_doc E (d_entity_type d) w rid = Some (f0, n)"
    and code: "d_status_type_code d \<noteq> []" and new: "str_field flds StatusIDFieldName \<noteq> []"
    and run: "ValidateStatusTransition E d rid flds False ev w = (Inr u, w')"
  shows "status_step E (w_db w) (d_status_type_code d)
    (str_field f0 StatusIDFieldName) (str_field flds StatusIDFieldName)"
proof -
  let ?new = "str_field flds StatusIDFieldName"
  from run obtain stid w1 st w2 cur w3 where
    t: "statusTypeIDByCode E (d_status_type_code d) w = (Inr stid, w1)"
    and s: "new_status E stid ?new w1 = (Inr st, w2)"
    and c: "current_status E d rid False w2 = (Inr cur, w3)"
    and k: "(if cur = [] then
              (if bool_field (rec_data st) ''is_initial'' then ret () else fail ErrInvalidTransition)
            else if cur = ?new then (if ev = None then fail ErrInvalidTransition else ret ())
            else check_edge E stid cur ?new ev) w3 = (Inr u, w')"
    using code new by (auto simp: ValidateStatusTransition_def bindM_Inr_iff Let_def)
  have w1: "w_db w1 = w_db w" using reads_status_parts(1) t by (rule readsD)
  have w2: "w_db w2 = w_db w" using readsD [OF reads_status_parts(2) s] w1 by simp
  have "live_doc E (d_entity_type d) w2 rid = Some (f0, n)" using doc live_doc_same [OF w2] by simp
  then have cur: "cur = str_field f0 StatusIDFieldName" and w3: "w_db w3 = w_db w"
    using current_status_update [OF _ _ c] wf w2 by auto
  consider "cur = []" "bool_field (rec_data st) ''is_initial''" | "cur = ?new"
    | "check_edge E stid cur ?new ev w3 = (Inr u, w')"
    using k by (auto split: if_splits)
  then show ?thesis
  proof cases
    case 1
    then show ?thesis
      using new_status_row [OF s] w1 cur by (auto simp: status_step_def initial_status_def)
  next
    case 2
    then show ?thesis using cur by (simp add: status_step_def)
  next
    case 3
    then show ?thesis
      using check_edge_edge [OF 3] statusTypeIDByCode_typed [OF t] w3 cur
      by (auto simp: status_step_def)
  qed
qed

section \<open>Versions identify documents\<close>

text \<open>
  A versioned store whose documents change only together with their version: a client that
  read a version, and whose update expecting it succeeds, updates the document it read.
\<close>

locale versioned_docs = versioned_store lookup upd stored wf
  for lookup :: "'s \<Rightarrow> 'k \<Rightarrow> ('d \<times> int) option"
    and upd :: "'k \<Rightarrow> 'v \<Rightarrow> int option \<Rightarrow> 's \<Rightarrow> ('e + int) \<times> 's"
    and stored :: "'v \<Rightarrow> 'd" and wf :: "'s \<Rightarrow> bool" +
  assumes upd_same_version: "wf s \<Longrightarrow> upd k v ev s = (r, s') \<Longrightarrow> lookup s k' = Some (v0, n) \<Longrightarrow>
      lookup s' k' = Some (v1, n) \<Longrightarrow> v1 = v0"
begin

lemma history_document:
  assumes "call\<^sup>*\<^sup>* s s'" "wf s" "lookup s k = Some (v0, n)" "lookup s' k = Some (v1, n)"
  shows "v1 = v0"
  using assms(1,4)
proof (induction arbitrary: v1)
  case (step s1 s2)
  have wf1: "wf s1" using step.hyps(1) assms(2) by (rule history_wf)
  obtain v n1 where l: "lookup s1 k = Some (v, n1)" "n \<le> n1"
    using history_version [OF step.hyps(1) assms(2,3)] by blast
  obtain v2 n2 where "lookup s2 k = Some (v2, n2)" "n1 \<le> n2"
    using step.hyps(2) upd_mono [OF wf1 _ l(1)] unfolding call_def by blast
  then have "n1 = n" using l(2) step.prems by simp
  then have "v1 = v" using step.hyps(2) upd_same_version [OF wf1 _ l(1)] step.prems
    unfolding call_def by blast
  then show ?case using step.IH l(1) \<open>n1 = n\<close> by blast
qed (use assms(3) in simp)

lemma update_of_what_was_read:
  assumes "wf s" "lookup s k = Some (v0, n)" "call\<^sup>*\<^sup>* s s1" "upd k v (Some n) s1 = (Inr m, s2)"
  shows "lookup s1 k = Some (v0, n)" "lookup s2 k = Some (stored v, n + 1)"
proof -
  have "wf s1" using assms(3,1) by (rule history_wf)
  note u = upd_success [OF this assms(4)]
  then obtain v1 where "lookup s1 k = Some (v1, n)" by auto
  then show "lookup s1 k = Some (v0, n)" using history_document [OF assms(3,1,2)] by auto
  show "lookup s2 k = Some (stored v, n + 1)" using u by auto
qed

end

lemma live_doc_same_version:
  assumes wf: "records_wf (w_db w)" "records_wf (w_db w')" and u: "e_uuid E rid = Some u"
    and recs: "db_records (w_db w') = upd_where (update_hits et u ev) (update_row f) (db_records (w_db w))"
    and old: "live_doc E et w k = Some (f0, n)" and new: "live_doc E et w' k = Some (f1, n)"
  shows "f1 = f0"
proof -
  from old obtain v where v: "e_uuid E k = Some v" by (auto simp: live_doc_def split: option.splits)
  from old obtain r where r: "r \<in> set (db_records (w_db w))" "rr_id r = v" "rr_data r = f0" "rr_version r = n"
    by (auto simp: live_doc_eq [OF wf(1) v])
  from new obtain r1 where r1: "r1 \<in> set (db_records (w_db w'))" "rr_id r1 = v" "rr_data r1 = f1"
    "rr_version r1 = n"
    unfolding live_doc_eq [OF wf(2) v] by blast
  from r1(1) obtain r0 where r0: "r0 \<in> set (db_records (w_db w))"
    "r1 = (if update_hits et u ev r0 then update_row f r0 else r0)"
    unfolding recs in_upd_where by blast
  have id: "rr_id r0 = v" using r0(2) r1(2) by (simp split: if_splits)
  have "r0 = r" using rr_id_unique [OF wf(1) r0(1) r(1)] id r(2) by simp
  then show ?thesis using r0(2) r1(3,4) r(3,4) by (auto split: if_splits)
qed

lemma Update_same_version:
  assumes hooks: "hooks (d_entity_type d) = None" and wf: "world_wf w"
    and run: "Update E hooks d rid f ev actor w = (r, w')"
    and old: "live_doc E (d_entity_type d) w k = Some (f0, n)"
    and new: "live_doc E (d_entity_type d) w' k = Some (f1, n)"
  shows "f1 = f0"
proof (cases r)
  case (Inl e)
  then have "live_doc E (d_entity_type d) w' = live_doc E (d_entity_type d) w"
    using run Update_error live_doc_same by blast
  then show ?thesis using old new by simp
next
  case (Inr m)
  from run [unfolded Inr] show ?thesis
  proof (cases rule: Update_success)
    case (1 w1 w2 w3 w4 w5 w6 w7 v0)
    have w3: "w_db w3 = w_db w"
      using 1(2-4) reads_target_constraints reads_check_self_references by (metis readsD)
    have w6: "w_db w7 = w_db w6" using 1(8) hooks by (simp add: runHook_def)
    have recs: "db_records (w_db w') = db_records (w_db w4)"
      using keepsD [OF update_keys_records 1(6), of "db_records (w_db w4)"] 1(7,10) w6
      by (auto elim!: write_audit_success)
    from 1(5) obtain u where u: "e_uuid E rid = Some u"
      and w4: "w_db w4 = (w_db w3)\<lparr>db_records :=
        upd_where (update_hits (d_entity_type d) u ev) (update_row f) (db_records (w_db w3))\<rparr>"
      by (rule UpdateTx_success)
    have "world_wf w'" using Update_effect [OF hooks wf run [unfolded Inr]] by blast
    then show ?thesis
      using live_doc_same_version [OF wf_records [OF wf] wf_records u _ old new] recs w4 w3 by simp
  qed
qed

interpretation engine_docs: versioned_docs "live_doc E (d_entity_type d)"
    "\<lambda>rid (f, actor) ev. Update E Map.empty d rid f ev actor" "\<lambda>(f, actor). json_norm_fields f" world_wf
proof unfold_locales
  fix w k fa ev r w' k' f0 n f1
  assume wf: "world_wf w"
    and run: "(case fa of (f, actor) \<Rightarrow> \<lambda>ev. Update E Map.empty d k f ev actor) ev w = (r, w')"
    and docs: "live_doc E (d_entity_type d) w k' = Some (f0, n)"
      "live_doc E (d_entity_type d) w' k' = Some (f1, n)"
  obtain f actor where "Update E Map.empty d k f ev actor w = (r, w')"
    using run by (cases fa) simp
  then show "f1 = f0" using Update_same_version [OF _ wf _ docs] by simp
qed

text \<open>The history of calls the engine's contract speaks of, written out.\<close>

definition updates_between :: "env \<Rightarrow> Definition \<Rightarrow> world \<Rightarrow> world \<Rightarrow> bool" where
  "updates_between E d =
     (\<lambda>x y. \<exists>k g ev actor r. Update E Map.empty d k g ev actor x = (r, y))\<^sup>*\<^sup>*"

lemma updates_between_call: "updates_between E d = (engine.call E d)\<^sup>*\<^sup>*"
proof -
  have "engine.call E d = (\<lambda>x y. \<exists>k g ev actor r. Update E Map.empty d k g ev actor x = (r, y))"
    unfolding engine.call_def fun_eq_iff by (metis (no_types, lifting) case_prod_conv surj_pair)
  then show ?thesis by (simp add: updates_between_def)
qed

section \<open>Checked, then updated\<close>

lemma required_status:
  assumes "Validate cv d = None" "d_status_type_code d \<noteq> []" "ValidateRecord cv' d flds = None"
  shows "str_field flds StatusIDFieldName \<noteq> []"
proof -
  have "check_status d = None" using assms(1) by (rule Validate_parts)
  then obtain f where f: "FieldByName d StatusIDFieldName = Some f" "f_type f = FieldReference" "f_required f"
    using assms(2) by (auto simp: check_status_def split: option.splits if_splits)
  then have "f \<in> set (d_fields d)" "f_name f = StatusIDFieldName" using FieldByName_SomeD by blast+
  then have v: "validate_field cv' (d_entity_type d) flds f = None"
    using assms(3) ValidateRecord_fields by blast
  then have nb: "get_field flds (f_name f) \<noteq> VNil" "\<not> IsBlankString (get_field flds (f_name f))"
    using f(3) by (auto simp: validate_field_def Let_def split: if_splits)
  then have "is_str (get_field flds (f_name f))" using validate_field_shape [OF v] f(2) by simp
  then show ?thesis using nb \<open>f_name f = StatusIDFieldName\<close>
    by (cases "get_field flds StatusIDFieldName") (auto simp: str_field_get_field)
qed

lemma checked_update_follows_graph:
  assumes wf: "world_wf w0" and valid: "Validate cv d = None" and code: "d_status_type_code d \<noteq> []"
    and read: "live_doc E (d_entity_type d) w0 rid = Some (f0, n)"
    and check: "ValidateStatusTransition E d rid flds False (Some n) w0 = (Inr u, w1)"
    and between: "updates_between E d w1 w2"
    and run: "Update E Map.empty d rid flds (Some n) actor w2 = (Inr m, w3)"
  shows "live_doc E (d_entity_type d) w2 rid = Some (f0, n)"
    and "live_doc E (d_entity_type d) w3 rid = Some (json_norm_fields flds, n + 1)"
    and "status_step E (w_db w0) (d_status_type_code d)
      (str_field f0 StatusIDFieldName) (str_field flds StatusIDFieldName)"
proof -
  have w1: "w_db w1 = w_db w0" using reads_ValidateStatusTransition check by (rule readsD)
  then have wf1: "world_wf w1" and read1: "live_doc E (d_entity_type d) w1 rid = Some (f0, n)"
    using wf read live_doc_same [OF w1] by (simp_all add: world_wf_def)
  note u = engine_docs.update_of_what_was_read [OF wf1 read1, of w2 "(flds, actor)" m w3]
  show "live_doc E (d_entity_type d) w2 rid = Some (f0, n)"
    and "live_doc E (d_entity_type d) w3 rid = Some (json_norm_fields flds, n + 1)"
    using u between run by (simp_all add: updates_between_call)
  have "ValidateRecord (e_cv E) d flds = None" using run by (rule Update_success)
  then have "str_field flds StatusIDFieldName \<noteq> []" using required_status valid code by blast
  then show "status_step E (w_db w0) (d_status_type_code d)
      (str_field f0 StatusIDFieldName) (str_field flds StatusIDFieldName)"
    using ValidateStatusTransition_step [OF wf_records [OF wf] read code _ check] by blast
qed

end
