(* ===== verification/Filters.thy ===== *)
theory Filters
  imports CrudStatus "HOL-Library.Product_Lexorder" "HOL-Library.Sublist"
begin

text \<open>
  Filtered and sorted pages of records: \<open>ListPageOptions\<close>, \<open>filterWhereClause\<close>,
  \<open>ListPageFiltered\<close> and \<open>CountFiltered\<close> of \<open>internal/data/records.go\<close>, the read operations of
  the engine, and \<open>ResolveReferenceFilter\<close>, which narrows a reference picker to the targets the
  write check would accept.
\<close>

section \<open>LIKE\<close>

definition ReplaceAll1 :: "string \<Rightarrow> char \<Rightarrow> string \<Rightarrow> string" where
  "ReplaceAll1 s c r = concat (map (\<lambda>x. if x = c then r else [x]) s)"

definition backslash :: char where
  "backslash = CHR 0x5C"

definition escapeLike :: "string \<Rightarrow> string" where
  "escapeLike s =
     (let s = ReplaceAll1 s backslash [backslash, backslash];
          s = ReplaceAll1 s (CHR ''%'') [backslash, CHR ''%'']
      in ReplaceAll1 s (CHR ''_'') [backslash, CHR ''_''])"

text \<open>
  \<open>text LIKE pattern ESCAPE '\'\<close>: \<open>%\<close> stands for any text, \<open>_\<close> for one character, and the escape
  character makes the one after it literal.
\<close>

function like :: "string \<Rightarrow> string \<Rightarrow> bool" where
  "like [] s = (s = [])"
| "like (c # p) s =
     (if c = backslash then
        (case p of
           [] \<Rightarrow> False
         | e # p' \<Rightarrow> (case s of [] \<Rightarrow> False | x # s' \<Rightarrow> x = e \<and> like p' s'))
      else if c = CHR ''%'' then
        like p s \<or> (case s of [] \<Rightarrow> False | _ # s' \<Rightarrow> like (c # p) s')
      else if c = CHR ''_'' then s \<noteq> [] \<and> like p (drop (rune_width s) s)
      else (case s of [] \<Rightarrow> False | x # s' \<Rightarrow> x = c \<and> like p s'))"
  by pat_completeness auto
termination
  by (relation "measure (\<lambda>(p, s). length p + length s)") auto

declare like.simps [simp del]

text \<open>\<open>ILIKE\<close>: both sides lower-cased first.\<close>

definition ilike :: "env \<Rightarrow> string \<Rightarrow> string \<Rightarrow> bool" where
  "ilike E pat s \<longleftrightarrow> like (e_lower E pat) (e_lower E s)"

definition contains_pattern :: "string \<Rightarrow> string" where
  "contains_pattern v = ''%'' @ escapeLike v @ ''%''"

section \<open>Options\<close>

record JoinFilter =
  jf_entity :: string
  jf_entity_field :: string
  jf_field :: string
  jf_value :: string

record ListPageOptions =
  lp_sort_field :: string
  lp_sort_desc :: bool
  lp_sort_numeric :: bool
  lp_filter_field :: string
  lp_filter_value :: string
  lp_filter_in :: "string list option"
  lp_filter_i18n :: bool
  lp_sort_locales :: "string list"
  lp_equals :: "(string \<times> string) list"
  lp_id_in :: "string list option"
  lp_joins :: "JoinFilter list"
  lp_limit :: int
  lp_offset :: int

definition no_options :: ListPageOptions where
  "no_options =
     \<lparr>lp_sort_field = [], lp_sort_desc = False, lp_sort_numeric = False, lp_filter_field = [],
      lp_filter_value = [], lp_filter_in = None, lp_filter_i18n = False, lp_sort_locales = [],
      lp_equals = [], lp_id_in = None, lp_joins = [], lp_limit = 0, lp_offset = 0\<rparr>"

section \<open>The WHERE clause\<close>

text \<open>\<open>jsonb_each_text\<close> of an object: the texts of its values.\<close>

definition each_text :: "env \<Rightarrow> gval \<Rightarrow> string list" where
  "each_text E v =
     (case v of
        VMap m \<Rightarrow> List.map_filter (\<lambda>k. arrow_text E m k) (sorted_list_of_fset (fmdom m))
      | _ \<Rightarrow> [])"

definition text_filter :: "env \<Rightarrow> ListPageOptions \<Rightarrow> fields \<Rightarrow> bool" where
  "text_filter E opts data =
     (let v = get_field data (lp_filter_field opts);
          t = arrow_text E data (lp_filter_field opts);
          pat = contains_pattern (lp_filter_value opts)
      in if lp_filter_field opts = [] then True
         else case lp_filter_in opts of
           Some xs \<Rightarrow> (case t of None \<Rightarrow> False | Some s \<Rightarrow> s \<in> set xs)
         | None \<Rightarrow>
             if lp_filter_i18n opts
             then list_ex (ilike E pat) (each_text E v) \<or>
                  (case v of VStr s \<Rightarrow> ilike E pat s | _ \<Rightarrow> False)
             else (case t of None \<Rightarrow> False | Some s \<Rightarrow> ilike E pat s))"

definition join_filter :: "env \<Rightarrow> db \<Rightarrow> rrow \<Rightarrow> JoinFilter \<Rightarrow> bool" where
  "join_filter E D r jf =
     list_ex (\<lambda>j. live (jf_entity jf) j \<and> field_is E j (jf_entity_field jf, rr_id r) \<and>
                field_is E j (jf_field jf, jf_value jf)) (db_records D)"

text \<open>The ids as the cast to \<open>uuid[]\<close> reads them; a text that is no uuid fails the statement.\<close>

definition uuid_array :: "env \<Rightarrow> string list option \<Rightarrow> string list option option" where
  "uuid_array E ids =
     (case ids of
        None \<Rightarrow> Some None
      | Some xs \<Rightarrow>
          if list_all (\<lambda>x. e_uuid E x \<noteq> None) xs
          then Some (Some (map (\<lambda>x. the (e_uuid E x)) xs)) else None)"

definition filterWhereClause ::
    "env \<Rightarrow> db \<Rightarrow> string \<Rightarrow> ListPageOptions \<Rightarrow> string list option \<Rightarrow> rrow \<Rightarrow> bool" where
  "filterWhereClause E D et opts ids r \<longleftrightarrow>
     live et r \<and> text_filter E opts (rr_data r) \<and>
     list_all (field_is E r) (lp_equals opts) \<and>
     (case ids of None \<Rightarrow> True | Some xs \<Rightarrow> rr_id r \<in> set xs) \<and>
     list_all (join_filter E D r) (lp_joins opts)"

definition unfiltered :: "ListPageOptions \<Rightarrow> bool" where
  "unfiltered opts \<longleftrightarrow>
     lp_filter_field opts = [] \<and> lp_equals opts = [] \<and> lp_id_in opts = None \<and> lp_joins opts = []"

definition CountFiltered :: "env \<Rightarrow> string \<Rightarrow> ListPageOptions \<Rightarrow> int dbm" where
  "CountFiltered E et opts =
     (if unfiltered opts then CountByEntityType et
      else query (\<lambda>d.
        case uuid_array E (lp_id_in opts) of
          None \<Rightarrow> Inl ErrDB
        | Some ids \<Rightarrow> Inr (int (length (filter (filterWhereClause E d et opts ids) (db_records d))))))"

section \<open>ORDER BY\<close>

text \<open>\<open>ORDER BY key dir NULLS LAST\<close>, keeping the order of rows with the same key.\<close>

definition order_by :: "('r \<Rightarrow> 'k::linorder option) \<Rightarrow> bool \<Rightarrow> 'r list \<Rightarrow> 'r list" where
  "order_by key desc rs =
     (let some = filter (\<lambda>r. key r \<noteq> None) rs;
          none = filter (\<lambda>r. key r = None) rs;
          k = (\<lambda>r. the (key r))
      in (if desc then rev (sort_key k (rev some)) else sort_key k some) @ none)"

text \<open>A text as the collation sorts it, with the bytes to break a tie.\<close>

definition text_key :: "env \<Rightarrow> string \<Rightarrow> string \<times> string" where
  "text_key E s = (e_collate E s, s)"

text \<open>\<open>CASE WHEN t ~ '^-?[0-9]+(\.[0-9]+)?$' THEN t::numeric END\<close>\<close>

definition numeric_text :: "string \<Rightarrow> rat option" where
  "numeric_text t =
     (let neg = (t \<noteq> [] \<and> hd t = CHR ''-''); u = (if neg then tl t else t);
          (whole, frac, dot) = Cut u (CHR ''.'')
      in if isDigits_run whole \<and> (dot \<longrightarrow> isDigits_run frac)
         then Some ((if neg then -1 else 1) * of_nat (digits_val (whole @ frac)) / 10 ^ length frac)
         else None)"

text \<open>\<open>data->f->>loc\<close>, and \<open>NULLIF(..., '')\<close> around it.\<close>

definition locale_text :: "env \<Rightarrow> gval \<Rightarrow> string \<Rightarrow> string option" where
  "locale_text E v loc =
     (case v of
        VMap m \<Rightarrow> (if arrow_text E m loc = Some [] then None else arrow_text E m loc)
      | _ \<Rightarrow> None)"

definition i18n_label :: "env \<Rightarrow> string list \<Rightarrow> gval \<Rightarrow> string option" where
  "i18n_label E locs v =
     (case List.map_filter (locale_text E v) locs of
        s # _ \<Rightarrow> Some s
      | [] \<Rightarrow> (case v of VStr s \<Rightarrow> Some s | _ \<Rightarrow> None))"

definition sort_rows :: "env \<Rightarrow> ListPageOptions \<Rightarrow> rrow list \<Rightarrow> rrow list" where
  "sort_rows E opts rs =
     (let f = lp_sort_field opts; desc = lp_sort_desc opts; rs = sort_key rr_id rs in
      if f \<noteq> [] \<and> lp_sort_locales opts \<noteq> [] then
        order_by (\<lambda>r. map_option (text_key E)
          (i18n_label E (lp_sort_locales opts) (get_field (rr_data r) f))) desc rs
      else if f \<noteq> [] then
        (if lp_sort_numeric opts
         then order_by (\<lambda>r. Option.bind (arrow_text E (rr_data r) f) numeric_text) desc rs
         else order_by (\<lambda>r. map_option (text_key E) (arrow_text E (rr_data r) f)) desc rs)
      else order_by (\<lambda>r. Some (rr_created r)) desc rs)"

definition ListPageFiltered :: "env \<Rightarrow> string \<Rightarrow> ListPageOptions \<Rightarrow> Record list dbm" where
  "ListPageFiltered E et opts =
     query (\<lambda>d.
       case uuid_array E (lp_id_in opts) of
         None \<Rightarrow> Inl ErrDB
       | Some ids \<Rightarrow>
           if lp_limit opts < 0 \<or> lp_offset opts < 0 then Inl ErrDB
           else Inr (map to_record
             (take (nat (lp_limit opts)) (drop (nat (lp_offset opts))
               (sort_rows E opts (filter (filterWhereClause E d et opts ids) (db_records d)))))))"

lemma reads_filtered [reads_intro]:
  "reads (CountFiltered E et opts)" "reads (ListPageFiltered E et opts)"
  unfolding CountFiltered_def CountByEntityType_def ListPageFiltered_def by (intro reads_intro)+

section \<open>Reference pickers\<close>

definition condition_filter :: "TargetFilterCondition \<Rightarrow> ListPageOptions \<Rightarrow> ListPageOptions" where
  "condition_filter c opts =
     (if tf_entity c = []
      then opts\<lparr>lp_equals := lp_equals opts @ [(tf_field c, tf_value c)]\<rparr>
      else opts\<lparr>lp_joins := lp_joins opts @
        [\<lparr>jf_entity = tf_entity c, jf_entity_field = tf_entity_field c, jf_field = tf_field c,
          jf_value = tf_value c\<rparr>]\<rparr>)"

definition status_scoped :: "Definition option \<Rightarrow> Field \<Rightarrow> string option" where
  "status_scoped src f =
     (case src of
        None \<Rightarrow> None
      | Some d \<Rightarrow>
          if f_name f = StatusIDFieldName \<and> f_type f = FieldReference \<and> f_target f = ''Status'' \<and>
             d_status_type_code d \<noteq> []
          then Some (d_status_type_code d) else None)"

definition ResolveReferenceFilter ::
    "env \<Rightarrow> Definition option \<Rightarrow> Field \<Rightarrow> string \<Rightarrow> ListPageOptions dbm" where
  "ResolveReferenceFilter E src f sibling =
     (let opts = fold condition_filter (f_target_filter f) no_options;
          opts = (if f_must_match f \<noteq> [] \<and> sibling \<noteq> []
                  then opts\<lparr>lp_equals := lp_equals opts @ [(f_must_match f, sibling)]\<rparr> else opts)
      in case status_scoped src f of
           None \<Rightarrow> ret opts
         | Some code \<Rightarrow>
             bindM (statusTypeIDByCode E code) (\<lambda>stid.
               ret (opts\<lparr>lp_equals := lp_equals opts @ [(StatusTypeIDFieldName, stid)]\<rparr>)))"

lemma reads_ResolveReferenceFilter [reads_intro]: "reads (ResolveReferenceFilter E src f sibling)"
  unfolding ResolveReferenceFilter_def Let_def
  by (intro reads_intro reads_status_parts)

section \<open>A text filter is a search for a substring\<close>

definition like_escape :: "char \<Rightarrow> string" where
  "like_escape c = (if c \<in> {backslash, CHR ''%'', CHR ''_''} then [backslash, c] else [c])"

lemma escapeLike_concat: "escapeLike s = concat (map like_escape s)"
  unfolding escapeLike_def ReplaceAll1_def Let_def
  by (induction s) (auto simp: like_escape_def backslash_def)

lemma like_percent: "like (CHR ''%'' # p) s \<longleftrightarrow> (\<exists>a t. s = a @ t \<and> like p t)"
proof (induction s)
  case Nil
  then show ?case by (simp add: like.simps(2) backslash_def)
next
  case (Cons x s)
  have "like (CHR ''%'' # p) (x # s) \<longleftrightarrow> like p (x # s) \<or> like (CHR ''%'' # p) s"
    by (simp add: like.simps(2) [of "CHR ''%''" p "x # s"] backslash_def)
  also have "\<dots> \<longleftrightarrow> (\<exists>a t. x # s = a @ t \<and> like p t)"
    unfolding Cons.IH by (auto simp: Cons_eq_append_conv)
  finally show ?case .
qed

lemma like_literal: "like (like_escape c @ p) s \<longleftrightarrow> (\<exists>t. s = c # t \<and> like p t)"
  by (cases s) (auto simp: like_escape_def like.simps backslash_def)

lemma like_escaped: "like (escapeLike v @ p) s \<longleftrightarrow> (\<exists>t. s = v @ t \<and> like p t)"
  unfolding escapeLike_concat
proof (induction v arbitrary: s)
  case (Cons c v)
  then show ?case by (auto simp: like_literal)
qed simp

lemma like_contains: "like (contains_pattern v) s \<longleftrightarrow> sublist v s"
  unfolding contains_pattern_def sublist_def
  by (auto simp: like_percent like_escaped like.simps(1))

section \<open>Pages\<close>

lemma set_order_by [simp]: "set (order_by key desc rs) = set rs"
  by (auto simp: order_by_def Let_def)

lemma length_order_by [simp]: "length (order_by key desc rs) = length rs"
  using sum_length_filter_compl [of "\<lambda>r. key r = None" rs] by (simp add: order_by_def Let_def)

lemma mset_order_by [simp]: "mset (order_by key desc rs) = mset rs"
proof -
  have "mset (filter (\<lambda>r. key r \<noteq> None) rs) + mset (filter (\<lambda>r. key r = None) rs) = mset rs"
    using multiset_partition [of "mset rs" "\<lambda>r. key r \<noteq> None"] by (simp flip: mset_filter)
  then show ?thesis by (simp add: order_by_def Let_def)
qed

lemma mset_sort_rows [simp]: "mset (sort_rows E opts rs) = mset rs"
  by (simp add: sort_rows_def Let_def)

lemma set_sort_rows [simp]: "set (sort_rows E opts rs) = set rs"
  by (metis mset_sort_rows set_mset_mset)

text \<open>The rows of a sorted query, all of them.\<close>

definition query_rows :: "env \<Rightarrow> db \<Rightarrow> string \<Rightarrow> ListPageOptions \<Rightarrow> rrow list" where
  "query_rows E D et opts =
     sort_rows E opts (filter (filterWhereClause E D et opts
       (the (uuid_array E (lp_id_in opts)))) (db_records D))"

lemma filterWhereClause_cong:
  "filterWhereClause E D et (opts\<lparr>lp_limit := l, lp_offset := n\<rparr>) = filterWhereClause E D et opts"
  by (simp add: fun_eq_iff filterWhereClause_def text_filter_def)

lemma query_rows_page [simp]:
  "query_rows E D et (opts\<lparr>lp_limit := l, lp_offset := n\<rparr>) = query_rows E D et opts"
  by (simp add: query_rows_def filterWhereClause_cong sort_rows_def Let_def)

lemma ListPageFiltered_rows:
  assumes "ListPageFiltered E et opts w = (Inr rs, w')"
  shows "rs = map to_record (take (nat (lp_limit opts)) (drop (nat (lp_offset opts))
      (query_rows E (w_db w) et opts))) \<and> 0 \<le> lp_limit opts \<and> 0 \<le> lp_offset opts"
  using assms by (auto simp: ListPageFiltered_def query_Inr_iff query_rows_def split: option.splits if_splits)

lemma CountFiltered_rows:
  assumes "CountFiltered E et opts w = (Inr n, w')"
  shows "n = int (length (query_rows E (w_db w) et opts))"
proof -
  have len: "length (query_rows E D et opts) =
      length (filter (filterWhereClause E D et opts (the (uuid_array E (lp_id_in opts)))) (db_records D))" for D
    unfolding query_rows_def by (metis mset_sort_rows size_mset)
  show ?thesis
  proof (cases "unfiltered opts")
    case True
    then have "filterWhereClause E D et opts None = live et" for D
      by (simp add: unfiltered_def fun_eq_iff filterWhereClause_def text_filter_def)
    then show ?thesis using assms True
      by (auto simp: len CountFiltered_def CountByEntityType_def query_Inr_iff uuid_array_def unfiltered_def)
  next
    case False
    then show ?thesis using assms
      by (auto simp: len CountFiltered_def query_Inr_iff split: option.splits)
  qed
qed

text \<open>Reading page after page of \<open>size\<close> rows, in a database that does not change meanwhile.\<close>

fun read_pages :: "env \<Rightarrow> string \<Rightarrow> ListPageOptions \<Rightarrow> nat \<Rightarrow> nat \<Rightarrow> nat \<Rightarrow> Record list dbm" where
  "read_pages E et opts len 0 start = ret []"
| "read_pages E et opts len (Suc n) start =
     bindM (ListPageFiltered E et (opts\<lparr>lp_limit := int len, lp_offset := int start\<rparr>)) (\<lambda>page.
     bindM (read_pages E et opts len n (start + len)) (\<lambda>rest. ret (page @ rest)))"

lemma read_pages_rows:
  "read_pages E et opts len n start w = (Inr rs, w') \<Longrightarrow>
     rs = map to_record (take (n * len) (drop start (query_rows E (w_db w) et opts)))"
proof (induction n arbitrary: start rs w)
  case (Suc n)
  then obtain page w1 rest where p: "ListPageFiltered E et (opts\<lparr>lp_limit := int len, lp_offset := int start\<rparr>) w
      = (Inr page, w1)" and r: "read_pages E et opts len n (start + len) w1 = (Inr rest, w')"
    and rs: "rs = page @ rest"
    by (auto simp: bindM_Inr_iff)
  have "w_db w1 = w_db w" using reads_filtered(2) p by (rule readsD)
  then have "rest = map to_record (take (n * len) (drop (start + len) (query_rows E (w_db w) et opts)))"
    using Suc.IH [OF r] by simp
  then show ?case using ListPageFiltered_rows [OF p] rs
    by (simp add: take_add ac_simps)
qed simp

end
