(* ===== verification/Definitions.thy ===== *)
theory Definitions
  imports Filters
begin

text \<open>
  The registries of entity, form and workflow definitions (\<open>internal/data/definitions.go\<close>):
  versions that are drafted, approved, published and rolled back, each step guarded by the
  status it starts from and recorded in the audit log.
\<close>

section \<open>Rows and results\<close>

text \<open>A version as the repository returns it; \<open>getOne\<close> leaves the key empty.\<close>

record DefinitionVersion =
  dv_id :: string
  dv_key :: string
  dv_version :: int
  dv_status :: DefinitionStatus
  dv_definition :: gval
  dv_author_type :: ActorType
  dv_author :: string
  dv_approved_by :: string

definition auditPrefix :: "Registry \<Rightarrow> string" where
  "auditPrefix reg =
     (case reg of EntityDefinitions \<Rightarrow> ''entity_definition'' | FormDefinitions \<Rightarrow> ''form_definition''
      | WorkflowDefinitions \<Rightarrow> ''workflow_definition'')"

definition auditEntityType :: "Registry \<Rightarrow> string \<Rightarrow> string" where
  "auditEntityType reg key = auditPrefix reg @ '':'' @ key"

definition status_name :: "DefinitionStatus \<Rightarrow> string" where
  "status_name s =
     (case s of StatusDraft \<Rightarrow> ''draft'' | StatusApproved \<Rightarrow> ''approved'' | StatusPublished \<Rightarrow> ''published''
      | StatusRolledBack \<Rightarrow> ''rolled_back'')"

definition def_at :: "Registry \<Rightarrow> string \<Rightarrow> int \<Rightarrow> defrow \<Rightarrow> bool" where
  "def_at reg key v r \<longleftrightarrow> df_registry r = reg \<and> df_key r = key \<and> df_version r = v"

section \<open>Drafts\<close>

text \<open>
  The insert: the text must be JSON (\<open>None\<close> is one that is not), the version an \<open>INT\<close>, the
  author's type one the table allows (a human or an agent), and the key and version new.
\<close>

definition insert_def :: "Registry \<Rightarrow> string \<Rightarrow> int \<Rightarrow> gval option \<Rightarrow> Actor \<Rightarrow> string dbm" where
  "insert_def reg key version text actor =
     bindM fresh_id (\<lambda>u. stmt (\<lambda>d.
       case text of
         None \<Rightarrow> Inl ErrDB
       | Some v \<Rightarrow>
           if \<not> int4_arg (Some version) \<or> a_type actor = ActorSystem \<or>
              list_ex (def_at reg key version) (db_defs d) \<or> u \<in> df_id ` set (db_defs d) then Inl ErrDB
           else Inr (u, d\<lparr>db_defs := db_defs d @
             [\<lparr>df_id = u, df_registry = reg, df_key = key, df_version = version, df_status = StatusDraft,
               df_definition = json_norm v, df_author_type = a_type actor, df_author = a_id actor,
               df_approved_by = None\<rparr>]\<rparr>)))"

text \<open>\<open>json.Unmarshal\<close> into a map: an object, or null for the nil map.\<close>

definition audit_diff :: "gval option \<Rightarrow> fields option dbm" where
  "audit_diff text =
     (case text of Some (VMap m) \<Rightarrow> ret (Some m) | Some VNil \<Rightarrow> ret None | _ \<Rightarrow> fail ErrMarshal)"

definition createDraft ::
    "env \<Rightarrow> Registry \<Rightarrow> string \<Rightarrow> int \<Rightarrow> gval option \<Rightarrow> Actor \<Rightarrow> DefinitionVersion dbm" where
  "createDraft E reg key version text actor =
     thenM (guardM (map_option ErrAudit (Actor_Validate actor)))
     (in_tx
       (bindM (insert_def reg key version text actor) (\<lambda>i.
        bindM (audit_diff text) (\<lambda>diff.
        thenM (write_audit E (auditEntityType reg key) i ActionCreate actor diff)
        (ret \<lparr>dv_id = i, dv_key = key, dv_version = version, dv_status = StatusDraft,
              dv_definition = the text, dv_author_type = a_type actor, dv_author = a_id actor,
              dv_approved_by = []\<rparr>)))))"

section \<open>Transitions\<close>

definition moved :: "DefinitionStatus \<Rightarrow> string \<Rightarrow> defrow \<Rightarrow> defrow" where
  "moved to approver r =
     r\<lparr>df_status := to, df_approved_by := (if approver = [] then df_approved_by r else Some approver)\<rparr>"

definition update_status ::
    "Registry \<Rightarrow> string \<Rightarrow> int \<Rightarrow> DefinitionStatus \<Rightarrow> DefinitionStatus \<Rightarrow> string \<Rightarrow> bool dbm" where
  "update_status reg key version from_status to approver =
     stmt (\<lambda>d.
       if \<not> int4_arg (Some version) then Inl ErrDB
       else let hit = (\<lambda>r. def_at reg key version r \<and> df_status r = from_status) in
         Inr (list_ex hit (db_defs d), d\<lparr>db_defs := upd_where hit (moved to approver) (db_defs d)\<rparr>))"

definition def_id :: "Registry \<Rightarrow> string \<Rightarrow> int \<Rightarrow> string dbm" where
  "def_id reg key version =
     query (\<lambda>d. case List.find (def_at reg key version) (db_defs d) of
       None \<Rightarrow> Inl ErrDB | Some r \<Rightarrow> Inr (df_id r))"

definition transition ::
    "env \<Rightarrow> Registry \<Rightarrow> string \<Rightarrow> int \<Rightarrow> DefinitionStatus \<Rightarrow> DefinitionStatus \<Rightarrow> string \<Rightarrow> Actor \<Rightarrow> Action \<Rightarrow> unit dbm" where
  "transition E reg key version from_status to approver actor act =
     thenM (guardM (map_option ErrAudit (Actor_Validate actor)))
     (in_tx
       (bindM (update_status reg key version from_status to approver) (\<lambda>hit.
        if \<not> hit then fail ErrDefinitionStatus
        else bindM (def_id reg key version) (\<lambda>i.
          write_audit E (auditEntityType reg key) i act actor
            (Some (fmupd ''status'' (VStr (status_name to)) fmempty))))))"

definition Approve :: "env \<Rightarrow> Registry \<Rightarrow> string \<Rightarrow> int \<Rightarrow> Actor \<Rightarrow> unit dbm" where
  "Approve E reg key version actor =
     transition E reg key version StatusDraft StatusApproved (a_id actor) actor ActionUpdate"

definition Publish :: "env \<Rightarrow> Registry \<Rightarrow> string \<Rightarrow> int \<Rightarrow> Actor \<Rightarrow> unit dbm" where
  "Publish E reg key version actor =
     transition E reg key version StatusApproved StatusPublished [] actor ActionUpdate"

definition Rollback :: "env \<Rightarrow> Registry \<Rightarrow> string \<Rightarrow> int \<Rightarrow> Actor \<Rightarrow> unit dbm" where
  "Rollback E reg key version actor =
     transition E reg key version StatusPublished StatusRolledBack [] actor ActionUpdate"

section \<open>Lookups\<close>

definition version_of :: "defrow \<Rightarrow> DefinitionVersion" where
  "version_of r =
     \<lparr>dv_id = df_id r, dv_key = [], dv_version = df_version r, dv_status = df_status r,
      dv_definition = df_definition r, dv_author_type = df_author_type r, dv_author = df_author r,
      dv_approved_by = (case df_approved_by r of None \<Rightarrow> [] | Some a \<Rightarrow> a)\<rparr>"

definition getOne :: "(db \<Rightarrow> defrow list) \<Rightarrow> DefinitionVersion dbm" where
  "getOne sel = query (\<lambda>d. case sel d of [] \<Rightarrow> Inl ErrNotFound | r # _ \<Rightarrow> Inr (version_of r))"

definition published :: "Registry \<Rightarrow> string \<Rightarrow> db \<Rightarrow> defrow list" where
  "published reg key d =
     filter (\<lambda>r. df_registry r = reg \<and> df_key r = key \<and> df_status r = StatusPublished) (db_defs d)"

definition getPublished :: "Registry \<Rightarrow> string \<Rightarrow> DefinitionVersion dbm" where
  "getPublished reg key = getOne (\<lambda>d. rev (sort_key df_version (published reg key d)))"

definition getVersion :: "Registry \<Rightarrow> string \<Rightarrow> int \<Rightarrow> DefinitionVersion dbm" where
  "getVersion reg key version =
     (if \<not> int4_arg (Some version) then query (\<lambda>_. Inl ErrDB)
      else getOne (\<lambda>d. filter (def_at reg key version) (db_defs d)))"

text \<open>\<open>SELECT DISTINCT ... ORDER BY\<close>\<close>

definition distinct_sorted :: "env \<Rightarrow> string list \<Rightarrow> string list" where
  "distinct_sorted E xs = sort_key (text_key E) (remdups xs)"

definition listPublishedKeys :: "env \<Rightarrow> Registry \<Rightarrow> string list dbm" where
  "listPublishedKeys E reg =
     query (\<lambda>d. Inr (distinct_sorted E (map df_key
       (filter (\<lambda>r. df_registry r = reg \<and> df_status r = StatusPublished) (db_defs d)))))"

definition module_of :: "env \<Rightarrow> gval \<Rightarrow> string option" where
  "module_of E v = (case v of VMap m \<Rightarrow> arrow_text E m ''module'' | _ \<Rightarrow> None)"

definition PublishedModules :: "env \<Rightarrow> string list dbm" where
  "PublishedModules E =
     query (\<lambda>d. Inr (distinct_sorted E (filter (\<lambda>m. m \<noteq> []) (List.map_filter (\<lambda>r. module_of E (df_definition r))
       (filter (\<lambda>r. df_registry r = EntityDefinitions \<and> df_status r = StatusPublished) (db_defs d))))))"

lemma reads_definitions [reads_intro]:
  "reads (getPublished reg key)" "reads (getVersion reg key version)" "reads (listPublishedKeys E reg)"
  "reads (PublishedModules E)" "reads (def_id reg key version)" "reads (audit_diff text)"
  unfolding getPublished_def getVersion_def getOne_def listPublishedKeys_def PublishedModules_def def_id_def
    audit_diff_def
  by (auto split: option.split gval.split intro!: reads_intro)

end
