(* ===== verification/ScheduleHook.thy ===== *)
theory ScheduleHook
  imports Depreciation Definitions
begin

text \<open>
  The hooks that keep the depreciation schedule of a fixed asset in step with its record
  (\<open>internal/kernel/assets/schedule_hook.go\<close>). They run inside the transaction of the write that
  triggers them.
\<close>

section \<open>What the schedule should be\<close>

text \<open>\<open>x, _ := data[k].(float64)\<close>: zero when the value is absent or no float.\<close>

definition num_field :: "fields \<Rightarrow> string \<Rightarrow> f64" where
  "num_field d k = (case fmlookup d k of Some (VNum x) \<Rightarrow> x | _ \<Rightarrow> Fin 0)"

definition defaultCurrencyMinorUnit :: int where
  "defaultCurrencyMinorUnit = 2"

text \<open>\<open>int(x)\<close> of a float.\<close>

definition go_int :: "env \<Rightarrow> f64 \<Rightarrow> i64" where
  "go_int E x = to_i64 (e_cv E) x"

definition currencyMinorUnitTx :: "env \<Rightarrow> string \<Rightarrow> int dbm" where
  "currencyMinorUnitTx E currencyID =
     bindM (GetTx E ''Currency'' currencyID) (\<lambda>c.
       case fmlookup (rec_data c) ''minor_unit'' of
         Some (VNum v) \<Rightarrow> ret (sint (go_int E v))
       | _ \<Rightarrow> fail ErrPlain)"

text \<open>
  The scale of the asset's currency, two places when it cannot be resolved. A lookup that Postgres
  refuses (\<open>ErrDB\<close>) is passed over by the code, but its transaction is aborted: the flag says so.
\<close>

definition schedule_scale :: "env \<Rightarrow> fields \<Rightarrow> (int \<times> bool) dbm" where
  "schedule_scale E data =
     (let c = str_field data ''currency_id'' in
      if c = [] then ret (defaultCurrencyMinorUnit, False)
      else catchM (bindM (currencyMinorUnitTx E c) (\<lambda>v. ret (v, False)))
        (\<lambda>e. ret (defaultCurrencyMinorUnit, e = ErrDB)))"

definition period_fields :: "string \<Rightarrow> int \<Rightarrow> Period \<Rightarrow> fields" where
  "period_fields assetID minorUnit p =
     fmap_of_list
       [(''fixed_asset_id'', VStr assetID),
        (''sequence'', VNum (Fin (of_nat (pd_sequence p)))),
        (''period_end'', VStr (pd_end p)),
        (''depreciation_amount'', VNum (f_div_fin (of_i64 (pd_charge p)) (10 ^ nat minorUnit))),
        (''book_value'', VNum (f_div_fin (of_i64 (pd_book p)) (10 ^ nat minorUnit)))]"

definition scheduleFields :: "string \<Rightarrow> Period list \<Rightarrow> int \<Rightarrow> fields list" where
  "scheduleFields assetID ps minorUnit = map (period_fields assetID minorUnit) ps"

definition schedule_input :: "env \<Rightarrow> fields \<Rightarrow> i64 \<Rightarrow> i64 \<Rightarrow> Input" where
  "schedule_input E data cost salvage =
     \<lparr>in_method = str_field data ''depreciation_method'', in_date = str_field data ''acquisition_date'',
      in_cost = cost, in_salvage = salvage,
      in_life = go_int E (f_round (num_field data ''useful_life_months''))\<rparr>"

definition buildDesiredSchedule :: "env \<Rightarrow> string \<Rightarrow> fields \<Rightarrow> (fields list \<times> bool) dbm" where
  "buildDesiredSchedule E assetID data =
     bindM (schedule_scale E data) (\<lambda>(minorUnit, aborted).
       case MinorUnits (e_cv E) (num_field data ''cost'') minorUnit of
         Inl _ \<Rightarrow> fail (ErrHookRejected ''cost'')
       | Inr cost \<Rightarrow>
           case MinorUnits (e_cv E) (num_field data ''salvage_value'') minorUnit of
             Inl _ \<Rightarrow> fail (ErrHookRejected ''salvage_value'')
           | Inr salvage \<Rightarrow>
               case Build (schedule_input E data cost salvage) of
                 Inl _ \<Rightarrow> fail (ErrHookRejected ''schedule'')
               | Inr ps \<Rightarrow> ret (scheduleFields assetID ps minorUnit, aborted))"

section \<open>Comparing with what is stored\<close>

definition sequence_of :: "env \<Rightarrow> fields \<Rightarrow> int" where
  "sequence_of E d = sint (go_int E (num_field d ''sequence''))"

definition by_sequence :: "env \<Rightarrow> Record list \<Rightarrow> int \<rightharpoonup> Record" where
  "by_sequence E existing = foldl (\<lambda>m r. m(sequence_of E (rec_data r) \<mapsto> r)) Map.empty existing"

definition row_matches :: "fields \<Rightarrow> fields \<Rightarrow> bool" where
  "row_matches stored want \<longleftrightarrow>
     bool_field stored ''overridden'' \<or>
     str_field stored ''period_end'' = str_field want ''period_end'' \<and>
     f_eq (num_field stored ''depreciation_amount'') (num_field want ''depreciation_amount'') \<and>
     f_eq (num_field stored ''book_value'') (num_field want ''book_value'')"

definition scheduleMatches :: "env \<Rightarrow> Record list \<Rightarrow> fields list \<Rightarrow> bool" where
  "scheduleMatches E existing desired \<longleftrightarrow>
     length existing = length desired \<and>
     list_all (\<lambda>d. case by_sequence E existing (sequence_of E d) of
         None \<Rightarrow> False
       | Some r \<Rightarrow> row_matches (rec_data r) d) desired"

definition allOverridden :: "Record list \<Rightarrow> bool" where
  "allOverridden existing \<longleftrightarrow>
     existing \<noteq> [] \<and> list_all (\<lambda>r. bool_field (rec_data r) ''overridden'') existing"

definition anyPosted :: "Record list \<Rightarrow> bool" where
  "anyPosted existing \<longleftrightarrow> list_ex (\<lambda>r. str_field (rec_data r) ''posted_at'' \<noteq> []) existing"

section \<open>The hook on fixed assets\<close>

text \<open>
  \<open>decode\<close> is \<open>entity.Unmarshal\<close>, the JSON library's reading of a definition.
\<close>

definition insert_period :: "env \<Rightarrow> Definition \<Rightarrow> Actor \<Rightarrow> fields \<Rightarrow> unit dbm" where
  "insert_period E def actor flds =
     (let flds = the (ApplyDefaults def (Some flds)) in
      thenM (guardM (map_option ErrValidation (ValidateRecord (e_cv E) def flds)))
      (bindM (CreateTx ''DepreciationSchedule'' flds) (\<lambda>r.
        write_audit E ''DepreciationSchedule'' (rec_id r) ActionCreate actor (Some flds))))"

definition insertSchedule :: "env \<Rightarrow> (gval \<Rightarrow> Definition option) \<Rightarrow> fields list \<Rightarrow> Actor \<Rightarrow> unit dbm" where
  "insertSchedule E decode desired actor =
     (if desired = [] then ret ()
      else bindM (getPublished EntityDefinitions ''DepreciationSchedule'') (\<lambda>pd.
        case decode (dv_definition pd) of
          None \<Rightarrow> fail ErrPlain
        | Some def \<Rightarrow> forEach desired (insert_period E def actor)))"

definition delete_period :: "env \<Rightarrow> Actor \<Rightarrow> Record \<Rightarrow> unit dbm" where
  "delete_period E actor row =
     thenM (DeleteTx E ''DepreciationSchedule'' (rec_id row))
       (write_audit E ''DepreciationSchedule'' (rec_id row) ActionDelete actor None)"

definition GenerateDepreciationScheduleOnWrite :: "env \<Rightarrow> (gval \<Rightarrow> Definition option) \<Rightarrow> hook" where
  "GenerateDepreciationScheduleOnWrite E decode = (\<lambda>d r act actor.
     bindM (buildDesiredSchedule E (rec_id r) (rec_data r)) (\<lambda>(desired, aborted).
       if aborted then query (\<lambda>_. Inl ErrDB)
       else bindM (ListByField E ''DepreciationSchedule'' ''fixed_asset_id'' (rec_id r)) (\<lambda>existing.
         if act = ActionCreate then
           (if existing \<noteq> [] then ret () else insertSchedule E decode desired actor)
         else if scheduleMatches E existing desired then
           (if anyPosted existing \<and> allOverridden existing then fail (ErrHookRejected ''all_overridden'')
            else ret ())
         else if anyPosted existing then fail (ErrHookRejected ''posted'')
         else thenM (forEach existing (delete_period E actor))
                (insertSchedule E decode desired actor))))"

section \<open>The hook on schedule rows\<close>

text \<open>\<open>==\<close> of two values of type \<open>any\<close>, one of them a string or a float.\<close>

fun same_scalar :: "gval \<Rightarrow> gval \<Rightarrow> bool" where
  "same_scalar (VStr a) (VStr b) \<longleftrightarrow> a = b"
| "same_scalar (VNum a) (VNum b) \<longleftrightarrow> f_eq a b"
| "same_scalar _ _ \<longleftrightarrow> False"

definition matches_generated :: "env \<Rightarrow> fields list \<Rightarrow> fields \<Rightarrow> bool" where
  "matches_generated E desired stored =
     (case List.find (\<lambda>d. sequence_of E d = sequence_of E stored) desired of
        None \<Rightarrow> False
      | Some want \<Rightarrow> list_all (\<lambda>k. same_scalar (get_field stored k) (get_field want k))
          [''period_end'', ''depreciation_amount'', ''book_value''])"

definition MarkDepreciationScheduleOverriddenOnWrite :: "env \<Rightarrow> hook" where
  "MarkDepreciationScheduleOverriddenOnWrite E = (\<lambda>d r act actor.
     let assetID = str_field (rec_data r) ''fixed_asset_id'' in
     if assetID = [] then ret ()
     else bindM (optionalM (GetTx E ''FixedAsset'' assetID)) (\<lambda>asset.
       case asset of
         None \<Rightarrow> ret ()
       | Some a \<Rightarrow>
           bindM (buildDesiredSchedule E assetID (rec_data a)) (\<lambda>(desired, aborted).
             let overridden = \<not> matches_generated E desired (rec_data r) in
             if aborted then query (\<lambda>_. Inl ErrDB)
             else if bool_field (rec_data r) ''overridden'' = overridden then ret ()
             else
               thenM (UpdateTx E ''DepreciationSchedule'' (rec_id r)
                       (fmupd ''overridden'' (VBool overridden) (rec_data r)) (Some (rec_version r)))
                 (write_audit E ''DepreciationSchedule'' (rec_id r) act actor
                   (Some (fmupd ''overridden'' (VBool overridden) fmempty))))))"

end
