(* ===== verification/StatusProps.thy ===== *)
theory StatusProps
  imports CrudStatus CrudProps
begin

text \<open>
  Properties of status management, on a type of orders that start as drafts and may be
  submitted or cancelled.
\<close>

section \<open>Orders\<close>

definition order_def :: Definition where
  "order_def =
     (mk_definition ''Order''
        [(mk_field ''status_id'' FieldReference)\<lparr>f_target := ''Status'', f_required := True\<rparr>])
     \<lparr>d_status_type_code := ''order''\<rparr>"

definition plain_env :: env where
  "plain_env = sample_env\<lparr>e_uuid := Some\<rparr>"

definition row_of :: "string \<Rightarrow> string \<Rightarrow> fields \<Rightarrow> int \<Rightarrow> rrow" where
  "row_of i et f v =
     \<lparr>rr_id = i, rr_type = et, rr_data = f, rr_version = v, rr_created = 0, rr_deleted = False\<rparr>"

definition status_doc :: "string \<Rightarrow> fields" where
  "status_doc s = fmupd ''status_id'' (VStr s) fmempty"

definition status_fields :: "bool \<Rightarrow> fields" where
  "status_fields b = fmupd ''is_initial'' (VBool b) (fmupd ''status_type_id'' (VStr ''t'') fmempty)"

definition transition_fields :: "string \<Rightarrow> string \<Rightarrow> fields" where
  "transition_fields a b =
     fmupd ''from_status_id'' (VStr a) (fmupd ''to_status_id'' (VStr b)
       (fmupd ''status_type_id'' (VStr ''t'') fmempty))"

definition graph_rows :: "rrow list" where
  "graph_rows =
     [row_of ''t'' ''StatusType'' (fmupd ''code'' (VStr ''order'') fmempty) 1,
      row_of ''draft'' ''Status'' (status_fields True) 1,
      row_of ''submitted'' ''Status'' (status_fields False) 1,
      row_of ''cancelled'' ''Status'' (status_fields False) 1,
      row_of ''e1'' ''StatusTransition'' (transition_fields ''draft'' ''submitted'') 1,
      row_of ''e2'' ''StatusTransition'' (transition_fields ''draft'' ''cancelled'') 1]"

definition order_db :: "string \<Rightarrow> int \<Rightarrow> arow list \<Rightarrow> db" where
  "order_db s v au =
     empty_db\<lparr>db_records := graph_rows @ [row_of ''o'' ''Order'' (status_doc s) v], db_audit := au\<rparr>"

definition order_audit :: "string \<Rightarrow> arow" where
  "order_audit s =
     \<lparr>al_type = ''Order'', al_record = Some ''o'', al_action = ActionUpdate, al_actor_type = ActorHuman,
      al_actor_id = ''u1'', al_model_version = None, al_input_hash = None, al_diff = Some (status_doc s)\<rparr>"

lemma plain_env_sel [simp]: "e_uuid plain_env = Some" "e_cv plain_env = cv_amd64"
  by (simp_all add: plain_env_def)

lemma order_sel [simp]:
  "d_entity_type order_def = ''Order''" "d_status_type_code order_def = ''order''"
  "d_unique order_def = []" "d_unique_when order_def = []"
  "d_fields order_def =
     [(mk_field ''status_id'' FieldReference)\<lparr>f_target := ''Status'', f_required := True\<rparr>]"
  by (simp_all add: order_def_def mk_definition_def)

lemma order_valid: "Validate cv order_def = None"
  by (simp add: order_def_def Validate_def check_header_def check_label_def check_field_def
      check_must_match_def check_bounds_def check_not_before_def check_cycles_def
      check_unique_set_def check_status_def mk_definition_def mk_field_def type_valid_def
      allFieldTypes_def HasPrefix_def FieldByName_def field_types_def not_before_map_def
      nb_walk_cycle.simps nb_next_def Let_def StatusIDFieldName_def)

lemma status_doc_sel [simp]:
  "str_field (status_doc s) ''status_id'' = s" "get_field (status_doc s) ''status_id'' = VStr s"
  "json_ok_fields (status_doc s)" "json_norm_fields (status_doc s) = status_doc s"
  by (simp_all add: status_doc_def json_ok_fields_iff json_norm_fields_def fmmap_fmupd)

lemma order_world_wf: "1 \<le> v \<Longrightarrow> v \<le> 9 \<Longrightarrow> world_wf (sample_world (order_db s v au))"
  by (simp add: world_wf_def tables_wf_parts sample_world_def order_db_def graph_rows_def row_of_def
      empty_db_def max_int4_def)

lemma order_read:
  "live_doc plain_env ''Order'' (sample_world (order_db s v au)) ''o'' = Some (status_doc s, v)"
  by (simp add: live_doc_def sample_world_def order_db_def graph_rows_def row_of_def live_def)

lemma arrow_text_doc [simp]:
  "get_field fmempty k = VNil"
  by (simp add: get_field_def)

lemma doc_fields [simp]:
  "str_field (status_fields b) ''status_type_id'' = ''t''"
  "get_field (status_fields b) ''status_type_id'' = VStr ''t''"
  "bool_field (status_fields b) ''is_initial'' = b"
  "get_field (transition_fields x y) ''status_type_id'' = VStr ''t''"
  "str_field (transition_fields x y) ''from_status_id'' = x"
  "str_field (transition_fields x y) ''to_status_id'' = y"
  by (simp_all add: status_fields_def transition_fields_def str_field_def get_field_def bool_field_def)

lemma order_check:
  assumes "new = ''submitted'' \<or> new = ''cancelled''"
  shows "ValidateStatusTransition plain_env order_def ''o'' (status_doc new) False (Some n)
      (sample_world (order_db ''draft'' v au)) = (Inr (), sample_world (order_db ''draft'' v au))"
  using assms
  by (auto simp: ValidateStatusTransition_def statusTypeIDByCode_def new_status_def current_status_def
      check_edge_def is_edge_def Get_def get_where_def ListByField_def by_age_def field_is_def arrow_text_def
      to_record_def live_def sample_world_def order_db_def graph_rows_def row_of_def catchM_def
      StatusIDFieldName_def StatusTypeIDFieldName_def stmt_eval Let_def)

lemma order_doc_valid:
  assumes "TrimSpace new \<noteq> []"
  shows "ValidateRecord cv order_def (status_doc new) = None"
  using assms
  by (simp add: ValidateRecord_def validate_field_def validateFieldValue_def mk_field_def Let_def)

lemma order_rows_update:
  "UpdateTx plain_env ''Order'' ''o'' (status_doc new) (Some v) (sample_world (order_db old v au)) =
     (if int4_arg (Some v) \<and> v \<noteq> max_int4
      then (Inr (v + 1), sample_world (order_db new (v + 1) au))
      else (Inl ErrDB, sample_world (order_db old v au)))"
  by (simp add: UpdateTx_def upd_where_def update_hits_def update_row_def live_def sample_world_def
      order_db_def graph_rows_def row_of_def stmt_eval)

lemma order_update:
  assumes "1 \<le> v" "v \<le> 9" "TrimSpace new \<noteq> []"
  shows "Update plain_env Map.empty order_def ''o'' (status_doc new) (Some v) sample_actor
      (sample_world (order_db old v au)) =
    (Inr (v + 1), sample_world (order_db new (v + 1) (au @ [order_audit new])))"
proof -
  have v: "int4_arg (Some v)" "v \<noteq> max_int4" using assms by (simp_all add: int4_arg_def max_int4_def)
  have au: "write_audit plain_env ''Order'' ''o'' ActionUpdate sample_actor (Some (status_doc new))
      (sample_world (order_db new v au)) = (Inr (), sample_world (order_db new v (au @ [order_audit new])))" for v
    by (simp add: write_audit_def audit_New_def Actor_Validate_def audit_Insert_def audit_row_def
      nullable_def InputHash_def sample_actor_def order_audit_def order_db_def sample_world_def stmt_eval)
  have refs: "check_self_references plain_env order_def ''o'' (status_doc new) = ret ()"
    "checkReferenceTargetConstraints plain_env order_def (status_doc new) = ret ()"
    "UpdateUniqueConstraintKeys plain_env order_def ''o'' (status_doc new) = ret ()"
    by (simp_all add: check_self_references_def selfReferenceFields_def checkReferenceTargetConstraints_def
      check_field_target_def mk_field_def UpdateUniqueConstraintKeys_def thenM_def)
  have "update_body plain_env Map.empty order_def ''o'' (status_doc new) (Some v) sample_actor
      (sample_world (order_db old v au)) =
    (Inr (v + 1), sample_world (order_db new (v + 1) (au @ [order_audit new])))"
    using v by (simp add: update_body_def refs order_rows_update au runHook_def final_version_def
        thenM_def bindM_def ret_def)
  then have "in_tx (update_body plain_env Map.empty order_def ''o'' (status_doc new) (Some v) sample_actor)
      (sample_world (order_db old v au)) =
    (Inr (v + 1), sample_world (order_db new (v + 1) (au @ [order_audit new])))"
    by (intro in_tx_no_faults) (simp_all add: sample_world_def)
  then show ?thesis
    by (simp add: Update_def validation_def order_doc_valid [OF assms(3)] guardM_def thenM_def bindM_def ret_def)
qed

lemma trim_statuses: "TrimSpace ''submitted'' \<noteq> []" "TrimSpace ''cancelled'' \<noteq> []"
  by (simp_all add: trim_eval)

section \<open>Transitions\<close>

text \<open>
  C19. A status changes only along the declared graph: when a client checks an update of a type without
  hooks with \<open>ValidateStatusTransition\<close>, giving the version the record has at the check, and later
  sends the update with that same version, then whatever updates come in between and whatever
  statements fail, a successful update finds the record as it was checked and moves it by a step
  the graph allowed at the check: it stays, starts in an initial status, or follows an edge. (The
  check does not compare the versions itself: with a later version than the record has the claim
  fails, as \<open>status_race_with_later_version\<close> shows.)
\<close>

theorem status_follows_declared_graph:
  assumes "world_wf w0" and "Validate cv d = None" and "d_status_type_code d \<noteq> []"
    and "live_doc E (d_entity_type d) w0 rid = Some (f0, n)"
    and "ValidateStatusTransition E d rid flds False (Some n) w0 = (Inr u, w1)"
    and "updates_between E d w1 w2"
    and "Update E Map.empty d rid flds (Some n) actor w2 = (Inr m, w3)"
  shows "live_doc E (d_entity_type d) w2 rid = Some (f0, n) \<and>
    live_doc E (d_entity_type d) w3 rid = Some (json_norm_fields flds, n + 1) \<and>
    status_step E (w_db w0) (d_status_type_code d)
      (str_field f0 StatusIDFieldName) (str_field flds StatusIDFieldName)"
  using checked_update_follows_graph [OF assms] by blast

lemma order_typed: "typed plain_env (order_db s v au) ''order'' stid \<longleftrightarrow> stid = ''t''"
  by (auto simp: typed_def field_is_def arrow_text_def live_def order_db_def graph_rows_def row_of_def)

lemma order_initial: "initial_status plain_env (order_db s v au) new \<longleftrightarrow> new = ''draft''"
  by (auto simp: initial_status_def live_def order_db_def graph_rows_def row_of_def)

lemma order_edge:
  "status_edge plain_env (order_db s v au) ''t'' old new \<longleftrightarrow>
     (''draft'' = old \<and> ''submitted'' = new) \<or> (''draft'' = old \<and> ''cancelled'' = new)"
  by (simp add: status_edge_def is_edge_def field_is_def arrow_text_def live_def order_db_def graph_rows_def
      row_of_def StatusTypeIDFieldName_def)

lemma order_step:
  "status_step plain_env (order_db s v au) ''order'' old new \<longleftrightarrow>
     new = old \<or> (old = [] \<and> new = ''draft'') \<or>
     (''draft'' = old \<and> ''submitted'' = new) \<or> (''draft'' = old \<and> ''cancelled'' = new)"
  by (simp add: status_step_def order_typed order_initial order_edge)

theorem status_follows_declared_graph_witness:
  "live_doc plain_env ''Order'' (sample_world (order_db ''submitted'' 2 [order_audit ''submitted''])) ''o'' =
     Some (status_doc ''submitted'', 2) \<and>
   status_step plain_env (order_db ''draft'' 1 []) ''order'' ''draft'' ''submitted''"
proof -
  have read: "live_doc plain_env (d_entity_type order_def) (sample_world (order_db ''draft'' 1 [])) ''o'' =
      Some (status_doc ''draft'', 1)"
    using order_read by simp
  have between: "updates_between plain_env order_def w w" for w by (simp add: updates_between_def)
  have run: "Update plain_env Map.empty order_def ''o'' (status_doc ''submitted'') (Some 1) sample_actor
      (sample_world (order_db ''draft'' 1 [])) =
    (Inr 2, sample_world (order_db ''submitted'' 2 [order_audit ''submitted'']))"
    using order_update [of 1 "''submitted''" "''draft''" "[]"] trim_statuses by simp
  have code: "d_status_type_code order_def \<noteq> []" by simp
  have check: "ValidateStatusTransition plain_env order_def ''o'' (status_doc ''submitted'') False (Some 1)
      (sample_world (order_db ''draft'' 1 [])) = (Inr (), sample_world (order_db ''draft'' 1 []))"
    by (rule order_check) simp
  have wf: "world_wf (sample_world (order_db ''draft'' 1 []))" by (rule order_world_wf) simp_all
  have "w_db (sample_world D) = D" for D by (simp add: sample_world_def)
  then show ?thesis
    using status_follows_declared_graph [OF wf order_valid code read check between run]
    unfolding order_sel status_doc_sel StatusIDFieldName_def by simp
qed

text \<open>
  The check takes any version for an answer: it asks that one is given and never compares
  it with the record it read. A client that sends the version \<^emph>\<open>after\<close> the one it read passes the
  check, waits until somebody cancels the order, and submits it: a move from cancelled to
  submitted, which the graph does not have.
\<close>

theorem status_race_with_later_version:
  "ValidateStatusTransition plain_env order_def ''o'' (status_doc ''submitted'') False (Some 2)
      (sample_world (order_db ''draft'' 1 [])) = (Inr (), sample_world (order_db ''draft'' 1 [])) \<and>
   ValidateStatusTransition plain_env order_def ''o'' (status_doc ''cancelled'') False (Some 1)
      (sample_world (order_db ''draft'' 1 [])) = (Inr (), sample_world (order_db ''draft'' 1 [])) \<and>
   (\<exists>au au'.
     Update plain_env Map.empty order_def ''o'' (status_doc ''cancelled'') (Some 1) sample_actor
       (sample_world (order_db ''draft'' 1 [])) = (Inr 2, sample_world (order_db ''cancelled'' 2 au)) \<and>
     Update plain_env Map.empty order_def ''o'' (status_doc ''submitted'') (Some 2) sample_actor
       (sample_world (order_db ''cancelled'' 2 au)) = (Inr 3, sample_world (order_db ''submitted'' 3 au'))) \<and>
   \<not> status_step plain_env (order_db ''cancelled'' 2 au0) ''order'' ''cancelled'' ''submitted''"
proof (intro conjI exI)
  show "Update plain_env Map.empty order_def ''o'' (status_doc ''cancelled'') (Some 1) sample_actor
      (sample_world (order_db ''draft'' 1 [])) =
    (Inr 2, sample_world (order_db ''cancelled'' 2 [order_audit ''cancelled'']))"
    using order_update [of 1 "''cancelled''" "''draft''" "[]"] trim_statuses by simp
  show "Update plain_env Map.empty order_def ''o'' (status_doc ''submitted'') (Some 2) sample_actor
      (sample_world (order_db ''cancelled'' 2 [order_audit ''cancelled''])) =
    (Inr 3, sample_world (order_db ''submitted'' 3 [order_audit ''cancelled'', order_audit ''submitted'']))"
    using order_update [of 2 "''submitted''" "''cancelled''" "[order_audit ''cancelled'']"] trim_statuses
    by simp
qed (simp_all add: order_check order_step)

end
