(* ===== verification/ScheduleProps.thy ===== *)
theory ScheduleProps
  imports ScheduleHook StatusProps
begin

text \<open>
  Properties of the schedule hooks: what a save of a fixed asset may do to schedule rows.
\<close>

section \<open>What the hook leaves alone\<close>

text \<open>The rows a save may replace: live, of this asset, not posted.\<close>

definition asset_row :: "env \<Rightarrow> string \<Rightarrow> rrow \<Rightarrow> bool" where
  "asset_row E assetID r \<longleftrightarrow> live ''DepreciationSchedule'' r \<and> field_is E r (''fixed_asset_id'', assetID)"

definition posted_row :: "rrow \<Rightarrow> bool" where
  "posted_row r \<longleftrightarrow> str_field (rr_data r) ''posted_at'' \<noteq> []"

definition ids_canonical :: "env \<Rightarrow> db \<Rightarrow> bool" where
  "ids_canonical E D \<longleftrightarrow> (\<forall>r \<in> set (db_records D). e_uuid E (rr_id r) = Some (rr_id r))"

definition other_rows :: "db \<Rightarrow> rrow list" where
  "other_rows D = filter (\<lambda>r. rr_type r \<noteq> ''FixedAsset'') (db_records D)"

lemma reads_schedule [reads_intro]:
  "reads (schedule_scale E data)" "reads (buildDesiredSchedule E i data)"
  "reads (currencyMinorUnitTx E c)"
proof -
  show c: "reads (currencyMinorUnitTx E c)" for c
    unfolding currencyMinorUnitTx_def
    by (intro reads_intro) (auto intro: reads_intro split: option.split gval.split)
  show s: "reads (schedule_scale E data)"
    unfolding schedule_scale_def Let_def by (intro reads_intro c)
  show "reads (buildDesiredSchedule E i data)"
    unfolding buildDesiredSchedule_def by (intro reads_intro s) (auto intro!: reads_intro)
qed

lemma keeps_row_statements:
  "keeps (\<lambda>D. p \<in> set (db_records D)) (write_audit E et i act actor diff)"
  "keeps (\<lambda>D. p \<in> set (db_records D)) (CreateTx et data)"
  by (rule write_audit_keeps, simp, rule keepsI, erule CreateTx_success, simp)

lemma insertSchedule_keeps: "keeps (\<lambda>D. p \<in> set (db_records D)) (insertSchedule E decode desired actor)"
  unfolding insertSchedule_def insert_period_def Let_def
  by (intro keeps_intro keeps_row_statements reads_keeps reads_definitions)

lemma DeleteTx_other:
  assumes "DeleteTx E et i w = (Inr u, w')" "e_uuid E i = Some i" "p \<in> set (db_records (w_db w))" "rr_id p \<noteq> i"
  shows "p \<in> set (db_records (w_db w'))"
  using assms by (auto elim!: DeleteTx_success simp: in_upd_where intro!: bexI [of _ p])

lemma delete_periods_other:
  assumes "forEach rows (delete_period E actor) w = (Inr u, w')" "p \<in> set (db_records (w_db w))"
    and "\<And>r. r \<in> set rows \<Longrightarrow> e_uuid E (rec_id r) = Some (rec_id r) \<and> rec_id r \<noteq> rr_id p"
  shows "p \<in> set (db_records (w_db w'))"
  using assms
proof (induction rows arbitrary: w)
  case (Cons r rows)
  from Cons.prems(1) obtain u0 w2 where row: "delete_period E actor r w = (Inr u0, w2)"
    and rows: "forEach rows (delete_period E actor) w2 = (Inr u, w')"
    by (auto simp: thenM_Inr_iff)
  from row obtain u1 w1 u2 where 1: "DeleteTx E ''DepreciationSchedule'' (rec_id r) w = (Inr u1, w1)"
    "write_audit E ''DepreciationSchedule'' (rec_id r) ActionDelete actor None w1 = (Inr u2, w2)"
    by (auto simp: delete_period_def thenM_Inr_iff)
  have "p \<in> set (db_records (w_db w1))" using DeleteTx_other [OF 1(1)] Cons.prems(2) Cons.prems(3) [of r] by fastforce
  then have "p \<in> set (db_records (w_db w2))" using keepsD [OF keeps_row_statements(1) 1(2)] by blast
  then show ?case using Cons.IH [OF rows] Cons.prems by auto
qed simp

lemma reads_asset_rows: "reads (ListByField E ''DepreciationSchedule'' ''fixed_asset_id'' i)"
  unfolding ListByField_def by (rule reads_query)

lemma generate_run:
  assumes run: "GenerateDepreciationScheduleOnWrite E decode d r act actor w = (Inr u, w')"
  obtains desired wa existing wb where
    "buildDesiredSchedule E (rec_id r) (rec_data r) w = (Inr (desired, False), wa)"
    "set existing = to_record ` {p \<in> set (db_records (w_db w)). asset_row E (rec_id r) p}" "w_db wb = w_db w"
    "(if act = ActionCreate then
           (if existing \<noteq> [] then ret () else insertSchedule E decode desired actor)
         else if scheduleMatches E existing desired then
           (if anyPosted existing \<and> allOverridden existing then fail (ErrHookRejected ''all_overridden'')
            else ret ())
         else if anyPosted existing then fail (ErrHookRejected ''posted'')
         else thenM (forEach existing (delete_period E actor))
                (insertSchedule E decode desired actor)) wb = (Inr u, w')"
proof -
  from run obtain da wa where b: "buildDesiredSchedule E (rec_id r) (rec_data r) w = (Inr da, wa)"
    and k: "(case da of (desired, aborted) \<Rightarrow>
       if aborted then query (\<lambda>_. Inl ErrDB)
       else bindM (ListByField E ''DepreciationSchedule'' ''fixed_asset_id'' (rec_id r)) (\<lambda>existing.
         if act = ActionCreate then
           (if existing \<noteq> [] then ret () else insertSchedule E decode desired actor)
         else if scheduleMatches E existing desired then
           (if anyPosted existing \<and> allOverridden existing then fail (ErrHookRejected ''all_overridden'')
            else ret ())
         else if anyPosted existing then fail (ErrHookRejected ''posted'')
         else thenM (forEach existing (delete_period E actor))
                (insertSchedule E decode desired actor))) wa = (Inr u, w')"
    unfolding GenerateDepreciationScheduleOnWrite_def bindM_Inr_iff by blast
  obtain desired aborted where da: "da = (desired, aborted)" by (cases da)
  have ab: "\<not> aborted" using k da by (cases aborted) (simp_all add: query_Inr_iff)
  from k da ab obtain existing wb where l: "ListByField E ''DepreciationSchedule'' ''fixed_asset_id'' (rec_id r) wa = (Inr existing, wb)"
    and rest: "(if act = ActionCreate then
           (if existing \<noteq> [] then ret () else insertSchedule E decode desired actor)
         else if scheduleMatches E existing desired then
           (if anyPosted existing \<and> allOverridden existing then fail (ErrHookRejected ''all_overridden'')
            else ret ())
         else if anyPosted existing then fail (ErrHookRejected ''posted'')
         else thenM (forEach existing (delete_period E actor))
                (insertSchedule E decode desired actor)) wb = (Inr u, w')"
    by (simp only: prod.case if_False bindM_Inr_iff) blast
  have wa: "w_db wa = w_db w" using readsD [OF reads_schedule(2) b] .
  have wb: "w_db wb = w_db w" using readsD [OF reads_asset_rows l] wa by simp
  have "set existing = to_record ` {p \<in> set (db_records (w_db wa)). asset_row E (rec_id r) p}"
    using l by (auto simp: ListByField_def query_Inr_iff by_age_def asset_row_def)
  then show thesis using that [OF _ _ wb rest] b da ab wa by simp
qed

lemma generate_update:
  assumes run: "GenerateDepreciationScheduleOnWrite E decode d r ActionUpdate actor w = (Inr u, w')"
    and wf: "tables_wf (w_db w)" and ids: "ids_canonical E (w_db w)"
  shows "(\<forall>p \<in> set (db_records (w_db w)). \<not> (asset_row E (rec_id r) p \<and> \<not> posted_row p) \<longrightarrow>
      p \<in> set (db_records (w_db w'))) \<and>
    ((\<exists>p \<in> set (db_records (w_db w)). asset_row E (rec_id r) p \<and> posted_row p) \<longrightarrow> w_db w' = w_db w)"
proof -
  obtain desired w1 existing w2 where
    rows: "set existing = to_record ` {p \<in> set (db_records (w_db w)). asset_row E (rec_id r) p}" and w2: "w_db w2 = w_db w"
    and rest: "(if scheduleMatches E existing desired then
           (if anyPosted existing \<and> allOverridden existing then fail (ErrHookRejected ''all_overridden'')
            else ret ())
         else if anyPosted existing then fail (ErrHookRejected ''posted'')
         else thenM (forEach existing (delete_period E actor))
                (insertSchedule E decode desired actor)) w2 = (Inr u, w')"
    by (rule generate_run [OF run]) (rule that, simp_all)
  have posted: "anyPosted existing \<longleftrightarrow> (\<exists>p \<in> set (db_records (w_db w)). asset_row E (rec_id r) p \<and> posted_row p)"
    by (auto simp: anyPosted_def list_ex_iff rows posted_row_def to_record_def)
  show ?thesis
  proof (cases "scheduleMatches E existing desired \<or> anyPosted existing")
    case True
    then have "w_db w' = w_db w" using rest w2 by (auto split: if_splits)
    then show ?thesis by simp
  next
    case False
    with rest obtain u1 w3 where del: "forEach existing (delete_period E actor) w2 = (Inr u1, w3)"
      and ins: "insertSchedule E decode desired actor w3 = (Inr u, w')"
      by (auto simp: thenM_Inr_iff)
    have "p \<in> set (db_records (w_db w'))"
      if p: "p \<in> set (db_records (w_db w))" "\<not> (asset_row E (rec_id r) p \<and> \<not> posted_row p)" for p
    proof -
      have np: "\<not> asset_row E (rec_id r) p" using p False posted by blast
      have "p \<in> set (db_records (w_db w3))"
      proof (rule delete_periods_other [OF del])
        show "p \<in> set (db_records (w_db w2))" using p w2 by simp
        fix q assume "q \<in> set existing"
        then obtain q' where q: "q' \<in> set (db_records (w_db w))" "asset_row E (rec_id r) q'" "q = to_record q'"
          using rows by auto
        then have "rr_id q' \<noteq> rr_id p" using np p(1) wf rr_id_unique tables_wf_def by metis
        then show "e_uuid E (rec_id q) = Some (rec_id q) \<and> rec_id q \<noteq> rr_id p"
          using q ids by (simp add: to_record_def ids_canonical_def)
      qed
      then show ?thesis using keepsD [OF insertSchedule_keeps ins] by blast
    qed
    then show ?thesis using False posted by blast
  qed
qed

section \<open>Saving an asset\<close>

lemma other_rows_Update: "keeps (\<lambda>D. ids_canonical E D \<and> other_rows D = L) (UpdateTx E ''FixedAsset'' rid flds ev)"
proof (rule keepsI)
  fix w v w' assume I: "ids_canonical E (w_db w) \<and> other_rows (w_db w) = L"
    and run: "UpdateTx E ''FixedAsset'' rid flds ev w = (Inr v, w')"
  obtain u where d: "w_db w' = (w_db w)\<lparr>db_records :=
       upd_where (update_hits ''FixedAsset'' u ev) (update_row flds) (db_records (w_db w))\<rparr>"
    using run by (auto elim: UpdateTx_success)
  have "other_rows (w_db w') = other_rows (w_db w)"
  proof -
    have "filter (\<lambda>r. rr_type r \<noteq> ''FixedAsset'') (upd_where (update_hits ''FixedAsset'' u ev) (update_row flds) rs) =
        filter (\<lambda>r. rr_type r \<noteq> ''FixedAsset'') rs" for rs
      by (induction rs) (auto simp: upd_where_def update_hits_def live_def)
    then show ?thesis by (simp add: other_rows_def d)
  qed
  moreover have "ids_canonical E (w_db w')"
    using I by (auto simp: ids_canonical_def d in_upd_where)
  ultimately show "ids_canonical E (w_db w') \<and> other_rows (w_db w') = L" using I by simp
qed

lemma keeps_same_records: "(\<And>rs. keeps (\<lambda>D. db_records D = rs) m) \<Longrightarrow>
    keeps (\<lambda>D. ids_canonical E D \<and> other_rows D = L) m"
  unfolding keeps_def ids_canonical_def other_rows_def by metis

lemma asset_row_other: "asset_row E i p \<Longrightarrow> rr_type p \<noteq> ''FixedAsset''"
  by (auto simp: asset_row_def live_def)

text \<open>
  C28. Saving a fixed asset never changes or deletes a schedule row that has been posted, nor any row
  of another asset or another type; and once one of the asset's periods is posted, a save leaves
  every row but the asset itself as it was.
\<close>

theorem posted_periods_survive_saves:
  assumes hook: "hooks ''FixedAsset'' = Some (GenerateDepreciationScheduleOnWrite E decode)"
    and d: "d_entity_type d = ''FixedAsset''"
    and wf: "tables_wf (w_db w)" "ids_canonical E (w_db w)"
    and run: "Update E hooks d rid flds ev actor w = (res, w')"
  shows "(\<forall>p \<in> set (other_rows (w_db w)). \<not> (asset_row E rid p \<and> \<not> posted_row p) \<longrightarrow>
      p \<in> set (db_records (w_db w'))) \<and>
    ((\<exists>p \<in> set (other_rows (w_db w)). asset_row E rid p \<and> posted_row p) \<longrightarrow>
      other_rows (w_db w') = other_rows (w_db w))"
proof (cases res)
  case (Inl e)
  then have "w_db w' = w_db w" using Update_error run by blast
  then show ?thesis by (auto simp: other_rows_def)
next
  case (Inr v)
  obtain w1 w2 w3 w4 w5 w6 w7 v0 where w1: "w_db w1 = w_db w"
    and 1: "check_self_references E d rid flds w1 = (Inr (), w2)"
      "checkReferenceTargetConstraints E d flds w2 = (Inr (), w3)"
      "UpdateTx E (d_entity_type d) rid flds ev w3 = (Inr v0, w4)"
      "UpdateUniqueConstraintKeys E d rid flds w4 = (Inr (), w5)"
      "write_audit E (d_entity_type d) rid ActionUpdate actor (Some flds) w5 = (Inr (), w6)"
    and h: "runHook hooks d \<lparr>rec_id = rid, rec_type = d_entity_type d, rec_data = flds, rec_version = v0\<rparr>
       ActionUpdate actor w6 = (Inr (), w7)" and w': "w_db w' = w_db w7"
    by (rule Update_success [OF run [unfolded Inr]], rule that, assumption+)
  define I where "I = (\<lambda>D. ids_canonical E D \<and> other_rows D = other_rows (w_db w))"
  define K where "K = (\<lambda>D. tables_wf D \<and> I D)"
  have upd: "keeps K (UpdateTx E (d_entity_type d) rid flds ev)"
    and keys: "keeps K (UpdateUniqueConstraintKeys E d rid flds)"
    and aud: "keeps K (write_audit E (d_entity_type d) rid ActionUpdate actor (Some flds))"
    unfolding K_def I_def d
    by (rule keeps_conj [OF UpdateTx_wf other_rows_Update],
        rule keeps_conj [OF _ keeps_same_records [OF update_keys_records]], rule keeps_intro,
        rule keeps_conj [OF write_audit_wf keeps_same_records], rule write_audit_keeps, simp)
  have "K (w_db w1)" using wf w1 by (simp add: K_def I_def)
  then have "K (w_db w2)" by (rule keepsD [OF keeps_checks(2) 1(1)])
  then have "K (w_db w3)" by (rule keepsD [OF keeps_checks(1) 1(2)])
  then have "K (w_db w4)" by (rule keepsD [OF upd 1(3)])
  then have "K (w_db w5)" by (rule keepsD [OF keys 1(4)])
  then have "K (w_db w6)" by (rule keepsD [OF aud 1(5)])
  then have K: "tables_wf (w_db w6)" "ids_canonical E (w_db w6)" "other_rows (w_db w6) = other_rows (w_db w)"
    by (simp_all add: K_def I_def)
  from h have g: "GenerateDepreciationScheduleOnWrite E decode d
      \<lparr>rec_id = rid, rec_type = d_entity_type d, rec_data = flds, rec_version = v0\<rparr> ActionUpdate actor w6 = (Inr (), w7)"
    by (simp add: runHook_def d hook)
  from generate_update [OF g K(1,2)]
  have "(\<forall>p \<in> set (db_records (w_db w6)). \<not> (asset_row E rid p \<and> \<not> posted_row p) \<longrightarrow> p \<in> set (db_records (w_db w7)))"
    "(\<exists>p \<in> set (db_records (w_db w6)). asset_row E rid p \<and> posted_row p) \<longrightarrow> w_db w7 = w_db w6"
    by simp_all
  moreover have "p \<in> set (db_records (w_db w6))" if "p \<in> set (other_rows (w_db w))" for p
    using that unfolding K(3) [symmetric] by (simp add: other_rows_def)
  ultimately show ?thesis using K(3) unfolding w' by metis
qed

section \<open>A schedule just made is the schedule\<close>

lemma period_fields_lookup [simp]:
  "fmlookup (period_fields i u p) ''fixed_asset_id'' = Some (VStr i)"
  "fmlookup (period_fields i u p) ''sequence'' = Some (VNum (Fin (of_nat (pd_sequence p))))"
  "fmlookup (period_fields i u p) ''period_end'' = Some (VStr (pd_end p))"
  "fmlookup (period_fields i u p) ''depreciation_amount'' = Some (VNum (f_div_fin (of_i64 (pd_charge p)) (10 ^ nat u)))"
  "fmlookup (period_fields i u p) ''book_value'' = Some (VNum (f_div_fin (of_i64 (pd_book p)) (10 ^ nat u)))"
  by (simp_all add: period_fields_def fmlookup_of_list)

definition period_keys :: "string list" where
  "period_keys = [''fixed_asset_id'', ''sequence'', ''period_end'', ''depreciation_amount'', ''book_value'']"

text \<open>The row an insert of a period makes.\<close>

definition stores :: "fields \<Rightarrow> rrow \<Rightarrow> bool" where
  "stores want row \<longleftrightarrow>
     live ''DepreciationSchedule'' row \<and> (\<forall>k \<in> set period_keys. fmlookup (rr_data row) k = fmlookup want k)"

lemma insert_periods_rows:
  assumes "forEach (map (period_fields i u) ps) (insert_period E def actor) w = (Inr x, w')"
  shows "\<exists>new. db_records (w_db w') = db_records (w_db w) @ new \<and>
    list_all2 (\<lambda>p row. stores (period_fields i u p) row) ps new"
  using assms
proof (induction ps arbitrary: w)
  case (Cons p ps)
  let ?f = "the (ApplyDefaults def (Some (period_fields i u p)))"
  from Cons.prems obtain u1 w1 where one: "insert_period E def actor (period_fields i u p) w = (Inr u1, w1)"
    and rest: "forEach (map (period_fields i u) ps) (insert_period E def actor) w1 = (Inr x, w')"
    by (auto simp: thenM_Inr_iff)
  from one obtain r w2 where c: "CreateTx ''DepreciationSchedule'' ?f w = (Inr r, w2)"
    and a: "write_audit E ''DepreciationSchedule'' (rec_id r) ActionCreate actor (Some ?f) w2 = (Inr u1, w1)"
    by (auto simp: insert_period_def Let_def thenM_Inr_iff bindM_Inr_iff)
  obtain row where row: "row = \<lparr>rr_id = rec_id r, rr_type = ''DepreciationSchedule'', rr_data = json_norm_fields ?f,
      rr_version = 1, rr_created = w_now w, rr_deleted = False\<rparr>" "db_records (w_db w2) = db_records (w_db w) @ [row]"
    using c by (auto elim!: CreateTx_success)
  have "fmlookup (json_norm_fields ?f) k = fmlookup (period_fields i u p) k" if k: "k \<in> set period_keys" for k
  proof -
    have "fmlookup ?f k = fmlookup (period_fields i u p) k"
      by (rule defaults_keep) (use k in \<open>auto simp: period_keys_def get_field_def\<close>)
    moreover have "map_option json_norm (fmlookup (period_fields i u p) k) = fmlookup (period_fields i u p) k"
      using k by (auto simp: period_keys_def)
    ultimately show ?thesis by simp
  qed
  then have "stores (period_fields i u p) row"
    unfolding stores_def row(1) by (simp add: live_def)
  moreover have "db_records (w_db w1) = db_records (w_db w) @ [row]"
    using write_audit_db [OF a] row(2) by simp
  ultimately show ?case using Cons.IH [OF rest] by force
qed simp

text \<open>The scale the asset's currency gives, and that it depends on currencies only.\<close>

definition scale_of :: "env \<Rightarrow> db \<Rightarrow> fields \<Rightarrow> int" where
  "scale_of E D data =
     (case e_uuid E (str_field data ''currency_id'') of
        None \<Rightarrow> defaultCurrencyMinorUnit
      | Some u \<Rightarrow>
          (case List.find (\<lambda>r. rr_id r = u) (filter (live ''Currency'') (db_records D)) of
             Some r \<Rightarrow> (case fmlookup (rr_data r) ''minor_unit'' of
                 Some (VNum v) \<Rightarrow> sint (go_int E v) | _ \<Rightarrow> defaultCurrencyMinorUnit)
           | None \<Rightarrow> defaultCurrencyMinorUnit))"

lemma schedule_scale_run:
  assumes "schedule_scale E data w = (Inr (u, False), w')"
  shows "u = (if str_field data ''currency_id'' = [] then defaultCurrencyMinorUnit else scale_of E (w_db w) data)"
  using assms
  by (auto simp: schedule_scale_def Let_def catchM_def bindM_def currencyMinorUnitTx_def GetTx_def get_where_def
      query_def stmt_def rbind_def uuid_arg_def scale_of_def find_filter ret_def fail_def
      split: if_splits option.splits gval.splits sum.splits prod.splits)

lemma scale_of_append:
  "\<forall>row \<in> set new. rr_type row \<noteq> ''Currency'' \<Longrightarrow> db_records D' = db_records D @ new \<Longrightarrow> scale_of E D' data = scale_of E D data"
proof -
  assume "\<forall>row \<in> set new. rr_type row \<noteq> ''Currency''" "db_records D' = db_records D @ new"
  then have *: "filter (live ''Currency'') (db_records D') = filter (live ''Currency'') (db_records D)"
    by (auto simp: live_def filter_empty_conv)
  show ?thesis unfolding scale_of_def * ..
qed

lemma buildDesired_parts:
  assumes "buildDesiredSchedule E i data w = (Inr (desired, False), w')"
  obtains u cost salvage ps w1 where "schedule_scale E data w = (Inr (u, False), w1)"
    "MinorUnits (e_cv E) (num_field data ''cost'') u = Inr cost"
    "MinorUnits (e_cv E) (num_field data ''salvage_value'') u = Inr salvage"
    "Build (schedule_input E data cost salvage) = Inr ps" "desired = scheduleFields i ps u"
proof -
  from assms obtain u ab w1 where sc: "schedule_scale E data w = (Inr (u, ab), w1)"
    and rest: "(case MinorUnits (e_cv E) (num_field data ''cost'') u of
         Inl _ \<Rightarrow> fail (ErrHookRejected ''cost'')
       | Inr cost \<Rightarrow>
           case MinorUnits (e_cv E) (num_field data ''salvage_value'') u of
             Inl _ \<Rightarrow> fail (ErrHookRejected ''salvage_value'')
           | Inr salvage \<Rightarrow>
               case Build (schedule_input E data cost salvage) of
                 Inl _ \<Rightarrow> fail (ErrHookRejected ''schedule'')
               | Inr ps \<Rightarrow> ret (scheduleFields i ps u, ab)) w1 = (Inr (desired, False), w')"
    unfolding buildDesiredSchedule_def bindM_Inr_iff by auto
  from rest obtain cost where c: "MinorUnits (e_cv E) (num_field data ''cost'') u = Inr cost"
    by (cases "MinorUnits (e_cv E) (num_field data ''cost'') u") simp_all
  from rest c obtain salvage where v: "MinorUnits (e_cv E) (num_field data ''salvage_value'') u = Inr salvage"
    by (cases "MinorUnits (e_cv E) (num_field data ''salvage_value'') u") simp_all
  from rest c v obtain ps where ps: "Build (schedule_input E data cost salvage) = Inr ps"
    by (cases "Build (schedule_input E data cost salvage)") simp_all
  from rest c v ps have "desired = scheduleFields i ps u" "\<not> ab" by simp_all
  then show thesis using that [OF _ c v ps] sc by simp
qed

lemma buildDesired_run:
  assumes "buildDesiredSchedule E i data w = (Inr (desired, False), w')"
  obtains u cost salvage ps where
    "u = (if str_field data ''currency_id'' = [] then defaultCurrencyMinorUnit else scale_of E (w_db w) data)"
    "MinorUnits (e_cv E) (num_field data ''cost'') u = Inr cost"
    "MinorUnits (e_cv E) (num_field data ''salvage_value'') u = Inr salvage"
    "Build (schedule_input E data cost salvage) = Inr ps" "desired = scheduleFields i ps u"
proof -
  obtain u cost salvage ps w1 where parts: "schedule_scale E data w = (Inr (u, False), w1)"
    "MinorUnits (e_cv E) (num_field data ''cost'') u = Inr cost"
    "MinorUnits (e_cv E) (num_field data ''salvage_value'') u = Inr salvage"
    "Build (schedule_input E data cost salvage) = Inr ps" "desired = scheduleFields i ps u"
    by (rule buildDesired_parts [OF assms])
  show thesis by (rule that [OF schedule_scale_run [OF parts(1)] parts(2-5)])
qed

lemma Build_sequences:
  assumes "Build inp = Inr ps"
  shows "map pd_sequence ps = map Suc [0..<length ps]" "length ps \<le> 1200"
proof -
  have ok: "terms_ok inp" using Build_accepts assms by blast
  then obtain start where "ParseDate (in_date inp) = Some start" by (auto simp: terms_ok_def)
  from Build_rows [OF ok this] obtain qs where q: "Build inp = Inr qs" "int (length qs) = sint (in_life inp)"
    "\<And>i. i < length qs \<Longrightarrow> pd_sequence (qs ! i) = i + 1" by (metis Period.select_convs(1))
  then have len: "int (length ps) = sint (in_life inp)" and at: "\<And>i. i < length ps \<Longrightarrow> pd_sequence (ps ! i) = i + 1"
    using assms by auto
  show "map pd_sequence ps = map Suc [0..<length ps]"
    by (rule nth_equalityI) (simp_all add: at)
  show "length ps \<le> 1200" using len ok by (simp add: terms_ok_def)
qed

lemma sequence_of_stored:
  assumes "fmlookup data ''sequence'' = Some (VNum (Fin (of_nat n)))" "n \<le> 1200"
  shows "sequence_of E data = int n"
proof -
  have "trunc (of_nat n) = int n" by (metis of_int_of_nat_eq trunc_int)
  then show ?thesis using assms
    by (simp add: sequence_of_def num_field_def go_int_def sint_word_of_nat64 fits64_def)
qed

lemma rnd64_not_NaN: "rnd64 q \<noteq> NaN"
  by (simp add: rnd64_def Let_def)

lemma major_not_NaN: "q \<noteq> 0 \<Longrightarrow> f_div_fin (of_i64 n) q \<noteq> NaN"
  using rnd64_not_NaN by (cases "of_i64 n") (auto simp: of_i64_def f_inf_def)

lemma f_eq_refl: "x \<noteq> NaN \<Longrightarrow> f_eq x x"
  by (cases x) auto

lemma stored_row_matches:
  assumes "stores (period_fields i u p) row"
  shows "row_matches (rr_data row) (period_fields i u p)" "field_is E row (''fixed_asset_id'', i)"
    "fmlookup (rr_data row) ''sequence'' = Some (VNum (Fin (of_nat (pd_sequence p))))"
    "live ''DepreciationSchedule'' row"
proof -
  have look: "fmlookup (rr_data row) k = fmlookup (period_fields i u p) k" if "k \<in> set period_keys" for k
    using assms that by (simp add: stores_def)
  note looks = look [of "''fixed_asset_id''"] look [of "''sequence''"] look [of "''period_end''"]
    look [of "''depreciation_amount''"] look [of "''book_value''"]
  show "row_matches (rr_data row) (period_fields i u p)"
    using looks by (simp add: row_matches_def str_field_def num_field_def period_keys_def f_eq_refl major_not_NaN)
  show "field_is E row (''fixed_asset_id'', i)"
    using looks by (simp add: field_is_def arrow_text_def period_keys_def get_field_def)
  show "fmlookup (rr_data row) ''sequence'' = Some (VNum (Fin (of_nat (pd_sequence p))))"
    using looks by (simp add: period_keys_def)
  show "live ''DepreciationSchedule'' row" using assms by (simp add: stores_def)
qed

lemma by_sequence_find:
  "by_sequence E rs k = List.find (\<lambda>r. sequence_of E (rec_data r) = k) (rev rs)"
proof -
  have "foldl (\<lambda>m r. m(sequence_of E (rec_data r) \<mapsto> r)) m rs k =
      (case List.find (\<lambda>r. sequence_of E (rec_data r) = k) (rev rs) of None \<Rightarrow> m k | Some r \<Rightarrow> Some r)" for m
    by (induction rs rule: rev_induct) auto
  then show ?thesis by (simp add: by_sequence_def split: option.split)
qed

lemma stored_schedule_matches:
  assumes rows: "list_all2 (\<lambda>p row. stores (period_fields i u p) row) ps new"
    and seqs: "map pd_sequence ps = map Suc [0..<length ps]" "length ps \<le> 1200"
    and ex: "set existing = to_record ` set new" "length existing = length new"
  shows "scheduleMatches E existing (scheduleFields i ps u)"
  unfolding scheduleMatches_def
proof (intro conjI)
  show "length existing = length (scheduleFields i ps u)"
    using rows ex(2) by (simp add: list_all2_lengthD scheduleFields_def)
  have n: "length new = length ps" using rows by (simp add: list_all2_lengthD)
  have pd: "pd_sequence (ps ! j) = Suc j" if "j < length ps" for j
    using arg_cong [OF seqs(1), of "\<lambda>xs. xs ! j"] that by simp
  have seq: "sequence_of E (rr_data (new ! j)) = int (Suc j)" if "j < length ps" for j
    using sequence_of_stored [OF stored_row_matches(3) [OF list_all2_nthD [OF rows that]]] pd [OF that] that seqs(2)
    by simp
  have "case by_sequence E existing (sequence_of E (period_fields i u (ps ! j))) of None \<Rightarrow> False
      | Some r \<Rightarrow> row_matches (rec_data r) (period_fields i u (ps ! j))" if j: "j < length ps" for j
  proof -
    have k: "sequence_of E (period_fields i u (ps ! j)) = int (Suc j)"
      using sequence_of_stored [OF period_fields_lookup(2)] pd [OF j] j seqs(2) by simp
    have "to_record (new ! j) \<in> set (rev existing)" using ex(1) j n by auto
    then obtain r where r: "List.find (\<lambda>r. sequence_of E (rec_data r) = int (Suc j)) (rev existing) = Some r"
      using seq [OF j] by (cases "List.find (\<lambda>r. sequence_of E (rec_data r) = int (Suc j)) (rev existing)")
        (force simp: find_None_iff to_record_def)+
    then have "r \<in> set existing" "sequence_of E (rec_data r) = int (Suc j)" by (auto dest: find_SomeD)
    then obtain m where m: "m < length ps" "r = to_record (new ! m)"
      using ex(1) n by (auto simp: in_set_conv_nth)
    then have "m = j" using seq [OF m(1)] \<open>sequence_of E (rec_data r) = int (Suc j)\<close> by (simp add: to_record_def)
    then show ?thesis using r m(2) k stored_row_matches(1) [OF list_all2_nthD [OF rows j]]
      by (simp add: by_sequence_find to_record_def)
  qed
  then show "list_all (\<lambda>d. case by_sequence E existing (sequence_of E d) of None \<Rightarrow> False
      | Some r \<Rightarrow> row_matches (rec_data r) d) (scheduleFields i ps u)"
    by (auto simp: scheduleFields_def list_all_iff in_set_conv_nth)
qed

lemma hook_no_change:
  assumes run: "GenerateDepreciationScheduleOnWrite E decode d r ActionUpdate actor w = (res, w')"
    and m: "\<And>desired wd existing we. buildDesiredSchedule E (rec_id r) (rec_data r) w = (Inr (desired, False), wd) \<Longrightarrow>
      ListByField E ''DepreciationSchedule'' ''fixed_asset_id'' (rec_id r) wd = (Inr existing, we) \<Longrightarrow>
      scheduleMatches E existing desired"
  shows "w_db w' = w_db w"
proof (cases "buildDesiredSchedule E (rec_id r) (rec_data r) w")
  case (Pair bres wd)
  have wd: "w_db wd = w_db w" using readsD [OF reads_schedule(2) Pair] .
  obtain lres we where l: "ListByField E ''DepreciationSchedule'' ''fixed_asset_id'' (rec_id r) wd = (lres, we)"
    by (cases "ListByField E ''DepreciationSchedule'' ''fixed_asset_id'' (rec_id r) wd") auto
  have we: "w_db we = w_db w" using readsD [OF reads_asset_rows l] wd by simp
  show ?thesis
  proof (cases bres)
    case (Inl e)
    then show ?thesis using run Pair wd by (auto simp: GenerateDepreciationScheduleOnWrite_def bindM_def)
  next
    case (Inr da)
    then obtain desired aborted where da: "bres = Inr (desired, aborted)" by (cases da) auto
    show ?thesis
    proof (cases aborted)
      case True
      then have "query (\<lambda>_. Inl ErrDB) wd = (res, w')"
        using run Pair da by (simp add: GenerateDepreciationScheduleOnWrite_def bindM_def)
      from query_db [OF this] wd show ?thesis by simp
    next
      case fine: False
      show ?thesis
      proof (cases lres)
        case (Inl e)
        then show ?thesis using run Pair da fine l we by (simp add: GenerateDepreciationScheduleOnWrite_def bindM_def)
      next
        case (Inr existing)
        then have "scheduleMatches E existing desired" using m Pair da fine l by simp
        then have "(if anyPosted existing \<and> allOverridden existing then fail (ErrHookRejected ''all_overridden'')
            else ret ()) we = (res, w')"
          using run Pair da fine l Inr by (simp add: GenerateDepreciationScheduleOnWrite_def bindM_def)
        then show ?thesis using we by (simp split: if_splits)
      qed
    qed
  qed
qed

lemma terms_ok_nonempty: "Build inp = Inr ps \<Longrightarrow> ps \<noteq> []"
proof
  assume run: "Build inp = Inr ps" "ps = []"
  then have ok: "terms_ok inp" using Build_accepts by blast
  then obtain start where "ParseDate (in_date inp) = Some start" by (auto simp: terms_ok_def)
  from Build_rows [OF ok this] obtain qs where "Build inp = Inr qs" "int (length qs) = sint (in_life inp)" by blast
  then show False using run ok by (simp add: terms_ok_def)
qed

text \<open>
  Creating a fixed asset stores exactly the schedule that \<open>Build\<close> computes from its terms, one row a
  period; and saving it again with the same fields, before anything is posted or corrected,
  changes no row at all.
\<close>

theorem created_schedule_is_kept:
  assumes create: "GenerateDepreciationScheduleOnWrite E decode d r ActionCreate actor w = (Inr (), w1)"
    and fresh: "\<not> (\<exists>p \<in> set (db_records (w_db w)). asset_row E (rec_id r) p)"
    and same: "w_db w2 = w_db w1" "rec_id r2 = rec_id r" "rec_data r2 = rec_data r"
    and save: "GenerateDepreciationScheduleOnWrite E decode d2 r2 ActionUpdate actor2 w2 = (res, w3)"
  shows "w_db w3 = w_db w2 \<and>
    (\<exists>u cost salvage ps new. Build (schedule_input E (rec_data r) cost salvage) = Inr ps \<and>
      MinorUnits (e_cv E) (num_field (rec_data r) ''cost'') u = Inr cost \<and>
      MinorUnits (e_cv E) (num_field (rec_data r) ''salvage_value'') u = Inr salvage \<and>
      db_records (w_db w1) = db_records (w_db w) @ new \<and>
      list_all2 (\<lambda>p row. stores (period_fields (rec_id r) u p) row) ps new)"
proof -
  let ?i = "rec_id r" and ?data = "rec_data r"
  obtain desired wa existing wb where b: "buildDesiredSchedule E ?i ?data w = (Inr (desired, False), wa)"
    and ex: "set existing = to_record ` {p \<in> set (db_records (w_db w)). asset_row E ?i p}" and wb: "w_db wb = w_db w"
    and rest: "(if existing \<noteq> [] then ret () else insertSchedule E decode desired actor) wb = (Inr (), w1)"
    by (rule generate_run [OF create], rule that, assumption+) simp
  have "set existing = {}" unfolding ex using fresh by blast
  then have none: "existing = []" by simp
  obtain u cost salvage ps where u: "u = (if str_field ?data ''currency_id'' = [] then defaultCurrencyMinorUnit
      else scale_of E (w_db w) ?data)"
    and ps: "MinorUnits (e_cv E) (num_field ?data ''cost'') u = Inr cost"
      "MinorUnits (e_cv E) (num_field ?data ''salvage_value'') u = Inr salvage"
      "Build (schedule_input E ?data cost salvage) = Inr ps" and des: "desired = scheduleFields ?i ps u"
    by (rule buildDesired_run [OF b])
  have "ps \<noteq> []" using terms_ok_nonempty ps(3) by blast
  then have "bindM (getPublished EntityDefinitions ''DepreciationSchedule'') (\<lambda>pd.
        case decode (dv_definition pd) of
          None \<Rightarrow> fail ErrPlain
        | Some def \<Rightarrow> forEach (map (period_fields ?i u) ps) (insert_period E def actor)) wb = (Inr (), w1)"
    using rest none by (simp add: insertSchedule_def scheduleFields_def des)
  then obtain pd wc where pd: "getPublished EntityDefinitions ''DepreciationSchedule'' wb = (Inr pd, wc)"
    and c: "(case decode (dv_definition pd) of
          None \<Rightarrow> fail ErrPlain
        | Some def \<Rightarrow> forEach (map (period_fields ?i u) ps) (insert_period E def actor)) wc = (Inr (), w1)"
    unfolding bindM_Inr_iff by blast
  from c obtain def where ins: "forEach (map (period_fields ?i u) ps) (insert_period E def actor) wc = (Inr (), w1)"
    by (cases "decode (dv_definition pd)") simp_all
  have wc: "w_db wc = w_db w" using readsD [OF reads_definitions(1) pd] wb by simp
  obtain new where new: "db_records (w_db w1) = db_records (w_db w) @ new"
    "list_all2 (\<lambda>p row. stores (period_fields ?i u p) row) ps new"
    using insert_periods_rows [OF ins] wc by auto
  have "w_db w3 = w_db w2"
  proof (rule hook_no_change [OF save])
    fix desired2 wd existing2 we
    assume "buildDesiredSchedule E (rec_id r2) (rec_data r2) w2 = (Inr (desired2, False), wd)"
      and l: "ListByField E ''DepreciationSchedule'' ''fixed_asset_id'' (rec_id r2) wd = (Inr existing2, we)"
    then have b2: "buildDesiredSchedule E ?i ?data w2 = (Inr (desired2, False), wd)" using same by simp
    have st: "\<exists>p. stores (period_fields ?i u p) row" if "row \<in> set new" for row
      using new(2) that by (auto simp: list_all2_conv_all_nth in_set_conv_nth)
    then have cur: "\<forall>row \<in> set new. rr_type row \<noteq> ''Currency''"
      by (auto simp: stores_def live_def)
    have u2: "u = (if str_field ?data ''currency_id'' = [] then defaultCurrencyMinorUnit
        else scale_of E (w_db w2) ?data)"
      using u scale_of_append [OF cur, of "w_db w2" "w_db w"] new(1) same(1) by simp
    have des2: "desired2 = scheduleFields ?i ps u"
      by (rule buildDesired_run [OF b2]) (use u2 ps in auto)
    have rows: "filter (\<lambda>p. live ''DepreciationSchedule'' p \<and> field_is E p (''fixed_asset_id'', ?i)) (db_records (w_db w)) = []"
      using fresh by (auto simp: filter_empty_conv asset_row_def)
    have "filter (\<lambda>p. live ''DepreciationSchedule'' p \<and> field_is E p (''fixed_asset_id'', ?i)) new = new"
      unfolding filter_id_conv using st stored_row_matches(2,4) by blast
    then have "existing2 = map to_record (by_age new)"
      using l readsD [OF reads_schedule(2) b2] rows new(1) same by (auto simp: ListByField_def query_Inr_iff)
    then have "set existing2 = to_record ` set new" "length existing2 = length new" by (simp_all add: by_age_def)
    then show "scheduleMatches E existing2 desired2"
      unfolding des2 using stored_schedule_matches [OF new(2) Build_sequences [OF ps(3)]] by blast
  qed
  then show ?thesis using ps new by blast
qed

section \<open>A concrete asset\<close>

definition asset_doc :: fields where
  "asset_doc = fmap_of_list
     [(''depreciation_method'', VStr ''straight_line''), (''acquisition_date'', VStr ''2026-01-31''),
      (''cost'', VNum (Fin 10)), (''useful_life_months'', VNum (Fin 1))]"

definition asset_rec :: Record where
  "asset_rec = \<lparr>rec_id = ''fa'', rec_type = ''FixedAsset'', rec_data = asset_doc, rec_version = 1\<rparr>"

definition schedule_decode :: "gval \<Rightarrow> Definition option" where
  "schedule_decode v = Some (mk_definition ''DepreciationSchedule'' [])"

definition schedule_published :: defrow where
  "schedule_published =
     \<lparr>df_id = ''d'', df_registry = EntityDefinitions, df_key = ''DepreciationSchedule'', df_version = 1,
      df_status = StatusPublished, df_definition = VMap fmempty, df_author_type = ActorHuman, df_author = ''u1'',
      df_approved_by = Some ''u1''\<rparr>"

definition asset_row_fa :: rrow where
  "asset_row_fa = \<lparr>rr_id = ''fa'', rr_type = ''FixedAsset'', rr_data = asset_doc, rr_version = 1, rr_created = 1,
     rr_deleted = False\<rparr>"

definition asset_db :: db where
  "asset_db = empty_db\<lparr>db_records := [asset_row_fa], db_defs := [schedule_published]\<rparr>"

lemma asset_doc_sel [simp]:
  "str_field asset_doc ''currency_id'' = []" "str_field asset_doc ''depreciation_method'' = ''straight_line''"
  "str_field asset_doc ''acquisition_date'' = ''2026-01-31''" "num_field asset_doc ''cost'' = Fin 10"
  "num_field asset_doc ''salvage_value'' = Fin 0" "num_field asset_doc ''useful_life_months'' = Fin 1"
  by (simp_all add: asset_doc_def str_field_def num_field_def fmlookup_of_list)

definition january :: Period where
  "january = \<lparr>pd_sequence = 1, pd_end = ''2026-01-31'', pd_charge = 1000, pd_book = 0\<rparr>"

lemma asset_desired: "buildDesiredSchedule E ''fa'' asset_doc w = (Inr ([period_fields ''fa'' 2 january], False), w)"
proof -
  have scale: "schedule_scale E asset_doc w = (Inr (2, False), w)"
    by (simp add: schedule_scale_def defaultCurrencyMinorUnit_def ret_def)
  have r: "rnd64 1000 = Fin 1000" using rnd64_of_int [of 1000] by simp
  have cost: "MinorUnits cv (Fin 10) 2 = Inr 1000" for cv
    using round_away_int [of 1000] by (simp add: MinorUnits_def FromMajorUnits_cases r)
  have salvage: "MinorUnits cv (Fin 0) 2 = Inr 0" for cv
    using round_away_int [of 0] by (simp add: MinorUnits_def FromMajorUnits_cases rnd64_def)
  have life: "go_int E (f_round (Fin 1)) = 1"
    using round_away_int [of 1] trunc_int [of 1] by (simp add: go_int_def fits64_def)
  have date: "ParseDate ''2026-01-31'' = Some \<lparr>d_year = 2026, d_month = 1, d_day = 31\<rparr>"
    using van_date by (simp add: van_def)
  have eom: "endOfMonth \<lparr>d_year = 2026, d_month = 1, d_day = 31\<rparr> 0 = ''2026-01-31''"
    by (simp add: endOfMonth_month_end FormatDate_def month_end_def zeros_to_def days_in_def digits_eval Let_def
        digit_char_eval(2) [unfolded One_nat_def] flip: numeral_2_eq_2)
  have inp: "schedule_input E asset_doc 1000 0 = \<lparr>in_method = ''straight_line'', in_date = ''2026-01-31'',
      in_cost = 1000, in_salvage = 0, in_life = 1\<rparr>"
    by (simp add: schedule_input_def life del: f_round.simps)
  have "Build (schedule_input E asset_doc 1000 0) = Inr [january]"
    unfolding inp by (simp add: Build_def date MethodStraightLine_def MaxUsefulLifeMonths_def Let_def
        january_def eom [unfolded One_nat_def] word_sless_alt word_sle_eq signed_modulo_int_def del: ParseDate.simps)
  then show ?thesis
    by (simp add: buildDesiredSchedule_def bindM_def scale cost salvage scheduleFields_def ret_def)
qed

lemma january_inserted:
  assumes id: "e_uuid E id_a = Some id_a" and w: "w_faults w = []" "w_newid w = (\<lambda>_. id_a)"
    and D: "db_defs (w_db w) = [schedule_published]"
      "\<forall>r \<in> set (db_records (w_db w)). rr_type r = ''FixedAsset'' \<and> rr_id r \<noteq> id_a"
    and r: "rec_id r = ''fa''" "rec_data r = asset_doc"
  shows "\<exists>w1 q. GenerateDepreciationScheduleOnWrite E schedule_decode d r act sample_actor w = (Inr (), w1) \<and>
    w_faults w1 = [] \<and> db_records (w_db w1) = db_records (w_db w) @ [q]"
proof -
  let ?f = "period_fields ''fa'' 2 january"
  have sent: "sent w = w" using w(1) by (simp add: sent_def)
  have no_rows: "filter (\<lambda>r. live ''DepreciationSchedule'' r \<and> P r) (db_records (w_db w)) = []" for P
    using D(2) by (auto simp: filter_empty_conv live_def)
  have none: "ListByField E ''DepreciationSchedule'' ''fixed_asset_id'' ''fa'' w = (Inr [], w)"
    by (simp add: ListByField_def no_rows by_age_def query_Inr_iff faulty_def w(1) sent)
  have pub: "getPublished EntityDefinitions ''DepreciationSchedule'' w = (Inr (version_of schedule_published), w)"
    by (simp add: getPublished_def getOne_def published_def D(1) schedule_published_def query_Inr_iff faulty_def w(1) sent)
  have def: "the (ApplyDefaults (mk_definition ''DepreciationSchedule'' []) (Some ?f)) = ?f"
    by (simp add: ApplyDefaults_def mk_definition_def)
  have valid: "ValidateRecord cv (mk_definition ''DepreciationSchedule'' []) ?f = None" for cv
    by (simp add: ValidateRecord_def mk_definition_def validateNotBefore_def field_map_def Let_def)
  have ok: "json_ok_fields ?f"
  proof -
    have "of_i64 1000 = Fin 1000" using of_i64_small [of 1000] by simp
    moreover have "rnd64 10 = Fin 10" using rnd64_of_int [of 10] by simp
    moreover have "of_i64 0 = Fin 0" using of_i64_small [of 0] by simp
    ultimately show ?thesis
      by (auto simp: json_ok_fields_iff period_fields_def fmlookup_of_list january_def rnd64_def split: if_splits)
  qed
  have fresh: "id_a \<notin> rr_id ` set (db_records (w_db w))" using D(2) by auto
  have ins: "\<exists>w1 q. insert_period E (mk_definition ''DepreciationSchedule'' []) sample_actor ?f w = (Inr (), w1) \<and>
      w_faults w1 = [] \<and> db_records (w_db w1) = db_records (w_db w) @ [q]"
    using fresh by (simp add: insert_period_def def valid Let_def CreateTx_def ok write_audit_def audit_New_def Actor_Validate_def
        audit_Insert_def audit_row_def nullable_def InputHash_def sample_actor_def id stmt_eval w)
  moreover have "\<not> scheduleMatches E [] [?f]" "\<not> anyPosted []" by (simp_all add: scheduleMatches_def anyPosted_def)
  ultimately show ?thesis
    by (auto simp: GenerateDepreciationScheduleOnWrite_def r bindM_def asset_desired none pub
        insertSchedule_def schedule_decode_def thenM_def ret_def)
qed

lemma asset_created:
  "\<exists>w1. GenerateDepreciationScheduleOnWrite plain_env schedule_decode d asset_rec ActionCreate sample_actor
     (sample_world asset_db) = (Inr (), w1)"
  using january_inserted [of plain_env "sample_world asset_db" asset_rec d ActionCreate]
  by (auto simp: sample_world_def asset_db_def empty_db_def asset_row_fa_def asset_rec_def id_a_def plain_env_def)

theorem created_schedule_is_kept_witness:
  "\<exists>w1 u ps new. GenerateDepreciationScheduleOnWrite plain_env schedule_decode account_def asset_rec ActionCreate
       sample_actor (sample_world asset_db) = (Inr (), w1) \<and>
     db_records (w_db w1) = [asset_row_fa] @ new \<and>
     list_all2 (\<lambda>p row. stores (period_fields ''fa'' u p) row) ps new \<and>
     w_db (snd (GenerateDepreciationScheduleOnWrite plain_env schedule_decode account_def asset_rec ActionUpdate
       sample_actor w1)) = w_db w1"
proof -
  obtain w1 where w1: "GenerateDepreciationScheduleOnWrite plain_env schedule_decode account_def asset_rec ActionCreate
       sample_actor (sample_world asset_db) = (Inr (), w1)" using asset_created by blast
  have fresh: "\<not> (\<exists>p \<in> set (db_records (w_db (sample_world asset_db))). asset_row plain_env (rec_id asset_rec) p)"
    by (simp add: asset_db_def asset_row_fa_def asset_row_def live_def sample_world_def)
  note 1 = created_schedule_is_kept [OF w1 fresh refl refl refl prod.collapse [symmetric], of account_def sample_actor]
  then have "w_db (snd (GenerateDepreciationScheduleOnWrite plain_env schedule_decode account_def asset_rec ActionUpdate
       sample_actor w1)) = w_db w1" by blast
  moreover from 1 obtain u ps new where "db_records (w_db w1) = db_records (w_db (sample_world asset_db)) @ new"
    "list_all2 (\<lambda>p row. stores (period_fields (rec_id asset_rec) u p) row) ps new" by blast
  moreover have "db_records (w_db (sample_world asset_db)) = [asset_row_fa]" "rec_id asset_rec = ''fa''"
    by (simp_all add: sample_world_def asset_db_def asset_rec_def)
  ultimately show ?thesis using w1 by metis
qed

definition posted_january :: rrow where
  "posted_january = \<lparr>rr_id = ''s1'', rr_type = ''DepreciationSchedule'',
     rr_data = fmap_of_list [(''fixed_asset_id'', VStr ''fa''), (''posted_at'', VStr ''2026-01-31'')],
     rr_version = 2, rr_created = 2, rr_deleted = False\<rparr>"

theorem posted_periods_survive_saves_witness:
  "posted_january \<in> set (db_records (w_db (snd (Update plain_env
      (SetHook Map.empty ''FixedAsset'' (GenerateDepreciationScheduleOnWrite plain_env schedule_decode))
      (mk_definition ''FixedAsset'' []) ''fa'' asset_doc None sample_actor
      (sample_world (asset_db\<lparr>db_records := [asset_row_fa, posted_january]\<rparr>))))))"
proof -
  let ?D = "asset_db\<lparr>db_records := [asset_row_fa, posted_january]\<rparr>"
  have w: "w_db (sample_world ?D) = ?D" by (simp add: sample_world_def)
  have wf: "tables_wf (w_db (sample_world ?D))" "ids_canonical plain_env (w_db (sample_world ?D))"
    unfolding w by (simp_all add: tables_wf_parts asset_db_def asset_row_fa_def posted_january_def max_int4_def
        empty_db_def ids_canonical_def)
  have "posted_row posted_january"
    by (simp add: posted_row_def posted_january_def str_field_def fmlookup_of_list)
  moreover have "posted_january \<in> set (other_rows (w_db (sample_world ?D)))"
    unfolding w by (simp add: other_rows_def posted_january_def)
  ultimately show ?thesis
    using posted_periods_survive_saves [OF _ _ wf prod.collapse [symmetric], of
        "SetHook Map.empty ''FixedAsset'' (GenerateDepreciationScheduleOnWrite plain_env schedule_decode)" schedule_decode
        "mk_definition ''FixedAsset'' []" "''fa''" asset_doc None sample_actor]
    by (simp add: SetHook_def mk_definition_def)
qed

section \<open>A currency that cannot be looked up\<close>

text \<open>
  C29. The code means to fall back to two decimal places when the currency of an asset cannot be
  resolved, and does so when no such currency exists. But a \<open>currency_id\<close> that is not a uuid, which
  validation accepts, makes Postgres refuse the lookup and aborts the transaction: no fixed asset
  with such a field can be created or updated while the hook is registered, and the attempt changes
  nothing.
\<close>

theorem malformed_currency_blocks_saves:
  assumes hook: "hooks ''FixedAsset'' = Some (GenerateDepreciationScheduleOnWrite E decode)"
    and d: "d_entity_type d = ''FixedAsset''"
    and bad: "e_uuid E (str_field flds ''currency_id'') = None" "str_field flds ''currency_id'' \<noteq> []"
  shows "(\<exists>e w'. Update E hooks d rid flds ev actor w = (Inl e, w') \<and> w_db w' = w_db w) \<and>
    (\<exists>e w'. Create E hooks d (Some flds) actor w = (Inl e, w') \<and> w_db w' = w_db w)"
proof -
  have no: "\<not> (\<exists>u w2. GenerateDepreciationScheduleOnWrite E decode d r act actor w1 = (Inr u, w2))"
    if same: "str_field (rec_data r) ''currency_id'' = str_field flds ''currency_id''" for r act w1
  proof
    assume "\<exists>u w2. GenerateDepreciationScheduleOnWrite E decode d r act actor w1 = (Inr u, w2)"
    then obtain u w2 where run: "GenerateDepreciationScheduleOnWrite E decode d r act actor w1 = (Inr u, w2)" by blast
    obtain desired wa where b: "buildDesiredSchedule E (rec_id r) (rec_data r) w1 = (Inr (desired, False), wa)"
      by (rule generate_run [OF run], rule that)
    obtain scale wb where "schedule_scale E (rec_data r) w1 = (Inr (scale, False), wb)"
      using buildDesired_parts [OF b] by metis
    then show False using bad same
      by (auto simp: schedule_scale_def catchM_def bindM_def currencyMinorUnitTx_def GetTx_def get_where_def query_def
          stmt_def rbind_def uuid_arg_def ret_def split: if_splits)
  qed
  have "False" if run: "Update E hooks d rid flds ev actor w = (Inr v, w')" for v w'
  proof -
    obtain w6 w7 v0 where "runHook hooks d \<lparr>rec_id = rid, rec_type = d_entity_type d, rec_data = flds, rec_version = v0\<rparr>
       ActionUpdate actor w6 = (Inr (), w7)"
      by (rule Update_success [OF run], rule that, assumption+)
    then show False using no by (simp add: runHook_def d hook)
  qed
  moreover have "False" if run: "Create E hooks d (Some flds) actor w = (Inr r, w')" for r w'
  proof -
    obtain w2 w3 w5 x where c: "CreateTx (d_entity_type d) (create_fields d (Some flds)) w2 = (Inr r, w3)"
      and h: "runHook hooks d r ActionCreate actor w5 = (Inr (), x)"
      by (rule Create_success [OF run], rule that, assumption+)
    have "rec_data r = create_fields d (Some flds)" by (rule CreateTx_success [OF c]) (metis Record.select_convs(3))
    moreover have "get_field flds ''currency_id'' \<noteq> VNil"
      using bad(2) by (auto simp: str_field_def get_field_def split: option.splits gval.splits)
    ultimately have "str_field (rec_data r) ''currency_id'' = str_field flds ''currency_id''"
      using defaults_keep by (simp add: create_fields_def str_field_def)
    then show False using no h by (simp add: runHook_def d hook)
  qed
  ultimately show ?thesis
    using Update_error [of E hooks d rid flds ev actor w] Create_error [of E hooks d "Some flds" actor w]
    by (metis old.prod.exhaust sum.exhaust)
qed

text \<open>Writes of a type with a definition without fields: the hook is all there is beside the record.\<close>

lemma plain_definition [simp]:
  "d_entity_type (mk_definition et []) = et" "selfReferenceFields (mk_definition et []) = []" "d_fields (mk_definition et []) = []"
  "d_unique (mk_definition et []) = []" "d_unique_when (mk_definition et []) = []"
  "ValidateRecord cv (mk_definition et []) f = None" "create_fields (mk_definition et []) (Some f) = f"
  by (simp_all add: selfReferenceFields_def mk_definition_def ValidateRecord_def validateNotBefore_def field_map_def Let_def
      create_fields_def ApplyDefaults_def)

lemma transaction_of: "body w = (Inr x, w') \<Longrightarrow> w_faults w = [] \<Longrightarrow> w_faults w' = [] \<Longrightarrow> in_tx body w = (Inr x, w')"
proof -
  have "query (\<lambda>_. Inr ()) v = (Inr (), v)" if "w_faults v = []" for v
    using that by (simp add: stmt_eval)
  then show "body w = (Inr x, w') \<Longrightarrow> w_faults w = [] \<Longrightarrow> w_faults w' = [] \<Longrightarrow> in_tx body w = (Inr x, w')"
    by (simp add: in_tx_def)
qed

lemma plain_update_run:
  assumes "w_faults w = []" "UpdateTx E et rid f ev w = (Inr v, w1)"
    and "write_audit E et rid ActionUpdate actor (Some f) w1 = (Inr (), w2)"
    and "runHook hooks (mk_definition et []) \<lparr>rec_id = rid, rec_type = et, rec_data = f, rec_version = v\<rparr> ActionUpdate actor w2 =
      (Inr (), w3)"
    and "final_version E hooks (mk_definition et []) rid v w3 = (Inr n, w4)" "w_faults w4 = []"
  shows "Update E hooks (mk_definition et []) rid f ev actor w = (Inr n, w4)"
proof -
  have "update_body E hooks (mk_definition et []) rid f ev actor w = (Inr n, w4)"
    using assms by (simp add: update_body_def check_self_references_def checkReferenceTargetConstraints_def
        UpdateUniqueConstraintKeys_def thenM_def bindM_def ret_def)
  then have "in_tx (update_body E hooks (mk_definition et []) rid f ev actor) w = (Inr n, w4)"
    by (rule transaction_of) (rule assms)+
  then show ?thesis
    by (simp add: Update_def validation_def thenM_def guardM_def ret_def)
qed

lemma plain_create_run:
  assumes "w_faults w = []" "CreateTx et f w = (Inr r, w1)"
    and "write_audit E et (rec_id r) ActionCreate actor (Some f) w1 = (Inr (), w2)"
    and "runHook hooks (mk_definition et []) r ActionCreate actor w2 = (Inr (), w3)" "w_faults w3 = []"
  shows "Create E hooks (mk_definition et []) (Some f) actor w = (Inr r, w3)"
proof -
  have "create_body E hooks (mk_definition et []) f actor w = (Inr r, w3)"
    using assms by (simp add: create_body_def checkReferenceTargetConstraints_def WriteUniqueConstraintKeys_def thenM_def
        bindM_def ret_def)
  then have "in_tx (create_body E hooks (mk_definition et []) f actor) w = (Inr r, w3)"
    by (rule transaction_of) (rule assms)+
  then show ?thesis
    by (simp add: Create_def validation_def thenM_def guardM_def ret_def Let_def)
qed

text \<open>
  An environment in which every text but \<open>EUR\<close> is a uuid. The asset is saved without a currency, and
  refused with that one.
\<close>

definition eur_env :: env where
  "eur_env = plain_env\<lparr>e_uuid := (\<lambda>s. if s = ''EUR'' then None else Some s)\<rparr>"

lemma asset_saved:
  "\<exists>v w'. Update eur_env (SetHook Map.empty ''FixedAsset'' (GenerateDepreciationScheduleOnWrite eur_env schedule_decode))
     (mk_definition ''FixedAsset'' []) ''fa'' asset_doc None sample_actor (sample_world asset_db) = (Inr v, w')"
proof -
  let ?h = "GenerateDepreciationScheduleOnWrite eur_env schedule_decode"
  let ?d = "mk_definition ''FixedAsset'' []"
  let ?row = "asset_row_fa\<lparr>rr_data := json_norm_fields asset_doc, rr_version := 2\<rparr>"
  let ?D = "asset_db\<lparr>db_records := [?row],
    db_audit := [audit_of eur_env ''FixedAsset'' ''fa'' ActionUpdate sample_actor (Some asset_doc)]\<rparr>"
  have json: "json_ok_fields asset_doc"
    unfolding json_ok_fields_iff asset_doc_def fmlookup_of_list by (auto split: if_splits)
  have id: "e_uuid eur_env s = Some s" if "s \<noteq> ''EUR''" for s using that by (simp add: eur_env_def)
  have upd: "UpdateTx eur_env ''FixedAsset'' ''fa'' asset_doc None (sample_world asset_db) =
      (Inr 2, sample_world (asset_db\<lparr>db_records := [?row]\<rparr>))"
    by (simp add: UpdateTx_def json id int4_arg_def update_hits_def live_def upd_where_def update_row_def max_int4_def
        sample_world_def asset_db_def asset_row_fa_def stmt_eval empty_db_def)
  have aud: "write_audit eur_env ''FixedAsset'' ''fa'' ActionUpdate sample_actor (Some asset_doc)
      (sample_world (asset_db\<lparr>db_records := [?row]\<rparr>)) = (Inr (), sample_world ?D)"
    by (simp add: write_audit_def audit_New_def Actor_Validate_def audit_Insert_def audit_row_def nullable_def InputHash_def
        sample_actor_def json id sample_world_def asset_db_def stmt_eval empty_db_def audit_of_def)
  obtain w1 q where run: "?h ?d \<lparr>rec_id = ''fa'', rec_type = ''FixedAsset'', rec_data = asset_doc, rec_version = 2\<rparr>
      ActionUpdate sample_actor (sample_world ?D) = (Inr (), w1)" and w1: "w_faults w1 = []" "db_records (w_db w1) = [?row, q]"
    using january_inserted [of eur_env "sample_world ?D"
        "\<lparr>rec_id = ''fa'', rec_type = ''FixedAsset'', rec_data = asset_doc, rec_version = 2\<rparr>" ?d ActionUpdate]
    by (auto simp: id id_a_def sample_world_def asset_db_def asset_row_fa_def)
  have get: "\<exists>r w2. GetTx eur_env ''FixedAsset'' ''fa'' w1 = (Inr r, w2) \<and> w_faults w2 = []"
    using w1 by (auto simp: GetTx_def get_where_def id live_def asset_row_fa_def query_def stmt_def faulty_def sent_def
        uuid_arg_def rbind_def)
  let ?H = "SetHook Map.empty ''FixedAsset'' ?h"
  have H: "?H ''FixedAsset'' = Some ?h" by (simp add: SetHook_def)
  obtain r w2 where g: "GetTx eur_env ''FixedAsset'' ''fa'' w1 = (Inr r, w2)" "w_faults w2 = []" using get by blast
  have faults: "w_faults (sample_world D) = []" for D by (simp add: sample_world_def)
  have hook: "runHook ?H ?d \<lparr>rec_id = ''fa'', rec_type = ''FixedAsset'', rec_data = asset_doc, rec_version = 2\<rparr>
      ActionUpdate sample_actor (sample_world ?D) = (Inr (), w1)"
    using H run by (simp add: runHook_def)
  have last: "final_version eur_env ?H ?d ''fa'' 2 w1 = (Inr (rec_version r), w2)"
    using H g by (simp add: final_version_def bindM_def ret_def)
  show ?thesis using plain_update_run [OF faults upd aud hook last g(2)] by blast
qed

theorem malformed_currency_blocks_saves_witness:
  "let update = (\<lambda>doc. fst (Update eur_env
        (SetHook Map.empty ''FixedAsset'' (GenerateDepreciationScheduleOnWrite eur_env schedule_decode))
        (mk_definition ''FixedAsset'' []) ''fa'' doc None sample_actor (sample_world asset_db)))
   in (\<exists>v. update asset_doc = Inr v) \<and> (\<exists>e. update (fmupd ''currency_id'' (VStr ''EUR'') asset_doc) = Inl e)"
proof -
  let ?h = "SetHook Map.empty ''FixedAsset'' (GenerateDepreciationScheduleOnWrite eur_env schedule_decode)"
  have c: "str_field (fmupd ''currency_id'' (VStr ''EUR'') asset_doc) ''currency_id'' = ''EUR''"
    by (simp add: str_field_def)
  have "e_uuid eur_env ''EUR'' = None" by (simp add: eur_env_def)
  then have "\<exists>e. fst (Update eur_env ?h (mk_definition ''FixedAsset'' []) ''fa''
      (fmupd ''currency_id'' (VStr ''EUR'') asset_doc) None sample_actor (sample_world asset_db)) = Inl e"
    using malformed_currency_blocks_saves [of ?h eur_env schedule_decode "mk_definition ''FixedAsset'' []"
        "fmupd ''currency_id'' (VStr ''EUR'') asset_doc" "''fa''" None sample_actor "sample_world asset_db"] c
    by (auto simp: SetHook_def mk_definition_def)
  then show ?thesis using asset_saved by (auto simp: Let_def)
qed

end
