(* ===== verification/BackfillProps.thy ===== *)
theory BackfillProps
  imports Backfill CrudUnique ScheduleProps
begin

text \<open>
  What the walks over existing records give: they end, the counts are exact, and a backfill hands
  every value of a newly declared unique set to one of the records that have it.
\<close>

section \<open>Walking the pages\<close>

definition walk_rows :: "string \<Rightarrow> db \<Rightarrow> rrow list" where
  "walk_rows et D = by_age (filter (live et) (db_records D))"

lemma set_walk_rows: "set (walk_rows et D) = {r \<in> set (db_records D). live et r}"
  by (simp add: walk_rows_def by_age_def)

lemma distinct_walk_rows: "records_wf D \<Longrightarrow> distinct (map rr_id (walk_rows et D))"
proof -
  assume "records_wf D"
  then have "distinct (map rr_id (filter (live et) (db_records D)))"
    by (simp add: records_wf_def distinct_map_filter)
  moreover have "mset (map rr_id (walk_rows et D)) = mset (map rr_id (filter (live et) (db_records D)))"
    by (simp add: walk_rows_def by_age_def)
  ultimately show ?thesis using mset_eq_imp_distinct_iff by blast
qed

lemma ListPage_run:
  "ListPage et (int n) (int off) w = (Inr page, w1) \<longleftrightarrow>
     \<not> faulty w \<and> page = map to_record (take n (drop off (walk_rows et (w_db w)))) \<and> w1 = sent w"
  by (auto simp: ListPage_def query_Inr_iff walk_rows_def)

lemma ListPage_db: "ListPage et n off w = (out, w1) \<Longrightarrow> w_db w1 = w_db w"
  by (rule readsD [of "ListPage et n off"]) (intro reads_intro)

text \<open>A body that keeps \<open>I\<close> on the rows of the walk, whether it fails or not.\<close>

definition unharmed :: "rrow list \<Rightarrow> (db \<Rightarrow> bool) \<Rightarrow> (Record \<Rightarrow> 's \<Rightarrow> 's dbm) \<Rightarrow> bool" where
  "unharmed R I body \<longleftrightarrow>
     (\<forall>r \<in> set R. \<forall>s w out w'. I (w_db w) \<longrightarrow> body (to_record r) s w = (out, w') \<longrightarrow> I (w_db w'))"

lemma page_loop_unharmed:
  "unharmed R I body \<Longrightarrow> set rs \<subseteq> set R \<Longrightarrow> I (w_db w) \<Longrightarrow> page_loop body (map to_record rs) s w = (out, w') \<Longrightarrow>
     I (w_db w')"
proof (induction rs arbitrary: s w)
  case (Cons r rs)
  obtain o1 w1 where b: "body (to_record r) s w = (o1, w1)" by force
  have "I (w_db w1)" using Cons.prems b by (auto simp: unharmed_def)
  then show ?case using Cons b by (auto split: sum.splits)
qed simp

lemma walk_total:
  assumes I: "\<And>D. I D \<Longrightarrow> walk_rows et D = R" and body: "unharmed R I body"
  shows "I (w_db w) \<Longrightarrow> \<exists>out w'. walk_pages body et off s w = Some (out, w') \<and> I (w_db w')"
proof (induction "length R - off" arbitrary: off s w rule: less_induct)
  case less
  obtain p w1 where l: "ListPage et (int pageSize) (int off) w = (p, w1)" by force
  then have w1: "I (w_db w1)" using ListPage_db [OF l] less.prems by simp
  show ?case
  proof (cases p)
    case (Inl e)
    then show ?thesis using l w1 by (subst walk_pages.simps) simp
  next
    case (Inr page)
    then have page: "page = map to_record (take pageSize (drop off R))"
      using l I [OF less.prems] by (simp add: ListPage_run)
    obtain s1 e w2 where b: "page_loop body page s w1 = ((s1, e), w2)" by (metis prod.exhaust)
    have w2: "I (w_db w2)"
      using page_loop_unharmed [OF body _ w1 b [unfolded page]] by (meson in_set_dropD in_set_takeD subsetI)
    have next_page: "\<exists>out w'. walk_pages body et (off + pageSize) s1 w2 = Some (out, w') \<and> I (w_db w')"
      if "page \<noteq> []" "\<not> length page < pageSize"
      using that w2 by (intro less.hyps) (auto simp: page pageSize_def)
    show ?thesis
      using l w1 w2 b next_page Inr by (subst walk_pages.simps) (auto split: option.splits)
  qed
qed

lemma page_loop_rule:
  assumes step: "\<And>vs r ss s w s' w'. R = vs @ r # ss \<Longrightarrow> I (w_db w) \<Longrightarrow> P vs s (w_db w) \<Longrightarrow>
      body (to_record r) s w = (Inr s', w') \<Longrightarrow> P (vs @ [r]) s' (w_db w')"
    and body: "unharmed R I body"
  shows "R = vs @ rs @ ss \<Longrightarrow> I (w_db w) \<Longrightarrow> P vs s (w_db w) \<Longrightarrow>
    page_loop body (map to_record rs) s w = ((s', None), w') \<Longrightarrow> P (vs @ rs) s' (w_db w')"
proof (induction rs arbitrary: vs s w)
  case (Cons r rs)
  then obtain s1 w1 where b: "body (to_record r) s w = (Inr s1, w1)"
    and rest: "page_loop body (map to_record rs) s1 w1 = ((s', None), w')"
    by (auto split: prod.splits sum.splits)
  have "r \<in> set R" using Cons.prems(1) by simp
  then have "I (w_db w1)" using body Cons.prems(2) b unfolding unharmed_def by blast
  moreover have "P (vs @ [r]) s1 (w_db w1)" using step [OF _ Cons.prems(2,3) b] Cons.prems(1) by simp
  ultimately show ?case using Cons.IH [of "vs @ [r]" w1 s1] Cons.prems(1) rest by simp
qed simp

lemma walk_rule:
  assumes step: "\<And>vs r ss s w s' w'. R = vs @ r # ss \<Longrightarrow> I (w_db w) \<Longrightarrow> P vs s (w_db w) \<Longrightarrow>
      body (to_record r) s w = (Inr s', w') \<Longrightarrow> P (vs @ [r]) s' (w_db w')"
    and I: "\<And>D. I D \<Longrightarrow> walk_rows et D = R" and body: "unharmed R I body"
  shows "walk_pages body et off s w = Some ((s', None), w') \<Longrightarrow> I (w_db w) \<Longrightarrow> P (take off R) s (w_db w) \<Longrightarrow>
    P R s' (w_db w')"
proof (induction "length R - off" arbitrary: off s w rule: less_induct)
  case less
  note run = less.prems(1) [unfolded walk_pages.simps [of body et off s w]]
  then obtain page w1 where l: "ListPage et (int pageSize) (int off) w = (Inr page, w1)"
    by (auto split: prod.splits sum.splits)
  then have page: "page = map to_record (take pageSize (drop off R))" and w1: "w_db w1 = w_db w"
    using I [OF less.prems(2)] by (simp_all add: ListPage_run)
  show ?case
  proof (cases "page = []")
    case True
    then have "take off R = R" by (auto simp: page pageSize_def)
    then show ?thesis using run l True less.prems(3) w1 by simp
  next
    case False
    then obtain s1 w2 where b: "page_loop body page s w1 = ((s1, None), w2)"
      and rest: "(if length page < pageSize then Some ((s1, None), w2)
        else walk_pages body et (off + pageSize) s1 w2) = Some ((s', None), w')"
      using run l by (auto split: prod.splits option.splits)
    have R: "R = take off R @ take pageSize (drop off R) @ drop pageSize (drop off R)" by (simp only: append_take_drop_id)
    have "P (take off R @ take pageSize (drop off R)) s1 (w_db w2)"
    proof (rule page_loop_rule [where R = R and I = I and P = P and body = body])
      show "P (vs @ [r]) s' (w_db w')"
        if "R = vs @ r # ss" "I (w_db w)" "P vs s (w_db w)" "body (to_record r) s w = (Inr s', w')" for vs r ss s w s' w'
        using that by (rule step)
      show "page_loop body (map to_record (take pageSize (drop off R))) s w1 = ((s1, None), w2)" using b page by simp
    qed (use body R less.prems w1 in simp_all)
    then have P: "P (take (off + pageSize) R) s1 (w_db w2)" by (simp add: take_add)
    show ?thesis
    proof (cases "length page < pageSize")
      case True
      then have "take (off + pageSize) R = R" by (auto simp: page)
      then show ?thesis using P rest True by simp
    next
      case more: False
      have "I (w_db w2)"
        using page_loop_unharmed [OF body _ _ b [unfolded page]] less.prems(2) w1
        by (metis in_set_dropD in_set_takeD subsetI)
      moreover have "length R - (off + pageSize) < length R - off"
        using False by (auto simp: page pageSize_def)
      ultimately show ?thesis using less.hyps rest more P by simp
    qed
  qed
qed

section \<open>The counts\<close>

definition row_value :: "keyfun \<Rightarrow> rrow \<Rightarrow> string option" where
  "row_value key r = (case key (rr_data r) of Inr v \<Rightarrow> v | Inl _ \<Rightarrow> None)"

text \<open>Another live record of the type has the same value.\<close>

definition shares :: "keyfun \<Rightarrow> string \<Rightarrow> db \<Rightarrow> rrow \<Rightarrow> bool" where
  "shares key et D r \<longleftrightarrow>
     (\<exists>v. row_value key r = Some v \<and>
        (\<exists>q \<in> set (db_records D). live et q \<and> q \<noteq> r \<and> row_value key q = Some v))"

lemma bump_keys: "fst ` set (bump v seen) = insert v (fst ` set seen)"
  by (induction v seen rule: bump.induct) auto

lemma bump_distinct: "distinct (map fst seen) \<Longrightarrow> distinct (map fst (bump v seen))"
proof (induction v seen rule: bump.induct)
  case (2 v x n seen)
  then show ?case using bump_keys [of v seen] by (auto simp flip: set_map)
qed simp

lemma bump_map_of: "map_of (bump v seen) = (map_of seen)(v \<mapsto> (case map_of seen v of None \<Rightarrow> 1 | Some n \<Rightarrow> n + 1))"
  by (induction v seen rule: bump.induct) (auto simp: fun_eq_iff)

lemma tally_map_of: "map_of (fold bump vs []) v = (if v \<in> set vs then Some (count_list vs v) else None)"
proof (induction vs rule: rev_induct)
  case (snoc x vs)
  then show ?case by (auto simp: bump_map_of count_list_0_iff)
qed simp

lemma tally_distinct: "distinct (map fst (fold bump vs []))"
  by (induction vs rule: rev_induct) (simp_all add: bump_distinct)

lemma count_filter: "P v \<Longrightarrow> count_list (filter P vs) v = count_list vs v"
  by (induction vs) auto

lemma violations_tally: "violations (fold bump vs []) = length (filter (\<lambda>v. 1 < count_list vs v) vs)"
proof -
  let ?seen = "fold bump vs []" and ?P = "\<lambda>v. 1 < count_list vs v"
  have "p \<in> set ?seen \<longleftrightarrow> map_of ?seen (fst p) = Some (snd p)" for p
    using map_of_eq_Some_iff [OF tally_distinct, of vs "fst p" "snd p"] by simp
  then have seen: "set ?seen = (\<lambda>v. (v, count_list vs v)) ` set vs"
    by (auto simp: tally_map_of split: if_splits)
  have d: "distinct ?seen" using tally_distinct by (simp add: distinct_map)
  have "map snd (filter (\<lambda>(v, n). 1 < n) ?seen) = map snd (filter (\<lambda>p. 1 < snd p) ?seen)"
    by (intro arg_cong [where f = "map snd"] filter_cong) auto
  then have "violations ?seen = (\<Sum>p \<in> set (filter (\<lambda>p. 1 < snd p) ?seen). snd p)"
    using d unfolding violations_def by (simp add: sum_list_distinct_conv_sum_set)
  also have "set (filter (\<lambda>p. 1 < snd p) ?seen) = (\<lambda>v. (v, count_list vs v)) ` set (filter ?P vs)"
    using seen by auto
  also have "(\<Sum>p \<in> (\<lambda>v. (v, count_list vs v)) ` set (filter ?P vs). snd p) = (\<Sum>v \<in> set (filter ?P vs). count_list vs v)"
    by (subst sum.reindex) (auto simp: inj_on_def)
  also have "\<dots> = (\<Sum>v \<in> set (filter ?P vs). count_list (filter ?P vs) v)"
    by (intro sum.cong) (simp_all add: count_filter)
  also have "\<dots> = length (filter ?P vs)" by (rule sum_count_set) auto
  finally show ?thesis .
qed

definition row_values :: "keyfun \<Rightarrow> rrow list \<Rightarrow> string list" where
  "row_values key rs = List.map_filter (row_value key) rs"

lemma row_values_simps [simp]:
  "row_values key [] = []" "row_values key (xs @ ys) = row_values key xs @ row_values key ys"
  "row_values key [r] = (case row_value key r of None \<Rightarrow> [] | Some v \<Rightarrow> [v])"
  by (simp_all add: row_values_def List.map_filter_def split: option.splits)

lemma count_values: "count_list (row_values key rs) v = length (filter (\<lambda>r. row_value key r = Some v) rs)"
  by (induction rs rule: rev_induct) (auto split: option.splits)

lemma filter_values:
  "length (filter P (row_values key rs)) = length (filter (\<lambda>r. \<exists>v. row_value key r = Some v \<and> P v) rs)"
  by (induction rs rule: rev_induct) (auto split: option.splits)

lemma one_less_card: "finite A \<Longrightarrow> r \<in> A \<Longrightarrow> 1 < card A \<longleftrightarrow> (\<exists>q \<in> A. q \<noteq> r)"
  by (metis One_nat_def card_le_Suc0_iff_eq not_less)

lemma shared_count:
  assumes "records_wf D"
  shows "length (filter (\<lambda>v. 1 < count_list (row_values key (walk_rows et D)) v) (row_values key (walk_rows et D))) =
    card {r \<in> set (db_records D). live et r \<and> shares key et D r}"
proof -
  let ?R = "walk_rows et D"
  have d: "distinct ?R" using distinct_walk_rows [OF assms] by (simp add: distinct_map)
  have "1 < count_list (row_values key ?R) v \<longleftrightarrow> (\<exists>q \<in> set ?R. q \<noteq> r \<and> row_value key q = Some v)"
    if "r \<in> set ?R" "row_value key r = Some v" for r v
  proof -
    have "count_list (row_values key ?R) v = card {q \<in> set ?R. row_value key q = Some v}"
      using d by (simp add: count_values flip: distinct_card)
    then show ?thesis using one_less_card [of "{q \<in> set ?R. row_value key q = Some v}" r] that by auto
  qed
  then have "filter (\<lambda>r. \<exists>v. row_value key r = Some v \<and> 1 < count_list (row_values key ?R) v) ?R = filter (shares key et D) ?R"
    by (intro filter_cong) (auto simp: shares_def set_walk_rows)
  then show ?thesis
    using d by (simp add: filter_values set_walk_rows flip: distinct_card)
qed

lemma tally_run:
  assumes "tally key (to_record r) seen w = (out, w')"
  shows "w_db w' = w_db w"
    "out = Inr seen' \<Longrightarrow> seen' = (case row_value key r of None \<Rightarrow> seen | Some v \<Rightarrow> bump v seen)"
  using assms by (auto simp: tally_def row_value_def to_record_def ret_def fail_def split: sum.splits option.splits)

lemma count_walk_exact:
  assumes "records_wf (w_db w)"
  shows "\<exists>out w'. count_walk key et w = Some (out, w') \<and> w_db w' = w_db w \<and>
    (\<forall>n. out = Inr n \<longrightarrow> n = card {r \<in> set (db_records (w_db w)). live et r \<and> shares key et (w_db w) r})"
proof -
  let ?I = "\<lambda>D. D = w_db w" and ?R = "walk_rows et (w_db w)"
  have st: "unharmed ?R ?I (tally key)" by (auto simp: unharmed_def dest: tally_run(1))
  obtain seen e w' where run: "walk_pages (tally key) et 0 [] w = Some ((seen, e), w')" and w': "w_db w' = w_db w"
    using walk_total [of ?I et ?R "tally key" w 0 "[]"] st by (metis prod.exhaust)
  have "seen = fold bump (row_values key ?R) []" if "e = None"
  proof (rule walk_rule [where R = ?R and I = ?I and P = "\<lambda>vs seen _. seen = fold bump (row_values key vs) []"])
    show "seen2 = fold bump (row_values key (vs @ [r])) []"
      if "seen1 = fold bump (row_values key vs) []" "tally key (to_record r) seen1 w1 = (Inr seen2, w2)" for vs r seen1 seen2 w1 w2
      using tally_run(2) [OF that(2) refl] that(1) by (simp split: option.splits)
    show "walk_pages (tally key) et 0 [] w = Some ((seen, None), w')" using run that by simp
  qed (use st in simp_all)
  then show ?thesis
    using run w' shared_count [OF assms] by (cases e) (auto simp: count_walk_def violations_tally)
qed

section \<open>The backfill\<close>

text \<open>The key table names, for the constraint, only live records and the values they have.\<close>

definition keys_current :: "keyfun \<Rightarrow> string \<Rightarrow> string \<Rightarrow> db \<Rightarrow> bool" where
  "keys_current key et cn D \<longleftrightarrow>
     (\<forall>k \<in> set (db_keys D). uk_type k = et \<longrightarrow> uk_name k = cn \<longrightarrow>
        (\<exists>r \<in> set (db_records D). live et r \<and> rr_id r = uk_record k \<and> row_value key r = Some (uk_value k)))"

definition new_key :: "string \<Rightarrow> string \<Rightarrow> string \<Rightarrow> string \<Rightarrow> db \<Rightarrow> db" where
  "new_key et cn v u D = D\<lparr>db_keys := db_keys D @ [\<lparr>uk_type = et, uk_name = cn, uk_value = v, uk_record = u\<rparr>]\<rparr>"

definition holds_key :: "string \<Rightarrow> string \<Rightarrow> db \<Rightarrow> string \<Rightarrow> rrow \<Rightarrow> bool" where
  "holds_key et cn D v r \<longleftrightarrow> (\<exists>k \<in> set (db_keys D). key_of k = (et, cn, v) \<and> uk_record k = rr_id r)"

lemma new_key_sel [simp]:
  "db_records (new_key et cn v u D) = db_records D"
  "set (db_keys (new_key et cn v u D)) =
     insert \<lparr>uk_type = et, uk_name = cn, uk_value = v, uk_record = u\<rparr> (set (db_keys D))"
  "(new_key et cn v u D)\<lparr>db_keys := ks\<rparr> = D\<lparr>db_keys := ks\<rparr>"
  by (auto simp: new_key_def)

lemma owned_current:
  assumes "keys_current key et cn D" "records_wf D" "r \<in> set (db_records D)" "row_value key r = Some v"
    and "k \<in> set (db_keys D)" "owned et cn (rr_id r) k"
  shows "uk_value k = v"
proof -
  obtain q where "q \<in> set (db_records D)" "rr_id q = rr_id r" "row_value key q = Some (uk_value k)"
    using assms(1,5,6) by (auto simp: keys_current_def owned_def)
  then have "q = r" using rr_id_unique assms(2,3) by blast
  then show ?thesis using assms(4) \<open>row_value key q = _\<close> by simp
qed

lemma repoint_current:
  assumes "keys_current key et cn D" "records_wf D" "r \<in> set (db_records D)" "row_value key r = Some v"
  shows "upd_where (owned et cn (rr_id r)) (\<lambda>k. k\<lparr>uk_value := v\<rparr>) (db_keys D) = db_keys D"
proof -
  have "(if owned et cn (rr_id r) k then k\<lparr>uk_value := v\<rparr> else k) = k" if "k \<in> set (db_keys D)" for k
    using owned_current [OF assms that] by (cases k) auto
  then show ?thesis by (simp add: upd_where_def map_idI)
qed

lemma InsertTx_current:
  assumes cur: "keys_current key et cn D" and wf: "tables_wf D" and r: "r \<in> set (db_records D)" "row_value key r = Some v"
    and id: "e_uuid E (rr_id r) = Some (rr_id r)" and D: "D = w_db w"
    and run: "InsertTx E et cn v (rr_id r) w = (out, w')"
  shows "(w_db w' = D \<and> (out = Inr () \<longrightarrow> holds_key et cn D v r)
      \<and> (out = Inl ErrUniqueKeyConflict \<longrightarrow> (\<exists>k \<in> set (db_keys D). key_of k = (et, cn, v) \<and> uk_record k \<noteq> rr_id r)))
    \<or> (out = Inr () \<and> (et, cn, v) \<notin> key_of ` set (db_keys D) \<and> w_db w' = new_key et cn v (rr_id r) D)"
proof -
  have rp: "upd_where (owned et cn (rr_id r)) (\<lambda>k. k\<lparr>uk_value := v\<rparr>) (db_keys D) = db_keys D"
    using repoint_current [OF cur _ r] wf by (simp add: tables_wf_def)
  have dist: "distinct (map key_of (db_keys D))" using wf by (simp add: tables_wf_parts)
  obtain o1 w1 where u: "UpdateValueTx E et cn v (rr_id r) w = (o1, w1)" by force
  have w1: "w_db w1 = D" and o1: "o1 = Inl ErrDB \<or> o1 = Inr (length (filter (owned et cn (rr_id r)) (db_keys D)))"
    using u rp dist id D by (auto simp: UpdateValueTx_def stmt_def uuid_arg_def Let_def split: if_splits)
  show ?thesis
  proof (cases "o1 = Inl ErrDB")
    case True
    then show ?thesis using run u w1 by (auto simp: InsertTx_def bindM_def)
  next
    case False
    then have o1: "o1 = Inr (length (filter (owned et cn (rr_id r)) (db_keys D)))" using o1 by simp
    show ?thesis
    proof (cases "filter (owned et cn (rr_id r)) (db_keys D) = []")
      case True
      then show ?thesis
        using run u w1 o1 id
        by (auto simp: InsertTx_def bindM_def stmt_def uuid_arg_def new_key_def find_None_iff holds_key_def
            dest!: find_SomeD split: if_splits option.splits)
    next
      case False
      then obtain k where k: "k \<in> set (db_keys D)" "owned et cn (rr_id r) k" by (auto simp: filter_empty_conv)
      then have "key_of k = (et, cn, v)" "uk_record k = rr_id r"
        using owned_current [OF cur _ r k] wf by (auto simp: key_of_def owned_def tables_wf_def)
      then have "holds_key et cn D v r" using k(1) by (auto simp: holds_key_def)
      then show ?thesis using run u w1 o1 False by (simp add: InsertTx_def bindM_def)
    qed
  qed
qed

lemma back_one_run:
  assumes cur: "keys_current key et cn D" and wf: "tables_wf D" and r: "r \<in> set (db_records D)"
    and id: "e_uuid E (rr_id r) = Some (rr_id r)" and D: "D = w_db w"
    and run: "back_one E key et cn (to_record r) (b, s) w = (out, w')"
  obtains (same) "w_db w' = D"
      "\<And>b' s'. out = Inr (b', s') \<Longrightarrow> row_value key r = None \<and> b' = b \<and> s' = s \<or>
        (\<exists>v. row_value key r = Some v \<and> holds_key et cn D v r \<and> b' = b + 1 \<and> s' = s) \<or>
        (\<exists>v. row_value key r = Some v \<and> b' = b \<and> s' = s + 1 \<and>
           (\<exists>k \<in> set (db_keys D). key_of k = (et, cn, v) \<and> uk_record k \<noteq> rr_id r))"
  | (added) v where "row_value key r = Some v" "out = Inr (b + 1, s)" "(et, cn, v) \<notin> key_of ` set (db_keys D)"
      "w_db w' = new_key et cn v (rr_id r) D"
proof (cases "key (rr_data r)")
  case (Inl e)
  then show thesis using same run D by (auto simp: back_one_def to_record_def)
next
  case (Inr o1)
  show thesis
  proof (cases o1)
    case None
    then show thesis using same run D Inr by (auto simp: back_one_def to_record_def row_value_def)
  next
    case (Some v)
    then have v: "row_value key r = Some v" using Inr by (simp add: row_value_def)
    obtain i w1 where ins: "InsertTx E et cn v (rr_id r) w = (i, w1)" by force
    have "w' = w1" and out: "out = (case i of Inr _ \<Rightarrow> Inr (b + 1, s)
        | Inl e \<Rightarrow> if e = ErrUniqueKeyConflict then Inr (b, s + 1) else Inl e)"
      using run Inr Some ins
      by (auto simp: back_one_def to_record_def catchM_def bindM_def ret_def fail_def split: sum.splits if_splits)
    with InsertTx_current [OF cur wf r v id D ins] show thesis
      using same added [OF v] v by (auto split: sum.splits if_splits)
  qed
qed

section \<open>What a backfill leaves\<close>

definition backfilling :: "keyfun \<Rightarrow> string \<Rightarrow> string \<Rightarrow> db \<Rightarrow> db \<Rightarrow> bool" where
  "backfilling key et cn D0 D \<longleftrightarrow>
     D\<lparr>db_keys := db_keys D0\<rparr> = D0 \<and> set (db_keys D0) \<subseteq> set (db_keys D) \<and> tables_wf D \<and> keys_current key et cn D"

lemma backfilling_records: "backfilling key et cn D0 D \<Longrightarrow> db_records D = db_records D0"
  by (metis backfilling_def db.select_convs(1) db.surjective db.update_convs(2))

lemma backfilling_new:
  assumes "backfilling key et cn D0 D" "r \<in> set (db_records D0)" "live et r" "row_value key r = Some v"
    and "(et, cn, v) \<notin> key_of ` set (db_keys D)"
  shows "backfilling key et cn D0 (new_key et cn v (rr_id r) D)"
proof -
  have r: "r \<in> set (db_records D)" using assms(1,2) by (simp add: backfilling_records)
  have "tables_wf (new_key et cn v (rr_id r) D)"
    using assms(1,5) r by (auto simp: backfilling_def tables_wf_parts new_key_def key_of_def)
  moreover have "keys_current key et cn (new_key et cn v (rr_id r) D)"
    using assms(1,3,4) r by (auto simp: backfilling_def keys_current_def)
  ultimately show ?thesis using assms(1) by (auto simp: backfilling_def)
qed

lemma backfilling_unharmed:
  assumes id: "ids_canonical E D0"
  shows "unharmed (walk_rows et D0) (backfilling key et cn D0) (back_one E key et cn)"
  unfolding unharmed_def
proof (intro ballI allI impI)
  fix r st w out w'
  assume r: "r \<in> set (walk_rows et D0)" and I: "backfilling key et cn D0 (w_db w)"
    and run: "back_one E key et cn (to_record r) st w = (out, w')"
  obtain b s where st: "st = (b, s)" by force
  have r0: "r \<in> set (db_records D0)" "live et r" using r by (simp_all add: set_walk_rows)
  have mem: "r \<in> set (db_records (w_db w))" and idr: "e_uuid E (rr_id r) = Some (rr_id r)"
    using I id r0 by (simp_all add: backfilling_records ids_canonical_def)
  have cur: "keys_current key et cn (w_db w)" and wf: "tables_wf (w_db w)" using I by (simp_all add: backfilling_def)
  show "backfilling key et cn D0 (w_db w')"
    by (rule back_one_run [OF cur wf mem idr refl run [unfolded st]]) (simp_all add: I backfilling_new [OF I r0])
qed

definition served :: "keyfun \<Rightarrow> string \<Rightarrow> string \<Rightarrow> db \<Rightarrow> rrow \<Rightarrow> bool" where
  "served key et cn D r \<longleftrightarrow> (\<exists>v. row_value key r = Some v \<and> holds_key et cn D v r)"

definition left_out :: "keyfun \<Rightarrow> string \<Rightarrow> string \<Rightarrow> db \<Rightarrow> rrow \<Rightarrow> bool" where
  "left_out key et cn D r \<longleftrightarrow> (\<exists>v. row_value key r = Some v \<and> \<not> holds_key et cn D v r)"

definition unkeyed :: "string \<Rightarrow> string \<Rightarrow> db \<Rightarrow> bool" where
  "unkeyed et cn D \<longleftrightarrow> (\<forall>k \<in> set (db_keys D). \<not> (uk_type k = et \<and> uk_name k = cn))"

text \<open>After the records \<open>vs\<close>, oldest first, with the counts of the walk.\<close>

definition done_with :: "keyfun \<Rightarrow> string \<Rightarrow> string \<Rightarrow> db \<Rightarrow> rrow list \<Rightarrow> nat \<times> nat \<Rightarrow> db \<Rightarrow> bool" where
  "done_with key et cn D0 vs = (\<lambda>(b, s) D.
     (\<forall>r \<in> set vs. \<forall>v. row_value key r = Some v \<longrightarrow> (et, cn, v) \<in> key_of ` set (db_keys D)) \<and>
     b = length (filter (served key et cn D) vs) \<and> s = length (filter (left_out key et cn D) vs) \<and>
     (unkeyed et cn D0 \<longrightarrow> (\<forall>k \<in> set (db_keys D). uk_type k = et \<longrightarrow> uk_name k = cn \<longrightarrow>
        (\<exists>r. List.find (\<lambda>r. row_value key r = Some (uk_value k)) vs = Some r \<and> rr_id r = uk_record k))))"

lemma holds_new_key:
  "holds_key et cn (new_key et cn v u D) x r \<longleftrightarrow> holds_key et cn D x r \<or> x = v \<and> rr_id r = u"
  by (auto simp: holds_key_def key_of_def)

lemma find_snoc: "List.find P (xs @ [x]) = (case List.find P xs of Some y \<Rightarrow> Some y | None \<Rightarrow> if P x then Some x else None)"
  by (induction xs) auto

lemma key_row_unique: "tables_wf D \<Longrightarrow> k \<in> set (db_keys D) \<Longrightarrow> k' \<in> set (db_keys D) \<Longrightarrow> key_of k = key_of k' \<Longrightarrow> k = k'"
  unfolding tables_wf_parts by (metis distinct_map inj_onD)

lemma done_with_step:
  assumes id: "ids_canonical E D0" and R: "walk_rows et D0 = vs @ r # ss" and wf0: "records_wf D0"
    and I: "backfilling key et cn D0 (w_db w)" and before: "done_with key et cn D0 vs st (w_db w)"
    and run: "back_one E key et cn (to_record r) st w = (Inr st', w')"
  shows "done_with key et cn D0 (vs @ [r]) st' (w_db w')"
proof -
  obtain b s b' s' where st: "st = (b, s)" "st' = (b', s')" by (metis prod.exhaust)
  let ?D = "w_db w"
  have r0: "r \<in> set (db_records D0)" "live et r" using R set_walk_rows [of et D0] by auto
  have mem: "r \<in> set (db_records ?D)" and idr: "e_uuid E (rr_id r) = Some (rr_id r)"
    using I id r0 by (simp_all add: backfilling_records ids_canonical_def)
  have cur: "keys_current key et cn ?D" and wf: "tables_wf ?D" using I by (simp_all add: backfilling_def)
  have other: "rr_id q \<noteq> rr_id r" if "q \<in> set vs" for q
    using distinct_walk_rows [OF wf0, of et] that R by (simp add: image_iff) (metis)
  note before = before [unfolded st done_with_def prod.case]
  show ?thesis
  proof (rule back_one_run [OF cur wf mem idr refl run [unfolded st]])
    assume same: "w_db w' = ?D"
      and out: "\<And>b1 s1. (Inr (b', s') :: (err, nat \<times> nat) result) = Inr (b1, s1) \<Longrightarrow> row_value key r = None \<and> b1 = b \<and> s1 = s \<or>
        (\<exists>v. row_value key r = Some v \<and> holds_key et cn ?D v r \<and> b1 = b + 1 \<and> s1 = s) \<or>
        (\<exists>v. row_value key r = Some v \<and> b1 = b \<and> s1 = s + 1 \<and>
           (\<exists>k \<in> set (db_keys ?D). key_of k = (et, cn, v) \<and> uk_record k \<noteq> rr_id r))"
    have free: "\<not> holds_key et cn ?D v r"
      if "k \<in> set (db_keys ?D)" "key_of k = (et, cn, v)" "uk_record k \<noteq> rr_id r" for k v
      using that key_row_unique [OF wf] unfolding holds_key_def by metis
    have oldest: "unkeyed et cn D0 \<longrightarrow> (\<forall>k \<in> set (db_keys ?D). uk_type k = et \<longrightarrow> uk_name k = cn \<longrightarrow>
        (\<exists>q. List.find (\<lambda>q. row_value key q = Some (uk_value k)) (vs @ [r]) = Some q \<and> rr_id q = uk_record k))"
      using before by (fastforce simp: find_snoc)
    consider (none) "row_value key r = None" "b' = b" "s' = s"
      | (held) v where "row_value key r = Some v" "holds_key et cn ?D v r" "b' = b + 1" "s' = s"
      | (refused) v k where "row_value key r = Some v" "b' = b" "s' = s + 1" "k \<in> set (db_keys ?D)" "key_of k = (et, cn, v)"
          "uk_record k \<noteq> rr_id r"
      using out [OF refl] by (elim disjE exE conjE bexE) simp_all
    then show ?thesis
    proof cases
      case none
      then show ?thesis
        using before oldest unfolding st done_with_def prod.case same by (simp add: served_def left_out_def)
    next
      case held
      then have "(et, cn, v) \<in> key_of ` set (db_keys ?D)" by (force simp: holds_key_def)
      then show ?thesis
        using before oldest held unfolding st done_with_def prod.case same by (simp add: served_def left_out_def)
    next
      case refused
      then have "(et, cn, v) \<in> key_of ` set (db_keys ?D)" by force
      then show ?thesis
        using before oldest refused free [OF refused(4-6)] unfolding st done_with_def prod.case same
        by (simp add: served_def left_out_def)
    qed
  next
    fix v assume v: "row_value key r = Some v" and out: "(Inr (b', s') :: (err, nat \<times> nat) result) = Inr (b + 1, s)"
      and new: "(et, cn, v) \<notin> key_of ` set (db_keys ?D)" and D': "w_db w' = new_key et cn v (rr_id r) ?D"
    have "filter (served key et cn (w_db w')) vs = filter (served key et cn ?D) vs"
      "filter (left_out key et cn (w_db w')) vs = filter (left_out key et cn ?D) vs"
      using other by (auto intro!: filter_cong simp: served_def left_out_def D' holds_new_key)
    moreover have "served key et cn (w_db w') r" "\<not> left_out key et cn (w_db w') r"
      using v by (auto simp: served_def left_out_def D' holds_new_key)
    moreover have "List.find (\<lambda>r. row_value key r = Some v) vs = None"
      using before new by (auto simp: find_None_iff)
    ultimately show ?thesis
      using out before v unfolding st done_with_def prod.case
      by (auto simp: find_snoc D' key_of_def)
  qed
qed

text \<open>
  What a backfill that ended without an error leaves: only key rows are added; every value is held by
  a live record that has it, the oldest one where no key of the constraint was there before; the
  counts are the records that hold their value and those that do not; and nothing was skipped
  exactly when no two records share a value.
\<close>

definition holder :: "keyfun \<Rightarrow> string \<Rightarrow> string \<Rightarrow> db \<Rightarrow> db \<Rightarrow> string \<Rightarrow> rrow \<Rightarrow> bool" where
  "holder key et cn D D' v q \<longleftrightarrow>
     q \<in> set (db_records D) \<and> live et q \<and> row_value key q = Some v \<and> holds_key et cn D' v q \<and>
     (unkeyed et cn D \<longrightarrow> List.find (\<lambda>r. row_value key r = Some v) (walk_rows et D) = Some q)"

definition backfilled :: "keyfun \<Rightarrow> string \<Rightarrow> string \<Rightarrow> db \<Rightarrow> nat \<times> nat \<Rightarrow> db \<Rightarrow> bool" where
  "backfilled key et cn D = (\<lambda>(b, s) D'.
     set (db_keys D) \<subseteq> set (db_keys D') \<and>
     (\<forall>r \<in> set (db_records D). \<forall>v. live et r \<and> row_value key r = Some v \<longrightarrow> (\<exists>q. holder key et cn D D' v q)) \<and>
     b = card {r \<in> set (db_records D). live et r \<and> served key et cn D' r} \<and>
     s = card {r \<in> set (db_records D). live et r \<and> left_out key et cn D' r} \<and>
     (s = 0 \<longleftrightarrow> (\<forall>r \<in> set (db_records D). live et r \<longrightarrow> \<not> shares key et D r)))"

lemma count_walked:
  "records_wf D \<Longrightarrow> length (filter P (walk_rows et D)) = card {r \<in> set (db_records D). live et r \<and> P r}"
  using distinct_walk_rows [of D et]
  by (simp add: distinct_map set_walk_rows conj_assoc flip: distinct_card)

lemma done_backfilled:
  assumes I: "backfilling key et cn D D'" and wf: "records_wf D" and d: "done_with key et cn D (walk_rows et D) (b, s) D'"
  shows "backfilled key et cn D (b, s) D'"
proof -
  have recs: "db_records D' = db_records D" using I by (rule backfilling_records)
  have dist: "distinct (map key_of (db_keys D'))" and cur: "keys_current key et cn D'"
    using I by (simp_all add: backfilling_def tables_wf_parts)
  have hold: "\<exists>q. holder key et cn D D' v q"
    if r: "r \<in> set (db_records D)" "live et r" "row_value key r = Some v" for r v
  proof -
    have "(et, cn, v) \<in> key_of ` set (db_keys D')"
      using d r by (auto simp: done_with_def set_walk_rows)
    then obtain k where k: "k \<in> set (db_keys D')" "uk_type k = et" "uk_name k = cn" "uk_value k = v"
      by (auto simp: key_of_def)
    then obtain q where q: "q \<in> set (db_records D)" "live et q" "rr_id q = uk_record k" "row_value key q = Some v"
      using cur recs by (auto simp: keys_current_def)
    have "List.find (\<lambda>r. row_value key r = Some v) (walk_rows et D) = Some q" if u: "unkeyed et cn D"
    proof -
      obtain q' where q': "List.find (\<lambda>r. row_value key r = Some v) (walk_rows et D) = Some q'" "rr_id q' = uk_record k"
        using d u k by (auto simp: done_with_def)
      then have "q' \<in> set (db_records D)" by (auto dest!: find_SomeD simp: set_walk_rows)
      then show ?thesis using q' q rr_id_unique [OF wf] by metis
    qed
    then have "holder key et cn D D' v q" using q k by (auto simp: holder_def holds_key_def key_of_def)
    then show ?thesis by blast
  qed
  have one: "q = r"
    if h: "holder key et cn D D' v q" "holds_key et cn D' v r" and r: "r \<in> set (db_records D)" for q r v
  proof -
    obtain k k' where "k \<in> set (db_keys D')" "key_of k = (et, cn, v)" "uk_record k = rr_id q"
      "k' \<in> set (db_keys D')" "key_of k' = (et, cn, v)" "uk_record k' = rr_id r"
      using h unfolding holder_def holds_key_def by blast
    then have "rr_id q = rr_id r" using dist by (metis distinct_map inj_onD)
    then show ?thesis using h(1) r rr_id_unique [OF wf] by (auto simp: holder_def)
  qed
  have none: "s = 0 \<longleftrightarrow> (\<forall>r \<in> set (db_records D). live et r \<longrightarrow> \<not> left_out key et cn D' r)"
    using d by (auto simp: done_with_def filter_empty_conv set_walk_rows)
  have "(\<exists>r \<in> set (db_records D). live et r \<and> left_out key et cn D' r) \<longleftrightarrow>
    (\<exists>r \<in> set (db_records D). live et r \<and> shares key et D r)"
  proof
    assume "\<exists>r \<in> set (db_records D). live et r \<and> left_out key et cn D' r"
    then obtain r v where r: "r \<in> set (db_records D)" "live et r" "row_value key r = Some v" "\<not> holds_key et cn D' v r"
      by (auto simp: left_out_def)
    obtain q where "holder key et cn D D' v q" using hold [OF r(1-3)] by blast
    then show "\<exists>r \<in> set (db_records D). live et r \<and> shares key et D r"
      using r by (auto simp: holder_def shares_def)
  next
    assume "\<exists>r \<in> set (db_records D). live et r \<and> shares key et D r"
    then obtain r q v where r: "r \<in> set (db_records D)" "live et r" "row_value key r = Some v"
      "q \<in> set (db_records D)" "live et q" "q \<noteq> r" "row_value key q = Some v"
      by (auto simp: shares_def)
    obtain h where "holder key et cn D D' v h" using hold [OF r(1-3)] by blast
    then have "\<not> holds_key et cn D' v r \<or> \<not> holds_key et cn D' v q" using one r by metis
    then show "\<exists>r \<in> set (db_records D). live et r \<and> left_out key et cn D' r"
      using r by (auto simp: left_out_def)
  qed
  then have "s = 0 \<longleftrightarrow> (\<forall>r \<in> set (db_records D). live et r \<longrightarrow> \<not> shares key et D r)" using none by blast
  moreover have "b = card {r \<in> set (db_records D). live et r \<and> served key et cn D' r}"
    "s = card {r \<in> set (db_records D). live et r \<and> left_out key et cn D' r}"
    using d by (simp_all add: done_with_def count_walked [OF wf])
  moreover have "set (db_keys D) \<subseteq> set (db_keys D')" using I by (simp add: backfilling_def)
  ultimately show ?thesis using hold unfolding backfilled_def prod.case by (intro conjI) auto
qed

lemma backfill_walk:
  assumes wf: "tables_wf (w_db w)" and id: "ids_canonical E (w_db w)" and cur: "keys_current key et cn (w_db w)"
  shows "\<exists>st e w'. walk_pages (back_one E key et cn) et 0 (0, 0) w = Some ((st, e), w') \<and>
    (w_db w')\<lparr>db_keys := db_keys (w_db w)\<rparr> = w_db w \<and> (e = None \<longrightarrow> backfilled key et cn (w_db w) st (w_db w'))"
proof -
  let ?D = "w_db w" and ?I = "backfilling key et cn (w_db w)"
  have I0: "?I ?D" using wf cur by (simp add: backfilling_def)
  have rows: "walk_rows et D = walk_rows et ?D" if "?I D" for D
    using backfilling_records [OF that] by (simp add: walk_rows_def)
  note unharmed = backfilling_unharmed [OF id, of et key cn]
  obtain st e w' where run: "walk_pages (back_one E key et cn) et 0 (0, 0) w = Some ((st, e), w')" and I: "?I (w_db w')"
    using walk_total [OF rows unharmed I0] by (metis prod.exhaust)
  have "done_with key et cn ?D (walk_rows et ?D) st (w_db w')" if "e = None"
  proof (rule walk_rule [where R = "walk_rows et ?D" and I = ?I and P = "done_with key et cn ?D"])
    show "walk_pages (back_one E key et cn) et 0 (0, 0) w = Some ((st, None), w')" using run that by simp
    show "done_with key et cn ?D (take 0 (walk_rows et ?D)) (0, 0) ?D" by (auto simp: done_with_def unkeyed_def)
    show "done_with key et cn ?D (vs @ [r]) s' (w_db w2)"
      if "walk_rows et ?D = vs @ r # ss" "?I (w_db w1)" "done_with key et cn ?D vs s (w_db w1)"
        "back_one E key et cn (to_record r) s w1 = (Inr s', w2)" for vs r ss s w1 s' w2
      using that(1) by (rule done_with_step [OF id]) (use that wf in \<open>simp_all add: tables_wf_def\<close>)
    show "walk_rows et D = walk_rows et ?D" if "?I D" for D using that by (rule rows)
    show "unharmed (walk_rows et ?D) ?I (back_one E key et cn)" by (rule unharmed)
    show "?I ?D" by (rule I0)
  qed
  then show ?thesis
    using run I done_backfilled [OF I] wf by (cases st) (auto simp: backfilling_def tables_wf_def)
qed

section \<open>The count of refused references\<close>

lemma count_target_run:
  assumes "count_target E narrow (to_record r) n w = (out, w')"
  shows "w_db w' = w_db w"
    "out = Inr n' \<Longrightarrow> n' = n + 1 \<or> n' = n \<and> (\<exists>w1. checkReferenceTargetConstraints E narrow (rr_data r) w = (Inr (), w1))"
proof -
  obtain c w1 where c: "checkReferenceTargetConstraints E narrow (rr_data r) w = (c, w1)" by force
  have "w_db w1 = w_db w" by (rule readsD [OF reads_target_constraints c])
  then show "w_db w' = w_db w"
    "out = Inr n' \<Longrightarrow> n' = n + 1 \<or> n' = n \<and> (\<exists>w1. checkReferenceTargetConstraints E narrow (rr_data r) w = (Inr (), w1))"
    using assms c
    by (auto simp: count_target_def to_record_def catchM_def thenM_def bindM_def ret_def fail_def
        split: sum.splits err.splits)
qed

text \<open>
  The count ends and changes nothing. A count of zero means that every live record would pass the
  check of the field.
\<close>

lemma target_count_zero:
  assumes wf: "records_wf (w_db w)" and f: "FieldByName d name = Some f"
  shows "\<exists>out w'. CountTargetConstraintViolations E d name w = Some (out, w') \<and> w_db w' = w_db w \<and>
    (out = Inr 0 \<longrightarrow> (\<forall>r \<in> set (db_records (w_db w)). live (d_entity_type d) r \<longrightarrow> target_ok E (w_db w) (rr_data r) f))"
proof (cases "f_type f \<noteq> FieldReference \<or> f_target_filter f = [] \<and> f_must_match f = []")
  case True
  then show ?thesis using f
    by (auto simp: CountTargetConstraintViolations_def target_ok_def parent_agrees_def Let_def)
next
  case False
  let ?N = "mk_definition (d_entity_type d) [f]" and ?et = "d_entity_type d"
  let ?I = "\<lambda>D. D = w_db w" and ?R = "walk_rows (d_entity_type d) (w_db w)"
  let ?ok = "\<lambda>r. target_ok E (w_db w) (rr_data r) f"
  have st: "unharmed ?R ?I (count_target E ?N)" by (auto simp: unharmed_def dest: count_target_run(1))
  obtain n e w' where run: "walk_pages (count_target E ?N) ?et 0 0 w = Some ((n, e), w')" and w': "w_db w' = w_db w"
    using walk_total [of ?I ?et ?R "count_target E ?N" w 0 0] st by (metis prod.exhaust)
  have "n = 0 \<longrightarrow> (\<forall>r \<in> set ?R. ?ok r)" if "e = None"
  proof (rule walk_rule [where R = ?R and I = ?I and P = "\<lambda>vs n _. n = 0 \<longrightarrow> (\<forall>r \<in> set vs. ?ok r)"])
    show "n2 = 0 \<longrightarrow> (\<forall>q \<in> set (vs @ [r]). ?ok q)"
      if "n1 = 0 \<longrightarrow> (\<forall>q \<in> set vs. ?ok q)" "count_target E ?N (to_record r) n1 w1 = (Inr n2, w2)" "w_db w1 = w_db w"
      for vs r n1 n2 w1 w2
      using count_target_run(2) [OF that(2) refl] that(1,3) wf
      by (auto dest!: checkReferenceTargetConstraints_ok [where f = f] simp: mk_definition_def)
    show "walk_pages (count_target E ?N) ?et 0 0 w = Some ((n, None), w')" using run that by simp
  qed (use st in simp_all)
  then show ?thesis using run w' f False
    by (cases e) (auto simp: CountTargetConstraintViolations_def set_walk_rows)
qed

section \<open>Properties\<close>

text \<open>
  Over existing records, the dry-run count and the backfill of a unique set always end. The count
  changes nothing and gives the number of live records that share their value with another. The
  backfill touches nothing but the key table; if it ends without an error, every value some live
  record has is held by a live record with that value (the oldest, for a newly declared set), its
  two numbers are the records that hold their value and those that do not, and it skipped none
  exactly when no two records share a value.
\<close>

theorem backfill_claims_every_value:
  assumes "tables_wf (w_db w)" "ids_canonical E (w_db w)"
    and "keys_current (uniqueKeyValue E (canonicalSort fs)) et (UniqueConstraintName fs) (w_db w)"
  shows "\<exists>c w1 st e w2.
    CountUniqueConstraintViolations E et fs w = Some (c, w1) \<and> w_db w1 = w_db w \<and>
    (\<forall>n. c = Inr n \<longrightarrow> n = card {r \<in> set (db_records (w_db w)). live et r \<and>
       shares (uniqueKeyValue E (canonicalSort fs)) et (w_db w) r}) \<and>
    BackfillUniqueConstraintKeys E et fs w = Some ((st, e), w2) \<and>
    (w_db w2)\<lparr>db_keys := db_keys (w_db w)\<rparr> = w_db w \<and>
    (e = None \<longrightarrow> backfilled (uniqueKeyValue E (canonicalSort fs)) et (UniqueConstraintName fs) (w_db w) st (w_db w2))"
  using count_walk_exact [of w "uniqueKeyValue E (canonicalSort fs)" et] backfill_walk [OF assms] assms(1)
  by (simp add: CountUniqueConstraintViolations_def BackfillUniqueConstraintKeys_def tables_wf_def)

text \<open>The same of a conditional set.\<close>

lemma conditional_backfill_claims_every_value:
  assumes "tables_wf (w_db w)" "ids_canonical E (w_db w)"
    and "keys_current (conditionalKeyValue E cu) et (ConditionalUniqueConstraintName cu) (w_db w)"
  shows "\<exists>c w1 st e w2.
    CountConditionalUniqueConstraintViolations E et cu w = Some (c, w1) \<and> w_db w1 = w_db w \<and>
    (\<forall>n. c = Inr n \<longrightarrow> n = card {r \<in> set (db_records (w_db w)). live et r \<and>
       shares (conditionalKeyValue E cu) et (w_db w) r}) \<and>
    BackfillConditionalUniqueConstraintKeys E et cu w = Some ((st, e), w2) \<and>
    (w_db w2)\<lparr>db_keys := db_keys (w_db w)\<rparr> = w_db w \<and>
    (e = None \<longrightarrow> backfilled (conditionalKeyValue E cu) et (ConditionalUniqueConstraintName cu) (w_db w) st (w_db w2))"
  using count_walk_exact [of w "conditionalKeyValue E cu" et] backfill_walk [OF assms] assms(1)
  by (simp add: CountConditionalUniqueConstraintViolations_def BackfillConditionalUniqueConstraintKeys_def tables_wf_def)

definition text_env :: env where
  "text_env = plain_env\<lparr>e_digest := (\<lambda>vs. case vs of [VStr s] \<Rightarrow> s | _ \<Rightarrow> [])\<rparr>"

definition coded :: "string \<Rightarrow> string \<Rightarrow> nat \<Rightarrow> rrow" where
  "coded i c t = \<lparr>rr_id = i, rr_type = ''Account'', rr_data = fmupd ''code'' (VStr c) fmempty, rr_version = 1,
     rr_created = t, rr_deleted = False\<rparr>"

definition twin_db :: db where
  "twin_db = empty_db\<lparr>db_records := [coded ''b'' ''1000'' 2, coded ''a'' ''1000'' 1, coded ''c'' ''2000'' 3]\<rparr>"

definition code_key :: "string \<Rightarrow> string \<Rightarrow> krow" where
  "code_key v u = \<lparr>uk_type = ''Account'', uk_name = ''code'', uk_value = v, uk_record = u\<rparr>"

lemma text_env_uuid [simp]: "e_uuid text_env u = Some u"
  by (simp add: text_env_def plain_env_def)

lemma code_value:
  "uniqueKeyValue text_env (canonicalSort [''code'']) (fmupd ''code'' (VStr ''1000'') fmempty) = Inr (Some ''1000'')"
  "uniqueKeyValue text_env (canonicalSort [''code'']) (fmupd ''code'' (VStr ''2000'') fmempty) = Inr (Some ''2000'')"
  by (simp_all add: uniqueKeyValue_def canonicalSort_def get_field_def trim_eval text_env_def Let_def)

lemma code_name: "UniqueConstraintName [''code''] = ''code''"
  by (simp add: UniqueConstraintName_def)

lemmas backfill_eval = BackfillUniqueConstraintKeys_def CountUniqueConstraintViolations_def count_walk_def Let_def
  walk_pages.simps ListPage_def query_def stmt_def faulty_def sent_def rbind_def pageSize_def
  by_age_def live_def to_record_def coded_def code_value code_name back_one_def tally_def violations_def
  catchM_def bindM_def ret_def fail_def InsertTx_def UpdateValueTx_def uuid_arg_def upd_where_def owned_def key_of_def
  sample_world_def empty_db_def code_key_def

lemma twin_run:
  "\<exists>w2. BackfillUniqueConstraintKeys text_env ''Account'' [''code''] (sample_world twin_db) = Some (((2, 1), None), w2) \<and>
     db_keys (w_db w2) = [code_key ''1000'' ''a'', code_key ''2000'' ''c'']"
  by (simp add: twin_db_def backfill_eval)


theorem twins_backfilled:
  "\<exists>w2 q. BackfillUniqueConstraintKeys text_env ''Account'' [''code''] (sample_world twin_db) = Some (((2, 1), None), w2) \<and>
     holder (uniqueKeyValue text_env (canonicalSort [''code''])) ''Account'' ''code'' twin_db (w_db w2) ''1000'' q"
proof -
  let ?key = "uniqueKeyValue text_env (canonicalSort [''code''])"
  have wf: "tables_wf (w_db (sample_world twin_db))" "ids_canonical text_env (w_db (sample_world twin_db))"
    "keys_current ?key ''Account'' (UniqueConstraintName [''code'']) (w_db (sample_world twin_db))"
    by (simp_all add: sample_world_def twin_db_def empty_db_def tables_wf_parts coded_def max_int4_def ids_canonical_def
        keys_current_def)
  obtain w2 where run: "BackfillUniqueConstraintKeys text_env ''Account'' [''code''] (sample_world twin_db) = Some (((2, 1), None), w2)"
    using twin_run by blast
  then have "backfilled ?key ''Account'' ''code'' twin_db (2, 1) (w_db w2)"
    using backfill_claims_every_value [OF wf] by (auto simp: code_name sample_world_def)
  moreover have "coded ''a'' ''1000'' 1 \<in> set (db_records twin_db)" "live ''Account'' (coded ''a'' ''1000'' 1)"
    "row_value ?key (coded ''a'' ''1000'' 1) = Some ''1000''"
    by (simp_all add: twin_db_def live_def coded_def row_value_def code_value)
  ultimately obtain q where "holder ?key ''Account'' ''code'' twin_db (w_db w2) ''1000'' q"
    unfolding backfilled_def prod.case by blast
  then show ?thesis using run by blast
qed

text \<open>
  A key the constraint left on a newer record when it was last in force: the older record that has
  the value now is skipped though nothing collides, and after the run no record holds the value.
\<close>

definition stale_db :: db where
  "stale_db = empty_db\<lparr>db_records := [coded ''a'' ''1000'' 1, coded ''b'' ''2000'' 2], db_keys := [code_key ''1000'' ''b'']\<rparr>"

lemma stale_key_leaves_a_gap:
  "(\<exists>w1. CountUniqueConstraintViolations text_env ''Account'' [''code''] (sample_world stale_db) = Some (Inr 0, w1)) \<and>
   (\<exists>w2. BackfillUniqueConstraintKeys text_env ''Account'' [''code''] (sample_world stale_db) = Some (((1, 1), None), w2) \<and>
     db_keys (w_db w2) = [code_key ''2000'' ''b''])"
  by (intro conjI) (simp_all add: stale_db_def backfill_eval)

end
