(* ===== verification/Ledger.thy ===== *)
theory Ledger
  imports Records Money
begin

text \<open>
  The deterministic ledger: \<open>internal/kernel/ledger\<close> (validation, the period check, posting)
  over the repositories of \<open>internal/data/ledger.go\<close>.
\<close>

section \<open>Entries\<close>

record Line =
  ln_account :: string
  ln_debit :: i64
  ln_credit :: i64

record JEntry =
  e_date :: string
  e_description :: string
  e_source_type :: string
  e_source_id :: string
  e_lines :: "Line list"

text \<open>The loop of \<open>Entry.Validate\<close> with its running \<open>int64\<close> totals, which wrap.\<close>

fun validate_lines :: "Line list \<Rightarrow> i64 \<Rightarrow> i64 \<Rightarrow> (err, i64 \<times> i64) result" where
  "validate_lines [] td tc = Inr (td, tc)"
| "validate_lines (l # ls) td tc =
     (if ln_account l = [] then Inl ErrEmptyAcctID
      else if ln_debit l <s 0 \<or> ln_credit l <s 0 then Inl ErrBadLine
      else if (ln_debit l = 0) = (ln_credit l = 0) then Inl ErrBadLine
      else validate_lines ls (td + ln_debit l) (tc + ln_credit l))"

definition Entry_Validate :: "JEntry \<Rightarrow> err option" where
  "Entry_Validate e =
     (if e_lines e = [] then Some ErrNoLines
      else case validate_lines (e_lines e) 0 0 of
        Inl er \<Rightarrow> Some er
      | Inr (td, tc) \<Rightarrow> if td \<noteq> tc then Some ErrUnbalanced else None)"

section \<open>Accounts\<close>

definition account_types :: "string list" where
  "account_types = [''asset'', ''liability'', ''equity'', ''income'', ''expense'']"

text \<open>\<open>INSERT ... ON CONFLICT (code) DO UPDATE\<close>\<close>

definition UpsertByCode :: "string \<Rightarrow> string \<Rightarrow> string \<Rightarrow> string \<Rightarrow> bool \<Rightarrow> string dbm" where
  "UpsertByCode code name ty currency active =
     bindM fresh_id (\<lambda>u. stmt (\<lambda>d.
       if ty \<notin> set account_types then Inl ErrDB
       else case List.find (\<lambda>a. ga_code a = code) (db_accounts d) of
         Some a \<Rightarrow>
           Inr (ga_id a, d\<lparr>db_accounts := upd_where (\<lambda>b. ga_code b = code)
             (\<lambda>b. b\<lparr>ga_name := name, ga_type := ty, ga_currency := currency, ga_active := active\<rparr>)
             (db_accounts d)\<rparr>)
       | None \<Rightarrow>
           if u \<in> ga_id ` set (db_accounts d) then Inl ErrDB
           else Inr (u, d\<lparr>db_accounts := db_accounts d @
             [\<lparr>ga_id = u, ga_code = code, ga_name = name, ga_type = ty, ga_currency = currency,
               ga_active = active, ga_source = None\<rparr>]\<rparr>)))"

text \<open>
  \<open>INSERT ... ON CONFLICT (source_record_id) DO UPDATE\<close>: the code may still collide with the
  code of another account, on the insert and on the update.
\<close>

definition UpsertBySourceRecord ::
    "env \<Rightarrow> string \<Rightarrow> string \<Rightarrow> string \<Rightarrow> string \<Rightarrow> string \<Rightarrow> bool \<Rightarrow> string dbm" where
  "UpsertBySourceRecord E src code name ty currency active =
     bindM fresh_id (\<lambda>u. stmt (\<lambda>d. uuid_arg E src (\<lambda>s.
       if ty \<notin> set account_types then Inl ErrDB
       else case List.find (\<lambda>a. ga_source a = Some s) (db_accounts d) of
         Some a \<Rightarrow>
           if list_ex (\<lambda>b. ga_code b = code \<and> ga_source b \<noteq> Some s) (db_accounts d)
           then Inl ErrGLAccountCodeConflict
           else Inr (ga_id a, d\<lparr>db_accounts := upd_where (\<lambda>b. ga_source b = Some s)
             (\<lambda>b. b\<lparr>ga_code := code, ga_name := name, ga_type := ty, ga_currency := currency,
                ga_active := active\<rparr>)
             (db_accounts d)\<rparr>)
       | None \<Rightarrow>
           if list_ex (\<lambda>b. ga_code b = code) (db_accounts d) then Inl ErrGLAccountCodeConflict
           else if u \<in> ga_id ` set (db_accounts d) then Inl ErrDB
           else Inr (u, d\<lparr>db_accounts := db_accounts d @
             [\<lparr>ga_id = u, ga_code = code, ga_name = name, ga_type = ty, ga_currency = currency,
               ga_active = active, ga_source = Some s\<rparr>]\<rparr>))))"

definition IDByCode :: "string \<Rightarrow> (string \<times> bool) dbm" where
  "IDByCode code =
     query (\<lambda>d. case List.find (\<lambda>a. ga_code a = code) (db_accounts d) of
       None \<Rightarrow> Inl ErrNotFound
     | Some a \<Rightarrow> Inr (ga_id a, ga_active a))"

section \<open>Journal entries\<close>

text \<open>One \<open>INSERT INTO journal_lines\<close> with the table's checks and foreign keys.\<close>

definition insert_line :: "env \<Rightarrow> string \<Rightarrow> string \<times> i64 \<times> i64 \<Rightarrow> unit dbm" where
  "insert_line E entry = (\<lambda>(acct, debit, credit).
     stmt (\<lambda>d. uuid_arg E acct (\<lambda>a.
       if debit <s 0 \<or> credit <s 0 \<or> (debit \<noteq> 0 \<and> credit \<noteq> 0) then Inl ErrDB
       else if a \<notin> ga_id ` set (db_accounts d) \<or> entry \<notin> je_id ` set (db_entries d) then Inl ErrDB
       else Inr ((), d\<lparr>db_lines := db_lines d @
         [\<lparr>jl_entry = entry, jl_account = a, jl_debit = sint debit, jl_credit = sint credit\<rparr>]\<rparr>))))"

definition insert_entry :: "env \<Rightarrow> JEntry \<Rightarrow> string dbm" where
  "insert_entry E e =
     bindM fresh_id (\<lambda>u. bindM now (\<lambda>t. stmt (\<lambda>d.
       case e_pgdate E (e_date e) of
         None \<Rightarrow> Inl ErrDB
       | Some dt \<Rightarrow>
           nullable_uuid E (e_source_id e) (\<lambda>sid.
             if u \<in> je_id ` set (db_entries d) then Inl ErrDB
             else Inr (u, d\<lparr>db_entries := db_entries d @
               [\<lparr>je_id = u, je_date = dt, je_description = e_description e,
                 je_source_type = nullable (e_source_type e), je_source_id = sid,
                 je_posted = t\<rparr>]\<rparr>)))))"

definition JournalEntry_CreateTx :: "env \<Rightarrow> JEntry \<Rightarrow> (string \<times> i64 \<times> i64) list \<Rightarrow> string dbm" where
  "JournalEntry_CreateTx E e rows =
     (if rows = [] then fail ErrNoJournalLines
      else bindM (insert_entry E e) (\<lambda>u. thenM (forEach rows (insert_line E u)) (ret u)))"

definition ExistsForSource :: "env \<Rightarrow> string \<Rightarrow> string \<Rightarrow> bool dbm" where
  "ExistsForSource E st sid =
     query (\<lambda>d. uuid_arg E sid (\<lambda>u.
       Inr (list_ex (\<lambda>e. je_source_type e = Some st \<and> je_source_id e = Some u) (db_entries d))))"

section \<open>The period check\<close>

definition covers :: "fields \<Rightarrow> date \<Rightarrow> bool" where
  "covers p day \<longleftrightarrow>
     (let s = str_field p ''start_date''; e = str_field p ''end_date'' in
      s \<noteq> [] \<and> e \<noteq> [] \<and>
      (case (ParseDate s, ParseDate e) of
         (Some from, Some to) \<Rightarrow> \<not> date_before day from \<and> \<not> date_before to day
       | _ \<Rightarrow> False))"

definition period_shut :: "fields \<Rightarrow> bool" where
  "period_shut p \<longleftrightarrow> str_field p ''status'' = ''closed'' \<or> str_field p ''status'' = ''locked''"

definition checkPeriodOpen :: "string \<Rightarrow> unit dbm" where
  "checkPeriodOpen day =
     (if day = [] then ret ()
      else case ParseDate day of
        None \<Rightarrow> fail ErrInvalidDate
      | Some dt \<Rightarrow>
          bindM (ListTx ''Period'') (\<lambda>ps.
            guardM (first_error
              (\<lambda>p. check (covers (rec_data p) dt \<and> period_shut (rec_data p)) ErrPeriodClosed) ps)))"

section \<open>Posting\<close>

text \<open>The loop that resolves account codes.\<close>

fun resolve_lines :: "Line list \<Rightarrow> (string \<times> i64 \<times> i64) list dbm" where
  "resolve_lines [] = ret []"
| "resolve_lines (l # ls) =
     bindM (IDByCode (ln_account l)) (\<lambda>(u, active).
       if \<not> active then fail (ErrInactiveAccount (ln_account l))
       else bindM (resolve_lines ls) (\<lambda>rs. ret ((u, ln_debit l, ln_credit l) # rs)))"

definition entry_diff :: "JEntry \<Rightarrow> fields" where
  "entry_diff e =
     fmupd ''source_id'' (VStr (e_source_id e)) (fmupd ''source_type'' (VStr (e_source_type e))
       (fmupd ''description'' (VStr (e_description e)) (fmupd ''date'' (VStr (e_date e)) fmempty)))"

definition PostTx :: "env \<Rightarrow> JEntry \<Rightarrow> Actor \<Rightarrow> string dbm" where
  "PostTx E e actor =
     thenM (guardM (Entry_Validate e))
     (thenM (checkPeriodOpen (e_date e))
     (bindM (resolve_lines (e_lines e)) (\<lambda>rows.
      bindM (JournalEntry_CreateTx E e rows) (\<lambda>u.
      thenM (write_audit E ''JournalEntry'' u ActionCreate actor (Some (entry_diff e)))
      (ret u)))))"

definition Post :: "env \<Rightarrow> JEntry \<Rightarrow> Actor \<Rightarrow> string dbm" where
  "Post E e actor = in_tx (PostTx E e actor)"

section \<open>Balances\<close>

definition net :: "jlrow \<Rightarrow> int" where
  "net l = jl_debit l - jl_credit l"

definition line_date :: "db \<Rightarrow> jlrow \<Rightarrow> date option" where
  "line_date d l = map_option je_date (List.find (\<lambda>e. je_id e = jl_entry l) (db_entries d))"

record GLAccountBalance =
  bal_code :: string
  bal_name :: string
  bal_type :: string
  bal_opening :: int
  bal_closing :: int

definition balance_where :: "db \<Rightarrow> (date \<Rightarrow> bool) \<Rightarrow> garow \<Rightarrow> int" where
  "balance_where d P a =
     sum_list (map net (filter (\<lambda>l. jl_account l = ga_id a \<and>
       (case line_date d l of Some dt \<Rightarrow> P dt | None \<Rightarrow> False)) (db_lines d)))"

text \<open>
  The sums are \<open>numeric\<close> in Postgres; scanning one that does not fit an \<open>int64\<close> fails. Codes
  are unique, so each account is a group of its own.
\<close>

definition BalancesForRange :: "env \<Rightarrow> string \<Rightarrow> string \<Rightarrow> GLAccountBalance list dbm" where
  "BalancesForRange E from to =
     query (\<lambda>d. case (e_pgdate E from, e_pgdate E to) of
       (Some f, Some t) \<Rightarrow>
         (let bs = map (\<lambda>a. \<lparr>bal_code = ga_code a, bal_name = ga_name a, bal_type = ga_type a,
                bal_opening = balance_where d (\<lambda>dt. date_before dt f) a,
                bal_closing = balance_where d (\<lambda>dt. \<not> date_before t dt) a\<rparr>)
              (sort_key ga_code (db_accounts d))
          in if list_all (\<lambda>b. fits64 (bal_opening b) \<and> fits64 (bal_closing b)) bs then Inr bs
             else Inl ErrDB)
     | _ \<Rightarrow> Inl ErrDB)"

section \<open>What validation means\<close>

definition total_debit :: "Line list \<Rightarrow> int" where
  "total_debit ls = sum_list (map (\<lambda>l. sint (ln_debit l)) ls)"

definition total_credit :: "Line list \<Rightarrow> int" where
  "total_credit ls = sum_list (map (\<lambda>l. sint (ln_credit l)) ls)"

text \<open>A line on exactly one side, with a positive amount, on a named account.\<close>

definition one_sided :: "Line \<Rightarrow> bool" where
  "one_sided l \<longleftrightarrow> ln_account l \<noteq> [] \<and>
     (0 <s ln_debit l \<and> ln_credit l = 0 \<or> ln_debit l = 0 \<and> 0 <s ln_credit l)"

lemma line_ok_iff:
  "(ln_account l \<noteq> [] \<and> \<not> (ln_debit l <s 0 \<or> ln_credit l <s 0) \<and>
     (ln_debit l = 0) \<noteq> (ln_credit l = 0)) \<longleftrightarrow> one_sided l"
  by (auto simp: one_sided_def word_sless_alt) (metis less_linear sint_0 signed_word_eqI)+

lemma word_of_int_sint_add: "word_of_int (sint x + n) = x + word_of_int n"
  by (simp flip: wi_hom_add)

lemma validate_lines_Inr_iff:
  "validate_lines ls td tc = Inr (d, c) \<longleftrightarrow>
     (\<forall>l \<in> set ls. one_sided l) \<and>
     d = td + word_of_int (total_debit ls) \<and> c = tc + word_of_int (total_credit ls)"
proof (induction ls arbitrary: td tc)
  case Nil
  then show ?case by (auto simp: total_debit_def total_credit_def)
next
  case (Cons l ls)
  then show ?case
    using line_ok_iff [of l]
    by (auto simp: total_debit_def total_credit_def word_of_int_sint_add add.assoc)
qed

end
