(* ===== verification/Books.thy ===== *)
theory Books
  imports Ledger
begin

text \<open>
  What posting does to the books, and the invariant every history of postings keeps: each
  journal entry balances, so every trial balance sums to zero.
\<close>

section \<open>A successful posting\<close>

text \<open>The journal line stored for a line of an entry.\<close>

definition posted :: "env \<Rightarrow> db \<Rightarrow> string \<Rightarrow> Line \<Rightarrow> jlrow \<Rightarrow> bool" where
  "posted E D u l jl \<longleftrightarrow>
     (\<exists>a \<in> set (db_accounts D). ga_code a = ln_account l \<and> ga_active a \<and>
        e_uuid E (ga_id a) = Some (jl_account jl)) \<and>
     jl_account jl \<in> ga_id ` set (db_accounts D) \<and>
     jl_entry jl = u \<and> jl_debit jl = sint (ln_debit l) \<and> jl_credit jl = sint (ln_credit l)"

lemma reads_resolve_lines [reads_intro]: "reads (resolve_lines ls)"
proof (induction ls)
  case Nil
  then show ?case by (simp add: reads_ret)
next
  case (Cons l ls)
  then show ?case by (auto simp: IDByCode_def intro!: reads_intro split: prod.split)
qed

definition resolved :: "db \<Rightarrow> Line \<Rightarrow> string \<times> i64 \<times> i64 \<Rightarrow> bool" where
  "resolved D l = (\<lambda>(u, d, c).
     (\<exists>a \<in> set (db_accounts D). ga_code a = ln_account l \<and> ga_active a \<and> ga_id a = u) \<and>
     d = ln_debit l \<and> c = ln_credit l)"

lemma resolve_lines_success:
  "resolve_lines ls w = (Inr rows, w') \<Longrightarrow> list_all2 (resolved (w_db w)) ls rows"
proof (induction ls arbitrary: w rows)
  case (Cons l ls)
  from Cons.prems obtain u w1 rs where id: "IDByCode (ln_account l) w = (Inr (u, True), w1)"
    and rest: "resolve_lines ls w1 = (Inr rs, w')" and rows: "rows = (u, ln_debit l, ln_credit l) # rs"
    by (auto simp: bindM_Inr_iff split: if_splits)
  from id have w1: "w_db w1 = w_db w" unfolding IDByCode_def by (rule query_db)
  from id obtain a where "a \<in> set (db_accounts (w_db w))" "ga_code a = ln_account l" "ga_id a = u" "ga_active a"
    by (auto simp: IDByCode_def query_Inr_iff split: option.splits dest!: find_SomeD)
  then have "resolved (w_db w) l (u, ln_debit l, ln_credit l)" by (auto simp: resolved_def)
  then show ?case using Cons.IH [OF rest] rows w1 by simp
qed simp

definition stored_line :: "env \<Rightarrow> db \<Rightarrow> string \<Rightarrow> string \<times> i64 \<times> i64 \<Rightarrow> jlrow \<Rightarrow> bool" where
  "stored_line E D u = (\<lambda>(acct, d, c) jl.
     e_uuid E acct = Some (jl_account jl) \<and> jl_account jl \<in> ga_id ` set (db_accounts D) \<and>
     jl_entry jl = u \<and> jl_debit jl = sint d \<and> jl_credit jl = sint c)"

lemma insert_line_success:
  assumes "insert_line E u row w = (Inr x, w')"
  shows "\<exists>jl. stored_line E (w_db w) u row jl \<and> w_db w' = (w_db w)\<lparr>db_lines := db_lines (w_db w) @ [jl]\<rparr>"
proof -
  obtain acct d c where row: "row = (acct, d, c)" by (cases row)
  with assms obtain a where "e_uuid E acct = Some a" "a \<in> ga_id ` set (db_accounts (w_db w))"
    "w_db w' = (w_db w)\<lparr>db_lines := db_lines (w_db w) @
       [\<lparr>jl_entry = u, jl_account = a, jl_debit = sint d, jl_credit = sint c\<rparr>]\<rparr>"
    by (auto simp: insert_line_def stmt_Inr_iff split: if_splits)
  then show ?thesis
    by (intro exI [of _ "\<lparr>jl_entry = u, jl_account = a, jl_debit = sint d, jl_credit = sint c\<rparr>"])
      (simp add: stored_line_def row)
qed

lemma insert_lines_success:
  "forEach rows (insert_line E u) w = (Inr x, w') \<Longrightarrow>
     \<exists>ls. list_all2 (stored_line E (w_db w) u) rows ls \<and>
       w_db w' = (w_db w)\<lparr>db_lines := db_lines (w_db w) @ ls\<rparr>"
proof (induction rows arbitrary: w)
  case Nil
  then show ?case by (auto intro: exI [of _ "[]"])
next
  case (Cons row rows)
  then obtain y w1 where one: "insert_line E u row w = (Inr y, w1)"
    and rest: "forEach rows (insert_line E u) w1 = (Inr x, w')"
    by (auto simp: thenM_Inr_iff)
  obtain jl where jl: "stored_line E (w_db w) u row jl" "w_db w1 = (w_db w)\<lparr>db_lines := db_lines (w_db w) @ [jl]\<rparr>"
    using insert_line_success [OF one] by blast
  obtain ls where ls: "list_all2 (stored_line E (w_db w1) u) rows ls"
    "w_db w' = (w_db w1)\<lparr>db_lines := db_lines (w_db w1) @ ls\<rparr>"
    using Cons.IH [OF rest] by blast
  have "stored_line E (w_db w1) u = stored_line E (w_db w) u"
    by (auto simp: stored_line_def jl(2) fun_eq_iff)
  then show ?case using jl ls by (intro exI [of _ "jl # ls"]) simp
qed

lemma reads_checkPeriodOpen [reads_intro]: "reads (checkPeriodOpen day)"
  unfolding checkPeriodOpen_def by (intro reads_intro)

lemma checkPeriodOpen_success:
  assumes "checkPeriodOpen day w = (Inr x, w')" "day \<noteq> []"
  obtains dt where "ParseDate day = Some dt"
    "\<forall>p \<in> set (db_records (w_db w)). live ''Period'' p \<longrightarrow> covers (rr_data p) dt \<longrightarrow> \<not> period_shut (rr_data p)"
  using assms
  by (auto simp: checkPeriodOpen_def ListTx_def run_iffs to_record_def split: option.splits)

lemma PostTx_entry:
  assumes "PostTx E e actor w = (Inr u, w')"
  obtains dt sid t ls where "Entry_Validate e = None" "accountable actor"
    "e_date e = [] \<or> (\<exists>day. ParseDate (e_date e) = Some day \<and>
       (\<forall>p \<in> set (db_records (w_db w)). live ''Period'' p \<longrightarrow> covers (rr_data p) day \<longrightarrow> \<not> period_shut (rr_data p)))"
    "e_pgdate E (e_date e) = Some dt"
    "(if e_source_id e = [] then sid = None else e_uuid E (e_source_id e) = sid \<and> sid \<noteq> None)"
    "u \<notin> je_id ` set (db_entries (w_db w))"
    "list_all2 (posted E (w_db w) u) (e_lines e) ls"
    "w_db w' = (w_db w)\<lparr>
       db_entries := db_entries (w_db w) @
         [\<lparr>je_id = u, je_date = dt, je_description = e_description e,
           je_source_type = nullable (e_source_type e), je_source_id = sid, je_posted = t\<rparr>],
       db_lines := db_lines (w_db w) @ ls,
       db_audit := db_audit (w_db w) @
         [audit_of E ''JournalEntry'' u ActionCreate actor (Some (entry_diff e))]\<rparr>"
proof -
  from assms obtain w1 w2 w3 rows where v: "Entry_Validate e = None"
    and per: "checkPeriodOpen (e_date e) w = (Inr (), w1)"
    and res: "resolve_lines (e_lines e) w1 = (Inr rows, w2)"
    and je: "JournalEntry_CreateTx E e rows w2 = (Inr u, w3)"
    and aud: "write_audit E ''JournalEntry'' u ActionCreate actor (Some (entry_diff e)) w3 = (Inr (), w')"
    by (auto simp: PostTx_def thenM_Inr_iff bindM_Inr_iff)
  have w1: "w_db w1 = w_db w" using reads_checkPeriodOpen per by (rule readsD)
  have w2: "w_db w2 = w_db w" using reads_resolve_lines res w1 by (metis readsD)
  from je obtain w4 y where ent: "insert_entry E e w2 = (Inr u, w4)"
    and lin: "forEach rows (insert_line E u) w4 = (Inr y, w3)"
    by (auto simp: JournalEntry_CreateTx_def bindM_Inr_iff thenM_Inr_iff split: if_splits)
  from ent obtain dt sid t where dt: "e_pgdate E (e_date e) = Some dt"
    and sid: "(if e_source_id e = [] then sid = None else e_uuid E (e_source_id e) = sid \<and> sid \<noteq> None)"
    and new: "u \<notin> je_id ` set (db_entries (w_db w))"
    and w4: "w_db w4 = (w_db w)\<lparr>db_entries := db_entries (w_db w) @
         [\<lparr>je_id = u, je_date = dt, je_description = e_description e,
           je_source_type = nullable (e_source_type e), je_source_id = sid, je_posted = t\<rparr>]\<rparr>"
    by (auto simp: insert_entry_def run_iffs nullable_uuid_def w2 split: option.splits if_splits)
  obtain ls where ls: "list_all2 (stored_line E (w_db w4) u) rows ls"
    and w3: "w_db w3 = (w_db w4)\<lparr>db_lines := db_lines (w_db w4) @ ls\<rparr>"
    using insert_lines_success [OF lin] by blast
  have "list_all2 (resolved (w_db w)) (e_lines e) rows" using resolve_lines_success [OF res] w1 by simp
  then have "list_all2 (posted E (w_db w) u) (e_lines e) ls"
    using ls
    by (rule list_all2_trans [rotated])
      (auto simp: posted_def resolved_def stored_line_def w4)
  moreover have "e_date e = [] \<or> (\<exists>day. ParseDate (e_date e) = Some day \<and>
       (\<forall>p \<in> set (db_records (w_db w)). live ''Period'' p \<longrightarrow> covers (rr_data p) day \<longrightarrow> \<not> period_shut (rr_data p)))"
    using per by (cases "e_date e = []") (auto elim!: checkPeriodOpen_success)
  moreover have "accountable actor" "w_db w' = (w_db w3)\<lparr>db_audit := db_audit (w_db w3) @
         [audit_of E ''JournalEntry'' u ActionCreate actor (Some (entry_diff e))]\<rparr>"
    using write_audit_db [OF aud] by blast+
  ultimately show thesis using that v dt sid new by (simp add: w3 w4)
qed

lemma PostTx_success:
  assumes "PostTx E e actor w = (Inr u, w')"
  obtains dt sid t ls where "Entry_Validate e = None" "accountable actor"
    "e_date e = [] \<or> (\<exists>day. ParseDate (e_date e) = Some day \<and>
       (\<forall>p \<in> set (db_records (w_db w)). live ''Period'' p \<longrightarrow> covers (rr_data p) day \<longrightarrow> \<not> period_shut (rr_data p)))"
    "e_pgdate E (e_date e) = Some dt" "u \<notin> je_id ` set (db_entries (w_db w))"
    "list_all2 (posted E (w_db w) u) (e_lines e) ls"
    "w_db w' = (w_db w)\<lparr>
       db_entries := db_entries (w_db w) @
         [\<lparr>je_id = u, je_date = dt, je_description = e_description e,
           je_source_type = nullable (e_source_type e), je_source_id = sid, je_posted = t\<rparr>],
       db_lines := db_lines (w_db w) @ ls,
       db_audit := db_audit (w_db w) @
         [audit_of E ''JournalEntry'' u ActionCreate actor (Some (entry_diff e))]\<rparr>"
  using PostTx_entry [OF assms] that by metis

section \<open>The invariant of the books\<close>

text \<open>
  Primary keys and foreign keys, the checks on journal lines, and: the lines of each entry
  balance as true integers.
\<close>

definition entry_net :: "db \<Rightarrow> string \<Rightarrow> int" where
  "entry_net D u = sum_list (map net (filter (\<lambda>l. jl_entry l = u) (db_lines D)))"

definition books_ok :: "db \<Rightarrow> bool" where
  "books_ok D \<longleftrightarrow>
     distinct (map ga_id (db_accounts D)) \<and> distinct (map ga_code (db_accounts D)) \<and>
     distinct (map je_id (db_entries D)) \<and>
     (\<forall>l \<in> set (db_lines D). jl_account l \<in> ga_id ` set (db_accounts D) \<and>
        jl_entry l \<in> je_id ` set (db_entries D) \<and>
        (0 < jl_debit l \<and> jl_credit l = 0 \<or> jl_debit l = 0 \<and> 0 < jl_credit l)) \<and>
     (\<forall>e \<in> set (db_entries D). entry_net D (je_id e) = 0)"

lemma books_ok_cong:
  assumes "db_entries D' = db_entries D" "db_lines D' = db_lines D" "db_accounts D' = db_accounts D"
  shows "books_ok D' \<longleftrightarrow> books_ok D"
  by (simp add: books_ok_def entry_net_def assms)

text \<open>An entry whose totals stay below \<open>2 ^ 63\<close>: there the wrapped sums are the true ones.\<close>

definition small_totals :: "JEntry \<Rightarrow> bool" where
  "small_totals e \<longleftrightarrow> total_debit (e_lines e) < 2 ^ 63 \<and> total_credit (e_lines e) < 2 ^ 63"

lemma one_sided_nonneg: "one_sided l \<Longrightarrow> 0 \<le> sint (ln_debit l) \<and> 0 \<le> sint (ln_credit l)"
  by (auto simp: one_sided_def word_sless_alt)

lemma totals_nonneg:
  assumes "\<forall>l \<in> set ls. one_sided l"
  shows "0 \<le> total_debit ls" "0 \<le> total_credit ls"
  using assms by (auto simp: total_debit_def total_credit_def one_sided_nonneg intro!: sum_list_nonneg)

lemma Entry_Validate_None_iff:
  "Entry_Validate e = None \<longleftrightarrow>
     e_lines e \<noteq> [] \<and> (\<forall>l \<in> set (e_lines e). one_sided l) \<and>
     (word_of_int (total_debit (e_lines e)) :: i64) = word_of_int (total_credit (e_lines e))"
proof (cases "validate_lines (e_lines e) 0 0")
  case (Inl er)
  moreover have "\<not> (\<forall>l \<in> set (e_lines e). one_sided l)"
    using validate_lines_Inr_iff [of "e_lines e" 0 0] Inl by fastforce
  ultimately show ?thesis by (simp add: Entry_Validate_def)
next
  case (Inr p)
  then obtain d c where dc: "validate_lines (e_lines e) 0 0 = Inr (d, c)" by (cases p) simp
  then have "Entry_Validate e = None \<longleftrightarrow> e_lines e \<noteq> [] \<and> d = c"
    by (simp add: Entry_Validate_def)
  then show ?thesis using dc unfolding validate_lines_Inr_iff by auto
qed

lemma Entry_Validate_balanced:
  assumes "Entry_Validate e = None" "small_totals e"
  shows "total_debit (e_lines e) = total_credit (e_lines e)"
proof -
  have v: "\<forall>l \<in> set (e_lines e). one_sided l"
    "(word_of_int (total_debit (e_lines e)) :: i64) = word_of_int (total_credit (e_lines e))"
    using assms(1) by (simp_all add: Entry_Validate_None_iff)
  have "0 \<le> total_debit (e_lines e)" "0 \<le> total_credit (e_lines e)" using totals_nonneg [OF v(1)] .
  then have "sint (word_of_int (total_debit (e_lines e)) :: i64) = total_debit (e_lines e)"
    "sint (word_of_int (total_credit (e_lines e)) :: i64) = total_credit (e_lines e)"
    using assms(2) by (auto simp: small_totals_def fits64_def intro!: sint_word_of_int64)
  then show ?thesis using v(2) by metis
qed

lemma posted_net: "list_all2 (posted E D u) ls jls \<Longrightarrow> sum_list (map net jls) = total_debit ls - total_credit ls"
  by (induction rule: list_all2_induct) (auto simp: total_debit_def total_credit_def posted_def net_def)

lemma posted_lines:
  assumes "list_all2 (posted E D u) ls jls" "jl \<in> set jls"
  shows "\<exists>l \<in> set ls. posted E D u l jl"
  using assms by (induction rule: list_all2_induct) auto

lemma one_sided_posted:
  assumes "posted E D u l jl" "one_sided l"
  shows "0 < jl_debit jl \<and> jl_credit jl = 0 \<or> jl_debit jl = 0 \<and> 0 < jl_credit jl"
  using assms by (auto simp: posted_def one_sided_def word_sless_alt)

lemma Post_books:
  assumes inv: "books_ok (w_db w)" and small: "small_totals e" and run: "PostTx E e actor w = (Inr u, w')"
  shows "books_ok (w_db w')"
proof -
  from run obtain dt sid t ls where v: "Entry_Validate e = None"
    and new: "u \<notin> je_id ` set (db_entries (w_db w))"
    and ls: "list_all2 (posted E (w_db w) u) (e_lines e) ls"
    and w': "w_db w' = (w_db w)\<lparr>
       db_entries := db_entries (w_db w) @
         [\<lparr>je_id = u, je_date = dt, je_description = e_description e,
           je_source_type = nullable (e_source_type e), je_source_id = sid, je_posted = t\<rparr>],
       db_lines := db_lines (w_db w) @ ls,
       db_audit := db_audit (w_db w) @
         [audit_of E ''JournalEntry'' u ActionCreate actor (Some (entry_diff e))]\<rparr>"
    by (rule PostTx_success)
  have entry: "jl_entry l = u" if "l \<in> set ls" for l
    using posted_lines [OF ls that] by (auto simp: posted_def)
  have old: "jl_entry l \<noteq> u" if "l \<in> set (db_lines (w_db w))" for l
    using inv new that by (auto simp: books_ok_def)
  have all: "filter (\<lambda>l. jl_entry l = u) ls = ls" using entry by simp
  have none: "filter (\<lambda>l. jl_entry l = u) (db_lines (w_db w)) = []" using old by (simp add: filter_empty_conv)
  have "sum_list (map net ls) = 0"
    using posted_net [OF ls] Entry_Validate_balanced [OF v small] by simp
  then have own: "entry_net (w_db w') u = 0" by (simp add: entry_net_def w' all none)
  have others: "entry_net (w_db w') (je_id x) = 0" if "x \<in> set (db_entries (w_db w))" for x
  proof -
    have "je_id x \<noteq> u" using that new by auto
    then have "filter (\<lambda>l. jl_entry l = je_id x) ls = []" using entry by (auto simp: filter_empty_conv)
    then show ?thesis using inv that by (simp add: entry_net_def w' books_ok_def)
  qed
  have lines: "jl_account l \<in> ga_id ` set (db_accounts (w_db w)) \<and> jl_entry l = u \<and>
      (0 < jl_debit l \<and> jl_credit l = 0 \<or> jl_debit l = 0 \<and> 0 < jl_credit l)" if "l \<in> set ls" for l
  proof -
    obtain x where "x \<in> set (e_lines e)" "posted E (w_db w) u x l"
      using posted_lines [OF ls] \<open>l \<in> set ls\<close> by blast
    moreover from this have "one_sided x" using v by (simp add: Entry_Validate_None_iff)
    ultimately have "0 < jl_debit l \<and> jl_credit l = 0 \<or> jl_debit l = 0 \<and> 0 < jl_credit l"
      using one_sided_posted by blast
    then show ?thesis using \<open>posted E (w_db w) u x l\<close> unfolding posted_def by blast
  qed
  show ?thesis
    using inv new own others lines by (auto simp: books_ok_def w')
qed

section \<open>Trial balances\<close>

lemma line_date_entry:
  assumes "distinct (map je_id (db_entries D))" "x \<in> set (db_entries D)" "jl_entry l = je_id x"
  shows "line_date D l = Some (je_date x)"
proof -
  have "List.find (\<lambda>e. je_id e = jl_entry l) (db_entries D) = Some x"
  proof (cases "List.find (\<lambda>e. je_id e = jl_entry l) (db_entries D)")
    case None
    then show ?thesis using assms by (auto simp: find_None_iff)
  next
    case (Some y)
    then have "y \<in> set (db_entries D)" "je_id y = je_id x" using find_SomeD [OF Some] assms(3) by auto
    then show ?thesis using assms(1,2) Some by (metis distinct_map inj_onD)
  qed
  then show ?thesis by (simp add: line_date_def)
qed

text \<open>Over any set of dates, the balances of all accounts sum to zero.\<close>

lemma balances_sum_zero:
  assumes inv: "books_ok D"
  shows "sum_list (map (balance_where D P) (db_accounts D)) = 0"
proof -
  let ?Q = "\<lambda>l. case line_date D l of Some dt \<Rightarrow> P dt | None \<Rightarrow> False"
  let ?QE = "\<lambda>x. P (je_date x)"
  have ids: "distinct (map ga_id (db_accounts D))" "distinct (map je_id (db_entries D))"
    using inv by (simp_all add: books_ok_def)
  have "sum_list (map (balance_where D P) (db_accounts D)) = sum_list (map net (filter ?Q (db_lines D)))"
    unfolding balance_where_def
    by (rule sum_list_groups [OF ids(1)]) (use inv in \<open>auto simp: books_ok_def\<close>)
  also have "\<dots> = sum_list (map (\<lambda>x. sum_list (map net (filter (\<lambda>l. jl_entry l = je_id x \<and> ?Q l) (db_lines D)))) (db_entries D))"
    by (rule sum_list_groups [OF ids(2), symmetric]) (use inv in \<open>auto simp: books_ok_def\<close>)
  also have "\<dots> = sum_list (map (\<lambda>x. 0) (db_entries D))"
  proof (rule arg_cong [of _ _ sum_list], rule map_cong [OF refl])
    fix x assume x: "x \<in> set (db_entries D)"
    have "filter (\<lambda>l. jl_entry l = je_id x \<and> ?Q l) (db_lines D) =
        (if ?QE x then filter (\<lambda>l. jl_entry l = je_id x) (db_lines D) else [])"
      using line_date_entry [OF ids(2) x] by (auto intro: filter_cong simp: filter_empty_conv)
    then show "sum_list (map net (filter (\<lambda>l. jl_entry l = je_id x \<and> ?Q l) (db_lines D))) = 0"
      using inv x by (auto simp: books_ok_def entry_net_def)
  qed
  finally show ?thesis by simp
qed

section \<open>Histories of the books\<close>

lemma UpsertByCode_success:
  assumes "UpsertByCode code name ty cur act w = (Inr u, w')"
  obtains (upd) "w_db w' = (w_db w)\<lparr>db_accounts := upd_where (\<lambda>b. ga_code b = code)
             (\<lambda>b. b\<lparr>ga_name := name, ga_type := ty, ga_currency := cur, ga_active := act\<rparr>)
             (db_accounts (w_db w))\<rparr>"
    | (ins) v where "code \<notin> ga_code ` set (db_accounts (w_db w))"
        "v \<notin> ga_id ` set (db_accounts (w_db w))"
        "w_db w' = (w_db w)\<lparr>db_accounts := db_accounts (w_db w) @
             [\<lparr>ga_id = v, ga_code = code, ga_name = name, ga_type = ty, ga_currency = cur,
               ga_active = act, ga_source = None\<rparr>]\<rparr>"
proof (cases "List.find (\<lambda>a. ga_code a = code) (db_accounts (w_db w))")
  case None
  then have "code \<notin> ga_code ` set (db_accounts (w_db w))" by (auto simp: find_None_iff)
  then show thesis
    using assms None by (auto simp: UpsertByCode_def run_iffs intro: ins split: if_splits)
next
  case (Some a)
  then show thesis
    using assms by (auto simp: UpsertByCode_def run_iffs intro: upd split: if_splits)
qed

lemma UpsertByCode_books:
  assumes "books_ok (w_db w)" "UpsertByCode code name ty cur act w = (Inr u, w')"
  shows "books_ok (w_db w')"
  using assms(2)
proof (cases rule: UpsertByCode_success)
  case upd
  then show ?thesis using assms(1) by (simp add: books_ok_def entry_net_def map_upd_where image_upd_where)
next
  case (ins v)
  then show ?thesis using assms(1) by (auto simp: books_ok_def entry_net_def ins(3))
qed

lemma distinct_code_update:
  assumes d: "distinct (map ga_code as)" and ids: "distinct (map ga_id as)"
    and free: "\<forall>b \<in> set as. ga_code b = code \<longrightarrow> ga_source b = Some s"
    and one: "\<forall>a \<in> set as. \<forall>b \<in> set as. ga_source a = Some s \<longrightarrow> ga_source b = Some s \<longrightarrow> ga_id a = ga_id b"
    and g: "\<And>b. ga_code (g b) = code"
  shows "distinct (map ga_code (upd_where (\<lambda>b. ga_source b = Some s) g as))"
  using d ids free one
proof (induction as)
  case Nil
  then show ?case by (simp add: upd_where_def)
next
  case (Cons a as)
  let ?up = "\<lambda>a. if ga_source a = Some s then g a else a"
  have IH: "distinct (map ga_code (upd_where (\<lambda>b. ga_source b = Some s) g as))"
  proof (rule Cons.IH)
    show "distinct (map ga_code as)" "distinct (map ga_id as)" using Cons.prems(1,2) by simp_all
    show "\<forall>b \<in> set as. ga_code b = code \<longrightarrow> ga_source b = Some s"
      "\<forall>a \<in> set as. \<forall>b \<in> set as. ga_source a = Some s \<longrightarrow> ga_source b = Some s \<longrightarrow> ga_id a = ga_id b"
      using Cons.prems(3,4) unfolding list.set by blast+
  qed
  have "ga_code (?up a) \<noteq> ga_code (?up b)" if b: "b \<in> set as" for b
  proof -
    have ne: "ga_code a \<noteq> ga_code b" "ga_id a \<noteq> ga_id b" using Cons.prems(1,2) b by auto
    have "\<not> (ga_source a = Some s \<and> ga_source b = Some s)"
      using Cons.prems(4) b ne(2) unfolding list.set by blast
    moreover have "ga_source a \<noteq> Some s \<Longrightarrow> ga_code a \<noteq> code" "ga_source b \<noteq> Some s \<Longrightarrow> ga_code b \<noteq> code"
      using Cons.prems(3) b unfolding list.set by blast+
    ultimately show ?thesis using ne(1) g by (cases "ga_source a = Some s"; cases "ga_source b = Some s") auto
  qed
  then have "ga_code (?up a) \<notin> ga_code ` set (upd_where (\<lambda>b. ga_source b = Some s) g as)"
    unfolding image_iff in_upd_where Bex_def by metis
  then show ?case using IH unfolding upd_where_simps list.map distinct.simps set_map by blast
qed

text \<open>The unique constraint on the column that links an account to its source record.\<close>

definition sources_ok :: "db \<Rightarrow> bool" where
  "sources_ok D \<longleftrightarrow>
     (\<forall>a \<in> set (db_accounts D). \<forall>b \<in> set (db_accounts D). \<forall>s.
        ga_source a = Some s \<longrightarrow> ga_source b = Some s \<longrightarrow> ga_id a = ga_id b)"

lemma sources_ok_cong: "db_accounts D' = db_accounts D \<Longrightarrow> sources_ok D' = sources_ok D"
  unfolding sources_ok_def by simp

lemma sources_okD:
  "sources_ok D \<Longrightarrow> a \<in> set (db_accounts D) \<Longrightarrow> b \<in> set (db_accounts D) \<Longrightarrow>
     ga_source a = Some s \<Longrightarrow> ga_source b = Some s \<Longrightarrow> ga_id a = ga_id b"
  unfolding sources_ok_def by blast

lemma sources_okI:
  "(\<And>a b s. a \<in> set (db_accounts D) \<Longrightarrow> b \<in> set (db_accounts D) \<Longrightarrow>
     ga_source a = Some s \<Longrightarrow> ga_source b = Some s \<Longrightarrow> ga_id a = ga_id b) \<Longrightarrow> sources_ok D"
  unfolding sources_ok_def by blast

lemma sources_ok_keep:
  assumes ok: "sources_ok D" and g: "\<And>b. ga_source (g b) = ga_source b" "\<And>b. ga_id (g b) = ga_id b"
    and D': "db_accounts D' = upd_where P g (db_accounts D)"
  shows "sources_ok D'"
proof (rule sources_okI)
  have origin: "\<exists>a0 \<in> set (db_accounts D). ga_source a0 = ga_source a \<and> ga_id a0 = ga_id a"
    if "a \<in> set (db_accounts D')" for a
    using that g unfolding D' in_upd_where by (metis (full_types))
  fix a b s assume "a \<in> set (db_accounts D')" "b \<in> set (db_accounts D')" "ga_source a = Some s" "ga_source b = Some s"
  then show "ga_id a = ga_id b" using origin sources_okD [OF ok] by metis
qed

lemma sources_ok_add:
  assumes ok: "sources_ok D" and new: "\<And>s. ga_source a = Some s \<Longrightarrow> Some s \<notin> ga_source ` set (db_accounts D)"
    and D': "db_accounts D' = db_accounts D @ [a]"
  shows "sources_ok D'"
proof (rule sources_okI)
  fix x y s assume xy: "x \<in> set (db_accounts D')" "y \<in> set (db_accounts D')" "ga_source x = Some s" "ga_source y = Some s"
  have mem: "x = a \<or> x \<in> set (db_accounts D)" "y = a \<or> y \<in> set (db_accounts D)" using xy(1,2) by (auto simp: D')
  have old: "Some s \<in> ga_source ` set (db_accounts D)" if "z \<in> set (db_accounts D)" "ga_source z = Some s" for z
    using that by (metis image_eqI)
  show "ga_id x = ga_id y"
    using mem xy(3,4) new old sources_okD [OF ok] by metis
qed

lemma UpsertByCode_sources:
  assumes "sources_ok (w_db w)" "UpsertByCode code name ty cur act w = (Inr u, w')"
  shows "sources_ok (w_db w')"
  using assms(2)
proof (cases rule: UpsertByCode_success)
  case upd
  then show ?thesis by (intro sources_ok_keep [OF assms(1)]) (auto simp: upd)
next
  case (ins v)
  then show ?thesis by (intro sources_ok_add [OF assms(1)]) (auto simp: ins(3))
qed

lemma UpsertBySourceRecord_success:
  assumes "UpsertBySourceRecord E src code name ty cur act w = (Inr u, w')"
  obtains (upd) s where
      "\<forall>b \<in> set (db_accounts (w_db w)). ga_code b = code \<longrightarrow> ga_source b = Some s"
      "w_db w' = (w_db w)\<lparr>db_accounts := upd_where (\<lambda>b. ga_source b = Some s)
        (\<lambda>b. b\<lparr>ga_code := code, ga_name := name, ga_type := ty, ga_currency := cur, ga_active := act\<rparr>)
        (db_accounts (w_db w))\<rparr>"
    | (ins) s v where "Some s \<notin> ga_source ` set (db_accounts (w_db w))"
        "code \<notin> ga_code ` set (db_accounts (w_db w))" "v \<notin> ga_id ` set (db_accounts (w_db w))"
        "w_db w' = (w_db w)\<lparr>db_accounts := db_accounts (w_db w) @
             [\<lparr>ga_id = v, ga_code = code, ga_name = name, ga_type = ty, ga_currency = cur,
               ga_active = act, ga_source = Some s\<rparr>]\<rparr>"
proof -
  from assms obtain s where s: "e_uuid E src = Some s"
    by (auto simp: UpsertBySourceRecord_def run_iffs)
  show thesis
  proof (cases "List.find (\<lambda>a. ga_source a = Some s) (db_accounts (w_db w))")
    case None
    then have "Some s \<notin> ga_source ` set (db_accounts (w_db w))" by (auto simp: find_None_iff)
    then show thesis
      using assms None s
      by (auto simp: UpsertBySourceRecord_def run_iffs list_ex_iff image_iff intro!: ins split: if_splits)
  next
    case (Some a)
    then have "\<forall>b \<in> set (db_accounts (w_db w)). ga_code b = code \<longrightarrow> ga_source b = Some s"
      using assms s by (auto simp: UpsertBySourceRecord_def run_iffs list_ex_iff split: if_splits)
    then show thesis
      using assms Some s by (auto simp: UpsertBySourceRecord_def run_iffs intro!: upd split: if_splits)
  qed
qed

lemma UpsertBySourceRecord_books:
  assumes inv: "books_ok (w_db w)" "sources_ok (w_db w)"
    and run: "UpsertBySourceRecord E src code name ty cur act w = (Inr u, w')"
  shows "books_ok (w_db w') \<and> sources_ok (w_db w')"
  using run
proof (cases rule: UpsertBySourceRecord_success)
  case (upd s)
  have ids: "distinct (map ga_code (db_accounts (w_db w)))" "distinct (map ga_id (db_accounts (w_db w)))"
    using inv(1) by (simp_all add: books_ok_def)
  have one: "\<forall>a \<in> set (db_accounts (w_db w)). \<forall>b \<in> set (db_accounts (w_db w)).
      ga_source a = Some s \<longrightarrow> ga_source b = Some s \<longrightarrow> ga_id a = ga_id b"
    using inv(2) unfolding sources_ok_def by blast
  have "distinct (map ga_code (db_accounts (w_db w')))"
    unfolding upd(2) db.select_convs db.update_convs db.surjective
    by simp (rule distinct_code_update [OF ids upd(1) one], simp)
  then have "books_ok (w_db w')"
    using inv(1) by (simp add: upd(2) books_ok_def entry_net_def map_upd_where image_upd_where)
  moreover have "sources_ok (w_db w')"
    by (rule sources_ok_keep [OF inv(2)]) (auto simp: upd(2))
  ultimately show ?thesis by blast
next
  case (ins s v)
  have "books_ok (w_db w')" using inv(1) ins(2,3) by (auto simp: books_ok_def entry_net_def ins(4))
  moreover have "sources_ok (w_db w')"
    by (rule sources_ok_add [OF inv(2)]) (use ins(1) in \<open>auto simp: ins(4)\<close>)
  ultimately show ?thesis by blast
qed

text \<open>
  A change of the books: a posting (with totals below \<open>2 ^ 63\<close>), an account created or
  changed, or any other write of the program, which leaves the ledger's tables alone.
\<close>

inductive ledger_step :: "env \<Rightarrow> db \<Rightarrow> db \<Rightarrow> bool" for E :: env where
  step_post: "small_totals e \<Longrightarrow> Post E e actor w = (rp, w') \<Longrightarrow> ledger_step E (w_db w) (w_db w')"
| step_code: "UpsertByCode code name ty cur act w = (Inr uc, w') \<Longrightarrow> ledger_step E (w_db w) (w_db w')"
| step_source: "UpsertBySourceRecord E src code name ty cur act w = (Inr us, w') \<Longrightarrow>
    ledger_step E (w_db w) (w_db w')"
| step_other: "db_entries D' = db_entries D \<Longrightarrow> db_lines D' = db_lines D \<Longrightarrow>
    db_accounts D' = db_accounts D \<Longrightarrow> ledger_step E D D'"

inductive_cases ledger_stepE: "ledger_step E D D'"

lemma Post_success:
  assumes "Post E e actor w = (Inr u, w')"
  obtains w1 w2 where "w_db w1 = w_db w" "PostTx E e actor w1 = (Inr u, w2)" "w_db w' = w_db w2"
  using assms unfolding Post_def by (rule in_tx_success)

lemma Post_accounts: "PostTx E e actor w = (Inr u, w') \<Longrightarrow> db_accounts (w_db w') = db_accounts (w_db w)"
  by (erule PostTx_success) simp

lemma ledger_step_inv:
  assumes "ledger_step E D D'" "books_ok D \<and> sources_ok D"
  shows "books_ok D' \<and> sources_ok D'"
  using assms(1)
proof cases
  case (step_post e actor w rp w')
  show ?thesis
  proof (cases rp)
    case (Inl er)
    then show ?thesis using step_post assms(2) in_tx_error unfolding Post_def by metis
  next
    case (Inr u)
    from step_post(4) [unfolded Inr] obtain w1 w2
      where p: "w_db w1 = w_db w" "PostTx E e actor w1 = (Inr u, w2)" "w_db w' = w_db w2"
      by (rule Post_success)
    have "books_ok (w_db w2)" by (rule Post_books [OF _ step_post(3) p(2)]) (use assms(2) p step_post in simp)
    moreover have "sources_ok (w_db w2)"
      using assms(2) sources_ok_cong [OF Post_accounts [OF p(2)]] step_post(1) p(1) by simp
    ultimately show ?thesis using p(3) step_post(2) by simp
  qed
next
  case (step_code code name ty cur act w uc w')
  then show ?thesis using assms(2) UpsertByCode_books UpsertByCode_sources by blast
next
  case (step_source src code name ty cur act w us w')
  then show ?thesis using assms(2) UpsertBySourceRecord_books by blast
next
  case step_other
  then show ?thesis
    using assms(2) books_ok_cong [OF step_other] sources_ok_cong [OF step_other(3)] by simp
qed

lemma ledger_history:
  assumes "(ledger_step E)\<^sup>*\<^sup>* D D'" "books_ok D \<and> sources_ok D"
  shows "books_ok D'"
proof -
  have "books_ok D' \<and> sources_ok D'"
    using assms(1) by induction (use assms(2) ledger_step_inv in blast)+
  then show ?thesis by blast
qed

lemma empty_books: "books_ok empty_db \<and> sources_ok empty_db"
  by (simp add: books_ok_def sources_ok_def empty_db_def)

end
