(* ===== verification/LedgerProps.thy ===== *)
theory LedgerProps
  imports Books CrudProps
begin

text \<open>
  The properties of the ledger, with a posting run in a concrete database of two accounts.
\<close>

section \<open>Validation\<close>

text \<open>
  \<open>Entry.Validate\<close> accepts exactly the entries with at least one line, every line on a
  named account and on one side only with a positive amount, whose debits and credits are
  equal \<^emph>\<open>modulo\<close> \<open>2 ^ 64\<close>; below \<open>2 ^ 63\<close> that is the true balance.
\<close>

theorem entry_validation_exact:
  "(Entry_Validate e = None \<longleftrightarrow>
      e_lines e \<noteq> [] \<and> list_all one_sided (e_lines e) \<and>
      (word_of_int (total_debit (e_lines e)) :: i64) = word_of_int (total_credit (e_lines e))) \<and>
   (small_totals e \<longrightarrow> Entry_Validate e = None \<longrightarrow> total_debit (e_lines e) = total_credit (e_lines e))"
  using Entry_Validate_None_iff [of e] Entry_Validate_balanced [of e] by (auto simp: list_all_iff)

definition one_line :: "string \<Rightarrow> i64 \<Rightarrow> i64 \<Rightarrow> JEntry" where
  "one_line acct d c = \<lparr>e_date = ''2026-05-01'', e_description = ''x'', e_source_type = [],
     e_source_id = [], e_lines = [\<lparr>ln_account = acct, ln_debit = d, ln_credit = c\<rparr>]\<rparr>"

definition sale :: "i64 \<Rightarrow> JEntry" where
  "sale n = \<lparr>e_date = ''2026-05-01'', e_description = ''sale'', e_source_type = [],
     e_source_id = [], e_lines = [\<lparr>ln_account = ''1000'', ln_debit = n, ln_credit = 0\<rparr>,
       \<lparr>ln_account = ''4000'', ln_debit = 0, ln_credit = n\<rparr>]\<rparr>"

lemma sale_valid: "Entry_Validate (sale 5) = None" and sale_small: "small_totals (sale 5)"
  by (simp_all add: Entry_Validate_def sale_def small_totals_def total_debit_def total_credit_def
      word_sless_alt)

theorem entry_validation_exact_witness:
  "Entry_Validate (sale 5) = None \<and> total_debit (e_lines (sale 5)) = total_credit (e_lines (sale 5))"
  using entry_validation_exact [of "sale 5"] sale_valid sale_small by blast

definition big_debit :: Line where
  "big_debit = \<lparr>ln_account = ''1000'', ln_debit = 4611686018427387904, ln_credit = 0\<rparr>"

definition runaway :: JEntry where
  "runaway = \<lparr>e_date = ''2026-05-01'', e_description = [], e_source_type = [], e_source_id = [],
     e_lines = [big_debit, big_debit, big_debit, big_debit]\<rparr>"

text \<open>
  The totals of \<open>Entry.Validate\<close> wrap: four debits of \<open>2 ^ 62\<close> and no credit at all pass as
  balanced.
\<close>

theorem entry_totals_wrap:
  "Entry_Validate runaway = None \<and> total_credit (e_lines runaway) = 0 \<and>
   total_debit (e_lines runaway) = 2 ^ 64"
  by (simp add: runaway_def big_debit_def Entry_Validate_def word_sless_alt total_debit_def
      total_credit_def)

section \<open>Posting\<close>

text \<open>
  C9. \<open>Post\<close> is all or nothing: on an error the database is as it was, whichever statement
  failed; on success the entry is valid and exactly these rows are new: the journal entry, one
  line for each of its lines (the same amounts, on the active account with the line's code) and
  one audit entry by an accountable actor.
\<close>

theorem post_all_or_nothing:
  assumes "Post E e actor w = (res, w')"
  shows "case res of
      Inl er \<Rightarrow> w_db w' = w_db w
    | Inr u \<Rightarrow> Entry_Validate e = None \<and> accountable actor \<and>
        u \<notin> je_id ` set (db_entries (w_db w)) \<and>
        (\<exists>dt sid t ls. e_pgdate E (e_date e) = Some dt \<and>
          list_all2 (posted E (w_db w) u) (e_lines e) ls \<and>
          w_db w' = (w_db w)\<lparr>
            db_entries := db_entries (w_db w) @
              [\<lparr>je_id = u, je_date = dt, je_description = e_description e,
                je_source_type = nullable (e_source_type e), je_source_id = sid, je_posted = t\<rparr>],
            db_lines := db_lines (w_db w) @ ls,
            db_audit := db_audit (w_db w) @
              [audit_of E ''JournalEntry'' u ActionCreate actor (Some (entry_diff e))]\<rparr>)"
proof (cases res)
  case (Inl er)
  then show ?thesis using assms unfolding Post_def by (auto dest: in_tx_error)
next
  case (Inr u)
  from assms [unfolded Inr] obtain w1 w2 where w1: "w_db w1 = w_db w"
    and p: "PostTx E e actor w1 = (Inr u, w2)" and w2: "w_db w' = w_db w2"
    by (rule Post_success)
  from p show ?thesis unfolding Inr sum.case w2
    by (rule PostTx_success) (unfold w1, blast)
qed

definition ledger_db :: db where
  "ledger_db = empty_db\<lparr>db_accounts :=
     [\<lparr>ga_id = id_a, ga_code = ''1000'', ga_name = ''Cash'', ga_type = ''asset'',
       ga_currency = ''GBP'', ga_active = True, ga_source = None\<rparr>,
      \<lparr>ga_id = id_b, ga_code = ''4000'', ga_name = ''Sales'', ga_type = ''income'',
       ga_currency = ''GBP'', ga_active = True, ga_source = None\<rparr>]\<rparr>"

definition may_day :: date where
  "may_day = \<lparr>d_year = 2026, d_month = 5, d_day = 1\<rparr>"

lemma ParseDate_may: "ParseDate ''2026-05-01'' = Some may_day"
  by (simp add: digits_eval Let_def valid_date_def days_in_def is_leap_def may_day_def)

definition posted_db :: db where
  "posted_db = ledger_db\<lparr>
     db_entries := [\<lparr>je_id = id_a, je_date = may_day, je_description = ''sale'',
       je_source_type = None, je_source_id = None, je_posted = 7\<rparr>],
     db_lines := [\<lparr>jl_entry = id_a, jl_account = id_a, jl_debit = 5, jl_credit = 0\<rparr>,
       \<lparr>jl_entry = id_a, jl_account = id_b, jl_debit = 0, jl_credit = 5\<rparr>],
     db_audit := [audit_of sample_env ''JournalEntry'' id_a ActionCreate sample_actor (Some (entry_diff (sale 5)))]\<rparr>"

lemma entry_diff_json: "json_ok_fields (entry_diff e)"
  by (simp add: json_ok_fields_iff entry_diff_def)

lemma sale_sel [simp]:
  "e_date (sale n) = ''2026-05-01''" "e_description (sale n) = ''sale''" "e_source_type (sale n) = []"
  "e_source_id (sale n) = []"
  "e_lines (sale n) = [\<lparr>ln_account = ''1000'', ln_debit = n, ln_credit = 0\<rparr>,
       \<lparr>ln_account = ''4000'', ln_debit = 0, ln_credit = n\<rparr>]"
  by (simp_all add: sale_def)

lemma sample_pgdate [simp]: "e_pgdate sample_env = ParseDate"
  by (simp add: sample_env_def)

lemma sample_post:
  "Post sample_env (sale 5) sample_actor (sample_world ledger_db) =
     (Inr id_a, (sample_world posted_db)\<lparr>w_ids := 1\<rparr>)"
  by (simp add: Post_def PostTx_def sale_valid checkPeriodOpen_def ParseDate_may ListTx_def IDByCode_def
      JournalEntry_CreateTx_def insert_entry_def insert_line_def write_audit_def audit_New_def
      Actor_Validate_def audit_Insert_def entry_diff_json audit_of_def sample_actor_def
      sample_world_def posted_db_def ledger_db_def empty_db_def Canonical_id_a Canonical_id_b
      stmt_eval Let_def nullable_def word_sless_alt del: ParseDate.simps)

theorem post_all_or_nothing_witness:
  "Post sample_env (sale 5) sample_actor (sample_world ledger_db) =
     (Inr id_a, (sample_world posted_db)\<lparr>w_ids := 1\<rparr>) \<and>
   accountable sample_actor \<and> length (db_lines posted_db) = 2"
  using sample_post post_all_or_nothing [OF sample_post] by (simp add: posted_db_def)

text \<open>
  C10. A posting that succeeds on a dated entry falls into no closed or locked period: no live
  \<open>Period\<close> record whose two dates parse and enclose the entry's date is closed or locked.
\<close>

theorem post_respects_periods:
  assumes "Post E e actor w = (Inr u, w')" and "e_date e \<noteq> []"
  shows "\<exists>day. ParseDate (e_date e) = Some day \<and>
    \<not> list_ex (\<lambda>p. live ''Period'' p \<and> covers (rr_data p) day \<and> period_shut (rr_data p))
        (db_records (w_db w))"
proof -
  from assms(1) obtain w1 w2 where "w_db w1 = w_db w" "PostTx E e actor w1 = (Inr u, w2)"
    by (rule Post_success)
  then show ?thesis using assms(2) by (auto elim!: PostTx_success simp: list_ex_iff)
qed

theorem post_respects_periods_witness:
  "\<exists>day. ParseDate ''2026-05-01'' = Some day \<and>
    \<not> list_ex (\<lambda>p. live ''Period'' p \<and> covers (rr_data p) day \<and> period_shut (rr_data p))
        (db_records ledger_db)"
  using post_respects_periods [OF sample_post]
  by (simp add: sample_world_def del: ParseDate.simps)

section \<open>The books balance\<close>

text \<open>
  C11. Over every history of the books that starts empty, of postings whose totals stay below
  \<open>2 ^ 63\<close> (any of them may fail), account changes and any other writes: each journal entry's
  lines balance as true integers, and the trial balance \<open>BalancesForRange\<close> gives for any range
  sums to zero, in the opening and in the closing column.
\<close>

theorem books_always_balance:
  assumes "(ledger_step E)\<^sup>*\<^sup>* empty_db (w_db w)"
  shows "list_all (\<lambda>e. entry_net (w_db w) (je_id e) = 0) (db_entries (w_db w)) \<and>
    (\<forall>lo hi bs w'. BalancesForRange E lo hi w = (Inr bs, w') \<longrightarrow>
       sum_list (map bal_opening bs) = 0 \<and> sum_list (map bal_closing bs) = 0)"
proof (intro conjI allI impI)
  have ok: "books_ok (w_db w)" using ledger_history [OF assms empty_books] .
  then show "list_all (\<lambda>e. entry_net (w_db w) (je_id e) = 0) (db_entries (w_db w))"
    by (simp add: books_ok_def list_all_iff)
  fix lo hi bs w' assume run: "BalancesForRange E lo hi w = (Inr bs, w')"
  have perm: "mset (sort_key ga_code (db_accounts (w_db w))) = mset (db_accounts (w_db w))" by simp
  have zero: "sum_list (map (balance_where (w_db w) P) (sort_key ga_code (db_accounts (w_db w)))) = 0" for P
    using balances_sum_zero [OF ok, of P] perm
    by (metis mset_map sum_mset_sum_list)
  from run show "sum_list (map bal_opening bs) = 0" "sum_list (map bal_closing bs) = 0"
    using zero by (auto simp: BalancesForRange_def query_Inr_iff Let_def comp_def split: option.splits if_splits)
qed

theorem books_always_balance_witness:
  "(ledger_step sample_env)\<^sup>*\<^sup>* empty_db posted_db \<and> entry_net posted_db id_a = 0"
proof -
  have a: "UpsertByCode ''1000'' ''Cash'' ''asset'' ''GBP'' True (sample_world empty_db) =
      (Inr id_a, (sample_world (empty_db\<lparr>db_accounts := [hd (db_accounts ledger_db)]\<rparr>))\<lparr>w_ids := 1\<rparr>)"
    by (simp add: UpsertByCode_def account_types_def stmt_eval sample_world_def ledger_db_def empty_db_def)
  have b: "UpsertByCode ''4000'' ''Sales'' ''income'' ''GBP'' True
        ((sample_world (empty_db\<lparr>db_accounts := [hd (db_accounts ledger_db)]\<rparr>))\<lparr>w_newid := \<lambda>_. id_b\<rparr>) =
      (Inr id_b, (sample_world ledger_db)\<lparr>w_newid := \<lambda>_. id_b, w_ids := 1\<rparr>)"
    by (simp add: UpsertByCode_def account_types_def stmt_eval sample_world_def ledger_db_def empty_db_def)
  have "ledger_step sample_env empty_db (empty_db\<lparr>db_accounts := [hd (db_accounts ledger_db)]\<rparr>)"
    using ledger_step.step_code [OF a, of sample_env] by (simp add: sample_world_def)
  moreover have "ledger_step sample_env (empty_db\<lparr>db_accounts := [hd (db_accounts ledger_db)]\<rparr>) ledger_db"
    using ledger_step.step_code [OF b, of sample_env] by (simp add: sample_world_def)
  moreover have "ledger_step sample_env ledger_db posted_db"
    using ledger_step.step_post [OF sale_small sample_post] by (simp add: sample_world_def)
  ultimately have h: "(ledger_step sample_env)\<^sup>*\<^sup>* empty_db posted_db"
    by (meson rtranclp.rtrancl_into_rtrancl rtranclp.rtrancl_refl)
  then have "list_all (\<lambda>e. entry_net posted_db (je_id e) = 0) (db_entries posted_db)"
    using books_always_balance [of sample_env "sample_world posted_db"] by (simp add: sample_world_def)
  then show ?thesis using h by (simp add: posted_db_def)
qed

end
