(* ===== verification/Jobs.thy ===== *)
theory Jobs
  imports Records
begin

text \<open>
  The durable job queue's repository (\<open>internal/data/workflow_jobs.go\<close>): one row per run
  of a workflow, and the guarded UPDATE statements that move it through its life. Several
  workers run these statements against the same table; each statement is atomic.
\<close>

section \<open>Jobs\<close>

record WorkflowJob =
  j_id :: string
  j_workflow :: string
  j_version :: int
  j_entity_type :: string
  j_record :: string
  j_step :: int
  j_status :: JobStatus
  j_attempts :: int
  j_max :: int
  j_last_error :: "step_error option"
  j_run_after :: nat
  j_updated :: nat
  j_escalated :: bool
  j_actor :: Actor
  j_input_hash :: string

definition RedactedInput :: string where
  "RedactedInput = ''<redacted: see the record's own stored input_hash>''"

definition null_str :: "string option \<Rightarrow> string" where
  "null_str x = (case x of None \<Rightarrow> [] | Some s \<Rightarrow> s)"

text \<open>\<open>restoreActorFields\<close>: the actor a stored row stands for, its input redacted.\<close>

definition restore_actor :: "jobrow \<Rightarrow> Actor" where
  "restore_actor r =
     \<lparr>a_type = jb_actor_type r, a_id = jb_actor_id r, a_model_version = null_str (jb_model_version r),
      a_input = (if jb_input_hash r = None then [] else RedactedInput)\<rparr>"

text \<open>The full scan of a row, as \<open>Get\<close> and the lists make it.\<close>

definition to_job :: "jobrow \<Rightarrow> WorkflowJob" where
  "to_job r =
     \<lparr>j_id = jb_id r, j_workflow = jb_workflow r, j_version = jb_version r,
      j_entity_type = null_str (jb_entity_type r), j_record = null_str (jb_record r),
      j_step = jb_step r, j_status = jb_status r, j_attempts = jb_attempts r, j_max = jb_max r,
      j_last_error = jb_last_error r, j_run_after = jb_run_after r, j_updated = jb_updated r,
      j_escalated = jb_escalated r, j_actor = restore_actor r, j_input_hash = null_str (jb_input_hash r)\<rparr>"

text \<open>What \<open>ClaimNext\<close> scans: the fields it does not select keep their zero values.\<close>

definition to_claimed_job :: "jobrow \<Rightarrow> WorkflowJob" where
  "to_claimed_job r =
     (to_job r)\<lparr>j_status := JRunning, j_last_error := None, j_run_after := 0, j_updated := 0,
       j_escalated := False\<rparr>"

definition opt_str :: "string \<Rightarrow> string option" where
  "opt_str s = (if s = [] then None else Some s)"

definition enqueue_job :: "env \<Rightarrow> WorkflowJob \<Rightarrow> WorkflowJob dbm" where
  "enqueue_job E job =
     (case Actor_Validate (j_actor job) of
        Some e \<Rightarrow> fail (ErrAudit e)
      | None \<Rightarrow>
          (let mx = (if j_max job = 0 then 5 else j_max job);
               hash = InputHash E (j_actor job)
           in bindM fresh_id (\<lambda>u. bindM now (\<lambda>t.
             stmt (\<lambda>d. nullable_uuid E (j_record job) (\<lambda>rid.
               if u \<in> jb_id ` set (db_jobs d) \<or> \<not> int4_arg (Some mx) \<or> \<not> int4_arg (Some (j_version job))
               then Inl ErrDB
               else Inr (job\<lparr>j_id := u, j_step := 0, j_status := JQueued, j_attempts := 0, j_max := mx,
                   j_run_after := t, j_input_hash := hash\<rparr>,
                 d\<lparr>db_jobs := db_jobs d @
                   [\<lparr>jb_id = u, jb_workflow = j_workflow job, jb_version = j_version job,
                     jb_entity_type = opt_str (j_entity_type job), jb_record = rid,
                     jb_step = 0, jb_status = JQueued, jb_attempts = 0, jb_max = mx,
                     jb_last_error = None, jb_run_after = t, jb_escalated = False,
                     jb_actor_type = a_type (j_actor job), jb_actor_id = a_id (j_actor job),
                     jb_model_version = opt_str (a_model_version (j_actor job)),
                     jb_input_hash = opt_str hash, jb_created = t, jb_updated = t\<rparr>]\<rparr>)))))))"

section \<open>Statements\<close>

text \<open>
  \<open>UPDATE workflow_jobs SET g WHERE id = $1 AND P\<close>: the row as updated, or none. A value
  that leaves the range of the integer columns makes the statement fail.
\<close>

definition row_in_range :: "jobrow \<Rightarrow> bool" where
  "row_in_range r \<longleftrightarrow> int4_arg (Some (jb_step r)) \<and> int4_arg (Some (jb_attempts r))"

definition update_job ::
    "env \<Rightarrow> string \<Rightarrow> (jobrow \<Rightarrow> bool) \<Rightarrow> (jobrow \<Rightarrow> jobrow) \<Rightarrow> jobrow option dbm" where
  "update_job E jid P g =
     stmt (\<lambda>d. uuid_arg E jid (\<lambda>u.
       case List.find (\<lambda>r. jb_id r = u \<and> P r) (db_jobs d) of
         None \<Rightarrow> Inr (None, d)
       | Some r \<Rightarrow>
           if \<not> row_in_range (g r) then Inl ErrDB
           else Inr (Some (g r), d\<lparr>db_jobs := upd_where (\<lambda>r. jb_id r = u \<and> P r) g (db_jobs d)\<rparr>)))"

text \<open>\<open>execRows\<close> and the check that a row was affected.\<close>

definition affected :: "jobrow option dbm \<Rightarrow> unit dbm" where
  "affected m = bindM m (\<lambda>r. if r = None then fail ErrNotFound else ret ())"

definition running :: "jobrow \<Rightarrow> bool" where
  "running r \<longleftrightarrow> jb_status r = JRunning"

definition waiting :: "jobrow \<Rightarrow> bool" where
  "waiting r \<longleftrightarrow> jb_status r = JWaitingApproval"

definition due :: "nat \<Rightarrow> jobrow \<Rightarrow> bool" where
  "due t r \<longleftrightarrow> jb_status r = JQueued \<and> jb_run_after r \<le> t"

definition claimed_row :: "nat \<Rightarrow> jobrow \<Rightarrow> jobrow" where
  "claimed_row t r = r\<lparr>jb_status := JRunning, jb_updated := t\<rparr>"

text \<open>
  \<open>ClaimNext\<close>: the oldest due job becomes running. The row lock, with SKIP LOCKED, makes
  the two statements of the transaction one step for every other worker.
\<close>

definition ClaimNext :: "WorkflowJob dbm" where
  "ClaimNext =
     in_tx (bindM now (\<lambda>t.
       bindM (query (\<lambda>d. case sort_key jb_run_after (filter (due t) (db_jobs d)) of
           [] \<Rightarrow> Inl ErrNoJobAvailable
         | r # _ \<Rightarrow> Inr r)) (\<lambda>r.
       thenM (stmt (\<lambda>d. Inr ((), d\<lparr>db_jobs := upd_where (\<lambda>x. jb_id x = jb_id r) (claimed_row t) (db_jobs d)\<rparr>)))
         (ret (to_claimed_job r)))))"

definition done_row :: "nat \<Rightarrow> int \<Rightarrow> jobrow \<Rightarrow> jobrow" where
  "done_row t i r = r\<lparr>jb_status := JDone, jb_step := i, jb_updated := t\<rparr>"

definition MarkDone :: "env \<Rightarrow> string \<Rightarrow> int \<Rightarrow> unit dbm" where
  "MarkDone E jid i = bindM now (\<lambda>t. affected (update_job E jid running (done_row t i)))"

definition waiting_row :: "nat \<Rightarrow> int \<Rightarrow> jobrow \<Rightarrow> jobrow" where
  "waiting_row t i r = r\<lparr>jb_status := JWaitingApproval, jb_step := i, jb_updated := t\<rparr>"

definition MarkWaitingApproval :: "env \<Rightarrow> string \<Rightarrow> int \<Rightarrow> unit dbm" where
  "MarkWaitingApproval E jid i = bindM now (\<lambda>t. affected (update_job E jid running (waiting_row t i)))"

text \<open>A failed attempt: back to the queue at \<open>again\<close>, or out of it for good.\<close>

definition failed_row :: "nat \<Rightarrow> step_error \<Rightarrow> nat \<Rightarrow> jobrow \<Rightarrow> jobrow" where
  "failed_row t e again r =
     r\<lparr>jb_attempts := jb_attempts r + 1, jb_last_error := Some e,
       jb_status := (if jb_attempts r + 1 \<ge> jb_max r then JDeadLetter else JQueued),
       jb_run_after := (if jb_attempts r + 1 \<ge> jb_max r then jb_run_after r else again),
       jb_updated := t\<rparr>"

definition MarkFailed :: "env \<Rightarrow> string \<Rightarrow> step_error \<Rightarrow> nat \<Rightarrow> JobStatus dbm" where
  "MarkFailed E jid e again =
     bindM now (\<lambda>t. bindM (update_job E jid running (failed_row t e again)) (\<lambda>r.
       case r of None \<Rightarrow> fail ErrNotFound | Some r' \<Rightarrow> ret (jb_status r')))"

definition resumed_row :: "nat \<Rightarrow> jobrow \<Rightarrow> jobrow" where
  "resumed_row t r =
     r\<lparr>jb_status := JQueued, jb_step := jb_step r + 1, jb_run_after := t, jb_updated := t,
       jb_escalated := False\<rparr>"

definition ResumeAfterApproval :: "env \<Rightarrow> string \<Rightarrow> unit dbm" where
  "ResumeAfterApproval E jid = bindM now (\<lambda>t. affected (update_job E jid waiting (resumed_row t)))"

definition Job_Get :: "env \<Rightarrow> string \<Rightarrow> WorkflowJob dbm" where
  "Job_Get E jid =
     query (\<lambda>d. uuid_arg E jid (\<lambda>u.
       case List.find (\<lambda>r. jb_id r = u) (db_jobs d) of
         None \<Rightarrow> Inl ErrNotFound | Some r \<Rightarrow> Inr (to_job r)))"

definition Job_ListByStatus :: "JobStatus \<Rightarrow> WorkflowJob list dbm" where
  "Job_ListByStatus s =
     query (\<lambda>d. Inr (map to_job (sort_key jb_created (filter (\<lambda>r. jb_status r = s) (db_jobs d)))))"

definition ListWaitingApproval :: "WorkflowJob list dbm" where
  "ListWaitingApproval =
     query (\<lambda>d. Inr (map to_job
       (sort_key jb_created (filter (\<lambda>r. waiting r \<and> \<not> jb_escalated r) (db_jobs d)))))"

definition escalated_row :: "jobrow \<Rightarrow> jobrow" where
  "escalated_row r = r\<lparr>jb_escalated := True\<rparr>"

definition MarkEscalatedTx :: "env \<Rightarrow> string \<Rightarrow> unit dbm" where
  "MarkEscalatedTx E jid = affected (update_job E jid (\<lambda>r. waiting r \<and> \<not> jb_escalated r) escalated_row)"

definition stale :: "nat \<Rightarrow> nat \<Rightarrow> jobrow \<Rightarrow> bool" where
  "stale t lease r \<longleftrightarrow> jb_status r = JRunning \<and> jb_updated r + lease < t"

definition ReclaimStale :: "nat \<Rightarrow> string list dbm" where
  "ReclaimStale lease =
     bindM now (\<lambda>t. stmt (\<lambda>d.
       if \<exists>r \<in> set (db_jobs d). stale t lease r \<and> \<not> row_in_range (failed_row t LeaseExpired t r)
       then Inl ErrDB
       else Inr (map jb_id (filter (stale t lease) (db_jobs d)),
         d\<lparr>db_jobs := upd_where (stale t lease) (failed_row t LeaseExpired t) (db_jobs d)\<rparr>)))"

section \<open>What a statement does to the table\<close>

text \<open>
  \<open>changed_by\<close>: every row stays, as it was or changed by \<open>g\<close> where \<open>P\<close> holds.
\<close>

definition changed_by :: "(jobrow \<Rightarrow> bool) \<Rightarrow> (jobrow \<Rightarrow> jobrow) \<Rightarrow> db \<Rightarrow> db \<Rightarrow> bool" where
  "changed_by P g D D' \<longleftrightarrow>
     D' = D\<lparr>db_jobs := db_jobs D'\<rparr> \<and>
     (\<exists>Q. (\<forall>r \<in> set (db_jobs D). Q r \<longrightarrow> P r) \<and> db_jobs D' = upd_where Q g (db_jobs D))"

lemma changed_by_refl: "changed_by P g D D"
  unfolding changed_by_def by (auto intro!: exI [of _ "\<lambda>_. False"] simp: upd_where_def)

lemma changed_byI:
  "D' = D\<lparr>db_jobs := upd_where Q g (db_jobs D)\<rparr> \<Longrightarrow> (\<And>r. r \<in> set (db_jobs D) \<Longrightarrow> Q r \<Longrightarrow> P r) \<Longrightarrow> changed_by P g D D'"
  unfolding changed_by_def by (auto intro!: exI [of _ Q])

lemma update_job_changed:
  "update_job E jid P g w = (r, w') \<Longrightarrow> changed_by P g (w_db w) (w_db w')"
proof -
  assume r: "update_job E jid P g w = (r, w')"
  have "w_db w' = w_db w \<or>
      (\<exists>u. w_db w' = (w_db w)\<lparr>db_jobs := upd_where (\<lambda>r. jb_id r = u \<and> P r) g (db_jobs (w_db w))\<rparr>)"
    using r unfolding update_job_def stmt_def uuid_arg_def
    by (auto split: if_splits option.splits)
  then show ?thesis
    by (rule disjE) (auto simp: changed_by_refl intro: changed_byI)
qed

lemma affected_changed:
  "(\<And>w r w'. m w = (r, w') \<Longrightarrow> changed_by P g (w_db w) (w_db w')) \<Longrightarrow>
    affected m w = (r, w') \<Longrightarrow> changed_by P g (w_db w) (w_db w')"
  unfolding affected_def bindM_def
  by (fastforce simp: ret_def fail_def split: prod.splits sum.splits if_splits)

lemma now_bind: "bindM now f w = f (w_now w) w"
  by (simp add: bindM_def now_def)

lemma MarkDone_changed:
  "MarkDone E jid i w = (r, w') \<Longrightarrow> changed_by running (done_row (w_now w) i) (w_db w) (w_db w')"
  unfolding MarkDone_def now_bind by (rule affected_changed [OF update_job_changed])

lemma MarkWaitingApproval_changed:
  "MarkWaitingApproval E jid i w = (r, w') \<Longrightarrow>
    changed_by running (waiting_row (w_now w) i) (w_db w) (w_db w')"
  unfolding MarkWaitingApproval_def now_bind by (rule affected_changed [OF update_job_changed])

lemma ResumeAfterApproval_changed:
  "ResumeAfterApproval E jid w = (r, w') \<Longrightarrow> changed_by waiting (resumed_row (w_now w)) (w_db w) (w_db w')"
  unfolding ResumeAfterApproval_def now_bind by (rule affected_changed [OF update_job_changed])

lemma MarkEscalatedTx_changed:
  "MarkEscalatedTx E jid w = (r, w') \<Longrightarrow>
    changed_by (\<lambda>r. waiting r \<and> \<not> jb_escalated r) escalated_row (w_db w) (w_db w')"
  unfolding MarkEscalatedTx_def by (rule affected_changed [OF update_job_changed])

lemma MarkFailed_changed:
  "MarkFailed E jid e again w = (r, w') \<Longrightarrow>
    changed_by running (failed_row (w_now w) e again) (w_db w) (w_db w')"
  unfolding MarkFailed_def now_bind
  by (auto simp: bindM_def ret_def fail_def split: prod.splits sum.splits option.splits
      dest: update_job_changed)

lemma ReclaimStale_changed:
  "ReclaimStale lease w = (r, w') \<Longrightarrow>
    changed_by running (failed_row (w_now w) LeaseExpired (w_now w)) (w_db w) (w_db w')"
proof -
  assume r: "ReclaimStale lease w = (r, w')"
  let ?g = "failed_row (w_now w) LeaseExpired (w_now w)"
  have "w_db w' = w_db w \<or>
      w_db w' = (w_db w)\<lparr>db_jobs := upd_where (stale (w_now w) lease) ?g (db_jobs (w_db w))\<rparr>"
    using r unfolding ReclaimStale_def now_bind stmt_def by (auto split: if_splits)
  then show ?thesis
    by (rule disjE) (auto simp: changed_by_refl intro: changed_byI simp: stale_def running_def)
qed

text \<open>Claiming: the oldest due job, and nothing else, becomes running.\<close>

definition is_oldest_due :: "nat \<Rightarrow> db \<Rightarrow> jobrow \<Rightarrow> bool" where
  "is_oldest_due t D r \<longleftrightarrow>
     r \<in> set (db_jobs D) \<and> due t r \<and> (\<forall>x \<in> set (db_jobs D). due t x \<longrightarrow> jb_run_after r \<le> jb_run_after x)"

lemma sort_key_hd:
  assumes "sort_key f (filter P xs) = r # rs"
  shows "r \<in> set xs \<and> P r \<and> (\<forall>x \<in> set xs. P x \<longrightarrow> f r \<le> f x)"
proof -
  have "sorted (map f (r # rs))" by (metis assms sorted_sort_key)
  moreover have s: "set (r # rs) = {x \<in> set xs. P x}" by (metis assms set_filter set_sort)
  moreover have "f r \<le> f x" if "x \<in> set xs" "P x" for x
  proof -
    have "x \<in> set (r # rs)" using that s by simp
    then show ?thesis using \<open>sorted (map f (r # rs))\<close> by auto
  qed
  ultimately show ?thesis by auto
qed

lemma ClaimNext_success:
  assumes "ClaimNext w = (Inr j, w')"
  obtains r where "is_oldest_due (w_now w) (w_db w) r" "j = to_claimed_job r"
    "w_db w' = (w_db w)\<lparr>db_jobs := upd_where (\<lambda>x. jb_id x = jb_id r) (claimed_row (w_now w)) (db_jobs (w_db w))\<rparr>"
proof -
  obtain w1 w2 where w: "w_db w1 = w_db w" "w_now w1 = w_now w" "w_db w' = w_db w2"
    and b: "bindM now (\<lambda>t.
       bindM (query (\<lambda>d. case sort_key jb_run_after (filter (due t) (db_jobs d)) of
           [] \<Rightarrow> Inl ErrNoJobAvailable
         | r # _ \<Rightarrow> Inr r)) (\<lambda>r.
       thenM (stmt (\<lambda>d. Inr ((), d\<lparr>db_jobs := upd_where (\<lambda>x. jb_id x = jb_id r) (claimed_row t) (db_jobs d)\<rparr>)))
         (ret (to_claimed_job r)))) w1 = (Inr j, w2)"
    using assms unfolding ClaimNext_def by (rule in_tx_success)
  from b obtain r rs where r: "sort_key jb_run_after (filter (due (w_now w)) (db_jobs (w_db w))) = r # rs"
    "j = to_claimed_job r"
    "w_db w2 = (w_db w)\<lparr>db_jobs := upd_where (\<lambda>x. jb_id x = jb_id r) (claimed_row (w_now w)) (db_jobs (w_db w))\<rparr>"
    unfolding now_bind by (auto simp: run_iffs w split: list.splits)
  have "is_oldest_due (w_now w) (w_db w) r"
    using sort_key_hd [OF r(1)] by (simp add: is_oldest_due_def)
  with r w show thesis by (intro that [of r]) simp_all
qed

definition queued :: "jobrow \<Rightarrow> bool" where
  "queued r \<longleftrightarrow> jb_status r = JQueued"

lemma same_id_same_row:
  "distinct (map jb_id rs) \<Longrightarrow> r \<in> set rs \<Longrightarrow> x \<in> set rs \<Longrightarrow> jb_id x = jb_id r \<Longrightarrow> x = r"
  by (metis distinct_map inj_onD)

lemma ClaimNext_changed:
  assumes "ClaimNext w = (r, w')" and "distinct (map jb_id (db_jobs (w_db w)))"
  shows "changed_by queued (claimed_row (w_now w)) (w_db w) (w_db w')"
proof (cases r)
  case (Inl e)
  then show ?thesis using assms(1) by (simp add: ClaimNext_def in_tx_error changed_by_refl)
next
  case (Inr j)
  then obtain x where x: "is_oldest_due (w_now w) (w_db w) x"
    "w_db w' = (w_db w)\<lparr>db_jobs := upd_where (\<lambda>y. jb_id y = jb_id x) (claimed_row (w_now w)) (db_jobs (w_db w))\<rparr>"
    using assms(1) by (metis ClaimNext_success)
  have "queued y" if "y \<in> set (db_jobs (w_db w))" "jb_id y = jb_id x" for y
    using same_id_same_row [OF assms(2) _ that(1)] that(2) x(1)
    by (auto simp: is_oldest_due_def due_def queued_def)
  then show ?thesis by (rule changed_byI [OF x(2)])
qed

text \<open>Enqueueing adds one fresh job, or nothing.\<close>

definition fresh_job :: "jobrow \<Rightarrow> bool" where
  "fresh_job r \<longleftrightarrow>
     jb_status r = JQueued \<and> jb_step r = 0 \<and> jb_attempts r = 0 \<and> \<not> jb_escalated r \<and> jb_last_error r = None"

lemma enqueue_job_outcome:
  assumes "enqueue_job E job w = (r, w')"
  shows "(\<exists>e. r = Inl e) \<and> w_db w' = w_db w \<or>
    (\<exists>row. w_db w' = (w_db w)\<lparr>db_jobs := db_jobs (w_db w) @ [row]\<rparr> \<and> fresh_job row \<and>
      jb_id row \<notin> jb_id ` set (db_jobs (w_db w)) \<and> accountable (j_actor job) \<and>
      jb_max row = (if j_max job = 0 then 5 else j_max job) \<and>
      jb_workflow row = j_workflow job \<and> jb_version row = j_version job \<and>
      jb_run_after row = w_now w \<and> r = Inr (job\<lparr>j_id := jb_id row, j_step := 0, j_status := JQueued,
        j_attempts := 0, j_max := jb_max row, j_run_after := w_now w,
        j_input_hash := InputHash E (j_actor job)\<rparr>))"
  using assms
  unfolding enqueue_job_def bindM_def fresh_id_def now_def stmt_def nullable_uuid_def
  by (auto simp: fail_def Let_def fresh_job_def simp flip: Actor_Validate_None_iff
      split: option.splits if_splits prod.splits sum.splits)

end
