(* ===== verification/JobLife.thy ===== *)
theory JobLife
  imports Jobs
begin

text \<open>
  The life of a job: the step relation of the queue's statements, run in any order by any
  number of workers, its invariant, and the abstract state machine each row follows.
\<close>

section \<open>The queue as a step relation\<close>

text \<open>
  One statement of one worker against the table. A worker may be slow, dead or wrong about
  the job it holds: every statement may come at any time and with any id, and may fail. Both
  callers of the insert leave the number of attempts unset.
\<close>

inductive queue_step :: "env \<Rightarrow> db \<Rightarrow> db \<Rightarrow> bool" for E where
  enqueue: "enqueue_job E job w = (r1, w') \<Longrightarrow> j_max job = 0 \<Longrightarrow> queue_step E (w_db w) (w_db w')"
| claim: "ClaimNext w = (r2, w') \<Longrightarrow> queue_step E (w_db w) (w_db w')"
| finish: "MarkDone E jid i w = (r3, w') \<Longrightarrow> 0 \<le> i \<Longrightarrow> queue_step E (w_db w) (w_db w')"
| park: "MarkWaitingApproval E jid i w = (r3, w') \<Longrightarrow> 0 \<le> i \<Longrightarrow> queue_step E (w_db w) (w_db w')"
| give_up: "MarkFailed E jid e again w = (r4, w') \<Longrightarrow> queue_step E (w_db w) (w_db w')"
| approve: "ResumeAfterApproval E jid w = (r3, w') \<Longrightarrow> queue_step E (w_db w) (w_db w')"
| escalate: "MarkEscalatedTx E jid w = (r3, w') \<Longrightarrow> queue_step E (w_db w) (w_db w')"
| reap: "ReclaimStale lease w = (r5, w') \<Longrightarrow> queue_step E (w_db w) (w_db w')"
| other: "db_jobs D' = db_jobs D \<Longrightarrow> queue_step E D D'"

definition job_ok :: "jobrow \<Rightarrow> bool" where
  "job_ok r \<longleftrightarrow>
     0 < jb_max r \<and> jb_max r \<le> max_int4 \<and> 0 \<le> jb_step r \<and> 0 \<le> jb_attempts r \<and>
     (if jb_status r = JDeadLetter then jb_attempts r = jb_max r else jb_attempts r < jb_max r) \<and>
     (jb_escalated r \<longrightarrow> jb_status r = JWaitingApproval)"

definition jobs_ok :: "db \<Rightarrow> bool" where
  "jobs_ok D \<longleftrightarrow> distinct (map jb_id (db_jobs D)) \<and> (\<forall>r \<in> set (db_jobs D). job_ok r)"

text \<open>The fields of a row no statement changes.\<close>

definition same_run :: "jobrow \<Rightarrow> jobrow \<Rightarrow> bool" where
  "same_run r r' \<longleftrightarrow>
     jb_id r' = jb_id r \<and> jb_workflow r' = jb_workflow r \<and> jb_version r' = jb_version r \<and>
     jb_entity_type r' = jb_entity_type r \<and> jb_record r' = jb_record r \<and> jb_max r' = jb_max r \<and>
     jb_actor_type r' = jb_actor_type r \<and> jb_actor_id r' = jb_actor_id r \<and>
     jb_model_version r' = jb_model_version r \<and> jb_input_hash r' = jb_input_hash r \<and>
     jb_created r' = jb_created r"

lemma same_run_refl [simp]: "same_run r r"
  by (simp add: same_run_def)

lemma same_run_trans: "same_run a b \<Longrightarrow> same_run b c \<Longrightarrow> same_run a c"
  by (simp add: same_run_def)

lemmas row_defs =
  claimed_row_def done_row_def waiting_row_def failed_row_def resumed_row_def escalated_row_def

section \<open>The abstract life of a job\<close>

datatype phase =
    Pending int int | Active int int | Awaiting int int bool | Finished | Dead

fun phase_of :: "jobrow \<Rightarrow> phase" where
  "phase_of r =
     (case jb_status r of
        JQueued \<Rightarrow> Pending (jb_attempts r) (jb_step r)
      | JRunning \<Rightarrow> Active (jb_attempts r) (jb_step r)
      | JWaitingApproval \<Rightarrow> Awaiting (jb_attempts r) (jb_step r) (jb_escalated r)
      | JDone \<Rightarrow> Finished
      | JDeadLetter \<Rightarrow> Dead)"

text \<open>
  The specification: what may happen to a job with \<open>mx\<close> attempts, the failed attempts and
  the step it stands at being the arguments of its phase.
\<close>

inductive life :: "int \<Rightarrow> phase \<Rightarrow> phase \<Rightarrow> bool" for mx where
  claimed: "life mx (Pending n k) (Active n k)"
| completed: "life mx (Active n k) Finished"
| halted: "life mx (Active n k) (Awaiting n k' False)"
| retried: "n + 1 < mx \<Longrightarrow> life mx (Active n k) (Pending (n + 1) k)"
| exhausted: "n + 1 = mx \<Longrightarrow> life mx (Active n k) Dead"
| escalated: "life mx (Awaiting n k False) (Awaiting n k True)"
| approved: "life mx (Awaiting n k e) (Pending n (k + 1))"

inductive_simps life_ends [simp]: "life mx Finished q" "life mx Dead q"
inductive_cases life_Active: "life mx (Active n k) q"

section \<open>Refinement\<close>

text \<open>The rows of one step: kept, or changed by one of the updates of the statements.\<close>

lemma changed_by_row:
  assumes "changed_by P g D D'" "r \<in> set (db_jobs D)"
  obtains "r \<in> set (db_jobs D')" | "P r" "g r \<in> set (db_jobs D')"
proof -
  obtain Q where Q: "\<And>x. x \<in> set (db_jobs D) \<Longrightarrow> Q x \<Longrightarrow> P x" "db_jobs D' = upd_where Q g (db_jobs D)"
    using assms(1) unfolding changed_by_def by blast
  show thesis
  proof (cases "Q r")
    case True
    then have "g r \<in> set (db_jobs D')" using Q(2) assms(2) by (auto simp: in_upd_where intro!: bexI [of _ r])
    with Q(1) [OF assms(2) True] that show thesis by blast
  next
    case False
    then have "r \<in> set (db_jobs D')" using Q(2) assms(2) by (auto simp: in_upd_where intro!: bexI [of _ r])
    with that show thesis by blast
  qed
qed

lemma changed_by_rows:
  assumes "changed_by P g D D'" "r' \<in> set (db_jobs D')"
  obtains "r' \<in> set (db_jobs D)" | r where "r \<in> set (db_jobs D)" "P r" "r' = g r"
  using assms unfolding changed_by_def by (auto simp: in_upd_where split: if_splits)

lemma changed_by_ids:
  "changed_by P g D D' \<Longrightarrow> (\<And>r. jb_id (g r) = jb_id r) \<Longrightarrow> map jb_id (db_jobs D') = map jb_id (db_jobs D)"
  unfolding changed_by_def by (auto simp: map_upd_where)

text \<open>What one kind of update has to satisfy to follow the life of a job.\<close>

definition follows_life :: "(jobrow \<Rightarrow> bool) \<Rightarrow> (jobrow \<Rightarrow> jobrow) \<Rightarrow> bool" where
  "follows_life P g \<longleftrightarrow>
     (\<forall>r. same_run r (g r) \<and>
       (job_ok r \<longrightarrow> P r \<longrightarrow> job_ok (g r) \<and> life (jb_max r) (phase_of r) (phase_of (g r))))"

lemma follows_claim: "follows_life queued (claimed_row t)"
  by (auto simp: follows_life_def same_run_def job_ok_def queued_def row_defs intro: life.intros)

lemma follows_done: "0 \<le> i \<Longrightarrow> follows_life running (done_row t i)"
  by (auto simp: follows_life_def same_run_def job_ok_def running_def row_defs intro: life.intros)

lemma follows_waiting: "0 \<le> i \<Longrightarrow> follows_life running (waiting_row t i)"
  by (auto simp: follows_life_def same_run_def job_ok_def running_def row_defs intro: life.intros)

lemma follows_failed: "follows_life running (failed_row t e again)"
  by (auto simp: follows_life_def same_run_def job_ok_def running_def row_defs intro: life.intros)

lemma follows_resumed: "follows_life waiting (resumed_row t)"
  by (auto simp: follows_life_def same_run_def job_ok_def waiting_def row_defs intro: life.intros)

lemma follows_escalated: "follows_life (\<lambda>r. waiting r \<and> \<not> jb_escalated r) escalated_row"
  by (auto simp: follows_life_def same_run_def job_ok_def waiting_def row_defs intro: life.intros)

lemma follows_id: "follows_life P g \<Longrightarrow> jb_id (g r) = jb_id r"
  by (simp add: follows_life_def same_run_def)

text \<open>Every statement is such an update, the insert of a fresh job, or leaves the jobs alone.\<close>

lemma queue_step_kind:
  assumes "queue_step E D D'" and "jobs_ok D"
  obtains (update) P g where "changed_by P g D D'" "follows_life P g"
    | (insert) row where "db_jobs D' = db_jobs D @ [row]" "fresh_job row" "jb_max row = 5"
        "jb_id row \<notin> jb_id ` set (db_jobs D)"
    | (stutter) "db_jobs D' = db_jobs D"
  using assms(1)
proof cases
  case (enqueue job w r1 w')
  then show thesis
    using enqueue_job_outcome [OF enqueue(3)] insert stutter by auto
next
  case (claim w r2 w')
  then have "changed_by queued (claimed_row (w_now w)) D D'"
    using ClaimNext_changed [of w r2 w'] assms(2) by (simp add: jobs_ok_def)
  then show thesis by (rule update [OF _ follows_claim])
next
  case (finish jid i w r3 w')
  show thesis
    by (rule update [OF MarkDone_changed [OF finish(3), folded finish(1,2)] follows_done [OF finish(4)]])
next
  case (park jid i w r3 w')
  show thesis
    by (rule update [OF MarkWaitingApproval_changed [OF park(3), folded park(1,2)] follows_waiting [OF park(4)]])
next
  case (give_up jid e again w r4 w')
  show thesis
    by (rule update [OF MarkFailed_changed [OF give_up(3), folded give_up(1,2)] follows_failed])
next
  case (approve jid w r3 w')
  show thesis
    by (rule update [OF ResumeAfterApproval_changed [OF approve(3), folded approve(1,2)] follows_resumed])
next
  case (escalate jid w r3 w')
  show thesis
    by (rule update [OF MarkEscalatedTx_changed [OF escalate(3), folded escalate(1,2)] follows_escalated])
next
  case (reap lease w r5 w')
  show thesis
    by (rule update [OF ReclaimStale_changed [OF reap(3), folded reap(1,2)] follows_failed])
next
  case other
  then show thesis by (rule stutter)
qed

lemma fresh_job_ok: "fresh_job row \<Longrightarrow> jb_max row = 5 \<Longrightarrow> job_ok row"
  by (simp add: fresh_job_def job_ok_def max_int4_def)

lemma queue_step_ok:
  assumes "queue_step E D D'" "jobs_ok D"
  shows "jobs_ok D'"
  using assms
proof (cases rule: queue_step_kind)
  case (update P g)
  have "job_ok r'" if "r' \<in> set (db_jobs D')" for r'
    using changed_by_rows [OF update(1) that] update(2) assms(2)
    by (auto simp: jobs_ok_def follows_life_def)
  moreover have "map jb_id (db_jobs D') = map jb_id (db_jobs D)"
    by (rule changed_by_ids [OF update(1) follows_id [OF update(2)]])
  ultimately show ?thesis using assms(2) by (simp add: jobs_ok_def)
next
  case (insert row)
  then show ?thesis using assms(2) fresh_job_ok by (auto simp: jobs_ok_def)
next
  case stutter
  then show ?thesis using assms(2) by (simp add: jobs_ok_def)
qed

text \<open>The simulation: a row and its successor, and the abstract step or stutter between them.\<close>

lemma queue_step_simulated:
  assumes "queue_step E D D'" "jobs_ok D" "r \<in> set (db_jobs D)"
  shows "\<exists>r' \<in> set (db_jobs D'). same_run r r' \<and> (r' = r \<or> life (jb_max r) (phase_of r) (phase_of r'))"
  using assms(1,2)
proof (cases rule: queue_step_kind)
  case (update P g)
  show ?thesis
    using changed_by_row [OF update(1) assms(3)]
  proof cases
    case 1
    then show ?thesis using same_run_refl by blast
  next
    case 2
    then have "same_run r (g r) \<and> life (jb_max r) (phase_of r) (phase_of (g r))"
      using update(2) assms(2,3) unfolding follows_life_def jobs_ok_def by blast
    with 2 show ?thesis by blast
  qed
next
  case (insert row)
  then have "r \<in> set (db_jobs D')" using assms(3) by simp
  then show ?thesis using same_run_refl by blast
next
  case stutter
  then have "r \<in> set (db_jobs D')" using assms(3) by simp
  then show ?thesis using same_run_refl by blast
qed

lemma queue_steps_simulated:
  assumes "(queue_step E)\<^sup>*\<^sup>* D D'" "jobs_ok D" "r \<in> set (db_jobs D)"
  shows "jobs_ok D' \<and> (\<exists>r' \<in> set (db_jobs D'). same_run r r' \<and> (life (jb_max r))\<^sup>*\<^sup>* (phase_of r) (phase_of r'))"
  using assms
proof (induction rule: rtranclp_induct)
  case (step D1 D2)
  then obtain r1 where r1: "jobs_ok D1" "r1 \<in> set (db_jobs D1)" "same_run r r1"
    "(life (jb_max r))\<^sup>*\<^sup>* (phase_of r) (phase_of r1)" by blast
  obtain r2 where r2: "r2 \<in> set (db_jobs D2)" "same_run r1 r2"
    "r2 = r1 \<or> life (jb_max r1) (phase_of r1) (phase_of r2)"
    using queue_step_simulated [OF step(2) r1(1,2)] by blast
  have "(life (jb_max r))\<^sup>*\<^sup>* (phase_of r) (phase_of r2)"
    using r1(3,4) r2(3) by (auto simp: same_run_def intro: rtranclp.rtrancl_into_rtrancl)
  with queue_step_ok [OF step(2) r1(1)] r2 same_run_trans [OF r1(3) r2(2)] show ?case by blast
qed (use same_run_refl in blast)

section \<open>How often a job can change without an approval\<close>

fun weight :: "int \<Rightarrow> phase \<Rightarrow> int" where
  "weight mx (Pending n k) = 4 * (mx - n)"
| "weight mx (Active n k) = 4 * (mx - n) - 1"
| "weight mx (Awaiting n k e) = 4 * (mx - n) - (if e then 3 else 2)"
| "weight mx Finished = 0"
| "weight mx Dead = 0"

fun phase_ok :: "int \<Rightarrow> phase \<Rightarrow> bool" where
  "phase_ok mx (Pending n k) = (0 \<le> n \<and> n < mx)"
| "phase_ok mx (Active n k) = (0 \<le> n \<and> n < mx)"
| "phase_ok mx (Awaiting n k e) = (0 \<le> n \<and> n < mx)"
| "phase_ok mx _ = (0 < mx)"

fun is_approval :: "phase \<Rightarrow> phase \<Rightarrow> bool" where
  "is_approval (Awaiting n k e) (Pending n' k') = True"
| "is_approval _ _ = False"

lemma job_ok_phase: "job_ok r \<Longrightarrow> phase_ok (jb_max r) (phase_of r)"
  by (cases "jb_status r") (simp_all add: job_ok_def)

lemma life_weight:
  "life mx p q \<Longrightarrow> phase_ok mx p \<Longrightarrow> phase_ok mx q \<and> (\<not> is_approval p q \<longrightarrow> weight mx q < weight mx p)"
  by (induction rule: life.induct) auto

lemma weight_bounds: "phase_ok mx p \<Longrightarrow> 0 \<le> weight mx p \<and> weight mx p \<le> 4 * mx"
  by (cases p) auto

definition unaided :: "int \<Rightarrow> phase \<Rightarrow> phase \<Rightarrow> bool" where
  "unaided mx p q \<longleftrightarrow> life mx p q \<and> \<not> is_approval p q"

lemma unaided_bound:
  "(unaided mx ^^ n) p q \<Longrightarrow> phase_ok mx p \<Longrightarrow> phase_ok mx q \<and> int n \<le> weight mx p - weight mx q"
proof (induction n arbitrary: q)
  case (Suc n)
  then obtain m where m: "(unaided mx ^^ n) p m" "unaided mx m q" by auto
  then show ?case using Suc life_weight [of mx m q] unfolding unaided_def by fastforce
qed simp

end
