(* ===== verification/Queue.thy ===== *)
theory Queue
  imports JobLife
begin

text \<open>
  The workflow queue (\<open>internal/kernel/workflow/queue.go\<close>) over the job repository:
  enqueueing, one worker's \<open>ProcessOne\<close>, approval, reaping and escalation. The step handlers
  a queue is built with and the registry's definition lookup are given as functions; what a
  handler does outside the queue is not in the model, only its outcome is.
\<close>

section \<open>Handlers\<close>

datatype handler_outcome = HandlerOk | HandlerError string | HandlerPanic string

type_synonym handler = "WorkflowJob \<Rightarrow> Step \<Rightarrow> handler_outcome"
type_synonym lookup = "string \<Rightarrow> int \<Rightarrow> WfDefinition option"

record Queue =
  q_handlers :: "StepKind \<Rightarrow> handler option"

definition notify_ok :: handler where
  "notify_ok job s = HandlerOk"

definition NewQueue :: "(StepKind \<Rightarrow> handler option) \<Rightarrow> (err, Queue) result" where
  "NewQueue hs =
     (if hs StepRequireApproval \<noteq> None then Inl ErrHandlerNotAllowed
      else Inr \<lparr>q_handlers = (\<lambda>k. case hs k of Some h \<Rightarrow> Some h
        | None \<Rightarrow> if k = StepNotify then Some notify_ok else None)\<rparr>)"

text \<open>The recovered panic is an ordinary error.\<close>

definition runHandler :: "handler \<Rightarrow> WorkflowJob \<Rightarrow> Step \<Rightarrow> string option" where
  "runHandler h job s =
     (case h job s of HandlerOk \<Rightarrow> None | HandlerError e \<Rightarrow> Some e
      | HandlerPanic e \<Rightarrow> Some (''step handler panicked: '' @ e))"

section \<open>Backoff\<close>

text \<open>Durations in nanoseconds; a negative number of attempts makes no pass of the loop.\<close>

definition second :: nat where
  "second = 1000000000"

fun backoff_loop :: "nat \<Rightarrow> nat \<Rightarrow> nat" where
  "backoff_loop 0 d = d"
| "backoff_loop (Suc n) d =
     (let d = d * 2 in if d \<ge> 300 * second then 300 * second else backoff_loop n d)"

definition defaultBackoff :: "int \<Rightarrow> nat" where
  "defaultBackoff attempt = backoff_loop (nat attempt) second"

section \<open>Operations\<close>

definition Queue_Enqueue :: "env \<Rightarrow> WfDefinition \<Rightarrow> string \<Rightarrow> string \<Rightarrow> Actor \<Rightarrow> WorkflowJob dbm" where
  "Queue_Enqueue E d et rid actor =
     (case WfDefinition_Validate d of
        Some e \<Rightarrow> fail (ErrWorkflow e)
      | None \<Rightarrow> enqueue_job E
          \<lparr>j_id = [], j_workflow = wf_name d, j_version = wf_version d, j_entity_type = et,
           j_record = rid, j_step = 0, j_status = JQueued, j_attempts = 0, j_max = 0,
           j_last_error = None, j_run_after = 0, j_updated = 0, j_escalated = False,
           j_actor = actor, j_input_hash = []\<rparr>)"

text \<open>\<open>fail\<close>; \<open>clock\<close> is the worker's own time.\<close>

definition queue_fail :: "env \<Rightarrow> nat \<Rightarrow> WorkflowJob \<Rightarrow> step_error \<Rightarrow> WorkflowJob dbm" where
  "queue_fail E clock job e =
     bindM (MarkFailed E (j_id job) e (clock + defaultBackoff (j_attempts job))) (\<lambda>_. ret job)"

text \<open>The loop over the steps from number \<open>i\<close> on.\<close>

fun process_steps :: "env \<Rightarrow> Queue \<Rightarrow> nat \<Rightarrow> WorkflowJob \<Rightarrow> nat \<Rightarrow> Step list \<Rightarrow> WorkflowJob dbm" where
  "process_steps E q clock job i [] =
     bindM (MarkDone E (j_id job) (int i)) (\<lambda>_. ret job)"
| "process_steps E q clock job i (s # ss) =
     (if st_kind s = StepRequireApproval then
        bindM (MarkWaitingApproval E (j_id job) (int i)) (\<lambda>_. ret job)
      else case q_handlers q (st_kind s) of
        None \<Rightarrow> queue_fail E clock job (NoHandler i)
      | Some h \<Rightarrow>
          (case runHandler h job s of
             Some e \<Rightarrow> queue_fail E clock job (StepFailed i e)
           | None \<Rightarrow> process_steps E q clock job (Suc i) ss))"

definition process_job :: "env \<Rightarrow> Queue \<Rightarrow> nat \<Rightarrow> lookup \<Rightarrow> WorkflowJob \<Rightarrow> WorkflowJob dbm" where
  "process_job E q clock lookup job =
     (case lookup (j_workflow job) (j_version job) of
        None \<Rightarrow> queue_fail E clock job LookupFailed
      | Some d \<Rightarrow>
          (case WfDefinition_Validate d of
             Some e \<Rightarrow> queue_fail E clock job (InvalidWorkflow e)
           | None \<Rightarrow>
               (if int (length (wf_steps d)) \<le> j_step job
                then bindM (MarkDone E (j_id job) (int (length (wf_steps d)))) (\<lambda>_. ret job)
                else process_steps E q clock job (nat (j_step job)) (drop (nat (j_step job)) (wf_steps d)))))"

definition ProcessOne :: "env \<Rightarrow> Queue \<Rightarrow> nat \<Rightarrow> lookup \<Rightarrow> WorkflowJob dbm" where
  "ProcessOne E q clock lookup = bindM ClaimNext (process_job E q clock lookup)"

definition Queue_ReclaimStale :: "nat \<Rightarrow> string list dbm" where
  "Queue_ReclaimStale lease = ReclaimStale lease"

section \<open>Escalation\<close>

text \<open>\<open>t.Sub(u)\<close>, which saturates.\<close>

definition time_sub :: "nat \<Rightarrow> nat \<Rightarrow> int" where
  "time_sub t u = max (- (2 ^ 63)) (min (2 ^ 63 - 1) (int t - int u))"

text \<open>Whether a job's approval step is overdue; the memoised lookup is the lookup.\<close>

definition overdue :: "env \<Rightarrow> nat \<Rightarrow> lookup \<Rightarrow> WorkflowJob \<Rightarrow> bool" where
  "overdue E t lookup job =
     (case lookup (j_workflow job) (j_version job) of
        None \<Rightarrow> False
      | Some d \<Rightarrow>
          if j_step job < 0 \<or> j_step job \<ge> int (length (wf_steps d)) then False
          else
            (let s = wf_steps d ! nat (j_step job) in
             if st_kind s \<noteq> StepRequireApproval then False
             else case fmlookup (st_params s) ''escalate_after_hours'' of
               Some (VNum h) \<Rightarrow>
                 validEscalateAfterHours h \<and>
                 sint (escalation_threshold (e_cv E) h) \<le> time_sub t (j_updated job)
             | _ \<Rightarrow> False))"

definition escalateOne :: "env \<Rightarrow> WorkflowJob \<Rightarrow> Actor \<Rightarrow> unit dbm" where
  "escalateOne E job actor =
     in_tx (thenM (MarkEscalatedTx E (j_id job))
       (write_audit E (j_entity_type job) (j_record job) ActionUpdate actor
         (Some (fmupd ''escalated'' (VBool True) fmempty))))"

fun escalate_all :: "env \<Rightarrow> nat \<Rightarrow> lookup \<Rightarrow> Actor \<Rightarrow> WorkflowJob list \<Rightarrow> string list dbm" where
  "escalate_all E t lookup actor [] = ret []"
| "escalate_all E t lookup actor (job # jobs) =
     (if \<not> overdue E t lookup job then escalate_all E t lookup actor jobs
      else bindM (catchM (thenM (escalateOne E job actor) (ret True)) (\<lambda>_. ret False)) (\<lambda>ok.
        bindM (escalate_all E t lookup actor jobs) (\<lambda>ids.
          ret (if ok then j_id job # ids else ids))))"

definition EscalateOverdueApprovals :: "env \<Rightarrow> nat \<Rightarrow> lookup \<Rightarrow> Actor \<Rightarrow> string list dbm" where
  "EscalateOverdueApprovals E t lookup actor =
     bindM ListWaitingApproval (escalate_all E t lookup actor)"

section \<open>Backoff is a capped power of two\<close>

lemma backoff_loop_min: "1 \<le> d \<Longrightarrow> d \<le> 300 * second \<Longrightarrow> backoff_loop n d = min (2 ^ n * d) (300 * second)"
proof (induction n arbitrary: d)
  case (Suc n)
  show ?case
  proof (cases "300 * second \<le> d * 2")
    case True
    have "d * 2 \<le> 2 ^ Suc n * d" by simp
    with True have "300 * second \<le> 2 ^ Suc n * d" by (rule order_trans)
    with True show ?thesis by (simp add: Let_def min_def)
  next
    case False
    then show ?thesis using Suc by (simp add: Let_def mult.commute mult.left_commute)
  qed
qed simp

section \<open>Every operation is a sequence of the queue's statements\<close>

text \<open>A call is a run of the queue when its effect is some sequence of single statements.\<close>

definition queue_run :: "env \<Rightarrow> 'a dbm \<Rightarrow> bool" where
  "queue_run E m \<longleftrightarrow> (\<forall>w r w'. m w = (r, w') \<longrightarrow> (queue_step E)\<^sup>*\<^sup>* (w_db w) (w_db w'))"

named_theorems queue_intro "rules for runs of the queue"

lemma queue_run_ret [queue_intro]: "queue_run E (ret x)"
  and queue_run_fail [queue_intro]: "queue_run E (fail e)"
  by (auto simp: queue_run_def)

lemma queue_run_query [queue_intro]: "queue_run E (query f)"
  using query_db by (fastforce simp: queue_run_def)

lemma queue_run_bind [queue_intro]:
  assumes "queue_run E m" "\<And>x. queue_run E (f x)"
  shows "queue_run E (bindM m f)"
  unfolding queue_run_def
proof (intro allI impI)
  fix w r w'
  assume r: "bindM m f w = (r, w')"
  obtain a w1 where a: "m w = (a, w1)" by (cases "m w")
  then have 1: "(queue_step E)\<^sup>*\<^sup>* (w_db w) (w_db w1)"
    using assms(1) unfolding queue_run_def by blast
  show "(queue_step E)\<^sup>*\<^sup>* (w_db w) (w_db w')"
  proof (cases a)
    case (Inl e)
    with r a 1 show ?thesis by (simp add: bindM_def)
  next
    case (Inr x)
    with r a have "f x w1 = (r, w')" by (simp add: bindM_def)
    then have "(queue_step E)\<^sup>*\<^sup>* (w_db w1) (w_db w')"
      using assms(2) unfolding queue_run_def by blast
    with 1 show ?thesis by (rule rtranclp_trans)
  qed
qed

lemma queue_run_then [queue_intro]: "queue_run E m \<Longrightarrow> queue_run E n \<Longrightarrow> queue_run E (thenM m n)"
  by (simp add: thenM_def queue_run_bind)

lemma queue_run_catch [queue_intro]:
  assumes "queue_run E m" "\<And>e. queue_run E (h e)"
  shows "queue_run E (catchM m h)"
  unfolding queue_run_def
proof (intro allI impI)
  fix w r w'
  assume r: "catchM m h w = (r, w')"
  obtain a w1 where a: "m w = (a, w1)" by (cases "m w")
  then have 1: "(queue_step E)\<^sup>*\<^sup>* (w_db w) (w_db w1)"
    using assms(1) unfolding queue_run_def by blast
  show "(queue_step E)\<^sup>*\<^sup>* (w_db w) (w_db w')"
  proof (cases a)
    case (Inl e)
    with r a have "h e w1 = (r, w')" by (simp add: catchM_def)
    then have "(queue_step E)\<^sup>*\<^sup>* (w_db w1) (w_db w')"
      using assms(2) unfolding queue_run_def by blast
    with 1 show ?thesis by (rule rtranclp_trans)
  next
    case (Inr x)
    with r a 1 show ?thesis by (simp add: catchM_def)
  qed
qed

lemma queue_run_step: "(\<And>w r w'. m w = (r, w') \<Longrightarrow> queue_step E (w_db w) (w_db w')) \<Longrightarrow> queue_run E m"
  unfolding queue_run_def by blast

lemma queue_run_statements [queue_intro]:
  "queue_run E ClaimNext"
  "0 \<le> i \<Longrightarrow> queue_run E (MarkDone E jid i)"
  "0 \<le> i \<Longrightarrow> queue_run E (MarkWaitingApproval E jid i)"
  "queue_run E (MarkFailed E jid e again)"
  "queue_run E (ResumeAfterApproval E jid)"
  "queue_run E (MarkEscalatedTx E jid)"
  "queue_run E (ReclaimStale lease)"
  "j_max job = 0 \<Longrightarrow> queue_run E (enqueue_job E job)"
  by (rule queue_run_step, erule queue_step.intros, assumption?)+

lemma queue_fail_run [queue_intro]: "queue_run E (queue_fail E clock job e)"
  unfolding queue_fail_def by (intro queue_intro)

lemma process_steps_run [queue_intro]: "queue_run E (process_steps E q clock job i ss)"
  by (induction ss arbitrary: i) (auto intro!: queue_intro split: option.splits)

lemma process_job_run [queue_intro]: "queue_run E (process_job E q clock lookup job)"
  unfolding process_job_def by (auto intro!: queue_intro split: option.splits)

lemma ProcessOne_run [queue_intro]: "queue_run E (ProcessOne E q clock lookup)"
  unfolding ProcessOne_def by (intro queue_intro)

lemma Queue_Enqueue_run [queue_intro]: "queue_run E (Queue_Enqueue E d et rid actor)"
  unfolding Queue_Enqueue_def by (auto intro!: queue_intro split: option.splits)

lemma queue_run_in_tx [queue_intro]:
  assumes "queue_run E m"
  shows "queue_run E (in_tx m)"
  unfolding queue_run_def
proof (intro allI impI)
  fix w r w'
  assume r: "in_tx m w = (r, w')"
  show "(queue_step E)\<^sup>*\<^sup>* (w_db w) (w_db w')"
  proof (cases r)
    case (Inl e)
    with r show ?thesis by (simp add: in_tx_error)
  next
    case (Inr x)
    with r obtain w1 w2 where "w_db w1 = w_db w" "m w1 = (Inr x, w2)" "w_db w' = w_db w2"
      by (blast elim: in_tx_success)
    with assms show ?thesis unfolding queue_run_def by metis
  qed
qed

lemma write_audit_jobs: "write_audit E et rid act actor diff w = (r, w') \<Longrightarrow> db_jobs (w_db w') = db_jobs (w_db w)"
  unfolding write_audit_def audit_Insert_def stmt_def nullable_uuid_def
  by (auto simp: fail_def split: sum.splits if_splits option.splits)

lemma write_audit_run [queue_intro]: "queue_run E (write_audit E' et rid act actor diff)"
  by (rule queue_run_step, rule queue_step.other, rule write_audit_jobs)

lemma escalateOne_run [queue_intro]: "queue_run E (escalateOne E job actor)"
  unfolding escalateOne_def by (intro queue_intro)

lemma escalate_all_run [queue_intro]: "queue_run E (escalate_all E t lookup actor jobs)"
  by (induction jobs) (auto intro!: queue_intro)

lemma EscalateOverdueApprovals_run [queue_intro]: "queue_run E (EscalateOverdueApprovals E t lookup actor)"
  unfolding EscalateOverdueApprovals_def ListWaitingApproval_def by (intro queue_intro)

section \<open>ProcessOne and Execute\<close>

lemma default_queue: "NewQueue (\<lambda>_. None) = Inr q \<Longrightarrow> q_handlers q StepNotify = Some notify_ok"
  by (auto simp: NewQueue_def)

lemma run_steps_pending_nonempty:
  "StepPending \<in> sr_status ` set (run_steps ss) \<Longrightarrow> 0 < length (run_steps ss)"
  by (cases "run_steps ss") auto

lemma process_steps_execute:
  assumes "q_handlers q StepNotify = Some notify_ok"
  shows "list_all step_ok ss \<Longrightarrow> process_steps E q clock job i ss =
    (if StepPending \<in> sr_status ` set (run_steps ss)
     then bindM (MarkWaitingApproval E (j_id job) (int (i + length (run_steps ss) - 1))) (\<lambda>_. ret job)
     else bindM (MarkDone E (j_id job) (int (i + length ss))) (\<lambda>_. ret job))"
proof (induction ss arbitrary: i)
  case (Cons s ss)
  show ?case
  proof (cases "st_kind s")
    case StepRequireApproval
    then show ?thesis by simp
  next
    case StepNotify
    have "i + length (run_steps (s # ss)) - 1 = Suc i + length (run_steps ss) - 1"
      using StepNotify by simp
    then show ?thesis
      using Cons StepNotify assms run_steps_pending_nonempty [of ss]
      by (simp add: runHandler_def notify_ok_def)
  next
    case (StepOther x)
    then show ?thesis using Cons.prems by (simp add: step_ok_def)
  qed
qed simp

lemma run_steps_length: "length (run_steps ss) \<le> length ss"
  by (induction ss) (auto split: StepKind.splits)

text \<open>A guarded update in a world without failing statements.\<close>

lemma update_job_calm:
  assumes "w_faults w = []" "e_uuid E jid = Some (jb_id r)" "r \<in> set (db_jobs (w_db w))" "P r"
    "distinct (map jb_id (db_jobs (w_db w)))" "row_in_range (g r)"
  shows "\<exists>w'. update_job E jid P g w = (Inr (Some (g r)), w') \<and> g r \<in> set (db_jobs (w_db w'))"
proof -
  let ?P = "\<lambda>x. jb_id x = jb_id r \<and> P x"
  have "List.find ?P (db_jobs (w_db w)) = Some r"
  proof (cases "List.find ?P (db_jobs (w_db w))")
    case None
    then show ?thesis using assms(3,4) by (auto simp: find_None_iff)
  next
    case (Some x)
    then have "x \<in> set (db_jobs (w_db w))" "jb_id x = jb_id r" by (auto dest: find_SomeD)
    with same_id_same_row [OF assms(5,3)] Some show ?thesis by simp
  qed
  moreover have "g r \<in> set (upd_where ?P g (db_jobs (w_db w)))"
    using assms(3,4) by (auto simp: in_upd_where intro!: bexI [of _ r])
  ultimately show ?thesis
    using assms(1,2,6) by (simp add: update_job_def stmt_def faulty_def uuid_arg_def)
qed

lemma affected_calm:
  "m w = (Inr (Some r), w') \<Longrightarrow> affected m w = (Inr (), w')"
  by (simp add: affected_def bindM_def ret_def)

lemma claimed_is_running:
  assumes "ClaimNext w = (Inr j, w1)" "w_faults w = []" "jobs_ok (w_db w)"
  obtains r where "r \<in> set (db_jobs (w_db w1))" "running r" "jb_id r = j_id j" "jb_step r = j_step j"
    "jb_attempts r = j_attempts j" "jb_workflow r = j_workflow j" "jb_version r = j_version j"
    "w_faults w1 = []" "jobs_ok (w_db w1)" "w_now w1 = w_now w"
proof -
  obtain x where x: "is_oldest_due (w_now w) (w_db w) x" "j = to_claimed_job x"
    "w_db w1 = (w_db w)\<lparr>db_jobs := upd_where (\<lambda>y. jb_id y = jb_id x) (claimed_row (w_now w)) (db_jobs (w_db w))\<rparr>"
    using assms(1) by (rule ClaimNext_success)
  have ok: "jobs_ok (w_db w1)"
    by (rule queue_step_ok [OF queue_step.claim [OF assms(1)] assms(3)])
  have in_x: "x \<in> set (db_jobs (w_db w))" using x(1) by (simp add: is_oldest_due_def)
  then have "claimed_row (w_now w) x \<in> set (db_jobs (w_db w1))"
    unfolding x(3) by (auto simp: in_upd_where intro!: bexI [of _ x])
  moreover have "w_faults w1 = [] \<and> w_now w1 = w_now w"
    using assms(1,2) unfolding ClaimNext_def in_tx_def now_bind
    by (auto simp: query_def stmt_def bindM_def thenM_def ret_def faulty_def sent_def rbind_def
        split: prod.splits sum.splits if_splits list.splits)
  ultimately show thesis
    using ok x(2) by (intro that [of "claimed_row (w_now w) x"])
      (simp_all add: claimed_row_def running_def to_claimed_job_def to_job_def)
qed

lemma process_job_execute:
  assumes "ClaimNext w = (Inr j, w1)" "w_faults w = []" "jobs_ok (w_db w)"
    and "e_uuid E (j_id j) = Some (j_id j)" "j_step j = 0"
    and "lookup (j_workflow j) (j_version j) = Some d" "Execute d = Inr results"
    and "NewQueue (\<lambda>_. None) = Inr q" "int (length (wf_steps d)) \<le> max_int4"
  shows "\<exists>w' row. ProcessOne E q clock lookup w = (Inr j, w') \<and> row \<in> set (db_jobs (w_db w')) \<and>
    jb_id row = j_id j \<and>
    (if StepPending \<in> sr_status ` set results
     then jb_status row = JWaitingApproval \<and> jb_step row = int (length results) - 1
     else jb_status row = JDone \<and> jb_step row = int (length (wf_steps d)))"
proof -
  obtain r where r: "r \<in> set (db_jobs (w_db w1))" "running r" "jb_id r = j_id j" "jb_attempts r = j_attempts j"
    "w_faults w1 = []" "jobs_ok (w_db w1)"
    using claimed_is_running [OF assms(1-3)] by metis
  have v: "WfDefinition_Validate d = None" and res: "results = run_steps (wf_steps d)"
    using assms(7) by (auto simp: Execute_def split: option.splits)
  have steps: "list_all step_ok (wf_steps d)" "wf_steps d \<noteq> []"
    using v check_step_ok by (auto simp: WfDefinition_Validate_def check_steps_None_iff list_all_length split: if_splits)
  have run: "ProcessOne E q clock lookup w = process_steps E q clock j 0 (wf_steps d) w1"
    using assms(1,5,6) v steps(2) by (simp add: ProcessOne_def process_job_def bindM_def)
  have ids: "distinct (map jb_id (db_jobs (w_db w1)))" using r(6) by (simp add: jobs_ok_def)
  have att: "int4_arg (Some (jb_attempts r))"
  proof -
    have "job_ok r" using r(1,6) by (simp add: jobs_ok_def)
    then show ?thesis by (auto simp: job_ok_def int4_arg_def max_int4_def split: if_splits)
  qed
  have len: "length results \<le> length (wf_steps d)"
    unfolding res by (rule run_steps_length)
  show ?thesis
  proof (cases "StepPending \<in> sr_status ` set results")
    case True
    let ?g = "waiting_row (w_now w1) (int (length results - 1))"
    obtain w' where w': "update_job E (j_id j) running ?g w1 = (Inr (Some (?g r)), w')" "?g r \<in> set (db_jobs (w_db w'))"
    proof -
      have "row_in_range (?g r)"
        using att assms(9) len by (auto simp: row_in_range_def waiting_row_def int4_arg_def max_int4_def)
      then show thesis
        using update_job_calm [of w1 E "j_id j" r running ?g] r ids assms(4) that by metis
    qed
    have "MarkWaitingApproval E (j_id j) (int (length results - 1)) w1 = (Inr (), w')"
      unfolding MarkWaitingApproval_def now_bind using w'(1) by (rule affected_calm)
    then have "process_steps E q clock j 0 (wf_steps d) w1 = (Inr j, w')"
      using process_steps_execute [OF default_queue [OF assms(8)] steps(1)] True
      by (simp add: res bindM_def ret_def)
    moreover have "0 < length results" using True run_steps_pending_nonempty res by simp
    then have "int (length results - 1) = int (length results) - 1" by linarith
    ultimately show ?thesis
      using True w'(2) r(3) run by (intro exI [of _ w'] exI [of _ "?g r"]) (auto simp: waiting_row_def)
  next
    case False
    let ?g = "done_row (w_now w1) (int (length (wf_steps d)))"
    obtain w' where w': "update_job E (j_id j) running ?g w1 = (Inr (Some (?g r)), w')" "?g r \<in> set (db_jobs (w_db w'))"
    proof -
      have "row_in_range (?g r)"
        using att assms(9) by (auto simp: row_in_range_def done_row_def int4_arg_def max_int4_def)
      then show thesis
        using update_job_calm [of w1 E "j_id j" r running ?g] r ids assms(4) that by metis
    qed
    have "MarkDone E (j_id j) (int (length (wf_steps d))) w1 = (Inr (), w')"
      unfolding MarkDone_def now_bind using w'(1) by (rule affected_calm)
    then have "process_steps E q clock j 0 (wf_steps d) w1 = (Inr j, w')"
      using process_steps_execute [OF default_queue [OF assms(8)] steps(1)] False
      by (simp add: res bindM_def ret_def)
    then show ?thesis
      using False w'(2) r(3) run by (intro exI [of _ w'] exI [of _ "?g r"]) (auto simp: done_row_def)
  qed
qed

section \<open>Escalation leaves its trace\<close>

text \<open>An escalation that fails changes nothing; one that succeeds adds its audit row.\<close>

lemma MarkEscalatedTx_frame:
  assumes "MarkEscalatedTx E jid w = (r, w')"
  shows "db_audit (w_db w') = db_audit (w_db w)"
proof -
  obtain xs where "w_db w' = (w_db w)\<lparr>db_jobs := xs\<rparr>"
    using MarkEscalatedTx_changed [OF assms] unfolding changed_by_def by blast
  then show ?thesis by simp
qed

lemma escalateOne_audit:
  assumes "escalateOne E job actor w = (r, w')"
  shows "case r of
      Inl e \<Rightarrow> w_db w' = w_db w
    | Inr u \<Rightarrow> accountable actor \<and> db_audit (w_db w') = db_audit (w_db w) @
        [audit_of E (j_entity_type job) (j_record job) ActionUpdate actor
          (Some (fmupd ''escalated'' (VBool True) fmempty))]"
proof (cases r)
  case (Inl e)
  with assms show ?thesis by (simp add: escalateOne_def in_tx_error)
next
  case (Inr u)
  with assms obtain w1 w2 where w: "w_db w1 = w_db w" "w_db w' = w_db w2"
    and b: "thenM (MarkEscalatedTx E (j_id job))
       (write_audit E (j_entity_type job) (j_record job) ActionUpdate actor
         (Some (fmupd ''escalated'' (VBool True) fmempty))) w1 = (Inr u, w2)"
    unfolding escalateOne_def by (blast elim: in_tx_success)
  then obtain x w3 where m: "MarkEscalatedTx E (j_id job) w1 = (Inr x, w3)"
    and a: "write_audit E (j_entity_type job) (j_record job) ActionUpdate actor
         (Some (fmupd ''escalated'' (VBool True) fmempty)) w3 = (Inr u, w2)"
    by (auto simp: thenM_Inr_iff)
  then show ?thesis
    using Inr w MarkEscalatedTx_frame [OF m] write_audit_db [OF a] by simp
qed

lemma escalate_all_outcome:
  "escalate_all E t lookup actor jobs w = (r, w') \<Longrightarrow>
    \<exists>ids. r = Inr ids \<and> set ids \<subseteq> j_id ` set (filter (overdue E t lookup) jobs) \<and>
      length (db_audit (w_db w')) = length (db_audit (w_db w)) + length ids"
proof (induction jobs arbitrary: w r w')
  case (Cons job jobs)
  show ?case
  proof (cases "overdue E t lookup job")
    case False
    with Cons show ?thesis by auto
  next
    case True
    obtain a w1 where a: "escalateOne E job actor w = (a, w1)" by (cases "escalateOne E job actor w")
    obtain s w2 where s: "escalate_all E t lookup actor jobs w1 = (s, w2)"
      by (cases "escalate_all E t lookup actor jobs w1")
    obtain ids where ids: "s = Inr ids" "set ids \<subseteq> j_id ` set (filter (overdue E t lookup) jobs)"
      "length (db_audit (w_db w2)) = length (db_audit (w_db w1)) + length ids"
      using Cons.IH [OF s] by blast
    have "r = Inr (if isl a then ids else j_id job # ids) \<and> w' = w2"
      using Cons.prems True a s ids(1)
      by (cases a) (simp_all add: bindM_def catchM_def thenM_def ret_def)
    moreover have "length (db_audit (w_db w1)) = length (db_audit (w_db w)) + (if isl a then 0 else 1)"
      using escalateOne_audit [OF a] by (cases a) simp_all
    ultimately show ?thesis using ids(2,3) True by auto
  qed
qed simp

end
