(* ===== verification/QueueProps.thy ===== *)
theory QueueProps
  imports Queue CrudProps
begin

text \<open>
  Properties of the job queue: the life every job follows whatever the workers do, the
  bound on its attempts, the agreement of the two executors, and escalation.
\<close>

section \<open>A job in a table\<close>

definition job_a :: jobrow where
  "job_a =
     \<lparr>jb_id = id_a, jb_workflow = ''nightly'', jb_version = 1, jb_entity_type = None, jb_record = None,
      jb_step = 0, jb_status = JQueued, jb_attempts = 0, jb_max = 5, jb_last_error = None,
      jb_run_after = 0, jb_escalated = False, jb_actor_type = ActorSystem, jb_actor_id = ''scheduler'',
      jb_model_version = None, jb_input_hash = None, jb_created = 0, jb_updated = 0\<rparr>"

definition jobs_a :: db where
  "jobs_a = empty_db\<lparr>db_jobs := [job_a]\<rparr>"

definition jobs_a_running :: db where
  "jobs_a_running = empty_db\<lparr>db_jobs := [job_a\<lparr>jb_status := JRunning, jb_updated := 7\<rparr>]\<rparr>"

lemma jobs_a_ok: "jobs_ok jobs_a"
  by (simp add: jobs_ok_def jobs_a_def job_ok_def job_a_def max_int4_def)

lemma claim_a:
  "ClaimNext (sample_world jobs_a) = (Inr (to_claimed_job job_a), sample_world jobs_a_running)"
  by (simp add: ClaimNext_def in_tx_def query_def stmt_def faulty_def sample_world_def sent_def now_def
      bindM_def thenM_def ret_def rbind_def jobs_a_def jobs_a_running_def due_def job_a_def upd_where_def
      claimed_row_def)

section \<open>Properties\<close>

text \<open>
  C15. Every job lives by the abstract state machine. Whatever statements any number of
  workers run, in any order, late or twice, and whichever of them fail, a job that is in the
  table stays in it with the same workflow, record and actor, and what happened to it is a
  sequence of the transitions pending, active, awaiting approval, finished and dead that the
  specification \<open>life\<close> allows.
\<close>
theorem jobs_refine_their_life:
  assumes "(queue_step E)\<^sup>*\<^sup>* D D'" and "jobs_ok D" and "r \<in> set (db_jobs D)"
  shows "\<exists>r' \<in> set (db_jobs D'). same_run r r' \<and> (life (jb_max r))\<^sup>*\<^sup>* (phase_of r) (phase_of r')"
  using queue_steps_simulated [OF assms] by blast

theorem jobs_refine_their_life_witness:
  "\<exists>r' \<in> set (db_jobs jobs_a_running). same_run job_a r' \<and> (life 5)\<^sup>*\<^sup>* (Pending 0 0) (phase_of r')"
proof -
  have "queue_step sample_env (w_db (sample_world jobs_a)) (w_db (sample_world jobs_a_running))"
    by (rule queue_step.claim [OF claim_a])
  then have "(queue_step sample_env)\<^sup>*\<^sup>* jobs_a jobs_a_running"
    by (simp add: sample_world_def r_into_rtranclp)
  from jobs_refine_their_life [OF this jobs_a_ok, of job_a] show ?thesis
    by (simp add: jobs_a_def job_a_def)
qed

text \<open>
  Finished work stays finished: a job that is done or in the dead letter box is never run
  again, not even by a worker that was presumed dead and reports late.
\<close>
theorem finished_jobs_stay_finished:
  assumes "(queue_step E)\<^sup>*\<^sup>* D D'" and "jobs_ok D" and "r \<in> set (db_jobs D)"
    and "jb_status r = JDone \<or> jb_status r = JDeadLetter"
  shows "\<exists>r' \<in> set (db_jobs D'). same_run r r' \<and> jb_status r' = jb_status r"
proof -
  obtain r' where r': "r' \<in> set (db_jobs D')" "same_run r r'" "(life (jb_max r))\<^sup>*\<^sup>* (phase_of r) (phase_of r')"
    using queue_steps_simulated [OF assms(1-3)] by blast
  have "phase_of r' = phase_of r"
    using r'(3) assms(4) by (auto elim: converse_rtranclpE)
  then have "jb_status r' = jb_status r"
    using assms(4) by (cases "jb_status r'") auto
  with r' show ?thesis by blast
qed

theorem finished_jobs_stay_finished_witness:
  "\<exists>D r. jobs_ok D \<and> r \<in> set (db_jobs D) \<and> jb_status r = JDone \<and>
    (\<exists>r' \<in> set (db_jobs (w_db (snd (MarkFailed sample_env id_a LeaseExpired 0 (sample_world D))))).
      same_run r r' \<and> jb_status r' = JDone)"
proof -
  let ?r = "job_a\<lparr>jb_status := JDone\<rparr>"
  let ?D = "empty_db\<lparr>db_jobs := [?r]\<rparr>"
  have ok: "jobs_ok ?D" "?r \<in> set (db_jobs ?D)" "jb_status ?r = JDone \<or> jb_status ?r = JDeadLetter"
    by (simp_all add: jobs_ok_def job_ok_def job_a_def max_int4_def)
  obtain a w' where m: "MarkFailed sample_env id_a LeaseExpired 0 (sample_world ?D) = (a, w')"
    by (cases "MarkFailed sample_env id_a LeaseExpired 0 (sample_world ?D)")
  have "queue_step sample_env (w_db (sample_world ?D)) (w_db w')"
    by (rule queue_step.give_up [OF m])
  then have "(queue_step sample_env)\<^sup>*\<^sup>* ?D (w_db w')"
    by (simp add: sample_world_def r_into_rtranclp)
  from finished_jobs_stay_finished [OF this ok] have "\<exists>r' \<in> set (db_jobs (w_db w')). same_run ?r r' \<and> jb_status r' = JDone"
    by simp
  then show ?thesis using ok m by (intro exI [of _ ?D] exI [of _ ?r]) simp
qed

text \<open>
  C16. The table stays sound: from a sound table every reachable one is sound. Ids are unique,
  a job has failed fewer times than its maximum unless it is in the dead letter box, where it
  has failed exactly that often, and only a job that awaits approval is marked escalated, so an
  escalation never reaches the next approval step.
\<close>
theorem job_table_stays_sound:
  assumes "(queue_step E)\<^sup>*\<^sup>* D D'" and "jobs_ok D"
  shows "jobs_ok D'"
  using assms by (induction rule: rtranclp_induct) (auto intro: queue_step_ok)

theorem job_table_stays_sound_witness: "jobs_ok (w_db (snd (ClaimNext (sample_world jobs_a))))"
proof (rule job_table_stays_sound)
  show "jobs_ok jobs_a" by (rule jobs_a_ok)
  have "queue_step sample_env (w_db (sample_world jobs_a)) (w_db (sample_world jobs_a_running))"
    by (rule queue_step.claim [OF claim_a])
  then show "(queue_step sample_env)\<^sup>*\<^sup>* jobs_a (w_db (snd (ClaimNext (sample_world jobs_a))))"
    by (simp add: claim_a) (simp add: sample_world_def r_into_rtranclp)
qed

text \<open>
  Every job settles: without an approval by a human, a sound job changes at most four times
  as often as it may be attempted (twenty times with the default of five), whatever happens to
  it; a job whose handler always fails or whose worker always dies is therefore not retried for
  ever.
\<close>
theorem unaided_jobs_settle:
  assumes "job_ok r" and "(unaided (jb_max r) ^^ n) (phase_of r) p"
  shows "int n \<le> 4 * jb_max r"
  using unaided_bound [OF assms(2) job_ok_phase [OF assms(1)]]
    weight_bounds [OF job_ok_phase [OF assms(1)]] weight_bounds [of "jb_max r" p] by linarith

theorem unaided_jobs_settle_witness: "int 2 \<le> 4 * jb_max job_a"
proof (rule unaided_jobs_settle)
  show "job_ok job_a" by (simp add: job_ok_def job_a_def max_int4_def)
  have "unaided 5 (Pending 0 0) (Active 0 0)" "unaided 5 (Active 0 0) (Pending 1 0)"
    using life.claimed [of 5 0 0] life.retried [of 0 5 0] by (simp_all add: unaided_def)
  then have "(unaided 5 ^^ 2) (Pending 0 0) (Pending 1 0)"
    by (auto simp: numeral_2_eq_2)
  then show "(unaided (jb_max job_a) ^^ 2) (phase_of job_a) (Pending 1 0)"
    by (simp add: job_a_def)
qed

text \<open>
  A worker only moves jobs along: what \<open>ProcessOne\<close>, \<open>Enqueue\<close> and the escalation sweep do
  to the database, when they succeed and when they fail, is a sequence of the queue's
  statements, so that every property of those sequences holds of any interleaving of workers.
\<close>
theorem queue_calls_are_runs:
  "(\<forall>w. (queue_step E)\<^sup>*\<^sup>* (w_db w) (w_db (snd (ProcessOne E q clock lookup w)))) \<and>
   (\<forall>w. (queue_step E)\<^sup>*\<^sup>* (w_db w) (w_db (snd (Queue_Enqueue E d et rid actor w)))) \<and>
   (\<forall>w. (queue_step E)\<^sup>*\<^sup>* (w_db w) (w_db (snd (EscalateOverdueApprovals E t lookup actor w))))"
  using ProcessOne_run Queue_Enqueue_run EscalateOverdueApprovals_run
  unfolding queue_run_def by (metis prod.collapse)

text \<open>
  C17. The durable queue and the in-memory executor agree: a claimed job at step 0, run by a queue
  with the default handlers and no failing statement, awaits approval exactly where \<open>Execute\<close>
  of its definition halts as pending, and is done, past the last step, exactly when \<open>Execute\<close> runs
  all steps.
\<close>
theorem process_one_agrees_with_execute:
  assumes "ClaimNext w = (Inr j, w1)" "w_faults w = []" "jobs_ok (w_db w)"
    and "e_uuid E (j_id j) = Some (j_id j)" "j_step j = 0"
    and "lookup (j_workflow j) (j_version j) = Some d" "Execute d = Inr results"
    and "NewQueue (\<lambda>_. None) = Inr q" "int (length (wf_steps d)) \<le> max_int4"
  shows "\<exists>w' row. ProcessOne E q clock lookup w = (Inr j, w') \<and> row \<in> set (db_jobs (w_db w')) \<and>
    jb_id row = j_id j \<and>
    (if StepPending \<in> sr_status ` set results
     then jb_status row = JWaitingApproval \<and> jb_step row = int (length results) - 1
     else jb_status row = JDone \<and> jb_step row = int (length (wf_steps d)))"
  using assms by (rule process_job_execute)

theorem process_one_agrees_with_execute_witness:
  "\<exists>q w' row. ProcessOne sample_env q 0 (\<lambda>_ _. Some nightly) (sample_world jobs_a) = (Inr (to_claimed_job job_a), w') \<and>
    row \<in> set (db_jobs (w_db w')) \<and> jb_id row = id_a \<and> jb_status row = JDone"
proof -
  obtain q where q: "NewQueue (\<lambda>_. None) = Inr q" by (simp add: NewQueue_def)
  have e: "Execute nightly = Inr [\<lparr>sr_kind = StepNotify, sr_status = StepDone\<rparr>]"
    using nightly_valid by (simp add: Execute_def nightly_def)
  have c: "ClaimNext (sample_world jobs_a) = (Inr (to_claimed_job job_a), sample_world jobs_a_running)"
    by (rule claim_a)
  have u: "e_uuid sample_env (j_id (to_claimed_job job_a)) = Some (j_id (to_claimed_job job_a))"
    by (simp add: to_claimed_job_def to_job_def job_a_def sample_env_def Canonical_id_a)
  show ?thesis
    using process_one_agrees_with_execute [OF c _ _ u _ _ e q, of "\<lambda>_ _. Some nightly" 0] jobs_a_ok
    by (auto simp: sample_world_def to_claimed_job_def to_job_def job_a_def nightly_def max_int4_def)
qed

text \<open>
  The delay before a retry doubles from one second up to five minutes and stays there.
\<close>
theorem backoff_is_capped_doubling: "defaultBackoff n = min (2 ^ nat n * second) (300 * second)"
  unfolding defaultBackoff_def by (rule backoff_loop_min) (simp_all add: second_def)

text \<open>
  One bad job never stops the escalation sweep, and no escalation goes unrecorded: once the
  candidates are listed the sweep always returns, with ids of jobs that were overdue, and it has
  written exactly one audit entry for each of them, none for the jobs it could not escalate.
\<close>
theorem escalation_sweep_is_audited:
  assumes "ListWaitingApproval w = (Inr jobs, w1)"
  shows "\<exists>ids w'. EscalateOverdueApprovals E t lookup actor w = (Inr ids, w') \<and>
    set ids \<subseteq> j_id ` set (filter (overdue E t lookup) jobs) \<and>
    length (db_audit (w_db w')) = length (db_audit (w_db w)) + length ids"
proof -
  obtain r w' where r: "escalate_all E t lookup actor jobs w1 = (r, w')"
    by (cases "escalate_all E t lookup actor jobs w1")
  have "w_db w1 = w_db w" using assms unfolding ListWaitingApproval_def by (rule query_db)
  with escalate_all_outcome [OF r] r assms show ?thesis
    by (auto simp: EscalateOverdueApprovals_def bindM_def)
qed

theorem escalation_sweep_is_audited_witness:
  "\<exists>ids w'. EscalateOverdueApprovals sample_env 0 (\<lambda>_ _. Some nightly) sample_actor (sample_world jobs_a) = (Inr ids, w') \<and>
    length (db_audit (w_db w')) = length ids"
proof -
  have "ListWaitingApproval (sample_world jobs_a) = (Inr [], sample_world jobs_a)"
    by (simp add: ListWaitingApproval_def query_def stmt_def faulty_def sample_world_def sent_def rbind_def
        jobs_a_def job_a_def waiting_def)
  from escalation_sweep_is_audited [OF this, of sample_env 0 "\<lambda>_ _. Some nightly" sample_actor]
  show ?thesis by (auto simp: sample_world_def jobs_a_def empty_db_def)
qed

end
