(* ===== verification/Scheduler.thy ===== *)
theory Scheduler
  imports Queue
begin

text \<open>
  Scheduled workflows (\<open>internal/kernel/workflow/scheduler.go\<close> and
  \<open>internal/data/workflow_schedules.go\<close>): the table of standing schedules, its
  reconciliation with the published definitions, and the firing of the due ones. The
  registry of published definitions is given as a function: an error of the lookup, or the
  stored document, \<open>None\<close> for one that is not a definition at all.
\<close>

section \<open>The schedule table\<close>

definition upsert_row :: "int \<Rightarrow> string \<Rightarrow> gtime \<Rightarrow> schedrow \<Rightarrow> schedrow" where
  "upsert_row v cron nxt r =
     r\<lparr>sc_version := v, sc_cron := cron, sc_next_due := (if sc_cron r \<noteq> cron then nxt else sc_next_due r)\<rparr>"

definition Schedule_Upsert :: "string \<Rightarrow> int \<Rightarrow> string \<Rightarrow> gtime \<Rightarrow> unit dbm" where
  "Schedule_Upsert name v cron nxt =
     stmt (\<lambda>d.
       if \<not> int4_arg (Some v) then Inl ErrDB
       else if name \<in> sc_name ` set (db_schedules d)
       then Inr ((), d\<lparr>db_schedules :=
              map (\<lambda>r. if sc_name r = name then upsert_row v cron nxt r else r) (db_schedules d)\<rparr>)
       else Inr ((), d\<lparr>db_schedules := db_schedules d @
              [\<lparr>sc_name = name, sc_version = v, sc_cron = cron, sc_next_due = nxt, sc_last_fired = None\<rparr>]\<rparr>))"

definition DeleteExcept :: "string list \<Rightarrow> unit dbm" where
  "DeleteExcept keep =
     (if keep = [] then stmt (\<lambda>d. Inr ((), d\<lparr>db_schedules := []\<rparr>))
      else stmt (\<lambda>d. Inr ((), d\<lparr>db_schedules := filter (\<lambda>r. sc_name r \<in> set keep) (db_schedules d)\<rparr>)))"

definition schedule_due :: "gtime \<Rightarrow> schedrow \<Rightarrow> bool" where
  "schedule_due t r \<longleftrightarrow> sc_next_due r \<le> t"

definition ClaimDueTx :: "gtime \<Rightarrow> schedrow dbm" where
  "ClaimDueTx t =
     query (\<lambda>d. case sort_key sc_next_due (filter (schedule_due t) (db_schedules d)) of
        [] \<Rightarrow> Inl ErrNoScheduleDue | r # _ \<Rightarrow> Inr r)"

definition advance_row :: "gtime \<Rightarrow> gtime \<Rightarrow> schedrow \<Rightarrow> schedrow" where
  "advance_row fired nxt r = r\<lparr>sc_last_fired := Some fired, sc_next_due := nxt\<rparr>"

definition AdvanceTx :: "string \<Rightarrow> gtime \<Rightarrow> gtime \<Rightarrow> unit dbm" where
  "AdvanceTx name fired nxt =
     stmt (\<lambda>d. Inr ((), d\<lparr>db_schedules :=
       map (\<lambda>r. if sc_name r = name then advance_row fired nxt r else r) (db_schedules d)\<rparr>))"

definition Schedule_List :: "schedrow list dbm" where
  "Schedule_List = query (\<lambda>d. Inr (sort_key sc_name (db_schedules d)))"

section \<open>Reconciling\<close>

type_synonym registry = "string \<Rightarrow> (err, WfDefinition option) result"

text \<open>\<open>workflow.Unmarshal\<close> of the stored document.\<close>

definition wf_Unmarshal :: "WfDefinition option \<Rightarrow> WfDefinition option" where
  "wf_Unmarshal x =
     (case x of None \<Rightarrow> None
      | Some d \<Rightarrow> (case WfDefinition_Validate d of Some _ \<Rightarrow> None | None \<Rightarrow> Some d))"

text \<open>What one published name asks for: its definition and when it is next due.\<close>

definition wants_schedule :: "gtime \<Rightarrow> WfDefinition option \<Rightarrow> (WfDefinition \<times> gtime) option" where
  "wants_schedule t doc =
     (case wf_Unmarshal doc of
        None \<Rightarrow> None
      | Some d \<Rightarrow>
          if tr_type (wf_trigger d) \<noteq> TriggerScheduled then None
          else case parsed_schedule (tr_cron (wf_trigger d)) of
            Inl e \<Rightarrow> None
          | Inr s \<Rightarrow> (case Next s t of Inl e \<Rightarrow> None | Inr n \<Rightarrow> Some (d, n)))"

fun sync_names :: "registry \<Rightarrow> gtime \<Rightarrow> string list \<Rightarrow> string list dbm" where
  "sync_names reg t [] = ret []"
| "sync_names reg t (name # names) =
     (case reg name of
        Inl e \<Rightarrow> if e = ErrNotFound then sync_names reg t names else fail e
      | Inr doc \<Rightarrow>
          (case wants_schedule t doc of
             None \<Rightarrow> sync_names reg t names
           | Some (d, n) \<Rightarrow>
               thenM (Schedule_Upsert (wf_name d) (wf_version d) (tr_cron (wf_trigger d)) n)
                 (bindM (sync_names reg t names) (\<lambda>rest. ret (wf_name d # rest)))))"

definition Sync :: "(err, string list) result \<Rightarrow> registry \<Rightarrow> gtime \<Rightarrow> unit dbm" where
  "Sync published reg t =
     (case published of
        Inl e \<Rightarrow> fail e
      | Inr names \<Rightarrow> bindM (sync_names reg t names) DeleteExcept)"

section \<open>Firing\<close>

definition scheduled_job :: "schedrow \<Rightarrow> Actor \<Rightarrow> WorkflowJob" where
  "scheduled_job r actor =
     \<lparr>j_id = [], j_workflow = sc_name r, j_version = sc_version r, j_entity_type = [], j_record = [],
      j_step = 0, j_status = JQueued, j_attempts = 0, j_max = 0, j_last_error = None,
      j_run_after = 0, j_updated = 0, j_escalated = False, j_actor = actor, j_input_hash = []\<rparr>"

definition fireOne :: "env \<Rightarrow> gtime \<Rightarrow> Actor \<Rightarrow> string dbm" where
  "fireOne E t actor =
     in_tx (bindM (ClaimDueTx t) (\<lambda>r.
       case parsed_schedule (sc_cron r) of
         Inl e \<Rightarrow> fail (ErrCron e)
       | Inr s \<Rightarrow>
           (case Next s t of
              Inl e \<Rightarrow> fail (ErrCron e)
            | Inr n \<Rightarrow>
                thenM (enqueue_job E (scheduled_job r actor))
                  (thenM (AdvanceTx (sc_name r) t n) (ret (sc_name r))))))"

text \<open>The loop of \<open>FireDue\<close>: the names fired, and the error that stopped it.\<close>

fun fire_loop :: "nat \<Rightarrow> env \<Rightarrow> gtime \<Rightarrow> Actor \<Rightarrow> world \<Rightarrow> (string list \<times> err option) \<times> world" where
  "fire_loop 0 E t actor w = (([], None), w)"
| "fire_loop (Suc n) E t actor w =
     (case fireOne E t actor w of
        (Inl e, w1) \<Rightarrow> (([], if e = ErrNoScheduleDue then None else Some e), w1)
      | (Inr name, w1) \<Rightarrow>
          (case fire_loop n E t actor w1 of ((names, e), w2) \<Rightarrow> ((name # names, e), w2)))"

definition maxPerTick :: nat where
  "maxPerTick = 100"

definition FireDue :: "env \<Rightarrow> gtime \<Rightarrow> Actor \<Rightarrow> world \<Rightarrow> (string list \<times> err option) \<times> world" where
  "FireDue E t actor w = fire_loop maxPerTick E t actor w"

section \<open>What one firing does\<close>

definition schedules_ok :: "db \<Rightarrow> bool" where
  "schedules_ok D \<longleftrightarrow> distinct (map sc_name (db_schedules D))"

lemma enqueue_job_schedules: "enqueue_job E job w = (r, w') \<Longrightarrow> db_schedules (w_db w') = db_schedules (w_db w)"
  using enqueue_job_outcome [of E job w r w'] by auto

text \<open>A successful firing: a due schedule, one fresh job for it, and a next due time past \<open>t\<close>.\<close>

lemma fireOne_success:
  assumes "fireOne E t actor w = (Inr name, w')" and "valid_time t"
  obtains r n job where "r \<in> set (db_schedules (w_db w))" "sc_name r = name" "schedule_due t r"
    "t < n" "fresh_job job" "jb_workflow job = name" "jb_version job = sc_version r" "jb_max job = 5"
    "jb_id job \<notin> jb_id ` set (db_jobs (w_db w))" "accountable actor"
    "w_db w' = (w_db w)\<lparr>db_jobs := db_jobs (w_db w) @ [job],
       db_schedules := map (\<lambda>x. if sc_name x = name then advance_row t n x else x) (db_schedules (w_db w))\<rparr>"
proof -
  obtain w1 w2 where w: "w_db w1 = w_db w" "w_db w' = w_db w2"
    and b: "bindM (ClaimDueTx t) (\<lambda>r.
       case parsed_schedule (sc_cron r) of
         Inl e \<Rightarrow> fail (ErrCron e)
       | Inr s \<Rightarrow>
           (case Next s t of
              Inl e \<Rightarrow> fail (ErrCron e)
            | Inr n \<Rightarrow>
                thenM (enqueue_job E (scheduled_job r actor))
                  (thenM (AdvanceTx (sc_name r) t n) (ret (sc_name r))))) w1 = (Inr name, w2)"
    using assms(1) unfolding fireOne_def by (rule in_tx_success)
  obtain r w3 where claim: "ClaimDueTx t w1 = (Inr r, w3)"
    and rest: "(case parsed_schedule (sc_cron r) of
         Inl e \<Rightarrow> fail (ErrCron e)
       | Inr s \<Rightarrow>
           (case Next s t of
              Inl e \<Rightarrow> fail (ErrCron e)
            | Inr n \<Rightarrow>
                thenM (enqueue_job E (scheduled_job r actor))
                  (thenM (AdvanceTx (sc_name r) t n) (ret (sc_name r))))) w3 = (Inr name, w2)"
    using b by (auto simp: bindM_Inr_iff)
  obtain s n where sn: "parsed_schedule (sc_cron r) = Inr s" "Next s t = Inr n"
    and go: "thenM (enqueue_job E (scheduled_job r actor))
                  (thenM (AdvanceTx (sc_name r) t n) (ret (sc_name r))) w3 = (Inr name, w2)"
    using rest by (auto split: sum.splits)
  obtain j w4 where enq: "enqueue_job E (scheduled_job r actor) w3 = (Inr j, w4)"
    and adv: "w_db w2 = (w_db w4)\<lparr>db_schedules :=
      map (\<lambda>x. if sc_name x = name then advance_row t n x else x) (db_schedules (w_db w4))\<rparr>" "sc_name r = name"
    using go by (auto simp: thenM_Inr_iff AdvanceTx_def stmt_Inr_iff)
  have r: "r \<in> set (db_schedules (w_db w))" "schedule_due t r" "w_db w3 = w_db w"
  proof -
    have "\<exists>rs. sort_key sc_next_due (filter (schedule_due t) (db_schedules (w_db w))) = r # rs"
      using claim unfolding ClaimDueTx_def by (auto simp: query_Inr_iff w split: list.splits)
    then show "r \<in> set (db_schedules (w_db w))" "schedule_due t r" using sort_key_hd by fastforce+
    show "w_db w3 = w_db w" using claim w unfolding ClaimDueTx_def by (simp add: query_Inr_iff)
  qed
  have "t < n" using Next_outcome [OF assms(2), of s] sn(2) by simp
  then show thesis
    using enqueue_job_outcome [OF enq] r adv w that [of r n]
    by (auto simp: scheduled_job_def)
qed

lemma fireOne_error: "fireOne E t actor w = (Inl e, w') \<Longrightarrow> w_db w' = w_db w"
  unfolding fireOne_def by (rule in_tx_error)

text \<open>\<open>ErrNoScheduleDue\<close> means what it says.\<close>

lemma enqueue_job_not_due: "enqueue_job E job w = (Inl e, w') \<Longrightarrow> e \<noteq> ErrNoScheduleDue"
  unfolding enqueue_job_def bindM_def fresh_id_def now_def stmt_def nullable_uuid_def uuid_arg_def
  by (auto simp: fail_def Let_def split: option.splits if_splits sum.splits)

lemma fireOne_none_due:
  assumes "fireOne E t actor w = (Inl ErrNoScheduleDue, w')"
  shows "\<not> (\<exists>r \<in> set (db_schedules (w_db w)). schedule_due t r)"
proof (rule ccontr)
  assume "\<not> ?thesis"
  then have "set (sort_key sc_next_due (filter (schedule_due t) (db_schedules (w_db w)))) \<noteq> {}"
    by auto
  then obtain r rs where ne: "sort_key sc_next_due (filter (schedule_due t) (db_schedules (w_db w))) = r # rs"
    by (cases "sort_key sc_next_due (filter (schedule_due t) (db_schedules (w_db w)))") auto
  have q: "query (\<lambda>_. Inr ()) v = (if faulty v then (Inl ErrDB, sent v) else (Inr (), sent v))" for v
    by (simp add: query_def stmt_def sent_def)
  have claim: "ClaimDueTx t (sent w) = (if faulty (sent w) then Inl ErrDB else Inr r, sent (sent w))"
    unfolding ClaimDueTx_def by (simp add: query_def stmt_def ne rbind_def)
  have adv: "fst (AdvanceTx name t n v) \<noteq> Inl ErrNoScheduleDue" for name n v
    by (simp add: AdvanceTx_def stmt_def)
  have body: "fst (bindM (ClaimDueTx t) (\<lambda>r.
       case parsed_schedule (sc_cron r) of
         Inl e \<Rightarrow> fail (ErrCron e)
       | Inr s \<Rightarrow>
           (case Next s t of
              Inl e \<Rightarrow> fail (ErrCron e)
            | Inr n \<Rightarrow>
                thenM (enqueue_job E (scheduled_job r actor))
                  (thenM (AdvanceTx (sc_name r) t n) (ret (sc_name r))))) (sent w)) \<noteq> Inl ErrNoScheduleDue"
    (is "fst ?b \<noteq> _")
    using enqueue_job_not_due [of E "scheduled_job r actor"] adv
    by (auto simp: bindM_def thenM_def claim ret_def fail_def split: sum.splits prod.splits if_splits)
      (metis fst_conv)
  show False
    using assms body unfolding fireOne_def in_tx_def q
    by (auto split: if_splits prod.splits sum.splits)
qed

section \<open>The firing loop\<close>

text \<open>
  What the loop has done: every fired schedule was due and is now due later than \<open>t\<close>, no name was
  fired twice, and there is one fresh job per firing.
\<close>

definition past_due :: "gtime \<Rightarrow> db \<Rightarrow> string set" where
  "past_due t D = sc_name ` {r \<in> set (db_schedules D). schedule_due t r}"

lemma past_due_advance:
  assumes "schedules_ok D" "t < n"
    and "db_schedules D' = map (\<lambda>x. if sc_name x = name then advance_row t n x else x) (db_schedules D)"
  shows "past_due t D' = past_due t D - {name}" "schedules_ok D'"
proof -
  have n: "\<not> schedule_due t (advance_row t n x)" for x
    using assms(2) by (simp add: schedule_due_def advance_row_def)
  show "past_due t D' = past_due t D - {name}"
  proof (intro subset_antisym subsetI)
    fix y assume "y \<in> past_due t D'"
    then obtain x where "x \<in> set (db_schedules D)" "sc_name x \<noteq> name" "schedule_due t x" "y = sc_name x"
      unfolding past_due_def assms(3) using n by (auto split: if_splits)
    then show "y \<in> past_due t D - {name}" unfolding past_due_def by blast
  next
    fix y assume "y \<in> past_due t D - {name}"
    then obtain x where "x \<in> set (db_schedules D)" "schedule_due t x" "y = sc_name x" "sc_name x \<noteq> name"
      unfolding past_due_def by blast
    then show "y \<in> past_due t D'" unfolding past_due_def assms(3) by force
  qed
  have "map sc_name (db_schedules D') = map sc_name (db_schedules D)"
    unfolding assms(3) by (simp add: advance_row_def)
  then show "schedules_ok D'" using assms(1) by (simp add: schedules_ok_def)
qed

lemma fire_loop_outcome:
  assumes "valid_time t"
  shows "fire_loop n E t actor w = ((names, e), w') \<Longrightarrow> schedules_ok (w_db w) \<Longrightarrow>
    distinct names \<and> set names \<subseteq> past_due t (w_db w) \<and> past_due t (w_db w') = past_due t (w_db w) - set names \<and>
    map jb_workflow (db_jobs (w_db w')) = map jb_workflow (db_jobs (w_db w)) @ names \<and>
    length names \<le> n \<and> (length names < n \<and> e = None \<longrightarrow> past_due t (w_db w') = {})"
proof (induction n arbitrary: w names e w')
  case (Suc n)
  obtain a w1 where a: "fireOne E t actor w = (a, w1)" by (cases "fireOne E t actor w")
  show ?case
  proof (cases a)
    case (Inl er)
    with a Suc.prems(1) have r: "names = []" "w' = w1" "e = (if er = ErrNoScheduleDue then None else Some er)"
      by simp_all
    have db: "w_db w1 = w_db w" using fireOne_error a Inl by simp
    have "past_due t (w_db w) = {}" if "er = ErrNoScheduleDue"
      using fireOne_none_due [of E t actor w w1] a Inl that by (auto simp: past_due_def)
    with r db show ?thesis by (auto split: if_splits)
  next
    case (Inr name)
    obtain r m job where r: "r \<in> set (db_schedules (w_db w))" "sc_name r = name" "schedule_due t r" "t < m"
      "jb_workflow job = name"
      "w_db w1 = (w_db w)\<lparr>db_jobs := db_jobs (w_db w) @ [job],
         db_schedules := map (\<lambda>x. if sc_name x = name then advance_row t m x else x) (db_schedules (w_db w))\<rparr>"
      by (rule fireOne_success [OF a [unfolded Inr] assms], rule that) assumption+
    have s: "db_schedules (w_db w1) = map (\<lambda>x. if sc_name x = name then advance_row t m x else x) (db_schedules (w_db w))"
      "map jb_workflow (db_jobs (w_db w1)) = map jb_workflow (db_jobs (w_db w)) @ [name]"
      using r(5,6) by simp_all
    note p = past_due_advance [OF Suc.prems(2) r(4) s(1)]
    obtain ns e' w2 where l: "fire_loop n E t actor w1 = ((ns, e'), w2)"
      by (cases "fire_loop n E t actor w1") auto
    have res: "names = name # ns" "e = e'" "w' = w2"
      using Suc.prems(1) a Inr l by simp_all
    have due: "name \<in> past_due t (w_db w)" using r(1-3) unfolding past_due_def by blast
    note ih = Suc.IH [OF l p(2), unfolded p(1) s(2)]
    have "distinct names" using ih res(1) by auto
    moreover have "set names \<subseteq> past_due t (w_db w)" using ih res(1) due by auto
    moreover have "past_due t (w_db w') = past_due t (w_db w) - set names"
      using ih unfolding res by (simp only: list.set) blast
    moreover have "map jb_workflow (db_jobs (w_db w')) = map jb_workflow (db_jobs (w_db w)) @ names"
      using ih unfolding res by (simp only: append_assoc append.simps)
    moreover have "length names \<le> Suc n" using ih unfolding res by (simp only: list.size) linarith
    moreover have "length names < Suc n \<and> e = None \<longrightarrow> past_due t (w_db w') = {}"
      using ih unfolding res by auto
    ultimately show ?thesis by blast
  qed
qed simp

section \<open>Reconciliation keeps what is due\<close>

text \<open>What a published name asks for, and the rows of one name.\<close>

definition wanted :: "registry \<Rightarrow> gtime \<Rightarrow> string \<Rightarrow> (WfDefinition \<times> gtime) option" where
  "wanted reg t name = (case reg name of Inl e \<Rightarrow> None | Inr doc \<Rightarrow> wants_schedule t doc)"

definition rows_of :: "string \<Rightarrow> db \<Rightarrow> schedrow list" where
  "rows_of name D = filter (\<lambda>r. sc_name r = name) (db_schedules D)"

text \<open>A registry that stores each workflow under its own name.\<close>

definition keyed :: "registry \<Rightarrow> gtime \<Rightarrow> bool" where
  "keyed reg t \<longleftrightarrow> (\<forall>name d n. wanted reg t name = Some (d, n) \<longrightarrow> wf_name d = name)"

definition new_row :: "WfDefinition \<Rightarrow> gtime \<Rightarrow> schedrow" where
  "new_row d n =
     \<lparr>sc_name = wf_name d, sc_version = wf_version d, sc_cron = tr_cron (wf_trigger d), sc_next_due = n,
      sc_last_fired = None\<rparr>"

definition synced_rows :: "registry \<Rightarrow> gtime \<Rightarrow> string \<Rightarrow> db \<Rightarrow> schedrow list" where
  "synced_rows reg t name D =
     (case wanted reg t name of
        None \<Rightarrow> rows_of name D
      | Some (d, n) \<Rightarrow>
          if rows_of name D = [] then [new_row d n]
          else map (upsert_row (wf_version d) (tr_cron (wf_trigger d)) n) (rows_of name D))"

lemma Schedule_Upsert_rows:
  assumes "Schedule_Upsert name v cron n w = (Inr u, w')"
  shows "name' \<noteq> name \<Longrightarrow> rows_of name' (w_db w') = rows_of name' (w_db w)"
    and "rows_of name (w_db w') =
      (if rows_of name (w_db w) = []
       then [\<lparr>sc_name = name, sc_version = v, sc_cron = cron, sc_next_due = n, sc_last_fired = None\<rparr>]
       else map (upsert_row v cron n) (rows_of name (w_db w)))"
proof -
  have same: "sc_name (upsert_row v cron n r) = sc_name r" for r
    by (simp add: upsert_row_def)
  have other: "filter (\<lambda>r. sc_name r = name') (map (\<lambda>r. if sc_name r = name then upsert_row v cron n r else r) rs) =
      filter (\<lambda>r. sc_name r = name') rs" if "name' \<noteq> name" for name' rs
    using that same by (induction rs) auto
  have own: "filter (\<lambda>r. sc_name r = name) (map (\<lambda>r. if sc_name r = name then upsert_row v cron n r else r) rs) =
      map (upsert_row v cron n) (filter (\<lambda>r. sc_name r = name) rs)" for rs
    using same by (induction rs) auto
  have mem: "name \<in> sc_name ` set rs \<longleftrightarrow> filter (\<lambda>r. sc_name r = name) rs \<noteq> []" for rs
    by (auto simp: filter_empty_conv)
  show "name' \<noteq> name \<Longrightarrow> rows_of name' (w_db w') = rows_of name' (w_db w)"
    using assms other unfolding Schedule_Upsert_def rows_of_def
    by (auto simp: stmt_Inr_iff split: if_splits)
  show "rows_of name (w_db w') =
      (if rows_of name (w_db w) = []
       then [\<lparr>sc_name = name, sc_version = v, sc_cron = cron, sc_next_due = n, sc_last_fired = None\<rparr>]
       else map (upsert_row v cron n) (rows_of name (w_db w)))"
    using assms own mem unfolding Schedule_Upsert_def rows_of_def
    by (auto simp: stmt_Inr_iff filter_empty_conv split: if_splits)
qed

lemma sync_names_rows:
  assumes "keyed reg t"
  shows "sync_names reg t names w = (Inr keep, w') \<Longrightarrow> distinct names \<Longrightarrow>
    keep = filter (\<lambda>name. wanted reg t name \<noteq> None) names \<and>
    (\<forall>name. rows_of name (w_db w') =
      (if name \<in> set names then synced_rows reg t name (w_db w) else rows_of name (w_db w)))"
proof (induction names arbitrary: w keep)
  case (Cons name names)
  show ?case
  proof (cases "wanted reg t name")
    case None
    have "sync_names reg t names w = (Inr keep, w')"
      using Cons.prems(1) None by (auto simp: wanted_def split: sum.splits option.splits if_splits)
    with Cons None show ?thesis by (auto simp: synced_rows_def)
  next
    case (Some dn)
    obtain d n where dn: "dn = (d, n)" by (cases dn)
    have wd: "wanted reg t name = Some (d, n)" using Some dn by simp
    then have nm: "wf_name d = name" using assms by (simp add: keyed_def)
    obtain doc where doc: "reg name = Inr doc" "wants_schedule t doc = Some (d, n)"
      using wd by (auto simp: wanted_def split: sum.splits)
    obtain w1 rest where u: "Schedule_Upsert name (wf_version d) (tr_cron (wf_trigger d)) n w = (Inr (), w1)"
      and r: "sync_names reg t names w1 = (Inr rest, w')" "keep = name # rest"
      using Cons.prems(1) doc nm by (auto simp: thenM_Inr_iff bindM_Inr_iff)
    have ih: "rest = filter (\<lambda>name. wanted reg t name \<noteq> None) names"
      "\<And>x. rows_of x (w_db w') = (if x \<in> set names then synced_rows reg t x (w_db w1) else rows_of x (w_db w1))"
      using Cons.IH [OF r(1)] Cons.prems(2) by simp_all
    have x: "rows_of x (w_db w') =
        (if x \<in> set (name # names) then synced_rows reg t x (w_db w) else rows_of x (w_db w))" for x
    proof (cases "x = name")
      case True
      then show ?thesis
        using ih(2) [of name] Cons.prems(2) Schedule_Upsert_rows(2) [OF u] wd nm
        by (simp add: synced_rows_def new_row_def)
    next
      case False
      then have "rows_of x (w_db w1) = rows_of x (w_db w)" by (rule Schedule_Upsert_rows(1) [OF u])
      then have "synced_rows reg t x (w_db w1) = synced_rows reg t x (w_db w)"
        by (simp only: synced_rows_def)
      with False ih(2) [of x] Schedule_Upsert_rows(1) [OF u False] show ?thesis by simp
    qed
    show ?thesis using r(2) ih(1) wd x by simp
  qed
qed simp

lemma DeleteExcept_rows:
  "DeleteExcept keep w = (Inr u, w') \<Longrightarrow>
    rows_of name (w_db w') = (if name \<in> set keep then rows_of name (w_db w) else [])"
  unfolding DeleteExcept_def rows_of_def
  by (auto simp: stmt_Inr_iff filter_empty_conv intro: filter_cong split: if_splits)

lemma Sync_rows:
  assumes "keyed reg t" "distinct names" "Sync (Inr names) reg t w = (Inr u, w')"
  shows "rows_of name (w_db w') =
    (if name \<in> set names \<and> wanted reg t name \<noteq> None then synced_rows reg t name (w_db w) else [])"
proof -
  obtain keep w1 where k: "sync_names reg t names w = (Inr keep, w1)" "DeleteExcept keep w1 = (Inr u, w')"
    using assms(3) by (auto simp: Sync_def bindM_Inr_iff)
  show ?thesis
    using sync_names_rows [OF assms(1) k(1) assms(2)] DeleteExcept_rows [OF k(2)] by auto
qed

end
