(* ===== verification/SchedulerProps.thy ===== *)
theory SchedulerProps
  imports Scheduler QueueProps
begin

text \<open>
  Properties of the scheduler: exact and atomic firing, and a reconciliation that never
  postpones a run; with a table holding one nightly schedule as their example.
\<close>

section \<open>A table with one due schedule\<close>

definition sched_a :: schedrow where
  "sched_a =
     \<lparr>sc_name = ''nightly'', sc_version = 1, sc_cron = ''0 3 * * *'', sc_next_due = Time 2026 3 1 3 0 0,
      sc_last_fired = None\<rparr>"

definition sched_db :: db where
  "sched_db = empty_db\<lparr>db_schedules := [sched_a]\<rparr>"

definition tick :: gtime where
  "tick = Time 2026 3 1 23 59 30"

lemma tick_valid: "valid_time tick"
  by (simp add: valid_time_def tick_def days_in_def)

definition nightly_sched :: Schedule where
  "nightly_sched =
     \<lparr>s_minute = \<lparr>cf_bits = (replicate 60 False)[0 := True], cf_min = 0\<rparr>,
      s_hour = \<lparr>cf_bits = (replicate 24 False)[3 := True], cf_min = 0\<rparr>,
      s_dom = \<lparr>cf_bits = replicate 31 True, cf_min = 1\<rparr>,
      s_month = \<lparr>cf_bits = replicate 12 True, cf_min = 1\<rparr>,
      s_dow = \<lparr>cf_bits = replicate 7 True, cf_min = 0\<rparr>,
      s_dom_restricted = False, s_dow_restricted = False, s_expr = ''0 3 * * *''\<rparr>"

lemma nightly_parsed: "parsed_schedule ''0 3 * * *'' = Inr nightly_sched"
  by (simp add: parsed_schedule_def nightly_schedule nightly_sched_def)

lemma nightly_next: "Next nightly_sched tick = Inr (Time 2026 3 2 3 0 0)"
  by (simp add: nightly_sched_def tick_def
      Next_def next_from.simps step_defs add_years_def matchesDay_def matches_def
      days_in_def less_gtime_def keys maxScheduleGapYears_def numeral_nat)

lemma fire_a:
  "\<exists>w. fireOne sample_env tick sample_actor (sample_world sched_db) = (Inr ''nightly'', w) \<and> w_faults w = [] \<and>
    db_schedules (w_db w) = [advance_row tick (Time 2026 3 2 3 0 0) sched_a]"
proof -
  note s = nightly_parsed nightly_next
  have due: "schedule_due tick sched_a"
    by (simp add: schedule_due_def sched_a_def tick_def less_eq_gtime_def keys)
  have n: "sc_name sched_a = ''nightly''" "sc_cron sched_a = ''0 3 * * *''" by (simp_all add: sched_a_def)
  have a: "Actor_Validate sample_actor = None"
    by (simp add: Actor_Validate_def sample_actor_def)
  show ?thesis
    by (simp add: fireOne_def in_tx_def query_def stmt_def faulty_def sample_world_def sent_def rbind_def
        bindM_def thenM_def ret_def ClaimDueTx_def sched_db_def due n s enqueue_job_def scheduled_job_def a
        fresh_id_def now_def nullable_uuid_def empty_db_def int4_arg_def max_int4_def AdvanceTx_def Let_def)
      (simp add: sched_a_def)?
qed

lemma fire_due_a:
  "\<exists>w. FireDue sample_env tick sample_actor (sample_world sched_db) = (([''nightly''], None), w)"
proof -
  obtain w where w: "fireOne sample_env tick sample_actor (sample_world sched_db) = (Inr ''nightly'', w)"
    "w_faults w = []" "db_schedules (w_db w) = [advance_row tick (Time 2026 3 2 3 0 0) sched_a]"
    using fire_a by blast
  have "\<not> schedule_due tick (advance_row tick (Time 2026 3 2 3 0 0) sched_a)"
    by (simp add: schedule_due_def advance_row_def tick_def less_eq_gtime_def keys)
  then have "fireOne sample_env tick sample_actor w = (Inl ErrNoScheduleDue, w)"
    using w(2,3) by (simp add: fireOne_def in_tx_def query_def stmt_def faulty_def sent_def rbind_def
        bindM_def ClaimDueTx_def)
  then have "fire_loop (Suc 98) sample_env tick sample_actor w = (([], None), w)"
    by (subst fire_loop.simps(2)) simp
  then have "fire_loop (Suc (Suc 98)) sample_env tick sample_actor (sample_world sched_db) = (([''nightly''], None), w)"
    using w(1) by (subst fire_loop.simps(2)) (simp del: fire_loop.simps)
  moreover have "maxPerTick = Suc (Suc 98)" by (simp add: maxPerTick_def)
  ultimately have "FireDue sample_env tick sample_actor (sample_world sched_db) = (([''nightly''], None), w)"
    unfolding FireDue_def by (simp only:)
  then show ?thesis ..
qed

section \<open>Properties\<close>

lemma below_cap: "(length [n] < (100::nat) \<and> (None :: err option) = None \<longrightarrow> X = {}) \<Longrightarrow> X = {}"
  by simp

text \<open>
  C18. Firing is exact: \<open>FireDue\<close> fires each due schedule at most once, inserts exactly one job
  for each firing, in order, and moves exactly those schedules past the present. Unless an
  error stops it or the cap of a hundred is reached, no schedule is left due, so a job
  missed for a week runs once and not seven times.
\<close>
theorem fire_due_is_exact:
  assumes "valid_time t" and "schedules_ok (w_db w)" and "FireDue E t actor w = ((names, e), w')"
  shows "distinct names \<and> set names \<subseteq> past_due t (w_db w) \<and>
    past_due t (w_db w') = past_due t (w_db w) - set names \<and>
    map jb_workflow (db_jobs (w_db w')) = map jb_workflow (db_jobs (w_db w)) @ names \<and>
    (length names < 100 \<and> e = None \<longrightarrow> past_due t (w_db w') = {})"
  using fire_loop_outcome [OF assms(1) assms(3) [unfolded FireDue_def] assms(2)]
  unfolding maxPerTick_def by blast

theorem fire_due_is_exact_witness:
  "\<exists>w'. FireDue sample_env tick sample_actor (sample_world sched_db) = (([''nightly''], None), w') \<and>
    map jb_workflow (db_jobs (w_db w')) = [''nightly''] \<and> past_due tick (w_db w') = {}"
proof -
  obtain w' where w: "FireDue sample_env tick sample_actor (sample_world sched_db) = (([''nightly''], None), w')"
    using fire_due_a by blast
  have "schedules_ok (w_db (sample_world sched_db))"
    by (simp add: schedules_ok_def sample_world_def sched_db_def)
  note p = fire_due_is_exact [OF tick_valid this w]
  have "map jb_workflow (db_jobs (w_db w')) = [''nightly'']"
    using conjunct1 [OF conjunct2 [OF conjunct2 [OF conjunct2 [OF p]]]]
    by (simp add: sample_world_def sched_db_def empty_db_def)
  moreover have "past_due tick (w_db w') = {}"
    by (rule below_cap [OF conjunct2 [OF conjunct2 [OF conjunct2 [OF conjunct2 [OF p]]]]])
  ultimately show ?thesis using w by (intro exI [of _ w'] conjI)
qed

text \<open>
  A firing is all or nothing: when \<open>fireOne\<close> returns an error the database is unchanged,
  and when it succeeds a due schedule has produced one fresh job of its workflow and version
  and is next due strictly after the present, in the same transaction.
\<close>
theorem fire_one_all_or_nothing:
  assumes "valid_time t"
  shows "case fireOne E t actor w of
      (Inl e, w') \<Rightarrow> w_db w' = w_db w
    | (Inr name, w') \<Rightarrow>
        \<exists>r n job. r \<in> set (db_schedules (w_db w)) \<and> sc_name r = name \<and> schedule_due t r \<and> t < n \<and>
          fresh_job job \<and> jb_workflow job = name \<and> jb_version job = sc_version r \<and>
          w_db w' = (w_db w)\<lparr>db_jobs := db_jobs (w_db w) @ [job],
            db_schedules := map (\<lambda>x. if sc_name x = name then advance_row t n x else x) (db_schedules (w_db w))\<rparr>"
proof (cases "fireOne E t actor w")
  case (Pair a w')
  show ?thesis
  proof (cases a)
    case (Inl e)
    with Pair show ?thesis by (simp add: fireOne_error)
  next
    case (Inr name)
    with Pair have f: "fireOne E t actor w = (Inr name, w')" by simp
    have "\<exists>r n job. r \<in> set (db_schedules (w_db w)) \<and> sc_name r = name \<and> schedule_due t r \<and> t < n \<and>
          fresh_job job \<and> jb_workflow job = name \<and> jb_version job = sc_version r \<and>
          w_db w' = (w_db w)\<lparr>db_jobs := db_jobs (w_db w) @ [job],
            db_schedules := map (\<lambda>x. if sc_name x = name then advance_row t n x else x) (db_schedules (w_db w))\<rparr>"
      by (rule fireOne_success [OF f assms]) blast
    then show ?thesis using f by simp
  qed
qed

theorem fire_one_all_or_nothing_witness:
  "\<exists>w' n. fireOne sample_env tick sample_actor (sample_world sched_db) = (Inr ''nightly'', w') \<and> tick < n \<and>
    db_schedules (w_db w') = [advance_row tick n sched_a]"
proof -
  obtain w' where w: "fireOne sample_env tick sample_actor (sample_world sched_db) = (Inr ''nightly'', w')"
    using fire_a by blast
  then show ?thesis
    using fire_one_all_or_nothing [OF tick_valid, where E = sample_env and actor = sample_actor and w = "sample_world sched_db"]
    by (auto simp: sample_world_def sched_db_def sched_a_def)
qed

text \<open>
  Reconciliation never postpones a run: after \<open>Sync\<close> the table holds a row for exactly the
  published names that want a schedule, with the version and expression of their definition, and
  a row whose expression has not changed keeps the time it is due at and the time it last fired.
\<close>
theorem sync_never_postpones:
  assumes "keyed reg t" and "distinct names" and "Sync (Inr names) reg t w = (Inr u, w')"
    and "name \<in> set names" and "wanted reg t name = Some (d, n)"
  shows "rows_of name (w_db w') \<noteq> [] \<and>
    (\<forall>x. rows_of x (w_db w') \<noteq> [] \<longrightarrow> x \<in> set names \<and> wanted reg t x \<noteq> None) \<and>
    (\<forall>r \<in> set (rows_of name (w_db w')). sc_version r = wf_version d \<and> sc_cron r = tr_cron (wf_trigger d)) \<and>
    (\<forall>r \<in> set (rows_of name (w_db w)). sc_cron r = tr_cron (wf_trigger d) \<longrightarrow>
      (\<exists>r' \<in> set (rows_of name (w_db w')). sc_next_due r' = sc_next_due r \<and> sc_last_fired r' = sc_last_fired r))"
proof -
  have rows: "rows_of name (w_db w') =
      (if rows_of name (w_db w) = [] then [new_row d n]
       else map (upsert_row (wf_version d) (tr_cron (wf_trigger d)) n) (rows_of name (w_db w)))"
    using Sync_rows [OF assms(1-3), of name] assms(4,5) by (simp add: synced_rows_def)
  have other: "x \<in> set names \<and> wanted reg t x \<noteq> None" if "rows_of x (w_db w') \<noteq> []" for x
    using Sync_rows [OF assms(1-3), of x] that by (auto split: if_splits)
  have "\<exists>r' \<in> set (rows_of name (w_db w')). sc_next_due r' = sc_next_due r \<and> sc_last_fired r' = sc_last_fired r"
    if "r \<in> set (rows_of name (w_db w))" "sc_cron r = tr_cron (wf_trigger d)" for r
  proof -
    have "upsert_row (wf_version d) (tr_cron (wf_trigger d)) n r \<in> set (rows_of name (w_db w'))"
      using that(1) unfolding rows by auto
    then show ?thesis using that(2) by (intro bexI) (simp_all add: upsert_row_def)
  qed
  with rows other show ?thesis by (auto simp: new_row_def upsert_row_def)
qed

text \<open>The registry with the one definition \<open>nightly\<close>.\<close>

definition one_registry :: registry where
  "one_registry name = (if name = ''nightly'' then Inr (Some nightly) else Inl ErrNotFound)"

lemma nightly_wanted: "wanted one_registry tick ''nightly'' = Some (nightly, Time 2026 3 2 3 0 0)"
  using nightly_next nightly_parsed nightly_valid
  by (auto simp: wanted_def one_registry_def wants_schedule_def wf_Unmarshal_def nightly_def)

lemma one_registry_keyed: "keyed one_registry tick"
  using nightly_wanted
  by (auto simp: keyed_def wanted_def one_registry_def nightly_def split: if_splits)

theorem sync_never_postpones_witness:
  "\<exists>w' r'. Sync (Inr [''nightly'']) one_registry tick (sample_world sched_db) = (Inr (), w') \<and>
    r' \<in> set (rows_of ''nightly'' (w_db w')) \<and> sc_next_due r' = Time 2026 3 1 3 0 0"
proof -
  have "wants_schedule tick (Some nightly) = Some (nightly, Time 2026 3 2 3 0 0)"
    using nightly_wanted by (simp add: wanted_def one_registry_def)
  then obtain w' where w: "Sync (Inr [''nightly'']) one_registry tick (sample_world sched_db) = (Inr (), w')"
    by (simp add: Sync_def one_registry_def bindM_def thenM_def Schedule_Upsert_def DeleteExcept_def stmt_def
        faulty_def sample_world_def sent_def ret_def nightly_def int4_arg_def max_int4_def sched_db_def sched_a_def)
  have "sched_a \<in> set (rows_of ''nightly'' (w_db (sample_world sched_db)))"
    by (simp add: rows_of_def sample_world_def sched_db_def sched_a_def)
  moreover have "sc_cron sched_a = tr_cron (wf_trigger nightly)" "sc_next_due sched_a = Time 2026 3 1 3 0 0"
    by (simp_all add: sched_a_def nightly_def)
  moreover have "distinct [''nightly'']" "''nightly'' \<in> set [''nightly'']" by simp_all
  note p = sync_never_postpones [OF one_registry_keyed this(1) w this(2) nightly_wanted]
  ultimately have "\<exists>r' \<in> set (rows_of ''nightly'' (w_db w')). sc_next_due r' = Time 2026 3 1 3 0 0"
    using conjunct2 [OF conjunct2 [OF conjunct2 [OF p]]] by metis
  then show ?thesis using w by blast
qed

end
