(* ===== verification/FilterProps.thy ===== *)
theory FilterProps
  imports Filters StatusProps
begin

text \<open>
  Properties of filtered pages and of reference pickers.
\<close>

section \<open>Text search\<close>

text \<open>
  Whatever a user types into a search box is searched for literally: the pattern
  \<open>filterWhereClause\<close> builds with \<open>escapeLike\<close> matches a text exactly when the typed text occurs in
  it, wildcards and escape characters included.
\<close>

theorem search_text_is_literal:
  "like (contains_pattern v) s \<longleftrightarrow> sublist v s"
  by (rule like_contains)

section \<open>Pages\<close>

lemma to_record_sel [simp]: "rec_id (to_record r) = rr_id r" "rec_data (to_record r) = rr_data r"
  by (simp_all add: to_record_def)

lemma query_rows_set:
  "set (query_rows E D et opts) = {r \<in> set (db_records D). filterWhereClause E D et opts
     (the (uuid_array E (lp_id_in opts))) r}"
  by (auto simp: query_rows_def)

lemma query_rows_distinct:
  assumes "records_wf D" shows "distinct (map rr_id (query_rows E D et opts))"
proof -
  have "distinct (map rr_id (filter P (db_records D)))" for P
    using assms by (simp add: records_wf_def distinct_map_filter)
  moreover have "mset (map rr_id (query_rows E D et opts)) = mset (map rr_id (filter
      (filterWhereClause E D et opts (the (uuid_array E (lp_id_in opts)))) (db_records D)))"
    by (simp add: query_rows_def)
  ultimately show ?thesis by (metis mset_eq_imp_distinct_iff)
qed

text \<open>
  The pager is exact: reading page after page, of any size and in any sort order, until the
  pages hold as many rows as \<open>CountFiltered\<close> says, gives every record that matches the filter
  exactly once, and nothing else.
\<close>

theorem pages_cover_the_count:
  assumes "records_wf (w_db w)" and "CountFiltered E et opts w = (Inr n, w1)"
    and "read_pages E et opts len k 0 w1 = (Inr rs, w2)" and "nat n \<le> k * len"
  shows "int (length rs) = n \<and> distinct (map rec_id rs) \<and>
    set rs = to_record ` {r \<in> set (db_records (w_db w)).
      filterWhereClause E (w_db w) et opts (the (uuid_array E (lp_id_in opts))) r}"
proof -
  have db: "w_db w1 = w_db w" using reads_filtered(1) assms(2) by (rule readsD)
  have n: "n = int (length (query_rows E (w_db w) et opts))" using assms(2) by (rule CountFiltered_rows)
  have "rs = map to_record (take (k * len) (query_rows E (w_db w) et opts))"
    using read_pages_rows [OF assms(3)] db by simp
  then have rs: "rs = map to_record (query_rows E (w_db w) et opts)" using assms(4) n by simp
  then have "distinct (map rec_id rs)"
    using query_rows_distinct [OF assms(1)] by (simp add: comp_def)
  then show ?thesis using rs n by (simp add: query_rows_set)
qed

definition status_page :: ListPageOptions where
  "status_page = no_options\<lparr>lp_equals := [(''status_type_id'', ''t'')]\<rparr>"

theorem pages_cover_the_count_witness:
  "\<exists>rs w2. read_pages plain_env ''Status'' status_page 2 2 0 (sample_world (order_db ''draft'' 1 [])) = (Inr rs, w2) \<and>
     length rs = 3 \<and> distinct (map rec_id rs)"
proof -
  have wf: "records_wf (w_db (sample_world (order_db ''draft'' 1 [])))"
    using wf_records [OF order_world_wf] by simp
  have cnt: "CountFiltered plain_env ''Status'' status_page (sample_world (order_db ''draft'' 1 [])) =
      (Inr 3, sample_world (order_db ''draft'' 1 []))"
    by (simp add: CountFiltered_def unfiltered_def status_page_def no_options_def uuid_array_def
        filterWhereClause_def text_filter_def field_is_def arrow_text_def live_def sample_world_def
        order_db_def graph_rows_def row_of_def stmt_eval)
  have page: "fst (ListPageFiltered plain_env ''Status'' (status_page\<lparr>lp_limit := 2, lp_offset := i\<rparr>)
      (sample_world D)) = Inr x \<Longrightarrow>
    ListPageFiltered plain_env ''Status'' (status_page\<lparr>lp_limit := 2, lp_offset := i\<rparr>)
      (sample_world D) = (Inr x, sample_world D)" for x D i
    by (auto simp: ListPageFiltered_def sample_world_def stmt_eval split: option.splits if_splits sum.splits)
  have "\<exists>rs. read_pages plain_env ''Status'' status_page 2 2 0 (sample_world D) = (Inr rs, sample_world D)" for D
    by (simp add: numeral_2_eq_2 ListPageFiltered_def status_page_def no_options_def uuid_array_def
        sample_world_def stmt_eval)
  then obtain rs where "read_pages plain_env ''Status'' status_page 2 2 0 (sample_world (order_db ''draft'' 1 [])) =
      (Inr rs, sample_world (order_db ''draft'' 1 []))" by blast
  then show ?thesis using pages_cover_the_count [OF wf cnt, of 2 2 rs] by auto
qed

section \<open>Reference pickers\<close>

text \<open>A stored value whose text is the same to Go and to Postgres.\<close>

definition plain_value :: "gval \<Rightarrow> bool" where
  "plain_value v \<longleftrightarrow> (\<exists>s. v = VStr s) \<or> (\<exists>b. v = VBool b)"

lemma plain_value_text: "plain_value v \<Longrightarrow> jsonb_text E v = Some s \<longleftrightarrow> valueMatches E v s"
  by (auto simp: plain_value_def valueMatches_def)

definition picker_options :: "Field \<Rightarrow> string \<Rightarrow> ListPageOptions" where
  "picker_options f sibling =
     (let opts = fold condition_filter (f_target_filter f) no_options in
      if f_must_match f \<noteq> [] \<and> sibling \<noteq> []
      then opts\<lparr>lp_equals := lp_equals opts @ [(f_must_match f, sibling)]\<rparr> else opts)"

lemma ResolveReferenceFilter_options:
  "status_scoped src f = None \<Longrightarrow> ResolveReferenceFilter E src f sibling = ret (picker_options f sibling)"
  by (simp add: ResolveReferenceFilter_def picker_options_def Let_def)

definition condition_join :: "TargetFilterCondition \<Rightarrow> JoinFilter" where
  "condition_join c = \<lparr>jf_entity = tf_entity c, jf_entity_field = tf_entity_field c,
     jf_field = tf_field c, jf_value = tf_value c\<rparr>"

lemma fold_condition_filter:
  "fold condition_filter cs opts =
     opts\<lparr>lp_equals := lp_equals opts @ map (\<lambda>c. (tf_field c, tf_value c)) (filter (\<lambda>c. tf_entity c = []) cs),
       lp_joins := lp_joins opts @ map condition_join (filter (\<lambda>c. tf_entity c \<noteq> []) cs)\<rparr>"
  by (induction cs arbitrary: opts) (simp_all add: condition_filter_def condition_join_def)

lemma picker_where:
  "filterWhereClause E D et (picker_options f sibling) None r \<longleftrightarrow>
     live et r \<and>
     (\<forall>c \<in> set (f_target_filter f).
        if tf_entity c = [] then field_is E r (tf_field c, tf_value c) else join_filter E D r (condition_join c)) \<and>
     (f_must_match f \<noteq> [] \<longrightarrow> sibling \<noteq> [] \<longrightarrow> field_is E r (f_must_match f, sibling))"
  by (auto simp: filterWhereClause_def picker_options_def Let_def fold_condition_filter no_options_def
      text_filter_def list_all_iff)

lemma join_filter_holds:
  assumes "tf_field c \<noteq> tf_entity_field c"
  shows "join_filter E D r (condition_join c) \<longleftrightarrow> join_holds E D (rr_id r) c"
  using assms by (auto simp: join_filter_def condition_join_def join_holds_def join_pairs_def list_ex_iff)

text \<open>What the picker and the write check have to agree on: values both read the same way.\<close>

definition comparable :: "Field \<Rightarrow> rrow \<Rightarrow> bool" where
  "comparable f r \<longleftrightarrow>
     (\<forall>c \<in> set (f_target_filter f).
        if tf_entity c = []
        then get_field (rr_data r) (tf_field c) = VNil \<or> plain_value (get_field (rr_data r) (tf_field c))
        else tf_field c \<noteq> tf_entity_field c) \<and>
     (f_must_match f \<noteq> [] \<longrightarrow> plain_value (get_field (rr_data r) (f_must_match f)))"

text \<open>The write check of one field, when no statement fails.\<close>

lemma quiet_sent: "w_faults w = [] \<Longrightarrow> sent w = w" "w_faults w = [] \<Longrightarrow> \<not> faulty w"
  by (simp_all add: sent_def faulty_def)

lemma quiet_condition:
  assumes "w_faults w = []"
  shows "check_target_condition E et f tid \<lparr>rec_id = i, rec_type = t, rec_data = rr_data r, rec_version = v\<rparr> c w =
    (if condition_holds E (w_db w) tid r c then Inr ()
     else Inl (ErrTargetConstraintViolation et (f_name f) (tf_entity c) Verbatim), w)"
proof -
  have "join_pairs c tid \<noteq> []" by (simp add: join_pairs_def)
  moreover have "(list_all (field_is E x) (join_pairs c tid)) = (\<forall>p \<in> set (join_pairs c tid). field_is E x p)" for x
    by (simp add: list_all_iff)
  ultimately show ?thesis using quiet_sent [OF assms]
    by (simp add: check_target_condition_def condition_holds_def join_holds_def ExistsByFieldsQ_def
        bindM_def query_def stmt_def rbind_def fail_def ret_def list_ex_iff) blast
qed

lemma quiet_conditions:
  assumes "w_faults w = []"
  shows "forEach cs (check_target_condition E et f tid
      \<lparr>rec_id = i, rec_type = t, rec_data = rr_data r, rec_version = v\<rparr>) w = (Inr (), w) \<or>
    (\<exists>e. forEach cs (check_target_condition E et f tid
      \<lparr>rec_id = i, rec_type = t, rec_data = rr_data r, rec_version = v\<rparr>) w = (Inl e, w) \<and>
      \<not> (\<forall>c \<in> set cs. condition_holds E (w_db w) tid r c))"
  by (induction cs) (auto simp: thenM_def bindM_def ret_def quiet_condition [OF assms])

lemma quiet_conditions_ok:
  assumes "w_faults w = []"
  shows "forEach cs (check_target_condition E et f tid
      \<lparr>rec_id = i, rec_type = t, rec_data = rr_data r, rec_version = v\<rparr>) w = (Inr (), w) \<longleftrightarrow>
    (\<forall>c \<in> set cs. condition_holds E (w_db w) tid r c)"
  by (induction cs) (simp_all add: thenM_def bindM_def ret_def quiet_condition [OF assms])

lemma quiet_load:
  assumes "records_wf (w_db w)" "r \<in> set (db_records (w_db w))" "live (f_target f) r"
    and "e_uuid E tid = Some (rr_id r)" "looksLikeUUID tid" "w_faults w = []"
  shows "loadTarget E f tid None w =
    (Inr (Some \<lparr>rec_id = tid, rec_type = f_target f, rec_data = rr_data r, rec_version = rr_version r\<rparr>), w)"
  using GetTx_row [OF assms(1-4) quiet_sent(2) [OF assms(6)]] assms(5) quiet_sent(1) [OF assms(6)]
  by (simp add: loadTarget_def optionalM_def catchM_def bindM_def ret_def)

lemma quiet_parent:
  assumes row: "records_wf (w_db w)" "r \<in> set (db_records (w_db w))" "live (f_target f) r"
    "e_uuid E tid = Some (rr_id r)" "looksLikeUUID tid" "w_faults w = []"
    and c: "cached = None \<or> cached = Some \<lparr>rec_id = tid, rec_type = f_target f, rec_data = rr_data r,
      rec_version = rr_version r\<rparr>"
  shows "fst (check_must_match_parent E et f tid flds cached w) = Inr () \<longleftrightarrow> parent_agrees E f flds r"
proof -
  have "loadTarget E f tid cached w =
    (Inr (Some \<lparr>rec_id = tid, rec_type = f_target f, rec_data = rr_data r, rec_version = rr_version r\<rparr>), w)"
    using c quiet_load [OF row] by (auto simp: loadTarget_def ret_def)
  then show ?thesis
    by (auto simp: check_must_match_parent_def parent_agrees_def Let_def bindM_def ret_def fail_def)
qed

lemma quiet_check:
  assumes row: "records_wf (w_db w)" "r \<in> set (db_records (w_db w))" "live (f_target f) r"
    "e_uuid E (str_field flds (f_name f)) = Some (rr_id r)" "looksLikeUUID (str_field flds (f_name f))"
    "w_faults w = []" and f: "f_type f = FieldReference"
  shows "fst (check_field_target E et flds f w) = Inr () \<longleftrightarrow>
    (\<forall>c \<in> set (f_target_filter f). condition_holds E (w_db w) (str_field flds (f_name f)) r c) \<and>
    parent_agrees E f flds r"
proof -
  let ?tid = "str_field flds (f_name f)"
  have ne: "?tid \<noteq> []" using row(5) by (auto simp: looksLikeUUID_def uuid_shape_def)
  show ?thesis
  proof (cases "f_target_filter f = [] \<and> f_must_match f = []")
    case True
    then show ?thesis using f
      by (simp add: check_field_target_def parent_agrees_def Let_def ret_def)
  next
    case False
    then have run: "check_field_target E et flds f =
        bindM (check_target_filter E et f ?tid) (check_must_match_parent E et f ?tid flds)"
      using f ne by (auto simp: check_field_target_def Let_def)
    show ?thesis
    proof (cases "f_target_filter f = []")
      case True
      then show ?thesis using quiet_parent [OF row, where cached = None]
        by (simp add: run check_target_filter_def)
    next
      case False
      let ?t = "\<lparr>rec_id = ?tid, rec_type = f_target f, rec_data = rr_data r, rec_version = rr_version r\<rparr>"
      have flt: "check_target_filter E et f ?tid w =
          thenM (forEach (f_target_filter f) (check_target_condition E et f ?tid ?t)) (ret (Some ?t)) w"
        using False quiet_load [OF row] by (simp add: check_target_filter_def bindM_def)
      consider "forEach (f_target_filter f) (check_target_condition E et f ?tid ?t) w = (Inr (), w)"
        | e where "forEach (f_target_filter f) (check_target_condition E et f ?tid ?t) w = (Inl e, w)"
            "\<not> (\<forall>c \<in> set (f_target_filter f). condition_holds E (w_db w) ?tid r c)"
        using quiet_conditions [OF row(6)] by blast
      then show ?thesis
      proof cases
        case 1
        then have "\<forall>c \<in> set (f_target_filter f). condition_holds E (w_db w) ?tid r c"
          using quiet_conditions_ok [OF row(6)] by blast
        moreover have "check_field_target E et flds f w = check_must_match_parent E et f ?tid flds (Some ?t) w"
          using 1 flt by (simp add: run bindM_def thenM_def ret_def)
        ultimately show ?thesis using quiet_parent [OF row, where cached = "Some ?t"] by simp
      next
        case 2
        then show ?thesis using flt by (auto simp: run bindM_def thenM_def)
      qed
    qed
  qed
qed

lemma picker_is_enforcement:
  assumes row: "records_wf (w_db w)" "r \<in> set (db_records (w_db w))" "live (f_target f) r"
    and id: "looksLikeUUID (rr_id r)" "e_uuid E (rr_id r) = Some (rr_id r)" "w_faults w = []"
    and f: "f_type f = FieldReference" "comparable f r"
    and flds: "str_field flds (f_name f) = rr_id r"
  shows "filterWhereClause E (w_db w) (f_target f) (picker_options f (str_field flds (f_must_match f))) None r \<longleftrightarrow>
    fst (check_field_target E et flds f w) = Inr ()"
proof -
  have "(if tf_entity c = [] then field_is E r (tf_field c, tf_value c)
      else join_filter E (w_db w) r (condition_join c)) \<longleftrightarrow> condition_holds E (w_db w) (rr_id r) r c"
    if "c \<in> set (f_target_filter f)" for c
    using f(2) that join_filter_holds [of c E "w_db w" r] plain_value_text
    by (auto simp: comparable_def condition_holds_def field_is_def arrow_text_def valueMatches_def split: if_splits)
  moreover have "(f_must_match f \<noteq> [] \<longrightarrow> str_field flds (f_must_match f) \<noteq> [] \<longrightarrow>
      field_is E r (f_must_match f, str_field flds (f_must_match f))) \<longleftrightarrow> parent_agrees E f flds r"
    using f(2) plain_value_text
    by (auto simp: comparable_def parent_agrees_def Let_def field_is_def arrow_text_def plain_value_def)
  moreover have "fst (check_field_target E et flds f w) = Inr () \<longleftrightarrow>
      (\<forall>c \<in> set (f_target_filter f). condition_holds E (w_db w) (rr_id r) r c) \<and> parent_agrees E f flds r"
    using quiet_check [OF row, where flds = flds and et = et] id f(1) flds by simp
  ultimately show ?thesis unfolding picker_where using row(3) by simp
qed

text \<open>
  A reference picker offers exactly what the write check accepts: for a field not scoped by
  a status type, a live record of the target type whose compared values are strings or booleans
  matches the filter that \<open>ResolveReferenceFilter\<close> resolves for the form's parent value if
  and only if, no statement failing, \<open>checkReferenceTargetConstraints\<close> lets a document with
  its id in the field and that parent value pass.
\<close>

theorem picker_offers_what_is_accepted:
  assumes "records_wf (w_db w)" and "status_scoped src f = None" and "w_faults w = []"
    and "ResolveReferenceFilter E src f (str_field flds (f_must_match f)) w = (Inr opts, w')"
    and "r \<in> set (db_records (w_db w))" and "live (f_target f) r"
    and "looksLikeUUID (rr_id r)" and "e_uuid E (rr_id r) = Some (rr_id r)"
    and "f_type f = FieldReference" and "comparable f r" and "str_field flds (f_name f) = rr_id r"
  shows "filterWhereClause E (w_db w) (f_target f) opts None r \<longleftrightarrow>
    fst (checkReferenceTargetConstraints E (mk_definition et [f]) flds w) = Inr ()"
proof -
  have "fst (checkReferenceTargetConstraints E (mk_definition et [f]) flds w) = Inr () \<longleftrightarrow>
      fst (check_field_target E et flds f w) = Inr ()"
    by (cases "check_field_target E et flds f w") (auto simp: checkReferenceTargetConstraints_def
        mk_definition_def thenM_def bindM_def ret_def split: sum.splits)
  then show ?thesis
    using picker_is_enforcement [OF assms(1,5-8,3,9-11)] assms(2,4) by (simp add: ResolveReferenceFilter_options)
qed

definition next_field :: "string \<Rightarrow> Field" where
  "next_field parent =
     (mk_field ''next_id'' FieldReference)\<lparr>f_target := ''Status'',
       f_target_filter :=
         [\<lparr>tf_entity = [], tf_entity_field = [], tf_field = ''status_type_id'', tf_value = ''t''\<rparr>],
       f_must_match := parent\<rparr>"

definition next_row :: rrow where
  "next_row = row_of id_a ''Status'' (status_fields True) 1"

definition next_db :: db where
  "next_db = empty_db\<lparr>db_records := [next_row]\<rparr>"

definition next_doc :: "string \<Rightarrow> fields" where
  "next_doc parent = fmupd ''next_id'' (VStr id_a) (fmupd parent (VStr ''t'') fmempty)"

lemma next_sel [simp]:
  "f_target (next_field p) = ''Status''" "f_type (next_field p) = FieldReference"
  "f_name (next_field p) = ''next_id''" "f_must_match (next_field p) = p"
  "rr_id next_row = id_a" "rr_type next_row = ''Status''" "rr_data next_row = status_fields True"
  "rr_deleted next_row = False" "db_records next_db = [next_row]" "rr_version next_row = 1"
  "f_target_filter (next_field p) =
     [\<lparr>tf_entity = [], tf_entity_field = [], tf_field = ''status_type_id'', tf_value = ''t''\<rparr>]"
  by (simp_all add: next_field_def mk_field_def next_row_def row_of_def next_db_def empty_db_def)

lemma uuid_id_a: "looksLikeUUID id_a"
  by (simp add: looksLikeUUID_def uuid_shape_def id_a_def numeral_eq_Suc hex_eval)

lemma next_wf: "records_wf next_db"
  by (simp add: records_wf_def max_int4_def)

lemma next_unscoped: "status_scoped None f = None"
  by (simp add: status_scoped_def)

lemma next_doc_sel: "p \<noteq> ''next_id'' \<Longrightarrow> str_field (next_doc p) p = ''t''"
  "str_field (next_doc p) ''next_id'' = id_a"
  by (simp_all add: next_doc_def)

theorem picker_offers_what_is_accepted_witness:
  "filterWhereClause plain_env next_db ''Status'' (picker_options (next_field ''status_type_id'') ''t'') None next_row \<longleftrightarrow>
   fst (checkReferenceTargetConstraints plain_env (mk_definition ''Step'' [next_field ''status_type_id''])
     (next_doc ''status_type_id'') (sample_world next_db)) = Inr ()"
proof -
  let ?f = "next_field ''status_type_id''" and ?w = "sample_world next_db"
  have w: "w_db ?w = next_db" by (simp add: sample_world_def)
  have "ResolveReferenceFilter plain_env None ?f (str_field (next_doc ''status_type_id'') (f_must_match ?f)) ?w =
      (Inr (picker_options ?f ''t''), ?w)"
    by (simp add: ResolveReferenceFilter_options next_unscoped next_doc_sel ret_def)
  moreover have "comparable ?f next_row" by (simp add: comparable_def plain_value_def)
  ultimately show ?thesis
    using picker_offers_what_is_accepted [of ?w None ?f plain_env "next_doc ''status_type_id''"
        "picker_options ?f ''t''" ?w next_row "''Step''"]
    by (simp add: w [unfolded sample_world_def] sample_world_def next_wf next_unscoped uuid_id_a live_def next_doc_sel)
qed

text \<open>
  The two do diverge where the target has no value for the parent field: the write check
  accepts such a record (there is nothing to compare), the picker's equality filter never offers
  it.
\<close>

theorem picker_hides_accepted_target:
  "ResolveReferenceFilter plain_env None (next_field ''project_id'') ''t'' (sample_world next_db) =
     (Inr (picker_options (next_field ''project_id'') ''t''), sample_world next_db) \<and>
   checkReferenceTargetConstraints plain_env (mk_definition ''Step'' [next_field ''project_id''])
     (next_doc ''project_id'') (sample_world next_db) = (Inr (), sample_world next_db) \<and>
   \<not> filterWhereClause plain_env next_db ''Status'' (picker_options (next_field ''project_id'') ''t'') None next_row"
proof (intro conjI)
  show "ResolveReferenceFilter plain_env None (next_field ''project_id'') ''t'' (sample_world next_db) =
     (Inr (picker_options (next_field ''project_id'') ''t''), sample_world next_db)"
    by (simp add: ResolveReferenceFilter_options next_unscoped ret_def)
  have nil: "get_field (status_fields True) ''project_id'' = VNil"
    by (simp add: status_fields_def get_field_def)
  show "\<not> filterWhereClause plain_env next_db ''Status'' (picker_options (next_field ''project_id'') ''t'') None next_row"
    by (simp add: picker_where field_is_def arrow_text_def nil)
  have v: "valueMatches plain_env (VStr ''t'') ''t''" by (simp add: valueMatches_def)
  show "checkReferenceTargetConstraints plain_env (mk_definition ''Step'' [next_field ''project_id''])
     (next_doc ''project_id'') (sample_world next_db) = (Inr (), sample_world next_db)"
    by (simp add: checkReferenceTargetConstraints_def mk_definition_def check_field_target_def
        check_target_filter_def loadTarget_def check_target_condition_def check_must_match_parent_def
        GetTx_def get_where_def optionalM_def catchM_def live_def sample_world_def uuid_id_a nil v next_doc_sel
        stmt_eval Let_def)
qed

end
