(* ===== verification/Roles.thy ===== *)
theory Roles
  imports CrudStatus
begin

text \<open>
  \<open>internal/kernel/foundation/roles.go\<close>: which roles a user holds, everywhere or in a department,
  and whose approval standing a delegate may act with.
\<close>

section \<open>Grants\<close>

record RoleGrant =
  g_id :: string
  g_code :: string
  g_department :: string

text \<open>The role and the department of a \<open>UserRole\<close> record, unless it names no role.\<close>

definition role_seed :: "Record \<Rightarrow> (string \<times> string) option" where
  "role_seed ur =
     (let rid = str_field (rec_data ur) ''role_id'' in
      if rid = [] then None else Some (rid, str_field (rec_data ur) ''department_id''))"

text \<open>The map \<open>codeByID\<close>, of the roles a seed names.\<close>

definition code_by_id :: "string list \<Rightarrow> Record list \<Rightarrow> string \<rightharpoonup> string" where
  "code_by_id ids roles =
     foldl (\<lambda>m r. if rec_id r \<in> set ids then m(rec_id r \<mapsto> str_field (rec_data r) ''code'') else m)
       Map.empty roles"

definition seed_grant :: "(string \<rightharpoonup> string) \<Rightarrow> string \<times> string \<Rightarrow> RoleGrant option" where
  "seed_grant codes = (\<lambda>(rid, dept).
     map_option (\<lambda>code. \<lparr>g_id = rid, g_code = code, g_department = dept\<rparr>) (codes rid))"

definition RoleGrantsForUser :: "env \<Rightarrow> string \<Rightarrow> RoleGrant list dbm" where
  "RoleGrantsForUser E user =
     bindM (ListByField E ''UserRole'' ''user_id'' user) (\<lambda>urs.
       let seeds = List.map_filter role_seed urs in
       if seeds = [] then ret []
       else bindM (ListTx ''Role'') (\<lambda>roles.
         ret (List.map_filter (seed_grant (code_by_id (map fst seeds) roles)) seeds)))"

text \<open>The first occurrence of each element.\<close>

fun firsts :: "'a list \<Rightarrow> 'a list \<Rightarrow> 'a list" where
  "firsts seen [] = []"
| "firsts seen (x # xs) = (if x \<in> set seen then firsts seen xs else x # firsts (x # seen) xs)"

definition RoleCodesForUser :: "env \<Rightarrow> string \<Rightarrow> string list dbm" where
  "RoleCodesForUser E user =
     bindM (RoleGrantsForUser E user) (\<lambda>gs. ret (firsts [] (filter (\<lambda>c. c \<noteq> []) (map g_code gs))))"

definition RoleCodesForUserInDepartment :: "env \<Rightarrow> string \<Rightarrow> string \<Rightarrow> string list dbm" where
  "RoleCodesForUserInDepartment E user dept =
     bindM (RoleGrantsForUser E user) (\<lambda>gs.
       ret (map g_code (filter (\<lambda>g. g_code g \<noteq> [] \<and> (g_department g = [] \<or> g_department g = dept)) gs)))"

section \<open>Delegations\<close>

text \<open>
  The end date counts to the end of its day on the server's calendar; \<open>t\<close> is the server's wall
  clock. A text that is no date is an ended delegation.
\<close>

definition delegation_ended :: "gtime \<Rightarrow> string \<Rightarrow> bool" where
  "delegation_ended t ends_at \<longleftrightarrow>
     ends_at \<noteq> [] \<and>
     (case ParseDate ends_at of
        None \<Rightarrow> True
      | Some d \<Rightarrow> \<not> t < next_day (Time (d_year d) (d_month d) (d_day d) 0 0 0))"

definition delegator :: "gtime \<Rightarrow> string \<Rightarrow> Record \<Rightarrow> string option" where
  "delegator t delegate row =
     (let who = str_field (rec_data row) ''delegator_user_id'' in
      if bool_field (rec_data row) ''revoked'' then None
      else if delegation_ended t (str_field (rec_data row) ''ends_at'') then None
      else if who = [] \<or> who = delegate then None
      else Some who)"

definition ActiveDelegatorsFor :: "env \<Rightarrow> gtime \<Rightarrow> string \<Rightarrow> string list dbm" where
  "ActiveDelegatorsFor E t delegate =
     (if delegate = [] then ret []
      else bindM (ListByField E ''Delegation'' ''delegate_user_id'' delegate) (\<lambda>rows.
        ret (firsts [] (List.map_filter (delegator t delegate) rows))))"

lemma reads_roles [reads_intro]:
  "reads (RoleGrantsForUser E user)" "reads (RoleCodesForUser E user)"
  "reads (RoleCodesForUserInDepartment E user dept)" "reads (ActiveDelegatorsFor E t u)"
  unfolding RoleGrantsForUser_def RoleCodesForUser_def RoleCodesForUserInDepartment_def
    ActiveDelegatorsFor_def Let_def
  by (intro reads_intro)+

section \<open>What a user holds\<close>

text \<open>
  A user holds a role (in a department; everywhere when it is empty) when a live \<open>UserRole\<close>
  record of his names a live role.
\<close>

definition holds_role :: "env \<Rightarrow> db \<Rightarrow> string \<Rightarrow> RoleGrant \<Rightarrow> bool" where
  "holds_role E D user g \<longleftrightarrow>
     g_id g \<noteq> [] \<and>
     (\<exists>ur \<in> set (db_records D). live ''UserRole'' ur \<and> field_is E ur (''user_id'', user) \<and>
        str_field (rr_data ur) ''role_id'' = g_id g \<and>
        str_field (rr_data ur) ''department_id'' = g_department g) \<and>
     (\<exists>r \<in> set (db_records D). live ''Role'' r \<and> rr_id r = g_id g \<and> str_field (rr_data r) ''code'' = g_code g)"

lemma set_firsts [simp]: "set (firsts seen xs) = set xs - set seen"
  by (induction xs arbitrary: seen) auto

lemma distinct_firsts [simp]: "distinct (firsts seen xs)"
  by (induction xs arbitrary: seen) auto

lemma set_map_filter: "set (List.map_filter f xs) = {y. \<exists>x \<in> set xs. f x = Some y}"
  by (force simp: List.map_filter_def)

lemma code_by_id_lookup:
  assumes "distinct (map rec_id roles)"
  shows "code_by_id ids roles i = Some c \<longleftrightarrow>
    i \<in> set ids \<and> (\<exists>r \<in> set roles. rec_id r = i \<and> str_field (rec_data r) ''code'' = c)"
proof -
  have "foldl (\<lambda>m r. if rec_id r \<in> set ids then m(rec_id r \<mapsto> str_field (rec_data r) ''code'') else m) m roles i
        = Some c \<longleftrightarrow>
      (if i \<in> set ids \<and> i \<in> rec_id ` set roles
       then \<exists>r \<in> set roles. rec_id r = i \<and> str_field (rec_data r) ''code'' = c else m i = Some c)" for m
    using assms by (induction roles arbitrary: m) (auto, metis image_eqI)
  from this [of Map.empty] show ?thesis unfolding code_by_id_def by auto
qed

lemma seed_grant_Some:
  "seed_grant codes x = Some g \<longleftrightarrow> x = (g_id g, g_department g) \<and> codes (g_id g) = Some (g_code g)"
  by (cases x; cases g) (auto simp: seed_grant_def)

lemma ListTx_rows:
  assumes "ListTx et w = (Inr rs, w')"
  shows "set rs = to_record ` {r \<in> set (db_records (w_db w)). live et r}"
    and "records_wf (w_db w) \<Longrightarrow> distinct (map rec_id rs)"
proof -
  have rs: "rs = map to_record (sort_key rr_created (filter (live et) (db_records (w_db w))))"
    using assms by (simp add: ListTx_def query_Inr_iff)
  then show "set rs = to_record ` {r \<in> set (db_records (w_db w)). live et r}" by auto
  assume "records_wf (w_db w)"
  then have "distinct (map rr_id (filter (live et) (db_records (w_db w))))"
    by (simp add: records_wf_def distinct_map_filter)
  then have "distinct (map rr_id (sort_key rr_created (filter (live et) (db_records (w_db w)))))"
    by (metis mset_map mset_sort mset_eq_imp_distinct_iff)
  then show "distinct (map rec_id rs)" by (simp add: rs comp_def to_record_def)
qed

lemma ListByField_set:
  assumes "ListByField E et f v w = (Inr rs, w')"
  shows "set rs = to_record ` {r \<in> set (db_records (w_db w)). live et r \<and> field_is E r (f, v)}"
  using assms by (auto simp: ListByField_def query_Inr_iff by_age_def)

lemma RoleGrantsForUser_holds:
  assumes wf: "records_wf (w_db w)" and run: "RoleGrantsForUser E user w = (Inr gs, w')"
  shows "set gs = {g. holds_role E (w_db w) user g}"
proof -
  from run obtain urs w1 where urs: "ListByField E ''UserRole'' ''user_id'' user w = (Inr urs, w1)"
    and rest: "(if List.map_filter role_seed urs = [] then ret []
       else bindM (ListTx ''Role'') (\<lambda>roles. ret (List.map_filter
         (seed_grant (code_by_id (map fst (List.map_filter role_seed urs)) roles))
         (List.map_filter role_seed urs)))) w1 = (Inr gs, w')"
    unfolding RoleGrantsForUser_def Let_def bindM_Inr_iff by blast
  have "reads (ListByField E ''UserRole'' ''user_id'' user)" by (intro reads_intro)
  then have w1: "w_db w1 = w_db w" using urs by (rule readsD)
  let ?seeds = "List.map_filter role_seed urs"
  have seeds: "(rid, dept) \<in> set ?seeds \<longleftrightarrow> rid \<noteq> [] \<and>
      (\<exists>ur \<in> set (db_records (w_db w)). live ''UserRole'' ur \<and> field_is E ur (''user_id'', user) \<and>
        str_field (rr_data ur) ''role_id'' = rid \<and> str_field (rr_data ur) ''department_id'' = dept)" for rid dept
    unfolding set_map_filter ListByField_set [OF urs]
    by (auto simp: role_seed_def Let_def to_record_def split: if_splits)
  show ?thesis
  proof (cases "?seeds = []")
    case True
    then have "gs = []" using rest by simp
    moreover have "\<not> holds_role E (w_db w) user g" for g
      using seeds True unfolding holds_role_def by auto
    ultimately show ?thesis by simp
  next
    case False
    then obtain roles w2 where roles: "ListTx ''Role'' w1 = (Inr roles, w2)"
      and gs: "gs = List.map_filter (seed_grant (code_by_id (map fst ?seeds) roles)) ?seeds"
      using rest by (auto simp: bindM_Inr_iff)
    have set_roles: "set roles = to_record ` {r \<in> set (db_records (w_db w)). live ''Role'' r}"
      and d: "distinct (map rec_id roles)"
      using ListTx_rows [OF roles] w1 wf by simp_all
    have code: "code_by_id (map fst ?seeds) roles i = Some c \<longleftrightarrow> i \<in> fst ` set ?seeds \<and>
        (\<exists>r \<in> set (db_records (w_db w)). live ''Role'' r \<and> rr_id r = i \<and> str_field (rr_data r) ''code'' = c)" for i c
      unfolding code_by_id_lookup [OF d] set_roles by (auto simp: to_record_def)
    have "g \<in> set gs \<longleftrightarrow> (g_id g, g_department g) \<in> set ?seeds \<and>
        code_by_id (map fst ?seeds) roles (g_id g) = Some (g_code g)" for g
      unfolding gs set_map_filter seed_grant_Some by blast
    moreover have "i \<in> fst ` set ?seeds" if "(i, dp) \<in> set ?seeds" for i dp
      using imageI [OF that, of fst] by simp
    ultimately have "g \<in> set gs \<longleftrightarrow> holds_role E (w_db w) user g" for g
      unfolding holds_role_def code seeds by blast
    then show ?thesis by blast
  qed
qed

end
