(* ===== verification/Authz.thy ===== *)
theory Authz
  imports Roles
begin

text \<open>
  Access control (\<open>internal/kernel/authz/authz.go\<close>): the \<open>Resolver\<close> that answers what a user may
  read and write and which fields are hidden from him, with everything it remembers during a
  request; the policy it implements; and the proof that it does.
\<close>

section \<open>The resolver's state\<close>

definition AdminRoleCode :: string where
  "AdminRoleCode = ''tenant_admin''"

definition controlPlaneTypes :: "string list" where
  "controlPlaneTypes =
     [''Role'', ''UserRole'', ''Permission'', ''FieldPermission'', ''Delegation'', ''ExternalIdentity'',
      ''SystemOfRecord'']"

definition systemOnlyWriteTypes :: "string list" where
  "systemOnlyWriteTypes = [''ExternalIdentity'', ''AIProviderConnection'']"

record entityPerm =
  ep_rules :: bool
  ep_read :: bool
  ep_write :: bool

record permRule =
  pr_role :: string
  pr_read :: bool
  pr_write :: bool

record fieldRule =
  fr_role :: string
  fr_field :: string
  fr_hidden :: bool

text \<open>One \<open>SystemOfRecord\<close> row as \<open>sor.go\<close> reduces it.\<close>

record sorRule =
  so_mode :: string
  so_source :: string

definition sor_rule :: "fields \<Rightarrow> sorRule" where
  "sor_rule data = \<lparr>so_mode = str_field data ''mode'', so_source = str_field data ''source_id''\<rparr>"

text \<open>
  The resolver, with the memo of the guarded engine that wraps it (\<open>sorMemo\<close>): both live for one
  request.
\<close>

record Resolver =
  rs_user :: string
  rs_machine :: bool
  rs_roles_loaded :: bool
  rs_admin :: bool
  rs_role_ids :: "string set"
  rs_rules_loaded :: bool
  rs_perms :: "string \<Rightarrow> permRule list"
  rs_fields :: "string \<Rightarrow> fieldRule list"
  rs_any_rules :: bool
  rs_configured_loaded :: bool
  rs_configured :: bool
  rs_memo :: "string \<rightharpoonup> entityPerm"
  rs_hidden_memo :: "string \<rightharpoonup> string set"
  rs_sor_memo :: "string \<rightharpoonup> sorRule list"

definition NewResolver :: "Actor \<Rightarrow> bool \<Rightarrow> Resolver" where
  "NewResolver actor machine =
     \<lparr>rs_user = a_id actor, rs_machine = machine, rs_roles_loaded = False, rs_admin = False,
      rs_role_ids = {}, rs_rules_loaded = False, rs_perms = (\<lambda>_. []), rs_fields = (\<lambda>_. []),
      rs_any_rules = False, rs_configured_loaded = False, rs_configured = False,
      rs_memo = Map.empty, rs_hidden_memo = Map.empty, rs_sor_memo = Map.empty\<rparr>"

section \<open>Running statements and remembering\<close>

text \<open>A call of the resolver: what it learned stays learned when a later statement fails.\<close>

type_synonym 'a am = "Resolver \<Rightarrow> world \<Rightarrow> (err + 'a) \<times> Resolver \<times> world"

definition aret :: "'a \<Rightarrow> 'a am" where
  "aret x r w = (Inr x, r, w)"

definition afail :: "err \<Rightarrow> 'a am" where
  "afail e r w = (Inl e, r, w)"

definition abind :: "'a am \<Rightarrow> ('a \<Rightarrow> 'b am) \<Rightarrow> 'b am" where
  "abind m f r w =
     (case m r w of (Inl e, r', w') \<Rightarrow> (Inl e, r', w') | (Inr x, r', w') \<Rightarrow> f x r' w')"

definition athen :: "'a am \<Rightarrow> 'b am \<Rightarrow> 'b am" where
  "athen m n = abind m (\<lambda>_. n)"

definition lift :: "'a dbm \<Rightarrow> 'a am" where
  "lift m r w = (case m w of (res, w') \<Rightarrow> (res, r, w'))"

definition with_res :: "(Resolver \<Rightarrow> 'a am) \<Rightarrow> 'a am" where
  "with_res f r = f r r"

definition modify :: "(Resolver \<Rightarrow> Resolver) \<Rightarrow> unit am" where
  "modify f r w = (Inr (), f r, w)"

section \<open>The resolver\<close>

definition loadRoles :: "env \<Rightarrow> unit am" where
  "loadRoles E = with_res (\<lambda>r.
     if rs_roles_loaded r then aret ()
     else abind (lift (RoleGrantsForUser E (rs_user r))) (\<lambda>grants.
       modify (\<lambda>r. r\<lparr>rs_role_ids := set (map g_id grants),
         rs_admin := rs_admin r \<or> list_ex (\<lambda>g. g_code g = AdminRoleCode) grants,
         rs_roles_loaded := True\<rparr>)))"

definition rule_type :: "Record \<Rightarrow> string" where
  "rule_type row = str_field (rec_data row) ''entity_type''"

text \<open>The rows grouped by \<open>entity_type\<close>; a row that names no type is in no group.\<close>

definition perm_rule :: "fields \<Rightarrow> permRule" where
  "perm_rule data =
     \<lparr>pr_role = str_field data ''role_id'', pr_read = bool_field data ''can_read'',
      pr_write = bool_field data ''can_write''\<rparr>"

definition perm_rules :: "Record list \<Rightarrow> string \<Rightarrow> permRule list" where
  "perm_rules rows et =
     map (\<lambda>row. perm_rule (rec_data row))
       (filter (\<lambda>row. rule_type row \<noteq> [] \<and> rule_type row = et) rows)"

definition field_rule :: "fields \<Rightarrow> fieldRule" where
  "field_rule data =
     \<lparr>fr_role = str_field data ''role_id'', fr_field = str_field data ''field_name'',
      fr_hidden = bool_field data ''hidden''\<rparr>"

definition field_rules :: "Record list \<Rightarrow> string \<Rightarrow> fieldRule list" where
  "field_rules rows et =
     map (\<lambda>row. field_rule (rec_data row))
       (filter (\<lambda>row. rule_type row \<noteq> [] \<and> rule_type row = et) rows)"

definition loadRules :: "unit am" where
  "loadRules = with_res (\<lambda>r.
     if rs_rules_loaded r then aret ()
     else abind (lift (ListTx ''Permission'')) (\<lambda>perm_rows.
       athen (modify (\<lambda>r. r\<lparr>rs_perms := perm_rules perm_rows\<rparr>))
       (abind (lift (ListTx ''FieldPermission'')) (\<lambda>field_rows.
          modify (\<lambda>r. r\<lparr>rs_fields := field_rules field_rows,
            rs_any_rules := (perm_rows \<noteq> [] \<or> field_rows \<noteq> []),
            rs_rules_loaded := True\<rparr>)))))"

text \<open>The loop of \<open>resolve\<close> over the rules of the type.\<close>

definition entity_perm :: "string set \<Rightarrow> permRule list \<Rightarrow> entityPerm" where
  "entity_perm role_ids rows =
     (let mine = filter (\<lambda>p. pr_role p \<noteq> [] \<and> pr_role p \<in> role_ids) rows in
      \<lparr>ep_rules = (rows \<noteq> []), ep_read = list_ex (\<lambda>p. pr_read p \<or> pr_write p) mine,
       ep_write = list_ex pr_write mine\<rparr>)"

definition resolve :: "env \<Rightarrow> string \<Rightarrow> entityPerm am" where
  "resolve E et = with_res (\<lambda>r.
     case rs_memo r et of
       Some p \<Rightarrow> aret p
     | None \<Rightarrow>
         athen (loadRoles E)
        (athen loadRules
        (with_res (\<lambda>r.
           let p = entity_perm (rs_role_ids r) (rs_perms r et) in
           athen (modify (\<lambda>r. r\<lparr>rs_memo := (rs_memo r)(et \<mapsto> p)\<rparr>)) (aret p)))))"

text \<open>The roles, among the ones held, that hide a field.\<close>

definition hiding_roles :: "string set \<Rightarrow> fieldRule list \<Rightarrow> string \<Rightarrow> string set" where
  "hiding_roles role_ids rows name =
     set (map fr_role (filter (\<lambda>f. fr_hidden f \<and> fr_field f \<noteq> [] \<and> fr_role f \<noteq> [] \<and>
       fr_role f \<in> role_ids \<and> fr_field f = name) rows))"

definition hidden_set :: "string set \<Rightarrow> fieldRule list \<Rightarrow> string set" where
  "hidden_set role_ids rows =
     set (filter (\<lambda>name. hiding_roles role_ids rows name \<noteq> {} \<and>
         card (hiding_roles role_ids rows name) = card role_ids) (map fr_field rows))"

text \<open>The nil map of the code is the empty set.\<close>

definition HiddenFields :: "env \<Rightarrow> string \<Rightarrow> string set am" where
  "HiddenFields E et = with_res (\<lambda>r.
     if rs_machine r then aret {}
     else athen (loadRoles E) (with_res (\<lambda>r.
       if rs_admin r \<or> rs_role_ids r = {} then aret {}
       else case rs_hidden_memo r et of
         Some h \<Rightarrow> aret h
       | None \<Rightarrow>
           athen loadRules (with_res (\<lambda>r.
             let h = hidden_set (rs_role_ids r) (rs_fields r et) in
             athen (modify (\<lambda>r. r\<lparr>rs_hidden_memo := (rs_hidden_memo r)(et \<mapsto> h)\<rparr>)) (aret h))))))"

text \<open>The loop over the roles with the admin code, until one is granted to somebody.\<close>

fun any_granted :: "env \<Rightarrow> Record list \<Rightarrow> bool dbm" where
  "any_granted E [] = ret False"
| "any_granted E (role # roles) =
     bindM (ListByField E ''UserRole'' ''role_id'' (rec_id role)) (\<lambda>grants.
       if grants \<noteq> [] then ret True else any_granted E roles)"

definition set_configured :: "bool \<Rightarrow> bool am" where
  "set_configured b =
     athen (modify (\<lambda>r. r\<lparr>rs_configured := b, rs_configured_loaded := True\<rparr>)) (aret b)"

definition rbacConfigured :: "env \<Rightarrow> bool am" where
  "rbacConfigured E = with_res (\<lambda>r.
     if rs_configured_loaded r then aret (rs_configured r)
     else athen loadRules (with_res (\<lambda>r.
       if rs_any_rules r then set_configured True
       else abind (lift (ListByField E ''Role'' ''code'' AdminRoleCode)) (\<lambda>roles.
         abind (lift (any_granted E roles)) set_configured))))"

definition CanRead :: "env \<Rightarrow> string \<Rightarrow> bool am" where
  "CanRead E et = with_res (\<lambda>r.
     if rs_machine r then aret True
     else athen (loadRoles E) (with_res (\<lambda>r.
       if rs_admin r then aret True
       else abind (resolve E et) (\<lambda>p.
         if \<not> ep_rules p then aret True else aret (ep_read p)))))"

definition CanWrite :: "env \<Rightarrow> string \<Rightarrow> bool am" where
  "CanWrite E et = with_res (\<lambda>r.
     if et \<in> set systemOnlyWriteTypes then aret False
     else if rs_machine r then aret True
     else athen (loadRoles E) (with_res (\<lambda>r.
       if rs_admin r then aret True
       else abind (resolve E et) (\<lambda>p.
         if \<not> ep_rules p then
           (if et \<in> set controlPlaneTypes
            then abind (rbacConfigured E) (\<lambda>c. aret (\<not> c)) else aret True)
         else aret (ep_write p)))))"

section \<open>The policy\<close>

text \<open>
  The access rules as the records state them, read off the database in one go: nothing is
  loaded, grouped or remembered.
\<close>

definition held :: "env \<Rightarrow> db \<Rightarrow> string \<Rightarrow> string set" where
  "held E D u = {i. \<exists>g. holds_role E D u g \<and> g_id g = i}"

definition is_admin :: "env \<Rightarrow> db \<Rightarrow> string \<Rightarrow> bool" where
  "is_admin E D u \<longleftrightarrow> (\<exists>g. holds_role E D u g \<and> g_code g = AdminRoleCode)"

text \<open>A live rule (of the two kinds) for an entity type.\<close>

definition rule_for :: "db \<Rightarrow> string \<Rightarrow> string \<Rightarrow> fields \<Rightarrow> bool" where
  "rule_for D kind et data \<longleftrightarrow>
     et \<noteq> [] \<and> (\<exists>r \<in> set (db_records D). live kind r \<and> rr_data r = data \<and> str_field data ''entity_type'' = et)"

definition ruled :: "db \<Rightarrow> string \<Rightarrow> bool" where
  "ruled D et \<longleftrightarrow> (\<exists>p. rule_for D ''Permission'' et p)"

definition granted :: "env \<Rightarrow> db \<Rightarrow> string \<Rightarrow> string list \<Rightarrow> string \<Rightarrow> bool" where
  "granted E D u rights et \<longleftrightarrow>
     (\<exists>p. rule_for D ''Permission'' et p \<and> str_field p ''role_id'' \<in> held E D u \<and>
        (\<exists>right \<in> set rights. bool_field p right))"

definition configured :: "env \<Rightarrow> db \<Rightarrow> bool" where
  "configured E D \<longleftrightarrow>
     (\<exists>r \<in> set (db_records D). live ''Permission'' r \<or> live ''FieldPermission'' r) \<or>
     (\<exists>role \<in> set (db_records D). live ''Role'' role \<and> field_is E role (''code'', AdminRoleCode) \<and>
        (\<exists>ur \<in> set (db_records D). live ''UserRole'' ur \<and> field_is E ur (''role_id'', rr_id role)))"

definition may_read :: "env \<Rightarrow> db \<Rightarrow> string \<Rightarrow> bool \<Rightarrow> string \<Rightarrow> bool" where
  "may_read E D u machine et \<longleftrightarrow>
     machine \<or> is_admin E D u \<or> \<not> ruled D et \<or> granted E D u [''can_read'', ''can_write''] et"

definition may_write :: "env \<Rightarrow> db \<Rightarrow> string \<Rightarrow> bool \<Rightarrow> string \<Rightarrow> bool" where
  "may_write E D u machine et \<longleftrightarrow>
     et \<notin> set systemOnlyWriteTypes \<and>
     (machine \<or> is_admin E D u \<or>
      (if ruled D et then granted E D u [''can_write''] et
       else et \<in> set controlPlaneTypes \<longrightarrow> \<not> configured E D))"

definition hidden :: "env \<Rightarrow> db \<Rightarrow> string \<Rightarrow> bool \<Rightarrow> string \<Rightarrow> string set" where
  "hidden E D u machine et =
     (if machine \<or> is_admin E D u \<or> held E D u = {} then {}
      else {f. f \<noteq> [] \<and> (\<forall>i \<in> held E D u. \<exists>p. rule_for D ''FieldPermission'' et p \<and>
        str_field p ''role_id'' = i \<and> str_field p ''field_name'' = f \<and> bool_field p ''hidden'')})"

end
