(* ===== verification/AuthzPolicy.thy ===== *)
theory AuthzPolicy
  imports Authz
begin

text \<open>
  The resolver implements the policy: whatever it has loaded and remembered agrees with the
  database, so on a database that does not change during the request every answer is the
  policy's.
\<close>

section \<open>The policy, rule by rule\<close>

definition perm_of :: "env \<Rightarrow> db \<Rightarrow> string \<Rightarrow> string \<Rightarrow> entityPerm" where
  "perm_of E D u et =
     \<lparr>ep_rules = ruled D et, ep_read = granted E D u [''can_read'', ''can_write''] et,
      ep_write = granted E D u [''can_write''] et\<rparr>"

definition fields_hidden :: "env \<Rightarrow> db \<Rightarrow> string \<Rightarrow> string \<Rightarrow> string set" where
  "fields_hidden E D u et =
     {f. f \<noteq> [] \<and> held E D u \<noteq> {} \<and> (\<forall>i \<in> held E D u. \<exists>p. rule_for D ''FieldPermission'' et p \<and>
        str_field p ''role_id'' = i \<and> str_field p ''field_name'' = f \<and> bool_field p ''hidden'')}"

lemma hidden_eq:
  "hidden E D u m et = (if m \<or> is_admin E D u then {} else fields_hidden E D u et)"
  by (auto simp: hidden_def fields_hidden_def)

lemma held_not_empty: "[] \<notin> held E D u"
  by (auto simp: held_def holds_role_def)

text \<open>What a loaded list of rules has to be.\<close>

definition perms_ok :: "db \<Rightarrow> (string \<Rightarrow> permRule list) \<Rightarrow> bool" where
  "perms_ok D ps \<longleftrightarrow> (\<forall>et. set (ps et) = perm_rule ` Collect (rule_for D ''Permission'' et))"

definition fields_ok :: "db \<Rightarrow> (string \<Rightarrow> fieldRule list) \<Rightarrow> bool" where
  "fields_ok D fs \<longleftrightarrow> (\<forall>et. set (fs et) = field_rule ` Collect (rule_for D ''FieldPermission'' et))"

lemma rule_rows:
  assumes "ListTx kind w = (Inr rows, w')"
  shows "rec_data ` {row \<in> set rows. rule_type row \<noteq> [] \<and> rule_type row = et} = Collect (rule_for (w_db w) kind et)"
proof -
  have eq: "p \<in> rec_data ` {row \<in> set rows. rule_type row \<noteq> [] \<and> rule_type row = et} \<longleftrightarrow>
      (\<exists>r \<in> set (db_records (w_db w)). live kind r \<and> rec_data (to_record r) = p \<and>
        rule_type (to_record r) \<noteq> [] \<and> rule_type (to_record r) = et)" for p
    unfolding ListTx_rows(1) [OF assms] by blast
  show ?thesis unfolding set_eq_iff eq by (auto simp: rule_for_def rule_type_def to_record_def)
qed

lemma perm_rules_ok: "ListTx ''Permission'' w = (Inr rows, w') \<Longrightarrow> perms_ok (w_db w) (perm_rules rows)"
  unfolding perms_ok_def by (simp add: perm_rules_def image_image flip: rule_rows)

lemma field_rules_ok:
  "ListTx ''FieldPermission'' w = (Inr rows, w') \<Longrightarrow> fields_ok (w_db w) (field_rules rows)"
  unfolding fields_ok_def by (simp add: field_rules_def image_image flip: rule_rows)

lemma entity_perm_policy:
  assumes "perms_ok D ps"
  shows "entity_perm (held E D u) (ps et) = perm_of E D u et"
proof -
  have ps: "set (ps et) = perm_rule ` Collect (rule_for D ''Permission'' et)"
    using assms by (simp add: perms_ok_def)
  then have "(ps et \<noteq> []) = ruled D et" by (metis Collect_empty_eq image_is_empty ruled_def set_empty)
  moreover have "list_ex f (filter (\<lambda>p. pr_role p \<noteq> [] \<and> pr_role p \<in> held E D u) (ps et)) \<longleftrightarrow>
      (\<exists>q. rule_for D ''Permission'' et q \<and> str_field q ''role_id'' \<in> held E D u \<and> f (perm_rule q))" for f
    using held_not_empty [of E D u] by (auto simp: list_ex_iff ps perm_rule_def)
  ultimately show ?thesis by (simp add: entity_perm_def perm_of_def Let_def granted_def perm_rule_def)
qed

lemma hidden_set_policy:
  assumes fs: "fields_ok D fs" and fin: "finite (held E D u)" and ne: "held E D u \<noteq> {}"
  shows "hidden_set (held E D u) (fs et) = fields_hidden E D u et"
proof -
  let ?H = "held E D u"
  have set_fs: "set (fs et) = field_rule ` Collect (rule_for D ''FieldPermission'' et)"
    using fs by (simp add: fields_ok_def)
  have hr: "i \<in> hiding_roles ?H (fs et) f \<longleftrightarrow> i \<in> ?H \<and> f \<noteq> [] \<and> (\<exists>p. rule_for D ''FieldPermission'' et p \<and>
      str_field p ''role_id'' = i \<and> str_field p ''field_name'' = f \<and> bool_field p ''hidden'')" for f i
    using held_not_empty [of E D u] by (auto simp: hiding_roles_def set_fs field_rule_def image_iff)
  have names: "f \<in> set (map fr_field (fs et))" if hid: "f \<in> fields_hidden E D u et" for f
  proof -
    obtain i where "i \<in> ?H" using ne by blast
    then obtain p where "rule_for D ''FieldPermission'' et p" "str_field p ''field_name'' = f"
      using hid unfolding fields_hidden_def by blast
    then show ?thesis by (force simp: set_fs field_rule_def)
  qed
  have full: "hiding_roles ?H (fs et) f \<noteq> {} \<and> card (hiding_roles ?H (fs et) f) = card ?H \<longleftrightarrow>
      hiding_roles ?H (fs et) f = ?H" for f
  proof -
    have "hiding_roles ?H (fs et) f \<subseteq> ?H" using hr by blast
    then show ?thesis using card_subset_eq [OF fin, of "hiding_roles ?H (fs et) f"] ne by auto
  qed
  have "f \<in> hidden_set ?H (fs et) \<longleftrightarrow> f \<in> set (map fr_field (fs et)) \<and> hiding_roles ?H (fs et) f = ?H" for f
    unfolding hidden_set_def set_filter mem_Collect_eq full ..
  moreover have "hiding_roles ?H (fs et) f = ?H \<longleftrightarrow> f \<in> fields_hidden E D u et" for f
    using ne hr unfolding fields_hidden_def by blast
  ultimately show ?thesis using names by blast
qed

section \<open>What is remembered is true\<close>

text \<open>
  The invariant of a resolver against the database: every part that is marked as loaded, and
  every remembered answer, is the policy's.
\<close>

definition sor_declared :: "env \<Rightarrow> db \<Rightarrow> string \<Rightarrow> sorRule set" where
  "sor_declared E D et = (\<lambda>r. sor_rule (rr_data r)) ` {r \<in> set (db_records D). live ''SystemOfRecord'' r \<and>
     field_is E r (''entity_type'', et)}"

definition memo_ok :: "env \<Rightarrow> db \<Rightarrow> Resolver \<Rightarrow> bool" where
  "memo_ok E D r \<longleftrightarrow>
     (if rs_roles_loaded r
      then rs_role_ids r = held E D (rs_user r) \<and> finite (rs_role_ids r) \<and>
        rs_admin r = is_admin E D (rs_user r)
      else \<not> rs_admin r) \<and>
     (rs_rules_loaded r \<longrightarrow> perms_ok D (rs_perms r) \<and> fields_ok D (rs_fields r) \<and>
        rs_any_rules r = (\<exists>x \<in> set (db_records D). live ''Permission'' x \<or> live ''FieldPermission'' x)) \<and>
     (rs_configured_loaded r \<longrightarrow> rs_configured r = configured E D) \<and>
     (\<forall>et p. rs_memo r et = Some p \<longrightarrow> p = perm_of E D (rs_user r) et) \<and>
     (\<forall>et h. rs_hidden_memo r et = Some h \<longrightarrow> h = fields_hidden E D (rs_user r) et) \<and>
     (\<forall>et rules. rs_sor_memo r et = Some rules \<longrightarrow> set rules = sor_declared E D et)"

text \<open>
  A Hoare triple for calls of one resolver on one database: from a resolver that is right about the
  database and satisfies \<open>P\<close>, the call leaves database, user and invariant alone, also when it
  fails, and an answer satisfies \<open>Q\<close>.
\<close>

definition same_request :: "Resolver \<Rightarrow> Resolver \<Rightarrow> bool" where
  "same_request r r' \<longleftrightarrow> rs_user r' = rs_user r \<and> rs_machine r' = rs_machine r"

definition triple ::
    "env \<Rightarrow> db \<Rightarrow> (Resolver \<Rightarrow> bool) \<Rightarrow> 'a am \<Rightarrow> ('a \<Rightarrow> Resolver \<Rightarrow> bool) \<Rightarrow> bool" where
  "triple E D P m Q \<longleftrightarrow>
     (\<forall>r w res r' w'. w_db w = D \<longrightarrow> memo_ok E D r \<longrightarrow> P r \<longrightarrow> m r w = (res, r', w') \<longrightarrow>
        w_db w' = D \<and> memo_ok E D r' \<and> same_request r r' \<and> (\<forall>x. res = Inr x \<longrightarrow> Q x r'))"

named_theorems triple_rules "rules for calls of the resolver"

lemma tripleD:
  assumes "triple E (w_db w) P m Q" "memo_ok E (w_db w) r" "P r" "m r w = (res, r', w')"
  shows "w_db w' = w_db w" "memo_ok E (w_db w) r'" "same_request r r'" "res = Inr x \<Longrightarrow> Q x r'"
  using assms unfolding triple_def by blast+

lemma triple_ret: "(\<And>r. memo_ok E D r \<Longrightarrow> P r \<Longrightarrow> Q x r) \<Longrightarrow> triple E D P (aret x) Q"
  by (auto simp: triple_def aret_def same_request_def)

lemma triple_weaken:
  assumes "triple E D P m Q" "\<And>r. memo_ok E D r \<Longrightarrow> P' r \<Longrightarrow> P r" "\<And>x r. memo_ok E D r \<Longrightarrow> Q x r \<Longrightarrow> Q' x r"
  shows "triple E D P' m Q'"
  unfolding triple_def
proof (intro allI impI)
  fix r w res r' w'
  assume a: "w_db w = D" "memo_ok E D r" "P' r" "m r w = (res, r', w')"
  have "P r" using assms(2) a(2,3) by blast
  then have "w_db w' = D \<and> memo_ok E D r' \<and> same_request r r' \<and> (\<forall>x. res = Inr x \<longrightarrow> Q x r')"
    using assms(1) a(1,2,4) unfolding triple_def by blast
  then show "w_db w' = D \<and> memo_ok E D r' \<and> same_request r r' \<and> (\<forall>x. res = Inr x \<longrightarrow> Q' x r')"
    using assms(3) by blast
qed

lemma triple_bind:
  assumes m: "triple E D P m Q" and f: "\<And>x. triple E D (Q x) (f x) R"
  shows "triple E D P (abind m f) R"
  unfolding triple_def
proof (intro allI impI)
  fix r w res r' w'
  assume a: "w_db w = D" "memo_ok E D r" "P r" and run: "abind m f r w = (res, r', w')"
  obtain x1 r1 w1 where 1: "m r w = (x1, r1, w1)" by (cases "m r w") auto
  have s1: "w_db w1 = D" "memo_ok E D r1" "same_request r r1" "\<And>x. x1 = Inr x \<Longrightarrow> Q x r1"
    using m a 1 unfolding triple_def by blast+
  show "w_db w' = D \<and> memo_ok E D r' \<and> same_request r r' \<and> (\<forall>x. res = Inr x \<longrightarrow> R x r')"
  proof (cases x1)
    case (Inl e)
    then show ?thesis using run 1 s1 by (auto simp: abind_def)
  next
    case (Inr x)
    then have "f x r1 w1 = (res, r', w')" using run 1 by (simp add: abind_def)
    then have "w_db w' = D \<and> memo_ok E D r' \<and> same_request r1 r' \<and> (\<forall>x. res = Inr x \<longrightarrow> R x r')"
      using f [of x] s1 Inr unfolding triple_def by blast
    then show ?thesis using s1(3) by (simp add: same_request_def)
  qed
qed

lemma triple_then: "triple E D P m Q \<Longrightarrow> (\<And>x. triple E D (Q x) n R) \<Longrightarrow> triple E D P (athen m n) R"
  unfolding athen_def by (rule triple_bind)

lemma triple_with:
  "(\<And>r0. memo_ok E D r0 \<Longrightarrow> P r0 \<Longrightarrow> triple E D (\<lambda>r. r = r0) (f r0) Q) \<Longrightarrow> triple E D P (with_res f) Q"
  unfolding triple_def with_res_def by metis

lemma triple_lift:
  assumes "reads m" "\<And>x w w'. w_db w = D \<Longrightarrow> m w = (Inr x, w') \<Longrightarrow> Q x"
  shows "triple E D P (lift m) (\<lambda>x r. P r \<and> Q x)"
  using assms readsD [OF assms(1)] by (auto simp: triple_def lift_def same_request_def split: prod.splits)

lemma triple_modify:
  assumes "\<And>r. memo_ok E D r \<Longrightarrow> P r \<Longrightarrow> memo_ok E D (g r) \<and> same_request r (g r) \<and> Q () (g r)"
  shows "triple E D P (modify g) Q"
  using assms by (auto simp: triple_def modify_def)

lemma triple_pre_False: "(\<And>r. \<not> P r) \<Longrightarrow> triple E D P m Q"
  by (simp add: triple_def)

section \<open>The steps of the resolver\<close>

text \<open>Who asks, and what has been loaded.\<close>

definition asks :: "string \<Rightarrow> bool \<Rightarrow> Resolver \<Rightarrow> bool" where
  "asks u m r \<longleftrightarrow> rs_user r = u \<and> rs_machine r = m"

definition ready :: "string \<Rightarrow> bool \<Rightarrow> Resolver \<Rightarrow> bool" where
  "ready u m r \<longleftrightarrow> asks u m r \<and> rs_roles_loaded r"

text \<open>A condition that loading the rules does not touch.\<close>

definition rule_free :: "(Resolver \<Rightarrow> bool) \<Rightarrow> bool" where
  "rule_free P \<longleftrightarrow> (\<forall>r ps fs a b. P (r\<lparr>rs_perms := ps\<rparr>) = P r \<and>
     P (r\<lparr>rs_fields := fs, rs_any_rules := a, rs_rules_loaded := b\<rparr>) = P r)"

lemma rule_free_asks [simp]: "rule_free (asks u m)" and rule_free_ready [simp]: "rule_free (ready u m)"
  by (simp_all add: rule_free_def asks_def ready_def)

lemma memo_ok_roles:
  assumes "memo_ok E D r" "rs_roles_loaded r"
  shows "rs_role_ids r = held E D (rs_user r)" "finite (rs_role_ids r)" "rs_admin r = is_admin E D (rs_user r)"
  using assms by (auto simp: memo_ok_def)

lemma loadRoles_triple:
  assumes "records_wf D"
  shows "triple E D (asks u m) (loadRoles E) (\<lambda>_. ready u m)"
proof -
  have g: "set gs = {g. holds_role E D u g}" if "w_db w = D" "RoleGrantsForUser E u w = (Inr gs, w')" for gs w w'
    using RoleGrantsForUser_holds [OF _ that(2)] assms that(1) by simp
  show ?thesis
    unfolding loadRoles_def
  proof (rule triple_with)
    fix r0 assume r0: "memo_ok E D r0" "asks u m r0"
    show "triple E D (\<lambda>r. r = r0)
        (if rs_roles_loaded r0 then aret ()
         else abind (lift (RoleGrantsForUser E (rs_user r0))) (\<lambda>grants.
           modify (\<lambda>r. r\<lparr>rs_role_ids := set (map g_id grants),
             rs_admin := rs_admin r \<or> list_ex (\<lambda>g. g_code g = AdminRoleCode) grants, rs_roles_loaded := True\<rparr>)))
        (\<lambda>_. ready u m)"
    proof (cases "rs_roles_loaded r0")
      case True
      then show ?thesis using r0 by (auto intro: triple_ret simp: ready_def)
    next
      case False
      have "rs_user r0 = u" using r0(2) by (simp add: asks_def)
      then have "triple E D (\<lambda>r. r = r0) (lift (RoleGrantsForUser E (rs_user r0)))
          (\<lambda>gs r. r = r0 \<and> set gs = {g. holds_role E D u g})"
        using g by (intro triple_lift reads_roles) auto
      moreover have "memo_ok E D (r0\<lparr>rs_role_ids := set (map g_id gs),
             rs_admin := rs_admin r0 \<or> list_ex (\<lambda>g. g_code g = AdminRoleCode) gs, rs_roles_loaded := True\<rparr>)"
        if "set gs = {g. holds_role E D u g}" for gs
      proof -
        have "g_id ` set gs = held E D u" unfolding that by (auto simp: held_def)
        moreover from this have "finite (held E D u)" by (metis finite_imageI finite_set)
        moreover have "list_ex (\<lambda>g. g_code g = AdminRoleCode) gs = is_admin E D u"
          unfolding list_ex_iff that by (auto simp: is_admin_def)
        ultimately show ?thesis using r0 False by (simp add: memo_ok_def asks_def)
      qed
      ultimately show ?thesis
        using False r0(2) by (auto intro!: triple_bind [of E D "\<lambda>r. r = r0"] triple_modify
            simp: same_request_def asks_def ready_def)
    qed
  qed
qed

text \<open>The rules: the first list is kept before the second one is read.\<close>

lemma loadRules_triple:
  assumes P: "rule_free P"
  shows "triple E D P loadRules (\<lambda>_ r. P r \<and> rs_rules_loaded r)"
  unfolding loadRules_def
proof (rule triple_with)
  fix r0 assume r0: "memo_ok E D r0" "P r0"
  let ?load = "abind (lift (ListTx ''Permission'')) (\<lambda>perm_rows.
       athen (modify (\<lambda>r. r\<lparr>rs_perms := perm_rules perm_rows\<rparr>))
       (abind (lift (ListTx ''FieldPermission'')) (\<lambda>field_rows.
          modify (\<lambda>r. r\<lparr>rs_fields := field_rules field_rows,
            rs_any_rules := (perm_rows \<noteq> [] \<or> field_rows \<noteq> []), rs_rules_loaded := True\<rparr>))))"
  show "triple E D (\<lambda>r. r = r0) (if rs_rules_loaded r0 then aret () else ?load) (\<lambda>_ r. P r \<and> rs_rules_loaded r)"
  proof (cases "rs_rules_loaded r0")
    case True
    then show ?thesis using r0 by (auto intro: triple_ret)
  next
    case False
    let ?rows = "\<lambda>kind rows. (rows = [] \<longleftrightarrow> \<not> (\<exists>x \<in> set (db_records D). live kind x))"
    have rows: "?rows kind rows" if "w_db w = D" "ListTx kind w = (Inr rows, w')" for kind rows w w'
    proof -
      have "set rows = {} \<longleftrightarrow> {r \<in> set (db_records D). live kind r} = {}"
        unfolding ListTx_rows(1) [OF that(2)] that(1) by simp
      then show ?thesis by auto
    qed
    have reads: "reads (ListTx kind)" for kind by (intro reads_intro)
    have "triple E D (\<lambda>r. r = r0) ?load (\<lambda>_ r. P r \<and> rs_rules_loaded r)"
    proof (rule triple_bind [where Q = "\<lambda>rows r. r = r0 \<and> perms_ok D (perm_rules rows) \<and> ?rows ''Permission'' rows"],
        rule triple_lift [OF reads])
      fix x w w' assume "w_db w = D" "ListTx ''Permission'' w = (Inr x, w')"
      then show "perms_ok D (perm_rules x) \<and> ?rows ''Permission'' x" using perm_rules_ok rows by blast
    next
      fix prows
      let ?r1 = "\<lambda>r. r = r0\<lparr>rs_perms := perm_rules prows\<rparr> \<and> perms_ok D (perm_rules prows) \<and> ?rows ''Permission'' prows"
      show "triple E D (\<lambda>r. r = r0 \<and> perms_ok D (perm_rules prows) \<and> ?rows ''Permission'' prows)
        (athen (modify (\<lambda>r. r\<lparr>rs_perms := perm_rules prows\<rparr>))
         (abind (lift (ListTx ''FieldPermission'')) (\<lambda>field_rows.
          modify (\<lambda>r. r\<lparr>rs_fields := field_rules field_rows,
            rs_any_rules := (prows \<noteq> [] \<or> field_rows \<noteq> []), rs_rules_loaded := True\<rparr>))))
        (\<lambda>_ r. P r \<and> rs_rules_loaded r)"
      proof (rule triple_then [where Q = "\<lambda>_. ?r1"])
        show "triple E D (\<lambda>r. r = r0 \<and> perms_ok D (perm_rules prows) \<and> ?rows ''Permission'' prows)
            (modify (\<lambda>r. r\<lparr>rs_perms := perm_rules prows\<rparr>)) (\<lambda>_. ?r1)"
          using r0(1) False by (intro triple_modify) (auto simp: same_request_def memo_ok_def)
        show "triple E D ?r1 (abind (lift (ListTx ''FieldPermission'')) (\<lambda>field_rows.
            modify (\<lambda>r. r\<lparr>rs_fields := field_rules field_rows,
              rs_any_rules := (prows \<noteq> [] \<or> field_rows \<noteq> []), rs_rules_loaded := True\<rparr>)))
            (\<lambda>_ r. P r \<and> rs_rules_loaded r)" for x :: unit
        proof (rule triple_bind [where Q = "\<lambda>rows r. ?r1 r \<and> fields_ok D (field_rules rows) \<and> ?rows ''FieldPermission'' rows"],
            rule triple_lift [OF reads])
          fix y w w' assume "w_db w = D" "ListTx ''FieldPermission'' w = (Inr y, w')"
          then show "fields_ok D (field_rules y) \<and> ?rows ''FieldPermission'' y" using field_rules_ok rows by blast
        next
          fix frows
          have "P (r0\<lparr>rs_perms := perm_rules prows, rs_fields := field_rules frows, rs_any_rules := b,
              rs_rules_loaded := True\<rparr>)" for b
            using P r0(2) unfolding rule_free_def by metis
          then show "triple E D (\<lambda>r. ?r1 r \<and> fields_ok D (field_rules frows) \<and> ?rows ''FieldPermission'' frows)
            (modify (\<lambda>r. r\<lparr>rs_fields := field_rules frows,
              rs_any_rules := (prows \<noteq> [] \<or> frows \<noteq> []), rs_rules_loaded := True\<rparr>))
            (\<lambda>_ r. P r \<and> rs_rules_loaded r)"
            using r0(1) False by (intro triple_modify) (auto simp: same_request_def memo_ok_def)
        qed
      qed
    qed
    then show ?thesis using False by simp
  qed
qed

text \<open>An answer that is looked up, or worked out and remembered.\<close>

lemma triple_remember:
  assumes "\<And>r. memo_ok E D r \<Longrightarrow> P r \<Longrightarrow> memo_ok E D (g r) \<and> same_request r (g r) \<and> Q x (g r)"
  shows "triple E D P (athen (modify g) (aret x)) Q"
  by (rule triple_then [where Q = "\<lambda>_. Q x"]) (use assms in \<open>auto intro: triple_modify triple_ret\<close>)

lemma resolve_triple:
  assumes "records_wf D"
  shows "triple E D (asks u m) (resolve E et) (\<lambda>p r. p = perm_of E D u et \<and> asks u m r)"
  unfolding resolve_def
proof (rule triple_with)
  fix r0 assume r0: "memo_ok E D r0" "asks u m r0"
  let ?Q = "\<lambda>p r. p = perm_of E D u et \<and> asks u m r"
  let ?work = "with_res (\<lambda>r. let p = entity_perm (rs_role_ids r) (rs_perms r et) in
           athen (modify (\<lambda>r. r\<lparr>rs_memo := (rs_memo r)(et \<mapsto> p)\<rparr>)) (aret p))"
  have work: "triple E D (\<lambda>r. ready u m r \<and> rs_rules_loaded r) ?work ?Q"
  proof (rule triple_with)
    fix r assume r: "memo_ok E D r" "ready u m r \<and> rs_rules_loaded r"
    then have "perms_ok D (rs_perms r)" "rs_role_ids r = held E D u"
      by (auto simp: memo_ok_def ready_def asks_def)
    then have p: "entity_perm (rs_role_ids r) (rs_perms r et) = perm_of E D u et"
      by (simp add: entity_perm_policy)
    show "triple E D (\<lambda>x. x = r) (let p = entity_perm (rs_role_ids r) (rs_perms r et) in
           athen (modify (\<lambda>r. r\<lparr>rs_memo := (rs_memo r)(et \<mapsto> p)\<rparr>)) (aret p)) ?Q"
      unfolding Let_def p
      by (rule triple_remember) (use r in \<open>auto simp: memo_ok_def same_request_def ready_def asks_def\<close>)
  qed
  have "triple E D (asks u m) (athen (loadRoles E) (athen loadRules ?work)) ?Q"
    by (rule triple_then [OF loadRoles_triple [OF assms]], rule triple_then [OF loadRules_triple])
      (simp_all add: work)
  then have "triple E D (\<lambda>r. r = r0) (athen (loadRoles E) (athen loadRules ?work)) ?Q"
    by (rule triple_weaken) (use r0 in auto)
  moreover have "triple E D (\<lambda>r. r = r0) (aret p) ?Q" if "rs_memo r0 et = Some p" for p
    using r0 that by (intro triple_ret) (auto simp: memo_ok_def asks_def)
  ultimately show "triple E D (\<lambda>r. r = r0)
      (case rs_memo r0 et of Some p \<Rightarrow> aret p | None \<Rightarrow> athen (loadRoles E) (athen loadRules ?work)) ?Q"
    by (cases "rs_memo r0 et") simp_all
qed

lemma HiddenFields_triple:
  assumes "records_wf D"
  shows "triple E D (asks u m) (HiddenFields E et) (\<lambda>h r. h = hidden E D u m et \<and> asks u m r)"
  unfolding HiddenFields_def
proof (rule triple_with)
  fix r0 assume r0: "memo_ok E D r0" "asks u m r0"
  let ?Q = "\<lambda>h r. h = hidden E D u m et \<and> asks u m r"
  let ?work = "with_res (\<lambda>r. let h = hidden_set (rs_role_ids r) (rs_fields r et) in
             athen (modify (\<lambda>r. r\<lparr>rs_hidden_memo := (rs_hidden_memo r)(et \<mapsto> h)\<rparr>)) (aret h))"
  let ?ask = "with_res (\<lambda>r. if rs_admin r \<or> rs_role_ids r = {} then aret {}
       else case rs_hidden_memo r et of Some h \<Rightarrow> aret h | None \<Rightarrow> athen loadRules ?work)"
  let ?P = "\<lambda>r. ready u m r \<and> \<not> m \<and> \<not> is_admin E D u \<and> held E D u \<noteq> {}"
  have hid: "hidden E D u m et = fields_hidden E D u et" if "\<not> m" "\<not> is_admin E D u"
    using that by (simp add: hidden_eq)
  have work: "triple E D (\<lambda>r. ?P r \<and> rs_rules_loaded r) ?work ?Q"
  proof (rule triple_with)
    fix r assume r: "memo_ok E D r" "?P r \<and> rs_rules_loaded r"
    then have "fields_ok D (rs_fields r)" "rs_role_ids r = held E D u" "finite (held E D u)"
      by (auto simp: memo_ok_def ready_def asks_def)
    then have h: "hidden_set (rs_role_ids r) (rs_fields r et) = fields_hidden E D u et"
      using r(2) by (simp add: hidden_set_policy)
    show "triple E D (\<lambda>x. x = r) (let h = hidden_set (rs_role_ids r) (rs_fields r et) in
             athen (modify (\<lambda>r. r\<lparr>rs_hidden_memo := (rs_hidden_memo r)(et \<mapsto> h)\<rparr>)) (aret h)) ?Q"
      unfolding Let_def h
      by (rule triple_remember) (use r hid in \<open>auto simp: memo_ok_def same_request_def ready_def asks_def\<close>)
  qed
  have load: "triple E D ?P (athen loadRules ?work) ?Q"
  proof (rule triple_then [OF loadRules_triple])
    show "rule_free ?P" by (simp add: rule_free_def ready_def asks_def)
  qed (rule work)
  have ask: "triple E D (\<lambda>r. ready u m r \<and> \<not> m) ?ask ?Q"
  proof (rule triple_with)
    fix r assume r: "memo_ok E D r" "ready u m r \<and> \<not> m"
    then have a: "rs_role_ids r = held E D u" "rs_admin r = is_admin E D u"
      by (auto simp: memo_ok_def ready_def asks_def)
    show "triple E D (\<lambda>x. x = r) (if rs_admin r \<or> rs_role_ids r = {} then aret {}
       else case rs_hidden_memo r et of Some h \<Rightarrow> aret h | None \<Rightarrow> athen loadRules ?work) ?Q"
    proof (cases "is_admin E D u \<or> held E D u = {}")
      case True
      then show ?thesis using a r by (auto intro!: triple_ret simp: hidden_def ready_def)
    next
      case False
      have "triple E D (\<lambda>x. x = r) (athen loadRules ?work) ?Q"
        by (rule triple_weaken [OF load]) (use r False in auto)
      moreover have "triple E D (\<lambda>x. x = r) (aret h) ?Q" if "rs_hidden_memo r et = Some h" for h
      proof -
        have "h = fields_hidden E D (rs_user r) et" using r(1) that unfolding memo_ok_def by blast
        then have "h = hidden E D u m et" using r(2) False by (simp add: hidden_eq ready_def asks_def)
        then show ?thesis using r(2) by (intro triple_ret) (auto simp: ready_def)
      qed
      ultimately show ?thesis using a False by (cases "rs_hidden_memo r et") simp_all
    qed
  qed
  show "triple E D (\<lambda>r. r = r0) (if rs_machine r0 then aret {} else athen (loadRoles E) ?ask) ?Q"
  proof (cases m)
    case True
    then show ?thesis using r0 by (auto intro!: triple_ret simp: hidden_def asks_def)
  next
    case False
    have "triple E D (asks u m) (athen (loadRoles E) ?ask) ?Q"
      by (rule triple_then [OF loadRoles_triple [OF assms]], rule triple_weaken [OF ask]) (use False in auto)
    then have "triple E D (\<lambda>r. r = r0) (athen (loadRoles E) ?ask) ?Q"
      by (rule triple_weaken) (use r0 in auto)
    then show ?thesis using False r0(2) by (simp add: asks_def)
  qed
qed

lemma any_granted_policy:
  assumes "any_granted E roles w = (Inr b, w')"
  shows "b \<longleftrightarrow> (\<exists>role \<in> set roles. \<exists>ur \<in> set (db_records (w_db w)). live ''UserRole'' ur \<and>
    field_is E ur (''role_id'', rec_id role))"
  using assms
proof (induction roles arbitrary: w)
  case (Cons role roles)
  then obtain gs w1 where l: "ListByField E ''UserRole'' ''role_id'' (rec_id role) w = (Inr gs, w1)"
    and rest: "(if gs \<noteq> [] then ret True else any_granted E roles) w1 = (Inr b, w')"
    by (auto simp: bindM_Inr_iff)
  have "reads (ListByField E ''UserRole'' ''role_id'' (rec_id role))" by (intro reads_intro)
  then have w1: "w_db w1 = w_db w" using l by (rule readsD)
  have "set gs = {} \<longleftrightarrow> {ur \<in> set (db_records (w_db w)). live ''UserRole'' ur \<and> field_is E ur (''role_id'', rec_id role)} = {}"
    unfolding ListByField_set [OF l] by simp
  then have gs: "gs = [] \<longleftrightarrow> \<not> (\<exists>ur \<in> set (db_records (w_db w)). live ''UserRole'' ur \<and>
      field_is E ur (''role_id'', rec_id role))"
    by auto
  show ?case
  proof (cases "gs = []")
    case True
    then have "any_granted E roles w1 = (Inr b, w')" using rest by simp
    then have "b \<longleftrightarrow> (\<exists>role \<in> set roles. \<exists>ur \<in> set (db_records (w_db w)). live ''UserRole'' ur \<and>
        field_is E ur (''role_id'', rec_id role))"
      using Cons.IH w1 by metis
    then show ?thesis using True gs by auto
  next
    case False
    then show ?thesis using rest gs by auto
  qed
qed simp

lemma reads_any_granted [reads_intro]: "reads (any_granted E roles)"
  by (induction roles) (auto intro!: reads_intro)

lemma set_configured_triple:
  "triple E D (\<lambda>r. asks u m r \<and> b = configured E D) (set_configured b) (\<lambda>b r. b = configured E D \<and> asks u m r)"
  unfolding set_configured_def
  by (rule triple_remember) (auto simp: memo_ok_def same_request_def asks_def)

lemma rbacConfigured_triple:
  "triple E D (asks u m) (rbacConfigured E) (\<lambda>b r. b = configured E D \<and> asks u m r)"
  unfolding rbacConfigured_def
proof (rule triple_with)
  fix r0 assume r0: "memo_ok E D r0" "asks u m r0"
  let ?Q = "\<lambda>b r. b = configured E D \<and> asks u m r"
  let ?rules = "\<exists>x \<in> set (db_records D). live ''Permission'' x \<or> live ''FieldPermission'' x"
  let ?roles = "ListByField E ''Role'' ''code'' AdminRoleCode"
  let ?work = "with_res (\<lambda>r. if rs_any_rules r then set_configured True
       else abind (lift ?roles) (\<lambda>roles. abind (lift (any_granted E roles)) set_configured))"
  let ?adm = "\<lambda>roles. set roles = to_record ` {r \<in> set (db_records D). live ''Role'' r \<and> field_is E r (''code'', AdminRoleCode)}"
  have rd: "reads ?roles" by (intro reads_intro)
  have scan: "triple E D (\<lambda>r. asks u m r \<and> \<not> ?rules)
      (abind (lift ?roles) (\<lambda>roles. abind (lift (any_granted E roles)) set_configured)) ?Q"
  proof (rule triple_bind [where Q = "\<lambda>roles r. (asks u m r \<and> \<not> ?rules) \<and> ?adm roles"], rule triple_lift [OF rd])
    fix roles w w' assume "w_db w = D" "?roles w = (Inr roles, w')"
    then show "?adm roles" using ListByField_set by blast
  next
    fix roles
    let ?pre = "\<lambda>r. (asks u m r \<and> \<not> ?rules) \<and> ?adm roles"
    show "triple E D ?pre (abind (lift (any_granted E roles)) set_configured) ?Q"
    proof (rule triple_bind [where Q = "\<lambda>b r. ?pre r \<and> (b \<longleftrightarrow> (\<exists>role \<in> set roles. \<exists>ur \<in> set (db_records D).
          live ''UserRole'' ur \<and> field_is E ur (''role_id'', rec_id role)))"],
        rule triple_lift [OF reads_any_granted])
      fix b w w' assume "w_db w = D" "any_granted E roles w = (Inr b, w')"
      then show "b \<longleftrightarrow> (\<exists>role \<in> set roles. \<exists>ur \<in> set (db_records D). live ''UserRole'' ur \<and>
          field_is E ur (''role_id'', rec_id role))"
        using any_granted_policy by blast
    next
      fix b
      show "triple E D (\<lambda>r. ?pre r \<and> (b \<longleftrightarrow> (\<exists>role \<in> set roles. \<exists>ur \<in> set (db_records D). live ''UserRole'' ur \<and>
          field_is E ur (''role_id'', rec_id role)))) (set_configured b) ?Q"
        by (rule triple_weaken [OF set_configured_triple]) (auto simp: configured_def to_record_def)
    qed
  qed
  have work: "triple E D (\<lambda>r. asks u m r \<and> rs_rules_loaded r) ?work ?Q"
  proof (rule triple_with)
    fix r assume r: "memo_ok E D r" "asks u m r \<and> rs_rules_loaded r"
    then have a: "rs_any_rules r \<longleftrightarrow> ?rules" by (auto simp: memo_ok_def)
    have "triple E D (\<lambda>x. x = r) (set_configured True) ?Q" if "?rules"
      by (rule triple_weaken [OF set_configured_triple]) (use r that in \<open>auto simp: configured_def\<close>)
    moreover have "triple E D (\<lambda>x. x = r)
        (abind (lift ?roles) (\<lambda>roles. abind (lift (any_granted E roles)) set_configured)) ?Q" if "\<not> ?rules"
      by (rule triple_weaken [OF scan]) (use r that in auto)
    ultimately show "triple E D (\<lambda>x. x = r) (if rs_any_rules r then set_configured True
       else abind (lift ?roles) (\<lambda>roles. abind (lift (any_granted E roles)) set_configured)) ?Q"
      unfolding a by (cases ?rules) auto
  qed
  have "triple E D (asks u m) (athen loadRules ?work) ?Q"
    by (rule triple_then [OF loadRules_triple]) (simp_all add: work)
  then have "triple E D (\<lambda>r. r = r0) (athen loadRules ?work) ?Q"
    by (rule triple_weaken) (use r0 in auto)
  then show "triple E D (\<lambda>r. r = r0)
      (if rs_configured_loaded r0 then aret (rs_configured r0) else athen loadRules ?work) ?Q"
    using r0 by (cases "rs_configured_loaded r0") (auto intro!: triple_ret simp: memo_ok_def)
qed

section \<open>Reading and writing\<close>

lemma ready_asks: "ready u m r \<Longrightarrow> asks u m r"
  by (simp add: ready_def)

text \<open>Both questions: nobody but an ordinary user goes past the roles.\<close>

lemma admin_first:
  assumes "records_wf D" and ask: "triple E D (\<lambda>r. asks u m r \<and> \<not> is_admin E D u) n Q"
    and yes: "\<And>r. asks u m r \<Longrightarrow> is_admin E D u \<Longrightarrow> Q True r"
  shows "triple E D (asks u m) (athen (loadRoles E) (with_res (\<lambda>r. if rs_admin r then aret True else n))) Q"
proof (rule triple_then [OF loadRoles_triple [OF assms(1)]], rule triple_with)
  fix r assume r: "memo_ok E D r" "ready u m r"
  then have a: "rs_admin r = is_admin E D u" by (auto simp: memo_ok_def ready_def asks_def)
  have "triple E D (\<lambda>x. x = r) n Q" if "\<not> is_admin E D u"
    by (rule triple_weaken [OF ask]) (use r that ready_asks in auto)
  moreover have "triple E D (\<lambda>x. x = r) (aret True) Q" if "is_admin E D u"
    using yes r(2) that ready_asks by (auto intro: triple_ret)
  ultimately show "triple E D (\<lambda>x. x = r) (if rs_admin r then aret True else n) Q" using a by simp
qed

lemma CanRead_triple:
  assumes "records_wf D"
  shows "triple E D (asks u m) (CanRead E et) (\<lambda>b r. b = may_read E D u m et \<and> asks u m r)"
  unfolding CanRead_def
proof (rule triple_with)
  fix r0 assume r0: "memo_ok E D r0" "asks u m r0"
  let ?Q = "\<lambda>b r. b = may_read E D u m et \<and> asks u m r"
  let ?n = "abind (resolve E et) (\<lambda>p. if \<not> ep_rules p then aret True else aret (ep_read p))"
  have n: "triple E D (\<lambda>r. asks u m r \<and> \<not> is_admin E D u) ?n ?Q" if "\<not> m"
  proof (cases "is_admin E D u")
    case False
    have "triple E D (asks u m) ?n ?Q"
      by (rule triple_bind [OF resolve_triple [OF assms]])
        (use that False in \<open>auto intro!: triple_ret simp: perm_of_def may_read_def split: if_splits\<close>)
    then show ?thesis by (rule triple_weaken) auto
  qed (simp add: triple_def)
  have "triple E D (\<lambda>r. r = r0) (athen (loadRoles E) (with_res (\<lambda>r. if rs_admin r then aret True else ?n))) ?Q" if "\<not> m"
    by (rule triple_weaken [OF admin_first [OF assms n]]) (use that r0 in \<open>auto simp: may_read_def\<close>)
  then show "triple E D (\<lambda>r. r = r0) (if rs_machine r0 then aret True
      else athen (loadRoles E) (with_res (\<lambda>r. if rs_admin r then aret True else ?n))) ?Q"
    using r0 by (cases m) (auto intro!: triple_ret simp: may_read_def asks_def)
qed

lemma CanWrite_triple:
  assumes "records_wf D"
  shows "triple E D (asks u m) (CanWrite E et) (\<lambda>b r. b = may_write E D u m et \<and> asks u m r)"
  unfolding CanWrite_def
proof (rule triple_with)
  fix r0 assume r0: "memo_ok E D r0" "asks u m r0"
  let ?Q = "\<lambda>b r. b = may_write E D u m et \<and> asks u m r"
  let ?open = "if et \<in> set controlPlaneTypes then abind (rbacConfigured E) (\<lambda>c. aret (\<not> c)) else aret True"
  let ?n = "abind (resolve E et) (\<lambda>p. if \<not> ep_rules p then ?open else aret (ep_write p))"
  let ?user = "et \<notin> set systemOnlyWriteTypes \<and> \<not> m \<and> \<not> is_admin E D u"
  have opn: "triple E D (asks u m) ?open ?Q" if "?user" "\<not> ruled D et"
  proof -
    have "triple E D (asks u m) (abind (rbacConfigured E) (\<lambda>c. aret (\<not> c))) ?Q" if "et \<in> set controlPlaneTypes"
      by (rule triple_bind [OF rbacConfigured_triple])
        (use that \<open>?user\<close> \<open>\<not> ruled D et\<close> in \<open>auto intro!: triple_ret simp: may_write_def\<close>)
    moreover have "triple E D (asks u m) (aret True) ?Q" if "et \<notin> set controlPlaneTypes"
      using that \<open>?user\<close> \<open>\<not> ruled D et\<close> by (auto intro!: triple_ret simp: may_write_def)
    ultimately show ?thesis by simp
  qed
  have n: "triple E D (\<lambda>r. asks u m r \<and> \<not> is_admin E D u) ?n ?Q" if "\<not> m" "et \<notin> set systemOnlyWriteTypes"
  proof (cases "is_admin E D u")
    case False
    have "triple E D (asks u m) ?n ?Q"
    proof (rule triple_bind [OF resolve_triple [OF assms]])
      fix p
      show "triple E D (\<lambda>r. p = perm_of E D u et \<and> asks u m r) (if \<not> ep_rules p then ?open else aret (ep_write p)) ?Q"
      proof (cases "p = perm_of E D u et")
        case True
        have "triple E D (\<lambda>r. p = perm_of E D u et \<and> asks u m r) ?open ?Q" if "\<not> ruled D et"
          by (rule triple_weaken [OF opn]) (use that False \<open>\<not> m\<close> \<open>et \<notin> set systemOnlyWriteTypes\<close> in auto)
        moreover have "triple E D (\<lambda>r. p = perm_of E D u et \<and> asks u m r) (aret (ep_write p)) ?Q" if "ruled D et"
          using True False that \<open>\<not> m\<close> \<open>et \<notin> set systemOnlyWriteTypes\<close>
          by (auto intro!: triple_ret simp: perm_of_def may_write_def)
        ultimately show ?thesis using True by (simp add: perm_of_def)
      qed (simp add: triple_def)
    qed
    then show ?thesis by (rule triple_weaken) auto
  qed (simp add: triple_def)
  have "triple E D (\<lambda>r. r = r0) (athen (loadRoles E) (with_res (\<lambda>r. if rs_admin r then aret True else ?n))) ?Q"
    if "\<not> m" "et \<notin> set systemOnlyWriteTypes"
    by (rule triple_weaken [OF admin_first [OF assms n]]) (use that r0 in \<open>auto simp: may_write_def\<close>)
  then show "triple E D (\<lambda>r. r = r0) (if et \<in> set systemOnlyWriteTypes then aret False
      else if rs_machine r0 then aret True
      else athen (loadRoles E) (with_res (\<lambda>r. if rs_admin r then aret True else ?n))) ?Q"
    using r0 by (cases m) (auto intro!: triple_ret simp: may_write_def asks_def)
qed

end
