(* ===== verification/Guarded.thy ===== *)
theory Guarded
  imports AuthzPolicy Filters
begin

text \<open>
  The guarded engine (\<open>GuardedEngine\<close> of \<open>internal/kernel/authz/authz.go\<close> and \<open>sor.go\<close>): the
  record engine behind the resolver's answers, with hidden fields taken out of every read and
  kept through every write, and the records of read-only external sources protected.
\<close>

section \<open>The raw engine's reads\<close>

definition Engine_Get :: "env \<Rightarrow> Definition \<Rightarrow> string \<Rightarrow> Record dbm" where
  "Engine_Get E d rid = Get E (d_entity_type d) rid"

definition Engine_List :: "Definition \<Rightarrow> Record list dbm" where
  "Engine_List d = ListTx (d_entity_type d)"

definition Engine_Count :: "Definition \<Rightarrow> int dbm" where
  "Engine_Count d = CountByEntityType (d_entity_type d)"

definition Engine_ListPage :: "Definition \<Rightarrow> int \<Rightarrow> int \<Rightarrow> Record list dbm" where
  "Engine_ListPage d limit offset = ListPage (d_entity_type d) limit offset"

definition Engine_ListPageFiltered :: "env \<Rightarrow> Definition \<Rightarrow> ListPageOptions \<Rightarrow> Record list dbm" where
  "Engine_ListPageFiltered E d opts = ListPageFiltered E (d_entity_type d) opts"

definition Engine_CountFiltered :: "env \<Rightarrow> Definition \<Rightarrow> ListPageOptions \<Rightarrow> int dbm" where
  "Engine_CountFiltered E d opts = CountFiltered E (d_entity_type d) opts"

definition Engine_ListByField :: "env \<Rightarrow> Definition \<Rightarrow> string \<Rightarrow> string \<Rightarrow> Record list dbm" where
  "Engine_ListByField E d f v = ListByField E (d_entity_type d) f v"

lemma reads_Engine [reads_intro]:
  "reads (Engine_Get E d rid)" "reads (Engine_List d)" "reads (Engine_Count d)"
  "reads (Engine_ListPage d limit offset)" "reads (Engine_ListPageFiltered E d opts)"
  "reads (Engine_CountFiltered E d opts)" "reads (Engine_ListByField E d f v)"
  unfolding Engine_Get_def Engine_List_def Engine_Count_def Engine_ListPage_def
    Engine_ListPageFiltered_def Engine_CountFiltered_def Engine_ListByField_def
    CountByEntityType_def ListPage_def
  by (intro reads_intro)+

section \<open>The engine's parts\<close>

text \<open>
  \<open>GuardedEngine\<close>: the raw engine (its hooks) and the source an import writes for, empty outside
  imports. The resolver is the state of the calls.
\<close>

record GuardedEngine =
  ge_hooks :: hooks
  ge_bypass :: string

definition Guard :: "hooks \<Rightarrow> GuardedEngine" where
  "Guard hooks = \<lparr>ge_hooks = hooks, ge_bypass = []\<rparr>"

definition ForImportFrom :: "GuardedEngine \<Rightarrow> string \<Rightarrow> GuardedEngine" where
  "ForImportFrom g source = g\<lparr>ge_bypass := source\<rparr>"

definition checkRead :: "env \<Rightarrow> Definition \<Rightarrow> unit am" where
  "checkRead E d = abind (CanRead E (d_entity_type d)) (\<lambda>ok.
     if ok then aret () else afail (ErrDenied (d_entity_type d)))"

definition checkWrite :: "env \<Rightarrow> Definition \<Rightarrow> unit am" where
  "checkWrite E d = abind (CanWrite E (d_entity_type d)) (\<lambda>ok.
     if ok then aret () else afail (ErrDenied (d_entity_type d)))"

definition without :: "string set \<Rightarrow> fields \<Rightarrow> fields" where
  "without h data = fmfilter (\<lambda>k. k \<notin> h) data"

definition redact :: "env \<Rightarrow> Definition \<Rightarrow> Record list \<Rightarrow> Record list am" where
  "redact E d recs = abind (HiddenFields E (d_entity_type d)) (\<lambda>h.
     aret (map (\<lambda>r. r\<lparr>rec_data := without h (rec_data r)\<rparr>) recs))"

definition redact1 :: "env \<Rightarrow> Definition \<Rightarrow> Record \<Rightarrow> Record am" where
  "redact1 E d r = abind (redact E d [r]) (\<lambda>rs. aret (hd rs))"

section \<open>Fields a write applies\<close>

text \<open>Go's \<open>==\<close> on \<open>float64\<close>: a NaN equals nothing.\<close>

definition float_eq :: "f64 \<Rightarrow> f64 \<Rightarrow> bool" where
  "float_eq a b \<longleftrightarrow> a = b \<and> \<not> is_nan a"

definition sameFieldValue :: "gval \<Rightarrow> gval \<Rightarrow> bool" where
  "sameFieldValue submitted stored =
     (case number_of submitted of
        Some a \<Rightarrow> (case number_of stored of Some b \<Rightarrow> float_eq a b | None \<Rightarrow> False)
      | None \<Rightarrow> DeepEqual submitted stored)"

text \<open>
  The loop of \<open>EffectiveWriteFields\<close> over the hidden fields: refuse a submitted value that is not
  the stored one, and put the stored one (or nothing) in its place. Which of several refused
  fields is reported depends on the map's iteration order and is not kept.
\<close>

definition writes_hidden :: "string set \<Rightarrow> fields \<Rightarrow> fields \<Rightarrow> bool" where
  "writes_hidden h stored flds \<longleftrightarrow>
     fBex (fmdom flds) (\<lambda>k. k \<in> h \<and> \<not> sameFieldValue (get_field flds k) (get_field stored k))"

definition restore :: "string set \<Rightarrow> fields \<Rightarrow> fields \<Rightarrow> fields" where
  "restore h stored flds =
     without h flds ++\<^sub>f fmfilter (\<lambda>k. k \<in> h \<and> get_field stored k \<noteq> VNil) stored"

definition EffectiveWriteFields :: "env \<Rightarrow> Definition \<Rightarrow> string \<Rightarrow> fields \<Rightarrow> fields am" where
  "EffectiveWriteFields E d rid flds =
     athen (checkWrite E d)
     (abind (HiddenFields E (d_entity_type d)) (\<lambda>h.
       if h = {} then aret flds
       else abind (if rid = [] then aret fmempty
                   else abind (lift (Engine_Get E d rid)) (\<lambda>r. aret (rec_data r))) (\<lambda>stored.
         if writes_hidden h stored flds then afail (ErrDenied (d_entity_type d))
         else aret (restore h stored flds))))"

section \<open>Systems of record\<close>

definition sorRules :: "env \<Rightarrow> string \<Rightarrow> sorRule list am" where
  "sorRules E et = with_res (\<lambda>r.
     case rs_sor_memo r et of
       Some rules \<Rightarrow> aret rules
     | None \<Rightarrow>
         abind (lift (ListByField E ''SystemOfRecord'' ''entity_type'' et)) (\<lambda>rows.
           let rules = map (\<lambda>row. sor_rule (rec_data row)) rows in
           athen (modify (\<lambda>r. r\<lparr>rs_sor_memo := (rs_sor_memo r)(et \<mapsto> rules)\<rparr>)) (aret rules)))"

text \<open>Whether an identity of the record puts it under a read-only source, and which one.\<close>

definition blocking_source :: "string \<Rightarrow> string \<Rightarrow> sorRule list \<Rightarrow> Record \<Rightarrow> string option" where
  "blocking_source et bypass read_only ident =
     (let src = str_field (rec_data ident) ''source_id'' in
      if str_field (rec_data ident) ''entity_type'' \<noteq> et then None
      else if bypass \<noteq> [] \<and> src = bypass then None
      else if \<not> list_ex (\<lambda>s. so_source s = []) read_only \<and>
              \<not> list_ex (\<lambda>s. so_source s \<noteq> [] \<and> so_source s = src) read_only then None
      else Some src)"

text \<open>The source's name, when it can be read.\<close>

definition source_name :: "env \<Rightarrow> string \<Rightarrow> string dbm" where
  "source_name E src =
     (if src = [] then ret []
      else catchM (bindM (Get E ''ExternalSQLSource'' src) (\<lambda>r. ret (str_field (rec_data r) ''name'')))
        (\<lambda>_. ret []))"

definition checkSoRReadOnly :: "env \<Rightarrow> GuardedEngine \<Rightarrow> Definition \<Rightarrow> string \<Rightarrow> unit am" where
  "checkSoRReadOnly E g d rid =
     abind (sorRules E (d_entity_type d)) (\<lambda>rules.
       let read_only = filter (\<lambda>s. so_mode s = ''read_only'') rules in
       if read_only = [] then aret ()
       else abind (lift (ListByField E ''ExternalIdentity'' ''record_id'' rid)) (\<lambda>idents.
         case List.map_filter (blocking_source (d_entity_type d) (ge_bypass g) read_only) idents of
           [] \<Rightarrow> aret ()
         | src # _ \<Rightarrow> abind (lift (source_name E src)) (\<lambda>name.
             afail (ErrSoRReadOnly (d_entity_type d) src name))))"

definition checkSoRModeReserved :: "Definition \<Rightarrow> fields \<Rightarrow> unit am" where
  "checkSoRModeReserved d flds =
     (if d_entity_type d \<noteq> ''SystemOfRecord'' then aret ()
      else if str_field flds ''mode'' = ''bidirectional'' then afail ErrSoRModeReserved
      else aret ())"

section \<open>Writes\<close>

definition acatch :: "'a am \<Rightarrow> (err \<Rightarrow> 'a am) \<Rightarrow> 'a am" where
  "acatch m h r w =
     (case m r w of (Inl e, r', w') \<Rightarrow> h e r' w' | (Inr x, r', w') \<Rightarrow> (Inr x, r', w'))"

definition sanitizeTargetConstraintError :: "env \<Rightarrow> err \<Rightarrow> 'a am" where
  "sanitizeTargetConstraintError E e =
     (case e of
        ErrTargetConstraintViolation et f join detail \<Rightarrow>
          if join = [] then afail e
          else abind (CanRead E join) (\<lambda>ok.
            if ok then afail e else afail (ErrTargetConstraintViolation et f join Withheld))
      | _ \<Rightarrow> afail e)"

definition GuardedCreate :: "env \<Rightarrow> GuardedEngine \<Rightarrow> Definition \<Rightarrow> fields \<Rightarrow> Actor \<Rightarrow> Record am" where
  "GuardedCreate E g d flds actor =
     athen (checkWrite E d)
    (athen (checkSoRModeReserved d flds)
    (abind (EffectiveWriteFields E d [] flds) (\<lambda>effective.
     abind (acatch (lift (Create E (ge_hooks g) d (Some effective) actor))
              (sanitizeTargetConstraintError E)) (\<lambda>r.
       redact1 E d r))))"

definition GuardedUpdate ::
    "env \<Rightarrow> GuardedEngine \<Rightarrow> Definition \<Rightarrow> string \<Rightarrow> fields \<Rightarrow> int option \<Rightarrow> Actor \<Rightarrow> int am" where
  "GuardedUpdate E g d rid flds ev actor =
     athen (checkWrite E d)
    (athen (checkSoRModeReserved d flds)
    (athen (checkSoRReadOnly E g d rid)
    (abind (EffectiveWriteFields E d rid flds) (\<lambda>effective.
       acatch (lift (Update E (ge_hooks g) d rid effective ev actor))
         (sanitizeTargetConstraintError E)))))"

definition GuardedDelete :: "env \<Rightarrow> GuardedEngine \<Rightarrow> Definition \<Rightarrow> string \<Rightarrow> Actor \<Rightarrow> unit am" where
  "GuardedDelete E g d rid actor =
     athen (checkWrite E d)
    (athen (checkSoRReadOnly E g d rid)
     (lift (Delete E d rid actor)))"

section \<open>Reads\<close>

definition SystemFieldForRouting :: "env \<Rightarrow> Definition \<Rightarrow> string \<Rightarrow> string \<Rightarrow> string am" where
  "SystemFieldForRouting E d rid f =
     abind (lift (Engine_Get E d rid)) (\<lambda>r. aret (str_field (rec_data r) f))"

definition GuardedGet :: "env \<Rightarrow> Definition \<Rightarrow> string \<Rightarrow> Record am" where
  "GuardedGet E d rid = athen (checkRead E d) (abind (lift (Engine_Get E d rid)) (redact1 E d))"

definition GuardedList :: "env \<Rightarrow> Definition \<Rightarrow> Record list am" where
  "GuardedList E d = athen (checkRead E d) (abind (lift (Engine_List d)) (redact E d))"

definition GuardedCount :: "env \<Rightarrow> Definition \<Rightarrow> int am" where
  "GuardedCount E d = athen (checkRead E d) (lift (Engine_Count d))"

definition GuardedListPage :: "env \<Rightarrow> Definition \<Rightarrow> int \<Rightarrow> int \<Rightarrow> Record list am" where
  "GuardedListPage E d limit offset =
     athen (checkRead E d) (abind (lift (Engine_ListPage d limit offset)) (redact E d))"

definition rejectHiddenSortFilter :: "env \<Rightarrow> Definition \<Rightarrow> ListPageOptions \<Rightarrow> unit am" where
  "rejectHiddenSortFilter E d opts =
     (if lp_sort_field opts = [] \<and> lp_filter_field opts = [] \<and> lp_equals opts = [] then aret ()
      else abind (HiddenFields E (d_entity_type d)) (\<lambda>h.
        if list_ex (\<lambda>f. f \<noteq> [] \<and> f \<in> h) [lp_sort_field opts, lp_filter_field opts]
        then afail (ErrDenied (d_entity_type d))
        else if list_ex (\<lambda>(f, _). f \<in> h) (lp_equals opts) then afail (ErrDenied (d_entity_type d))
        else aret ()))"

definition GuardedListPageFiltered :: "env \<Rightarrow> Definition \<Rightarrow> ListPageOptions \<Rightarrow> Record list am" where
  "GuardedListPageFiltered E d opts =
     athen (checkRead E d)
    (athen (rejectHiddenSortFilter E d opts)
    (abind (lift (Engine_ListPageFiltered E d opts)) (redact E d)))"

definition GuardedCountFiltered :: "env \<Rightarrow> Definition \<Rightarrow> ListPageOptions \<Rightarrow> int am" where
  "GuardedCountFiltered E d opts =
     athen (checkRead E d)
    (athen (rejectHiddenSortFilter E d opts)
     (lift (Engine_CountFiltered E d opts)))"

definition GuardedListByField :: "env \<Rightarrow> Definition \<Rightarrow> string \<Rightarrow> string \<Rightarrow> Record list am" where
  "GuardedListByField E d f v =
     athen (checkRead E d) (abind (lift (Engine_ListByField E d f v)) (redact E d))"

definition GuardedValidateStatusTransition ::
    "env \<Rightarrow> Definition \<Rightarrow> string \<Rightarrow> fields \<Rightarrow> bool \<Rightarrow> int option \<Rightarrow> unit am" where
  "GuardedValidateStatusTransition E d rid flds isCreate ev =
     lift (ValidateStatusTransition E d rid flds isCreate ev)"

text \<open>The conditions of a picker the user may see through: joins he may not read are dropped.\<close>

fun readable_conditions :: "env \<Rightarrow> TargetFilterCondition list \<Rightarrow> TargetFilterCondition list am" where
  "readable_conditions E [] = aret []"
| "readable_conditions E (c # cs) =
     (if tf_entity c = [] then abind (readable_conditions E cs) (\<lambda>rest. aret (c # rest))
      else abind (CanRead E (tf_entity c)) (\<lambda>ok.
        if \<not> ok then readable_conditions E cs
        else abind (HiddenFields E (tf_entity c)) (\<lambda>h.
          if tf_entity_field c \<in> h \<or> tf_field c \<in> h then readable_conditions E cs
          else abind (readable_conditions E cs) (\<lambda>rest. aret (c # rest)))))"

definition GuardedResolveReferenceFilter ::
    "env \<Rightarrow> Definition option \<Rightarrow> Field \<Rightarrow> string \<Rightarrow> ListPageOptions am" where
  "GuardedResolveReferenceFilter E src f sibling =
     abind (readable_conditions E (f_target_filter f)) (\<lambda>cs.
     abind (lift (ResolveReferenceFilter E src (f\<lparr>f_target_filter := cs\<rparr>) sibling)) (\<lambda>opts.
       if f_name f = StatusIDFieldName \<and> f_target f = ''Status'' then
         abind (HiddenFields E (f_target f)) (\<lambda>h.
           aret (if StatusTypeIDFieldName \<in> h
                 then opts\<lparr>lp_equals := filter (\<lambda>(k, _). k \<noteq> StatusTypeIDFieldName) (lp_equals opts)\<rparr>
                 else opts))
       else aret opts))"

end
