(* ===== verification/GuardedSafe.thy ===== *)
theory GuardedSafe
  imports Guarded
begin

text \<open>
  What the guarded engine guarantees: it asks the policy before it does anything, answers with
  the policy's redaction, keeps hidden fields through writes, leaves the records of read-only
  sources alone, and lets nobody write himself more rights.
\<close>

section \<open>Runs\<close>

lemma aret_iff [simp]: "aret x r w = (res, r', w') \<longleftrightarrow> res = Inr x \<and> r' = r \<and> w' = w"
  by (auto simp: aret_def)

lemma afail_iff [simp]: "afail e r w = (res, r', w') \<longleftrightarrow> res = Inl e \<and> r' = r \<and> w' = w"
  by (auto simp: afail_def)

lemma abind_Inr_iff:
  "abind m f r w = (Inr y, r', w') \<longleftrightarrow>
     (\<exists>x r1 w1. m r w = (Inr x, r1, w1) \<and> f x r1 w1 = (Inr y, r', w'))"
  by (auto simp: abind_def split: prod.splits sum.splits)

lemma athen_Inr_iff:
  "athen m n r w = (Inr y, r', w') \<longleftrightarrow>
     (\<exists>x r1 w1. m r w = (Inr x, r1, w1) \<and> n r1 w1 = (Inr y, r', w'))"
  by (simp add: athen_def abind_Inr_iff)

lemma lift_iff: "lift m r w = (res, r', w') \<longleftrightarrow> m w = (res, w') \<and> r' = r"
  by (auto simp: lift_def split: prod.splits)

lemma abind_Inl_iff:
  "abind m f r w = (Inl e, r', w') \<longleftrightarrow>
     m r w = (Inl e, r', w') \<or> (\<exists>x r1 w1. m r w = (Inr x, r1, w1) \<and> f x r1 w1 = (Inl e, r', w'))"
  by (auto simp: abind_def split: prod.splits sum.splits)

lemma athen_Inl_iff:
  "athen m n r w = (Inl e, r', w') \<longleftrightarrow>
     m r w = (Inl e, r', w') \<or> (\<exists>x r1 w1. m r w = (Inr x, r1, w1) \<and> n r1 w1 = (Inl e, r', w'))"
  by (simp add: athen_def abind_Inl_iff)

lemmas am_iffs = abind_Inr_iff athen_Inr_iff lift_iff

text \<open>A resolver that may be used on a database for a user's request.\<close>

definition resolver_for :: "env \<Rightarrow> db \<Rightarrow> string \<Rightarrow> bool \<Rightarrow> Resolver \<Rightarrow> bool" where
  "resolver_for E D u m r \<longleftrightarrow> memo_ok E D r \<and> asks u m r \<and> records_wf D"

lemma NewResolver_for: "records_wf D \<Longrightarrow> resolver_for E D (a_id actor) m (NewResolver actor m)"
  by (simp add: resolver_for_def memo_ok_def asks_def NewResolver_def)

lemma triple_run:
  assumes "triple E (w_db w) (asks u m) c (\<lambda>x r. Q x \<and> asks u m r)" "resolver_for E (w_db w) u m r"
    and "c r w = (res, r', w')"
  shows "w_db w' = w_db w" "resolver_for E (w_db w) u m r'" "res = Inr x \<Longrightarrow> Q x"
  using tripleD [OF assms(1) _ _ assms(3)] assms(2)
  by (auto simp: resolver_for_def asks_def same_request_def)

section \<open>The checks\<close>

lemma checkRead_triple:
  assumes "records_wf D"
  shows "triple E D (asks u m) (checkRead E d) (\<lambda>_ r. may_read E D u m (d_entity_type d) \<and> asks u m r)"
  unfolding checkRead_def
  by (rule triple_bind [OF CanRead_triple [OF assms]])
    (auto intro: triple_ret simp: triple_def afail_def aret_def same_request_def)

lemma checkWrite_triple:
  assumes "records_wf D"
  shows "triple E D (asks u m) (checkWrite E d) (\<lambda>_ r. may_write E D u m (d_entity_type d) \<and> asks u m r)"
  unfolding checkWrite_def
  by (rule triple_bind [OF CanWrite_triple [OF assms]])
    (auto intro: triple_ret simp: triple_def afail_def aret_def same_request_def)

text \<open>A record with the fields hidden from the user taken out.\<close>

definition redacted :: "env \<Rightarrow> db \<Rightarrow> string \<Rightarrow> bool \<Rightarrow> string \<Rightarrow> Record \<Rightarrow> Record" where
  "redacted E D u m et r = r\<lparr>rec_data := without (hidden E D u m et) (rec_data r)\<rparr>"

lemma redact_triple:
  assumes "records_wf D"
  shows "triple E D (asks u m) (redact E d recs)
    (\<lambda>rs r. rs = map (redacted E D u m (d_entity_type d)) recs \<and> asks u m r)"
  unfolding redact_def
  by (rule triple_bind [OF HiddenFields_triple [OF assms]])
    (auto intro!: triple_ret simp: redacted_def)

text \<open>A guarded read: the type may be read, and the answer is the raw one, redacted.\<close>

lemma guarded_query:
  assumes r: "resolver_for E (w_db w) u m r" and q: "reads q"
    and run: "athen (checkRead E d) (abind (lift q) (redact E d)) r w = (Inr rs, r', w')"
  obtains recs w1 w2 where "may_read E (w_db w) u m (d_entity_type d)" "w_db w1 = w_db w"
    "q w1 = (Inr recs, w2)" "rs = map (redacted E (w_db w) u m (d_entity_type d)) recs"
    "w_db w' = w_db w" "resolver_for E (w_db w) u m r'"
proof -
  have wf: "records_wf (w_db w)" using r by (simp add: resolver_for_def)
  from run obtain r1 w1 recs w2 where c: "checkRead E d r w = (Inr (), r1, w1)"
    and q1: "q w1 = (Inr recs, w2)" and rd: "redact E d recs r1 w2 = (Inr rs, r', w')"
    by (auto simp: am_iffs)
  note 1 = triple_run [OF checkRead_triple [OF wf] r c]
  have w2: "w_db w2 = w_db w" using readsD [OF q q1] 1(1) by simp
  have "resolver_for E (w_db w2) u m r1" using 1(2) w2 by simp
  note 2 = triple_run [OF redact_triple [OF wf [folded w2]] this rd]
  show thesis using that [OF 1(3) 1(1) q1] 2 w2 by simp
qed

lemma Engine_Get_doc:
  assumes wf: "records_wf (w_db w)" and run: "Engine_Get E d rid w = (Inr rec, w')"
  shows "live_doc E (d_entity_type d) w rid = Some (rec_data rec, rec_version rec)"
proof -
  from run obtain u row where u: "e_uuid E rid = Some u" and row: "row \<in> set (db_records (w_db w))"
    "rr_id row = u" "live (d_entity_type d) row" "rec_data rec = rr_data row" "rec_version rec = rr_version row"
    unfolding Engine_Get_def Get_def by (auto elim!: get_where_success)
  then show ?thesis unfolding live_doc_eq [OF wf u] by (intro bexI [of _ row]) auto
qed

text \<open>The fields a write of a record applies.\<close>

lemma EffectiveWriteFields_run:
  assumes r: "resolver_for E (w_db w) u m r"
    and run: "EffectiveWriteFields E d rid flds r w = (Inr out, r', w')"
  obtains "may_write E (w_db w) u m (d_entity_type d)" "w_db w' = w_db w" "resolver_for E (w_db w) u m r'"
    "hidden E (w_db w) u m (d_entity_type d) = {}" "out = flds"
  | stored where "may_write E (w_db w) u m (d_entity_type d)" "w_db w' = w_db w" "resolver_for E (w_db w) u m r'"
    "\<not> writes_hidden (hidden E (w_db w) u m (d_entity_type d)) stored flds"
    "out = restore (hidden E (w_db w) u m (d_entity_type d)) stored flds"
    "if rid = [] then stored = fmempty
     else \<exists>v. live_doc E (d_entity_type d) w rid = Some (stored, v)"
proof -
  let ?h = "hidden E (w_db w) u m (d_entity_type d)"
  have wf: "records_wf (w_db w)" using r by (simp add: resolver_for_def)
  let ?rest = "\<lambda>h. if h = {} then aret flds
       else abind (if rid = [] then aret fmempty
                   else abind (lift (Engine_Get E d rid)) (\<lambda>r. aret (rec_data r))) (\<lambda>stored.
         if writes_hidden h stored flds then afail (ErrDenied (d_entity_type d))
         else aret (restore h stored flds))"
  from run obtain x r1 w1 where c: "checkWrite E d r w = (Inr x, r1, w1)"
    and k: "abind (HiddenFields E (d_entity_type d)) ?rest r1 w1 = (Inr out, r', w')"
    unfolding EffectiveWriteFields_def athen_Inr_iff by blast
  from k obtain h r2 w2 where hid: "HiddenFields E (d_entity_type d) r1 w1 = (Inr h, r2, w2)"
    and rest: "?rest h r2 w2 = (Inr out, r', w')"
    unfolding abind_Inr_iff [of "HiddenFields E (d_entity_type d)"] by blast
  note 1 = triple_run [OF checkWrite_triple [OF wf] r c]
  have r1: "resolver_for E (w_db w1) u m r1" using 1 by simp
  note 2 = triple_run [OF HiddenFields_triple [OF wf [folded 1(1)]] r1 hid, unfolded 1(1)]
  have h: "?h = h" using 2(3) [OF refl] by simp
  have may: "may_write E (w_db w) u m (d_entity_type d)" using 1(3) [OF refl] .
  have db2: "w_db w2 = w_db w" by (rule 2(1))
  have r2: "resolver_for E (w_db w) u m r2" by (rule 2(2))
  show thesis
  proof (cases "h = {}")
    case True
    then have "out = flds" "r' = r2" "w' = w2" using rest by simp_all
    then show ?thesis using that(1) may db2 r2 h True by simp
  next
    case False
    then obtain stored w3 where st: "(if rid = [] then aret fmempty
          else abind (lift (Engine_Get E d rid)) (\<lambda>r. aret (rec_data r))) r2 w2 = (Inr stored, r2, w3)"
      and out: "\<not> writes_hidden h stored flds" "out = restore h stored flds" "r' = r2" "w' = w3"
      using rest by (auto simp: abind_Inr_iff lift_iff split: if_splits)
    have stored: "w_db w3 = w_db w2 \<and> (if rid = [] then stored = fmempty
      else \<exists>v. live_doc E (d_entity_type d) w rid = Some (stored, v))"
    proof (cases "rid = []")
      case True
      then show ?thesis using st by simp
    next
      case False
      then obtain rec where g: "Engine_Get E d rid w2 = (Inr rec, w3)" "stored = rec_data rec"
        using st by (auto simp: abind_Inr_iff lift_iff)
      have "live_doc E (d_entity_type d) w2 rid = Some (stored, rec_version rec)"
        unfolding g(2) using Engine_Get_doc [OF _ g(1)] wf db2 by simp
      then have "live_doc E (d_entity_type d) w rid = Some (stored, rec_version rec)"
        using live_doc_same [OF db2] by simp
      then show ?thesis using readsD [OF reads_Engine(1) g(1)] False by auto
    qed
    show ?thesis
      by (rule that(2) [of stored])
        (use may db2 r2 out stored h in \<open>simp_all split: if_splits\<close>)
  qed
qed

end
