(* ===== verification/GuardedWrites.thy ===== *)
theory GuardedWrites
  imports GuardedSafe CrudUnique
begin

text \<open>
  Guarded writes: what a successful one went through, the fields it leaves alone, and the
  reachability argument that requests of a user without rights on the control plane never
  change what he may do.
\<close>

section \<open>Restoring hidden fields\<close>

lemma fmlookup_without [simp]: "fmlookup (without h f) k = (if k \<in> h then None else fmlookup f k)"
  by (simp add: without_def)

lemma fmlookup_restore:
  "fmlookup (restore h stored flds) k =
     (if k \<in> h then (if get_field stored k = VNil then None else fmlookup stored k) else fmlookup flds k)"
  by (auto simp: restore_def get_field_def split: option.split)

lemma get_field_restore:
  "get_field (restore h stored flds) k = (if k \<in> h then get_field stored k else get_field flds k)"
  by (auto simp: get_field_def fmlookup_restore split: option.split)

lemma json_ok_no_nan: "json_ok v \<Longrightarrow> \<not> has_nan v"
proof (induction v)
  case (VMap m)
  then show ?case by (auto simp: fmlookup_ran_iff fmran'I) (metis fmran'I fmlookup_ran_iff)
next
  case (VList xs)
  then show ?case by (auto simp: list_all_iff list_ex_iff)
qed simp_all

lemma json_number: "json_ok v \<Longrightarrow> number_of v = Some n \<Longrightarrow> \<not> is_nan n"
proof -
  have "\<not> is_nan (of_i64 i)" for i using of_i64_finite [of i] by auto
  then show "json_ok v \<Longrightarrow> number_of v = Some n \<Longrightarrow> \<not> is_nan n" by (cases v) auto
qed

lemma sameFieldValue_refl: "json_ok v \<Longrightarrow> sameFieldValue v v"
  using json_ok_no_nan [of v] json_number [of v]
  by (auto simp: sameFieldValue_def float_eq_def DeepEqual_def split: option.split)

text \<open>Restoring once more finds nothing to refuse and nothing to change.\<close>

lemma restore_again:
  assumes "json_ok_fields stored"
  shows "\<not> writes_hidden h stored (restore h stored flds)"
    and "restore h stored (restore h stored flds) = restore h stored flds"
proof -
  have "sameFieldValue (get_field stored k) (get_field stored k)" for k
    using json_ok_get_field [OF assms] by (rule sameFieldValue_refl)
  then show "\<not> writes_hidden h stored (restore h stored flds)"
    by (auto simp: writes_hidden_def get_field_restore)
  show "restore h stored (restore h stored flds) = restore h stored flds"
    by (rule fmap_ext) (simp add: fmlookup_restore)
qed

section \<open>Successful writes\<close>

lemma sanitize_fails: "sanitizeTargetConstraintError E e r w \<noteq> (Inr x, r', w')"
  by (cases e) (auto simp: sanitizeTargetConstraintError_def abind_Inr_iff split: if_splits)

lemma acatch_lift_Inr:
  "acatch (lift m) (sanitizeTargetConstraintError E) r w = (Inr x, r', w') \<longleftrightarrow>
     m w = (Inr x, w') \<and> r' = r"
  by (auto simp: acatch_def lift_def sanitize_fails split: prod.splits sum.splits)

lemma checkSoRModeReserved_run:
  "checkSoRModeReserved d flds r w = (Inr x, r', w') \<Longrightarrow> r' = r \<and> w' = w"
  by (auto simp: checkSoRModeReserved_def split: if_splits)

lemma sorRules_triple:
  "triple E D (asks u m) (sorRules E et) (\<lambda>rules r. set rules = sor_declared E D et \<and> asks u m r)"
  unfolding sorRules_def
proof (rule triple_with)
  fix r0 assume r0: "memo_ok E D r0" "asks u m r0"
  let ?Q = "\<lambda>rules r. set rules = sor_declared E D et \<and> asks u m r"
  let ?list = "ListByField E ''SystemOfRecord'' ''entity_type'' et"
  let ?load = "abind (lift ?list) (\<lambda>rows.
           let rules = map (\<lambda>row. sor_rule (rec_data row)) rows in
           athen (modify (\<lambda>r. r\<lparr>rs_sor_memo := (rs_sor_memo r)(et \<mapsto> rules)\<rparr>)) (aret rules))"
  have rd: "reads ?list" by (intro reads_intro)
  have "triple E D (\<lambda>r. r = r0) ?load ?Q"
  proof (rule triple_bind [OF triple_lift [OF rd, where Q = "\<lambda>rows. (\<lambda>row. sor_rule (rec_data row)) ` set rows
      = sor_declared E D et"]])
    fix rows w w' assume "w_db w = D" "?list w = (Inr rows, w')"
    then show "(\<lambda>row. sor_rule (rec_data row)) ` set rows = sor_declared E D et"
      using ListByField_set [of E _ _ _ w rows w'] by (simp add: sor_declared_def image_image to_record_def)
  next
    fix rows
    show "triple E D (\<lambda>r. r = r0 \<and> (\<lambda>row. sor_rule (rec_data row)) ` set rows = sor_declared E D et)
      (let rules = map (\<lambda>row. sor_rule (rec_data row)) rows in
           athen (modify (\<lambda>r. r\<lparr>rs_sor_memo := (rs_sor_memo r)(et \<mapsto> rules)\<rparr>)) (aret rules)) ?Q"
      unfolding Let_def
      by (rule triple_remember) (use r0 in \<open>auto simp: memo_ok_def same_request_def asks_def\<close>)
  qed
  moreover have "triple E D (\<lambda>r. r = r0) (aret rules) ?Q" if "rs_sor_memo r0 et = Some rules" for rules
    using r0 that by (intro triple_ret) (auto simp: memo_ok_def)
  ultimately show "triple E D (\<lambda>r. r = r0) (case rs_sor_memo r0 et of Some rules \<Rightarrow> aret rules | None \<Rightarrow> ?load) ?Q"
    by (cases "rs_sor_memo r0 et") simp_all
qed

text \<open>
  The records of a read-only source: an identity of the record names the type and a source that
  a read-only declaration of the type covers; one without a source covers all of them.
\<close>

definition externally_owned :: "env \<Rightarrow> db \<Rightarrow> string \<Rightarrow> string \<Rightarrow> string \<Rightarrow> bool" where
  "externally_owned E D et rid src \<longleftrightarrow>
     (\<exists>s \<in> sor_declared E D et. so_mode s = ''read_only'' \<and> (so_source s = [] \<or> so_source s = src)) \<and>
     (\<exists>i \<in> set (db_records D). live ''ExternalIdentity'' i \<and> field_is E i (''record_id'', rid) \<and>
        str_field (rr_data i) ''entity_type'' = et \<and> str_field (rr_data i) ''source_id'' = src)"

lemma checkSoRReadOnly_run:
  assumes r: "resolver_for E (w_db w) u m r"
    and run: "checkSoRReadOnly E g d rid r w = (Inr x, r', w')"
  shows "w_db w' = w_db w" "resolver_for E (w_db w) u m r'"
    "externally_owned E (w_db w) (d_entity_type d) rid src \<Longrightarrow> src = ge_bypass g \<and> src \<noteq> []"
proof -
  let ?et = "d_entity_type d"
  let ?ro = "\<lambda>rules. filter (\<lambda>s. so_mode s = ''read_only'') rules"
  let ?list = "ListByField E ''ExternalIdentity'' ''record_id'' rid"
  from run obtain rules r1 w1 where s: "sorRules E ?et r w = (Inr rules, r1, w1)"
    and k: "(if ?ro rules = [] then aret ()
       else abind (lift ?list) (\<lambda>idents.
         case List.map_filter (blocking_source ?et (ge_bypass g) (?ro rules)) idents of
           [] \<Rightarrow> aret ()
         | src # _ \<Rightarrow> abind (lift (source_name E src)) (\<lambda>name. afail (ErrSoRReadOnly ?et src name)))) r1 w1
       = (Inr x, r', w')"
    unfolding checkSoRReadOnly_def abind_Inr_iff Let_def by blast
  note 1 = triple_run [OF sorRules_triple r s]
  have rules: "set rules = sor_declared E (w_db w) ?et" using 1(3) [OF refl] .
  have rd: "reads ?list" by (intro reads_intro)
  show "w_db w' = w_db w" "resolver_for E (w_db w) u m r'"
    "externally_owned E (w_db w) ?et rid src \<Longrightarrow> src = ge_bypass g \<and> src \<noteq> []"
  proof -
    have "w_db w' = w_db w \<and> r' = r1 \<and> (externally_owned E (w_db w) ?et rid src \<longrightarrow> src = ge_bypass g \<and> src \<noteq> [])"
    proof (cases "?ro rules = []")
      case True
      then have "\<not> externally_owned E (w_db w) ?et rid src"
        by (auto simp: externally_owned_def filter_empty_conv simp flip: rules)
      then show ?thesis using True k 1(1) by simp
    next
      case False
      then obtain idents w2 where i: "?list w1 = (Inr idents, w2)"
        and b: "(case List.map_filter (blocking_source ?et (ge_bypass g) (?ro rules)) idents of
           [] \<Rightarrow> aret ()
         | src # _ \<Rightarrow> abind (lift (source_name E src)) (\<lambda>name. afail (ErrSoRReadOnly ?et src name))) r1 w2
           = (Inr x, r', w')"
        using k by (auto simp: abind_Inr_iff lift_iff)
      have nb: "List.map_filter (blocking_source ?et (ge_bypass g) (?ro rules)) idents = []"
        "r' = r1" "w' = w2"
        using b by (auto simp: abind_Inr_iff split: list.splits)
      have w2: "w_db w2 = w_db w" using readsD [OF rd i] 1(1) by simp
      have "src = ge_bypass g \<and> src \<noteq> []" if own: "externally_owned E (w_db w) ?et rid src"
      proof -
        obtain row where row: "row \<in> set (db_records (w_db w))" "live ''ExternalIdentity'' row"
          "field_is E row (''record_id'', rid)" "str_field (rr_data row) ''entity_type'' = ?et"
          "str_field (rr_data row) ''source_id'' = src"
          using own unfolding externally_owned_def by blast
        obtain s where ro: "s \<in> set (?ro rules)" "so_source s = [] \<or> so_source s = src"
          using own unfolding externally_owned_def rules [symmetric] by auto
        have "to_record row \<in> set idents" using row ListByField_set [OF i] 1(1) by auto
        then have "blocking_source ?et (ge_bypass g) (?ro rules) (to_record row) = None"
          using nb(1) by (auto simp: List.map_filter_def filter_empty_conv)
        then show ?thesis using row(4,5) ro
          by (auto simp: blocking_source_def Let_def to_record_def list_ex_iff split: if_splits)
      qed
      then show ?thesis using w2 nb by simp
    qed
    then show "w_db w' = w_db w" "resolver_for E (w_db w) u m r'"
      "externally_owned E (w_db w) ?et rid src \<Longrightarrow> src = ge_bypass g \<and> src \<noteq> []"
      using 1(2) by auto
  qed
qed

text \<open>What a successful guarded write went through.\<close>

lemma checkWrite_run:
  assumes "resolver_for E (w_db w) u m r" "checkWrite E d r w = (Inr x, r', w')"
  shows "w_db w' = w_db w" "resolver_for E (w_db w) u m r'" "may_write E (w_db w) u m (d_entity_type d)"
proof -
  have "records_wf (w_db w)" using assms(1) by (simp add: resolver_for_def)
  note 1 = triple_run [OF checkWrite_triple [OF this] assms]
  show "w_db w' = w_db w" "resolver_for E (w_db w) u m r'" "may_write E (w_db w) u m (d_entity_type d)"
    using 1(1,2) 1(3) [OF refl] by simp_all
qed

text \<open>The document a write of an existing record (or a new one, with no stored document) applies.\<close>

definition effective :: "string set \<Rightarrow> fields \<Rightarrow> fields \<Rightarrow> fields \<Rightarrow> bool" where
  "effective h stored flds out \<longleftrightarrow>
     (h = {} \<and> out = flds) \<or> (\<not> writes_hidden h stored flds \<and> out = restore h stored flds)"

lemma effective_field:
  assumes "effective h stored flds out"
  shows "get_field out k = (if k \<in> h then get_field stored k else get_field flds k)"
  using assms by (auto simp: effective_def get_field_restore)

lemma GuardedCreate_run:
  assumes r: "resolver_for E (w_db w) u m r"
    and run: "GuardedCreate E g d flds actor r w = (Inr rec, r', w')"
  obtains out w1 w2 rec0 where "may_write E (w_db w) u m (d_entity_type d)"
    "effective (hidden E (w_db w) u m (d_entity_type d)) fmempty flds out" "w_db w1 = w_db w"
    "Create E (ge_hooks g) d (Some out) actor w1 = (Inr rec0, w2)"
    "\<exists>r2. redact1 E d rec0 r2 w2 = (Inr rec, r', w')"
proof -
  from run obtain x1 r1 w1 x2 r2 w2 out r3 w3 rec0 r4 w4 where
    c: "checkWrite E d r w = (Inr x1, r1, w1)" and s: "checkSoRModeReserved d flds r1 w1 = (Inr x2, r2, w2)"
    and e: "EffectiveWriteFields E d [] flds r2 w2 = (Inr out, r3, w3)"
    and k: "acatch (lift (Create E (ge_hooks g) d (Some out) actor)) (sanitizeTargetConstraintError E) r3 w3
      = (Inr rec0, r4, w4)"
    and rd: "redact1 E d rec0 r4 w4 = (Inr rec, r', w')"
    unfolding GuardedCreate_def athen_Inr_iff abind_Inr_iff by blast
  note 1 = checkWrite_run [OF r c]
  have s': "r2 = r1" "w2 = w1" using checkSoRModeReserved_run [OF s] by auto
  have r2: "resolver_for E (w_db w2) u m r2" using 1 s' by simp
  have eff: "effective (hidden E (w_db w) u m (d_entity_type d)) fmempty flds out \<and> w_db w3 = w_db w"
    using r2 e by (rule EffectiveWriteFields_run) (use 1(1) s' in \<open>auto simp: effective_def\<close>)
  show thesis
    using that [of out w3 rec0 w4] 1(3) eff k rd unfolding acatch_lift_Inr by blast
qed

lemma GuardedUpdate_run:
  assumes r: "resolver_for E (w_db w) u m r"
    and run: "GuardedUpdate E g d rid flds ev actor r w = (Inr v, r', w')"
  obtains out stored w1 where "may_write E (w_db w) u m (d_entity_type d)"
    "\<And>src. externally_owned E (w_db w) (d_entity_type d) rid src \<Longrightarrow> src = ge_bypass g \<and> src \<noteq> []"
    "effective (hidden E (w_db w) u m (d_entity_type d)) stored flds out"
    "hidden E (w_db w) u m (d_entity_type d) \<noteq> {} \<Longrightarrow> rid \<noteq> [] \<Longrightarrow>
      \<exists>v. live_doc E (d_entity_type d) w rid = Some (stored, v)"
    "w_db w1 = w_db w" "Update E (ge_hooks g) d rid out ev actor w1 = (Inr v, w')"
proof -
  from run obtain x1 r1 w1 x2 r2 w2 x3 r3 w3 out r4 w4 where
    c: "checkWrite E d r w = (Inr x1, r1, w1)" and s: "checkSoRModeReserved d flds r1 w1 = (Inr x2, r2, w2)"
    and o1: "checkSoRReadOnly E g d rid r2 w2 = (Inr x3, r3, w3)"
    and e: "EffectiveWriteFields E d rid flds r3 w3 = (Inr out, r4, w4)"
    and k: "acatch (lift (Update E (ge_hooks g) d rid out ev actor)) (sanitizeTargetConstraintError E) r4 w4
      = (Inr v, r', w')"
    unfolding GuardedUpdate_def athen_Inr_iff abind_Inr_iff by blast
  note 1 = checkWrite_run [OF r c]
  have s': "r2 = r1" "w2 = w1" using checkSoRModeReserved_run [OF s] by auto
  have r2: "resolver_for E (w_db w2) u m r2" using 1 s' by simp
  note 2 = checkSoRReadOnly_run [OF r2 o1]
  have db3: "w_db w3 = w_db w" using 2(1) 1(1) s' by simp
  have r3: "resolver_for E (w_db w3) u m r3" using 2(1,2) by simp
  have ld: "live_doc E (d_entity_type d) w3 = live_doc E (d_entity_type d) w" using db3 by (rule live_doc_same)
  have "\<exists>stored. effective (hidden E (w_db w) u m (d_entity_type d)) stored flds out \<and> w_db w4 = w_db w \<and>
      (hidden E (w_db w) u m (d_entity_type d) \<noteq> {} \<longrightarrow> rid \<noteq> [] \<longrightarrow>
        (\<exists>v. live_doc E (d_entity_type d) w rid = Some (stored, v)))"
    using r3 e
  proof (cases rule: EffectiveWriteFields_run)
    case 1
    then show ?thesis using db3 by (auto simp: effective_def)
  next
    case (2 stored)
    then have "hidden E (w_db w) u m (d_entity_type d) \<noteq> {} \<longrightarrow> rid \<noteq> [] \<longrightarrow>
        (\<exists>v. live_doc E (d_entity_type d) w rid = Some (stored, v))"
      unfolding ld by (metis (full_types))
    then show ?thesis using 2(2,4,5) db3 by (auto simp: effective_def)
  qed
  then obtain stored where st: "effective (hidden E (w_db w) u m (d_entity_type d)) stored flds out"
    "w_db w4 = w_db w" "hidden E (w_db w) u m (d_entity_type d) \<noteq> {} \<Longrightarrow> rid \<noteq> [] \<Longrightarrow>
        \<exists>v. live_doc E (d_entity_type d) w rid = Some (stored, v)"
    by blast
  have own: "\<And>src. externally_owned E (w_db w) (d_entity_type d) rid src \<Longrightarrow> src = ge_bypass g \<and> src \<noteq> []"
    using 2(3) 1(1) s' by simp
  have upd: "Update E (ge_hooks g) d rid out ev actor w4 = (Inr v, w')"
    using k unfolding acatch_lift_Inr by blast
  show thesis by (rule that [OF 1(3) own st(1) st(3) st(2) upd])
qed

lemma GuardedDelete_run:
  assumes r: "resolver_for E (w_db w) u m r"
    and run: "GuardedDelete E g d rid actor r w = (Inr x, r', w')"
  obtains w1 where "may_write E (w_db w) u m (d_entity_type d)"
    "\<And>src. externally_owned E (w_db w) (d_entity_type d) rid src \<Longrightarrow> src = ge_bypass g \<and> src \<noteq> []"
    "w_db w1 = w_db w" "Delete E d rid actor w1 = (Inr x, w')"
proof -
  from run obtain x1 r1 w1 x3 r3 w3 where
    c: "checkWrite E d r w = (Inr x1, r1, w1)" and o1: "checkSoRReadOnly E g d rid r1 w1 = (Inr x3, r3, w3)"
    and k: "Delete E d rid actor w3 = (Inr x, w')"
    unfolding GuardedDelete_def athen_Inr_iff lift_iff by blast
  note 1 = checkWrite_run [OF r c]
  have r1: "resolver_for E (w_db w1) u m r1" using 1 by simp
  note 2 = checkSoRReadOnly_run [OF r1 o1]
  have own: "\<And>src. externally_owned E (w_db w) (d_entity_type d) rid src \<Longrightarrow> src = ge_bypass g \<and> src \<noteq> []"
    using 2(3) 1(1) by simp
  have "w_db w3 = w_db w" by (rule trans [OF 2(1) 1(1)])
  then show thesis using that [OF 1(3) own _ k] by blast
qed

section \<open>Hidden fields survive an update\<close>

lemma hidden_fields_kept:
  assumes r: "resolver_for E (w_db w) u m r" and wf: "world_wf w"
    and hooks: "ge_hooks g (d_entity_type d) = None" and rid: "rid \<noteq> []"
    and old: "live_doc E (d_entity_type d) w rid = Some (f0, n)"
    and run: "GuardedUpdate E g d rid flds ev actor r w = (Inr v, r', w')"
  shows "\<exists>f1. live_doc E (d_entity_type d) w' rid = Some (f1, v) \<and>
    (\<forall>k. get_field f1 k = (if k \<in> hidden E (w_db w) u m (d_entity_type d)
       then json_norm (get_field f0 k) else json_norm (get_field flds k)))"
  using r run
proof (cases rule: GuardedUpdate_run)
  case (1 out stored w1)
  let ?h = "hidden E (w_db w) u m (d_entity_type d)"
  have "world_wf w1" using wf 1(5) by (simp add: world_wf_def)
  then have new: "live_doc E (d_entity_type d) w' rid = Some (json_norm_fields out, v)"
    using Update_effect [OF hooks _ 1(6)] by blast
  have norm: "get_field (json_norm_fields f) k = json_norm (get_field f k)" for f k
    by (simp add: get_field_def split: option.split)
  have "get_field (json_norm_fields out) k = (if k \<in> ?h then json_norm (get_field f0 k) else json_norm (get_field flds k))" for k
  proof (cases "?h = {}")
    case True
    then show ?thesis using effective_field [OF 1(3), of k] by (simp add: norm)
  next
    case False
    then have "stored = f0" using 1(4) rid old by auto
    then show ?thesis using effective_field [OF 1(3), of k] by (simp add: norm)
  qed
  then show ?thesis using new by blast
qed

section \<open>Nobody writes himself more rights\<close>

text \<open>The rows the rights depend on.\<close>

definition control_rows :: "db \<Rightarrow> rrow list" where
  "control_rows D = filter (\<lambda>r. rr_type r \<in> set controlPlaneTypes) (db_records D)"

lemma control_live: "et \<in> set controlPlaneTypes \<Longrightarrow>
    r \<in> set (db_records D) \<and> live et r \<longleftrightarrow> r \<in> set (control_rows D) \<and> live et r"
  by (auto simp: control_rows_def live_def)

lemma control_types:
  "''Role'' \<in> set controlPlaneTypes" "''UserRole'' \<in> set controlPlaneTypes"
  "''Permission'' \<in> set controlPlaneTypes" "''FieldPermission'' \<in> set controlPlaneTypes"
  "''SystemOfRecord'' \<in> set controlPlaneTypes"
  by (simp_all add: controlPlaneTypes_def)

text \<open>The policy reads nothing but the control plane.\<close>

lemma control_rows_ex:
  assumes "control_rows D' = control_rows D" "k \<in> set controlPlaneTypes"
  shows "(\<exists>r \<in> set (db_records D'). live k r \<and> P r) \<longleftrightarrow> (\<exists>r \<in> set (db_records D). live k r \<and> P r)"
  using control_live [OF assms(2)] assms(1) by metis

lemma policy_facts:
  assumes "control_rows D' = control_rows D"
  shows "held E D' u = held E D u" "is_admin E D' u = is_admin E D u" "ruled D' et = ruled D et"
    "granted E D' u rights et = granted E D u rights et" "configured E D' = configured E D"
    "fields_hidden E D' u et = fields_hidden E D u et"
    "k \<in> set controlPlaneTypes \<Longrightarrow> rule_for D' k et p = rule_for D k et p"
    "sor_declared E D' et = sor_declared E D et"
proof -
  note rows = control_rows_ex [OF assms]
  have holds: "holds_role E D' u g \<longleftrightarrow> holds_role E D u g" for g
    unfolding holds_role_def using rows control_types by auto
  have rule: "rule_for D' k t p \<longleftrightarrow> rule_for D k t p" if "k \<in> set controlPlaneTypes" for k t p
    unfolding rule_for_def using rows [OF that] by simp
  show adm: "is_admin E D' u = is_admin E D u" and hld: "held E D' u = held E D u"
    by (simp_all add: is_admin_def held_def holds)
  show "ruled D' et = ruled D et" "granted E D' u rights et = granted E D u rights et"
    "fields_hidden E D' u et = fields_hidden E D u et"
    by (simp_all add: ruled_def granted_def fields_hidden_def rule control_types hld)
  show "rule_for D' k et p = rule_for D k et p" if "k \<in> set controlPlaneTypes" using rule [OF that] .
  show "configured E D' = configured E D"
  proof -
    have "(\<exists>r \<in> set (db_records D'). live ''Permission'' r \<or> live ''FieldPermission'' r) \<longleftrightarrow>
        (\<exists>r \<in> set (db_records D). live ''Permission'' r \<or> live ''FieldPermission'' r)"
      using rows [of "''Permission''" "\<lambda>_. True"] rows [of "''FieldPermission''" "\<lambda>_. True"] control_types
      by blast
    moreover have "(\<exists>ur \<in> set (db_records D'). live ''UserRole'' ur \<and> field_is E ur p) \<longleftrightarrow>
        (\<exists>ur \<in> set (db_records D). live ''UserRole'' ur \<and> field_is E ur p)" for p
      using rows control_types by simp
    ultimately show ?thesis unfolding configured_def using rows [of "''Role''"] control_types by simp
  qed
  show "sor_declared E D' et = sor_declared E D et"
  proof -
    have "s \<in> sor_declared E D0 et \<longleftrightarrow> (\<exists>r \<in> set (db_records D0). live ''SystemOfRecord'' r \<and>
        (field_is E r (''entity_type'', et) \<and> s = sor_rule (rr_data r)))" for s D0
      unfolding sor_declared_def by auto
    then show ?thesis unfolding set_eq_iff using rows [of "''SystemOfRecord''"] control_types by simp
  qed
qed

lemma policy_control:
  assumes "control_rows D' = control_rows D"
  shows "may_read E D' u m et = may_read E D u m et" "may_write E D' u m et = may_write E D u m et"
    "hidden E D' u m et = hidden E D u m et"
  by (simp_all add: may_read_def may_write_def hidden_eq policy_facts [OF assms])

text \<open>So what a resolver remembers stays true as long as the control plane does.\<close>

lemma memo_ok_control:
  assumes "control_rows D' = control_rows D"
  shows "memo_ok E D' r = memo_ok E D r"
proof -
  have perm: "perm_of E D' u et = perm_of E D u et" for u et
    by (simp add: perm_of_def policy_facts [OF assms])
  have "Collect (rule_for D' k et) = Collect (rule_for D k et)" if "k \<in> set controlPlaneTypes" for k et
    by (rule Collect_cong) (rule policy_facts(7) [OF assms that])
  then have rules: "perms_ok D' ps = perms_ok D ps" "fields_ok D' fs = fields_ok D fs" for ps fs
    by (simp_all add: perms_ok_def fields_ok_def control_types)
  have "(\<exists>x \<in> set (db_records D'). live ''Permission'' x \<or> live ''FieldPermission'' x) =
      (\<exists>x \<in> set (db_records D). live ''Permission'' x \<or> live ''FieldPermission'' x)"
    using control_rows_ex [OF assms, of "''Permission''" "\<lambda>_. True"]
      control_rows_ex [OF assms, of "''FieldPermission''" "\<lambda>_. True"] control_types by blast
  then show ?thesis unfolding memo_ok_def perm rules policy_facts [OF assms] by simp
qed

text \<open>The engine changes rows of its own type only.\<close>

lemma control_upd_where:
  assumes "\<And>r. P r \<Longrightarrow> rr_type r \<notin> set controlPlaneTypes" "\<And>r. rr_type (f r) = rr_type r"
  shows "filter (\<lambda>r. rr_type r \<in> set controlPlaneTypes) (upd_where P f rs) =
    filter (\<lambda>r. rr_type r \<in> set controlPlaneTypes) rs"
  using assms by (induction rs) (auto simp: upd_where_simps)

lemma control_records [simp]:
  "control_rows (D\<lparr>db_audit := a\<rparr>) = control_rows D" "control_rows (D\<lparr>db_keys := k\<rparr>) = control_rows D"
  by (simp_all add: control_rows_def)

lemma control_same_records: "db_records D' = db_records D \<Longrightarrow> control_rows D' = control_rows D"
  by (simp add: control_rows_def)

lemma engine_control:
  assumes "d_entity_type d \<notin> set controlPlaneTypes"
  shows "keeps (\<lambda>D. control_rows D = c) (CreateTx (d_entity_type d) data)"
    and "keeps (\<lambda>D. control_rows D = c) (UpdateTx E (d_entity_type d) rid data ev)"
    and "keeps (\<lambda>D. control_rows D = c) (DeleteTx E (d_entity_type d) rid)"
proof -
  show "keeps (\<lambda>D. control_rows D = c) (CreateTx (d_entity_type d) data)"
    using assms by (intro keepsI) (erule CreateTx_success, simp add: control_rows_def)
  show "keeps (\<lambda>D. control_rows D = c) (UpdateTx E (d_entity_type d) rid data ev)"
  proof (rule keepsI)
    fix w x w' assume c: "control_rows (w_db w) = c"
      and run: "UpdateTx E (d_entity_type d) rid data ev w = (Inr x, w')"
    have "filter (\<lambda>r. rr_type r \<in> set controlPlaneTypes)
        (upd_where (update_hits (d_entity_type d) u ev) (update_row data) rs) =
        filter (\<lambda>r. rr_type r \<in> set controlPlaneTypes) rs" for u rs
      by (rule control_upd_where) (use assms in \<open>auto simp: update_hits_def live_def update_row_def\<close>)
    with run show "control_rows (w_db w') = c"
      by (elim UpdateTx_success) (use c in \<open>simp add: control_rows_def\<close>)
  qed
  show "keeps (\<lambda>D. control_rows D = c) (DeleteTx E (d_entity_type d) rid)"
  proof (rule keepsI)
    fix w x w' assume c: "control_rows (w_db w) = c"
      and run: "DeleteTx E (d_entity_type d) rid w = (Inr x, w')"
    have "filter (\<lambda>r. rr_type r \<in> set controlPlaneTypes)
        (upd_where (\<lambda>r. rr_id r = u \<and> live (d_entity_type d) r) (\<lambda>r. r\<lparr>rr_deleted := True\<rparr>) rs) =
        filter (\<lambda>r. rr_type r \<in> set controlPlaneTypes) rs" for u rs
      by (rule control_upd_where) (use assms in \<open>auto simp: live_def\<close>)
    with run show "control_rows (w_db w') = c"
      by (elim DeleteTx_success) (use c in \<open>simp add: control_rows_def\<close>)
  qed
qed

lemma keeps_records: "(\<And>rs. keeps (\<lambda>D. db_records D = rs) m) \<Longrightarrow> keeps (\<lambda>D. control_rows D = c) m"
  unfolding keeps_def using control_same_records by metis

lemma delete_keys_records: "keeps (\<lambda>D. db_records D = rs) (deleteUniqueConstraintKeys E rid)"
  by (auto simp: keeps_def deleteUniqueConstraintKeys_def DeleteForRecordTx_def stmt_Inr_iff)

lemma engine_keeps_control:
  assumes d: "d_entity_type d \<notin> set controlPlaneTypes" and hooks: "hooks_keep (\<lambda>D. control_rows D = c) hooks"
  shows "keeps (\<lambda>D. control_rows D = c) (Create E hooks d fo actor)"
    and "keeps (\<lambda>D. control_rows D = c) (Update E hooks d rid flds ev actor)"
    and "keeps (\<lambda>D. control_rows D = c) (Delete E d rid actor)"
proof -
  have aud: "keeps (\<lambda>D. control_rows D = c) (write_audit E et i act actor diff)" for et i act diff
    by (rule write_audit_keeps) simp
  note rules = keeps_intro engine_control [OF d] aud keeps_records [OF write_keys_records]
    keeps_records [OF update_keys_records] keeps_records [OF delete_keys_records] runHook_keeps [OF hooks]
  show "keeps (\<lambda>D. control_rows D = c) (Create E hooks d fo actor)"
    unfolding Create_def create_body_def Let_def by (intro rules)
  show "keeps (\<lambda>D. control_rows D = c) (Update E hooks d rid flds ev actor)"
    unfolding Update_def update_body_def by (intro rules)
  show "keeps (\<lambda>D. control_rows D = c) (Delete E d rid actor)"
    unfolding Delete_def delete_body_def by (intro rules)
qed

end
