(* ===== verification/GuardedRights.thy ===== *)
theory GuardedRights
  imports GuardedWrites
begin

text \<open>
  A user's session against the guarded engine, requests and writes in any order, and the
  invariant that it never changes the rows his rights depend on when he has no right on them.
\<close>

section \<open>Sessions\<close>

text \<open>
  One step: a new request gets a new resolver for the user; a write of any type goes through the
  guarded engine with the resolver of the request, whatever it has remembered. A failed write is
  a step too, and other tables of the world (its clock, its fault schedule) are arbitrary.
\<close>

inductive session_step :: "env \<Rightarrow> GuardedEngine \<Rightarrow> string \<Rightarrow> bool \<Rightarrow> db \<times> Resolver \<Rightarrow> db \<times> Resolver \<Rightarrow> bool"
  for E :: env and g :: GuardedEngine and u :: string and m :: bool where
  request: "a_id actor = u \<Longrightarrow> session_step E g u m (D, r) (D, NewResolver actor m)"
| create: "GuardedCreate E g d flds actor r w = (res, r', w') \<Longrightarrow>
    session_step E g u m (w_db w, r) (w_db w', r')"
| update: "GuardedUpdate E g d rid flds ev actor r w = (res2, r', w') \<Longrightarrow>
    session_step E g u m (w_db w, r) (w_db w', r')"
| delete: "GuardedDelete E g d rid actor r w = (res3, r', w') \<Longrightarrow>
    session_step E g u m (w_db w, r) (w_db w', r')"

inductive_cases session_stepE: "session_step E g u m (D, r) (D', r')"
section \<open>Calls that keep the control plane\<close>

text \<open>The state of a session: the tables are sound, the control plane is as it was, and the
  resolver is right about the database.\<close>

definition session_ok :: "env \<Rightarrow> rrow list \<Rightarrow> string \<Rightarrow> bool \<Rightarrow> db \<Rightarrow> Resolver \<Rightarrow> bool" where
  "session_ok E c u m D r \<longleftrightarrow> tables_wf D \<and> control_rows D = c \<and> resolver_for E D u m r"

text \<open>Whatever a call returns, it leaves the session in order.\<close>

definition orderly :: "env \<Rightarrow> rrow list \<Rightarrow> string \<Rightarrow> bool \<Rightarrow> 'a am \<Rightarrow> bool" where
  "orderly E c u m p \<longleftrightarrow> (\<forall>r w res r' w'. session_ok E c u m (w_db w) r \<longrightarrow> p r w = (res, r', w') \<longrightarrow>
     session_ok E c u m (w_db w') r')"

named_theorems orderly_intro "calls that leave a session in order"

lemma orderlyD:
  "orderly E c u m p \<Longrightarrow> session_ok E c u m (w_db w) r \<Longrightarrow> p r w = (res, r', w') \<Longrightarrow>
    session_ok E c u m (w_db w') r'"
  by (auto simp: orderly_def)

lemma session_ok_resolver: "session_ok E c u m D r \<Longrightarrow> resolver_for E D u m r"
  by (simp add: session_ok_def)

lemma orderly_ret [orderly_intro]: "orderly E c u m (aret x)" "orderly E c u m (afail e)"
  by (auto simp: orderly_def)

lemma orderly_bind [orderly_intro]:
  assumes "orderly E c u m p" "\<And>x. orderly E c u m (f x)"
  shows "orderly E c u m (abind p f)"
  unfolding orderly_def
proof (intro allI impI)
  fix r w res r' w' assume ok: "session_ok E c u m (w_db w) r" and run: "abind p f r w = (res, r', w')"
  obtain x r1 w1 where 1: "p r w = (x, r1, w1)" by (cases "p r w") auto
  then have "session_ok E c u m (w_db w1) r1" using orderlyD [OF assms(1) ok] by simp
  then show "session_ok E c u m (w_db w') r'"
    using run 1 orderlyD [OF assms(2)] by (cases x) (auto simp: abind_def)
qed

lemma orderly_then [orderly_intro]:
  "orderly E c u m p \<Longrightarrow> orderly E c u m q \<Longrightarrow> orderly E c u m (athen p q)"
  unfolding athen_def by (rule orderly_bind)

lemma orderly_if [orderly_intro]:
  "(b \<Longrightarrow> orderly E c u m p) \<Longrightarrow> (\<not> b \<Longrightarrow> orderly E c u m q) \<Longrightarrow> orderly E c u m (if b then p else q)"
  by simp

lemma orderly_catch [orderly_intro]:
  assumes "orderly E c u m p" "\<And>e. orderly E c u m (h e)"
  shows "orderly E c u m (acatch p h)"
  unfolding orderly_def
proof (intro allI impI)
  fix r w res r' w' assume ok: "session_ok E c u m (w_db w) r" and run: "acatch p h r w = (res, r', w')"
  obtain x r1 w1 where 1: "p r w = (x, r1, w1)" by (cases "p r w") auto
  then have "session_ok E c u m (w_db w1) r1" using orderlyD [OF assms(1) ok] by simp
  then show "session_ok E c u m (w_db w') r'"
    using run 1 orderlyD [OF assms(2)] by (cases x) (auto simp: acatch_def)
qed

lemma orderly_triple:
  assumes "\<And>D. records_wf D \<Longrightarrow> triple E D (asks u m) p (\<lambda>x r. Q D x \<and> asks u m r)"
  shows "orderly E c u m p"
  unfolding orderly_def
proof (intro allI impI)
  fix r w res r' w' assume ok: "session_ok E c u m (w_db w) r" and run: "p r w = (res, r', w')"
  have wf: "records_wf (w_db w)" using ok by (simp add: session_ok_def tables_wf_def)
  note 1 = triple_run [OF assms [OF wf] session_ok_resolver [OF ok] run]
  show "session_ok E c u m (w_db w') r'" using ok 1 by (simp add: session_ok_def)
qed

lemma orderly_checks [orderly_intro]:
  "orderly E c u m (CanRead E et)" "orderly E c u m (HiddenFields E et)" "orderly E c u m (checkWrite E d)"
  "orderly E c u m (redact E d recs)" "orderly E c u m (sorRules E et)"
  by (rule orderly_triple, erule CanRead_triple HiddenFields_triple checkWrite_triple redact_triple
      | rule orderly_triple, rule sorRules_triple)+

lemma orderly_lift [orderly_intro]:
  assumes ok: "keeps tables_wf p" "keeps (\<lambda>D. control_rows D = c) p"
    and err: "\<And>e w w'. p w = (Inl e, w') \<Longrightarrow> w_db w' = w_db w"
  shows "orderly E c u m (lift p)"
  unfolding orderly_def
proof (intro allI impI)
  fix r w res r' w' assume s: "session_ok E c u m (w_db w) r" and "lift p r w = (res, r', w')"
  then have run: "p w = (res, w')" and r': "r' = r" by (simp_all add: lift_iff)
  have t: "tables_wf (w_db w)" "control_rows (w_db w) = c" using s by (simp_all add: session_ok_def)
  have t': "tables_wf (w_db w') \<and> control_rows (w_db w') = c"
  proof (cases res)
    case (Inl e)
    then show ?thesis using err run t by simp
  next
    case (Inr x)
    then show ?thesis using keepsD [OF ok(1)] keepsD [OF ok(2)] run t by blast
  qed
  then have "memo_ok E (w_db w') r"
    using s memo_ok_control [of "w_db w'" "w_db w"] by (simp add: session_ok_def resolver_for_def)
  then show "session_ok E c u m (w_db w') r'"
    using t' s r' by (simp add: session_ok_def resolver_for_def tables_wf_def)
qed

lemma orderly_reads [orderly_intro]:
  assumes "reads p" shows "orderly E c u m (lift p)"
proof -
  have "w_db w' = w_db w" if "p w = (res, w')" for w res w' using readsD [OF assms that] .
  then show ?thesis by (auto simp: orderly_def lift_iff)
qed

section \<open>Guarded writes keep it\<close>

lemma orderly_sanitize [orderly_intro]: "orderly E c u m (sanitizeTargetConstraintError E e)"
  by (cases e) (auto simp: sanitizeTargetConstraintError_def intro!: orderly_intro)

lemma orderly_reserved [orderly_intro]: "orderly E c u m (checkSoRModeReserved d flds)"
  unfolding checkSoRModeReserved_def by (intro orderly_intro)

lemma reads_source_name [reads_intro]: "reads (source_name E src)"
  unfolding source_name_def by (intro reads_intro)

lemma orderly_read_only [orderly_intro]: "orderly E c u m (checkSoRReadOnly E g d rid)"
  unfolding checkSoRReadOnly_def Let_def
  by (intro orderly_intro reads_intro) (auto split: list.split intro!: orderly_intro reads_intro)

lemma orderly_effective [orderly_intro]: "orderly E c u m (EffectiveWriteFields E d rid flds)"
  unfolding EffectiveWriteFields_def by (intro orderly_intro reads_Engine)

lemma orderly_redact1 [orderly_intro]: "orderly E c u m (redact1 E d r)"
  unfolding redact1_def by (intro orderly_intro)

text \<open>
  A write starts with the check: of a type of the control plane, which he may not write, it stops
  there; of another type, the rest of it must be orderly.
\<close>

lemma checked_write_ok:
  assumes ok: "session_ok E c u m (w_db w) r" and run: "athen (checkWrite E d) p r w = (res, r', w')"
    and no: "list_all (\<lambda>et. \<not> may_write E (w_db w) u m et) controlPlaneTypes"
    and p: "d_entity_type d \<notin> set controlPlaneTypes \<Longrightarrow> orderly E c u m p"
  shows "session_ok E c u m (w_db w') r'"
proof (cases "d_entity_type d \<in> set controlPlaneTypes")
  case True
  then have "\<not> may_write E (w_db w) u m (d_entity_type d)" using no by (simp add: list_all_iff)
  moreover obtain x r1 w1 where 1: "checkWrite E d r w = (x, r1, w1)" by (cases "checkWrite E d r w") auto
  ultimately have "\<exists>e. x = Inl e"
    using checkWrite_run(3) [OF session_ok_resolver [OF ok]] by (cases x) auto
  moreover have "session_ok E c u m (w_db w1) r1" using orderlyD [OF orderly_checks(3) ok 1] .
  ultimately show ?thesis using run 1 by (auto simp: athen_def abind_def)
next
  case False
  show ?thesis
    by (rule orderlyD [OF orderly_then [OF orderly_checks(3) p [OF False]] ok run])
qed

lemma session_step_ok:
  assumes step: "session_step E g u m (D, r) (D', r')" and ok: "session_ok E c u m D r"
    and hooks: "hooks_keep tables_wf (ge_hooks g)" "hooks_keep (\<lambda>D. control_rows D = c) (ge_hooks g)"
    and rights: "list_all (\<lambda>et. \<not> may_write E D u m et) controlPlaneTypes"
  shows "session_ok E c u m D' r'"
proof -
  have engine: "orderly E c u m (lift (Create E (ge_hooks g) d fo actor))"
    "orderly E c u m (lift (Update E (ge_hooks g) d rid flds ev actor))"
    "orderly E c u m (lift (Delete E d rid actor))"
    if "d_entity_type d \<notin> set controlPlaneTypes" for d fo actor rid flds ev
    by (intro orderly_lift keeps_intro engine_keeps_control [OF that hooks(2)] hooks(1);
        erule Create_error Update_error Delete_error)+
  show ?thesis
    using step
  proof (cases rule: session_stepE [consumes 1, case_names request create update delete])
    case (request actor)
    have "records_wf D" using ok by (simp add: session_ok_def tables_wf_def)
    then show ?thesis using request ok NewResolver_for [of D E actor m] by (simp add: session_ok_def)
  next
    case (create d flds actor w res w')
    show ?thesis
      unfolding create(2)
      by (rule checked_write_ok [OF ok [unfolded create(1)] create(3) [unfolded GuardedCreate_def] rights [unfolded create(1)]])
        (intro orderly_intro engine(1))
  next
    case (update d rid flds ev actor w res w')
    show ?thesis
      unfolding update(2)
      by (rule checked_write_ok [OF ok [unfolded update(1)] update(3) [unfolded GuardedUpdate_def] rights [unfolded update(1)]])
        (intro orderly_intro engine(2))
  next
    case (delete d rid actor w res w')
    show ?thesis
      unfolding delete(2)
      by (rule checked_write_ok [OF ok [unfolded delete(1)] delete(3) [unfolded GuardedDelete_def] rights [unfolded delete(1)]])
        (intro orderly_intro engine(3))
  qed
qed

lemma session_keeps_rights:
  assumes steps: "(session_step E g u m)\<^sup>*\<^sup>* (D, r) (D', r')" and ok: "session_ok E c u m D r"
    and hooks: "hooks_keep tables_wf (ge_hooks g)" "hooks_keep (\<lambda>D. control_rows D = c) (ge_hooks g)"
    and rights: "list_all (\<lambda>et. \<not> may_write E D u m et) controlPlaneTypes"
  shows "session_ok E c u m D' r'"
  using steps
proof (induction rule: rtranclp_induct2)
  case refl
  show ?case by (rule ok)
next
  case (step D1 r1 D2 r2)
  have "control_rows D1 = control_rows D" using ok step.IH by (simp add: session_ok_def)
  from policy_control(2) [OF this] have "list_all (\<lambda>et. \<not> may_write E D1 u m et) controlPlaneTypes"
    using rights by simp
  then show ?case by (rule session_step_ok [OF step(2) step.IH hooks])
qed

end
