(* ===== verification/GuardedReads.thy ===== *)
theory GuardedReads
  imports GuardedRights
begin

text \<open>
  Guarded reads do not depend on hidden fields: on two databases that differ only in what such
  fields of a type's rows hold, they give the same answers.
\<close>

section \<open>Two databases\<close>

text \<open>Rows that differ at most in fields of \<open>h\<close>, and only if they are of the type.\<close>

definition row_alike :: "string \<Rightarrow> string set \<Rightarrow> rrow \<Rightarrow> rrow \<Rightarrow> bool" where
  "row_alike et h r r' \<longleftrightarrow>
     r' = r\<lparr>rr_data := rr_data r'\<rparr> \<and> without h (rr_data r') = without h (rr_data r) \<and>
     (rr_type r \<noteq> et \<longrightarrow> r' = r)"

definition differ_in_hidden :: "string \<Rightarrow> string set \<Rightarrow> db \<Rightarrow> db \<Rightarrow> bool" where
  "differ_in_hidden et h D D' \<longleftrightarrow> list_all2 (row_alike et h) (db_records D) (db_records D')"

lemma row_alike_columns:
  assumes "row_alike et h r r'"
  shows "rr_id r' = rr_id r" "rr_type r' = rr_type r" "rr_version r' = rr_version r"
    "rr_created r' = rr_created r" "rr_deleted r' = rr_deleted r" "live k r' = live k r"
proof -
  have "r' = r\<lparr>rr_data := rr_data r'\<rparr>" using assms by (simp add: row_alike_def)
  then show "rr_id r' = rr_id r" "rr_type r' = rr_type r" "rr_version r' = rr_version r"
    "rr_created r' = rr_created r" "rr_deleted r' = rr_deleted r" "live k r' = live k r"
    unfolding live_def by (metis rrow.select_convs rrow.surjective rrow.update_convs(3))+
qed

lemma get_field_without: "k \<notin> h \<Longrightarrow> get_field (without h f) k = get_field f k"
  by (simp add: get_field_def)

lemma row_alike_get:
  assumes "row_alike et h r r'" "k \<notin> h"
  shows "get_field (rr_data r') k = get_field (rr_data r) k"
  using assms get_field_without [OF assms(2)] unfolding row_alike_def by metis

lemma row_alike_other: "row_alike et h r r' \<Longrightarrow> rr_type r \<noteq> et \<Longrightarrow> r' = r"
  by (simp add: row_alike_def)

lemma row_alike_refl [simp]: "row_alike et h r r"
  by (simp add: row_alike_def)

lemma differ_in_hidden_refl [simp]: "differ_in_hidden et h D D"
  by (simp add: differ_in_hidden_def list_all2_refl)

lemma list_all2_filter_eq:
  assumes "list_all2 R xs ys" "\<And>x y. R x y \<Longrightarrow> Q y = P x"
  shows "list_all2 R (filter P xs) (filter Q ys)"
  using assms(1) by induction (auto simp: assms(2))

lemma list_all2_insort_key:
  assumes "list_all2 R xs ys" "R x y" "\<And>x y. R x y \<Longrightarrow> k' y = k x"
  shows "list_all2 R (insort_key k x xs) (insort_key k' y ys)"
  using assms(1,2) by induction (auto simp: assms(3))

lemma list_all2_sort_key:
  assumes R: "list_all2 R xs ys" and eq: "\<And>x y. R x y \<Longrightarrow> k' y = k x"
  shows "list_all2 R (sort_key k xs) (sort_key k' ys)"
  using R by induction (simp_all add: list_all2_insort_key eq)

lemma list_all2_order_by:
  assumes R: "list_all2 R xs ys" and eq: "\<And>x y. R x y \<Longrightarrow> k' y = k x"
  shows "list_all2 R (order_by k desc xs) (order_by k' desc ys)"
proof -
  let ?s = "filter (\<lambda>r. k r \<noteq> None) xs" and ?s' = "filter (\<lambda>r. k' r \<noteq> None) ys"
  have s: "list_all2 R ?s ?s'" by (rule list_all2_filter_eq [OF R]) (simp add: eq)
  have n: "list_all2 R (filter (\<lambda>r. k r = None) xs) (filter (\<lambda>r. k' r = None) ys)"
    by (rule list_all2_filter_eq [OF R]) (simp add: eq)
  have "list_all2 R (sort_key (\<lambda>r. the (k r)) zs) (sort_key (\<lambda>r. the (k' r)) zs')"
    if "list_all2 R zs zs'" for zs zs'
    by (rule list_all2_sort_key [OF that]) (simp add: eq)
  then show ?thesis unfolding order_by_def Let_def
    using s n by (auto intro!: list_all2_appendI)
qed

section \<open>Queries that look at no hidden field\<close>

definition looks_at_none :: "string set \<Rightarrow> string \<Rightarrow> ListPageOptions \<Rightarrow> bool" where
  "looks_at_none h et opts \<longleftrightarrow>
     lp_sort_field opts \<notin> h \<and> lp_filter_field opts \<notin> h \<and> list_all (\<lambda>(f, _). f \<notin> h) (lp_equals opts) \<and>
     list_all (\<lambda>j. jf_entity j \<noteq> et) (lp_joins opts)"

lemma field_is_alike: "row_alike et h r r' \<Longrightarrow> fst p \<notin> h \<Longrightarrow> field_is E r' p = field_is E r p"
  by (cases p) (simp add: field_is_def arrow_text_def row_alike_get)

lemma join_filter_alike:
  assumes D: "differ_in_hidden et h D D'" and r: "row_alike et h r r'" and j: "jf_entity j \<noteq> et"
  shows "join_filter E D' r' j = join_filter E D r j"
proof -
  let ?P = "\<lambda>x. live (jf_entity j) x \<and> field_is E x (jf_entity_field j, rr_id r) \<and> field_is E x (jf_field j, jf_value j)"
  have "list_ex ?P ys = list_ex ?P xs" if "list_all2 (row_alike et h) xs ys" for xs ys
    using that
  proof induction
    case (Cons x xs y ys)
    have "?P y = ?P x"
    proof (cases "rr_type x = et")
      case True
      then show ?thesis using row_alike_columns(2) [OF Cons(1)] j by (simp add: live_def)
    qed (use Cons(1) row_alike_other in blast)
    then show ?case using Cons(3) by simp
  qed simp
  then show ?thesis using D row_alike_columns(1) [OF r] by (simp add: join_filter_def differ_in_hidden_def)
qed

lemma filterWhereClause_alike:
  assumes D: "differ_in_hidden et h D D'" and r: "row_alike et h r r'" and o: "looks_at_none h et opts"
  shows "filterWhereClause E D' k opts ids r' = filterWhereClause E D k opts ids r"
proof -
  have f: "get_field (rr_data r') (lp_filter_field opts) = get_field (rr_data r) (lp_filter_field opts)"
    using row_alike_get [OF r] o by (simp add: looks_at_none_def)
  have "list_all (field_is E r') (lp_equals opts) = list_all (field_is E r) (lp_equals opts)"
    by (rule list.pred_cong) (use o r in \<open>auto simp: field_is_alike looks_at_none_def list_all_iff\<close>)
  moreover have "list_all (join_filter E D' r') (lp_joins opts) = list_all (join_filter E D r) (lp_joins opts)"
    by (rule list.pred_cong) (use o in \<open>auto simp: join_filter_alike [OF D r] looks_at_none_def list_all_iff\<close>)
  moreover have "text_filter E opts (rr_data r') = text_filter E opts (rr_data r)"
    unfolding text_filter_def arrow_text_def f ..
  ultimately show ?thesis
    by (cases ids) (simp_all add: filterWhereClause_def row_alike_columns [OF r])
qed

lemma sort_rows_alike:
  assumes R: "list_all2 (row_alike et h) xs ys" and o: "looks_at_none h et opts"
  shows "list_all2 (row_alike et h) (sort_rows E opts xs) (sort_rows E opts ys)"
proof -
  have f: "get_field (rr_data y) (lp_sort_field opts) = get_field (rr_data x) (lp_sort_field opts)"
    if "row_alike et h x y" for x y
    using row_alike_get [OF that] o by (simp add: looks_at_none_def)
  have s: "list_all2 (row_alike et h) (sort_key rr_id xs) (sort_key rr_id ys)"
    by (rule list_all2_sort_key [OF R]) (rule row_alike_columns(1))
  show ?thesis
    unfolding sort_rows_def Let_def arrow_text_def
    by (auto intro!: list_all2_order_by [OF s] simp: f row_alike_columns)
qed

lemma query_rows_alike:
  assumes D: "differ_in_hidden et h D D'" and o: "looks_at_none h et opts"
  shows "list_all2 (row_alike et h) (query_rows E D k opts) (query_rows E D' k opts)"
  unfolding query_rows_def
  by (intro sort_rows_alike [OF _ o] list_all2_filter_eq [OF D [unfolded differ_in_hidden_def]])
    (rule filterWhereClause_alike [OF D _ o])

lemma live_rows_alike:
  assumes "differ_in_hidden et h D D'"
  shows "list_all2 (row_alike et h) (filter (live k) (db_records D)) (filter (live k) (db_records D'))"
  by (rule list_all2_filter_eq [OF assms [unfolded differ_in_hidden_def]]) (rule row_alike_columns(6))

text \<open>Alike rows are the same to him who sees them redacted.\<close>

lemma redacted_alike:
  assumes "row_alike et (hidden E D u m et) r r'"
  shows "redacted E D u m et (to_record r') = redacted E D u m et (to_record r)"
  using assms row_alike_columns [OF assms] by (simp add: redacted_def to_record_def row_alike_def)

lemma redacted_rows_alike:
  assumes "list_all2 (row_alike et (hidden E D u m et)) xs ys"
  shows "map (redacted E D u m et) (map to_record ys) = map (redacted E D u m et) (map to_record xs)"
  using assms by induction (simp_all add: redacted_alike)

text \<open>The control plane is the same.\<close>

lemma differ_in_hidden_control:
  assumes D: "differ_in_hidden et h D D'" and et: "et \<notin> set controlPlaneTypes"
  shows "control_rows D' = control_rows D"
proof -
  have "filter (\<lambda>r. rr_type r \<in> set controlPlaneTypes) ys = filter (\<lambda>r. rr_type r \<in> set controlPlaneTypes) xs"
    if "list_all2 (row_alike et h) xs ys" for xs ys
    using that
  proof induction
    case (Cons x xs y ys)
    then show ?case using row_alike_other [OF Cons(1)] row_alike_columns(2) [OF Cons(1)] et
      by (cases "rr_type x = et") simp_all
  qed simp
  then show ?thesis using D by (simp add: control_rows_def differ_in_hidden_def)
qed

section \<open>All guarded reads\<close>

datatype read_request =
    GetOne string | ListAll | ListSome int int | ListMatching ListPageOptions
  | ListLinked string string | CountAll | CountMatching ListPageOptions

datatype read_answer = Records "Record list" | Number int

definition guarded_answer :: "env \<Rightarrow> Definition \<Rightarrow> read_request \<Rightarrow> read_answer am" where
  "guarded_answer E d q =
     (case q of
        GetOne rid \<Rightarrow> abind (GuardedGet E d rid) (\<lambda>r. aret (Records [r]))
      | ListAll \<Rightarrow> abind (GuardedList E d) (\<lambda>rs. aret (Records rs))
      | ListSome limit offset \<Rightarrow> abind (GuardedListPage E d limit offset) (\<lambda>rs. aret (Records rs))
      | ListMatching opts \<Rightarrow> abind (GuardedListPageFiltered E d opts) (\<lambda>rs. aret (Records rs))
      | ListLinked f v \<Rightarrow> abind (GuardedListByField E d f v) (\<lambda>rs. aret (Records rs))
      | CountAll \<Rightarrow> abind (GuardedCount E d) (\<lambda>n. aret (Number n))
      | CountMatching opts \<Rightarrow> abind (GuardedCountFiltered E d opts) (\<lambda>n. aret (Number n)))"

text \<open>The joins of a request go to other types.\<close>

definition joins_elsewhere :: "string \<Rightarrow> read_request \<Rightarrow> bool" where
  "joins_elsewhere et q =
     (case q of
        ListMatching opts \<Rightarrow> list_all (\<lambda>j. jf_entity j \<noteq> et) (lp_joins opts)
      | CountMatching opts \<Rightarrow> list_all (\<lambda>j. jf_entity j \<noteq> et) (lp_joins opts)
      | _ \<Rightarrow> True)"

text \<open>
  \<open>ListByField\<close> filters by a field whether it is hidden or not; here the field is not.
\<close>

definition link_shown :: "string set \<Rightarrow> read_request \<Rightarrow> bool" where
  "link_shown h q = (case q of ListLinked f v \<Rightarrow> f \<notin> h | _ \<Rightarrow> True)"

text \<open>The answer, computed from the database, when the request is allowed.\<close>

definition page_of :: "int \<Rightarrow> int \<Rightarrow> rrow list \<Rightarrow> rrow list" where
  "page_of limit offset rs = take (nat limit) (drop (nat offset) rs)"

definition raw_answer :: "env \<Rightarrow> db \<Rightarrow> string \<Rightarrow> read_request \<Rightarrow> rrow list + int" where
  "raw_answer E D et q =
     (case q of
        GetOne rid \<Rightarrow> Inl (case List.find (\<lambda>r. rr_id r = the (e_uuid E rid) \<and> live et r) (db_records D) of
            Some r \<Rightarrow> [r] | None \<Rightarrow> [])
      | ListAll \<Rightarrow> Inl (sort_key rr_created (filter (live et) (db_records D)))
      | ListSome limit offset \<Rightarrow> Inl (page_of limit offset (by_age (filter (live et) (db_records D))))
      | ListMatching opts \<Rightarrow> Inl (page_of (lp_limit opts) (lp_offset opts) (query_rows E D et opts))
      | ListLinked f v \<Rightarrow> Inl (by_age (filter (\<lambda>r. live et r \<and> field_is E r (f, v)) (db_records D)))
      | CountAll \<Rightarrow> Inr (int (length (filter (live et) (db_records D))))
      | CountMatching opts \<Rightarrow> Inr (int (length (query_rows E D et opts))))"

text \<open>A record of \<open>GetOne\<close> carries the id as it was asked for.\<close>

definition as_asked :: "read_request \<Rightarrow> Record \<Rightarrow> Record" where
  "as_asked q r = (case q of GetOne rid \<Rightarrow> r\<lparr>rec_id := rid\<rparr> | _ \<Rightarrow> r)"

definition shown :: "env \<Rightarrow> db \<Rightarrow> string \<Rightarrow> bool \<Rightarrow> string \<Rightarrow> read_request \<Rightarrow> rrow list + int \<Rightarrow> read_answer" where
  "shown E D u m et q a =
     (case a of Inl rs \<Rightarrow> Records (map (\<lambda>r. as_asked q (redacted E D u m et (to_record r))) rs) | Inr n \<Rightarrow> Number n)"

lemma list_all2_find:
  assumes "list_all2 R xs ys" "\<And>x y. R x y \<Longrightarrow> Q y = P x"
  shows "rel_option R (List.find P xs) (List.find Q ys)"
  using assms(1) by induction (auto simp: assms(2))

lemma raw_answer_alike:
  assumes D: "differ_in_hidden et h D D'"
    and o: "\<And>opts. q = ListMatching opts \<or> q = CountMatching opts \<Longrightarrow> looks_at_none h et opts"
    and l: "link_shown h q"
  shows "rel_sum (list_all2 (row_alike et h)) (=) (raw_answer E D et q) (raw_answer E D' et q)"
proof (cases q)
  case (GetOne rid)
  have "rel_option (row_alike et h) (List.find (\<lambda>r. rr_id r = v \<and> live et r) (db_records D))
      (List.find (\<lambda>r. rr_id r = v \<and> live et r) (db_records D'))" for v
    using D unfolding differ_in_hidden_def by (rule list_all2_find) (simp add: row_alike_columns)
  from this [of "the (e_uuid E rid)"] show ?thesis
    unfolding raw_answer_def GetOne by (cases rule: option.rel_cases) simp_all
next
  case ListAll
  then show ?thesis using list_all2_sort_key [OF live_rows_alike [OF D] row_alike_columns(4)]
    by (simp add: raw_answer_def)
next
  case (ListSome limit offset)
  have "list_all2 (row_alike et h) (by_age (filter (live et) (db_records D))) (by_age (filter (live et) (db_records D')))"
    unfolding by_age_def by (intro list_all2_sort_key live_rows_alike [OF D] row_alike_columns)
  then show ?thesis by (simp add: raw_answer_def page_of_def ListSome)
next
  case (ListMatching opts)
  then show ?thesis using query_rows_alike [OF D o, of opts] by (simp add: raw_answer_def page_of_def)
next
  case (ListLinked f v)
  have f: "f \<notin> h" using l by (simp add: link_shown_def ListLinked)
  have "list_all2 (row_alike et h) (filter (\<lambda>r. live et r \<and> field_is E r (f, v)) (db_records D))
      (filter (\<lambda>r. live et r \<and> field_is E r (f, v)) (db_records D'))"
    by (rule list_all2_filter_eq [OF D [unfolded differ_in_hidden_def]]) (simp add: row_alike_columns(6) field_is_alike f)
  then have "list_all2 (row_alike et h) (by_age (filter (\<lambda>r. live et r \<and> field_is E r (f, v)) (db_records D)))
      (by_age (filter (\<lambda>r. live et r \<and> field_is E r (f, v)) (db_records D')))"
    unfolding by_age_def by (intro list_all2_sort_key row_alike_columns)
  then show ?thesis by (simp add: raw_answer_def ListLinked)
next
  case CountAll
  then show ?thesis using list_all2_lengthD [OF live_rows_alike [OF D]] by (simp add: raw_answer_def)
next
  case (CountMatching opts)
  then show ?thesis using list_all2_lengthD [OF query_rows_alike [OF D o, of opts]] by (simp add: raw_answer_def)
qed

lemma shown_alike:
  assumes "rel_sum (list_all2 (row_alike et (hidden E D u m et))) (=) a b"
  shows "shown E D u m et q b = shown E D u m et q a"
  using assms
proof cases
  case (1 rs rs')
  from 1(3) have "map (\<lambda>r. as_asked q (redacted E D u m et (to_record r))) rs' =
      map (\<lambda>r. as_asked q (redacted E D u m et (to_record r))) rs"
    by induction (simp_all add: redacted_alike)
  then show ?thesis using 1 by (simp add: shown_def)
qed (simp add: shown_def)

section \<open>What an answer is\<close>

lemma hidden_not_empty: "[] \<notin> hidden E D u m et"
  by (simp add: hidden_def)

lemma rejectHiddenSortFilter_triple:
  assumes "records_wf D"
  shows "triple E D (asks u m) (rejectHiddenSortFilter E d opts)
    (\<lambda>_ r. (list_all (\<lambda>j. jf_entity j \<noteq> d_entity_type d) (lp_joins opts) \<longrightarrow>
        looks_at_none (hidden E D u m (d_entity_type d)) (d_entity_type d) opts) \<and> asks u m r)"
  unfolding rejectHiddenSortFilter_def
proof (split if_split, intro conjI impI)
  assume none: "lp_sort_field opts = [] \<and> lp_filter_field opts = [] \<and> lp_equals opts = []"
  show "triple E D (asks u m) (aret ()) (\<lambda>_ r. (list_all (\<lambda>j. jf_entity j \<noteq> d_entity_type d) (lp_joins opts) \<longrightarrow>
        looks_at_none (hidden E D u m (d_entity_type d)) (d_entity_type d) opts) \<and> asks u m r)"
    by (rule triple_ret) (use none hidden_not_empty in \<open>simp add: looks_at_none_def\<close>)
next
  show "triple E D (asks u m) (abind (HiddenFields E (d_entity_type d)) (\<lambda>h.
        if list_ex (\<lambda>f. f \<noteq> [] \<and> f \<in> h) [lp_sort_field opts, lp_filter_field opts]
        then afail (ErrDenied (d_entity_type d))
        else if list_ex (\<lambda>(f, _). f \<in> h) (lp_equals opts) then afail (ErrDenied (d_entity_type d))
        else aret ())) (\<lambda>_ r. (list_all (\<lambda>j. jf_entity j \<noteq> d_entity_type d) (lp_joins opts) \<longrightarrow>
        looks_at_none (hidden E D u m (d_entity_type d)) (d_entity_type d) opts) \<and> asks u m r)"
    by (rule triple_bind [OF HiddenFields_triple [OF assms]])
      (use hidden_not_empty in \<open>auto simp: triple_def afail_def aret_def same_request_def looks_at_none_def
        list_ex_iff list_all_iff\<close>)
qed

lemma checkRead_run:
  assumes "resolver_for E (w_db w) u m r" "checkRead E d r w = (Inr x, r', w')"
  shows "w_db w' = w_db w" "resolver_for E (w_db w) u m r'" "may_read E (w_db w) u m (d_entity_type d)"
proof -
  have "records_wf (w_db w)" using assms(1) by (simp add: resolver_for_def)
  note 1 = triple_run [OF checkRead_triple [OF this] assms]
  show "w_db w' = w_db w" "resolver_for E (w_db w) u m r'" "may_read E (w_db w) u m (d_entity_type d)"
    using 1(1,2) 1(3) [OF refl] by simp_all
qed

lemma redact_run:
  assumes "resolver_for E (w_db w) u m r" "redact E d recs r w = (Inr rs, r', w')"
  shows "rs = map (redacted E (w_db w) u m (d_entity_type d)) recs"
proof -
  have "records_wf (w_db w)" using assms(1) by (simp add: resolver_for_def)
  from triple_run(3) [OF redact_triple [OF this] assms refl] show ?thesis .
qed

lemma rejectHiddenSortFilter_run:
  assumes "resolver_for E (w_db w) u m r" "rejectHiddenSortFilter E d opts r w = (Inr x, r', w')"
  shows "w_db w' = w_db w" "resolver_for E (w_db w) u m r'"
    "list_all (\<lambda>j. jf_entity j \<noteq> d_entity_type d) (lp_joins opts) \<Longrightarrow>
      looks_at_none (hidden E (w_db w) u m (d_entity_type d)) (d_entity_type d) opts"
proof -
  have "records_wf (w_db w)" using assms(1) by (simp add: resolver_for_def)
  note 1 = triple_run [OF rejectHiddenSortFilter_triple [OF this] assms]
  show "w_db w' = w_db w" "resolver_for E (w_db w) u m r'"
    "list_all (\<lambda>j. jf_entity j \<noteq> d_entity_type d) (lp_joins opts) \<Longrightarrow>
      looks_at_none (hidden E (w_db w) u m (d_entity_type d)) (d_entity_type d) opts"
    using 1(1,2) 1(3) [OF refl] by simp_all
qed

text \<open>A query of the raw engine after the checks, answered redacted.\<close>

lemma redact_after:
  assumes r: "resolver_for E (w_db w) u m r" and q: "reads q"
    and run: "abind (lift q) (redact E d) r w = (Inr rs, r', w')"
  obtains recs w2 where "q w = (Inr recs, w2)" "rs = map (redacted E (w_db w) u m (d_entity_type d)) recs"
proof -
  from run obtain recs w2 where q1: "q w = (Inr recs, w2)" and rd: "redact E d recs r w2 = (Inr rs, r', w')"
    by (auto simp: am_iffs)
  have "w_db w2 = w_db w" using readsD [OF q q1] .
  then show thesis using that [OF q1] redact_run [OF _ rd] r by simp
qed

lemma checked_read:
  assumes r: "resolver_for E (w_db w) u m r" and run: "athen (checkRead E d) p r w = (Inr a, r', w')"
  obtains r1 w1 where "may_read E (w_db w) u m (d_entity_type d)" "w_db w1 = w_db w"
    "resolver_for E (w_db w1) u m r1" "p r1 w1 = (Inr a, r', w')"
proof -
  from run obtain x r1 w1 where c: "checkRead E d r w = (Inr x, r1, w1)" and k: "p r1 w1 = (Inr a, r', w')"
    unfolding athen_Inr_iff by blast
  note 1 = checkRead_run [OF r c]
  show thesis by (rule that [OF 1(3,1) _ k]) (simp add: 1)
qed

definition request_fair :: "string set \<Rightarrow> string \<Rightarrow> read_request \<Rightarrow> bool" where
  "request_fair h et q =
     (case q of ListMatching opts \<Rightarrow> looks_at_none h et opts | CountMatching opts \<Rightarrow> looks_at_none h et opts
      | _ \<Rightarrow> True)"

lemma guarded_answer_shown:
  assumes r: "resolver_for E (w_db w) u m r" and run: "guarded_answer E d q r w = (Inr a, r', w')"
  shows "may_read E (w_db w) u m (d_entity_type d)"
    and "joins_elsewhere (d_entity_type d) q \<Longrightarrow>
      request_fair (hidden E (w_db w) u m (d_entity_type d)) (d_entity_type d) q"
    and "a = shown E (w_db w) u m (d_entity_type d) q (raw_answer E (w_db w) (d_entity_type d) q)"
proof -
  let ?et = "d_entity_type d" and ?D = "w_db w"
  let ?a = "shown E ?D u m ?et q (raw_answer E ?D ?et q)"
  have "may_read E ?D u m ?et \<and> (joins_elsewhere ?et q \<longrightarrow> request_fair (hidden E ?D u m ?et) ?et q) \<and> a = ?a"
  proof (cases q)
    case (GetOne rid)
    from run obtain x r1 w1 rec r2 w2 where c: "checkRead E d r w = (Inr x, r1, w1)"
      and g: "abind (lift (Engine_Get E d rid)) (redact1 E d) r1 w1 = (Inr rec, r2, w2)" "a = Records [rec]"
      unfolding guarded_answer_def GetOne GuardedGet_def by (auto simp: abind_Inr_iff athen_Inr_iff)
    note 1 = checkRead_run [OF r c]
    from g obtain rec0 w3 rs r4 w4 where e: "Engine_Get E d rid w1 = (Inr rec0, w3)"
      and rd: "redact E d [rec0] r1 w3 = (Inr rs, r4, w4)" "rec = hd rs"
      unfolding redact1_def by (auto simp: am_iffs)
    have w3: "w_db w3 = ?D" using readsD [OF reads_Engine(1) e] 1(1) by simp
    have rec: "rec = redacted E ?D u m ?et rec0"
      using redact_run [OF _ rd(1)] 1(2) w3 rd(2) by simp
    have "(case List.find (\<lambda>r. rr_id r = the (e_uuid E rid) \<and> live ?et r) (db_records ?D) of
        Some r \<Rightarrow> [r] | None \<Rightarrow> []) = [row] \<Longrightarrow> rec0 = (to_record row)\<lparr>rec_id := rid\<rparr> \<Longrightarrow> ?thesis" for row
      using 1(3) g(2) rec by (simp add: GetOne request_fair_def raw_answer_def shown_def as_asked_def redacted_def)
    moreover obtain row where "List.find (\<lambda>r. rr_id r = the (e_uuid E rid) \<and> live ?et r) (db_records ?D) = Some row"
      "rec0 = (to_record row)\<lparr>rec_id := rid\<rparr>"
      using e 1(1) unfolding Engine_Get_def Get_def get_where_def
      by (auto simp: query_Inr_iff uuid_arg_def to_record_def live_def dest!: find_SomeD split: option.splits)
    ultimately show ?thesis by simp
  next
    case ListAll
    from run obtain rs r2 w2 where g: "athen (checkRead E d) (abind (lift (Engine_List d)) (redact E d)) r w =
        (Inr rs, r2, w2)" "a = Records rs"
      unfolding guarded_answer_def ListAll GuardedList_def by (auto simp: abind_Inr_iff)
    obtain r1 w1 where 1: "may_read E ?D u m ?et" "w_db w1 = ?D" "resolver_for E (w_db w1) u m r1"
      "abind (lift (Engine_List d)) (redact E d) r1 w1 = (Inr rs, r2, w2)"
      using checked_read [OF r g(1)] .
    obtain recs w3 where "Engine_List d w1 = (Inr recs, w3)" "rs = map (redacted E (w_db w1) u m ?et) recs"
      using redact_after [OF 1(3) reads_Engine(2) 1(4)] .
    then show ?thesis using 1(1,2) g(2)
      by (auto simp: ListAll request_fair_def raw_answer_def shown_def as_asked_def Engine_List_def ListTx_def
          query_Inr_iff comp_def)
  next
    case (ListSome limit offset)
    from run obtain rs r2 w2 where g: "athen (checkRead E d) (abind (lift (Engine_ListPage d limit offset)) (redact E d)) r w =
        (Inr rs, r2, w2)" "a = Records rs"
      unfolding guarded_answer_def ListSome GuardedListPage_def by (auto simp: abind_Inr_iff)
    obtain r1 w1 where 1: "may_read E ?D u m ?et" "w_db w1 = ?D" "resolver_for E (w_db w1) u m r1"
      "abind (lift (Engine_ListPage d limit offset)) (redact E d) r1 w1 = (Inr rs, r2, w2)"
      using checked_read [OF r g(1)] .
    obtain recs w3 where "Engine_ListPage d limit offset w1 = (Inr recs, w3)"
      "rs = map (redacted E (w_db w1) u m ?et) recs"
      using redact_after [OF 1(3) reads_Engine(4) 1(4)] .
    then show ?thesis using 1(1,2) g(2)
      by (auto simp: ListSome request_fair_def raw_answer_def shown_def as_asked_def page_of_def
          Engine_ListPage_def ListPage_def query_Inr_iff comp_def split: if_splits)
  next
    case (ListMatching opts)
    from run obtain rs r2 w2 where g: "athen (checkRead E d) (athen (rejectHiddenSortFilter E d opts)
        (abind (lift (Engine_ListPageFiltered E d opts)) (redact E d))) r w = (Inr rs, r2, w2)" "a = Records rs"
      unfolding guarded_answer_def ListMatching GuardedListPageFiltered_def by (auto simp: abind_Inr_iff)
    obtain r1 w1 where 1: "may_read E ?D u m ?et" "w_db w1 = ?D" "resolver_for E (w_db w1) u m r1"
      "athen (rejectHiddenSortFilter E d opts)
        (abind (lift (Engine_ListPageFiltered E d opts)) (redact E d)) r1 w1 = (Inr rs, r2, w2)"
      using checked_read [OF r g(1)] .
    from 1(4) obtain x r3 w3 where rej: "rejectHiddenSortFilter E d opts r1 w1 = (Inr x, r3, w3)"
      and q: "abind (lift (Engine_ListPageFiltered E d opts)) (redact E d) r3 w3 = (Inr rs, r2, w2)"
      unfolding athen_Inr_iff by blast
    note 2 = rejectHiddenSortFilter_run [OF 1(3) rej, unfolded 1(2)]
    have r3: "resolver_for E (w_db w3) u m r3" using 2(1,2) by simp
    obtain recs w4 where e: "Engine_ListPageFiltered E d opts w3 = (Inr recs, w4)"
      "rs = map (redacted E (w_db w3) u m ?et) recs"
      using redact_after [OF r3 reads_Engine(5) q] .
    then show ?thesis using 1(1) 2(1,3) g(2) ListPageFiltered_rows [OF e(1) [unfolded Engine_ListPageFiltered_def]]
      by (simp add: ListMatching request_fair_def joins_elsewhere_def raw_answer_def shown_def as_asked_def
          page_of_def comp_def)
  next
    case (ListLinked f v)
    from run obtain rs r2 w2 where g: "athen (checkRead E d) (abind (lift (Engine_ListByField E d f v)) (redact E d)) r w =
        (Inr rs, r2, w2)" "a = Records rs"
      unfolding guarded_answer_def ListLinked GuardedListByField_def by (auto simp: abind_Inr_iff)
    obtain r1 w1 where 1: "may_read E ?D u m ?et" "w_db w1 = ?D" "resolver_for E (w_db w1) u m r1"
      "abind (lift (Engine_ListByField E d f v)) (redact E d) r1 w1 = (Inr rs, r2, w2)"
      using checked_read [OF r g(1)] .
    obtain recs w3 where "Engine_ListByField E d f v w1 = (Inr recs, w3)"
      "rs = map (redacted E (w_db w1) u m ?et) recs"
      using redact_after [OF 1(3) reads_Engine(7) 1(4)] .
    then show ?thesis using 1(1,2) g(2)
      by (auto simp: ListLinked request_fair_def raw_answer_def shown_def as_asked_def
          Engine_ListByField_def ListByField_def query_Inr_iff comp_def)
  next
    case CountAll
    from run obtain n r2 w2 where g: "athen (checkRead E d) (lift (Engine_Count d)) r w = (Inr n, r2, w2)"
      "a = Number n"
      unfolding guarded_answer_def CountAll GuardedCount_def by (auto simp: abind_Inr_iff)
    obtain r1 w1 where "may_read E ?D u m ?et" "w_db w1 = ?D" "lift (Engine_Count d) r1 w1 = (Inr n, r2, w2)"
      using checked_read [OF r g(1)] .
    then show ?thesis using g(2)
      by (simp add: CountAll request_fair_def raw_answer_def shown_def lift_iff Engine_Count_def
          CountByEntityType_def query_Inr_iff)
  next
    case (CountMatching opts)
    from run obtain n r2 w2 where g: "athen (checkRead E d) (athen (rejectHiddenSortFilter E d opts)
        (lift (Engine_CountFiltered E d opts))) r w = (Inr n, r2, w2)" "a = Number n"
      unfolding guarded_answer_def CountMatching GuardedCountFiltered_def by (auto simp: abind_Inr_iff)
    obtain r1 w1 where 1: "may_read E ?D u m ?et" "w_db w1 = ?D" "resolver_for E (w_db w1) u m r1"
      "athen (rejectHiddenSortFilter E d opts) (lift (Engine_CountFiltered E d opts)) r1 w1 = (Inr n, r2, w2)"
      using checked_read [OF r g(1)] .
    from 1(4) obtain x r3 w3 where rej: "rejectHiddenSortFilter E d opts r1 w1 = (Inr x, r3, w3)"
      and q: "Engine_CountFiltered E d opts w3 = (Inr n, w2)"
      unfolding athen_Inr_iff lift_iff by blast
    note 2 = rejectHiddenSortFilter_run [OF 1(3) rej, unfolded 1(2)]
    have n: "n = int (length (query_rows E ?D ?et opts))"
      using q unfolding Engine_CountFiltered_def 2(1) [symmetric] by (rule CountFiltered_rows)
    then show ?thesis using 1(1) 2(3) g(2)
      by (simp add: CountMatching request_fair_def joins_elsewhere_def raw_answer_def shown_def)
  qed
  then show "may_read E ?D u m ?et" "joins_elsewhere ?et q \<Longrightarrow> request_fair (hidden E ?D u m ?et) ?et q" "a = ?a"
    by blast+
qed

text \<open>Two databases that differ in hidden values give the same answers.\<close>

lemma hidden_no_influence:
  assumes et: "d_entity_type d \<notin> set controlPlaneTypes"
    and D: "differ_in_hidden (d_entity_type d) (hidden E (w_db w) u m (d_entity_type d)) (w_db w) (w_db v)"
    and q: "joins_elsewhere (d_entity_type d) q"
    and l: "link_shown (hidden E (w_db w) u m (d_entity_type d)) q"
    and r: "resolver_for E (w_db w) u m r" "resolver_for E (w_db v) u m r2"
    and run: "guarded_answer E d q r w = (Inr a, r', w')" "guarded_answer E d q r2 v = (Inr b, r3, v')"
  shows "a = b"
proof -
  let ?et = "d_entity_type d" and ?h = "hidden E (w_db w) u m (d_entity_type d)"
  have h: "hidden E (w_db v) u m ?et = ?h"
    by (rule policy_control(3)) (rule differ_in_hidden_control [OF D et])
  have sh: "shown E (w_db v) u m ?et q x = shown E (w_db w) u m ?et q x" for x
    by (cases x) (simp_all add: shown_def redacted_def h)
  have fair: "looks_at_none ?h ?et opts" if "q = ListMatching opts \<or> q = CountMatching opts" for opts
    using guarded_answer_shown(2) [OF r(1) run(1) q] that by (auto simp: request_fair_def)
  show ?thesis
    unfolding guarded_answer_shown(3) [OF r(1) run(1)] guarded_answer_shown(3) [OF r(2) run(2)] sh
    by (rule shown_alike [OF raw_answer_alike [OF D fair l], symmetric])
qed

end
