(* ===== verification/GuardedProps.thy ===== *)
theory GuardedProps
  imports GuardedReads StatusProps
begin

text \<open>
  What access control and the guarded engine guarantee, and a small staff register on which the
  guarantees are exercised: a clerk who may edit employees but not see their salaries.
\<close>

section \<open>Calls that answer, and calls that only read\<close>

text \<open>When no statement fails the resolver's questions are answered.\<close>

definition answers :: "'a am \<Rightarrow> bool" where
  "answers p \<longleftrightarrow> (\<forall>r w. w_faults w = [] \<longrightarrow> (\<exists>x r'. p r w = (Inr x, r', w)))"

definition quiet :: "'a dbm \<Rightarrow> bool" where
  "quiet m \<longleftrightarrow> (\<forall>w. w_faults w = [] \<longrightarrow> (\<exists>x. m w = (Inr x, w)))"

named_theorems answers_intro "calls that answer"

lemma quiet_basic [answers_intro]:
  "quiet (ret x)" "quiet (ListTx et)" "quiet (ListByField E et f v)"
  by (auto simp: quiet_def ret_def ListTx_def ListByField_def query_def stmt_def sent_def faulty_def rbind_def)

lemma quiet_bind [answers_intro]:
  assumes "quiet m" "\<And>x. quiet (f x)" shows "quiet (bindM m f)"
  unfolding quiet_def
proof (intro allI impI)
  fix w :: world assume "w_faults w = []"
  then obtain x where "m w = (Inr x, w)" using assms(1) unfolding quiet_def by blast
  then show "\<exists>x. bindM m f w = (Inr x, w)"
    using assms(2) \<open>w_faults w = []\<close> unfolding quiet_def bindM_def by simp
qed

lemma quiet_if [answers_intro]: "(b \<Longrightarrow> quiet m) \<Longrightarrow> (\<not> b \<Longrightarrow> quiet n) \<Longrightarrow> quiet (if b then m else n)"
  by simp

lemma quiet_any_granted [answers_intro]: "quiet (any_granted E roles)"
  by (induction roles) (auto intro!: answers_intro)

lemma quiet_grants [answers_intro]: "quiet (RoleGrantsForUser E user)"
  unfolding RoleGrantsForUser_def Let_def by (intro answers_intro)

lemma answers_basic [answers_intro]: "answers (aret x)" "answers (modify g)"
  by (simp_all add: answers_def modify_def)

lemma answers_lift [answers_intro]: "quiet m \<Longrightarrow> answers (lift m)"
  unfolding answers_def quiet_def lift_iff by blast

lemma answers_bind [answers_intro]:
  assumes "answers p" "\<And>x. answers (f x)" shows "answers (abind p f)"
  using assms unfolding answers_def abind_Inr_iff by metis

lemma answers_then [answers_intro]: "answers p \<Longrightarrow> answers q \<Longrightarrow> answers (athen p q)"
  unfolding athen_def by (rule answers_bind)

lemma answers_if [answers_intro]: "(b \<Longrightarrow> answers p) \<Longrightarrow> (\<not> b \<Longrightarrow> answers q) \<Longrightarrow> answers (if b then p else q)"
  by simp

lemma answers_with [answers_intro]: "(\<And>r. answers (f r)) \<Longrightarrow> answers (with_res f)"
  by (simp add: answers_def with_res_def)

lemma answers_option [answers_intro]:
  "(\<And>x. answers (f x)) \<Longrightarrow> answers p \<Longrightarrow> answers (case o1 of Some x \<Rightarrow> f x | None \<Rightarrow> p)"
  by (cases o1) simp_all

lemma answers_resolver [answers_intro]:
  "answers (CanRead E et)" "answers (CanWrite E et)" "answers (HiddenFields E et)"
  unfolding CanRead_def CanWrite_def HiddenFields_def resolve_def rbacConfigured_def set_configured_def
    loadRoles_def loadRules_def Let_def
  by (intro answers_intro)+

section \<open>The resolver is the policy\<close>

datatype question = MayRead string | MayWrite string | HiddenOf string

datatype verdict = Allowed bool | Hides "string set"

definition ask :: "env \<Rightarrow> question \<Rightarrow> verdict am" where
  "ask E q =
     (case q of
        MayRead et \<Rightarrow> abind (CanRead E et) (\<lambda>b. aret (Allowed b))
      | MayWrite et \<Rightarrow> abind (CanWrite E et) (\<lambda>b. aret (Allowed b))
      | HiddenOf et \<Rightarrow> abind (HiddenFields E et) (\<lambda>h. aret (Hides h)))"

fun ask_all :: "env \<Rightarrow> question list \<Rightarrow> verdict list am" where
  "ask_all E [] = aret []"
| "ask_all E (q # qs) = abind (ask E q) (\<lambda>v. abind (ask_all E qs) (\<lambda>vs. aret (v # vs)))"

definition policy :: "env \<Rightarrow> db \<Rightarrow> string \<Rightarrow> bool \<Rightarrow> question \<Rightarrow> verdict" where
  "policy E D u m q =
     (case q of
        MayRead et \<Rightarrow> Allowed (may_read E D u m et)
      | MayWrite et \<Rightarrow> Allowed (may_write E D u m et)
      | HiddenOf et \<Rightarrow> Hides (hidden E D u m et))"

lemma ask_triple:
  assumes "records_wf D"
  shows "triple E D (asks u m) (ask E q) (\<lambda>v r. v = policy E D u m q \<and> asks u m r)"
proof (cases q)
  case (MayRead et)
  show ?thesis unfolding ask_def policy_def MayRead question.case
    by (rule triple_bind [OF CanRead_triple [OF assms]]) (auto intro!: triple_ret)
next
  case (MayWrite et)
  show ?thesis unfolding ask_def policy_def MayWrite question.case
    by (rule triple_bind [OF CanWrite_triple [OF assms]]) (auto intro!: triple_ret)
next
  case (HiddenOf et)
  show ?thesis unfolding ask_def policy_def HiddenOf question.case
    by (rule triple_bind [OF HiddenFields_triple [OF assms]]) (auto intro!: triple_ret)
qed

lemma ask_all_triple:
  assumes "records_wf D"
  shows "triple E D (asks u m) (ask_all E qs) (\<lambda>vs r. vs = map (policy E D u m) qs \<and> asks u m r)"
proof (induction qs)
  case Nil
  show ?case by (auto intro!: triple_ret)
next
  case (Cons q qs)
  show ?case
    unfolding ask_all.simps
  proof (rule triple_bind [OF ask_triple [OF assms]])
    fix v
    show "triple E D (\<lambda>r. v = policy E D u m q \<and> asks u m r) (abind (ask_all E qs) (\<lambda>vs. aret (v # vs)))
        (\<lambda>vs r. vs = map (policy E D u m) (q # qs) \<and> asks u m r)"
    proof (cases "v = policy E D u m q")
      case True
      have "triple E D (asks u m) (abind (ask_all E qs) (\<lambda>vs. aret (v # vs)))
        (\<lambda>vs r. vs = map (policy E D u m) (q # qs) \<and> asks u m r)"
        by (rule triple_bind [OF Cons.IH]) (auto intro!: triple_ret simp: True)
      then show ?thesis by (rule triple_weaken) auto
    qed (simp add: triple_def)
  qed
qed

lemma answers_ask_all: "answers (ask_all E qs)"
proof (induction qs)
  case (Cons q qs)
  have "answers (ask E q)" unfolding ask_def by (cases q) (auto intro!: answers_intro)
  then show ?case using Cons.IH by (auto intro!: answers_intro)
qed (auto intro: answers_intro)

text \<open>
  C20. A request's resolver answers every series of questions, in any order and with whatever it
  has loaded and remembered in between, exactly as the access policy reads off the role, grant and
  permission records; it changes nothing, and it fails only when a statement fails.
\<close>

theorem resolver_decides_policy:
  assumes "records_wf (w_db w)" and "ask_all E qs (NewResolver actor m) w = (res, r', w')"
  shows "w_db w' = w_db w \<and> (case res of
      Inr vs \<Rightarrow> vs = map (policy E (w_db w) (a_id actor) m) qs
    | Inl e \<Rightarrow> w_faults w \<noteq> [])"
proof -
  note 1 = triple_run [OF ask_all_triple [OF assms(1)] NewResolver_for [OF assms(1)] assms(2)]
  have "\<exists>vs. res = Inr vs" if "w_faults w = []"
    using answers_ask_all [of E qs, unfolded answers_def, rule_format, OF that, of "NewResolver actor m"]
      assms(2) by auto
  then show ?thesis using 1(1,3) by (cases res) auto
qed

section \<open>A staff register\<close>

text \<open>
  The clerk \<open>u1\<close> holds a role that reads and writes employees but does not see salaries; the
  second employee comes from the source \<open>hr\<close>, which is the system of record for employees.
\<close>

definition doc :: "(string \<times> gval) list \<Rightarrow> fields" where
  "doc kvs = fmap_of_list kvs"

lemma doc_get [simp]:
  "fmlookup (doc kvs) = map_of kvs"
  "get_field (doc kvs) k = (case map_of kvs k of Some v \<Rightarrow> v | None \<Rightarrow> VNil)"
  "str_field (doc kvs) k = (case map_of kvs k of Some (VStr s) \<Rightarrow> s | _ \<Rightarrow> [])"
  "bool_field (doc kvs) k = (case map_of kvs k of Some (VBool b) \<Rightarrow> b | _ \<Rightarrow> False)"
  by (simp_all add: doc_def get_field_def str_field_def bool_field_def fmlookup_of_list
      split: option.split gval.split)

definition employee :: "string \<Rightarrow> string \<Rightarrow> fields" where
  "employee name salary = doc [(''name'', VStr name), (''salary'', VStr salary)]"

definition access_rows :: "rrow list" where
  "access_rows =
     [row_of ''rc'' ''Role'' (doc [(''code'', VStr ''clerk'')]) 1,
      row_of ''g1'' ''UserRole'' (doc [(''user_id'', VStr ''u1''), (''role_id'', VStr ''rc'')]) 1,
      row_of ''p1'' ''Permission'' (doc [(''entity_type'', VStr ''Employee''), (''role_id'', VStr ''rc''),
        (''can_read'', VBool True), (''can_write'', VBool True)]) 1,
      row_of ''h1'' ''FieldPermission'' (doc [(''entity_type'', VStr ''Employee''), (''role_id'', VStr ''rc''),
        (''field_name'', VStr ''salary''), (''hidden'', VBool True)]) 1,
      row_of ''s1'' ''SystemOfRecord'' (doc [(''entity_type'', VStr ''Employee''),
        (''mode'', VStr ''read_only''), (''source_id'', VStr ''hr'')]) 1,
      row_of ''x1'' ''ExternalIdentity'' (doc [(''entity_type'', VStr ''Employee''),
        (''record_id'', VStr ''e2''), (''source_id'', VStr ''hr'')]) 1]"

definition staff_db :: "string \<Rightarrow> string \<Rightarrow> db" where
  "staff_db name salary = empty_db\<lparr>db_records := access_rows @
     [row_of ''e1'' ''Employee'' (employee name salary) 1, row_of ''e2'' ''Employee'' (employee ''Bea'' ''7'') 1]\<rparr>"

definition staff_def :: Definition where
  "staff_def = mk_definition ''Employee'' [mk_field ''name'' FieldString, mk_field ''salary'' FieldString]"

lemma staff_sel [simp]:
  "d_entity_type staff_def = ''Employee''" "d_unique staff_def = []" "d_unique_when staff_def = []"
  "d_fields staff_def = [mk_field ''name'' FieldString, mk_field ''salary'' FieldString]"
  by (simp_all add: staff_def_def mk_definition_def)

lemma sample_world_db [simp]: "w_db (sample_world D) = D" "w_faults (sample_world D) = []"
  by (simp_all add: sample_world_def)

lemma staff_wf: "tables_wf (staff_db n s)" "records_wf (staff_db n s)"
proof -
  show "tables_wf (staff_db n s)"
    by (simp add: tables_wf_parts staff_db_def access_rows_def row_of_def empty_db_def max_int4_def)
  then show "records_wf (staff_db n s)" by (simp add: tables_wf_def)
qed

lemmas staff_rows = staff_db_def access_rows_def row_of_def live_def field_is_def arrow_text_def

lemma staff_role: "holds_role plain_env (staff_db n s) ''u1'' g \<longleftrightarrow>
    g = \<lparr>g_id = ''rc'', g_code = ''clerk'', g_department = []\<rparr>"
  by (cases g) (auto simp: holds_role_def staff_rows)

lemma staff_held [simp]: "held plain_env (staff_db n s) ''u1'' = {''rc''}"
  "is_admin plain_env (staff_db n s) ''u1'' = False"
  by (auto simp: held_def is_admin_def staff_role AdminRoleCode_def)

lemma staff_hidden: "hidden plain_env (staff_db n s) ''u1'' False ''Employee'' = {''salary''}"
proof -
  have "(\<exists>p. rule_for (staff_db n s) ''FieldPermission'' ''Employee'' p \<and> str_field p ''role_id'' = ''rc'' \<and>
      str_field p ''field_name'' = f \<and> bool_field p ''hidden'') \<longleftrightarrow> f = ''salary''" for f
    by (auto simp: rule_for_def staff_rows)
  then show ?thesis by (auto simp: hidden_def)
qed

lemma staff_rights:
  "may_read plain_env (staff_db n s) ''u1'' False ''Employee''"
  "may_write plain_env (staff_db n s) ''u1'' False ''Employee''"
  "list_all (\<lambda>et. \<not> may_write plain_env (staff_db n s) ''u1'' False et) controlPlaneTypes"
proof -
  have g: "granted plain_env (staff_db n s) ''u1'' rights ''Employee''" if "''can_write'' \<in> set rights" for rights
  proof -
    let ?p = "doc [(''entity_type'', VStr ''Employee''), (''role_id'', VStr ''rc''),
        (''can_read'', VBool True), (''can_write'', VBool True)]"
    have "rule_for (staff_db n s) ''Permission'' ''Employee'' ?p" by (simp add: rule_for_def staff_rows)
    moreover have "str_field ?p ''role_id'' \<in> held plain_env (staff_db n s) ''u1'' \<and> bool_field ?p ''can_write''"
      by simp
    ultimately show ?thesis using that unfolding granted_def by blast
  qed
  show "may_read plain_env (staff_db n s) ''u1'' False ''Employee''"
    "may_write plain_env (staff_db n s) ''u1'' False ''Employee''"
    using g by (simp_all add: may_read_def may_write_def systemOnlyWriteTypes_def controlPlaneTypes_def)
  have ruled: "et = ''Employee''" if "ruled (staff_db n s) et" for et
    using that by (auto simp: ruled_def rule_for_def staff_rows)
  have "configured plain_env (staff_db n s)" by (simp add: configured_def staff_rows)
  moreover have "''Employee'' \<notin> set controlPlaneTypes" by (simp add: controlPlaneTypes_def)
  ultimately have "\<not> may_write plain_env (staff_db n s) ''u1'' False et" if "et \<in> set controlPlaneTypes" for et
    using ruled [of et] that by (auto simp: may_write_def)
  then show "list_all (\<lambda>et. \<not> may_write plain_env (staff_db n s) ''u1'' False et) controlPlaneTypes"
    by (simp add: list_all_iff)
qed

lemma clerk_resolver: "resolver_for plain_env (staff_db n s) ''u1'' False (NewResolver sample_actor False)"
  using NewResolver_for [where E = plain_env and actor = sample_actor, OF staff_wf(2)] by (simp add: sample_actor_def)

theorem resolver_decides_policy_witness:
  "\<exists>r' w'. ask_all plain_env [MayWrite ''Employee'', HiddenOf ''Employee'', MayWrite ''Role'', MayRead ''Employee'']
      (NewResolver sample_actor False) (sample_world (staff_db ''Ann'' ''9'')) =
    (Inr [Allowed True, Hides {''salary''}, Allowed False, Allowed True], r', w')"
proof -
  let ?qs = "[MayWrite ''Employee'', HiddenOf ''Employee'', MayWrite ''Role'', MayRead ''Employee'']"
  let ?w = "sample_world (staff_db ''Ann'' ''9'')"
  obtain res r' w' where run: "ask_all plain_env ?qs (NewResolver sample_actor False) ?w = (res, r', w')"
    by (cases "ask_all plain_env ?qs (NewResolver sample_actor False) ?w") auto
  from resolver_decides_policy [OF _ run] show ?thesis
    using run staff_wf(2) staff_rights [of "''Ann''" "''9''"] staff_hidden [of "''Ann''" "''9''"]
    by (cases res) (simp_all add: policy_def sample_actor_def controlPlaneTypes_def)
qed

section \<open>Reads\<close>

text \<open>
  C21. Hidden values do not leak: on two databases that differ only in what the fields hidden from
  a user hold in the rows of a type outside the control plane, every read of that type the guarded
  engine answers him (a record, a list, a sorted and filtered page, a list by one field, a count)
  is the same, provided the joins of a filter go to other types and the field of a list by field is
  not hidden itself, which \<open>ListByField\<close> deliberately does not check. Such a user may read the
  type, and no answer shows him a hidden field.
\<close>

theorem hidden_values_do_not_leak:
  assumes "d_entity_type d \<notin> set controlPlaneTypes" and "joins_elsewhere (d_entity_type d) q"
    and "link_shown (hidden E (w_db w) u m (d_entity_type d)) q"
    and "differ_in_hidden (d_entity_type d) (hidden E (w_db w) u m (d_entity_type d)) (w_db w) (w_db v)"
    and "resolver_for E (w_db w) u m r" and "resolver_for E (w_db v) u m s"
    and "guarded_answer E d q r w = (Inr a, r', w')" and "guarded_answer E d q s v = (Inr b, s', v')"
  shows "a = b \<and> may_read E (w_db w) u m (d_entity_type d) \<and>
    (case a of Number n \<Rightarrow> True
     | Records recs \<Rightarrow> list_all (\<lambda>rec. fBall (fmdom (rec_data rec)) (\<lambda>k.
         k \<notin> hidden E (w_db w) u m (d_entity_type d))) recs)"
proof -
  note shown = guarded_answer_shown(1,3) [OF assms(5,7)]
  have "k \<notin> hidden E (w_db w) u m (d_entity_type d)"
    if in_answer: "Records recs = a" "rec \<in> set recs" "k |\<in>| fmdom (rec_data rec)" for recs rec k
  proof -
    obtain row where "rec = as_asked q (redacted E (w_db w) u m (d_entity_type d) (to_record row))"
      using in_answer(1,2) shown(2) by (auto simp: shown_def split: sum.splits)
    then have "rec_data rec = without (hidden E (w_db w) u m (d_entity_type d)) (rr_data row)"
      by (auto simp: as_asked_def redacted_def to_record_def split: read_request.splits)
    then show ?thesis using in_answer(3) by (auto simp: without_def)
  qed
  then show ?thesis
    using shown(1) hidden_no_influence [OF assms(1,4,2,3,5,6,7,8)]
    by (auto simp: list_all_iff split: read_answer.splits)
qed

lemma allowed_read:
  assumes r: "resolver_for E (w_db w) u m r" and "may_read E (w_db w) u m (d_entity_type d)"
    and "w_faults w = []" and p: "answers p"
  shows "\<exists>x r' w'. athen (checkRead E d) p r w = (Inr x, r', w')"
proof -
  have wf: "records_wf (w_db w)" using r by (simp add: resolver_for_def)
  obtain b r1 where 1: "CanRead E (d_entity_type d) r w = (Inr b, r1, w)"
    using answers_resolver(1) assms(3) unfolding answers_def by blast
  have "b = may_read E (w_db w) u m (d_entity_type d)"
    using triple_run(3) [OF CanRead_triple [OF wf] r 1(1) refl] .
  then have "checkRead E d r w = (Inr (), r1, w)" using assms(2) 1 by (simp add: checkRead_def abind_def)
  moreover obtain x r2 where "p r1 w = (Inr x, r2, w)" using p assms(3) unfolding answers_def by blast
  ultimately show ?thesis unfolding athen_Inr_iff by blast
qed

lemma staff_differ: "differ_in_hidden ''Employee'' {''salary''} (staff_db n s) (staff_db n s')"
proof -
  have "without {''salary''} (employee n s') = without {''salary''} (employee n s)"
    by (rule fmap_ext) (simp add: employee_def)
  then have "list_all2 (row_alike ''Employee'' {''salary''})
      [row_of ''e1'' ''Employee'' (employee n s) 1, row_of ''e2'' ''Employee'' (employee ''Bea'' ''7'') 1]
      [row_of ''e1'' ''Employee'' (employee n s') 1, row_of ''e2'' ''Employee'' (employee ''Bea'' ''7'') 1]"
    by (simp add: row_alike_def row_of_def)
  then show ?thesis
    by (simp add: differ_in_hidden_def staff_db_def list_all2_appendI list_all2_refl)
qed

lemma staff_list:
  "\<exists>a r' w'. guarded_answer plain_env staff_def ListAll (NewResolver sample_actor False)
      (sample_world (staff_db n s)) = (Inr a, r', w')"
proof -
  have list: "answers (abind (lift (Engine_List staff_def)) (redact plain_env staff_def))"
    unfolding redact_def Engine_List_def by (intro answers_intro)
  obtain rs r' w' where "GuardedList plain_env staff_def (NewResolver sample_actor False)
      (sample_world (staff_db n s)) = (Inr rs, r', w')"
    using allowed_read [where d = staff_def and w = "sample_world (staff_db n s)", OF _ _ _ list,
        unfolded sample_world_db staff_sel(1), OF clerk_resolver staff_rights(1) refl]
    unfolding GuardedList_def by blast
  then show ?thesis unfolding guarded_answer_def read_request.case by (simp add: abind_def)
qed

theorem hidden_values_do_not_leak_witness:
  "\<exists>recs r' w' r2 w2.
     guarded_answer plain_env staff_def ListAll (NewResolver sample_actor False)
       (sample_world (staff_db ''Ann'' ''9'')) = (Inr recs, r', w') \<and>
     guarded_answer plain_env staff_def ListAll (NewResolver sample_actor False)
       (sample_world (staff_db ''Ann'' ''99'')) = (Inr recs, r2, w2)"
proof -
  let ?w = "\<lambda>s. sample_world (staff_db ''Ann'' s)" and ?r = "NewResolver sample_actor False"
  obtain a r1 w1 where a: "guarded_answer plain_env staff_def ListAll ?r (?w ''9'') = (Inr a, r1, w1)"
    using staff_list by blast
  obtain b r2 w2 where b: "guarded_answer plain_env staff_def ListAll ?r (?w ''99'') = (Inr b, r2, w2)"
    using staff_list by blast
  have "a = b"
    using hidden_values_do_not_leak [OF _ _ _ _ _ _ a b, of "''u1''" False] staff_differ
    by (simp add: clerk_resolver staff_hidden controlPlaneTypes_def joins_elsewhere_def link_shown_def)
  then show ?thesis using a b by blast
qed

section \<open>Writes\<close>

text \<open>Calls that leave the database alone, whatever they return.\<close>

definition steady :: "'a am \<Rightarrow> bool" where
  "steady p \<longleftrightarrow> (\<forall>r w res r' w'. p r w = (res, r', w') \<longrightarrow> w_db w' = w_db w)"

named_theorems steady_intro "calls that leave the database alone"

lemma steadyD: "steady p \<Longrightarrow> p r w = (res, r', w') \<Longrightarrow> w_db w' = w_db w"
  by (auto simp: steady_def)

lemma steady_basic [steady_intro]: "steady (aret x)" "steady (afail e)" "steady (modify g)"
  by (auto simp: steady_def modify_def)

lemma steady_lift [steady_intro]: "reads m \<Longrightarrow> steady (lift m)"
  unfolding steady_def lift_iff by (blast dest: readsD)

lemma steady_bind [steady_intro]:
  assumes "steady p" "\<And>x. steady (f x)" shows "steady (abind p f)"
  unfolding steady_def
proof (intro allI impI)
  fix r w res r' w' assume run: "abind p f r w = (res, r', w')"
  obtain x r1 w1 where 1: "p r w = (x, r1, w1)" by (cases "p r w") auto
  note db = steadyD [OF assms(1) 1]
  show "w_db w' = w_db w"
  proof (cases x)
    case (Inr y)
    then show ?thesis using run 1 db steadyD [OF assms(2)] by (simp add: abind_def)
  qed (use run 1 db in \<open>simp add: abind_def\<close>)
qed

lemma steady_then [steady_intro]: "steady p \<Longrightarrow> steady q \<Longrightarrow> steady (athen p q)"
  unfolding athen_def by (rule steady_bind)

lemma steady_if [steady_intro]: "(b \<Longrightarrow> steady p) \<Longrightarrow> (\<not> b \<Longrightarrow> steady q) \<Longrightarrow> steady (if b then p else q)"
  by simp

lemma steady_with [steady_intro]: "(\<And>r. steady (f r)) \<Longrightarrow> steady (with_res f)"
  by (simp add: steady_def with_res_def)

lemma steady_option [steady_intro]:
  "(\<And>x. steady (f x)) \<Longrightarrow> steady p \<Longrightarrow> steady (case o1 of Some x \<Rightarrow> f x | None \<Rightarrow> p)"
  by (cases o1) simp_all

lemma steady_list [steady_intro]:
  "steady p \<Longrightarrow> (\<And>x xs. steady (f x xs)) \<Longrightarrow> steady (case l of [] \<Rightarrow> p | x # xs \<Rightarrow> f x xs)"
  by (cases l) simp_all

lemma steady_resolver [steady_intro]:
  "steady (CanRead E et)" "steady (CanWrite E et)" "steady (HiddenFields E et)" "steady (sorRules E et)"
  unfolding CanRead_def CanWrite_def HiddenFields_def resolve_def rbacConfigured_def set_configured_def
    loadRoles_def loadRules_def sorRules_def Let_def
  by (intro steady_intro reads_intro)+

lemma steady_checks [steady_intro]:
  "steady (checkRead E d)" "steady (checkWrite E d)" "steady (checkSoRModeReserved d flds)"
  "steady (checkSoRReadOnly E g d rid)" "steady (redact E d recs)" "steady (redact1 E d rec)"
  "steady (EffectiveWriteFields E d rid flds)"
  unfolding checkRead_def checkWrite_def checkSoRModeReserved_def checkSoRReadOnly_def redact_def
    redact1_def EffectiveWriteFields_def Let_def
  by (intro steady_intro reads_intro)+

lemma steady_sanitize [steady_intro]: "steady (sanitizeTargetConstraintError E e)"
  unfolding sanitizeTargetConstraintError_def by (cases e) (auto intro!: steady_intro)

text \<open>An update or a deletion the guarded engine refuses, or that fails, changes nothing.\<close>

lemma acatch_error:
  assumes "acatch (lift m) h r w = (Inl e, r', w')"
    and "\<And>e w'. m w = (Inl e, w') \<Longrightarrow> w_db w' = w_db w" "\<And>e. steady (h e)"
  shows "w_db w' = w_db w"
proof -
  obtain x w1 where m: "m w = (x, w1)" by (cases "m w") auto
  then obtain e1 where x: "x = Inl e1" using assms(1) by (cases x) (auto simp: acatch_def lift_def)
  then have "h e1 r w1 = (Inl e, r', w')" using m assms(1) by (simp add: acatch_def lift_def)
  from steadyD [OF assms(3) this] assms(2) [OF m [unfolded x]] show ?thesis by simp
qed

lemma GuardedUpdate_error:
  assumes run: "GuardedUpdate E g d rid flds ev actor r w = (Inl e, r', w')"
  shows "w_db w' = w_db w"
proof -
  have "w_db w' = w_db w1" if "acatch (lift (Update E (ge_hooks g) d rid out ev actor))
      (sanitizeTargetConstraintError E) r1 w1 = (Inl e, r', w')" for out r1 w1
    using that by (rule acatch_error) (blast intro: Update_error steady_intro)+
  then show ?thesis
    using run steadyD [OF steady_checks(2)] steadyD [OF steady_checks(3)] steadyD [OF steady_checks(4)]
      steadyD [OF steady_checks(7)]
    unfolding GuardedUpdate_def athen_Inl_iff abind_Inl_iff by metis
qed

lemma GuardedDelete_error:
  assumes run: "GuardedDelete E g d rid actor r w = (Inl e, r', w')"
  shows "w_db w' = w_db w"
  using run steadyD [OF steady_checks(2)] steadyD [OF steady_checks(4)] Delete_error
  unfolding GuardedDelete_def athen_Inl_iff lift_iff by metis

text \<open>
  C22. The records of a read-only source are protected under the spelling of their id that the
  identity has: when a read-only declaration of the type covers the source that an external identity
  names, and that identity's \<open>record_id\<close> is, character by character, the id of the request, neither an
  update nor a deletion by that id through the guarded engine succeeds, whoever asks, unless an
  import from that very source does it; and the refused call changes nothing. (Under another
  spelling of the same uuid the protection fails, as the run below shows.)
\<close>

theorem read_only_sources_protected:
  assumes "resolver_for E (w_db w) u m r" and "externally_owned E (w_db w) (d_entity_type d) rid src"
    and "ge_bypass g \<noteq> src \<or> src = []"
  shows "(\<exists>e r' w'. GuardedUpdate E g d rid flds ev actor r w = (Inl e, r', w') \<and> w_db w' = w_db w) \<and>
    (\<exists>e r' w'. GuardedDelete E g d rid actor r w = (Inl e, r', w') \<and> w_db w' = w_db w)"
proof
  obtain res r1 w1 where up: "GuardedUpdate E g d rid flds ev actor r w = (res, r1, w1)"
    by (cases "GuardedUpdate E g d rid flds ev actor r w") auto
  obtain e where e: "res = Inl e"
  proof (cases res)
    case (Inr v)
    show ?thesis
      by (rule GuardedUpdate_run [OF assms(1) up [unfolded Inr]]) (use assms(2,3) in blast)
  qed (rule that)
  with up GuardedUpdate_error
  show "\<exists>e r' w'. GuardedUpdate E g d rid flds ev actor r w = (Inl e, r', w') \<and> w_db w' = w_db w" by blast
  obtain res2 r2 w2 where de: "GuardedDelete E g d rid actor r w = (res2, r2, w2)"
    by (cases "GuardedDelete E g d rid actor r w") auto
  obtain e2 where "res2 = Inl e2"
  proof (cases res2)
    case (Inr v)
    show ?thesis
      by (rule GuardedDelete_run [OF assms(1) de [unfolded Inr]]) (use assms(2,3) in blast)
  qed (rule that)
  with de GuardedDelete_error
  show "\<exists>e r' w'. GuardedDelete E g d rid actor r w = (Inl e, r', w') \<and> w_db w' = w_db w" by blast
qed

lemma staff_owned: "externally_owned plain_env (staff_db n s) ''Employee'' ''e2'' ''hr''"
proof -
  let ?s = "doc [(''entity_type'', VStr ''Employee''), (''mode'', VStr ''read_only''), (''source_id'', VStr ''hr'')]"
  have "sor_rule ?s \<in> sor_declared plain_env (staff_db n s) ''Employee''"
    unfolding sor_declared_def
    by (rule image_eqI [of _ _ "row_of ''s1'' ''SystemOfRecord'' ?s 1"]) (simp_all add: staff_rows)
  moreover have "so_mode (sor_rule ?s) = ''read_only'' \<and> so_source (sor_rule ?s) = ''hr''"
    by (simp add: sor_rule_def)
  moreover have "\<exists>i \<in> set (db_records (staff_db n s)). live ''ExternalIdentity'' i \<and>
      field_is plain_env i (''record_id'', ''e2'') \<and> str_field (rr_data i) ''entity_type'' = ''Employee'' \<and>
      str_field (rr_data i) ''source_id'' = ''hr''"
    by (simp add: staff_rows)
  ultimately show ?thesis unfolding externally_owned_def by blast
qed

theorem read_only_sources_protected_witness:
  "\<exists>e r' w'. GuardedDelete plain_env (ForImportFrom (Guard Map.empty) ''crm'') staff_def ''e2'' sample_actor
      (NewResolver sample_actor False) (sample_world (staff_db ''Ann'' ''9'')) = (Inl e, r', w') \<and>
    w_db w' = staff_db ''Ann'' ''9''"
proof -
  have r: "resolver_for plain_env (w_db (sample_world (staff_db ''Ann'' ''9''))) ''u1'' False (NewResolver sample_actor False)"
    by (simp add: clerk_resolver)
  show ?thesis
    using read_only_sources_protected [OF r, where d = staff_def and rid = "''e2''" and src = "''hr''"
        and g = "ForImportFrom (Guard Map.empty) ''crm''"]
    by (simp add: staff_owned ForImportFrom_def)
qed

text \<open>The clerk may edit an employee of no source.\<close>

lemma allowed_write:
  assumes r: "resolver_for E (w_db w) u m r" and "may_write E (w_db w) u m (d_entity_type d)"
    and "w_faults w = []"
  obtains r1 where "checkWrite E d r w = (Inr (), r1, w)" "resolver_for E (w_db w) u m r1"
proof -
  have wf: "records_wf (w_db w)" using r by (simp add: resolver_for_def)
  obtain b r1 where 1: "CanWrite E (d_entity_type d) r w = (Inr b, r1, w)"
    using answers_resolver(2) assms(3) unfolding answers_def by blast
  have "b = may_write E (w_db w) u m (d_entity_type d)" and r1: "resolver_for E (w_db w) u m r1"
    using triple_run(3) [OF CanWrite_triple [OF wf] r 1(1) refl] triple_run(2) [OF CanWrite_triple [OF wf] r 1(1)]
    by simp_all
  then have "checkWrite E d r w = (Inr (), r1, w)" using assms(2) 1 by (simp add: checkWrite_def abind_def)
  then show thesis using that r1 by blast
qed

lemma known_hidden:
  assumes r: "resolver_for E (w_db w) u m r" and "w_faults w = []"
  obtains r1 where "HiddenFields E et r w = (Inr (hidden E (w_db w) u m et), r1, w)" "resolver_for E (w_db w) u m r1"
proof -
  have wf: "records_wf (w_db w)" using r by (simp add: resolver_for_def)
  obtain h r1 where 1: "HiddenFields E et r w = (Inr h, r1, w)"
    using answers_resolver(3) assms(2) unfolding answers_def by blast
  show thesis
    using that 1 triple_run(3) [OF HiddenFields_triple [OF wf] r 1(1) refl]
      triple_run(2) [OF HiddenFields_triple [OF wf] r 1(1)] by simp
qed

definition renamed :: "string \<Rightarrow> string \<Rightarrow> fields" where
  "renamed s new = restore {''salary''} (employee ''Ann'' s) (doc [(''name'', VStr new)])"

lemma renamed_get [simp]:
  "get_field (renamed s new) k = (if k = ''salary'' then VStr s else if k = ''name'' then VStr new else VNil)"
  by (simp add: renamed_def get_field_restore employee_def)

lemma renamed_json [simp]: "json_ok_fields (renamed s new)"
proof -
  have "json_ok v" if "fmlookup (renamed s new) k = Some v" for k v
    using that renamed_get [of s new k] by (auto simp: get_field_def split: if_splits)
  then show ?thesis by (auto simp: json_ok_fields_iff)
qed

lemma staff_update:
  assumes "TrimSpace new \<noteq> []" "TrimSpace s \<noteq> []"
  shows "\<exists>w'. Update plain_env Map.empty staff_def ''e1'' (renamed s new) (Some 1) sample_actor
    (sample_world (staff_db ''Ann'' s)) = (Inr 2, w')"
proof -
  let ?w = "sample_world (staff_db ''Ann'' s)"
  obtain w1 where upd: "UpdateTx plain_env ''Employee'' ''e1'' (renamed s new) (Some 1) ?w = (Inr 2, w1)"
      "w_faults w1 = []"
    by (simp add: UpdateTx_def upd_where_def update_hits_def update_row_def sample_world_def staff_rows
      stmt_eval int4_arg_def max_int4_def)
  obtain w2 where aud: "write_audit plain_env ''Employee'' ''e1'' ActionUpdate sample_actor (Some (renamed s new)) w1 =
      (Inr (), w2)" "w_faults w2 = []"
    using upd(2) by (simp add: write_audit_def audit_New_def Actor_Validate_def audit_Insert_def audit_row_def
      nullable_def InputHash_def sample_actor_def stmt_eval)
  have refs: "check_self_references plain_env staff_def ''e1'' (renamed s new) = ret ()"
    "checkReferenceTargetConstraints plain_env staff_def (renamed s new) = ret ()"
    "UpdateUniqueConstraintKeys plain_env staff_def ''e1'' (renamed s new) = ret ()"
    by (simp_all add: check_self_references_def selfReferenceFields_def checkReferenceTargetConstraints_def
      check_field_target_def mk_field_def UpdateUniqueConstraintKeys_def thenM_def)
  have "update_body plain_env Map.empty staff_def ''e1'' (renamed s new) (Some 1) sample_actor ?w = (Inr 2, w2)"
    using aud by (simp add: update_body_def refs upd(1) runHook_def final_version_def thenM_def bindM_def ret_def)
  then have "in_tx (update_body plain_env Map.empty staff_def ''e1'' (renamed s new) (Some 1) sample_actor) ?w = (Inr 2, w2)"
    by (intro in_tx_no_faults) (simp_all add: aud(2))
  moreover have "ValidateRecord cv staff_def (renamed s new) = None" for cv
    using assms by (simp add: ValidateRecord_def validate_field_def validateFieldValue_def mk_field_def too_long_def Let_def)
  ultimately show ?thesis
    by (simp add: Update_def validation_def guardM_def thenM_def bindM_def ret_def)
qed

lemma staff_edit:
  assumes "TrimSpace new \<noteq> []" "TrimSpace s \<noteq> []"
  shows "\<exists>r' w'. GuardedUpdate plain_env (Guard Map.empty) staff_def ''e1'' (doc [(''name'', VStr new)]) (Some 1)
    sample_actor (NewResolver sample_actor False) (sample_world (staff_db ''Ann'' s)) = (Inr 2, r', w')"
proof -
  let ?w = "sample_world (staff_db ''Ann'' s)" and ?r = "NewResolver sample_actor False"
  let ?f = "doc [(''name'', VStr new)]"
  have ok: "resolver_for plain_env (w_db ?w) ''u1'' False ?r" "may_write plain_env (w_db ?w) ''u1'' False (d_entity_type staff_def)"
    "w_faults ?w = []"
    by (simp_all add: clerk_resolver staff_rights)
  obtain r1 where 1: "checkWrite plain_env staff_def ?r ?w = (Inr (), r1, ?w)" "resolver_for plain_env (w_db ?w) ''u1'' False r1"
    by (rule allowed_write [OF ok])
  have 2: "checkSoRModeReserved staff_def ?f r1 ?w = (Inr (), r1, ?w)" by (simp add: checkSoRModeReserved_def)
  have "answers (sorRules plain_env ''Employee'')" unfolding sorRules_def Let_def by (intro answers_intro)
  then obtain rules r2 where rules: "sorRules plain_env ''Employee'' r1 ?w = (Inr rules, r2, ?w)"
    using ok(3) unfolding answers_def by blast
  then have r2: "resolver_for plain_env (w_db ?w) ''u1'' False r2"
    by (rule triple_run(2) [OF sorRules_triple 1(2)])
  have "ListByField plain_env ''ExternalIdentity'' ''record_id'' ''e1'' ?w = (Inr [], ?w)"
    by (simp add: ListByField_def by_age_def sample_world_def staff_rows stmt_eval)
  then have 3: "checkSoRReadOnly plain_env (Guard Map.empty) staff_def ''e1'' r1 ?w = (Inr (), r2, ?w)"
    using rules by (simp add: checkSoRReadOnly_def abind_def aret_def lift_def Let_def List.map_filter_def)
  obtain r3 where 4: "checkWrite plain_env staff_def r2 ?w = (Inr (), r3, ?w)" "resolver_for plain_env (w_db ?w) ''u1'' False r3"
    by (rule allowed_write [OF r2 ok(2,3)])
  obtain r4 where 5: "HiddenFields plain_env ''Employee'' r3 ?w = (Inr {''salary''}, r4, ?w)"
    by (rule known_hidden [OF 4(2) ok(3), of "''Employee''"]) (simp add: staff_hidden)
  have 6: "Engine_Get plain_env staff_def ''e1'' ?w =
      (Inr \<lparr>rec_id = ''e1'', rec_type = ''Employee'', rec_data = employee ''Ann'' s, rec_version = 1\<rparr>, ?w)"
    by (simp add: Engine_Get_def Get_def get_where_def sample_world_def staff_rows stmt_eval uuid_arg_def)
  have "\<not> writes_hidden {''salary''} (employee ''Ann'' s) ?f"
    by (simp add: writes_hidden_def doc_def fmap_of_list.rep_eq fmdom_fmap_of_list)
  then have 7: "EffectiveWriteFields plain_env staff_def ''e1'' ?f r2 ?w = (Inr (renamed s new), r4, ?w)"
    using 4(1) 5 6 by (simp add: EffectiveWriteFields_def athen_def abind_def aret_def lift_def renamed_def)
  obtain w' where 8: "Update plain_env Map.empty staff_def ''e1'' (renamed s new) (Some 1) sample_actor ?w = (Inr 2, w')"
    using staff_update [OF assms] by blast
  show ?thesis
    using 1(1) 2 3 7 8 by (simp add: GuardedUpdate_def athen_def abind_def acatch_def lift_def Guard_def)
qed

text \<open>
  Hidden fields survive an update: when a user updates a record through the guarded engine,
  every field that is hidden from him keeps its stored value, whatever he submits for it, and
  every other field becomes what he submitted; a submission that would change a hidden field does
  not succeed, so nothing of it is applied.
\<close>

theorem hidden_fields_survive_updates:
  assumes "resolver_for E (w_db w) u m r" and "world_wf w" and "ge_hooks g (d_entity_type d) = None"
    and "rid \<noteq> []" and "live_doc E (d_entity_type d) w rid = Some (f0, n)"
    and "GuardedUpdate E g d rid flds ev actor r w = (Inr v, r', w')"
  shows "\<exists>f1. live_doc E (d_entity_type d) w' rid = Some (f1, v) \<and>
    (\<forall>k. get_field f1 k = (if k \<in> hidden E (w_db w) u m (d_entity_type d)
       then json_norm (get_field f0 k) else json_norm (get_field flds k)))"
  using assms by (rule hidden_fields_kept)

theorem hidden_fields_survive_updates_witness:
  "\<exists>r' w' f1. GuardedUpdate plain_env (Guard Map.empty) staff_def ''e1'' (doc [(''name'', VStr ''Bob'')]) (Some 1)
      sample_actor (NewResolver sample_actor False) (sample_world (staff_db ''Ann'' ''9'')) = (Inr 2, r', w') \<and>
    live_doc plain_env ''Employee'' w' ''e1'' = Some (f1, 2) \<and>
    get_field f1 ''salary'' = VStr ''9'' \<and> get_field f1 ''name'' = VStr ''Bob''"
proof -
  let ?w = "sample_world (staff_db ''Ann'' ''9'')"
  obtain r' w' where run: "GuardedUpdate plain_env (Guard Map.empty) staff_def ''e1'' (doc [(''name'', VStr ''Bob'')])
      (Some 1) sample_actor (NewResolver sample_actor False) ?w = (Inr 2, r', w')"
    using staff_edit [of "''Bob''" "''9''"] by (auto simp: trim_eval)
  have r: "resolver_for plain_env (w_db ?w) ''u1'' False (NewResolver sample_actor False)"
    by (simp add: clerk_resolver)
  have doc: "live_doc plain_env (d_entity_type staff_def) ?w ''e1'' = Some (employee ''Ann'' ''9'', 1)"
    by (simp add: live_doc_def sample_world_def staff_rows)
  have wf: "world_wf ?w" using staff_wf(1) by (simp add: world_wf_def)
  obtain f1 where "live_doc plain_env ''Employee'' w' ''e1'' = Some (f1, 2)"
    "\<And>k. get_field f1 k = (if k = ''salary'' then json_norm (get_field (employee ''Ann'' ''9'') k)
       else json_norm (get_field (doc [(''name'', VStr ''Bob'')]) k))"
    using hidden_fields_survive_updates [OF r wf _ _ doc run] staff_hidden [of "''Ann''" "''9''"]
    by (auto simp: Guard_def)
  then show ?thesis using run by (simp add: employee_def)
qed

section \<open>Nobody extends his own rights\<close>

text \<open>
  C23. No self-granted rights: as long as a user may write none of the types access control is made
  of, no history of his requests and guarded writes, of any types, successful or failed, with
  resolvers that remember what they loaded, changes a row of those types; so what he may read and
  write and what is hidden from him stays what it was.
\<close>

theorem no_self_granted_rights:
  assumes "(session_step E g u m)\<^sup>*\<^sup>* (D, r) (D', r')" and "tables_wf D" and "resolver_for E D u m r"
    and "hooks_keep tables_wf (ge_hooks g)"
    and "hooks_keep (\<lambda>D'. control_rows D' = control_rows D) (ge_hooks g)"
    and "list_all (\<lambda>et. \<not> may_write E D u m et) controlPlaneTypes"
  shows "control_rows D' = control_rows D \<and> may_read E D' u m et = may_read E D u m et \<and>
    may_write E D' u m et = may_write E D u m et \<and> hidden E D' u m et = hidden E D u m et"
proof -
  have "session_ok E (control_rows D) u m D r" using assms(2,3) by (simp add: session_ok_def)
  from session_keeps_rights [OF assms(1) this assms(4-6)] have "control_rows D' = control_rows D"
    by (simp add: session_ok_def)
  then show ?thesis using policy_control by blast
qed

theorem no_self_granted_rights_witness:
  "\<exists>r' w' res r2 w2.
     GuardedUpdate plain_env (Guard Map.empty) staff_def ''e1'' (doc [(''name'', VStr ''Bob'')]) (Some 1)
       sample_actor (NewResolver sample_actor False) (sample_world (staff_db ''Ann'' ''9'')) = (Inr 2, r', w') \<and>
     GuardedCreate plain_env (Guard Map.empty) (staff_def\<lparr>d_entity_type := ''Permission''\<rparr>)
       (doc [(''entity_type'', VStr ''Role''), (''role_id'', VStr ''rc''), (''can_write'', VBool True)])
       sample_actor r' w' = (res, r2, w2) \<and>
     control_rows (w_db w2) = control_rows (staff_db ''Ann'' ''9'') \<and>
     \<not> may_write plain_env (w_db w2) ''u1'' False ''Role''"
proof -
  let ?g = "Guard Map.empty" and ?D = "staff_db ''Ann'' ''9''" and ?r = "NewResolver sample_actor False"
  let ?p = "doc [(''entity_type'', VStr ''Role''), (''role_id'', VStr ''rc''), (''can_write'', VBool True)]"
  obtain r' w' where up: "GuardedUpdate plain_env ?g staff_def ''e1'' (doc [(''name'', VStr ''Bob'')])
      (Some 1) sample_actor ?r (sample_world ?D) = (Inr 2, r', w')"
    using staff_edit [of "''Bob''" "''9''"] by (auto simp: trim_eval)
  obtain res r2 w2 where cr: "GuardedCreate plain_env ?g (staff_def\<lparr>d_entity_type := ''Permission''\<rparr>) ?p
      sample_actor r' w' = (res, r2, w2)"
    using prod_cases3 by blast
  let ?step = "session_step plain_env ?g ''u1'' False"
  have "?step (?D, ?r) (w_db w', r')" using session_step.update [OF up] by simp
  moreover have "?step (w_db w', r') (w_db w2, r2)" using session_step.create [OF cr] .
  ultimately have "?step\<^sup>*\<^sup>* (?D, ?r) (w_db w2, r2)"
    by (rule rtranclp.rtrancl_into_rtrancl [OF r_into_rtranclp])
  from no_self_granted_rights [OF this staff_wf(1) clerk_resolver _ _ staff_rights(3), of "''Role''"]
  have "control_rows (w_db w2) = control_rows ?D \<and> \<not> may_write plain_env (w_db w2) ''u1'' False ''Role''"
    using staff_rights(3) [of "''Ann''" "''9''"] by (simp add: Guard_def controlPlaneTypes_def)
  then show ?thesis using up cr by blast
qed

section \<open>The protection goes by the spelling of the id\<close>

text \<open>
  \<open>checkSoRReadOnly\<close> finds the identities of a record by comparing texts with the id of the request,
  the statement that writes the record reads the same id as a uuid.
\<close>

definition id_upper :: string where "id_upper = ''00000000-0000-0000-0000-00000000000A''"

lemma Canonical_id_upper: "Canonical id_upper = Some id_a"
  by (simp add: id_upper_def id_a_def Canonical_def strip_braces_def hyphenate_def hex_eval)
    (simp add: char_of_def bit_Suc bit_0)

lemma id_upper_ne: "id_upper \<noteq> id_a" "id_a \<noteq> id_upper" "id_upper \<noteq> []"
  by (simp_all add: id_upper_def id_a_def)

definition mirror_db :: db where
  "mirror_db = empty_db\<lparr>db_records :=
     [row_of ''s1'' ''SystemOfRecord'' (doc [(''entity_type'', VStr ''Employee''),
        (''mode'', VStr ''read_only''), (''source_id'', VStr ''hr'')]) 1,
      row_of ''x1'' ''ExternalIdentity'' (doc [(''entity_type'', VStr ''Employee''),
        (''record_id'', VStr id_a), (''source_id'', VStr ''hr'')]) 1,
      row_of id_a ''Employee'' (employee ''Ann'' ''9'') 1]\<rparr>"

lemma mirror_wf: "tables_wf mirror_db" "records_wf mirror_db"
proof -
  show "tables_wf mirror_db"
    by (simp add: tables_wf_parts mirror_db_def row_of_def empty_db_def max_int4_def) (simp add: id_a_def)
  then show "records_wf mirror_db" by (simp add: tables_wf_def)
qed

lemma mirror_owned: "externally_owned sample_env mirror_db ''Employee'' id_a ''hr''"
proof -
  let ?s = "doc [(''entity_type'', VStr ''Employee''), (''mode'', VStr ''read_only''), (''source_id'', VStr ''hr'')]"
  have "sor_rule ?s \<in> sor_declared sample_env mirror_db ''Employee''"
    unfolding sor_declared_def
    by (rule image_eqI [of _ _ "row_of ''s1'' ''SystemOfRecord'' ?s 1"])
      (simp_all add: mirror_db_def row_of_def live_def field_is_def arrow_text_def)
  moreover have "so_mode (sor_rule ?s) = ''read_only'' \<and> so_source (sor_rule ?s) = ''hr''"
    by (simp add: sor_rule_def)
  moreover have "\<exists>i \<in> set (db_records mirror_db). live ''ExternalIdentity'' i \<and>
      field_is sample_env i (''record_id'', id_a) \<and> str_field (rr_data i) ''entity_type'' = ''Employee'' \<and>
      str_field (rr_data i) ''source_id'' = ''hr''"
    by (simp add: mirror_db_def row_of_def live_def field_is_def arrow_text_def)
  ultimately show ?thesis unfolding externally_owned_def by blast
qed

lemma mirror_delete:
  "\<exists>w'. Delete sample_env staff_def id_upper sample_actor (sample_world mirror_db) = (Inr (), w') \<and>
    live_doc sample_env ''Employee'' w' id_a = None"
  by (simp add: Delete_def delete_body_def DeleteTx_def deleteUniqueConstraintKeys_def DeleteForRecordTx_def
    in_tx_def write_audit_def audit_New_def Actor_Validate_def audit_Insert_def audit_row_def nullable_def
    InputHash_def sample_actor_def upd_where_def uuid_arg_def live_doc_def sample_world_def mirror_db_def row_of_def
    live_def empty_db_def Canonical_id_upper Canonical_id_a stmt_eval sample_env_def)

text \<open>
  C24. The protection of a read-only source depends on how the id is spelled: an employee mirrored
  from \<open>hr\<close> is protected under its own id, but a request that names it by the same uuid in upper case
  finds no identity, passes the check, and deletes it.
\<close>

theorem other_spelling_passes_protection:
  "externally_owned sample_env mirror_db ''Employee'' id_a ''hr'' \<and>
   (\<exists>r' w'. GuardedDelete sample_env (Guard Map.empty) staff_def id_upper sample_actor
      (NewResolver sample_actor False) (sample_world mirror_db) = (Inr (), r', w') \<and>
     live_doc sample_env ''Employee'' w' id_a = None)"
proof -
  let ?w = "sample_world mirror_db" and ?r = "NewResolver sample_actor False"
  have r: "resolver_for sample_env (w_db ?w) ''u1'' False ?r"
    using NewResolver_for [where E = sample_env and actor = sample_actor, OF mirror_wf(2)]
    by (simp add: sample_actor_def)
  have "\<not> ruled mirror_db ''Employee''"
    by (auto simp: ruled_def rule_for_def mirror_db_def row_of_def live_def)
  then have ok: "may_write sample_env (w_db ?w) ''u1'' False (d_entity_type staff_def)"
    by (simp add: may_write_def systemOnlyWriteTypes_def controlPlaneTypes_def)
  obtain r1 where 1: "checkWrite sample_env staff_def ?r ?w = (Inr (), r1, ?w)"
    by (rule allowed_write [OF r ok]) simp
  have "answers (sorRules sample_env ''Employee'')" unfolding sorRules_def Let_def by (intro answers_intro)
  then obtain rules r2 where rules: "sorRules sample_env ''Employee'' r1 ?w = (Inr rules, r2, ?w)"
    unfolding answers_def using sample_world_db(2) by blast
  have "ListByField sample_env ''ExternalIdentity'' ''record_id'' id_upper ?w = (Inr [], ?w)"
    by (simp add: ListByField_def by_age_def sample_world_def mirror_db_def row_of_def live_def field_is_def
        arrow_text_def id_upper_ne stmt_eval)
  then have "checkSoRReadOnly sample_env (Guard Map.empty) staff_def id_upper r1 ?w = (Inr (), r2, ?w)"
    using rules by (simp add: checkSoRReadOnly_def abind_def aret_def lift_def Let_def List.map_filter_def)
  then show ?thesis
    using 1 mirror_delete mirror_owned by (auto simp: GuardedDelete_def athen_def abind_def lift_def)
qed

end
