(* ===== verification/DefinitionLife.thy ===== *)
theory DefinitionLife
  imports Definitions
begin

text \<open>
  The life of a definition version: what one call does to the registries, the invariant of the
  tables, and the abstract life of a version that every row follows.
\<close>

section \<open>What the calls do\<close>

lemma guarded_tx_error: "thenM (guardM c) (in_tx m) w = (Inl e, w') \<Longrightarrow> w_db w' = w_db w"
  by (erule thenM_guard_error) (rule in_tx_error)

lemma createDraft_error [go_frame]: "createDraft E reg key v text actor w = (Inl e, w') \<Longrightarrow> w_db w' = w_db w"
  and transition_error [go_frame]: "transition E reg key v a b approver actor act w = (Inl e, w') \<Longrightarrow> w_db w' = w_db w"
  unfolding createDraft_def transition_def by (erule guarded_tx_error)+

text \<open>The row an insert adds.\<close>

definition draft_row :: "string \<Rightarrow> Registry \<Rightarrow> string \<Rightarrow> int \<Rightarrow> gval \<Rightarrow> Actor \<Rightarrow> defrow" where
  "draft_row u reg key version v actor =
     \<lparr>df_id = u, df_registry = reg, df_key = key, df_version = version, df_status = StatusDraft,
      df_definition = json_norm v, df_author_type = a_type actor, df_author = a_id actor,
      df_approved_by = None\<rparr>"

lemma createDraft_success:
  assumes "createDraft E reg key version text actor w = (Inr dv, w')"
  obtains v u a where "accountable actor" "a_type actor \<noteq> ActorSystem" "text = Some v"
    "\<forall>r \<in> set (db_defs (w_db w)). \<not> def_at reg key version r" "u \<notin> df_id ` set (db_defs (w_db w))"
    "w_db w' = (w_db w)\<lparr>db_defs := db_defs (w_db w) @ [draft_row u reg key version v actor],
       db_audit := db_audit (w_db w) @ [a]\<rparr>"
    "dv_id dv = u" "dv_key dv = key" "dv_version dv = version" "dv_status dv = StatusDraft"
proof -
  from assms have acc: "accountable actor" and tx: "in_tx
       (bindM (insert_def reg key version text actor) (\<lambda>i.
        bindM (audit_diff text) (\<lambda>diff.
        thenM (write_audit E (auditEntityType reg key) i ActionCreate actor diff)
        (ret \<lparr>dv_id = i, dv_key = key, dv_version = version, dv_status = StatusDraft,
              dv_definition = the text, dv_author_type = a_type actor, dv_author = a_id actor,
              dv_approved_by = []\<rparr>)))) w = (Inr dv, w')"
    by (auto simp: createDraft_def thenM_Inr_iff)
  from tx obtain w1 w2 where db1: "w_db w1 = w_db w" "w_db w' = w_db w2" and body: "(bindM (insert_def reg key version text actor) (\<lambda>i.
        bindM (audit_diff text) (\<lambda>diff.
        thenM (write_audit E (auditEntityType reg key) i ActionCreate actor diff)
        (ret \<lparr>dv_id = i, dv_key = key, dv_version = version, dv_status = StatusDraft,
              dv_definition = the text, dv_author_type = a_type actor, dv_author = a_id actor,
              dv_approved_by = []\<rparr>)))) w1 = (Inr dv, w2)"
    by (rule in_tx_success)
  from body obtain u w3 diff w4 where ins: "insert_def reg key version text actor w1 = (Inr u, w3)"
    and d: "audit_diff text w3 = (Inr diff, w4)"
    and aud: "write_audit E (auditEntityType reg key) u ActionCreate actor diff w4 = (Inr (), w2)"
    and dv: "dv_id dv = u" "dv_key dv = key" "dv_version dv = version" "dv_status dv = StatusDraft"
    by (auto simp: run_iffs)
  have w4: "w_db w4 = w_db w3" using readsD [OF reads_definitions(6) d] .
  obtain v where v: "text = Some v" "a_type actor \<noteq> ActorSystem"
    "\<forall>r \<in> set (db_defs (w_db w)). \<not> def_at reg key version r" "u \<notin> df_id ` set (db_defs (w_db w))"
    "w_db w3 = (w_db w)\<lparr>db_defs := db_defs (w_db w) @ [draft_row u reg key version v actor]\<rparr>"
    using ins db1(1) by (auto simp: insert_def_def run_iffs draft_row_def list_ex_iff split: option.splits if_splits)
  show thesis
    by (rule that [OF acc v(2,1,3,4) _ dv]) (use write_audit_db [OF aud] w4 v(5) db1(2) in simp)
qed

lemma transition_success:
  assumes "transition E reg key version a b approver actor act w = (Inr x, w')"
  obtains r r0 where "accountable actor" "r0 \<in> set (db_defs (w_db w))" "def_at reg key version r0" "df_status r0 = a"
    "List.find (def_at reg key version) (upd_where (\<lambda>r. def_at reg key version r \<and> df_status r = a) (moved b approver)
       (db_defs (w_db w))) = Some r"
    "w_db w' = (w_db w)\<lparr>db_defs := upd_where (\<lambda>r. def_at reg key version r \<and> df_status r = a) (moved b approver)
         (db_defs (w_db w)),
       db_audit := db_audit (w_db w) @ [audit_of E (auditEntityType reg key) (df_id r) act actor
         (Some (fmupd ''status'' (VStr (status_name b)) fmempty))]\<rparr>"
proof -
  let ?body = "bindM (update_status reg key version a b approver) (\<lambda>hit.
        if \<not> hit then fail ErrDefinitionStatus
        else bindM (def_id reg key version) (\<lambda>i.
          write_audit E (auditEntityType reg key) i act actor
            (Some (fmupd ''status'' (VStr (status_name b)) fmempty))))"
  from assms have acc: "accountable actor" and tx: "in_tx ?body w = (Inr x, w')"
    by (auto simp: transition_def thenM_Inr_iff)
  from tx obtain w1 w2 where db1: "w_db w1 = w_db w" "w_db w' = w_db w2" and body: "?body w1 = (Inr x, w2)"
    by (rule in_tx_success)
  from body obtain w3 u w4 where up: "update_status reg key version a b approver w1 = (Inr True, w3)"
    and i: "def_id reg key version w3 = (Inr u, w4)"
    and aud: "write_audit E (auditEntityType reg key) u act actor
            (Some (fmupd ''status'' (VStr (status_name b)) fmempty)) w4 = (Inr x, w2)"
    by (auto simp: bindM_Inr_iff split: if_splits)
  have w3: "w_db w3 = (w_db w)\<lparr>db_defs := upd_where (\<lambda>r. def_at reg key version r \<and> df_status r = a) (moved b approver)
      (db_defs (w_db w))\<rparr>" and hit: "list_ex (\<lambda>r. def_at reg key version r \<and> df_status r = a) (db_defs (w_db w))"
    using up db1(1) by (auto simp: update_status_def run_iffs Let_def split: if_splits)
  obtain r where r: "List.find (def_at reg key version) (db_defs (w_db w3)) = Some r" "u = df_id r"
    using i by (auto simp: def_id_def query_Inr_iff split: option.splits)
  have w4: "w_db w4 = w_db w3" using readsD [OF reads_definitions(5) i] .
  from hit obtain r0 where r0: "r0 \<in> set (db_defs (w_db w))" "def_at reg key version r0" "df_status r0 = a"
    by (auto simp: list_ex_iff)
  have fr: "List.find (def_at reg key version) (upd_where (\<lambda>r. def_at reg key version r \<and> df_status r = a) (moved b approver)
       (db_defs (w_db w))) = Some r"
    using r(1) w3 by simp
  show thesis
    by (rule that [OF acc r0 fr]) (use write_audit_db [OF aud] w4 w3 db1(2) r(2) in simp)
qed

section \<open>The invariant of the registries\<close>

text \<open>
  No two rows of a registry share key and version, and none an id; a version has an approver from
  its approval on, and the audit log has the entry of that approval.
\<close>

definition def_keys :: "db \<Rightarrow> (Registry \<times> string \<times> int) list" where
  "def_keys D = map (\<lambda>r. (df_registry r, df_key r, df_version r)) (db_defs D)"

definition approval_of :: "env \<Rightarrow> defrow \<Rightarrow> string \<Rightarrow> arow \<Rightarrow> bool" where
  "approval_of E r who a \<longleftrightarrow>
     al_type a = auditEntityType (df_registry r) (df_key r) \<and> al_record a = (if df_id r = [] then None else e_uuid E (df_id r)) \<and>
     al_action a = ActionUpdate \<and> al_actor_id a = who \<and>
     al_diff a = Some (fmupd ''status'' (VStr ''approved'') fmempty)"

definition approval_recorded :: "env \<Rightarrow> arow list \<Rightarrow> defrow \<Rightarrow> bool" where
  "approval_recorded E aud r \<longleftrightarrow>
     (case df_approved_by r of
        None \<Rightarrow> df_status r = StatusDraft
      | Some who \<Rightarrow> df_status r \<noteq> StatusDraft \<and> who \<noteq> [] \<and> (\<exists>a \<in> set aud. approval_of E r who a))"

definition registry_ok :: "env \<Rightarrow> db \<Rightarrow> bool" where
  "registry_ok E D \<longleftrightarrow>
     distinct (def_keys D) \<and> distinct (map df_id (db_defs D)) \<and>
     (\<forall>r \<in> set (db_defs D). approval_recorded E (db_audit D) r)"

lemma approval_recorded_mono: "approval_recorded E entries r \<Longrightarrow> approval_recorded E (entries @ rest) r"
  by (auto simp: approval_recorded_def split: option.splits)

lemma same_version_same_row:
  assumes "distinct (def_keys D)" "r \<in> set (db_defs D)" "r' \<in> set (db_defs D)"
    "def_at reg key v r" "def_at reg key v r'"
  shows "r = r'"
  using assms by (auto simp: def_keys_def distinct_map inj_on_def def_at_def)

text \<open>The life of a version: its status, and who approved it.\<close>

inductive def_life :: "DefinitionStatus \<times> string option \<Rightarrow> DefinitionStatus \<times> string option \<Rightarrow> bool" where
  approve: "who \<noteq> [] \<Longrightarrow> def_life (StatusDraft, None) (StatusApproved, Some who)"
| publish: "def_life (StatusApproved, who2) (StatusPublished, who2)"
| rollback: "def_life (StatusPublished, who3) (StatusRolledBack, who3)"

inductive_cases def_lifeE: "def_life (s, a) (s', a')"

definition state_of :: "defrow \<Rightarrow> DefinitionStatus \<times> string option" where
  "state_of r = (df_status r, df_approved_by r)"

text \<open>The same version, later in its life.\<close>

definition later :: "defrow \<Rightarrow> defrow \<Rightarrow> bool" where
  "later r r' \<longleftrightarrow>
     r' = r\<lparr>df_status := df_status r', df_approved_by := df_approved_by r'\<rparr> \<and>
     def_life\<^sup>*\<^sup>* (state_of r) (state_of r')"

lemma later_refl [simp]: "later r r"
  by (simp add: later_def)

lemma later_trans: "later r r1 \<Longrightarrow> later r1 r2 \<Longrightarrow> later r r2"
  unfolding later_def by (metis (no_types, lifting) defrow.surjective defrow.update_convs(5,9) rtranclp_trans)

text \<open>A call of a registry by anyone, successful or not; everything else of the database is free.\<close>

inductive registry_step :: "env \<Rightarrow> db \<Rightarrow> db \<Rightarrow> bool" for E :: env where
  draft: "createDraft E reg key v text actor w = (res, w') \<Longrightarrow> registry_step E (w_db w) (w_db w')"
| approve: "Approve E reg key v actor w = (res2, w') \<Longrightarrow> registry_step E (w_db w) (w_db w')"
| publish: "Publish E reg key v actor w = (res3, w') \<Longrightarrow> registry_step E (w_db w) (w_db w')"
| rollback: "Rollback E reg key v actor w = (res4, w') \<Longrightarrow> registry_step E (w_db w) (w_db w')"
| other: "db_defs D' = db_defs D \<Longrightarrow> \<exists>rest. db_audit D' = db_audit D @ rest \<Longrightarrow> registry_step E D D'"

lemma moved_sel [simp]:
  "df_id (moved b who r) = df_id r" "df_registry (moved b who r) = df_registry r" "df_key (moved b who r) = df_key r"
  "df_version (moved b who r) = df_version r" "df_status (moved b who r) = b"
  "df_approved_by (moved b who r) = (if who = [] then df_approved_by r else Some who)"
  "def_at reg key v (moved b who r) = def_at reg key v r"
  by (simp_all add: moved_def def_at_def)

text \<open>A step of the tables: the rows each transition may move, and what it needs.\<close>

definition move_ok :: "DefinitionStatus \<Rightarrow> DefinitionStatus \<Rightarrow> string \<Rightarrow> bool" where
  "move_ok a b who \<longleftrightarrow>
     a = StatusDraft \<and> b = StatusApproved \<and> who \<noteq> [] \<or> a = StatusApproved \<and> b = StatusPublished \<and> who = [] \<or>
     a = StatusPublished \<and> b = StatusRolledBack \<and> who = []"

definition grows :: "db \<Rightarrow> db \<Rightarrow> bool" where
  "grows D D' \<longleftrightarrow>
     (\<forall>r \<in> set (db_defs D). \<exists>r' \<in> set (db_defs D'). later r r') \<and>
     (\<forall>r' \<in> set (db_defs D'). (\<exists>r \<in> set (db_defs D). later r r') \<or>
        (\<exists>u reg key v x actor. later (draft_row u reg key v x actor) r'))"

lemma grows_refl [simp]: "grows D D"
  by (auto simp: grows_def intro: later_refl)

lemma grows_trans:
  assumes "grows D D1" "grows D1 D2" shows "grows D D2"
  unfolding grows_def
proof (intro conjI ballI)
  fix r assume "r \<in> set (db_defs D)"
  then obtain r1 where "r1 \<in> set (db_defs D1)" "later r r1" using assms(1) unfolding grows_def by blast
  then show "\<exists>r' \<in> set (db_defs D2). later r r'" using assms(2) later_trans unfolding grows_def by blast
next
  fix r2 assume "r2 \<in> set (db_defs D2)"
  then consider r1 where "r1 \<in> set (db_defs D1)" "later r1 r2"
    | "\<exists>u reg key v x actor. later (draft_row u reg key v x actor) r2"
    using assms(2) unfolding grows_def by blast
  then show "(\<exists>r \<in> set (db_defs D). later r r2) \<or> (\<exists>u reg key v x actor. later (draft_row u reg key v x actor) r2)"
  proof cases
    case 1
    then show ?thesis using assms(1) later_trans unfolding grows_def by meson
  qed blast
qed

lemma transition_step:
  assumes ok: "registry_ok E (w_db w)" and mv: "move_ok a b who" and who: "who \<noteq> [] \<Longrightarrow> a_id actor = who"
    and run: "transition E reg key v a b who actor ActionUpdate w = (res, w')"
  shows "registry_ok E (w_db w') \<and> grows (w_db w) (w_db w')"
proof (cases res)
  case (Inl e)
  then have "w_db w' = w_db w" using transition_error run by blast
  then show ?thesis using ok by simp
next
  case (Inr x)
  let ?hit = "\<lambda>r. def_at reg key v r \<and> df_status r = a"
  from run [unfolded Inr] obtain r r0 where t: "accountable actor" "r0 \<in> set (db_defs (w_db w))" "def_at reg key v r0"
    "df_status r0 = a"
    "List.find (def_at reg key v) (upd_where ?hit (moved b who) (db_defs (w_db w))) = Some r"
    "w_db w' = (w_db w)\<lparr>db_defs := upd_where ?hit (moved b who) (db_defs (w_db w)),
       db_audit := db_audit (w_db w) @ [audit_of E (auditEntityType reg key) (df_id r) ActionUpdate actor
         (Some (fmupd ''status'' (VStr (status_name b)) fmempty))]\<rparr>"
    by (rule transition_success)
  have dist: "distinct (def_keys (w_db w))" "distinct (map df_id (db_defs (w_db w)))"
    and rec: "\<And>r. r \<in> set (db_defs (w_db w)) \<Longrightarrow> approval_recorded E (db_audit (w_db w)) r"
    using ok by (auto simp: registry_ok_def)
  have hit: "?hit q \<longleftrightarrow> q = r0" if "q \<in> set (db_defs (w_db w))" for q
    using same_version_same_row [OF dist(1) that t(2)] t(3,4) by blast
  have rows: "upd_where ?hit (moved b who) (db_defs (w_db w)) =
      map (\<lambda>q. if q = r0 then moved b who r0 else q) (db_defs (w_db w))"
    unfolding upd_where_def by (rule map_cong [OF refl]) (use hit in auto)
  have "def_at reg key v r \<and> r \<in> set (upd_where ?hit (moved b who) (db_defs (w_db w)))"
    using t(5) by (auto dest: find_SomeD)
  then have r: "r = moved b who r0"
    using same_version_same_row [OF dist(1) _ t(2) _ t(3)] by (auto simp: rows split: if_splits)
  have st: "def_life (state_of r0) (state_of (moved b who r0))"
    using mv rec [OF t(2)] t(4) unfolding move_ok_def
    by (auto simp: state_of_def approval_recorded_def intro: def_life.intros split: option.splits)
  have lat: "later r0 (moved b who r0)"
    unfolding later_def using st by (auto simp: moved_def)
  have "registry_ok E (w_db w')"
    unfolding registry_ok_def
  proof (intro conjI ballI)
    show "distinct (def_keys (w_db w'))"
    proof -
      have "def_keys (w_db w') = def_keys (w_db w)" by (simp add: def_keys_def t(6) rows comp_def if_distrib cong: if_cong)
      then show ?thesis using dist(1) by simp
    qed
    show "distinct (map df_id (db_defs (w_db w')))"
    proof -
      have "map df_id (db_defs (w_db w')) = map df_id (db_defs (w_db w))" by (simp add: t(6) rows comp_def if_distrib cong: if_cong)
      then show ?thesis using dist(2) by simp
    qed
    fix q assume "q \<in> set (db_defs (w_db w'))"
    then consider "q \<in> set (db_defs (w_db w))" | "q = moved b who r0" by (auto simp: t(6) rows)
    then show "approval_recorded E (db_audit (w_db w')) q"
    proof cases
      case 1
      then show ?thesis using rec approval_recorded_mono by (simp add: t(6))
    next
      case 2
      let ?a = "audit_of E (auditEntityType reg key) (df_id r) ActionUpdate actor
         (Some (fmupd ''status'' (VStr (status_name b)) fmempty))"
      have key: "df_registry r0 = reg" "df_key r0 = key" using t(3) by (simp_all add: def_at_def)
      show ?thesis
      proof (cases "who = []")
        case True
        then show ?thesis using 2 mv rec [OF t(2)] t(4) key unfolding move_ok_def
          by (auto simp: approval_recorded_def t(6) approval_of_def split: option.splits)
      next
        case False
        then have b: "b = StatusApproved" using mv by (auto simp: move_ok_def)
        have "approval_of E q who ?a"
          using 2 who [OF False] key by (simp add: approval_of_def r audit_of_def audit_row_def b status_name_def json_norm_fields_def fmmap_fmupd)
        then show ?thesis using 2 False b by (auto simp: approval_recorded_def t(6))
      qed
    qed
  qed
  moreover have "grows (w_db w) (w_db w')"
    unfolding grows_def
  proof (intro conjI ballI)
    fix q assume q: "q \<in> set (db_defs (w_db w))"
    then have "(if q = r0 then moved b who r0 else q) \<in> set (db_defs (w_db w'))"
      by (auto simp: t(6) rows)
    then show "\<exists>r' \<in> set (db_defs (w_db w')). later q r'"
      by (rule rev_bexI) (use lat in simp)
  next
    fix r' assume "r' \<in> set (db_defs (w_db w'))"
    then have "r' \<in> set (db_defs (w_db w)) \<or> r' = moved b who r0" by (auto simp: t(6) rows)
    then have "\<exists>r \<in> set (db_defs (w_db w)). later r r'" using lat t(2) later_refl by blast
    then show "(\<exists>r \<in> set (db_defs (w_db w)). later r r') \<or>
        (\<exists>u reg key v x actor. later (draft_row u reg key v x actor) r')" ..
  qed
  ultimately show ?thesis ..
qed

lemma draft_step:
  assumes ok: "registry_ok E (w_db w)" and run: "createDraft E reg key v text actor w = (res, w')"
  shows "registry_ok E (w_db w') \<and> grows (w_db w) (w_db w')"
proof (cases res)
  case (Inl e)
  then have "w_db w' = w_db w" using createDraft_error run by blast
  then show ?thesis using ok by simp
next
  case (Inr dv)
  from run [unfolded Inr] obtain x u a where t: "accountable actor"
    "\<forall>r \<in> set (db_defs (w_db w)). \<not> def_at reg key v r" "u \<notin> df_id ` set (db_defs (w_db w))"
    "w_db w' = (w_db w)\<lparr>db_defs := db_defs (w_db w) @ [draft_row u reg key v x actor],
       db_audit := db_audit (w_db w) @ [a]\<rparr>"
    by (rule createDraft_success)
  let ?n = "draft_row u reg key v x actor"
  have "(reg, key, v) \<notin> set (def_keys (w_db w))" using t(2) by (auto simp: def_keys_def def_at_def)
  moreover have "def_keys (w_db w') = def_keys (w_db w) @ [(reg, key, v)]"
    by (simp add: t(4) def_keys_def draft_row_def)
  moreover have "approval_recorded E (db_audit (w_db w')) q" if "q \<in> set (db_defs (w_db w'))" for q
    using that ok approval_recorded_mono unfolding t(4) registry_ok_def
    by (auto simp: approval_recorded_def draft_row_def)
  ultimately have "registry_ok E (w_db w')"
    using ok t(3) unfolding registry_ok_def by (simp add: t(4) draft_row_def)
  moreover have "grows (w_db w) (w_db w')"
    unfolding grows_def
  proof (intro conjI ballI)
    fix r assume "r \<in> set (db_defs (w_db w))"
    then have "r \<in> set (db_defs (w_db w'))" by (simp add: t(4))
    then show "\<exists>r' \<in> set (db_defs (w_db w')). later r r'" using later_refl by blast
  next
    fix r' assume "r' \<in> set (db_defs (w_db w'))"
    then have "r' \<in> set (db_defs (w_db w)) \<or> r' = ?n" by (auto simp: t(4))
    then show "(\<exists>r \<in> set (db_defs (w_db w)). later r r') \<or>
        (\<exists>u reg key v x actor. later (draft_row u reg key v x actor) r')"
      using later_refl by blast
  qed
  ultimately show ?thesis ..
qed

lemma registry_step_ok:
  assumes "registry_step E D D'" "registry_ok E D"
  shows "registry_ok E D' \<and> grows D D'"
  using assms
proof cases
  case (draft reg key v src actor w res w')
  then show ?thesis using draft_step assms(2) by blast
next
  case (approve reg key v actor w res w')
  have "accountable actor \<Longrightarrow> a_id actor \<noteq> []" by (simp add: accountable_def)
  show ?thesis
  proof (cases "a_id actor = []")
    case True
    then have "\<not> accountable actor" by (simp add: accountable_def)
    then obtain e where "res = Inl e"
      using approve(3) by (cases res) (auto simp: Approve_def elim: transition_success)
    then have "w_db w' = w_db w" using approve(3) transition_error unfolding Approve_def by blast
    then show ?thesis using approve(1,2) assms(2) by simp
  next
    case False
    have "registry_ok E (w_db w') \<and> grows (w_db w) (w_db w')"
      by (rule transition_step [OF _ _ _ approve(3) [unfolded Approve_def]])
        (use assms(2) approve(1) False in \<open>simp_all add: move_ok_def\<close>)
    then show ?thesis using approve(1,2) by simp
  qed
next
  case (publish reg key v actor w res w')
  have "registry_ok E (w_db w') \<and> grows (w_db w) (w_db w')"
    by (rule transition_step [OF _ _ _ publish(3) [unfolded Publish_def]])
      (use assms(2) publish(1) in \<open>simp_all add: move_ok_def\<close>)
  then show ?thesis using publish(1,2) by simp
next
  case (rollback reg key v actor w res w')
  have "registry_ok E (w_db w') \<and> grows (w_db w) (w_db w')"
    by (rule transition_step [OF _ _ _ rollback(3) [unfolded Rollback_def]])
      (use assms(2) rollback(1) in \<open>simp_all add: move_ok_def\<close>)
  then show ?thesis using rollback(1,2) by simp
next
  case other
  then show ?thesis using assms(2) approval_recorded_mono
    by (auto simp: registry_ok_def grows_def def_keys_def intro: later_refl)
qed

lemma registry_history:
  assumes "(registry_step E)\<^sup>*\<^sup>* D D'" "registry_ok E D"
  shows "registry_ok E D' \<and> grows D D'"
  using assms
proof (induction rule: rtranclp_induct)
  case (step D1 D2)
  then show ?case using registry_step_ok grows_trans by blast
qed simp

section \<open>The current version\<close>

text \<open>What \<open>getPublished\<close> answers: the published version with the highest number.\<close>

definition current :: "Registry \<Rightarrow> string \<Rightarrow> db \<Rightarrow> defrow option" where
  "current reg key D =
     (case rev (sort_key df_version (published reg key D)) of [] \<Rightarrow> None | r # _ \<Rightarrow> Some r)"

lemma getPublished_current:
  "getPublished reg key w = (Inr dv, w') \<Longrightarrow> \<exists>r. current reg key (w_db w) = Some r \<and> dv = version_of r"
  "getPublished reg key w = (Inl ErrNotFound, w') \<Longrightarrow> current reg key (w_db w) = None"
  by (auto simp: getPublished_def getOne_def current_def query_def stmt_def rbind_def
      split: list.splits if_splits sum.splits)

lemma current_max:
  "current reg key D = None \<longleftrightarrow> published reg key D = []"
  "current reg key D = Some r \<Longrightarrow> r \<in> set (published reg key D) \<and>
     (\<forall>q \<in> set (published reg key D). df_version q \<le> df_version r)"
proof -
  let ?xs = "sort_key df_version (published reg key D)"
  show "current reg key D = None \<longleftrightarrow> published reg key D = []"
  proof -
    have "rev ?xs = [] \<longleftrightarrow> published reg key D = []" by (metis length_0_conv length_rev length_sort)
    then show ?thesis by (cases "rev ?xs") (simp_all add: current_def)
  qed
  assume "current reg key D = Some r"
  then obtain rs where rs: "rev ?xs = r # rs" by (auto simp: current_def split: list.splits)
  then have xs: "?xs = rev rs @ [r]" by (metis rev.simps(2) rev_rev_ident)
  have "sorted (map df_version ?xs)" by simp
  then have "\<forall>q \<in> set ?xs. df_version q \<le> df_version r" unfolding xs by (auto simp: sorted_append)
  then show "r \<in> set (published reg key D) \<and> (\<forall>q \<in> set (published reg key D). df_version q \<le> df_version r)"
    using arg_cong [OF xs, of set] by auto
qed

text \<open>Versions being unique, that describes it.\<close>

lemma published_at: "r \<in> set (published reg key D) \<longleftrightarrow>
    r \<in> set (db_defs D) \<and> def_at reg key (df_version r) r \<and> df_status r = StatusPublished"
  by (auto simp: published_def def_at_def)

lemma current_eq:
  assumes "distinct (def_keys D)" "r \<in> set (published reg key D)"
    and "\<And>q. q \<in> set (published reg key D) \<Longrightarrow> df_version q \<le> df_version r"
  shows "current reg key D = Some r"
proof (cases "current reg key D")
  case None
  then show ?thesis using current_max(1) assms(2) by simp
next
  case (Some q)
  from current_max(2) [OF this] have q: "q \<in> set (published reg key D)" "df_version r \<le> df_version q"
    using assms(2) by blast+
  then have "df_version q = df_version r" using assms(3) by force
  then have "q = r"
    using same_version_same_row [OF assms(1), of q r reg key "df_version r"] q(1) assms(2)
    unfolding published_at by simp
  then show ?thesis using Some by simp
qed

lemma current_cong:
  assumes "distinct (def_keys D)" "distinct (def_keys D')"
    and "set (published reg key D) = set (published reg key D')"
  shows "current reg key D = current reg key D'"
proof (cases "current reg key D'")
  case None
  then show ?thesis using current_max(1) assms(3) by (metis set_empty)
next
  case (Some r)
  have "current reg key D = Some r"
    by (rule current_eq [OF assms(1)]) (use current_max(2) [OF Some] assms(3) in auto)
  then show ?thesis using Some by simp
qed

end
