(* ===== verification/Moduleseed.thy ===== *)
theory Moduleseed
  imports DefinitionLife
begin

text \<open>
  \<open>internal/kernel/moduleseed/moduleseed.go\<close>: driving a module's definitions through the registry,
  from wherever an earlier attempt left them. The code takes any repository with four methods;
  the locale states what they promise, and the registries of \<open>Definitions\<close> keep it.
\<close>

section \<open>The code\<close>

text \<open>\<open>Repo\<close>: the methods the code is handed.\<close>

record Repo =
  GetVersion :: "string \<Rightarrow> int \<Rightarrow> DefinitionVersion dbm"
  CreateDraft :: "string \<Rightarrow> int \<Rightarrow> gval option \<Rightarrow> Actor \<Rightarrow> DefinitionVersion dbm"
  RepoApprove :: "string \<Rightarrow> int \<Rightarrow> Actor \<Rightarrow> unit dbm"
  RepoPublish :: "string \<Rightarrow> int \<Rightarrow> Actor \<Rightarrow> unit dbm"

record Item =
  it_key :: string
  it_version :: int
  it_raw :: "gval option"

definition item_status :: "Repo \<Rightarrow> Item \<Rightarrow> Actor \<Rightarrow> DefinitionStatus dbm" where
  "item_status R i actor =
     catchM (bindM (GetVersion R (it_key i) (it_version i)) (\<lambda>v. ret (dv_status v)))
       (\<lambda>e. if e = ErrNotFound
            then thenM (CreateDraft R (it_key i) (it_version i) (it_raw i) actor) (ret StatusDraft)
            else fail e)"

definition publishOne :: "Repo \<Rightarrow> Item \<Rightarrow> Actor \<Rightarrow> unit dbm" where
  "publishOne R i actor =
     bindM (item_status R i actor) (\<lambda>status.
       if status = StatusPublished \<or> status = StatusRolledBack then ret ()
       else thenM (if status = StatusDraft then RepoApprove R (it_key i) (it_version i) actor else ret ())
              (RepoPublish R (it_key i) (it_version i) actor))"

fun PublishAll :: "Repo \<Rightarrow> Item list \<Rightarrow> Actor \<Rightarrow> unit dbm" where
  "PublishAll R [] actor = ret ()"
| "PublishAll R (i # items) actor = thenM (publishOne R i actor) (PublishAll R items actor)"

section \<open>What a repository promises\<close>

locale versions =
  fixes R :: Repo and stat :: "db \<Rightarrow> string \<times> int \<Rightarrow> DefinitionStatus option" and sound :: "db \<Rightarrow> bool"
  assumes get: "sound (w_db w) \<Longrightarrow> GetVersion R k n w = (Inr v, w') \<Longrightarrow> w_db w' = w_db w \<and> stat (w_db w) (k, n) = Some (dv_status v)"
    and get_fails: "GetVersion R k n w = (Inl e, w') \<Longrightarrow> w_db w' = w_db w"
    and create: "sound (w_db w) \<Longrightarrow> CreateDraft R k n t actor w = (Inr v, w') \<Longrightarrow>
      sound (w_db w') \<and> stat (w_db w) (k, n) = None \<and> stat (w_db w') = (stat (w_db w))((k, n) \<mapsto> StatusDraft)"
    and approve: "sound (w_db w) \<Longrightarrow> RepoApprove R k n actor w = (Inr u, w') \<Longrightarrow>
      sound (w_db w') \<and> stat (w_db w) (k, n) = Some StatusDraft \<and> stat (w_db w') = (stat (w_db w))((k, n) \<mapsto> StatusApproved)"
    and publish: "sound (w_db w) \<Longrightarrow> RepoPublish R k n actor w = (Inr u, w') \<Longrightarrow>
      sound (w_db w') \<and> stat (w_db w) (k, n) = Some StatusApproved \<and> stat (w_db w') = (stat (w_db w))((k, n) \<mapsto> StatusPublished)"
begin

definition settled :: "db \<Rightarrow> Item \<Rightarrow> bool" where
  "settled D i \<longleftrightarrow> stat D (it_key i, it_version i) \<in> {Some StatusPublished, Some StatusRolledBack}"

lemma item_status_run:
  assumes "sound (w_db w)" "item_status R i actor w = (Inr st, w')"
  shows "sound (w_db w') \<and> stat (w_db w') (it_key i, it_version i) = Some st \<and>
    (\<forall>x. x \<noteq> (it_key i, it_version i) \<longrightarrow> stat (w_db w') x = stat (w_db w) x) \<and>
    (settled (w_db w) i \<longrightarrow> w_db w' = w_db w)"
proof -
  obtain r w1 where g: "GetVersion R (it_key i) (it_version i) w = (r, w1)"
    by (cases "GetVersion R (it_key i) (it_version i) w") auto
  show ?thesis
  proof (cases r)
    case (Inr v)
    with g assms(2) have "st = dv_status v" "w' = w1" by (simp_all add: item_status_def catchM_def bindM_def ret_def)
    then show ?thesis using get [OF assms(1) g [unfolded Inr]] assms(1) by simp
  next
    case (Inl e)
    with g assms(2) obtain v where c: "CreateDraft R (it_key i) (it_version i) (it_raw i) actor w1 = (Inr v, w')"
      and st: "st = StatusDraft"
      by (auto simp: item_status_def catchM_def bindM_def thenM_def split: if_splits prod.splits sum.splits)
    have w1: "w_db w1 = w_db w" using get_fails g Inl by blast
    show ?thesis using create [OF _ c] w1 st assms(1) by (auto simp: settled_def)
  qed
qed

lemma publishOne_run:
  assumes s: "sound (w_db w)" and run: "publishOne R i actor w = (Inr u, w')"
  shows "sound (w_db w') \<and> settled (w_db w') i \<and>
    (\<forall>x. x \<noteq> (it_key i, it_version i) \<longrightarrow> stat (w_db w') x = stat (w_db w) x) \<and>
    (settled (w_db w) i \<longrightarrow> w_db w' = w_db w)"
proof -
  from run obtain st w1 where st: "item_status R i actor w = (Inr st, w1)"
    and k: "(if st = StatusPublished \<or> st = StatusRolledBack then ret ()
       else thenM (if st = StatusDraft then RepoApprove R (it_key i) (it_version i) actor else ret ())
              (RepoPublish R (it_key i) (it_version i) actor)) w1 = (Inr u, w')"
    unfolding publishOne_def bindM_Inr_iff by blast
  note 1 = item_status_run [OF s st]
  show ?thesis
  proof (cases "st = StatusPublished \<or> st = StatusRolledBack")
    case True
    then show ?thesis using k 1 by (auto simp: settled_def)
  next
    case False
    then have nd: "\<not> settled (w_db w) i" using 1 by (auto simp: settled_def)
    from False k obtain u2 w2 where ap: "(if st = StatusDraft then RepoApprove R (it_key i) (it_version i) actor
        else ret ()) w1 = (Inr u2, w2)" and pu: "RepoPublish R (it_key i) (it_version i) actor w2 = (Inr u, w')"
      by (auto simp: thenM_Inr_iff)
    have 2: "sound (w_db w2) \<and> (\<forall>x. x \<noteq> (it_key i, it_version i) \<longrightarrow> stat (w_db w2) x = stat (w_db w1) x)"
    proof (cases "st = StatusDraft")
      case True
      then show ?thesis using approve [of w1] ap 1 by (auto split: if_splits)
    qed (use ap 1 in auto)
    show ?thesis using publish [OF _ pu] 1 2 nd by (auto simp: settled_def)
  qed
qed

lemma done_kept:
  assumes "\<forall>x. x \<noteq> (it_key i, it_version i) \<longrightarrow> stat D' x = stat D x" "settled D' i" "settled D j"
  shows "settled D' j"
  using assms by (cases "(it_key j, it_version j) = (it_key i, it_version i)") (auto simp: settled_def)

lemma PublishAll_run:
  assumes "sound (w_db w)" "PublishAll R items actor w = (Inr u, w')"
  shows "sound (w_db w') \<and> (\<forall>i \<in> set items. settled (w_db w') i) \<and> (\<forall>j. settled (w_db w) j \<longrightarrow> settled (w_db w') j) \<and>
    ((\<forall>i \<in> set items. settled (w_db w) i) \<longrightarrow> w_db w' = w_db w)"
  using assms
proof (induction items arbitrary: w)
  case (Cons i items)
  then obtain u1 w1 where 1: "publishOne R i actor w = (Inr u1, w1)" "PublishAll R items actor w1 = (Inr u, w')"
    by (auto simp: thenM_Inr_iff)
  note one = publishOne_run [OF Cons.prems(1) 1(1)]
  note rest = Cons.IH [OF _ 1(2)]
  have keep: "settled (w_db w1) j" if "settled (w_db w) j" for j using done_kept one that by blast
  then show ?case using one rest by (metis set_ConsD list.set_intros)
qed simp

end

section \<open>The registries keep the promise\<close>

definition registry_repo :: "env \<Rightarrow> Registry \<Rightarrow> Repo" where
  "registry_repo E reg =
     \<lparr>GetVersion = getVersion reg, CreateDraft = createDraft E reg, RepoApprove = Approve E reg,
      RepoPublish = Publish E reg\<rparr>"

definition version_status :: "Registry \<Rightarrow> db \<Rightarrow> string \<times> int \<Rightarrow> DefinitionStatus option" where
  "version_status reg D = (\<lambda>(k, n). map_option df_status (List.find (def_at reg k n) (db_defs D)))"

lemma version_status_Some:
  assumes "distinct (def_keys D)"
  shows "version_status reg D (k, n) = Some s \<longleftrightarrow> (\<exists>r \<in> set (db_defs D). def_at reg k n r \<and> df_status r = s)"
proof
  assume "version_status reg D (k, n) = Some s"
  then show "\<exists>r \<in> set (db_defs D). def_at reg k n r \<and> df_status r = s"
    by (auto simp: version_status_def dest: find_SomeD)
next
  assume "\<exists>r \<in> set (db_defs D). def_at reg k n r \<and> df_status r = s"
  then obtain r where r: "r \<in> set (db_defs D)" "def_at reg k n r" "df_status r = s" by blast
  then obtain q where q: "List.find (def_at reg k n) (db_defs D) = Some q"
    by (cases "List.find (def_at reg k n) (db_defs D)") (auto simp: find_None_iff)
  then have "q = r" using same_version_same_row [OF assms _ r(1) _ r(2)] find_SomeD by metis
  then show "version_status reg D (k, n) = Some s" using q r(3) by (simp add: version_status_def)
qed

lemma find_append:
  "List.find P (xs @ ys) = (case List.find P xs of Some x \<Rightarrow> Some x | None \<Rightarrow> List.find P ys)"
  by (induction xs) auto

lemma Approve_run:
  assumes ok: "registry_ok E (w_db w)" and mv: "move_ok a b who" "who \<noteq> [] \<Longrightarrow> a_id actor = who"
    and run: "transition E reg k n a b who actor ActionUpdate w = (Inr u, w')"
  shows "registry_ok E (w_db w') \<and> version_status reg (w_db w) (k, n) = Some a \<and>
    version_status reg (w_db w') = (version_status reg (w_db w))((k, n) \<mapsto> b)"
proof -
  obtain r :: defrow and r0 where t: "r0 \<in> set (db_defs (w_db w))" "def_at reg k n r0" "df_status r0 = a"
    "w_db w' = (w_db w)\<lparr>db_defs := upd_where (\<lambda>r. def_at reg k n r \<and> df_status r = a) (moved b who)
         (db_defs (w_db w)),
       db_audit := db_audit (w_db w) @ [audit_of E (auditEntityType reg k) (df_id r) ActionUpdate actor
         (Some (fmupd ''status'' (VStr (status_name b)) fmempty))]\<rparr>"
    by (rule transition_success [OF run], rule that, assumption+)
  have ok': "registry_ok E (w_db w')" using transition_step [OF ok mv run] by blast
  have d: "distinct (def_keys (w_db w))" "distinct (def_keys (w_db w'))"
    using ok ok' by (auto simp: registry_ok_def)
  have one: "q = r0" if "q \<in> set (db_defs (w_db w))" "def_at reg k n q" for q
    using same_version_same_row [OF d(1) that(1) t(1) that(2) t(2)] .
  have iff: "version_status reg (w_db w') (k', n') = Some s \<longleftrightarrow>
      ((version_status reg (w_db w))((k, n) \<mapsto> b)) (k', n') = Some s" for k' n' s
  proof (cases "(k', n') = (k, n)")
    case True
    let ?m = "moved b who r0"
    have m: "?m \<in> set (db_defs (w_db w'))"
      unfolding t(4) using t(1-3) by (auto simp: in_upd_where intro!: bexI [of _ r0])
    have "q = ?m" if q: "q \<in> set (db_defs (w_db w'))" "def_at reg k n q" for q
    proof -
      obtain p where p: "p \<in> set (db_defs (w_db w))"
        "q = (if def_at reg k n p \<and> df_status p = a then moved b who p else p)"
        using q(1) unfolding t(4) by (auto simp: in_upd_where)
      then have "def_at reg k n p" using q(2) by (auto split: if_splits)
      then have "p = r0" using one p(1) by blast
      then show ?thesis using p(2) t(2,3) by simp
    qed
    then have "(\<exists>q \<in> set (db_defs (w_db w')). def_at reg k n q \<and> df_status q = s) \<longleftrightarrow> b = s"
      using m t(2) by (metis moved_sel(5,7))
    then show ?thesis using True by (simp add: version_status_Some [OF d(2)])
  next
    case False
    then have off: "\<not> def_at reg k n q" if "def_at reg k' n' q" for q using that by (auto simp: def_at_def)
    have same: "q \<in> set (db_defs (w_db w')) \<longleftrightarrow> q \<in> set (db_defs (w_db w))" if q: "def_at reg k' n' q" for q
    proof
      assume "q \<in> set (db_defs (w_db w'))"
      then obtain p where p: "p \<in> set (db_defs (w_db w))"
        "q = (if def_at reg k n p \<and> df_status p = a then moved b who p else p)"
        unfolding t(4) by (auto simp: in_upd_where)
      have "\<not> def_at reg k n p" using off [OF q] p(2) by (auto split: if_splits)
      then show "q \<in> set (db_defs (w_db w))" using p by simp
    next
      assume "q \<in> set (db_defs (w_db w))"
      then show "q \<in> set (db_defs (w_db w'))"
        using off [OF q] unfolding t(4) by (auto simp: in_upd_where intro!: bexI [of _ q])
    qed
    have "(\<exists>q \<in> set (db_defs (w_db w')). def_at reg k' n' q \<and> df_status q = s) \<longleftrightarrow>
        (\<exists>q \<in> set (db_defs (w_db w)). def_at reg k' n' q \<and> df_status q = s)"
      using same by blast
    then show ?thesis using False by (auto simp: version_status_Some [OF d(2)] version_status_Some [OF d(1)])
  qed
  have "version_status reg (w_db w') x = ((version_status reg (w_db w))((k, n) \<mapsto> b)) x" for x
    using iff by (cases x) (metis option.exhaust)
  then show ?thesis using ok' t(1-3) version_status_Some [OF d(1)] by blast
qed

interpretation registry: versions "registry_repo E reg" "version_status reg" "registry_ok E"
proof unfold_locales
  fix w k n v w' assume ok: "registry_ok E (w_db w)" and "GetVersion (registry_repo E reg) k n w = (Inr v, w')"
  then have run: "getVersion reg k n w = (Inr v, w')" by (simp add: registry_repo_def)
  then obtain r rs where "filter (def_at reg k n) (db_defs (w_db w)) = r # rs" "v = version_of r"
    by (auto simp: getVersion_def getOne_def query_Inr_iff split: if_splits list.splits)
  then have "r \<in> set (db_defs (w_db w))" "def_at reg k n r" "dv_status v = df_status r"
    by (auto simp: filter_eq_Cons_iff version_of_def)
  then show "w_db w' = w_db w \<and> version_status reg (w_db w) (k, n) = Some (dv_status v)"
    using ok readsD [OF reads_definitions(2) run] by (auto simp: version_status_Some registry_ok_def)
next
  fix k n w e w' assume "GetVersion (registry_repo E reg) k n w = (Inl e, w')"
  then show "w_db w' = w_db w" using readsD [OF reads_definitions(2)] by (simp add: registry_repo_def)
next
  fix w k n t actor v w' assume ok: "registry_ok E (w_db w)"
    and "CreateDraft (registry_repo E reg) k n t actor w = (Inr v, w')"
  then have run: "createDraft E reg k n t actor w = (Inr v, w')" by (simp add: registry_repo_def)
  obtain x u a where c: "\<forall>r \<in> set (db_defs (w_db w)). \<not> def_at reg k n r"
    "w_db w' = (w_db w)\<lparr>db_defs := db_defs (w_db w) @ [draft_row u reg k n x actor], db_audit := db_audit (w_db w) @ [a]\<rparr>"
    by (rule createDraft_success [OF run], rule that, assumption+)
  have none: "List.find (def_at reg k n) (db_defs (w_db w)) = None"
    using c(1) by (auto simp: find_None_iff)
  have "List.find (def_at reg k' n') (db_defs (w_db w')) =
      (case List.find (def_at reg k' n') (db_defs (w_db w)) of Some q \<Rightarrow> Some q
       | None \<Rightarrow> if (k', n') = (k, n) then Some (draft_row u reg k n x actor) else None)" for k' n'
    by (auto simp: c(2) find_append def_at_def draft_row_def split: option.split)
  then have "version_status reg (w_db w') x = ((version_status reg (w_db w))((k, n) \<mapsto> StatusDraft)) x" for x
    using none by (cases x) (auto simp: version_status_def draft_row_def split: option.split)
  then show "registry_ok E (w_db w') \<and> version_status reg (w_db w) (k, n) = None \<and>
      version_status reg (w_db w') = (version_status reg (w_db w))((k, n) \<mapsto> StatusDraft)"
    using draft_step [OF ok run] none by (auto simp: version_status_def)
next
  fix w k n actor u w' assume ok: "registry_ok E (w_db w)"
    and "RepoApprove (registry_repo E reg) k n actor w = (Inr u, w')"
  then have run: "transition E reg k n StatusDraft StatusApproved (a_id actor) actor ActionUpdate w = (Inr u, w')"
    by (simp add: registry_repo_def Approve_def)
  then have "a_id actor \<noteq> []" by (auto simp: accountable_def elim: transition_success)
  then show "registry_ok E (w_db w') \<and> version_status reg (w_db w) (k, n) = Some StatusDraft \<and>
      version_status reg (w_db w') = (version_status reg (w_db w))((k, n) \<mapsto> StatusApproved)"
    using Approve_run [OF ok _ _ run] by (simp add: move_ok_def)
next
  fix w k n actor u w' assume ok: "registry_ok E (w_db w)"
    and "RepoPublish (registry_repo E reg) k n actor w = (Inr u, w')"
  then have "transition E reg k n StatusApproved StatusPublished [] actor ActionUpdate w = (Inr u, w')"
    by (simp add: registry_repo_def Publish_def)
  from Approve_run [OF ok _ _ this] show "registry_ok E (w_db w') \<and> version_status reg (w_db w) (k, n) = Some StatusApproved \<and>
      version_status reg (w_db w') = (version_status reg (w_db w))((k, n) \<mapsto> StatusPublished)"
    by (simp add: move_ok_def)
qed

end
