(* ===== verification/DefinitionProps.thy ===== *)
theory DefinitionProps
  imports Moduleseed StatusProps
begin

text \<open>
  Properties of the definition registries: versions follow their life and their approvals are on
  record, a rollback restores what was current before, and publishing a module ends with every
  one of its definitions settled, wherever an earlier attempt stopped.
\<close>

section \<open>A registry of one form\<close>

definition form_row :: "DefinitionStatus \<Rightarrow> string option \<Rightarrow> defrow" where
  "form_row s who =
     \<lparr>df_id = id_a, df_registry = FormDefinitions, df_key = ''Invoice'', df_version = 1, df_status = s,
      df_definition = VMap fmempty, df_author_type = ActorHuman, df_author = ''u1'', df_approved_by = who\<rparr>"

definition form_audit :: "Action \<Rightarrow> fields \<Rightarrow> arow" where
  "form_audit act diff =
     \<lparr>al_type = ''form_definition:Invoice'', al_record = Some id_a, al_action = act, al_actor_type = ActorHuman,
      al_actor_id = ''u1'', al_model_version = None, al_input_hash = None, al_diff = Some diff\<rparr>"

definition form_status :: "string \<Rightarrow> fields" where
  "form_status s = fmupd ''status'' (VStr s) fmempty"

definition form_drafted :: db where
  "form_drafted = empty_db\<lparr>db_defs := [form_row StatusDraft None],
     db_audit := [form_audit ActionCreate fmempty]\<rparr>"

definition form_approved :: db where
  "form_approved = empty_db\<lparr>db_defs := [form_row StatusApproved (Some ''u1'')],
     db_audit := [form_audit ActionCreate fmempty, form_audit ActionUpdate (form_status ''approved'')]\<rparr>"

definition form_published :: db where
  "form_published = empty_db\<lparr>db_defs := [form_row StatusPublished (Some ''u1'')],
     db_audit := [form_audit ActionCreate fmempty, form_audit ActionUpdate (form_status ''approved''),
       form_audit ActionUpdate (form_status ''published'')]\<rparr>"

definition form_rolled_back :: db where
  "form_rolled_back = empty_db\<lparr>db_defs := [form_row StatusRolledBack (Some ''u1'')],
     db_audit := [form_audit ActionCreate fmempty, form_audit ActionUpdate (form_status ''approved''),
       form_audit ActionUpdate (form_status ''published''), form_audit ActionUpdate (form_status ''rolled_back'')]\<rparr>"

lemma json_norm_empty: "json_norm (VMap fmempty) = VMap fmempty"
  by (simp add: fmmap_empty)

lemma form_draft_run:
  "\<exists>dv w'. createDraft sample_env FormDefinitions ''Invoice'' 1 (Some (VMap fmempty)) sample_actor
     (sample_world empty_db) = (Inr dv, w') \<and> w_db w' = form_drafted"
  by (simp add: createDraft_def insert_def_def audit_diff_def auditEntityType_def auditPrefix_def write_audit_def
      audit_New_def Actor_Validate_def audit_Insert_def audit_row_def nullable_def InputHash_def sample_actor_def
      form_drafted_def form_row_def form_audit_def int4_arg_def max_int4_def sample_world_def empty_db_def
      Canonical_id_a json_norm_fields_def json_ok_fields_def stmt_eval fmmap_empty)

lemmas form_eval = transition_def update_status_def def_id_def def_at_def auditEntityType_def auditPrefix_def
  write_audit_def audit_New_def Actor_Validate_def audit_Insert_def audit_row_def nullable_def InputHash_def
  sample_actor_def form_row_def form_audit_def form_status_def int4_arg_def max_int4_def sample_world_def
  empty_db_def Canonical_id_a json_ok_fields_iff json_norm_fields_def stmt_eval upd_where_def moved_def
  status_name_def fmmap_fmupd

lemma form_approve_run:
  "\<exists>w'. Approve sample_env FormDefinitions ''Invoice'' 1 sample_actor (sample_world form_drafted) = (Inr (), w') \<and>
     w_db w' = form_approved"
  by (simp add: Approve_def form_drafted_def form_approved_def form_eval)

lemma form_publish_run:
  "\<exists>w'. Publish sample_env FormDefinitions ''Invoice'' 1 sample_actor (sample_world form_approved) = (Inr (), w') \<and>
     w_db w' = form_published"
  by (simp add: Publish_def form_approved_def form_published_def form_eval)

lemma form_rollback_run:
  "\<exists>w'. Rollback sample_env FormDefinitions ''Invoice'' 1 sample_actor (sample_world form_published) = (Inr (), w') \<and>
     w_db w' = form_rolled_back"
  by (simp add: Rollback_def form_published_def form_rolled_back_def form_eval)

section \<open>The life of a version\<close>

lemma empty_registry_ok: "registry_ok E empty_db"
  by (simp add: registry_ok_def def_keys_def empty_db_def)

lemma form_steps:
  "registry_step sample_env empty_db form_drafted" "registry_step sample_env form_drafted form_approved"
  "registry_step sample_env form_approved form_published"
proof -
  have w: "w_db (sample_world D) = D" for D by (simp add: sample_world_def)
  show "registry_step sample_env empty_db form_drafted"
    using form_draft_run registry_step.draft [where w = "sample_world empty_db"] by (metis w)
  show "registry_step sample_env form_drafted form_approved"
    using form_approve_run registry_step.approve [where w = "sample_world form_drafted"] by (metis w)
  show "registry_step sample_env form_approved form_published"
    using form_publish_run registry_step.publish [where w = "sample_world form_approved"] by (metis w)
qed

lemma form_registry_ok:
  "registry_ok sample_env form_drafted" "registry_ok sample_env form_approved" "registry_ok sample_env form_published"
  using form_steps registry_step_ok empty_registry_ok by blast+

text \<open>
  C25. Whatever is called on the registries, by whomever and with whatever result: no version
  disappears or changes its content, key or author, its status only moves from draft to approved to
  published to rolled back, one step at a time, new rows start as drafts, keys and versions stay
  unique, and every version that is no longer a draft names an approver whose approval is in the
  audit log.
\<close>

theorem definitions_follow_their_life:
  assumes "registry_ok E D" "(registry_step E)\<^sup>*\<^sup>* D D'"
  shows "registry_ok E D' \<and> grows D D' \<and>
    (\<forall>r \<in> set (db_defs D'). df_status r \<noteq> StatusDraft \<longrightarrow>
       (\<exists>who a. df_approved_by r = Some who \<and> who \<noteq> [] \<and> a \<in> set (db_audit D') \<and> approval_of E r who a))"
proof -
  from registry_history [OF assms(2,1)] have 1: "registry_ok E D'" "grows D D'" by blast+
  then have "approval_recorded E (db_audit D') r" if "r \<in> set (db_defs D')" for r
    using that by (simp add: registry_ok_def)
  then have "\<exists>who a. df_approved_by r = Some who \<and> who \<noteq> [] \<and> a \<in> set (db_audit D') \<and> approval_of E r who a"
    if "r \<in> set (db_defs D')" "df_status r \<noteq> StatusDraft" for r
    using that by (fastforce simp: approval_recorded_def split: option.splits)
  with 1 show ?thesis by blast
qed

theorem definitions_follow_their_life_witness:
  "registry_ok sample_env form_published \<and> grows empty_db form_published \<and>
   approval_of sample_env (form_row StatusPublished (Some ''u1'')) ''u1''
     (form_audit ActionUpdate (form_status ''approved''))"
proof -
  have "(registry_step sample_env)\<^sup>*\<^sup>* empty_db form_published"
    using form_steps by (meson rtranclp.rtrancl_refl rtranclp.rtrancl_into_rtrancl)
  from definitions_follow_their_life [OF empty_registry_ok this]
  show ?thesis
    by (simp add: approval_of_def form_row_def form_audit_def form_status_def auditEntityType_def
        auditPrefix_def Canonical_id_a)
qed

section \<open>Publishing and rolling back\<close>

lemma transition_rows:
  assumes ok: "registry_ok E (w_db w)"
    and run: "transition E reg key v a b who actor ActionUpdate w = (Inr u, w')"
  obtains r where "r \<in> set (db_defs (w_db w))" "def_at reg key v r" "df_status r = a"
    "\<And>q. q \<in> set (db_defs (w_db w)) \<Longrightarrow> def_at reg key v q \<Longrightarrow> q = r"
    "set (db_defs (w_db w')) = insert (moved b who r) (set (db_defs (w_db w)) - {r})"
    "def_keys (w_db w') = def_keys (w_db w)"
proof -
  have d: "distinct (def_keys (w_db w))" using ok by (simp add: registry_ok_def)
  obtain r :: defrow and r0 where t: "r0 \<in> set (db_defs (w_db w))" "def_at reg key v r0" "df_status r0 = a"
    "w_db w' = (w_db w)\<lparr>db_defs := upd_where (\<lambda>r. def_at reg key v r \<and> df_status r = a) (moved b who)
         (db_defs (w_db w)),
       db_audit := db_audit (w_db w) @ [audit_of E (auditEntityType reg key) (df_id r) ActionUpdate actor
         (Some (fmupd ''status'' (VStr (status_name b)) fmempty))]\<rparr>"
    by (rule transition_success [OF run], rule that, assumption+)
  have one: "q = r0" if "q \<in> set (db_defs (w_db w))" "def_at reg key v q" for q
    using same_version_same_row [OF d that(1) t(1) that(2) t(2)] .
  have hit: "def_at reg key v q \<and> df_status q = a \<longleftrightarrow> q = r0" if "q \<in> set (db_defs (w_db w))" for q
    using one [OF that] t(2,3) by blast
  have "set (db_defs (w_db w')) =
      (\<lambda>q. if def_at reg key v q \<and> df_status q = a then moved b who q else q) ` set (db_defs (w_db w))"
    by (simp add: t(4) upd_where_def)
  also have "\<dots> = (\<lambda>q. if q = r0 then moved b who r0 else q) ` set (db_defs (w_db w))"
    using hit by (intro image_cong) simp_all
  also have "\<dots> = insert (moved b who r0) (set (db_defs (w_db w)) - {r0})" using t(1) by auto
  finally have rows: "set (db_defs (w_db w')) = insert (moved b who r0) (set (db_defs (w_db w)) - {r0})" .
  have keys: "def_keys (w_db w') = def_keys (w_db w)"
    by (simp add: def_keys_def t(4) upd_where_def comp_def if_distrib cong: if_cong)
  show thesis by (rule that [OF t(1-3) _ rows keys]) (rule one)
qed

lemma published_by_Publish:
  assumes "registry_ok E (w_db w)" "Publish E reg key v actor w = (Inr u, w')"
  obtains r where "df_version r = v" "set (published reg key (w_db w')) = insert r (set (published reg key (w_db w)))"
    "\<And>q. q \<in> set (published reg key (w_db w)) \<Longrightarrow> df_version q \<noteq> v"
proof -
  obtain r where r: "r \<in> set (db_defs (w_db w))" "def_at reg key v r" "df_status r = StatusApproved"
    "\<And>q. q \<in> set (db_defs (w_db w)) \<Longrightarrow> def_at reg key v q \<Longrightarrow> q = r"
    "set (db_defs (w_db w')) = insert (moved StatusPublished [] r) (set (db_defs (w_db w)) - {r})"
    by (rule transition_rows [OF assms(1) assms(2) [unfolded Publish_def]], rule that, assumption+)
  have "df_version (moved StatusPublished [] r) = v" using r(2) by (simp add: def_at_def)
  moreover have "set (published reg key (w_db w')) =
      insert (moved StatusPublished [] r) (set (published reg key (w_db w)))"
    using r(2,3) by (auto simp: published_def def_at_def r(5))
  moreover have "df_version q \<noteq> v" if "q \<in> set (published reg key (w_db w))" for q
    using r(4) [of q] r(3) that by (auto simp: published_def def_at_def)
  ultimately show thesis by (rule that)
qed

lemma published_by_Rollback:
  assumes "registry_ok E (w_db w)" "Rollback E reg key v actor w = (Inr u, w')"
  shows "set (published reg key (w_db w')) = {q \<in> set (published reg key (w_db w)). df_version q \<noteq> v}"
proof -
  obtain r where r: "r \<in> set (db_defs (w_db w))" "def_at reg key v r" "df_status r = StatusPublished"
    "\<And>q. q \<in> set (db_defs (w_db w)) \<Longrightarrow> def_at reg key v q \<Longrightarrow> q = r"
    "set (db_defs (w_db w')) = insert (moved StatusRolledBack [] r) (set (db_defs (w_db w)) - {r})"
    by (rule transition_rows [OF assms(1) assms(2) [unfolded Rollback_def]], rule that, assumption+)
  have "q \<noteq> r \<longleftrightarrow> df_version q \<noteq> v" if "q \<in> set (published reg key (w_db w))" for q
    using r(2,4) that by (auto simp: published_def def_at_def)
  then show ?thesis by (auto simp: published_def r(5))
qed

lemma published_answer:
  "w_faults w = [] \<Longrightarrow> fst (getPublished reg key (w\<lparr>w_db := D\<rparr>)) =
     (case current reg key D of None \<Rightarrow> Inl ErrNotFound | Some r \<Rightarrow> Inr (version_of r))"
  by (auto simp: getPublished_def getOne_def current_def query_def stmt_def rbind_def faulty_def split: list.splits)

text \<open>
  Publishing a version above every published one makes it the answer of \<open>getPublished\<close>; rolling
  it back afterwards restores the answer given before, the next version down or none.
\<close>

theorem rollback_restores_current:
  assumes ok: "registry_ok E (w_db w)" and pub: "Publish E reg key v actor w = (Inr (), w1)"
    and same: "db_defs (w_db w2) = db_defs (w_db w1)" and inv: "registry_ok E (w_db w2)"
    and undo: "Rollback E reg key v actor2 w2 = (Inr (), w3)"
    and q: "w_faults q = []"
  shows "fst (getPublished reg key (q\<lparr>w_db := w_db w3\<rparr>)) = fst (getPublished reg key (q\<lparr>w_db := w_db w\<rparr>)) \<and>
    ((\<forall>r \<in> set (published reg key (w_db w)). df_version r < v) \<longrightarrow>
      (\<exists>dv. fst (getPublished reg key (q\<lparr>w_db := w_db w1\<rparr>)) = Inr dv \<and> dv_version dv = v \<and>
        dv_status dv = StatusPublished))"
proof -
  from published_by_Publish [OF ok pub] obtain r where r: "df_version r = v"
    "set (published reg key (w_db w1)) = insert r (set (published reg key (w_db w)))"
    "\<And>q. q \<in> set (published reg key (w_db w)) \<Longrightarrow> df_version q \<noteq> v" by blast
  have "published reg key (w_db w2) = published reg key (w_db w1)" by (simp add: published_def same)
  then have "set (published reg key (w_db w3)) = set (published reg key (w_db w))"
    using published_by_Rollback [OF inv undo] r by auto
  moreover have d: "distinct (def_keys (w_db w))" "distinct (def_keys (w_db w1))" "distinct (def_keys (w_db w3))"
  proof -
    show "distinct (def_keys (w_db w))" using ok by (simp add: registry_ok_def)
    show "distinct (def_keys (w_db w1))"
      using inv by (simp add: registry_ok_def def_keys_def same)
    show "distinct (def_keys (w_db w3))"
      using transition_rows [OF inv undo [unfolded Rollback_def]] inv by (metis registry_ok_def)
  qed
  ultimately have cur: "current reg key (w_db w3) = current reg key (w_db w)"
    using current_cong by blast
  have "current reg key (w_db w1) = Some r" if "\<forall>r \<in> set (published reg key (w_db w)). df_version r < v"
    by (rule current_eq [OF d(2)]) (use r that in \<open>auto simp: less_imp_le\<close>)
  moreover have "df_status r = StatusPublished"
    using r(2) published_at [of r reg key "w_db w1"] by simp
  ultimately show ?thesis
    unfolding published_answer [OF q] cur by (auto simp: version_of_def r(1))
qed

theorem rollback_restores_current_witness:
  "fst (getPublished FormDefinitions ''Invoice'' (sample_world form_rolled_back)) = Inl ErrNotFound \<and>
   fst (getPublished FormDefinitions ''Invoice'' (sample_world form_published)) =
     Inr (version_of (form_row StatusPublished (Some ''u1'')))"
proof -
  have w: "w_db (sample_world D) = D" "w_faults (sample_world D) = []"
    "(sample_world D)\<lparr>w_db := D'\<rparr> = sample_world D'" for D D' by (simp_all add: sample_world_def)
  obtain w1 where w1: "Publish sample_env FormDefinitions ''Invoice'' 1 sample_actor (sample_world form_approved) =
      (Inr (), w1)" "w_db w1 = form_published" using form_publish_run by blast
  obtain w3 where w3: "Rollback sample_env FormDefinitions ''Invoice'' 1 sample_actor (sample_world form_published) =
      (Inr (), w3)" "w_db w3 = form_rolled_back" using form_rollback_run by blast
  have none: "published FormDefinitions ''Invoice'' form_approved = []"
    by (simp add: published_def form_approved_def form_row_def)
  have "registry_ok sample_env (w_db (sample_world form_approved))"
    "registry_ok sample_env (w_db (sample_world form_published))"
    using form_registry_ok by (simp_all add: w)
  from rollback_restores_current [OF this(1) w1(1) _ this(2) w3(1), of "sample_world empty_db"]
  show ?thesis
    by (simp add: w w1 w3 none) (simp add: getPublished_def getOne_def published_def form_approved_def
        form_published_def form_row_def sample_world_def stmt_eval empty_db_def)
qed

section \<open>Publishing a module\<close>

text \<open>A world whose statements work and whose new ids are new, and an item that can be drafted.\<close>

definition live_registry :: "env \<Rightarrow> world \<Rightarrow> bool" where
  "live_registry E w \<longleftrightarrow>
     w_faults w = [] \<and> inj (w_newid w) \<and> (\<forall>n. e_uuid E (w_newid w n) \<noteq> None) \<and>
     (\<forall>r \<in> set (db_defs (w_db w)). e_uuid E (df_id r) \<noteq> None \<and> (\<forall>n \<ge> w_ids w. df_id r \<noteq> w_newid w n))"

definition draftable :: "Item \<Rightarrow> bool" where
  "draftable i \<longleftrightarrow> int4_arg (Some (it_version i)) \<and> (\<exists>m. it_raw i = Some (VMap m) \<and> json_ok_fields m)"

lemma no_faults [simp]: "w_faults w = [] \<Longrightarrow> faulty w = False" "w_faults w = [] \<Longrightarrow> sent w = w"
  by (simp_all add: faulty_def sent_def)

lemma write_audit_runs:
  assumes "w_faults w = []" "accountable actor" "e_uuid E rid \<noteq> None"
    "\<And>x. diff = Some x \<Longrightarrow> json_ok_fields x"
  shows "\<exists>a. write_audit E et rid act actor diff w = (Inr (), w\<lparr>w_db := (w_db w)\<lparr>db_audit := a\<rparr>\<rparr>)"
  using assms
  by (auto simp: write_audit_def audit_New_def audit_Insert_def stmt_def nullable_uuid_def uuid_arg_def
      split: option.splits simp flip: Actor_Validate_None_iff)

lemma tx_runs:
  assumes "w_faults w = []" "body w = (Inr x, w')" "w_faults w' = []"
  shows "in_tx body w = (Inr x, w')"
  using assms by (simp add: in_tx_def query_def stmt_def rbind_def)

lemma createDraft_runs:
  assumes live: "live_registry E w" and a: "accountable actor" "a_type actor \<noteq> ActorSystem"
    and v: "int4_arg (Some v)" "text = Some (VMap m)" "json_ok_fields m"
    and new: "\<forall>r \<in> set (db_defs (w_db w)). \<not> def_at reg key v r"
  shows "\<exists>dv w'. createDraft E reg key v text actor w = (Inr dv, w') \<and> live_registry E w'"
proof -
  let ?u = "w_newid w (w_ids w)"
  let ?w = "w\<lparr>w_ids := w_ids w + 1, w_db := (w_db w)\<lparr>db_defs := db_defs (w_db w) @
      [draft_row ?u reg key v (VMap m) actor]\<rparr>\<rparr>"
  have "?u \<notin> df_id ` set (db_defs (w_db w))" using live unfolding live_registry_def by fastforce
  then have "insert_def reg key v text actor w = (Inr ?u, ?w)"
    using live a v new
    by (auto simp: insert_def_def bindM_def fresh_id_def stmt_def live_registry_def draft_row_def list_ex_iff faulty_def sent_def)
  moreover have "\<exists>d. write_audit E (auditEntityType reg key) ?u ActionCreate actor (Some m) ?w =
      (Inr (), ?w\<lparr>w_db := (w_db ?w)\<lparr>db_audit := d\<rparr>\<rparr>)"
    by (rule write_audit_runs) (use live a v in \<open>simp_all add: live_registry_def\<close>)
  then obtain d where "write_audit E (auditEntityType reg key) ?u ActionCreate actor (Some m) ?w =
      (Inr (), ?w\<lparr>w_db := (w_db ?w)\<lparr>db_audit := d\<rparr>\<rparr>)" ..
  ultimately have "\<exists>dv w'. createDraft E reg key v text actor w = (Inr dv, w') \<and>
      w' = ?w\<lparr>w_db := (w_db ?w)\<lparr>db_audit := d\<rparr>\<rparr>"
    using live a v unfolding createDraft_def
    by (auto simp: thenM_def bindM_def guardM_def ret_def audit_diff_def live_registry_def
        intro!: exI tx_runs simp flip: Actor_Validate_None_iff)
  moreover have "live_registry E (?w\<lparr>w_db := (w_db ?w)\<lparr>db_audit := d\<rparr>\<rparr>)"
    using live by (auto simp: live_registry_def draft_row_def dest!: injD)
  ultimately show ?thesis by blast
qed

lemma transition_runs:
  assumes live: "live_registry E w" and ok: "registry_ok E (w_db w)" and a: "accountable actor"
    and v: "int4_arg (Some v)" and r: "r \<in> set (db_defs (w_db w))" "def_at reg key v r" "df_status r = a"
  shows "\<exists>w'. transition E reg key v a b who actor ActionUpdate w = (Inr (), w') \<and> live_registry E w'"
proof -
  let ?hit = "\<lambda>r. def_at reg key v r \<and> df_status r = a"
  let ?w = "w\<lparr>w_db := (w_db w)\<lparr>db_defs := upd_where ?hit (moved b who) (db_defs (w_db w))\<rparr>\<rparr>"
  let ?diff = "Some (fmupd ''status'' (VStr (status_name b)) fmempty)"
  have ex: "list_ex ?hit (db_defs (w_db w))" using r by (auto simp: list_ex_iff)
  have ids: "\<exists>p \<in> set (db_defs (w_db w)). df_id q = df_id p" if q: "q \<in> set (db_defs (w_db ?w))" for q
  proof -
    obtain p where "p \<in> set (db_defs (w_db w))" "q = (if ?hit p then moved b who p else p)"
      using q by (auto simp: in_upd_where)
    then show ?thesis by (intro bexI [of _ p]) (simp_all split: if_splits)
  qed
  have live1: "live_registry E ?w"
    using live ids unfolding live_registry_def by (simp del: not_None_eq) metis
  obtain q where q: "List.find (def_at reg key v) (db_defs (w_db ?w)) = Some q"
  proof (cases "List.find (def_at reg key v) (db_defs (w_db ?w))")
    case None
    then have "\<not> (\<exists>q \<in> set (db_defs (w_db ?w)). def_at reg key v q)" by (auto simp: find_None_iff)
    moreover have "moved b who r \<in> set (db_defs (w_db ?w))" using r by (auto simp: in_upd_where intro!: bexI [of _ r])
    ultimately show thesis using r(2) by (metis moved_sel(7))
  qed
  then have "q \<in> set (db_defs (w_db ?w))" using find_SomeD by metis
  then have uq: "e_uuid E (df_id q) \<noteq> None" using live1 unfolding live_registry_def by blast
  have up: "update_status reg key v a b who w = (Inr True, ?w)"
    using live v ex by (simp add: update_status_def stmt_def live_registry_def Let_def)
  have di: "def_id reg key v ?w = (Inr (df_id q), ?w)"
    using live1 q by (simp add: def_id_def query_def stmt_def rbind_def live_registry_def)
  have "\<exists>d. write_audit E (auditEntityType reg key) (df_id q) ActionUpdate actor ?diff ?w =
      (Inr (), ?w\<lparr>w_db := (w_db ?w)\<lparr>db_audit := d\<rparr>\<rparr>)"
    by (rule write_audit_runs) (use live1 a uq in \<open>auto simp: live_registry_def json_ok_fields_iff\<close>)
  then obtain d where au: "write_audit E (auditEntityType reg key) (df_id q) ActionUpdate actor ?diff ?w =
      (Inr (), ?w\<lparr>w_db := (w_db ?w)\<lparr>db_audit := d\<rparr>\<rparr>)" ..
  let ?w2 = "?w\<lparr>w_db := (w_db ?w)\<lparr>db_audit := d\<rparr>\<rparr>"
  have "transition E reg key v a b who actor ActionUpdate w = (Inr (), ?w2)"
    unfolding transition_def thenM_def
    using a live by (simp add: bindM_def guardM_def ret_def live_registry_def up di au tx_runs
        flip: Actor_Validate_None_iff)
  moreover have "live_registry E ?w2" using live1 by (simp add: live_registry_def)
  ultimately show ?thesis by blast
qed

lemma publishOne_resumes:
  assumes live: "live_registry E w" and ok: "registry_ok E (w_db w)"
    and a: "accountable actor" "a_type actor \<noteq> ActorSystem" and i: "draftable i"
  shows "\<exists>w'. publishOne (registry_repo E reg) i actor w = (Inr (), w') \<and> live_registry E w'"
proof -
  let ?R = "registry_repo E reg" and ?at = "def_at reg (it_key i) (it_version i)"
  from i obtain m where m: "int4_arg (Some (it_version i))" "it_raw i = Some (VMap m)" "json_ok_fields m"
    by (auto simp: draftable_def)
  have get: "getVersion reg (it_key i) (it_version i) w =
      (case filter ?at (db_defs (w_db w)) of [] \<Rightarrow> (Inl ErrNotFound, w) | r # _ \<Rightarrow> (Inr (version_of r), w))"
    using live m(1) by (auto simp: getVersion_def getOne_def query_def stmt_def rbind_def live_registry_def split: list.split)
  obtain st w1 where st: "item_status ?R i actor w = (Inr st, w1)" and live1: "live_registry E w1"
  proof (cases "filter ?at (db_defs (w_db w))")
    case Nil
    then obtain dv w1 where "createDraft E reg (it_key i) (it_version i) (it_raw i) actor w = (Inr dv, w1)"
      "live_registry E w1"
      using createDraft_runs [OF live a m, of reg "it_key i"] by (auto simp: filter_empty_conv)
    with that [of StatusDraft w1] get Nil show thesis
      by (simp add: item_status_def registry_repo_def catchM_def bindM_def thenM_def ret_def)
  next
    case (Cons r rs)
    with that [of "dv_status (version_of r)" w] get live show thesis
      by (simp add: item_status_def registry_repo_def catchM_def bindM_def ret_def)
  qed
  have 1: "registry_ok E (w_db w1)" "version_status reg (w_db w1) (it_key i, it_version i) = Some st"
    using registry.item_status_run [OF ok st] by blast+
  show ?thesis
  proof (cases "st = StatusPublished \<or> st = StatusRolledBack")
    case True
    then show ?thesis using st live1 by (auto simp: publishOne_def bindM_def)
  next
    case False
    obtain w2 where w2: "(if st = StatusDraft then RepoApprove ?R (it_key i) (it_version i) actor else ret ()) w1 = (Inr (), w2)"
      "live_registry E w2" "registry_ok E (w_db w2)"
      "version_status reg (w_db w2) (it_key i, it_version i) = Some StatusApproved"
    proof (cases "st = StatusDraft")
      case True
      obtain r where r: "r \<in> set (db_defs (w_db w1))" "?at r" "df_status r = StatusDraft"
        using 1 True version_status_Some registry_ok_def by metis
      obtain w2 where "Approve E reg (it_key i) (it_version i) actor w1 = (Inr (), w2)" "live_registry E w2"
        using transition_runs [OF live1 1(1) a(1) m(1) r] unfolding Approve_def by metis
      then show thesis using that [of w2] True registry.approve [OF 1(1), of reg "it_key i" "it_version i" actor "()" w2]
        by (simp add: registry_repo_def)
    next
      case False
      with \<open>\<not> (st = StatusPublished \<or> st = StatusRolledBack)\<close> have "st = StatusApproved" by (cases st) auto
      then show thesis using that [of w1] 1 live1 by simp
    qed
    obtain r where r: "r \<in> set (db_defs (w_db w2))" "?at r" "df_status r = StatusApproved"
      using w2(3,4) version_status_Some registry_ok_def by metis
    obtain w3 where w3: "Publish E reg (it_key i) (it_version i) actor w2 = (Inr (), w3)" "live_registry E w3"
      using transition_runs [OF w2(2,3) a(1) m(1) r] unfolding Publish_def by metis
    have "publishOne ?R i actor w = (Inr (), w3)"
      unfolding publishOne_def bindM_Inr_iff thenM_Inr_iff
      by (intro exI conjI, rule st) (use False w2(1) w3(1) in \<open>auto simp: thenM_Inr_iff registry_repo_def\<close>)
    then show ?thesis using w3(2) by blast
  qed
qed

lemma PublishAll_resumes:
  assumes "live_registry E w" "registry_ok E (w_db w)" "accountable actor" "a_type actor \<noteq> ActorSystem"
    and "\<forall>i \<in> set items. draftable i"
  shows "\<exists>w'. PublishAll (registry_repo E reg) items actor w = (Inr (), w') \<and> live_registry E w'"
  using assms
proof (induction items arbitrary: w)
  case (Cons i items)
  obtain w1 where w1: "publishOne (registry_repo E reg) i actor w = (Inr (), w1)" "live_registry E w1"
    using publishOne_resumes [OF Cons.prems(1-4), of i reg] Cons.prems(5) by auto
  moreover have "registry_ok E (w_db w1)" using registry.publishOne_run [OF Cons.prems(2) w1(1)] by blast
  ultimately obtain w' where "PublishAll (registry_repo E reg) items actor w1 = (Inr (), w')" "live_registry E w'"
    using Cons.IH [of w1] Cons.prems by auto
  then show ?case using w1(1) by (auto simp: thenM_def bindM_def)
qed simp

text \<open>
  C26. \<open>PublishAll\<close> resumes from anywhere: whatever mixture of missing, drafted, approved, published and
  rolled back versions an earlier attempt left, a run whose statements work succeeds and leaves
  every item published or rolled back, and running it again changes nothing.
\<close>

theorem publish_all_settles:
  assumes ok: "registry_ok E (w_db w)" and live: "live_registry E w"
    and actor: "accountable actor" "a_type actor \<noteq> ActorSystem" and items: "\<forall>i \<in> set items. draftable i"
  shows "\<exists>w'. PublishAll (registry_repo E reg) items actor w = (Inr (), w') \<and> registry_ok E (w_db w') \<and>
    (\<forall>i \<in> set items. version_status reg (w_db w') (it_key i, it_version i)
       \<in> {Some StatusPublished, Some StatusRolledBack}) \<and>
    (\<exists>w''. PublishAll (registry_repo E reg) items actor w' = (Inr (), w'') \<and> w_db w'' = w_db w')"
proof -
  obtain w' where w': "PublishAll (registry_repo E reg) items actor w = (Inr (), w')" "live_registry E w'"
    using PublishAll_resumes [OF live ok actor items] by blast
  note 1 = registry.PublishAll_run [OF ok w'(1), unfolded registry.settled_def]
  then obtain w'' where w'': "PublishAll (registry_repo E reg) items actor w' = (Inr (), w'')"
    using PublishAll_resumes [OF w'(2) _ actor items] by blast
  have "w_db w'' = w_db w'"
    using registry.PublishAll_run [OF _ w'', unfolded registry.settled_def] 1 by blast
  then show ?thesis using w' w'' 1 by blast
qed

definition half_seeded :: world where
  "half_seeded = (sample_world form_approved)\<lparr>w_newid := (\<lambda>n. replicate n (CHR ''x''))\<rparr>"

theorem publish_all_settles_witness:
  "\<exists>w'. PublishAll (registry_repo plain_env FormDefinitions)
       [\<lparr>it_key = ''Invoice'', it_version = 1, it_raw = Some (VMap fmempty)\<rparr>,
        \<lparr>it_key = ''Order'', it_version = 1, it_raw = Some (VMap fmempty)\<rparr>] sample_actor half_seeded = (Inr (), w') \<and>
     version_status FormDefinitions (w_db w') (''Order'', 1) \<in> {Some StatusPublished, Some StatusRolledBack}"
proof -
  have "registry_ok plain_env (w_db half_seeded)"
    by (simp add: half_seeded_def sample_world_def registry_ok_def def_keys_def form_approved_def form_row_def
        approval_recorded_def approval_of_def form_audit_def form_status_def auditEntityType_def auditPrefix_def)
  moreover have "live_registry plain_env half_seeded"
  proof -
    have "id_a \<noteq> replicate n (CHR ''x'')" for n
      by (cases n) (simp_all add: id_a_def)
    moreover have "inj (\<lambda>n. replicate n (CHR ''x''))" by (rule injI) (metis length_replicate)
    ultimately show ?thesis
      by (simp add: live_registry_def half_seeded_def sample_world_def form_approved_def form_row_def)
  qed
  moreover have "accountable sample_actor" "a_type sample_actor \<noteq> ActorSystem"
    by (simp_all add: accountable_def sample_actor_def)
  ultimately show ?thesis
    using publish_all_settles [where items = "[\<lparr>it_key = ''Invoice'', it_version = 1, it_raw = Some (VMap fmempty)\<rparr>,
        \<lparr>it_key = ''Order'', it_version = 1, it_raw = Some (VMap fmempty)\<rparr>]" and reg = FormDefinitions]
    by (fastforce simp: draftable_def int4_arg_def max_int4_def json_ok_fields_def)
qed

end
