(* ===== verification/DepreciationPosting.thy ===== *)
theory DepreciationPosting
  imports ScheduleHook Filters Ledger
begin

text \<open>
  Posting of due depreciation (\<open>internal/kernel/assets/ledger.go\<close>): the worklist of due schedule
  rows, the posting of one row to the ledger, and the sweep that retires an asset whose
  schedule is exhausted; with the two worklist queries of \<open>internal/data/records.go\<close>.
\<close>

section \<open>Calls that log an error and go on\<close>

text \<open>\<open>x, err := f()\<close> where the caller looks at the error itself.\<close>

definition tryM :: "'a dbm \<Rightarrow> (err, 'a) result dbm" where
  "tryM m w = (case m w of (r, w') \<Rightarrow> (Inr r, w'))"

text \<open>A transaction whose body may return early, without commit; the deferred rollback undoes it.\<close>

definition in_tx_early :: "'a option dbm \<Rightarrow> 'a option dbm" where
  "in_tx_early body w =
     (case query (\<lambda>_. Inr ()) w of
        (Inl e, w1) \<Rightarrow> (Inl e, w1)
      | (Inr _, w1) \<Rightarrow>
          (case body w1 of
             (Inl e, w2) \<Rightarrow> (Inl e, w2\<lparr>w_db := w_db w\<rparr>)
           | (Inr None, w2) \<Rightarrow> (Inr None, w2\<lparr>w_db := w_db w\<rparr>)
           | (Inr (Some x), w2) \<Rightarrow>
               (case query (\<lambda>_. Inr ()) w2 of
                  (Inl e, w3) \<Rightarrow> (Inl e, w3\<lparr>w_db := w_db w\<rparr>)
                | (Inr _, w3) \<Rightarrow> (Inr (Some x), w3))))"

section \<open>The worklists\<close>

record ListDueUnpostedGate =
  dg_parent :: string
  dg_join :: string
  dg_match_field :: string
  dg_match_value :: string
  dg_required :: "string list"

text \<open>\<open>coalesce(data->>f, '') = ''\<close>, and \<open>data->>f <> '' AND data->>f <= cutoff\<close>.\<close>

definition blank :: "env \<Rightarrow> fields \<Rightarrow> string \<Rightarrow> bool" where
  "blank E d f \<longleftrightarrow> (case arrow_text E d f of None \<Rightarrow> True | Some t \<Rightarrow> t = [])"

definition due_by :: "env \<Rightarrow> string \<Rightarrow> string \<Rightarrow> fields \<Rightarrow> bool" where
  "due_by E f cutoff d \<longleftrightarrow>
     (case arrow_text E d f of None \<Rightarrow> False | Some t \<Rightarrow> t \<noteq> [] \<and> text_key E t \<le> text_key E cutoff)"

definition gate_open :: "env \<Rightarrow> db \<Rightarrow> ListDueUnpostedGate \<Rightarrow> fields \<Rightarrow> bool" where
  "gate_open E D g d \<longleftrightarrow>
     dg_parent g = [] \<or>
     list_ex (\<lambda>p. live (dg_parent g) p \<and> arrow_text E d (dg_join g) = Some (rr_id p) \<and>
       field_is E p (dg_match_field g, dg_match_value g) \<and>
       list_all (\<lambda>f. \<not> blank E (rr_data p) f) (dg_required g)) (db_records D)"

definition ListDueUnposted ::
    "env \<Rightarrow> string \<Rightarrow> string \<Rightarrow> string \<Rightarrow> string \<Rightarrow> ListDueUnpostedGate \<Rightarrow> int \<Rightarrow> Record list dbm" where
  "ListDueUnposted E et dueField cutoff postedField g limit =
     query (\<lambda>d. if limit < 0 then Inl ErrDB
       else Inr (map to_record (take (nat limit) (by_age (filter (\<lambda>r.
         live et r \<and> blank E (rr_data r) postedField \<and> due_by E dueField cutoff (rr_data r) \<and>
         gate_open E d g (rr_data r)) (db_records d))))))"

record LifeCompleteGroupOptions =
  lc_parent :: string
  lc_match_field :: string
  lc_match_value :: string
  lc_life :: string
  lc_child :: string
  lc_join :: string
  lc_posted :: string
  lc_due :: string
  lc_cutoff :: string
  lc_counter :: string

text \<open>\<open>data->>f ~ '^-?[0-9]+(\.[0-9]+)?$'\<close> and the cast to \<open>numeric\<close>.\<close>

definition number_at :: "env \<Rightarrow> fields \<Rightarrow> string \<Rightarrow> rat option" where
  "number_at E d f = Option.bind (arrow_text E d f) numeric_text"

definition child_of :: "env \<Rightarrow> LifeCompleteGroupOptions \<Rightarrow> rrow \<Rightarrow> rrow \<Rightarrow> bool" where
  "child_of E g p c \<longleftrightarrow> live (lc_child g) c \<and> field_is E c (lc_join g, rr_id p)"

definition life_complete :: "env \<Rightarrow> db \<Rightarrow> LifeCompleteGroupOptions \<Rightarrow> rrow \<Rightarrow> bool" where
  "life_complete E D g p \<longleftrightarrow>
     live (lc_parent g) p \<and> field_is E p (lc_match_field g, lc_match_value g) \<and>
     (case number_at E (rr_data p) (lc_life g) of
        None \<Rightarrow> False
      | Some life \<Rightarrow>
          0 < life \<and>
          (if lc_counter g \<noteq> [] then
             (case number_at E (rr_data p) (lc_counter g) of None \<Rightarrow> False | Some n \<Rightarrow> life \<le> n)
           else life \<le> of_nat (length (filter (\<lambda>c. child_of E g p c \<and> \<not> blank E (rr_data c) (lc_posted g))
             (db_records D)))) \<and>
          \<not> list_ex (\<lambda>c. child_of E g p c \<and> blank E (rr_data c) (lc_posted g) \<and>
              due_by E (lc_due g) (lc_cutoff g) (rr_data c)) (db_records D))"

definition LifeCompleteGroupIDs :: "env \<Rightarrow> LifeCompleteGroupOptions \<Rightarrow> int \<Rightarrow> string list dbm" where
  "LifeCompleteGroupIDs E g limit =
     query (\<lambda>d. if limit < 0 then Inl ErrDB
       else Inr (take (nat limit) (map rr_id (sort_key rr_id (filter (life_complete E d g) (db_records d))))))"

section \<open>Lookups\<close>

definition statusCodeInService :: string where
  "statusCodeInService = ''in_service''"

definition statusCodeFullyDepreciated :: string where
  "statusCodeFullyDepreciated = ''fully_depreciated''"

definition mergedRecordData :: "fields \<Rightarrow> fields \<Rightarrow> fields" where
  "mergedRecordData base overrides = base ++\<^sub>f overrides"

definition assetStatusIs :: "env \<Rightarrow> Record \<Rightarrow> string \<Rightarrow> bool dbm" where
  "assetStatusIs E asset code =
     (let s = str_field (rec_data asset) ''status_id'' in
      if s = [] then ret False
      else bindM (GetTx E ''Status'' s) (\<lambda>status. ret (str_field (rec_data status) ''code'' = code)))"

definition accountCode :: "env \<Rightarrow> string \<Rightarrow> string dbm" where
  "accountCode E accountID =
     bindM (GetTx E ''Account'' accountID) (\<lambda>account.
       let code = str_field (rec_data account) ''code'' in
       if code = [] then fail ErrPlain else ret code)"

definition currencyMinorUnit :: "env \<Rightarrow> string \<Rightarrow> int dbm" where
  "currencyMinorUnit E currencyID =
     bindM (GetTx E ''Currency'' currencyID) (\<lambda>c.
       case fmlookup (rec_data c) ''minor_unit'' of
         Some (VNum v) \<Rightarrow> ret (sint (go_int E v))
       | _ \<Rightarrow> fail ErrPlain)"

text \<open>The first status of a list with a code, as the loops look for it.\<close>

definition statusIDByCodeTx :: "string \<Rightarrow> string \<Rightarrow> string dbm" where
  "statusIDByCodeTx statusTypeID code =
     bindM (ListTx ''Status'') (\<lambda>ss.
       case List.find (\<lambda>s. str_field (rec_data s) ''status_type_id'' = statusTypeID \<and>
           str_field (rec_data s) ''code'' = code) ss of
         None \<Rightarrow> fail ErrPlain
       | Some s \<Rightarrow> ret (rec_id s))"

definition depreciationInServiceStatusID :: "env \<Rightarrow> string dbm" where
  "depreciationInServiceStatusID E =
     bindM (ListByField E ''StatusType'' ''code'' ''fixed_asset_status'') (\<lambda>ts.
       case ts of
         [] \<Rightarrow> ret []
       | [t] \<Rightarrow>
           bindM (ListByField E ''Status'' ''status_type_id'' (rec_id t)) (\<lambda>ss.
             case List.find (\<lambda>s. str_field (rec_data s) ''code'' = statusCodeInService) ss of
               None \<Rightarrow> fail ErrPlain
             | Some s \<Rightarrow> ret (rec_id s))
       | _ \<Rightarrow> fail ErrPlain)"

section \<open>Posting one row\<close>

fun f_add1 :: "f64 \<Rightarrow> f64" where
  "f_add1 (Fin x) = rnd64 (x + 1)"
| "f_add1 x = x"

definition incrementFixedAssetPostedPeriodCount :: "env \<Rightarrow> string \<Rightarrow> Actor \<Rightarrow> unit dbm" where
  "incrementFixedAssetPostedPeriodCount E assetID actor =
     bindM (GetTx E ''FixedAsset'' assetID) (\<lambda>asset.
       let chg = fmupd ''posted_period_count''
             (VNum (f_add1 (num_field (rec_data asset) ''posted_period_count''))) fmempty in
       thenM (UpdateTx E ''FixedAsset'' assetID (mergedRecordData (rec_data asset) chg) (Some (rec_version asset)))
         (write_audit E ''FixedAsset'' assetID ActionUpdate actor (Some chg)))"

text \<open>The write of \<open>posted_at\<close> both paths share, under the version the row was read at.\<close>

definition set_posted_at :: "env \<Rightarrow> Record \<Rightarrow> Actor \<Rightarrow> unit dbm" where
  "set_posted_at E row actor =
     (let chg = fmupd ''posted_at'' (VStr (str_field (rec_data row) ''period_end'')) fmempty in
      thenM (UpdateTx E ''DepreciationSchedule'' (rec_id row) (mergedRecordData (rec_data row) chg)
              (Some (rec_version row)))
        (write_audit E ''DepreciationSchedule'' (rec_id row) ActionUpdate actor (Some chg)))"

definition markPosted :: "env \<Rightarrow> string \<Rightarrow> Record \<Rightarrow> Actor \<Rightarrow> unit dbm" where
  "markPosted E assetID row actor =
     in_tx (thenM (incrementFixedAssetPostedPeriodCount E assetID actor) (set_posted_at E row actor))"

definition depreciation_entry :: "string \<Rightarrow> Record \<Rightarrow> string \<Rightarrow> string \<Rightarrow> i64 \<Rightarrow> JEntry" where
  "depreciation_entry assetID row expenseCode accumCode amount =
     (let periodEnd = str_field (rec_data row) ''period_end'' in
      \<lparr>e_date = periodEnd,
       e_description = ''Depreciation for FixedAsset '' @ assetID @ '', period ending '' @ periodEnd,
       e_source_type = ''DepreciationSchedule'', e_source_id = rec_id row,
       e_lines = [\<lparr>ln_account = expenseCode, ln_debit = amount, ln_credit = 0\<rparr>,
         \<lparr>ln_account = accumCode, ln_debit = 0, ln_credit = amount\<rparr>]\<rparr>)"

text \<open>The writes of the transaction, once no entry was found.\<close>

definition post_row_writes :: "env \<Rightarrow> string \<Rightarrow> Record \<Rightarrow> string \<Rightarrow> string \<Rightarrow> i64 \<Rightarrow> Actor \<Rightarrow> unit dbm" where
  "post_row_writes E assetID row expenseCode accumCode amount actor =
     thenM (incrementFixedAssetPostedPeriodCount E assetID actor)
     (thenM (PostTx E (depreciation_entry assetID row expenseCode accumCode amount) actor)
       (set_posted_at E row actor))"

definition postDepreciationRow ::
    "env \<Rightarrow> string \<Rightarrow> Record \<Rightarrow> string \<Rightarrow> string \<Rightarrow> int \<Rightarrow> Actor \<Rightarrow> bool dbm" where
  "postDepreciationRow E assetID row expenseCode accumCode minorUnit actor =
     (case MinorUnits (e_cv E) (num_field (rec_data row) ''depreciation_amount'') minorUnit of
        Inl _ \<Rightarrow> fail ErrPlain
      | Inr amount \<Rightarrow>
          if amount = 0 then thenM (markPosted E assetID row actor) (ret True)
          else bindM (in_tx_early
            (bindM (ExistsForSource E ''DepreciationSchedule'' (rec_id row)) (\<lambda>alreadyPosted.
               if alreadyPosted then ret None
               else thenM (post_row_writes E assetID row expenseCode accumCode amount actor) (ret (Some ())))))
            (\<lambda>r. ret (r \<noteq> None)))"

section \<open>Posting the rows of an asset\<close>

text \<open>The reads before the loop: \<open>None\<close> when there is nothing to post.\<close>

definition asset_setup :: "env \<Rightarrow> string \<Rightarrow> Record list \<Rightarrow> (string \<times> string \<times> int) option dbm" where
  "asset_setup E assetID rows =
     bindM (GetTx E ''FixedAsset'' assetID) (\<lambda>asset.
     bindM (assetStatusIs E asset statusCodeInService) (\<lambda>inService.
       let expense = str_field (rec_data asset) ''depreciation_expense_account_id'';
           accum = str_field (rec_data asset) ''accumulated_depreciation_account_id'';
           own = str_field (rec_data asset) ''asset_account_id'';
           currency = str_field (rec_data asset) ''currency_id'' in
       if \<not> inService \<or> rows = [] then ret None
       else if expense = [] \<or> accum = [] \<or> own = [] then fail ErrPlain
       else
         bindM (accountCode E expense) (\<lambda>expenseCode.
         bindM (accountCode E accum) (\<lambda>accumCode.
         thenM (accountCode E own)
         (bindM (if currency = [] then ret defaultCurrencyMinorUnit
                 else catchM (currencyMinorUnit E currency) (\<lambda>_. ret defaultCurrencyMinorUnit)) (\<lambda>minorUnit.
           ret (Some (expenseCode, accumCode, minorUnit))))))))"

text \<open>The loop, with the counts so far; an error ends it but keeps them.\<close>

fun post_rows :: "(Record \<Rightarrow> bool dbm) \<Rightarrow> int \<Rightarrow> Record list \<Rightarrow> int \<Rightarrow> int \<Rightarrow> (int \<times> int \<times> err option) dbm" where
  "post_rows post maxRows [] posted attempted = ret (posted, attempted, None)"
| "post_rows post maxRows (r # rs) posted attempted =
     (if maxRows \<le> attempted then ret (posted, attempted, None)
      else bindM (tryM (post r)) (\<lambda>res. case res of
          Inl e \<Rightarrow> ret (posted, attempted + 1, Some e)
        | Inr ok \<Rightarrow> post_rows post maxRows rs (if ok then posted + 1 else posted) (attempted + 1)))"

definition postAssetDepreciation ::
    "env \<Rightarrow> string \<Rightarrow> Record list \<Rightarrow> Actor \<Rightarrow> int \<Rightarrow> (int \<times> int \<times> err option) dbm" where
  "postAssetDepreciation E assetID rows actor maxRows =
     bindM (tryM (asset_setup E assetID rows)) (\<lambda>s. case s of
         Inl e \<Rightarrow> ret (0, 0, Some e)
       | Inr None \<Rightarrow> ret (0, 0, None)
       | Inr (Some (expenseCode, accumCode, minorUnit)) \<Rightarrow>
           post_rows (\<lambda>r. postDepreciationRow E assetID r expenseCode accumCode minorUnit actor) maxRows rows 0 0)"

section \<open>Retiring exhausted assets\<close>

text \<open>The loop over the rows returns false at the first that is due and not posted.\<close>

definition row_posted :: "Record \<Rightarrow> bool" where
  "row_posted r \<longleftrightarrow> str_field (rec_data r) ''posted_at'' \<noteq> []"

definition row_outstanding :: "string \<Rightarrow> Record \<Rightarrow> bool" where
  "row_outstanding today r \<longleftrightarrow>
     \<not> row_posted r \<and> str_field (rec_data r) ''period_end'' \<noteq> [] \<and> str_field (rec_data r) ''period_end'' \<le> today"

definition verifyLifeComplete :: "env \<Rightarrow> string \<Rightarrow> string \<Rightarrow> bool dbm" where
  "verifyLifeComplete E assetID today =
     bindM (GetTx E ''FixedAsset'' assetID) (\<lambda>asset.
       case fmlookup (rec_data asset) ''useful_life_months'' of
         Some (VNum life) \<Rightarrow>
           if f_lt life (Fin 0) \<or> f_eq life (Fin 0) then ret False
           else bindM (ListByField E ''DepreciationSchedule'' ''fixed_asset_id'' assetID) (\<lambda>rows.
             let n = Fin (of_nat (length (filter row_posted rows))) in
             if list_ex (row_outstanding today) rows then ret False
             else ret (f_lt life n \<or> f_eq life n))
       | _ \<Rightarrow> ret False)"

definition transition_body :: "env \<Rightarrow> string \<Rightarrow> Actor \<Rightarrow> unit option dbm" where
  "transition_body E assetID actor =
     bindM (GetTx E ''FixedAsset'' assetID) (\<lambda>asset.
       let statusID = str_field (rec_data asset) ''status_id'' in
       if statusID = [] then ret None
       else bindM (GetTx E ''Status'' statusID) (\<lambda>status.
         if str_field (rec_data status) ''code'' \<noteq> statusCodeInService then ret None
         else bindM (statusIDByCodeTx (str_field (rec_data status) ''status_type_id'') statusCodeFullyDepreciated)
           (\<lambda>newStatusID.
             let chg = fmupd ''status_id'' (VStr newStatusID) fmempty in
             thenM (UpdateTx E ''FixedAsset'' assetID (mergedRecordData (rec_data asset) chg)
                     (Some (rec_version asset)))
             (thenM (write_audit E ''FixedAsset'' assetID ActionUpdate actor (Some chg)) (ret (Some ()))))))"

definition transitionToFullyDepreciated :: "env \<Rightarrow> string \<Rightarrow> Actor \<Rightarrow> unit dbm" where
  "transitionToFullyDepreciated E assetID actor = thenM (in_tx_early (transition_body E assetID actor)) (ret ())"

fun heal_candidates :: "env \<Rightarrow> string \<Rightarrow> Actor \<Rightarrow> string list \<Rightarrow> int \<Rightarrow> int dbm" where
  "heal_candidates E today actor [] n = ret n"
| "heal_candidates E today actor (a # as) n =
     bindM (tryM (verifyLifeComplete E a today)) (\<lambda>v.
       if v \<noteq> Inr True then heal_candidates E today actor as n
       else bindM (tryM (transitionToFullyDepreciated E a actor)) (\<lambda>t.
         case t of
           Inl _ \<Rightarrow> heal_candidates E today actor as n
         | Inr _ \<Rightarrow> heal_candidates E today actor as (n + 1)))"

definition life_options :: "string \<Rightarrow> string \<Rightarrow> LifeCompleteGroupOptions" where
  "life_options statusID today =
     \<lparr>lc_parent = ''FixedAsset'', lc_match_field = ''status_id'', lc_match_value = statusID,
      lc_life = ''useful_life_months'', lc_child = ''DepreciationSchedule'', lc_join = ''fixed_asset_id'',
      lc_posted = ''posted_at'', lc_due = ''period_end'', lc_cutoff = today,
      lc_counter = ''posted_period_count''\<rparr>"

definition healStuckFullyDepreciatedAssets ::
    "env \<Rightarrow> Actor \<Rightarrow> string \<Rightarrow> string \<Rightarrow> int \<Rightarrow> (int \<times> bool) dbm" where
  "healStuckFullyDepreciatedAssets E actor statusID today limit =
     bindM (LifeCompleteGroupIDs E (life_options statusID today) limit) (\<lambda>candidates.
     bindM (heal_candidates E today actor candidates 0) (\<lambda>n.
       ret (n, int (length candidates) = limit)))"

section \<open>One run\<close>

definition due_gate :: "string \<Rightarrow> ListDueUnpostedGate" where
  "due_gate statusID =
     \<lparr>dg_parent = ''FixedAsset'', dg_join = ''fixed_asset_id'', dg_match_field = ''status_id'',
      dg_match_value = statusID,
      dg_required = [''asset_account_id'', ''depreciation_expense_account_id'', ''accumulated_depreciation_account_id'']\<rparr>"

definition asset_of :: "Record \<Rightarrow> string" where
  "asset_of s = str_field (rec_data s) ''fixed_asset_id''"

definition rowsByAsset :: "Record list \<Rightarrow> string \<Rightarrow> Record list" where
  "rowsByAsset worklist a = filter (\<lambda>s. asset_of s = a) worklist"

fun post_assets :: "env \<Rightarrow> Actor \<Rightarrow> Record list \<Rightarrow> string list \<Rightarrow> int \<Rightarrow> int \<Rightarrow> int dbm" where
  "post_assets E actor worklist [] remaining posted = ret posted"
| "post_assets E actor worklist (a # as) remaining posted =
     (if remaining \<le> 0 then ret posted
      else bindM (postAssetDepreciation E a (rowsByAsset worklist a) actor remaining) (\<lambda>(n, attempted, _).
        post_assets E actor worklist as (remaining - attempted) (posted + n)))"

text \<open>
  \<open>ord\<close> is the order in which Go's map iteration visits the assets, \<open>day\<close> the server's date. The
  result holds the count, the flag \<open>truncated\<close> and the error, as the code returns them together.
\<close>

definition PostDueDepreciationBatch ::
    "env \<Rightarrow> (string list \<Rightarrow> string list) \<Rightarrow> date \<Rightarrow> Actor \<Rightarrow> int \<Rightarrow> (int \<times> bool \<times> err option) dbm" where
  "PostDueDepreciationBatch E ord day actor maxRows =
     (if maxRows \<le> 0 then ret (0, False, Some ErrPlain)
      else
        let today = FormatDate day in
        bindM (tryM (depreciationInServiceStatusID E)) (\<lambda>s. case s of
          Inl e \<Rightarrow> ret (0, False, Some e)
        | Inr statusID \<Rightarrow>
            if statusID = [] then ret (0, False, None)
            else bindM (tryM (ListDueUnposted E ''DepreciationSchedule'' ''period_end'' today ''posted_at''
                (due_gate statusID) maxRows)) (\<lambda>l. case l of
              Inl e \<Rightarrow> ret (0, False, Some e)
            | Inr worklist \<Rightarrow>
                bindM (post_assets E actor worklist
                    (ord (filter (\<lambda>a. a \<noteq> []) (remdups (map asset_of worklist)))) maxRows 0) (\<lambda>posted.
                bindM (tryM (healStuckFullyDepreciatedAssets E actor statusID today maxRows)) (\<lambda>h. case h of
                  Inl e \<Rightarrow> ret (posted, False, Some e)
                | Inr (healed, healFull) \<Rightarrow>
                    ret (posted, (int (length worklist) = maxRows \<or> healFull) \<and> (0 < posted \<or> 0 < healed), None))))))"

definition PostDueDepreciation ::
    "env \<Rightarrow> (string list \<Rightarrow> string list) \<Rightarrow> date \<Rightarrow> Actor \<Rightarrow> (int \<times> err option) dbm" where
  "PostDueDepreciation E ord day actor =
     bindM (PostDueDepreciationBatch E ord day actor (2 ^ 63 - 1)) (\<lambda>(posted, _, e). ret (posted, e))"

definition SchedulerActor :: Actor where
  "SchedulerActor = \<lparr>a_type = ActorSystem, a_id = ''assets-depreciation-scheduler'', a_model_version = [], a_input = []\<rparr>"

end
