(* ===== verification/PostingSteps.thy ===== *)
theory PostingSteps
  imports DepreciationPosting Books
begin

text \<open>
  What posting one schedule row does to the database, and the steps of which a run of
  \<open>PostDueDepreciationBatch\<close> consists.
\<close>

section \<open>Transactions that may return early\<close>

lemma in_tx_early_result:
  assumes "in_tx_early body w = (res, w')"
  shows "w_db w' = w_db w \<or>
    (\<exists>x w1 w2. res = Inr (Some x) \<and> w_db w1 = w_db w \<and> body w1 = (Inr (Some x), w2) \<and> w_db w' = w_db w2)"
proof -
  obtain b w1 where q: "query (\<lambda>_. Inr ()) w = (b, w1)" by (cases "query (\<lambda>_. Inr ()) w")
  have w1: "w_db w1 = w_db w" by (rule query_db [OF q])
  show ?thesis
  proof (cases b)
    case (Inl e)
    then show ?thesis using assms q w1 by (simp add: in_tx_early_def)
  next
    case (Inr u)
    obtain r w2 where body: "body w1 = (r, w2)" by (cases "body w1")
    show ?thesis
    proof (cases "\<exists>x. r = Inr (Some x)")
      case False
      then have "w_db w' = w_db w"
        using assms q Inr body by (auto simp: in_tx_early_def split: sum.splits option.splits)
      then show ?thesis ..
    next
      case True
      then obtain x where x: "r = Inr (Some x)" ..
      obtain c w3 where q2: "query (\<lambda>_. Inr ()) w2 = (c, w3)" by (cases "query (\<lambda>_. Inr ()) w2")
      have w3: "w_db w3 = w_db w2" by (rule query_db [OF q2])
      show ?thesis
      proof (cases c)
        case (Inl e)
        then have "w' = w3\<lparr>w_db := w_db w\<rparr>" using assms q Inr body x q2 by (simp add: in_tx_early_def)
        then show ?thesis by simp
      next
        case c: (Inr u2)
        then have "res = Inr (Some x)" "w' = w3" using assms q Inr body x q2 by (simp_all add: in_tx_early_def)
        then show ?thesis using w1 w3 body x by blast
      qed
    qed
  qed
qed

lemma in_tx_early_some:
  assumes "in_tx_early body w = (Inr (Some x), w')"
  obtains w1 w2 where "w_db w1 = w_db w" "body w1 = (Inr (Some x), w2)" "w_db w' = w_db w2"
proof -
  obtain b w1 where q: "query (\<lambda>_. Inr ()) w = (b, w1)" by (cases "query (\<lambda>_. Inr ()) w")
  have b: "b = Inr ()" using assms q by (cases b) (simp_all add: in_tx_early_def)
  obtain r w2 where body: "body w1 = (r, w2)" by (cases "body w1")
  obtain c w3 where q2: "query (\<lambda>_. Inr ()) w2 = (c, w3)" by (cases "query (\<lambda>_. Inr ()) w2")
  have "r = Inr (Some x)" "w' = w3"
    using assms q b body q2 by (auto simp: in_tx_early_def split: sum.splits option.splits)
  then show thesis using that query_db [OF q] query_db [OF q2] body by blast
qed

lemma in_tx_early_none: "in_tx_early body w = (res, w') \<Longrightarrow> (\<And>x. res \<noteq> Inr (Some x)) \<Longrightarrow> w_db w' = w_db w"
  using in_tx_early_result by blast

section \<open>The writes\<close>

definition row_update :: "string \<Rightarrow> string \<Rightarrow> int \<Rightarrow> fields \<Rightarrow> rrow list \<Rightarrow> rrow list" where
  "row_update et u v d = upd_where (update_hits et u (Some v)) (update_row d)"

lemma update_and_audit:
  assumes "thenM (UpdateTx E et i d (Some v)) (write_audit E et i2 act actor diff) w = (Inr x, w')"
  obtains u p a where "e_uuid E i = Some u" "p \<in> set (db_records (w_db w))" "update_hits et u (Some v) p"
    "w_db w' = (w_db w)\<lparr>db_records := row_update et u v d (db_records (w_db w)), db_audit := a\<rparr>"
    "accountable actor"
proof -
  from assms obtain y w1 where 1: "UpdateTx E et i d (Some v) w = (Inr y, w1)"
    "write_audit E et i2 act actor diff w1 = (Inr x, w')"
    unfolding thenM_Inr_iff by blast
  obtain u p where "e_uuid E i = Some u" "p \<in> set (db_records (w_db w))" "update_hits et u (Some v) p"
    "w_db w1 = (w_db w)\<lparr>db_records := upd_where (update_hits et u (Some v)) (update_row d) (db_records (w_db w))\<rparr>"
    by (rule UpdateTx_success [OF 1(1)])
  then show thesis using that write_audit_db [OF 1(2)] by (simp add: row_update_def)
qed

lemma increment_success:
  assumes "incrementFixedAssetPostedPeriodCount E assetID actor w = (Inr x, w')"
  obtains u p d a where "e_uuid E assetID = Some u" "p \<in> set (db_records (w_db w))" "rr_id p = u" "live ''FixedAsset'' p"
    "d = fmupd ''posted_period_count'' (VNum (f_add1 (num_field (rr_data p) ''posted_period_count''))) (rr_data p)"
    "w_db w' = (w_db w)\<lparr>db_records := row_update ''FixedAsset'' u (rr_version p) d (db_records (w_db w)), db_audit := a\<rparr>"
    "accountable actor"
proof -
  from assms obtain r w1 where g: "GetTx E ''FixedAsset'' assetID w = (Inr r, w1)"
    and k: "thenM (UpdateTx E ''FixedAsset'' assetID (mergedRecordData (rec_data r) (fmupd ''posted_period_count''
             (VNum (f_add1 (num_field (rec_data r) ''posted_period_count''))) fmempty)) (Some (rec_version r)))
         (write_audit E ''FixedAsset'' assetID ActionUpdate actor (Some (fmupd ''posted_period_count''
             (VNum (f_add1 (num_field (rec_data r) ''posted_period_count''))) fmempty))) w1 = (Inr x, w')"
    unfolding incrementFixedAssetPostedPeriodCount_def Let_def bindM_Inr_iff by blast
  have w1: "w_db w1 = w_db w" by (rule readsD [OF reads_repo(1) g])
  obtain u p where p: "e_uuid E assetID = Some u" "p \<in> set (db_records (w_db w))" "rr_id p = u" "live ''FixedAsset'' p"
    "r = \<lparr>rec_id = assetID, rec_type = ''FixedAsset'', rec_data = rr_data p, rec_version = rr_version p\<rparr>"
    using g unfolding GetTx_def by (rule get_where_success)
  obtain u2 a where "e_uuid E assetID = Some u2" "w_db w' = (w_db w1)\<lparr>db_records :=
      row_update ''FixedAsset'' u2 (rec_version r) (mergedRecordData (rec_data r) (fmupd ''posted_period_count''
             (VNum (f_add1 (num_field (rec_data r) ''posted_period_count''))) fmempty)) (db_records (w_db w1)), db_audit := a\<rparr>"
    "accountable actor"
    by (rule update_and_audit [OF k])
  then show thesis using that [OF p(1-4)] p w1 by (simp add: mergedRecordData_def)
qed

text \<open>What a row holds once it is marked.\<close>

definition marked :: "Record \<Rightarrow> fields" where
  "marked row = fmupd ''posted_at'' (VStr (str_field (rec_data row) ''period_end'')) (rec_data row)"

lemma set_posted_at_success:
  assumes "set_posted_at E row actor w = (Inr x, w')"
  obtains u p a where "e_uuid E (rec_id row) = Some u" "p \<in> set (db_records (w_db w))"
    "update_hits ''DepreciationSchedule'' u (Some (rec_version row)) p"
    "w_db w' = (w_db w)\<lparr>db_records :=
       row_update ''DepreciationSchedule'' u (rec_version row) (marked row) (db_records (w_db w)), db_audit := a\<rparr>"
proof -
  obtain u p a where 1: "e_uuid E (rec_id row) = Some u" "p \<in> set (db_records (w_db w))"
    "update_hits ''DepreciationSchedule'' u (Some (rec_version row)) p"
    "w_db w' = (w_db w)\<lparr>db_records := row_update ''DepreciationSchedule'' u (rec_version row)
       (mergedRecordData (rec_data row) (fmupd ''posted_at'' (VStr (str_field (rec_data row) ''period_end'')) fmempty))
       (db_records (w_db w)), db_audit := a\<rparr>"
    by (rule update_and_audit [OF assms [unfolded set_posted_at_def Let_def]])
  show thesis by (rule that [OF 1(1-3)]) (simp add: 1(4) mergedRecordData_def marked_def)
qed

lemma row_update_id [simp]: "map rr_id (row_update et u v d rs) = map rr_id rs"
  by (simp add: row_update_def map_upd_where)

lemma in_row_update_other: "rr_type q \<noteq> et \<or> rr_id q \<noteq> u \<Longrightarrow> q \<in> set rs \<Longrightarrow> q \<in> set (row_update et u v d rs)"
  by (auto simp: row_update_def in_upd_where update_hits_def live_def intro!: bexI [of _ q])

section \<open>One row\<close>

text \<open>
  What posting a row with an amount does: the row it was read from gets \<open>posted_at\<close>, its asset
  another count, and, unless the amount is zero, the journal one entry that names the row.
\<close>

definition sourced :: "string \<Rightarrow> jerow \<Rightarrow> bool" where
  "sourced u e \<longleftrightarrow> je_source_type e = Some ''DepreciationSchedule'' \<and> je_source_id e = Some u"

definition counted :: "rrow \<Rightarrow> fields" where
  "counted p = fmupd ''posted_period_count'' (VNum (f_add1 (num_field (rr_data p) ''posted_period_count''))) (rr_data p)"

definition books_entry :: "env \<Rightarrow> Record \<Rightarrow> string \<Rightarrow> string \<Rightarrow> string \<Rightarrow> i64 \<Rightarrow> db \<Rightarrow> db \<Rightarrow> bool" where
  "books_entry E row u expenseCode accumCode amount D D' \<longleftrightarrow>
     0 <s amount \<and> \<not> list_ex (sourced u) (db_entries D) \<and>
     (\<exists>e d c. sourced u e \<and> je_id e \<notin> je_id ` set (db_entries D) \<and>
        e_pgdate E (str_field (rec_data row) ''period_end'') = Some (je_date e) \<and>
        db_entries D' = db_entries D @ [e] \<and> db_lines D' = db_lines D @ [d, c] \<and>
        posted E D (je_id e) \<lparr>ln_account = expenseCode, ln_debit = amount, ln_credit = 0\<rparr> d \<and>
        posted E D (je_id e) \<lparr>ln_account = accumCode, ln_debit = 0, ln_credit = amount\<rparr> c)"

definition posts_row :: "env \<Rightarrow> string \<Rightarrow> Record \<Rightarrow> string \<Rightarrow> string \<Rightarrow> i64 \<Rightarrow> db \<Rightarrow> db \<Rightarrow> bool" where
  "posts_row E assetID row expenseCode accumCode amount D D' \<longleftrightarrow>
     (\<exists>u p ua pa.
        e_uuid E (rec_id row) = Some u \<and> p \<in> set (db_records D) \<and>
        update_hits ''DepreciationSchedule'' u (Some (rec_version row)) p \<and>
        e_uuid E assetID = Some ua \<and> pa \<in> set (db_records D) \<and> rr_id pa = ua \<and> live ''FixedAsset'' pa \<and>
        db_records D' = row_update ''DepreciationSchedule'' u (rec_version row) (marked row)
          (row_update ''FixedAsset'' ua (rr_version pa) (counted pa) (db_records D)) \<and>
        db_accounts D' = db_accounts D \<and> db_keys D' = db_keys D \<and>
        (if amount = 0 then db_entries D' = db_entries D \<and> db_lines D' = db_lines D
         else books_entry E row u expenseCode accumCode amount D D'))"

lemma row_update_schedule:
  assumes "q \<in> set (row_update ''FixedAsset'' ua v d rs)" "update_hits ''DepreciationSchedule'' u ev q"
  shows "q \<in> set rs"
  using assms by (auto simp: row_update_def in_upd_where update_hits_def live_def split: if_splits)

lemma markPosted_effect:
  assumes "markPosted E assetID row actor w = (Inr x, w')"
  shows "posts_row E assetID row expenseCode accumCode 0 (w_db w) (w_db w')"
proof -
  obtain w1 w4 where w: "w_db w1 = w_db w" "w_db w' = w_db w4"
    and t: "thenM (incrementFixedAssetPostedPeriodCount E assetID actor) (set_posted_at E row actor) w1 = (Inr x, w4)"
    using assms unfolding markPosted_def by (rule in_tx_success)
  obtain y w2 where 1: "incrementFixedAssetPostedPeriodCount E assetID actor w1 = (Inr y, w2)"
    and 2: "set_posted_at E row actor w2 = (Inr x, w4)"
    using t unfolding thenM_Inr_iff by blast
  obtain ua pa a where a: "e_uuid E assetID = Some ua" "pa \<in> set (db_records (w_db w1))" "rr_id pa = ua" "live ''FixedAsset'' pa"
    "w_db w2 = (w_db w1)\<lparr>db_records := row_update ''FixedAsset'' ua (rr_version pa) (counted pa) (db_records (w_db w1)), db_audit := a\<rparr>"
    by (rule increment_success [OF 1]) (simp add: counted_def that)
  obtain u p b where p: "e_uuid E (rec_id row) = Some u" "p \<in> set (db_records (w_db w2))"
    "update_hits ''DepreciationSchedule'' u (Some (rec_version row)) p"
    "w_db w4 = (w_db w2)\<lparr>db_records :=
       row_update ''DepreciationSchedule'' u (rec_version row) (marked row) (db_records (w_db w2)), db_audit := b\<rparr>"
    by (rule set_posted_at_success [OF 2])
  have "p \<in> set (db_records (w_db w1))" using row_update_schedule p(2,3) a(5) by simp
  then show ?thesis unfolding posts_row_def using a p w by (intro exI [of _ u] exI [of _ p] exI [of _ ua] exI [of _ pa]) simp
qed

lemma post_row_writes_effect:
  assumes run: "post_row_writes E assetID row expenseCode accumCode amount actor w = (Inr x, w')"
    and fresh: "\<And>u. e_uuid E (rec_id row) = Some u \<Longrightarrow> \<not> list_ex (sourced u) (db_entries (w_db w))"
    and blank: "e_uuid E [] = None" and amount: "amount \<noteq> 0"
  shows "posts_row E assetID row expenseCode accumCode amount (w_db w) (w_db w')"
proof -
  from run obtain y w1 je w2 where 1: "incrementFixedAssetPostedPeriodCount E assetID actor w = (Inr y, w1)"
    and 2: "PostTx E (depreciation_entry assetID row expenseCode accumCode amount) actor w1 = (Inr je, w2)"
    and 3: "set_posted_at E row actor w2 = (Inr x, w')"
    unfolding post_row_writes_def thenM_Inr_iff by blast
  obtain ua pa a where a: "e_uuid E assetID = Some ua" "pa \<in> set (db_records (w_db w))" "rr_id pa = ua" "live ''FixedAsset'' pa"
    "w_db w1 = (w_db w)\<lparr>db_records := row_update ''FixedAsset'' ua (rr_version pa) (counted pa) (db_records (w_db w)), db_audit := a\<rparr>"
    by (rule increment_success [OF 1]) (simp add: counted_def that)
  let ?e = "depreciation_entry assetID row expenseCode accumCode amount"
  obtain dt sid t ls b where v: "Entry_Validate ?e = None" and dt: "e_pgdate E (e_date ?e) = Some dt"
    and sid: "(if e_source_id ?e = [] then sid = None else e_uuid E (e_source_id ?e) = sid \<and> sid \<noteq> None)"
    and je: "je \<notin> je_id ` set (db_entries (w_db w1))" and ls: "list_all2 (posted E (w_db w1) je) (e_lines ?e) ls"
    and w2: "w_db w2 = (w_db w1)\<lparr>
       db_entries := db_entries (w_db w1) @
         [\<lparr>je_id = je, je_date = dt, je_description = e_description ?e,
           je_source_type = nullable (e_source_type ?e), je_source_id = sid, je_posted = t\<rparr>],
       db_lines := db_lines (w_db w1) @ ls, db_audit := b\<rparr>"
    by (rule PostTx_entry [OF 2])
  obtain u p c where p: "e_uuid E (rec_id row) = Some u" "p \<in> set (db_records (w_db w2))"
    "update_hits ''DepreciationSchedule'' u (Some (rec_version row)) p"
    "w_db w' = (w_db w2)\<lparr>db_records :=
       row_update ''DepreciationSchedule'' u (rec_version row) (marked row) (db_records (w_db w2)), db_audit := c\<rparr>"
    by (rule set_posted_at_success [OF 3])
  have stored: "p \<in> set (db_records (w_db w))" using row_update_schedule p(2,3) a(5) w2 by simp
  have "one_sided \<lparr>ln_account = expenseCode, ln_debit = amount, ln_credit = 0\<rparr>"
    using v by (simp add: Entry_Validate_None_iff depreciation_entry_def Let_def)
  then have pos: "0 <s amount" by (simp add: one_sided_def amount)
  obtain l1 l2 where l: "ls = [l1, l2]"
    "posted E (w_db w1) je \<lparr>ln_account = expenseCode, ln_debit = amount, ln_credit = 0\<rparr> l1"
    "posted E (w_db w1) je \<lparr>ln_account = accumCode, ln_debit = 0, ln_credit = amount\<rparr> l2"
    using ls by (auto simp: depreciation_entry_def Let_def list_all2_Cons1)
  have acc: "posted E (w_db w1) = posted E (w_db w)" unfolding posted_def by (simp add: a(5))
  have "rec_id row \<noteq> []" using blank p(1) by auto
  then have "sid = Some u" using sid p(1) by (simp add: depreciation_entry_def Let_def)
  then have "books_entry E row u expenseCode accumCode amount (w_db w) (w_db w')"
    unfolding books_entry_def
    using pos fresh [OF p(1)] je l(1) l(2,3) [unfolded acc] dt
    by (auto simp: p(4) w2 a(5) sourced_def nullable_def depreciation_entry_def Let_def)
  then show ?thesis unfolding posts_row_def
    using a(1-4) p(1,3) stored amount
    by (intro exI [of _ u] exI [of _ p] exI [of _ ua] exI [of _ pa]) (simp add: p(4) w2 a(5))
qed

lemma postDepreciationRow_effect:
  assumes run: "postDepreciationRow E assetID row expenseCode accumCode minorUnit actor w = (res, w')"
    and blank: "e_uuid E [] = None"
  shows "res \<noteq> Inr True \<and> w_db w' = w_db w \<or>
    (\<exists>amount. res = Inr True \<and>
       MinorUnits (e_cv E) (num_field (rec_data row) ''depreciation_amount'') minorUnit = Inr amount \<and>
       posts_row E assetID row expenseCode accumCode amount (w_db w) (w_db w'))"
proof (cases "MinorUnits (e_cv E) (num_field (rec_data row) ''depreciation_amount'') minorUnit")
  case (Inl e)
  then show ?thesis using run by (auto simp: postDepreciationRow_def)
next
  case m: (Inr amount)
  show ?thesis
  proof (cases "amount = 0")
    case True
    then have t: "thenM (markPosted E assetID row actor) (ret True) w = (res, w')"
      using run m by (simp add: postDepreciationRow_def)
    obtain r w1 where mk: "markPosted E assetID row actor w = (r, w1)" by (cases "markPosted E assetID row actor w")
    show ?thesis
    proof (cases r)
      case (Inl e)
      then have "w_db w1 = w_db w" using mk in_tx_error unfolding markPosted_def by blast
      then show ?thesis using t mk Inl by (auto simp: thenM_def bindM_def)
    next
      case (Inr x)
      then have "res = Inr True" "w' = w1" using t mk by (simp_all add: thenM_def bindM_def ret_def)
      then show ?thesis using markPosted_effect [OF mk [unfolded Inr]] m True by blast
    qed
  next
    case False
    let ?body = "bindM (ExistsForSource E ''DepreciationSchedule'' (rec_id row)) (\<lambda>alreadyPosted.
               if alreadyPosted then ret None
               else thenM (post_row_writes E assetID row expenseCode accumCode amount actor) (ret (Some ())))"
    have b: "bindM (in_tx_early ?body) (\<lambda>r. ret (r \<noteq> None)) w = (res, w')"
      using run m False by (simp add: postDepreciationRow_def)
    obtain r w1 where tx: "in_tx_early ?body w = (r, w1)" by (cases "in_tx_early ?body w")
    show ?thesis
    proof (cases "r = Inr (Some ())")
      case True
      obtain w2 w3 where w: "w_db w2 = w_db w" "w_db w1 = w_db w3" and body: "?body w2 = (Inr (Some ()), w3)"
        by (rule in_tx_early_some [OF tx [unfolded True]])
      from body obtain al w4 where ex: "ExistsForSource E ''DepreciationSchedule'' (rec_id row) w2 = (Inr al, w4)"
        and k: "(if al then ret None
               else thenM (post_row_writes E assetID row expenseCode accumCode amount actor) (ret (Some ()))) w4 = (Inr (Some ()), w3)"
        unfolding bindM_Inr_iff by blast
      have al: "\<not> al" using k by (cases al) simp_all
      then obtain x where wr: "post_row_writes E assetID row expenseCode accumCode amount actor w4 = (Inr x, w3)"
        using k by (auto simp: thenM_Inr_iff)
      have w4: "w_db w4 = w_db w" using ex w(1) by (auto simp: ExistsForSource_def query_Inr_iff)
      have "\<not> list_ex (sourced u) (db_entries (w_db w4))" if "e_uuid E (rec_id row) = Some u" for u
        using ex al that w(1) w4 by (auto simp: ExistsForSource_def query_Inr_iff sourced_def list_ex_iff)
      from post_row_writes_effect [OF wr this blank False]
      have "posts_row E assetID row expenseCode accumCode amount (w_db w) (w_db w1)" using w4 w by simp
      moreover have "res = Inr True" "w' = w1" using b tx True by (simp_all add: bindM_def ret_def)
      ultimately show ?thesis using m by blast
    next
      case no: False
      then have "w_db w1 = w_db w" using in_tx_early_none [OF tx] by simp
      then show ?thesis using b tx no by (cases r) (auto simp: bindM_def ret_def split: option.splits)
    qed
  qed
qed

section \<open>Retiring an asset\<close>

definition retired :: "rrow \<Rightarrow> string \<Rightarrow> fields" where
  "retired p s = fmupd ''status_id'' (VStr s) (rr_data p)"

lemma transition_effect:
  assumes "transitionToFullyDepreciated E assetID actor w = (res, w')"
  shows "w_db w' = w_db w \<or>
    (\<exists>u p s a. e_uuid E assetID = Some u \<and> p \<in> set (db_records (w_db w)) \<and> rr_id p = u \<and> live ''FixedAsset'' p \<and>
       w_db w' = (w_db w)\<lparr>db_records := row_update ''FixedAsset'' u (rr_version p) (retired p s) (db_records (w_db w)),
         db_audit := a\<rparr>)"
proof -
  obtain r w1 where tx: "in_tx_early (transition_body E assetID actor) w = (r, w1)"
    by (cases "in_tx_early (transition_body E assetID actor) w")
  have w': "w' = w1" using assms tx
    by (cases r) (simp_all add: transitionToFullyDepreciated_def thenM_def bindM_def ret_def)
  show ?thesis
  proof (cases "r = Inr (Some ())")
    case False
    then show ?thesis using in_tx_early_none [OF tx] w' by simp
  next
    case True
    obtain w2 w3 where w: "w_db w2 = w_db w" "w_db w1 = w_db w3" and body: "transition_body E assetID actor w2 = (Inr (Some ()), w3)"
      by (rule in_tx_early_some [OF tx [unfolded True]])
    from body obtain asset w4 where g: "GetTx E ''FixedAsset'' assetID w2 = (Inr asset, w4)"
      and k: "(if str_field (rec_data asset) ''status_id'' = [] then ret None
       else bindM (GetTx E ''Status'' (str_field (rec_data asset) ''status_id'')) (\<lambda>status.
         if str_field (rec_data status) ''code'' \<noteq> statusCodeInService then ret None
         else bindM (statusIDByCodeTx (str_field (rec_data status) ''status_type_id'') statusCodeFullyDepreciated)
           (\<lambda>newStatusID. thenM (UpdateTx E ''FixedAsset'' assetID
               (mergedRecordData (rec_data asset) (fmupd ''status_id'' (VStr newStatusID) fmempty)) (Some (rec_version asset)))
             (thenM (write_audit E ''FixedAsset'' assetID ActionUpdate actor
               (Some (fmupd ''status_id'' (VStr newStatusID) fmempty))) (ret (Some ())))))) w4 = (Inr (Some ()), w3)"
      unfolding transition_body_def Let_def bindM_Inr_iff by blast
    from k obtain status w5 where st: "GetTx E ''Status'' (str_field (rec_data asset) ''status_id'') w4 = (Inr status, w5)"
      and k2: "(if str_field (rec_data status) ''code'' \<noteq> statusCodeInService then ret None
         else bindM (statusIDByCodeTx (str_field (rec_data status) ''status_type_id'') statusCodeFullyDepreciated)
           (\<lambda>newStatusID. thenM (UpdateTx E ''FixedAsset'' assetID
               (mergedRecordData (rec_data asset) (fmupd ''status_id'' (VStr newStatusID) fmempty)) (Some (rec_version asset)))
             (thenM (write_audit E ''FixedAsset'' assetID ActionUpdate actor
               (Some (fmupd ''status_id'' (VStr newStatusID) fmempty))) (ret (Some ()))))) w5 = (Inr (Some ()), w3)"
      by (cases "str_field (rec_data asset) ''status_id'' = []") (auto simp: bindM_Inr_iff)
    from k2 obtain s w6 y w7 where sid: "statusIDByCodeTx (str_field (rec_data status) ''status_type_id'') statusCodeFullyDepreciated w5 = (Inr s, w6)"
      and up: "thenM (UpdateTx E ''FixedAsset'' assetID
               (mergedRecordData (rec_data asset) (fmupd ''status_id'' (VStr s) fmempty)) (Some (rec_version asset)))
             (write_audit E ''FixedAsset'' assetID ActionUpdate actor (Some (fmupd ''status_id'' (VStr s) fmempty))) w6 = (Inr y, w7)"
      and w7: "w3 = w7"
      by (cases "str_field (rec_data status) ''code'' \<noteq> statusCodeInService") (auto simp: bindM_Inr_iff thenM_Inr_iff)
    have reads_sid: "reads (statusIDByCodeTx t c)" for t c
      unfolding statusIDByCodeTx_def by (intro reads_intro)
    have w6: "w_db w6 = w_db w"
      using readsD [OF reads_repo(1) g] readsD [OF reads_repo(1) st] readsD [OF reads_sid sid] w(1) by simp
    obtain u p where p: "e_uuid E assetID = Some u" "p \<in> set (db_records (w_db w2))" "rr_id p = u" "live ''FixedAsset'' p"
      "asset = \<lparr>rec_id = assetID, rec_type = ''FixedAsset'', rec_data = rr_data p, rec_version = rr_version p\<rparr>"
      using g unfolding GetTx_def by (rule get_where_success)
    obtain u2 a where "e_uuid E assetID = Some u2" "w_db w7 = (w_db w6)\<lparr>db_records :=
        row_update ''FixedAsset'' u2 (rec_version asset)
          (mergedRecordData (rec_data asset) (fmupd ''status_id'' (VStr s) fmempty)) (db_records (w_db w6)), db_audit := a\<rparr>"
      by (rule update_and_audit [OF up])
    then have "w_db w' = (w_db w)\<lparr>db_records := row_update ''FixedAsset'' u (rr_version p) (retired p s) (db_records (w_db w)),
         db_audit := a\<rparr>"
      using p w w' w7 w6 by (simp add: retired_def mergedRecordData_def)
    then show ?thesis using p w(1) by (intro disjI2 exI [of _ u] exI [of _ p] exI [of _ s] exI [of _ a]) simp
  qed
qed

section \<open>The loops\<close>

text \<open>A relation that holds across every call of a loop's body holds across the loop.\<close>

lemma tryM_iff: "tryM m w = (x, w') \<longleftrightarrow> (\<exists>r. m w = (r, w') \<and> x = Inr r)"
  by (auto simp: tryM_def split: prod.splits)

lemma post_rows_across:
  assumes "\<And>r w res w'. r \<in> set rs \<Longrightarrow> post r w = (res, w') \<Longrightarrow> S (w_db w) (w_db w')"
    and refl: "\<And>D. S D D" and trans: "\<And>D D' D''. S D D' \<Longrightarrow> S D' D'' \<Longrightarrow> S D D''"
    and "post_rows post m rs p a w = (res, w')"
  shows "S (w_db w) (w_db w')"
  using assms(1,4)
proof (induction rs arbitrary: p a w)
  case (Cons r rs)
  obtain x w1 where r: "post r w = (x, w1)" by (cases "post r w")
  have s: "S (w_db w) (w_db w1)" using Cons.prems(1) [OF _ r] by simp
  show ?case
  proof (cases "m \<le> a")
    case True
    then show ?thesis using Cons.prems(2) refl by simp
  next
    case False
    show ?thesis
    proof (cases x)
      case (Inl e)
      then show ?thesis using Cons.prems(2) False r s by (simp add: bindM_def tryM_def)
    next
      case (Inr ok)
      then have "post_rows post m rs (if ok then p + 1 else p) (a + 1) w1 = (res, w')"
        using Cons.prems(2) False r by (simp add: bindM_def tryM_def)
      then have "S (w_db w1) (w_db w')" using Cons.IH Cons.prems(1) by (metis list.set_intros(2))
      then show ?thesis using s trans by blast
    qed
  qed
qed (use refl in simp)

lemma reads_setup: "reads (asset_setup E assetID rows)"
  unfolding asset_setup_def assetStatusIs_def accountCode_def currencyMinorUnit_def Let_def
  by (intro reads_intro) (auto intro!: reads_intro split: option.split gval.split)

lemma postAsset_across:
  assumes step: "\<And>r x c u w res w'. r \<in> set rows \<Longrightarrow> postDepreciationRow E assetID r x c u actor w = (res, w') \<Longrightarrow>
      S (w_db w) (w_db w')"
    and S: "\<And>D. S D D" "\<And>D D' D''. S D D' \<Longrightarrow> S D' D'' \<Longrightarrow> S D D''"
    and run: "postAssetDepreciation E assetID rows actor m w = (res, w')"
  shows "S (w_db w) (w_db w')"
proof -
  obtain s w1 where s: "asset_setup E assetID rows w = (s, w1)" by (cases "asset_setup E assetID rows w")
  have w1: "w_db w1 = w_db w" by (rule readsD [OF reads_setup s])
  show ?thesis
  proof (cases "\<exists>x c u. s = Inr (Some (x, c, u))")
    case True
    then obtain x c u where "s = Inr (Some (x, c, u))" by blast
    then have pr: "post_rows (\<lambda>r. postDepreciationRow E assetID r x c u actor) m rows 0 0 w1 = (res, w')"
      using run s by (simp add: postAssetDepreciation_def bindM_def tryM_def)
    have "S (w_db w1) (w_db w')" by (rule post_rows_across [where S = S, OF _ S pr], rule step)
    then show ?thesis using w1 by simp
  next
    case False
    then have "w' = w1" using run s
      by (auto simp: postAssetDepreciation_def bindM_def tryM_def ret_def split: sum.splits option.splits)
    then show ?thesis using w1 S(1) by simp
  qed
qed

lemma post_assets_across:
  assumes step: "\<And>a r x c u w res w'. r \<in> set worklist \<Longrightarrow> asset_of r = a \<Longrightarrow>
      postDepreciationRow E a r x c u actor w = (res, w') \<Longrightarrow> S (w_db w) (w_db w')"
    and S: "\<And>D. S D D" "\<And>D D' D''. S D D' \<Longrightarrow> S D' D'' \<Longrightarrow> S D D''"
    and run: "post_assets E actor worklist as n p w = (res, w')"
  shows "S (w_db w) (w_db w')"
  using run
proof (induction "as" arbitrary: n p w)
  case (Cons a "as")
  show ?case
  proof (cases "n \<le> 0")
    case True
    then show ?thesis using Cons.prems S(1) by simp
  next
    case False
    obtain x w1 where r: "postAssetDepreciation E a (rowsByAsset worklist a) actor n w = (x, w1)"
      by (cases "postAssetDepreciation E a (rowsByAsset worklist a) actor n w")
    have s: "S (w_db w) (w_db w1)"
      by (rule postAsset_across [where S = S, OF _ S r], rule step) (auto simp: rowsByAsset_def)
    show ?thesis
    proof (cases x)
      case (Inl e)
      then show ?thesis using Cons.prems False r s by (simp add: bindM_def)
    next
      case (Inr y)
      then obtain k att e where "y = (k, att, e)" by (cases y)
      then have "post_assets E actor worklist as (n - att) (p + k) w1 = (res, w')"
        using Cons.prems False r Inr by (simp add: bindM_def)
      from Cons.IH [OF this] s S(2) show ?thesis by blast
    qed
  qed
qed (use S in simp)

lemma reads_verify: "reads (verifyLifeComplete E a today)"
  unfolding verifyLifeComplete_def Let_def
  by (intro reads_intro) (auto intro!: reads_intro split: option.split gval.split)

lemma heal_across:
  assumes step: "\<And>a w1 w2 t w'. a \<in> set as \<Longrightarrow> verifyLifeComplete E a today w1 = (Inr True, w2) \<Longrightarrow>
      transitionToFullyDepreciated E a actor w2 = (t, w') \<Longrightarrow> S (w_db w1) (w_db w')"
    and S: "\<And>D. S D D" "\<And>D D' D''. S D D' \<Longrightarrow> S D' D'' \<Longrightarrow> S D D''"
    and run: "heal_candidates E today actor as n w = (res, w')"
  shows "S (w_db w) (w_db w')"
  using step run
proof (induction "as" arbitrary: n w)
  case (Cons a "as")
  obtain v w1 where v: "verifyLifeComplete E a today w = (v, w1)" by (cases "verifyLifeComplete E a today w")
  have w1: "w_db w1 = w_db w" by (rule readsD [OF reads_verify v])
  show ?case
  proof (cases "v = Inr True")
    case False
    then have "heal_candidates E today actor as n w1 = (res, w')"
      using Cons.prems(2) v by (simp add: bindM_def tryM_def)
    then have "S (w_db w1) (w_db w')" using Cons.IH Cons.prems(1) by (metis list.set_intros(2))
    then show ?thesis using w1 by simp
  next
    case True
    obtain t w2 where t: "transitionToFullyDepreciated E a actor w1 = (t, w2)"
      by (cases "transitionToFullyDepreciated E a actor w1")
    have s: "S (w_db w) (w_db w2)" using Cons.prems(1) [OF _ v [unfolded True] t] by simp
    obtain m where "heal_candidates E today actor as m w2 = (res, w')"
      using Cons.prems(2) v t True by (cases t) (auto simp: bindM_def tryM_def)
    then have "S (w_db w2) (w_db w')" using Cons.IH Cons.prems(1) by (metis list.set_intros(2))
    then show ?thesis using s S(2) by blast
  qed
qed (use S in simp)

lemma heal_stuck_across:
  assumes step: "\<And>a w1 w2 t w'. a \<in> rr_id ` set (db_records (w_db w)) \<Longrightarrow> verifyLifeComplete E a today w1 = (Inr True, w2) \<Longrightarrow>
      transitionToFullyDepreciated E a actor w2 = (t, w') \<Longrightarrow> S (w_db w1) (w_db w')"
    and S: "\<And>D. S D D" "\<And>D D' D''. S D D' \<Longrightarrow> S D' D'' \<Longrightarrow> S D D''"
    and run: "healStuckFullyDepreciatedAssets E actor s today n w = (res, w')"
  shows "S (w_db w) (w_db w')"
proof -
  let ?q = "LifeCompleteGroupIDs E (life_options s today) n"
  obtain c w1 where c: "?q w = (c, w1)" by (cases "?q w")
  have w1: "w_db w1 = w_db w" using c unfolding LifeCompleteGroupIDs_def by (rule query_db)
  show ?thesis
  proof (cases c)
    case (Inl e)
    then show ?thesis using run c w1 S(1) by (simp add: healStuckFullyDepreciatedAssets_def bindM_def)
  next
    case (Inr cs)
    obtain r w2 where h: "heal_candidates E today actor cs 0 w1 = (r, w2)" by (cases "heal_candidates E today actor cs 0 w1")
    have cs: "set cs \<subseteq> rr_id ` set (db_records (w_db w))"
      using c Inr by (auto simp: LifeCompleteGroupIDs_def query_Inr_iff split: if_splits dest!: in_set_takeD)
    have "S (w_db w1) (w_db w2)" by (rule heal_across [where S = S, OF _ S h], rule step) (use cs in auto)
    moreover have "w' = w2" using run c h Inr
      by (cases r) (simp_all add: healStuckFullyDepreciatedAssets_def bindM_def ret_def)
    ultimately show ?thesis using w1 by simp
  qed
qed

text \<open>The rows the worklist of a run may hold, in the database it starts from.\<close>

definition due_rows :: "env \<Rightarrow> string \<Rightarrow> db \<Rightarrow> rrow set" where
  "due_rows E today D =
     {r \<in> set (db_records D). live ''DepreciationSchedule'' r \<and> blank E (rr_data r) ''posted_at'' \<and>
        due_by E ''period_end'' today (rr_data r)}"

lemma ListDueUnposted_rows:
  assumes "ListDueUnposted E ''DepreciationSchedule'' ''period_end'' today ''posted_at'' g n w = (Inr rs, w')"
  shows "set rs \<subseteq> to_record ` due_rows E today (w_db w)" "length rs \<le> nat n" "w_db w' = w_db w"
proof -
  let ?rows = "filter (\<lambda>r. live ''DepreciationSchedule'' r \<and> blank E (rr_data r) ''posted_at'' \<and>
      due_by E ''period_end'' today (rr_data r) \<and> gate_open E (w_db w) g (rr_data r)) (db_records (w_db w))"
  have rs: "rs = map to_record (take (nat n) (by_age ?rows))"
    using assms by (auto simp: ListDueUnposted_def query_Inr_iff split: if_splits)
  have "set (by_age ?rows) \<subseteq> due_rows E today (w_db w)" by (auto simp: by_age_def due_rows_def)
  then show "set rs \<subseteq> to_record ` due_rows E today (w_db w)" unfolding rs
    using set_take_subset [of "nat n" "by_age ?rows"] by auto
  show "length rs \<le> nat n" by (simp add: rs)
  show "w_db w' = w_db w" using assms unfolding ListDueUnposted_def by (rule query_db)
qed

lemma batch_across:
  assumes row: "\<And>r a x c u w1 res w2. r \<in> to_record ` due_rows E (FormatDate day) (w_db w) \<Longrightarrow> asset_of r = a \<Longrightarrow>
      postDepreciationRow E a r x c u actor w1 = (res, w2) \<Longrightarrow> S (w_db w1) (w_db w2)"
    and heal: "\<And>a w1 w2 t w3. verifyLifeComplete E a (FormatDate day) w1 = (Inr True, w2) \<Longrightarrow>
      transitionToFullyDepreciated E a actor w2 = (t, w3) \<Longrightarrow> S (w_db w1) (w_db w3)"
    and S: "\<And>D. S D D" "\<And>D D' D''. S D D' \<Longrightarrow> S D' D'' \<Longrightarrow> S D D''"
    and run: "PostDueDepreciationBatch E ord day actor n w = (res, w')"
  shows "S (w_db w) (w_db w')"
proof (cases "n \<le> 0")
  case True
  then show ?thesis using run S(1) by (simp add: PostDueDepreciationBatch_def)
next
  case n: False
  let ?today = "FormatDate day"
  have reads_status: "reads (depreciationInServiceStatusID E)"
    unfolding depreciationInServiceStatusID_def
    by (intro reads_intro) (auto intro!: reads_intro split: list.split option.split)
  obtain s w1 where s: "depreciationInServiceStatusID E w = (s, w1)" by (cases "depreciationInServiceStatusID E w")
  have w1: "w_db w1 = w_db w" by (rule readsD [OF reads_status s])
  show ?thesis
  proof (cases "\<exists>sid. s = Inr sid \<and> sid \<noteq> []")
    case False
    then have "w' = w1" using run s n
      by (cases s) (auto simp: PostDueDepreciationBatch_def Let_def bindM_def tryM_def ret_def)
    then show ?thesis using w1 S(1) by simp
  next
    case True
    then obtain sid where sid: "s = Inr sid" "sid \<noteq> []" by blast
    let ?q = "ListDueUnposted E ''DepreciationSchedule'' ''period_end'' ?today ''posted_at'' (due_gate sid) n"
    obtain l w2 where l: "?q w1 = (l, w2)" by (cases "?q w1")
    have w2: "w_db w2 = w_db w" using query_db [OF l [unfolded ListDueUnposted_def]] w1 by simp
    show ?thesis
    proof (cases l)
      case (Inl e)
      then have "w' = w2" using run s n sid l
        by (simp add: PostDueDepreciationBatch_def Let_def bindM_def tryM_def ret_def)
      then show ?thesis using w2 S(1) by simp
    next
      case (Inr wl)
      let ?as = "ord (filter (\<lambda>a. a \<noteq> []) (remdups (map asset_of wl)))"
      obtain p w3 where p: "post_assets E actor wl ?as n 0 w2 = (p, w3)" by (cases "post_assets E actor wl ?as n 0 w2")
      have wl: "set wl \<subseteq> to_record ` due_rows E ?today (w_db w)"
        using ListDueUnposted_rows(1) [OF l [unfolded Inr]] w1 by simp
      have s1: "S (w_db w2) (w_db w3)"
        by (rule post_assets_across [where S = S, OF _ S p], rule row) (use wl in auto)
      show ?thesis
      proof (cases p)
        case (Inl e)
        then have "w' = w3" using run s n sid l Inr p
          by (simp add: PostDueDepreciationBatch_def Let_def bindM_def tryM_def ret_def)
        then show ?thesis using w2 s1 by simp
      next
        case pn: (Inr k)
        let ?h = "healStuckFullyDepreciatedAssets E actor sid ?today n"
        obtain h w4 where h: "?h w3 = (h, w4)" by (cases "?h w3")
        have s2: "S (w_db w3) (w_db w4)" by (rule heal_stuck_across [where S = S, OF _ S h], rule heal)
        have "w' = w4" using run s n sid l Inr p pn h
          by (cases h) (auto simp: PostDueDepreciationBatch_def Let_def bindM_def tryM_def ret_def)
        then show ?thesis using S(2) [OF s1 s2] w2 by simp
      qed
    qed
  qed
qed

end
