(* ===== verification/PostingProps.thy ===== *)
theory PostingProps
  imports PostingSteps ScheduleProps LedgerProps
begin

text \<open>
  Properties of the posting of depreciation: all or nothing, once for each period, balanced books,
  only what is due, and assets retired only when their schedule is exhausted.
\<close>

section \<open>A concrete asset with a period to post\<close>

definition posting_env :: env where
  "posting_env = sample_env\<lparr>e_uuid := (\<lambda>s. if s = [] then None else Some s), e_jtext := (\<lambda>_. ''1'')\<rparr>"

lemma posting_env_sel [simp]:
  "e_uuid posting_env s = (if s = [] then None else Some s)" "e_pgdate posting_env = ParseDate"
  "e_collate posting_env s = s" "e_jtext posting_env v = ''1''"
  by (simp_all add: posting_env_def sample_env_def)

definition plain_row :: "string \<Rightarrow> string \<Rightarrow> (string \<times> gval) list \<Rightarrow> rrow" where
  "plain_row et i fs = \<lparr>rr_id = i, rr_type = et, rr_data = fmap_of_list fs, rr_version = 1, rr_created = 1, rr_deleted = False\<rparr>"

lemma plain_row_sel [simp]:
  "rr_id (plain_row et i fs) = i" "rr_type (plain_row et i fs) = et" "rr_data (plain_row et i fs) = fmap_of_list fs"
  "rr_version (plain_row et i fs) = 1" "rr_created (plain_row et i fs) = 1" "\<not> rr_deleted (plain_row et i fs)"
  by (simp_all add: plain_row_def)

text \<open>An asset in service, of one month's life, with its three accounts, and the row of its only period.\<close>

definition placed_doc :: fields where
  "placed_doc = fmap_of_list [(''status_id'', VStr ''si''), (''useful_life_months'', VNum (Fin 1)),
     (''asset_account_id'', VStr ''c0''), (''depreciation_expense_account_id'', VStr ''c1''),
     (''accumulated_depreciation_account_id'', VStr ''c2'')]"

definition placed_row :: rrow where
  "placed_row = (plain_row ''FixedAsset'' ''fa'' [])\<lparr>rr_data := placed_doc\<rparr>"

definition may_doc :: fields where
  "may_doc = fmap_of_list [(''fixed_asset_id'', VStr ''fa''), (''depreciation_amount'', VNum (Fin 10)),
     (''period_end'', VStr ''2026-05-01'')]"

definition may_row :: rrow where
  "may_row = (plain_row ''DepreciationSchedule'' ''s1'' [])\<lparr>rr_data := may_doc\<rparr>"

definition set_up :: "rrow list" where
  "set_up =
     [plain_row ''StatusType'' ''st'' [(''code'', VStr ''fixed_asset_status'')],
      plain_row ''Status'' ''si'' [(''status_type_id'', VStr ''st''), (''code'', VStr ''in_service'')],
      plain_row ''Status'' ''sf'' [(''status_type_id'', VStr ''st''), (''code'', VStr ''fully_depreciated'')],
      plain_row ''Account'' ''c0'' [(''code'', VStr ''1500'')],
      plain_row ''Account'' ''c1'' [(''code'', VStr ''6000'')],
      plain_row ''Account'' ''c2'' [(''code'', VStr ''1900'')]]"

definition posting_db :: db where
  "posting_db = empty_db\<lparr>db_records := placed_row # may_row # set_up, db_accounts :=
     [\<lparr>ga_id = ''x'', ga_code = ''6000'', ga_name = ''Depreciation'', ga_type = ''expense'',
       ga_currency = ''GBP'', ga_active = True, ga_source = None\<rparr>,
      \<lparr>ga_id = ''y'', ga_code = ''1900'', ga_name = ''Accumulated'', ga_type = ''asset'',
       ga_currency = ''GBP'', ga_active = True, ga_source = None\<rparr>]\<rparr>"

lemma posting_db_sel [simp]:
  "db_records posting_db = placed_row # may_row # set_up" "db_entries posting_db = []" "db_lines posting_db = []"
  "w_db (sample_world D) = D" "w_faults (sample_world D) = []"
  by (simp_all add: posting_db_def empty_db_def sample_world_def)

lemma posting_rows_sel [simp]:
  "rr_id placed_row = ''fa''" "rr_type placed_row = ''FixedAsset''" "rr_data placed_row = placed_doc"
  "rr_version placed_row = 1" "\<not> rr_deleted placed_row" "rr_created placed_row = 1"
  "rr_id may_row = ''s1''" "rr_type may_row = ''DepreciationSchedule''" "rr_data may_row = may_doc"
  "rr_version may_row = 1" "\<not> rr_deleted may_row" "rr_created may_row = 1"
  by (simp_all add: placed_row_def may_row_def)

lemma may_doc_sel [simp]:
  "str_field may_doc ''period_end'' = ''2026-05-01''" "num_field may_doc ''depreciation_amount'' = Fin 10"
  by (simp_all add: may_doc_def str_field_def num_field_def fmlookup_of_list)

lemma posting_db_wf: "records_wf posting_db" "ids_canonical posting_env posting_db" "books_ok posting_db"
  by (simp_all add: records_wf_def ids_canonical_def set_up_def max_int4_def)
    (simp add: books_ok_def posting_db_def empty_db_def)

lemma may_json: "json_ok_fields (marked (to_record may_row))" "json_ok_fields (fmupd ''posted_at'' (VStr d) fmempty)"
  by (auto simp: json_ok_fields_iff marked_def to_record_def may_doc_def fmlookup_of_list split: if_splits)

lemma asset_json: "json_ok_fields (fmupd ''posted_period_count'' (VNum (Fin 1)) placed_doc)"
  "json_ok_fields (fmupd ''posted_period_count'' (VNum (Fin 1)) fmempty)"
  by (auto simp: json_ok_fields_iff placed_doc_def fmlookup_of_list split: if_splits)

lemma may_writes:
  "\<exists>w1. post_row_writes posting_env ''fa'' (to_record may_row) ''6000'' ''1900'' 1000 sample_actor (sample_world posting_db) =
     (Inr (), w1) \<and> w_faults w1 = []"
proof -
  have one: "f_add1 (num_field placed_doc ''posted_period_count'') = Fin 1"
    using rnd64_of_int [of 1] by (simp add: num_field_def placed_doc_def fmlookup_of_list)
  have inc: "\<exists>a. incrementFixedAssetPostedPeriodCount posting_env ''fa'' sample_actor (sample_world posting_db) =
      (Inr (), sample_world (posting_db\<lparr>db_records :=
        update_row (fmupd ''posted_period_count'' (VNum (Fin 1)) placed_doc) placed_row # may_row # set_up, db_audit := a\<rparr>))"
    by (simp add: incrementFixedAssetPostedPeriodCount_def GetTx_def get_where_def one Let_def mergedRecordData_def
        UpdateTx_def asset_json write_audit_def audit_New_def Actor_Validate_def audit_Insert_def
        sample_actor_def live_def update_hits_def int4_arg_def max_int4_def upd_where_def uuid_arg_def rbind_def
        nullable_uuid_def stmt_eval sample_world_def posting_db_def empty_db_def set_up_def)
  then obtain a where inc: "incrementFixedAssetPostedPeriodCount posting_env ''fa'' sample_actor (sample_world posting_db) =
      (Inr (), sample_world (posting_db\<lparr>db_records :=
        update_row (fmupd ''posted_period_count'' (VNum (Fin 1)) placed_doc) placed_row # may_row # set_up, db_audit := a\<rparr>))"
    by blast
  define e0 where "e0 = depreciation_entry ''fa'' (to_record may_row) ''6000'' ''1900'' 1000"
  have e: "e_date e0 = ''2026-05-01''" "e_source_id e0 = ''s1''" "e_source_type e0 = ''DepreciationSchedule''"
    "e_lines e0 = [\<lparr>ln_account = ''6000'', ln_debit = 1000, ln_credit = 0\<rparr>,
       \<lparr>ln_account = ''1900'', ln_debit = 0, ln_credit = 1000\<rparr>]"
    by (simp_all add: e0_def depreciation_entry_def Let_def to_record_def)
  have v: "Entry_Validate e0 = None" by (simp add: Entry_Validate_def e word_sless_alt)
  let ?r = "update_row (fmupd ''posted_period_count'' (VNum (Fin 1)) placed_doc) placed_row"
  have r: "rr_type ?r = ''FixedAsset''" "rr_id ?r = ''fa''" "rr_type may_row = ''DepreciationSchedule''" "rr_id may_row = ''s1''"
    "rr_type placed_row = ''FixedAsset''" "\<not> rr_deleted may_row" "rr_version may_row = 1" "rr_data may_row = may_doc"
    by simp_all
  have post: "\<exists>u w2. PostTx posting_env e0 sample_actor
        (sample_world (posting_db\<lparr>db_records := (?r # may_row # set_up), db_audit := a\<rparr>)) = (Inr u, w2) \<and>
      w_faults w2 = [] \<and> db_records (w_db w2) = (?r # may_row # set_up)"
    by (simp add: PostTx_def v e checkPeriodOpen_def ParseDate_may ListTx_def IDByCode_def
      JournalEntry_CreateTx_def insert_entry_def insert_line_def write_audit_def audit_New_def r live_def InputHash_def
      Actor_Validate_def audit_Insert_def entry_diff_json audit_row_def sample_actor_def nullable_uuid_def
      sample_world_def posting_db_def empty_db_def uuid_arg_def rbind_def set_up_def
      stmt_eval Let_def nullable_def word_sless_alt id_a_def del: ParseDate.simps)
  then obtain u w2 where post: "PostTx posting_env e0 sample_actor
        (sample_world (posting_db\<lparr>db_records := (?r # may_row # set_up), db_audit := a\<rparr>)) = (Inr u, w2)"
    "w_faults w2 = []" "db_records (w_db w2) = (?r # may_row # set_up)" by blast
  have m: "mergedRecordData may_doc (fmupd ''posted_at'' (VStr ''2026-05-01'') fmempty) = marked (to_record may_row)"
    by (simp add: mergedRecordData_def marked_def to_record_def)
  have set: "\<exists>w3. set_posted_at posting_env (to_record may_row) sample_actor w2 = (Inr (), w3) \<and> w_faults w3 = []"
    by (simp add: set_posted_at_def Let_def to_record_def r m [unfolded to_record_def r] may_json [unfolded to_record_def r]
        UpdateTx_def post(2,3) update_hits_def live_def int4_arg_def max_int4_def uuid_arg_def rbind_def set_up_def
        write_audit_def audit_New_def Actor_Validate_def audit_Insert_def sample_actor_def InputHash_def nullable_uuid_def stmt_eval)
  show ?thesis unfolding post_row_writes_def using set by (auto simp: thenM_def bindM_def inc post(1) [unfolded e0_def])
qed

lemma may_run:
  "\<exists>w1. post_row_writes posting_env ''fa'' (to_record may_row) ''6000'' ''1900'' 1000 sample_actor (sample_world posting_db) =
       (Inr (), w1) \<and>
     postDepreciationRow posting_env ''fa'' (to_record may_row) ''6000'' ''1900'' 2 sample_actor (sample_world posting_db) =
       (Inr True, w1)"
proof -
  obtain w1 where w1: "post_row_writes posting_env ''fa'' (to_record may_row) ''6000'' ''1900'' 1000 sample_actor
      (sample_world posting_db) = (Inr (), w1)" "w_faults w1 = []" using may_writes by blast
  have r: "rnd64 1000 = Fin 1000" using rnd64_of_int [of 1000] by simp
  have cost: "MinorUnits cv (Fin 10) 2 = Inr 1000" for cv
    using round_away_int [of 1000] by (simp add: MinorUnits_def FromMajorUnits_cases r)
  have q: "query (\<lambda>_. Inr ()) w = (Inr (), w)" if "w_faults w = []" for w
    using that by (simp add: stmt_eval)
  have ex: "ExistsForSource posting_env ''DepreciationSchedule'' ''s1'' (sample_world posting_db) =
      (Inr False, sample_world posting_db)"
    by (simp add: ExistsForSource_def stmt_eval uuid_arg_def rbind_def)
  have d: "rec_id (to_record may_row) = ''s1''" "rec_data (to_record may_row) = may_doc"
    by (simp_all add: to_record_def)
  let ?body = "bindM (ExistsForSource posting_env ''DepreciationSchedule'' ''s1'') (\<lambda>alreadyPosted.
     if alreadyPosted then ret None
     else thenM (post_row_writes posting_env ''fa'' (to_record may_row) ''6000'' ''1900'' 1000 sample_actor) (ret (Some ())))"
  have "?body (sample_world posting_db) = (Inr (Some ()), w1)"
    by (simp add: thenM_def bindM_def ex w1 ret_def)
  then have "in_tx_early ?body (sample_world posting_db) = (Inr (Some ()), w1)"
    by (simp add: in_tx_early_def q w1(2))
  then show ?thesis using w1(1) by (simp add: postDepreciationRow_def d cost) (simp add: bindM_def ret_def)
qed

section \<open>One row\<close>

text \<open>
  C30. Posting a schedule row is all or nothing. When it reports success, the row, still at the version
  it was read at, now holds \<open>posted_at\<close>, the counter of its asset has grown by one, and the journal
  holds one more entry that names the row and debits and credits its amount (none when the
  amount is zero); otherwise nothing has changed, whichever statement failed.
\<close>

theorem posting_a_period_is_all_or_nothing:
  assumes "postDepreciationRow E assetID row expenseCode accumCode minorUnit actor w = (res, w')"
    and "e_uuid E [] = None"
  shows "if res = Inr True
     then \<exists>amount. MinorUnits (e_cv E) (num_field (rec_data row) ''depreciation_amount'') minorUnit = Inr amount \<and>
       posts_row E assetID row expenseCode accumCode amount (w_db w) (w_db w')
     else w_db w' = w_db w"
  using postDepreciationRow_effect [OF assms] by auto

theorem posting_a_period_is_all_or_nothing_witness:
  "\<exists>w1 amount. postDepreciationRow posting_env ''fa'' (to_record may_row) ''6000'' ''1900'' 2 sample_actor
       (sample_world posting_db) = (Inr True, w1) \<and>
     posts_row posting_env ''fa'' (to_record may_row) ''6000'' ''1900'' amount posting_db (w_db w1)"
proof -
  obtain w1 where w1: "postDepreciationRow posting_env ''fa'' (to_record may_row) ''6000'' ''1900'' 2 sample_actor
       (sample_world posting_db) = (Inr True, w1)" using may_run by blast
  then show ?thesis using posting_a_period_is_all_or_nothing [OF w1] by auto
qed

text \<open>The version of a row that has been posted is one higher; every older copy of it is stale.\<close>

lemma posted_version:
  assumes run: "post_row_writes E assetID row expenseCode accumCode amount actor w = (Inr x, w')"
    and wf: "records_wf (w_db w)" and u: "e_uuid E (rec_id row) = Some u"
    and q: "q \<in> set (db_records (w_db w'))" "rr_id q = u"
  shows "rr_version q = rec_version row + 1"
proof -
  from run obtain y w1 je w2 where 1: "incrementFixedAssetPostedPeriodCount E assetID actor w = (Inr y, w1)"
    and 2: "PostTx E (depreciation_entry assetID row expenseCode accumCode amount) actor w1 = (Inr je, w2)"
    and 3: "set_posted_at E row actor w2 = (Inr x, w')"
    unfolding post_row_writes_def thenM_Inr_iff by blast
  obtain ua d a and pa :: rrow where a: "w_db w1 = (w_db w)\<lparr>db_records := row_update ''FixedAsset'' ua (rr_version pa) d (db_records (w_db w)), db_audit := a\<rparr>"
    by (rule increment_success [OF 1], rule that)
  have r2: "db_records (w_db w2) = db_records (w_db w1)" using 2 by (auto elim!: PostTx_success)
  obtain u' p c where p: "e_uuid E (rec_id row) = Some u'" "p \<in> set (db_records (w_db w2))"
    "update_hits ''DepreciationSchedule'' u' (Some (rec_version row)) p"
    "w_db w' = (w_db w2)\<lparr>db_records :=
       row_update ''DepreciationSchedule'' u' (rec_version row) (marked row) (db_records (w_db w2)), db_audit := c\<rparr>"
    by (rule set_posted_at_success [OF 3])
  have "distinct (map rr_id (db_records (w_db w2)))" using wf by (simp add: r2 a records_wf_def)
  then have same: "p' = p" if "p' \<in> set (db_records (w_db w2))" "rr_id p' = u" for p'
    using that p u by (metis eq_key_imp_eq_value distinct_map inj_onD option.inject update_hits_def)
  obtain q0 where q0: "q0 \<in> set (db_records (w_db w2))"
    "q = (if update_hits ''DepreciationSchedule'' u' (Some (rec_version row)) q0 then update_row (marked row) q0 else q0)"
    using q(1) by (auto simp: p(4) row_update_def in_upd_where)
  then have "rr_id q0 = u" using q(2) by (simp split: if_splits)
  then have "q0 = p" using same q0(1) by blast
  then show ?thesis using q0(2) p(3) by (simp add: update_hits_def)
qed

text \<open>
  C31. Two pollers that read the same row and both found no entry for it yet do not both post it: whichever
  writes second finds the row at another version and its transaction ends in an error,
  whatever asset, accounts or amount it worked with.
\<close>

theorem racing_pollers_post_once:
  assumes wf: "records_wf (w_db w)"
    and first: "post_row_writes E assetID row expenseCode accumCode amount actor w = (Inr x, w1)"
    and next_one: "w_db w2 = w_db w1"
      "post_row_writes E assetID2 row expenseCode2 accumCode2 amount2 actor2 w2 = (res, w3)"
  shows "\<exists>e. res = Inl e"
proof (rule ccontr)
  assume "\<not> (\<exists>e. res = Inl e)"
  then obtain y where run: "post_row_writes E assetID2 row expenseCode2 accumCode2 amount2 actor2 w2 = (Inr y, w3)"
    using next_one(2) by (cases res) auto
  from run obtain v w4 je w5 where 1: "incrementFixedAssetPostedPeriodCount E assetID2 actor2 w2 = (Inr v, w4)"
    and 2: "PostTx E (depreciation_entry assetID2 row expenseCode2 accumCode2 amount2) actor2 w4 = (Inr je, w5)"
    and 3: "set_posted_at E row actor2 w5 = (Inr y, w3)"
    unfolding post_row_writes_def thenM_Inr_iff by blast
  obtain ua d a and pa :: rrow where a: "w_db w4 = (w_db w2)\<lparr>db_records := row_update ''FixedAsset'' ua (rr_version pa) d (db_records (w_db w2)), db_audit := a\<rparr>"
    by (rule increment_success [OF 1], rule that)
  have r5: "db_records (w_db w5) = db_records (w_db w4)" using 2 by (auto elim!: PostTx_success)
  obtain u p where p: "e_uuid E (rec_id row) = Some u" "p \<in> set (db_records (w_db w5))"
    "update_hits ''DepreciationSchedule'' u (Some (rec_version row)) p"
    by (rule set_posted_at_success [OF 3])
  have "p \<in> set (db_records (w_db w1))" using row_update_schedule p(2,3) a next_one(1) r5 by simp
  moreover have "rr_id p = u" "rr_version p = rec_version row" using p(3) by (simp_all add: update_hits_def)
  ultimately show False using posted_version [OF first wf p(1)] by fastforce
qed

theorem racing_pollers_post_once_witness:
  "\<exists>w1. post_row_writes posting_env ''fa'' (to_record may_row) ''6000'' ''1900'' 1000 sample_actor (sample_world posting_db) =
       (Inr (), w1) \<and>
     (\<exists>e. fst (post_row_writes posting_env ''fa'' (to_record may_row) ''6000'' ''1900'' 1000 sample_actor w1) = Inl e)"
proof -
  obtain w1 where w1: "post_row_writes posting_env ''fa'' (to_record may_row) ''6000'' ''1900'' 1000 sample_actor
      (sample_world posting_db) = (Inr (), w1)" using may_writes by blast
  have "records_wf (w_db (sample_world posting_db))" using posting_db_wf by simp
  from racing_pollers_post_once [OF this w1 refl prod.collapse [symmetric]] w1 show ?thesis by blast
qed

section \<open>The books\<close>

lemma books_entry_ok:
  assumes ok: "books_ok D" and e: "books_entry E row u expenseCode accumCode amount D D'"
    and acc: "db_accounts D' = db_accounts D"
  shows "books_ok D'"
proof -
  obtain e d c where pos: "0 <s amount" and new: "je_id e \<notin> je_id ` set (db_entries D)"
    and D': "db_entries D' = db_entries D @ [e]" "db_lines D' = db_lines D @ [d, c]"
    and d: "posted E D (je_id e) \<lparr>ln_account = expenseCode, ln_debit = amount, ln_credit = 0\<rparr> d"
    and c: "posted E D (je_id e) \<lparr>ln_account = accumCode, ln_debit = 0, ln_credit = amount\<rparr> c"
    using e unfolding books_entry_def by blast
  have ids: "jl_entry d = je_id e" "jl_entry c = je_id e" and nets: "net d + net c = 0"
    and side: "0 < jl_debit d \<and> jl_credit d = 0" "jl_debit c = 0 \<and> 0 < jl_credit c"
    and accs: "jl_account d \<in> ga_id ` set (db_accounts D)" "jl_account c \<in> ga_id ` set (db_accounts D)"
    using d c pos by (simp_all add: posted_def net_def word_sless_alt)
  have fk: "jl_entry l \<in> je_id ` set (db_entries D)" if "l \<in> set (db_lines D)" for l
    using ok that by (simp add: books_ok_def)
  have "filter (\<lambda>l. jl_entry l = je_id e) (db_lines D) = []" unfolding filter_empty_conv using fk new by metis
  then have "entry_net D' (je_id e) = 0" using ids nets by (simp add: entry_net_def D')
  moreover have "entry_net D' (je_id x) = entry_net D (je_id x)" if "x \<in> set (db_entries D)" for x
    using that new ids by (auto simp: entry_net_def D')
  ultimately show ?thesis
    using ok new ids side accs by (auto simp: books_ok_def D' acc)
qed

definition once :: "db \<Rightarrow> bool" where
  "once D \<longleftrightarrow> (\<forall>u. length (filter (sourced u) (db_entries D)) \<le> 1)"

lemma row_keeps_books:
  assumes run: "postDepreciationRow E a row x c m actor w = (res, w')" and blank: "e_uuid E [] = None"
  shows "(books_ok (w_db w) \<longrightarrow> books_ok (w_db w')) \<and> (once (w_db w) \<longrightarrow> once (w_db w')) \<and>
    db_accounts (w_db w') = db_accounts (w_db w)"
proof (cases "w_db w' = w_db w")
  case False
  then obtain amount where p: "posts_row E a row x c amount (w_db w) (w_db w')"
    using postDepreciationRow_effect [OF run blank] by blast
  then obtain u where acc: "db_accounts (w_db w') = db_accounts (w_db w)"
    and b: "if amount = 0 then db_entries (w_db w') = db_entries (w_db w) \<and> db_lines (w_db w') = db_lines (w_db w)
         else books_entry E row u x c amount (w_db w) (w_db w')"
    unfolding posts_row_def by blast
  show ?thesis
  proof (cases "amount = 0")
    case True
    then have e: "db_entries (w_db w') = db_entries (w_db w)" "db_lines (w_db w') = db_lines (w_db w)"
      using b by simp_all
    have "books_ok (w_db w') = books_ok (w_db w)" by (rule books_ok_cong [OF e acc])
    then show ?thesis using acc e by (simp add: once_def)
  next
    case nz: False
    then have e: "books_entry E row u x c amount (w_db w) (w_db w')" using b by simp
    then obtain e where fresh: "\<not> list_ex (sourced u) (db_entries (w_db w))" and s: "sourced u e"
      and D': "db_entries (w_db w') = db_entries (w_db w) @ [e]"
      unfolding books_entry_def by blast
    have "length (filter (sourced v) (db_entries (w_db w'))) \<le> 1" if "once (w_db w)" for v
    proof (cases "v = u")
      case True
      then have "filter (sourced v) (db_entries (w_db w)) = []"
        using fresh by (auto simp: filter_empty_conv list_ex_iff)
      then show ?thesis by (simp add: D')
    next
      case False
      then have "\<not> sourced v e" using s by (auto simp: sourced_def)
      then show ?thesis using that by (simp add: D' once_def)
    qed
    then show ?thesis using books_entry_ok [OF _ e acc] acc by (simp add: once_def)
  qed
qed simp

lemma transition_books:
  assumes "transitionToFullyDepreciated E a actor w = (t, w')"
  shows "db_entries (w_db w') = db_entries (w_db w)" "db_lines (w_db w') = db_lines (w_db w)"
    "db_accounts (w_db w') = db_accounts (w_db w)"
  using transition_effect [OF assms] by auto

lemma batch_keeps_books:
  assumes run: "PostDueDepreciationBatch E ord day actor n w = (res, w')" and blank: "e_uuid E [] = None"
  shows "(books_ok (w_db w) \<longrightarrow> books_ok (w_db w')) \<and> (once (w_db w) \<longrightarrow> once (w_db w')) \<and>
    db_accounts (w_db w') = db_accounts (w_db w)"
proof -
  define S where "S = (\<lambda>D D'. (books_ok D \<longrightarrow> books_ok D') \<and> (once D \<longrightarrow> once D') \<and> db_accounts D' = db_accounts D)"
  have row: "S (w_db w1) (w_db w2)" if "postDepreciationRow E a r x c u actor w1 = (t, w2)" for a r x c u w1 t w2
    using row_keeps_books [OF that blank] by (simp add: S_def)
  have heal: "S (w_db w1) (w_db w3)"
    if "verifyLifeComplete E a (FormatDate day) w1 = (Inr True, w2)" "transitionToFullyDepreciated E a actor w2 = (t, w3)"
    for a w1 w2 t w3
  proof -
    have "w_db w2 = w_db w1" by (rule readsD [OF reads_verify that(1)])
    then have e: "db_entries (w_db w3) = db_entries (w_db w1)" "db_lines (w_db w3) = db_lines (w_db w1)"
      "db_accounts (w_db w3) = db_accounts (w_db w1)"
      using transition_books [OF that(2)] by simp_all
    have "books_ok (w_db w3) = books_ok (w_db w1)" by (rule books_ok_cong [OF e])
    then show ?thesis using e by (simp add: S_def once_def)
  qed
  have "S (w_db w) (w_db w')"
    by (rule batch_across [where S = S, OF row heal _ _ run]) (simp_all add: S_def)
  then show ?thesis by (simp add: S_def)
qed

text \<open>
  A run of \<open>PostDueDepreciationBatch\<close>, whatever is due and whatever fails, keeps the books in order:
  every journal entry balances, so every trial balance, over any choice of dates, is zero.
\<close>

theorem depreciation_keeps_books_balanced:
  assumes "PostDueDepreciationBatch E ord day actor n w = (res, w')"
    and "e_uuid E [] = None" and "books_ok (w_db w)"
  shows "books_ok (w_db w') \<and> sum_list (map (balance_where (w_db w') P) (db_accounts (w_db w'))) = 0"
  using batch_keeps_books [OF assms(1,2)] assms(3) balances_sum_zero by blast

theorem depreciation_keeps_books_balanced_witness:
  "books_ok (w_db (snd (PostDueDepreciationBatch posting_env id may_day sample_actor 5 (sample_world posting_db))))"
  using depreciation_keeps_books_balanced [OF prod.collapse [symmetric], of posting_env "sample_world posting_db"]
    posting_db_wf by simp

text \<open>
  What may happen to the journal: runs of the scheduler, pollers that post a row from an old copy
  of it, postings of other sources, and writes that leave the journal alone.
\<close>

inductive journal_step :: "env \<Rightarrow> db \<Rightarrow> db \<Rightarrow> bool" for E :: env where
  step_run: "PostDueDepreciationBatch E ord day actor n w = (rb, w') \<Longrightarrow> journal_step E (w_db w) (w_db w')"
| step_row: "postDepreciationRow E a row x c m actor w = (rr, w') \<Longrightarrow> journal_step E (w_db w) (w_db w')"
| step_entry: "e_source_type e \<noteq> ''DepreciationSchedule'' \<Longrightarrow> Post E e actor w = (re, w') \<Longrightarrow>
    journal_step E (w_db w) (w_db w')"
| step_elsewhere: "db_entries D' = db_entries D \<Longrightarrow> journal_step E D D'"

lemma journal_step_once:
  assumes "journal_step E D D'" "once D" and blank: "e_uuid E [] = None"
  shows "once D'"
  using assms(1)
proof cases
  case (step_run ord day actor n w rb w')
  then show ?thesis using batch_keeps_books [OF step_run(3) blank] assms(2) by simp
next
  case (step_row a row x c m actor w rr w')
  then show ?thesis using row_keeps_books [OF step_row(3) blank] assms(2) by simp
next
  case (step_entry e actor w re w')
  show ?thesis
  proof (cases re)
    case (Inl er)
    then show ?thesis using step_entry assms(2) in_tx_error unfolding Post_def by metis
  next
    case (Inr u)
    obtain w1 w2 where w: "w_db w1 = w_db w" "PostTx E e actor w1 = (Inr u, w2)" "w_db w' = w_db w2"
      by (rule Post_success [OF step_entry(4) [unfolded Inr]])
    obtain j where j: "db_entries (w_db w2) = db_entries (w_db w1) @ [j]" "je_source_type j = nullable (e_source_type e)"
      using w(2) by (auto elim!: PostTx_success)
    then have "\<not> sourced v j" for v using step_entry(3) by (auto simp: sourced_def nullable_def)
    then show ?thesis using assms(2) j w step_entry(1,2) by (simp add: once_def)
  qed
next
  case step_elsewhere
  then show ?thesis using assms(2) by (simp add: once_def)
qed

text \<open>
  C32. Over every history of runs, racing pollers with copies of rows of any age, other postings and
  other writes, with failures anywhere, each schedule row is booked at most once.
\<close>

theorem periods_booked_at_most_once:
  assumes "(journal_step E)\<^sup>*\<^sup>* D D'" and "e_uuid E [] = None" and "once D"
  shows "length (filter (sourced u) (db_entries D')) \<le> 1"
proof -
  have "once D'" using assms(1,3) by induction (use journal_step_once assms(2) in blast)+
  then show ?thesis by (simp add: once_def)
qed

theorem periods_booked_at_most_once_witness:
  "length (filter (sourced ''s1'') (db_entries (w_db (snd (postDepreciationRow posting_env ''fa'' (to_record may_row)
     ''6000'' ''1900'' 2 sample_actor (sample_world posting_db)))))) \<le> 1"
proof -
  have "journal_step posting_env (w_db (sample_world posting_db)) (w_db (snd (postDepreciationRow posting_env ''fa''
      (to_record may_row) ''6000'' ''1900'' 2 sample_actor (sample_world posting_db))))"
    by (rule journal_step.step_row [OF prod.collapse [symmetric]])
  moreover have "once (w_db (sample_world posting_db))" by (simp add: once_def)
  ultimately show ?thesis using periods_booked_at_most_once [OF r_into_rtranclp] by simp
qed

section \<open>Which rows a run changes\<close>

text \<open>Where the rows of a database are after some of its due rows have been posted.\<close>

definition rows_follow :: "env \<Rightarrow> string \<Rightarrow> db \<Rightarrow> db \<Rightarrow> bool" where
  "rows_follow E today D0 D \<longleftrightarrow>
     map rr_id (db_records D) = map rr_id (db_records D0) \<and>
     (\<forall>p \<in> set (db_records D0). rr_type p \<noteq> ''FixedAsset'' \<longrightarrow>
        p \<in> set (db_records D) \<or>
        p \<in> due_rows E today D0 \<and> update_row (marked (to_record p)) p \<in> set (db_records D))"

lemma rows_follow_row:
  assumes ids: "records_wf D0" "ids_canonical E D0" and f: "rows_follow E today D0 (w_db w)"
    and r0: "r0 \<in> due_rows E today D0"
    and run: "postDepreciationRow E a (to_record r0) x c m actor w = (res, w')" and blank: "e_uuid E [] = None"
  shows "rows_follow E today D0 (w_db w')"
proof (cases "w_db w' = w_db w")
  case False
  then obtain amount where "posts_row E a (to_record r0) x c amount (w_db w) (w_db w')"
    using postDepreciationRow_effect [OF run blank] by blast
  then obtain u p ua d v where u: "e_uuid E (rr_id r0) = Some u" and p: "p \<in> set (db_records (w_db w))"
    "update_hits ''DepreciationSchedule'' u (Some (rr_version r0)) p"
    and D': "db_records (w_db w') = row_update ''DepreciationSchedule'' u (rr_version r0) (marked (to_record r0))
          (row_update ''FixedAsset'' ua v d (db_records (w_db w)))"
    unfolding posts_row_def by (auto simp: to_record_def)
  have mem: "r0 \<in> set (db_records D0)" using r0 by (simp add: due_rows_def)
  then have u0: "u = rr_id r0" using u ids(2) by (simp add: ids_canonical_def)
  have dist: "distinct (map rr_id (db_records (w_db w)))"
    using f ids(1) by (simp add: rows_follow_def records_wf_def)
  have uniq: "q = p" if "q \<in> set (db_records (w_db w))" "rr_id q = rr_id r0" for q
  proof -
    have "rr_id q = rr_id p" using p(2) that(2) u0 by (simp add: update_hits_def)
    then show ?thesis using dist that(1) p(1) by (meson distinct_map inj_onD)
  qed
  have stay: "q \<in> set (db_records (w_db w'))"
    if "q \<in> set (db_records (w_db w))" "rr_type q \<noteq> ''FixedAsset''" "rr_id q \<noteq> rr_id r0" for q
    unfolding D' using that u0 by (intro in_row_update_other) auto
  have "q \<in> set (db_records (w_db w')) \<or>
      q \<in> due_rows E today D0 \<and> update_row (marked (to_record q)) q \<in> set (db_records (w_db w'))"
    if q: "q \<in> set (db_records D0)" "rr_type q \<noteq> ''FixedAsset''" for q
  proof (cases "rr_id q = rr_id r0")
    case False
    then have "rr_id (update_row (marked (to_record q)) q) \<noteq> rr_id r0"
      "rr_type (update_row (marked (to_record q)) q) \<noteq> ''FixedAsset''" using q by simp_all
    then show ?thesis using f q False stay unfolding rows_follow_def by blast
  next
    case True
    then have qr: "q = r0" using rr_id_unique [OF ids(1) q(1) mem] by simp
    have "update_row (marked (to_record r0)) r0 \<notin> set (db_records (w_db w))"
    proof
      assume "update_row (marked (to_record r0)) r0 \<in> set (db_records (w_db w))"
      then have "update_row (marked (to_record r0)) r0 = p" using uniq by simp
      then have "rr_version p = rr_version r0 + 1" by auto
      then show False using p(2) by (simp add: update_hits_def)
    qed
    then have "r0 \<in> set (db_records (w_db w))" using f q qr unfolding rows_follow_def by blast
    then have "p = r0" using uniq by blast
    then have "r0 \<in> set (row_update ''FixedAsset'' ua v d (db_records (w_db w)))"
      using p(1) q(2) qr by (intro in_row_update_other) auto
    then have "update_row (marked (to_record r0)) r0 \<in> set (db_records (w_db w'))"
      unfolding D' row_update_def [of "''DepreciationSchedule''"] in_upd_where
      by (rule bexI [rotated]) (use p(2) \<open>p = r0\<close> in simp)
    then show ?thesis using r0 qr by simp
  qed
  then show ?thesis using f unfolding rows_follow_def D' by simp
qed (use f in simp)

lemma rows_follow_retire:
  assumes "rows_follow E today D0 (w_db w)" "transitionToFullyDepreciated E a actor w = (t, w')"
  shows "rows_follow E today D0 (w_db w')"
proof (cases "w_db w' = w_db w")
  case False
  then obtain u v d where D': "db_records (w_db w') = row_update ''FixedAsset'' u v d (db_records (w_db w))"
    using transition_effect [OF assms(2)] by auto
  have "q \<in> set (db_records (w_db w'))" if "q \<in> set (db_records (w_db w))" "rr_type q \<noteq> ''FixedAsset''" for q
    unfolding D' using that by (intro in_row_update_other) auto
  then show ?thesis using assms(1) unfolding rows_follow_def D' by auto
qed (use assms(1) in simp)

text \<open>The run that posts the period of the sample asset, up to the sweep.\<close>

lemma may_batch:
  obtains w1 h w2 where
    "post_row_writes posting_env ''fa'' (to_record may_row) ''6000'' ''1900'' 1000 sample_actor (sample_world posting_db) =
       (Inr (), w1)"
    "healStuckFullyDepreciatedAssets posting_env sample_actor ''si'' ''2026-05-01'' 5 w1 = (h, w2)"
    "w_db (snd (PostDueDepreciationBatch posting_env id may_day sample_actor 5 (sample_world posting_db))) = w_db w2"
proof -
  let ?w = "sample_world posting_db"
  have day: "FormatDate may_day = ''2026-05-01''"
    by (simp add: FormatDate_def may_day_def zeros_to_def digits_eval digit_char_eval(2) [simplified])
  have st: "depreciationInServiceStatusID posting_env ?w = (Inr ''si'', ?w)"
    by (simp add: depreciationInServiceStatusID_def ListByField_def field_is_def arrow_text_def live_def set_up_def by_age_def
        to_record_def fmlookup_of_list str_field_def statusCodeInService_def stmt_eval get_field_def placed_doc_def may_doc_def
        bindM_def ret_def)
  have due: "ListDueUnposted posting_env ''DepreciationSchedule'' ''period_end'' ''2026-05-01'' ''posted_at'' (due_gate ''si'') 5 ?w =
      (Inr [to_record may_row], ?w)"
    by (simp add: ListDueUnposted_def blank_def due_by_def gate_open_def due_gate_def field_is_def arrow_text_def live_def set_up_def
        by_age_def fmlookup_of_list get_field_def placed_doc_def may_doc_def text_key_def stmt_eval)
  have asset: "GetTx posting_env ''FixedAsset'' ''fa'' ?w =
      (Inr \<lparr>rec_id = ''fa'', rec_type = ''FixedAsset'', rec_data = placed_doc, rec_version = 1\<rparr>, ?w)"
    by (simp add: GetTx_def get_where_def uuid_arg_def rbind_def live_def stmt_eval)
  have doc: "str_field placed_doc ''status_id'' = ''si''" "str_field placed_doc ''asset_account_id'' = ''c0''"
    "str_field placed_doc ''depreciation_expense_account_id'' = ''c1''"
    "str_field placed_doc ''accumulated_depreciation_account_id'' = ''c2''" "str_field placed_doc ''currency_id'' = []"
    by (simp_all add: str_field_def placed_doc_def fmlookup_of_list)
  have status: "assetStatusIs posting_env \<lparr>rec_id = ''fa'', rec_type = ''FixedAsset'', rec_data = placed_doc, rec_version = 1\<rparr>
      statusCodeInService ?w = (Inr True, ?w)"
    by (simp add: assetStatusIs_def placed_doc_def Let_def GetTx_def get_where_def uuid_arg_def rbind_def live_def stmt_eval set_up_def
        str_field_def fmlookup_of_list statusCodeInService_def bindM_def ret_def)
  have acc: "accountCode posting_env ''c0'' ?w = (Inr ''1500'', ?w)" "accountCode posting_env ''c1'' ?w = (Inr ''6000'', ?w)"
    "accountCode posting_env ''c2'' ?w = (Inr ''1900'', ?w)"
    by (simp_all add: accountCode_def GetTx_def get_where_def uuid_arg_def rbind_def live_def stmt_eval set_up_def
        str_field_def fmlookup_of_list bindM_def ret_def)
  have ready: "asset_setup posting_env ''fa'' [to_record may_row] ?w = (Inr (Some (''6000'', ''1900'', 2)), ?w)"
    by (simp add: asset_setup_def bindM_def asset status doc acc thenM_def ret_def defaultCurrencyMinorUnit_def)
  obtain w1 where w1: "post_row_writes posting_env ''fa'' (to_record may_row) ''6000'' ''1900'' 1000 sample_actor ?w = (Inr (), w1)"
    and row: "postDepreciationRow posting_env ''fa'' (to_record may_row) ''6000'' ''1900'' 2 sample_actor ?w = (Inr True, w1)"
    using may_run by blast
  obtain h w2 where h: "healStuckFullyDepreciatedAssets posting_env sample_actor ''si'' ''2026-05-01'' 5 w1 = (h, w2)"
    by (cases "healStuckFullyDepreciatedAssets posting_env sample_actor ''si'' ''2026-05-01'' 5 w1")
  have ao: "asset_of (to_record may_row) = ''fa''"
    by (simp add: asset_of_def to_record_def may_doc_def str_field_def fmlookup_of_list)
  have "postAssetDepreciation posting_env ''fa'' [to_record may_row] sample_actor 5 ?w = (Inr (1, 1, None), w1)"
    by (simp add: postAssetDepreciation_def bindM_def tryM_def ready row ret_def)
  then have "post_assets posting_env sample_actor [to_record may_row] [''fa''] 5 0 ?w = (Inr 1, w1)"
    by (simp add: bindM_def rowsByAsset_def ao ret_def)
  then have "\<exists>res. PostDueDepreciationBatch posting_env id may_day sample_actor 5 ?w = (res, w2)"
    using h by (cases h) (auto simp: PostDueDepreciationBatch_def day Let_def bindM_def tryM_def st due ao ret_def)
  then show thesis using that [OF w1 h] by auto
qed

lemma sweep_leaves_rows_posted:
  assumes "healStuckFullyDepreciatedAssets E actor s today n w = (h, w')" "p \<notin> set (db_records (w_db w))"
    and "rr_type p \<noteq> ''FixedAsset''"
  shows "p \<notin> set (db_records (w_db w'))"
proof -
  define S :: "db \<Rightarrow> db \<Rightarrow> bool" where "S = (\<lambda>D D'. p \<notin> set (db_records D) \<longrightarrow> p \<notin> set (db_records D'))"
  have heal: "S (w_db w1) (w_db w3)"
    if v: "verifyLifeComplete E a today w1 = (Inr True, w2)" and t: "transitionToFullyDepreciated E a actor w2 = (t, w3)"
    for a w1 w2 t w3
  proof (cases "w_db w3 = w_db w2")
    case False
    then obtain u v d where "db_records (w_db w3) = row_update ''FixedAsset'' u v d (db_records (w_db w2))"
      using transition_effect [OF t] by auto
    then show ?thesis using assms(3) readsD [OF reads_verify v]
      by (auto simp: S_def row_update_def in_upd_where update_hits_def live_def split: if_splits)
  qed (use readsD [OF reads_verify v] in \<open>simp add: S_def\<close>)
  have "S (w_db w) (w_db w')"
    by (rule heal_stuck_across [where S = S, OF heal _ _ assms(1)], assumption+) (simp_all add: S_def)
  then show ?thesis using assms(2) by (simp add: S_def)
qed

text \<open>
  C33. A run changes no record but fixed assets and schedule rows that were live, unposted and due when
  it started; and each of those it either leaves as it was or marks posted, once, with
  \<open>posted_at\<close> set to its \<open>period_end\<close> and every other field as it was.
\<close>

theorem only_due_rows_are_posted:
  assumes run: "PostDueDepreciationBatch E ord day actor n w = (res, w')"
    and blank: "e_uuid E [] = None"
    and wf: "records_wf (w_db w)" "ids_canonical E (w_db w)"
    and p: "p \<in> set (db_records (w_db w))" "rr_type p \<noteq> ''FixedAsset''"
  shows "p \<in> set (db_records (w_db w')) \<or>
    p \<in> due_rows E (FormatDate day) (w_db w) \<and>
    p\<lparr>rr_data := json_norm_fields (fmupd ''posted_at'' (VStr (str_field (rr_data p) ''period_end'')) (rr_data p)),
       rr_version := rr_version p + 1\<rparr> \<in> set (db_records (w_db w'))"
proof -
  define S where "S = (\<lambda>D D'. rows_follow E (FormatDate day) (w_db w) D \<longrightarrow> rows_follow E (FormatDate day) (w_db w) D')"
  have row: "S (w_db w1) (w_db w2)"
    if "r \<in> to_record ` due_rows E (FormatDate day) (w_db w)" "postDepreciationRow E a r x c u actor w1 = (t, w2)"
    for r a x c u w1 t w2
    using that rows_follow_row [OF wf _ _ _ blank] unfolding S_def by blast
  have heal: "S (w_db w1) (w_db w3)"
    if "verifyLifeComplete E a (FormatDate day) w1 = (Inr True, w2)" "transitionToFullyDepreciated E a actor w2 = (t, w3)"
    for a w1 w2 t w3
    using rows_follow_retire [OF _ that(2)] readsD [OF reads_verify that(1)] unfolding S_def by simp
  have "S (w_db w) (w_db w')"
    by (rule batch_across [where S = S, OF row heal _ _ run], assumption+) (simp_all add: S_def)
  moreover have "rows_follow E (FormatDate day) (w_db w) (w_db w)" by (simp add: rows_follow_def)
  ultimately have "rows_follow E (FormatDate day) (w_db w) (w_db w')" by (simp add: S_def)
  then show ?thesis using p by (simp add: rows_follow_def update_row_def marked_def to_record_def)
qed

theorem only_due_rows_are_posted_witness:
  "let D = w_db (snd (PostDueDepreciationBatch posting_env id may_day sample_actor 5 (sample_world posting_db))) in
   may_row \<notin> set (db_records D) \<and>
   may_row\<lparr>rr_data := json_norm_fields (fmupd ''posted_at'' (VStr ''2026-05-01'') may_doc), rr_version := 2\<rparr>
     \<in> set (db_records D)"
proof -
  let ?D = "w_db (snd (PostDueDepreciationBatch posting_env id may_day sample_actor 5 (sample_world posting_db)))"
  obtain w1 h w2 where run: "post_row_writes posting_env ''fa'' (to_record may_row) ''6000'' ''1900'' 1000 sample_actor
        (sample_world posting_db) = (Inr (), w1)"
    "healStuckFullyDepreciatedAssets posting_env sample_actor ''si'' ''2026-05-01'' 5 w1 = (h, w2)" "?D = w_db w2"
    by (rule may_batch)
  have "may_row \<notin> set (db_records (w_db w1))"
    using posted_version [OF run(1), of "''s1''" may_row] posting_db_wf(1) by (auto simp: to_record_def)
  then have gone: "may_row \<notin> set (db_records ?D)"
    using sweep_leaves_rows_posted [OF run(2)] run(3) by simp
  then show ?thesis
    using only_due_rows_are_posted [where E = posting_env and w = "sample_world posting_db" and p = may_row and day = may_day
        and ord = id and actor = sample_actor and n = 5, OF prod.collapse [symmetric]]
      posting_db_wf by (simp add: Let_def)
qed

section \<open>Which assets are retired\<close>

text \<open>
  All periods due by a day are posted, and at least as many are posted as the asset has months of
  useful life.
\<close>

definition exhausted :: "env \<Rightarrow> string \<Rightarrow> db \<Rightarrow> rrow \<Rightarrow> bool" where
  "exhausted E today D p \<longleftrightarrow>
     (\<exists>life. fmlookup (rr_data p) ''useful_life_months'' = Some (VNum life) \<and> \<not> f_lt life (Fin 0) \<and> \<not> f_eq life (Fin 0) \<and>
        (let n = Fin (of_nat (length (filter (\<lambda>q. asset_row E (rr_id p) q \<and> posted_row q) (db_records D))))
         in f_lt life n \<or> f_eq life n) \<and>
        (\<forall>q \<in> set (db_records D). asset_row E (rr_id p) q \<and> \<not> posted_row q \<longrightarrow>
           \<not> (str_field (rr_data q) ''period_end'' \<noteq> [] \<and> str_field (rr_data q) ''period_end'' \<le> today)))"

lemma asset_row_fun: "asset_row E i = (\<lambda>r. live ''DepreciationSchedule'' r \<and> field_is E r (''fixed_asset_id'', i))"
  by (rule ext) (simp add: asset_row_def)

lemma verify_exhausted:
  assumes v: "verifyLifeComplete E i today w = (Inr True, w')" and u: "e_uuid E i = Some (rr_id p)"
    and p: "p \<in> set (db_records (w_db w))" "rr_id p = i" and wf: "distinct (map rr_id (db_records (w_db w)))"
  shows "exhausted E today (w_db w) p"
proof -
  from v obtain asset w1 where g: "GetTx E ''FixedAsset'' i w = (Inr asset, w1)"
    and k: "(case fmlookup (rec_data asset) ''useful_life_months'' of
         Some (VNum life) \<Rightarrow>
           if f_lt life (Fin 0) \<or> f_eq life (Fin 0) then ret False
           else bindM (ListByField E ''DepreciationSchedule'' ''fixed_asset_id'' i) (\<lambda>rows.
             let n = Fin (of_nat (length (filter row_posted rows))) in
             if list_ex (row_outstanding today) rows then ret False
             else ret (f_lt life n \<or> f_eq life n))
       | _ \<Rightarrow> ret False) w1 = (Inr True, w')"
    unfolding verifyLifeComplete_def bindM_Inr_iff by blast
  have w1: "w_db w1 = w_db w" by (rule readsD [OF reads_repo(1) g])
  obtain p' where "p' \<in> set (db_records (w_db w))" "rr_id p' = rr_id p" "rec_data asset = rr_data p'"
    using g u unfolding GetTx_def by (auto elim!: get_where_success)
  then have data: "rec_data asset = rr_data p" using wf p(1) by (metis distinct_map inj_onD)
  obtain life where life: "fmlookup (rr_data p) ''useful_life_months'' = Some (VNum life)"
    using k data by (auto simp: ret_def split: option.splits gval.splits)
  have pos: "\<not> (f_lt life (Fin 0) \<or> f_eq life (Fin 0))" using k data life by (auto simp: ret_def split: if_splits)
  from k data life pos obtain rows w2 where
      l: "ListByField E ''DepreciationSchedule'' ''fixed_asset_id'' i w1 = (Inr rows, w2)"
    and k2: "(let n = Fin (of_nat (length (filter row_posted rows))) in
             if list_ex (row_outstanding today) rows then ret False
             else ret (f_lt life n \<or> f_eq life n)) w2 = (Inr True, w')"
    by (simp add: bindM_Inr_iff) blast
  have ok: "\<not> list_ex (row_outstanding today) rows" "let n = Fin (of_nat (length (filter row_posted rows))) in f_lt life n \<or> f_eq life n"
    using k2 by (auto simp: Let_def ret_def split: if_splits)
  have rows: "rows = map to_record (by_age (filter (asset_row E i) (db_records (w_db w))))"
    using l w1 by (auto simp: ListByField_def query_Inr_iff asset_row_fun)
  have n: "length (filter row_posted rows) =
      length (filter (\<lambda>q. asset_row E i q \<and> posted_row q) (db_records (w_db w)))"
    unfolding rows by (simp add: by_age_def filter_sort filter_map o_def row_posted_def posted_row_def to_record_def
      conj_commute)
  have "\<not> (str_field (rr_data q) ''period_end'' \<noteq> [] \<and> str_field (rr_data q) ''period_end'' \<le> today)"
    if "q \<in> set (db_records (w_db w))" "asset_row E i q" "\<not> posted_row q" for q
  proof -
    have "to_record q \<in> set rows" using that by (simp add: rows by_age_def)
    then have "\<not> row_outstanding today (to_record q)" using ok(1) by (auto simp: list_ex_iff)
    then show ?thesis using that(3) by (simp add: row_outstanding_def row_posted_def posted_row_def to_record_def)
  qed
  then show ?thesis unfolding exhausted_def p(2) using life pos ok(2) n by (auto simp: Let_def)
qed

definition schedule_rows :: "db \<Rightarrow> rrow list" where
  "schedule_rows D = filter (\<lambda>r. rr_type r = ''DepreciationSchedule'') (db_records D)"

lemma exhausted_cong:
  assumes "schedule_rows D = schedule_rows D'"
  shows "exhausted E today D p \<longleftrightarrow> exhausted E today D' p"
proof -
  have "filter (\<lambda>q. asset_row E i q \<and> P q) (db_records D) = filter (\<lambda>q. asset_row E i q \<and> P q) (schedule_rows D)" for D i P
    by (auto simp: schedule_rows_def asset_row_def live_def intro: filter_cong)
  moreover have "(\<forall>q \<in> set (db_records D). asset_row E i q \<and> P q \<longrightarrow> Q q) \<longleftrightarrow>
      (\<forall>q \<in> set (schedule_rows D). asset_row E i q \<and> P q \<longrightarrow> Q q)" for D i P Q
    by (auto simp: schedule_rows_def asset_row_def live_def)
  ultimately show ?thesis unfolding exhausted_def by (simp add: assms)
qed

lemma schedule_rows_asset: "db_records D' = row_update ''FixedAsset'' u v d (db_records D) \<Longrightarrow> schedule_rows D' = schedule_rows D"
proof -
  have "filter (\<lambda>r. rr_type r = ''DepreciationSchedule'') (row_update ''FixedAsset'' u v d rs) =
      filter (\<lambda>r. rr_type r = ''DepreciationSchedule'') rs" for rs
    by (induction rs) (auto simp: row_update_def upd_where_def update_hits_def live_def)
  then show "db_records D' = row_update ''FixedAsset'' u v d (db_records D) \<Longrightarrow> schedule_rows D' = schedule_rows D"
    by (simp add: schedule_rows_def)
qed

definition assets_follow :: "env \<Rightarrow> string \<Rightarrow> db \<Rightarrow> db \<Rightarrow> bool" where
  "assets_follow E today D0 D \<longleftrightarrow>
     map rr_id (db_records D) = map rr_id (db_records D0) \<and> schedule_rows D = schedule_rows D0 \<and>
     (\<forall>p \<in> set (db_records D0). p \<in> set (db_records D) \<or> live ''FixedAsset'' p \<and> exhausted E today D0 p)"

lemma assets_follow_retire:
  assumes ids: "records_wf D0" "ids_canonical E D0" and a: "a \<in> rr_id ` set (db_records D0)"
    and f: "assets_follow E today D0 (w_db w)"
    and v: "verifyLifeComplete E a today w = (Inr True, w1)" and t: "transitionToFullyDepreciated E a actor w1 = (r, w')"
  shows "assets_follow E today D0 (w_db w')"
proof (cases "w_db w' = w_db w1")
  case True
  then show ?thesis using f readsD [OF reads_verify v] by simp
next
  case False
  have w1: "w_db w1 = w_db w" by (rule readsD [OF reads_verify v])
  obtain u p s where u: "e_uuid E a = Some u" and p: "p \<in> set (db_records (w_db w))" "rr_id p = u" "live ''FixedAsset'' p"
    and D': "db_records (w_db w') = row_update ''FixedAsset'' u (rr_version p) (retired p s) (db_records (w_db w))"
    using transition_effect [OF t] False w1 by auto
  have ua: "u = a" using a ids(2) u by (auto simp: ids_canonical_def)
  have dist: "distinct (map rr_id (db_records (w_db w)))" using f ids(1) by (simp add: assets_follow_def records_wf_def)
  have "exhausted E today (w_db w) p" by (rule verify_exhausted [OF v _ p(1) _ dist]) (simp_all add: u p(2) ua)
  then have ex: "exhausted E today D0 p" using exhausted_cong f unfolding assets_follow_def by blast
  have "q \<in> set (db_records (w_db w')) \<or> live ''FixedAsset'' q \<and> exhausted E today D0 q"
    if q: "q \<in> set (db_records (w_db w))" for q
  proof (cases "rr_id q = u")
    case True
    then have "q = p" using dist q p(1,2) by (metis distinct_map inj_onD)
    then show ?thesis using ex p(3) by simp
  next
    case False
    then show ?thesis unfolding D' using in_row_update_other q by metis
  qed
  then show ?thesis
    using f schedule_rows_asset [OF D'] unfolding assets_follow_def by (simp add: D') blast
qed

text \<open>The sample asset with its only period posted; and the sweep that retires it.\<close>

definition spent_row :: rrow where
  "spent_row = placed_row\<lparr>rr_data := fmupd ''posted_period_count'' (VNum (Fin 1)) placed_doc\<rparr>"

definition spent_db :: db where
  "spent_db = empty_db\<lparr>db_records := spent_row #
     may_row\<lparr>rr_data := fmupd ''posted_at'' (VStr ''2026-05-01'') may_doc\<rparr> # set_up\<rparr>"

lemma spent_db_wf: "records_wf spent_db" "ids_canonical posting_env spent_db"
  by (simp_all add: records_wf_def ids_canonical_def set_up_def max_int4_def spent_db_def spent_row_def)

lemma spent_sel [simp]:
  "rr_id spent_row = ''fa''" "rr_type spent_row = ''FixedAsset''" "rr_version spent_row = 1" "\<not> rr_deleted spent_row"
  "db_records spent_db = spent_row # may_row\<lparr>rr_data := fmupd ''posted_at'' (VStr ''2026-05-01'') may_doc\<rparr> # set_up"
  by (simp_all add: spent_row_def spent_db_def)

lemma spent_retired:
  "spent_row \<notin> set (db_records (w_db (snd (healStuckFullyDepreciatedAssets posting_env sample_actor ''si'' ''2026-05-01'' 5
     (sample_world spent_db)))))"
proof -
  let ?w = "sample_world spent_db"
  let ?doc = "fmupd ''posted_period_count'' (VNum (Fin 1)) placed_doc"
  let ?new = "fmupd ''status_id'' (VStr ''sf'') ?doc"
  have one: "numeric_text ''1'' = Some 1"
    by (simp add: numeric_text_def Let_def isDigits_run_def digits_eval)
  have ids: "LifeCompleteGroupIDs posting_env (life_options ''si'' ''2026-05-01'') 5 ?w = (Inr [''fa''], ?w)"
    by (simp add: LifeCompleteGroupIDs_def life_complete_def life_options_def number_at_def child_of_def blank_def due_by_def
        field_is_def arrow_text_def live_def set_up_def spent_row_def fmlookup_of_list get_field_def placed_doc_def may_doc_def
        one stmt_eval)
  have asset: "GetTx posting_env ''FixedAsset'' ''fa'' ?w =
      (Inr \<lparr>rec_id = ''fa'', rec_type = ''FixedAsset'', rec_data = ?doc, rec_version = 1\<rparr>, ?w)"
    by (simp add: GetTx_def get_where_def uuid_arg_def rbind_def live_def stmt_eval spent_row_def)
  have rows: "ListByField posting_env ''DepreciationSchedule'' ''fixed_asset_id'' ''fa'' ?w =
      (Inr [to_record (may_row\<lparr>rr_data := fmupd ''posted_at'' (VStr ''2026-05-01'') may_doc\<rparr>)], ?w)"
    by (simp add: ListByField_def field_is_def arrow_text_def live_def set_up_def by_age_def fmlookup_of_list get_field_def
        may_doc_def stmt_eval)
  have verify: "verifyLifeComplete posting_env ''fa'' ''2026-05-01'' ?w = (Inr True, ?w)"
    by (simp add: verifyLifeComplete_def bindM_def asset rows ret_def row_posted_def row_outstanding_def to_record_def
        str_field_def placed_doc_def fmlookup_of_list Let_def)
  have json: "json_ok_fields ?new" "json_ok_fields (fmupd ''status_id'' (VStr ''sf'') fmempty)"
    unfolding json_ok_fields_iff placed_doc_def fmlookup_of_list by (auto split: if_splits)
  have q: "query (\<lambda>_. Inr ()) w = (Inr (), w)" if "w_faults w = []" for w
    using that by (simp add: stmt_eval)
  have si: "str_field ?doc ''status_id'' = ''si''" by (simp add: str_field_def placed_doc_def fmlookup_of_list)
  have st: "str_field (fmap_of_list [(''status_type_id'', VStr ''st''), (''code'', VStr ''in_service'')]) k =
      (if k = ''status_type_id'' then ''st'' else if k = ''code'' then ''in_service'' else [])" for k
    by (simp add: str_field_def fmlookup_of_list)
  have status: "GetTx posting_env ''Status'' ''si'' ?w =
      (Inr \<lparr>rec_id = ''si'', rec_type = ''Status'', rec_data = fmap_of_list [(''status_type_id'', VStr ''st''), (''code'', VStr ''in_service'')],
        rec_version = 1\<rparr>, ?w)"
    by (simp add: GetTx_def get_where_def uuid_arg_def rbind_def live_def stmt_eval set_up_def)
  have new: "statusIDByCodeTx ''st'' statusCodeFullyDepreciated ?w = (Inr ''sf'', ?w)"
    by (simp add: statusIDByCodeTx_def ListTx_def live_def set_up_def by_age_def to_record_def str_field_def fmlookup_of_list
        statusCodeFullyDepreciated_def bindM_def ret_def stmt_eval)
  let ?D = "spent_db\<lparr>db_records := update_row ?new spent_row #
      may_row\<lparr>rr_data := fmupd ''posted_at'' (VStr ''2026-05-01'') may_doc\<rparr> # set_up\<rparr>"
  have upd: "UpdateTx posting_env ''FixedAsset'' ''fa'' ?new (Some 1) ?w = (Inr 2, sample_world ?D)"
    by (simp add: UpdateTx_def json update_hits_def live_def int4_arg_def max_int4_def upd_where_def uuid_arg_def rbind_def
        stmt_eval sample_world_def set_up_def spent_db_def)
  obtain w3 where aud: "write_audit posting_env ''FixedAsset'' ''fa'' ActionUpdate sample_actor
      (Some (fmupd ''status_id'' (VStr ''sf'') fmempty)) (sample_world ?D) = (Inr (), w3)"
    and w3: "w_faults w3 = []" "db_records (w_db w3) = db_records ?D"
    by (simp add: write_audit_def audit_New_def Actor_Validate_def audit_Insert_def json
        sample_actor_def nullable_uuid_def stmt_eval sample_world_def audit_row_def InputHash_def)
  have "transition_body posting_env ''fa'' sample_actor ?w = (Inr (Some ()), w3)"
    by (simp add: transition_body_def bindM_def thenM_def asset si st status new mergedRecordData_def upd aud ret_def Let_def
        statusCodeInService_def)
  then have "transitionToFullyDepreciated posting_env ''fa'' sample_actor ?w = (Inr (), w3)"
    by (simp add: transitionToFullyDepreciated_def in_tx_early_def q w3(1) thenM_def bindM_def ret_def)
  then have "heal_candidates posting_env ''2026-05-01'' sample_actor [''fa''] 0 ?w = (Inr 1, w3)"
    by (simp add: bindM_def tryM_def verify ret_def)
  then have "w_db (snd (healStuckFullyDepreciatedAssets posting_env sample_actor ''si'' ''2026-05-01'' 5 ?w)) = w_db w3"
    by (simp add: healStuckFullyDepreciatedAssets_def bindM_def ids ret_def)
  moreover have "spent_row \<notin> set (db_records ?D)"
    by (auto simp: update_row_def set_up_def dest: arg_cong [where f = rr_version] arg_cong [where f = rr_id])
  ultimately show ?thesis using w3(2) by simp
qed

text \<open>
  C34. The sweep retires an asset only when its schedule is really exhausted: a record it changes is a
  fixed asset all of whose periods due by today are posted and which has at least as many
  posted periods as months of useful life, whatever its \<open>posted_period_count\<close> claims.
\<close>

theorem retired_assets_are_exhausted:
  assumes run: "healStuckFullyDepreciatedAssets E actor s today n w = (res, w')"
    and wf: "records_wf (w_db w)" "ids_canonical E (w_db w)"
    and p: "p \<in> set (db_records (w_db w))"
  shows "p \<in> set (db_records (w_db w')) \<or> live ''FixedAsset'' p \<and> exhausted E today (w_db w) p"
proof -
  define S where "S = (\<lambda>D D'. assets_follow E today (w_db w) D \<longrightarrow> assets_follow E today (w_db w) D')"
  have heal: "S (w_db w1) (w_db w3)"
    if "a \<in> rr_id ` set (db_records (w_db w))" "verifyLifeComplete E a today w1 = (Inr True, w2)"
      "transitionToFullyDepreciated E a actor w2 = (t, w3)" for a w1 w2 t w3
    using assets_follow_retire [OF wf that(1) _ that(2,3)] unfolding S_def by blast
  have "S (w_db w) (w_db w')"
    by (rule heal_stuck_across [where S = S, OF heal _ _ run], assumption+) (simp_all add: S_def)
  moreover have "assets_follow E today (w_db w) (w_db w)" by (simp add: assets_follow_def)
  ultimately show ?thesis using p unfolding S_def assets_follow_def by blast
qed

theorem retired_assets_are_exhausted_witness:
  "spent_row \<notin> set (db_records (w_db (snd (healStuckFullyDepreciatedAssets posting_env sample_actor ''si'' ''2026-05-01'' 5
      (sample_world spent_db))))) \<and> exhausted posting_env ''2026-05-01'' spent_db spent_row"
  using retired_assets_are_exhausted [where E = posting_env and w = "sample_world spent_db" and p = spent_row
      and actor = sample_actor and s = "''si''" and today = "''2026-05-01''" and n = 5, OF prod.collapse [symmetric]] spent_retired spent_db_wf by auto

end
