(* ===== verification/Finance.thy ===== *)
theory Finance
  imports Crud Ledger Definitions
begin

text \<open>
  The projection of the chart of accounts: the base currency of a tenant
  (\<open>internal/kernel/finance/basecurrency.go\<close>), and the hook and the sweep that copy \<open>Account\<close>
  records into the ledger's \<open>gl_accounts\<close> (\<open>internal/kernel/finance/seed.go\<close>).
\<close>

section \<open>The base currency\<close>

definition DefaultGLCurrency :: string where
  "DefaultGLCurrency = ''USD''"

text \<open>\<open>up\<close> is \<open>strings.ToUpper\<close>, whose Unicode tables are a parameter.\<close>

definition base_code :: "(string \<Rightarrow> string) \<Rightarrow> Record \<Rightarrow> string option" where
  "base_code up c =
     (let code = up (TrimSpace (str_field (rec_data c) ''code'')) in
      if bool_field (rec_data c) ''is_base'' \<and> length code = 3 then Some code else None)"

definition pickBaseCurrencyCode :: "(string \<Rightarrow> string) \<Rightarrow> Record list \<Rightarrow> string" where
  "pickBaseCurrencyCode up currencies =
     (case remdups (List.map_filter (base_code up) currencies) of
        [code] \<Rightarrow> code
      | _ \<Rightarrow> DefaultGLCurrency)"

definition resolveBaseCurrencyTx :: "(string \<Rightarrow> string) \<Rightarrow> string dbm" where
  "resolveBaseCurrencyTx up =
     thenM (getPublished EntityDefinitions ''Currency'')
     (bindM (ListTx ''Currency'') (\<lambda>cs. ret (pickBaseCurrencyCode up cs)))"

definition ResolveBaseCurrency :: "(string \<Rightarrow> string) \<Rightarrow> (gval \<Rightarrow> Definition option) \<Rightarrow> string dbm" where
  "ResolveBaseCurrency up decode =
     bindM (getPublished EntityDefinitions ''Currency'') (\<lambda>pd.
       case decode (dv_definition pd) of
         None \<Rightarrow> fail ErrPlain
       | Some d \<Rightarrow> bindM (ListTx (d_entity_type d)) (\<lambda>cs. ret (pickBaseCurrencyCode up cs)))"

section \<open>The hook on accounts\<close>

definition account_currency :: "env \<Rightarrow> (string \<Rightarrow> string) \<Rightarrow> fields \<Rightarrow> string dbm" where
  "account_currency E up d =
     bindM (resolveBaseCurrencyTx up) (\<lambda>base.
       let c = str_field d ''currency_id'' in
       if c = [] then ret base
       else bindM (GetTx E ''Currency'' c) (\<lambda>r.
         let code = str_field (rec_data r) ''code'' in
         ret (if code = [] then base else code)))"

definition SyncGLAccountOnWrite :: "env \<Rightarrow> (string \<Rightarrow> string) \<Rightarrow> hook" where
  "SyncGLAccountOnWrite E up = (\<lambda>d r act actor.
     bindM (account_currency E up (rec_data r)) (\<lambda>currency.
       thenM (UpsertBySourceRecord E (rec_id r) (str_field (rec_data r) ''code'') (str_field (rec_data r) ''name'')
           (str_field (rec_data r) ''type'') currency (bool_field (rec_data r) ''is_active''))
         (ret ())))"

section \<open>The sweep\<close>

text \<open>The currency of one account, with the cache of those resolved before.\<close>

definition sweep_currency ::
    "env \<Rightarrow> string \<Rightarrow> string \<Rightarrow> (string \<rightharpoonup> string) \<Rightarrow> fields \<Rightarrow> (string \<times> (string \<rightharpoonup> string)) dbm" where
  "sweep_currency E currencyType base cache d =
     (let c = str_field d ''currency_id'' in
      if c = [] then ret (base, cache)
      else case cache c of
        Some v \<Rightarrow> ret (v, cache)
      | None \<Rightarrow>
          bindM (GetTx E currencyType c) (\<lambda>r.
            let code = str_field (rec_data r) ''code''; v = (if code = [] then base else code) in
            ret (v, cache(c \<mapsto> v))))"

fun sweep_accounts :: "env \<Rightarrow> string \<Rightarrow> string \<Rightarrow> Record list \<Rightarrow> (string \<rightharpoonup> string) \<Rightarrow> unit dbm" where
  "sweep_accounts E currencyType base [] cache = ret ()"
| "sweep_accounts E currencyType base (a # as) cache =
     bindM (sweep_currency E currencyType base cache (rec_data a)) (\<lambda>(currency, cache).
       thenM (UpsertBySourceRecord E (rec_id a) (str_field (rec_data a) ''code'') (str_field (rec_data a) ''name'')
           (str_field (rec_data a) ''type'') currency (bool_field (rec_data a) ''is_active''))
         (sweep_accounts E currencyType base as cache))"

definition published_definition :: "(gval \<Rightarrow> Definition option) \<Rightarrow> string \<Rightarrow> Definition dbm" where
  "published_definition decode et =
     bindM (getPublished EntityDefinitions et) (\<lambda>pd.
       case decode (dv_definition pd) of None \<Rightarrow> fail ErrPlain | Some d \<Rightarrow> ret d)"

definition SyncGLAccounts :: "env \<Rightarrow> (string \<Rightarrow> string) \<Rightarrow> (gval \<Rightarrow> Definition option) \<Rightarrow> unit dbm" where
  "SyncGLAccounts E up decode =
     bindM (published_definition decode ''Account'') (\<lambda>accountDef.
     bindM (published_definition decode ''Currency'') (\<lambda>currencyDef.
     bindM (ListTx (d_entity_type accountDef)) (\<lambda>accounts.
     bindM (ResolveBaseCurrency up decode) (\<lambda>base.
       sweep_accounts E (d_entity_type currencyDef) base accounts Map.empty))))"

end
