(* ===== verification/FinanceProps.thy ===== *)
theory FinanceProps
  imports Finance Books ScheduleProps
begin

text \<open>
  The chart of accounts follows the \<open>Account\<close> records: an invariant of every history of the
  engine, and what the sweep establishes from any state.
\<close>

section \<open>The projection\<close>

text \<open>The ledger account that mirrors an \<open>Account\<close> record.\<close>

definition mirrors :: "string \<Rightarrow> fields \<Rightarrow> garow \<Rightarrow> bool" where
  "mirrors u d a \<longleftrightarrow>
     ga_source a = Some u \<and> ga_code a = str_field d ''code'' \<and> ga_name a = str_field d ''name'' \<and>
     ga_type a = str_field d ''type'' \<and> ga_active a = bool_field d ''is_active''"

definition mirrored :: "db \<Rightarrow> rrow \<Rightarrow> bool" where
  "mirrored D r \<longleftrightarrow> (\<exists>a \<in> set (db_accounts D). mirrors (rr_id r) (rr_data r) a)"

definition chart_follows :: "db \<Rightarrow> bool" where
  "chart_follows D \<longleftrightarrow> (\<forall>r \<in> set (db_records D). live ''Account'' r \<longrightarrow> mirrored D r)"

text \<open>What the projection looks at.\<close>

definition chart_view :: "db \<Rightarrow> rrow list \<times> garow list" where
  "chart_view D = (filter (live ''Account'') (db_records D), db_accounts D)"

lemma chart_follows_view: "chart_view D' = chart_view D \<Longrightarrow> chart_follows D' \<longleftrightarrow> chart_follows D"
proof -
  have "chart_follows D \<longleftrightarrow> (\<forall>r \<in> set (fst (chart_view D)). \<exists>a \<in> set (snd (chart_view D)). mirrors (rr_id r) (rr_data r) a)" for D
    by (auto simp: chart_follows_def mirrored_def chart_view_def)
  then show "chart_view D' = chart_view D \<Longrightarrow> chart_follows D' \<longleftrightarrow> chart_follows D" by simp
qed

text \<open>One upsert: the row of this source is written, those of the others stay.\<close>

definition upserted :: "string \<Rightarrow> fields \<Rightarrow> db \<Rightarrow> db \<Rightarrow> bool" where
  "upserted s d D D' \<longleftrightarrow>
     (\<exists>as. D' = D\<lparr>db_accounts := as\<rparr> \<and> (\<exists>a \<in> set as. mirrors s d a) \<and>
        (\<forall>a \<in> set (db_accounts D). ga_source a \<noteq> Some s \<longrightarrow> a \<in> set as))"

lemma upsert_effect:
  assumes "UpsertBySourceRecord E src (str_field d ''code'') (str_field d ''name'') (str_field d ''type'') cur
      (bool_field d ''is_active'') w = (Inr u, w')"
  obtains s where "e_uuid E src = Some s" "upserted s d (w_db w) (w_db w')"
proof -
  from assms obtain s where s: "e_uuid E src = Some s" by (auto simp: UpsertBySourceRecord_def run_iffs)
  let ?g = "\<lambda>b :: garow. b\<lparr>ga_code := str_field d ''code'', ga_name := str_field d ''name'', ga_type := str_field d ''type'',
      ga_currency := cur, ga_active := bool_field d ''is_active''\<rparr>"
  have "upserted s d (w_db w) (w_db w')"
  proof (cases "List.find (\<lambda>a. ga_source a = Some s) (db_accounts (w_db w))")
    case None
    then obtain v where "w_db w' = (w_db w)\<lparr>db_accounts := db_accounts (w_db w) @
        [\<lparr>ga_id = v, ga_code = str_field d ''code'', ga_name = str_field d ''name'', ga_type = str_field d ''type'',
          ga_currency = cur, ga_active = bool_field d ''is_active'', ga_source = Some s\<rparr>]\<rparr>"
      using assms s by (auto simp: UpsertBySourceRecord_def run_iffs split: if_splits)
    then show ?thesis by (auto simp: upserted_def mirrors_def)
  next
    case (Some a)
    then have a: "a \<in> set (db_accounts (w_db w))" "ga_source a = Some s" by (auto dest: find_SomeD)
    have D': "w_db w' = (w_db w)\<lparr>db_accounts := upd_where (\<lambda>b. ga_source b = Some s) ?g (db_accounts (w_db w))\<rparr>"
      using assms s Some by (auto simp: UpsertBySourceRecord_def run_iffs split: if_splits)
    have "?g a \<in> set (upd_where (\<lambda>b. ga_source b = Some s) ?g (db_accounts (w_db w)))"
      unfolding in_upd_where using a by (intro bexI [of _ a]) auto
    moreover have "mirrors s d (?g a)" using a(2) by (simp add: mirrors_def)
    moreover have "b \<in> set (upd_where (\<lambda>b. ga_source b = Some s) ?g (db_accounts (w_db w)))"
      if "b \<in> set (db_accounts (w_db w))" "ga_source b \<noteq> Some s" for b
      unfolding in_upd_where using that by (intro bexI [of _ b]) auto
    ultimately show ?thesis unfolding upserted_def D' by blast
  qed
  then show thesis using that s by blast
qed

lemma upserted_mirrored:
  assumes "upserted s d D D'"
  shows "rr_id r = s \<Longrightarrow> rr_data r = d \<Longrightarrow> mirrored D' r"
    and "rr_id r \<noteq> s \<Longrightarrow> mirrored D r \<Longrightarrow> mirrored D' r"
proof -
  obtain as a where D': "D' = D\<lparr>db_accounts := as\<rparr>" "a \<in> set as" "mirrors s d a"
    "\<forall>b \<in> set (db_accounts D). ga_source b \<noteq> Some s \<longrightarrow> b \<in> set as"
    using assms unfolding upserted_def by blast
  show "rr_id r = s \<Longrightarrow> rr_data r = d \<Longrightarrow> mirrored D' r"
    using D'(2,3) unfolding mirrored_def by (intro bexI [of _ a]) (simp_all add: D'(1))
  assume "rr_id r \<noteq> s" "mirrored D r"
  then obtain b where "b \<in> set (db_accounts D)" "mirrors (rr_id r) (rr_data r) b" "ga_source b \<noteq> Some s"
    by (auto simp: mirrored_def mirrors_def)
  then show "mirrored D' r" using D'(4) unfolding mirrored_def D'(1) by auto
qed

lemma reads_currency: "reads (account_currency E up d)"
  unfolding account_currency_def resolveBaseCurrencyTx_def Let_def
  by (intro reads_intro reads_definitions)

lemma sync_effect:
  assumes "SyncGLAccountOnWrite E up d r act actor w = (Inr u, w')"
  obtains s where "e_uuid E (rec_id r) = Some s" "upserted s (rec_data r) (w_db w) (w_db w')"
proof -
  from assms obtain cur w1 x where c: "account_currency E up (rec_data r) w = (Inr cur, w1)"
    and up: "UpsertBySourceRecord E (rec_id r) (str_field (rec_data r) ''code'') (str_field (rec_data r) ''name'')
      (str_field (rec_data r) ''type'') cur (bool_field (rec_data r) ''is_active'') w1 = (Inr x, w')"
    by (auto simp: SyncGLAccountOnWrite_def bindM_Inr_iff thenM_Inr_iff)
  have "w_db w1 = w_db w" by (rule readsD [OF reads_currency c])
  then show thesis using upsert_effect [OF up] that by metis
qed

lemma sync_wf: "keeps tables_wf (SyncGLAccountOnWrite E up d r act actor)"
proof (rule keepsI)
  fix w u w' assume wf: "tables_wf (w_db w)" and run: "SyncGLAccountOnWrite E up d r act actor w = (Inr u, w')"
  from run obtain s where "upserted s (rec_data r) (w_db w) (w_db w')" by (rule sync_effect)
  then obtain as where "w_db w' = (w_db w)\<lparr>db_accounts := as\<rparr>" unfolding upserted_def by blast
  then show "tables_wf (w_db w')" using wf by (simp add: tables_wf_def records_wf_def keys_wf_def)
qed

section \<open>Histories of the engine\<close>

text \<open>
  The hook is registered for accounts, and the hooks of other types leave accounts alone, in the
  records and in the ledger.
\<close>

definition chart_hooks :: "env \<Rightarrow> (string \<Rightarrow> string) \<Rightarrow> hooks \<Rightarrow> bool" where
  "chart_hooks E up hooks \<longleftrightarrow>
     hooks ''Account'' = Some (SyncGLAccountOnWrite E up) \<and> hooks_keep tables_wf hooks \<and>
     (\<forall>et h d r act actor v. et \<noteq> ''Account'' \<longrightarrow> hooks et = Some h \<longrightarrow> keeps (\<lambda>D. chart_view D = v) (h d r act actor))"

lemma key_ops_accounts:
  "keeps (\<lambda>D. db_accounts D = as) (InsertTx E et cn v rid)"
  "keeps (\<lambda>D. db_accounts D = as) (UpdateValueTx E et cn v rid)"
  "keeps (\<lambda>D. db_accounts D = as) (DeleteForConstraintTx E et cn rid)"
  "keeps (\<lambda>D. db_accounts D = as) (DeleteForRecordTx E rid)"
  by (rule keepsI, erule InsertTx_success, simp_all)
    (rule keepsI, erule UpdateValueTx_success, simp,
     auto simp: keeps_def DeleteForConstraintTx_def DeleteForRecordTx_def stmt_Inr_iff)

lemma keys_accounts:
  "keeps (\<lambda>D. db_accounts D = as) (WriteUniqueConstraintKeys E d rid f)"
  "keeps (\<lambda>D. db_accounts D = as) (UpdateUniqueConstraintKeys E d rid f)"
  "keeps (\<lambda>D. db_accounts D = as) (deleteUniqueConstraintKeys E rid)"
  unfolding UpdateUniqueConstraintKeys_def WriteUniqueConstraintKeys_def deleteUniqueConstraintKeys_def
    updateConstraintKey_def writeConstraintKey_def Let_def
  by (intro keeps_intro key_ops_accounts)+

lemma audit_view: "write_audit E et rid act actor diff w = (Inr u, w') \<Longrightarrow>
    db_records (w_db w') = db_records (w_db w) \<and> db_accounts (w_db w') = db_accounts (w_db w)"
  using write_audit_db by fastforce

text \<open>The call of the hook at the end of a write, on a record just stored.\<close>

lemma hook_chart:
  assumes hooks: "chart_hooks E up hooks" and run: "runHook hooks d r act actor w = (Inr (), w')"
    and wf: "records_wf (w_db w)" and mem: "row \<in> set (db_records (w_db w))" "rr_data row = rec_data r"
      "e_uuid E (rec_id r) = Some (rr_id row)" "rr_type row = d_entity_type d"
    and others: "\<And>q. q \<in> set (db_records (w_db w)) \<Longrightarrow> live ''Account'' q \<Longrightarrow> q \<noteq> row \<Longrightarrow> mirrored (w_db w) q"
    and here: "d_entity_type d \<noteq> ''Account'' \<Longrightarrow> \<not> live ''Account'' row"
  shows "chart_follows (w_db w')"
proof (cases "d_entity_type d = ''Account''")
  case True
  then have "SyncGLAccountOnWrite E up d r act actor w = (Inr (), w')"
    using run hooks by (simp add: runHook_def chart_hooks_def)
  then obtain s where s: "e_uuid E (rec_id r) = Some s" "upserted s (rec_data r) (w_db w) (w_db w')"
    by (rule sync_effect)
  have recs: "db_records (w_db w') = db_records (w_db w)" using s(2) by (auto simp: upserted_def)
  have "mirrored (w_db w') q" if q: "q \<in> set (db_records (w_db w))" "live ''Account'' q" for q
  proof (cases "q = row")
    case True
    then show ?thesis using upserted_mirrored(1) [OF s(2)] s(1) mem by simp
  next
    case False
    then have "rr_id q \<noteq> s" using rr_id_unique [OF wf q(1) mem(1)] s(1) mem(3) by auto
    then show ?thesis using upserted_mirrored(2) [OF s(2)] others q False by blast
  qed
  then show ?thesis by (simp add: chart_follows_def recs)
next
  case False
  have "chart_follows (w_db w)" using others here False unfolding chart_follows_def by blast
  moreover have "chart_view (w_db w') = chart_view (w_db w)"
  proof (cases "hooks (d_entity_type d)")
    case None
    then show ?thesis using run by (simp add: runHook_def)
  next
    case (Some h)
    then have "keeps (\<lambda>D. chart_view D = chart_view (w_db w)) (h d r act actor)"
      using hooks False unfolding chart_hooks_def by blast
    then show ?thesis using run Some by (auto simp: runHook_def dest: keepsD)
  qed
  ultimately show ?thesis using chart_follows_view by blast
qed

lemma create_chart:
  assumes hooks: "chart_hooks E up hooks" and ids: "ids_read_back E w" and dec: "decoded (create_fields d fo)"
    and run: "Create E hooks d fo actor w = (Inr r, w')" and wf: "tables_wf (w_db w)" and I: "chart_follows (w_db w)"
  shows "chart_follows (w_db w')"
proof -
  let ?f = "create_fields d fo"
  obtain w1 w2 w3 w4 w5 w6 where 1: "w_db w1 = w_db w" "w_newid w1 = w_newid w"
    "checkReferenceTargetConstraints E d ?f w1 = (Inr (), w2)"
    "CreateTx (d_entity_type d) ?f w2 = (Inr r, w3)"
    "WriteUniqueConstraintKeys E d (rec_id r) ?f w3 = (Inr (), w4)"
    "write_audit E (d_entity_type d) (rec_id r) ActionCreate actor (Some ?f) w4 = (Inr (), w5)"
    "runHook hooks d r ActionCreate actor w5 = (Inr (), w6)" "w_db w' = w_db w6"
    by (rule Create_success [OF run], rule that, assumption+)
  have w2: "w_db w2 = w_db w" using readsD [OF reads_target_constraints 1(3)] 1(1) by simp
  have "w_newid w2 = w_newid w" using 1(2,3) reads_target_constraints by (metis reads_newid)
  then have id: "e_uuid E (rec_id r) = Some (rec_id r)"
    using ids 1(4) by (auto simp: ids_read_back_def elim!: CreateTx_success)
  define row where "row = \<lparr>rr_id = rec_id r, rr_type = d_entity_type d, rr_data = json_norm_fields ?f, rr_version = 1,
     rr_created = w_now w2, rr_deleted = False\<rparr>"
  have w3: "w_db w3 = (w_db w)\<lparr>db_records := db_records (w_db w) @ [row]\<rparr>" and data: "rec_data r = ?f"
    using 1(4) w2 by (auto simp: row_def elim!: CreateTx_success)
  have recs: "db_records (w_db w5) = db_records (w_db w) @ [row]"
    using keepsD [OF write_keys_records 1(5), of "db_records (w_db w3)"] audit_view [OF 1(6)] w3 by simp
  have accs: "db_accounts (w_db w5) = db_accounts (w_db w)"
    using keepsD [OF keys_accounts(1) 1(5), of "db_accounts (w_db w3)"] audit_view [OF 1(6)] w3 by simp
  have "tables_wf (w_db w3)" using keepsD [OF CreateTx_wf 1(4)] wf w2 by simp
  then have wf5: "records_wf (w_db w5)" using recs w3 by (simp add: tables_wf_def records_wf_def)
  have "chart_follows (w_db w6)"
  proof (rule hook_chart [OF hooks 1(7) wf5, of row])
    show "mirrored (w_db w5) q" if "q \<in> set (db_records (w_db w5))" "live ''Account'' q" "q \<noteq> row" for q
      using that I recs accs by (auto simp: chart_follows_def mirrored_def)
  qed (use dec id data recs in \<open>auto simp: row_def decoded_def live_def\<close>)
  then show ?thesis using 1(8) by simp
qed

lemma update_chart:
  assumes hooks: "chart_hooks E up hooks" and dec: "decoded f"
    and run: "Update E hooks d rid f ev actor w = (Inr v, w')" and wf: "tables_wf (w_db w)" and I: "chart_follows (w_db w)"
  shows "chart_follows (w_db w')"
proof -
  obtain w1 w2 w3 w4 w5 w6 w7 v0 where 1: "w_db w1 = w_db w"
      "check_self_references E d rid f w1 = (Inr (), w2)"
      "checkReferenceTargetConstraints E d f w2 = (Inr (), w3)"
      "UpdateTx E (d_entity_type d) rid f ev w3 = (Inr v0, w4)"
      "UpdateUniqueConstraintKeys E d rid f w4 = (Inr (), w5)"
      "write_audit E (d_entity_type d) rid ActionUpdate actor (Some f) w5 = (Inr (), w6)"
    and h: "runHook hooks d \<lparr>rec_id = rid, rec_type = d_entity_type d, rec_data = f, rec_version = v0\<rparr>
       ActionUpdate actor w6 = (Inr (), w7)" and w': "w_db w' = w_db w7"
    by (rule Update_success [OF run], rule that, assumption+)
  have w3: "w_db w3 = w_db w"
    using readsD [OF reads_check_self_references 1(2)] readsD [OF reads_target_constraints 1(3)] 1(1) by simp
  let ?u = "update_hits (d_entity_type d)"
  obtain u p where u: "e_uuid E rid = Some u" and p: "p \<in> set (db_records (w_db w))" "?u u ev p"
    and w4: "w_db w4 = (w_db w)\<lparr>db_records := upd_where (?u u ev) (update_row f) (db_records (w_db w))\<rparr>"
    using 1(4) w3 by (auto elim!: UpdateTx_success)
  have recs: "db_records (w_db w6) = upd_where (?u u ev) (update_row f) (db_records (w_db w))"
    using keepsD [OF update_keys_records 1(5), of "db_records (w_db w4)"] audit_view [OF 1(6)] w4 by simp
  have accs: "db_accounts (w_db w6) = db_accounts (w_db w)"
    using keepsD [OF keys_accounts(2) 1(5), of "db_accounts (w_db w4)"] audit_view [OF 1(6)] w4 by simp
  have wfr: "records_wf (w_db w)" using wf by (simp add: tables_wf_def)
  have "tables_wf (w_db w4)" using keepsD [OF UpdateTx_wf 1(4)] wf w3 by simp
  then have wf6: "records_wf (w_db w6)" using recs w4 by (simp add: tables_wf_def records_wf_def)
  have "chart_follows (w_db w7)"
  proof (rule hook_chart [OF hooks h wf6, of "update_row f p"])
    show "update_row f p \<in> set (db_records (w_db w6))"
      unfolding recs in_upd_where using p by (intro bexI [of _ p]) auto
    show "mirrored (w_db w6) q"
      if q: "q \<in> set (db_records (w_db w6))" "live ''Account'' q" "q \<noteq> update_row f p" for q
    proof -
      obtain q0 where q0: "q0 \<in> set (db_records (w_db w))" "q = (if ?u u ev q0 then update_row f q0 else q0)"
        using q(1) unfolding recs in_upd_where by blast
      have "\<not> ?u u ev q0"
      proof
        assume "?u u ev q0"
        then have "q0 = p" using rr_id_unique [OF wfr q0(1) p(1)] p(2) by (simp add: update_hits_def)
        then show False using q0(2) q(3) p(2) by simp
      qed
      then show ?thesis using q0 q(2) I accs by (auto simp: chart_follows_def mirrored_def)
    qed
  qed (use p u dec in \<open>auto simp: decoded_def update_hits_def live_def\<close>)
  then show ?thesis using w' by simp
qed

lemma delete_chart:
  assumes run: "Delete E d rid actor w = (Inr v, w')" and I: "chart_follows (w_db w)"
  shows "chart_follows (w_db w')" "db_accounts (w_db w') = db_accounts (w_db w)"
proof -
  obtain w1 w2 w3 w4 where 1: "w_db w1 = w_db w" "DeleteTx E (d_entity_type d) rid w1 = (Inr (), w2)"
    "deleteUniqueConstraintKeys E rid w2 = (Inr (), w3)"
    "write_audit E (d_entity_type d) rid ActionDelete actor None w3 = (Inr (), w4)" "w_db w' = w_db w4"
    by (rule Delete_success [OF run], rule that, assumption+)
  obtain u where w2: "w_db w2 = (w_db w)\<lparr>db_records :=
       upd_where (\<lambda>r. rr_id r = u \<and> live (d_entity_type d) r) (\<lambda>r. r\<lparr>rr_deleted := True\<rparr>) (db_records (w_db w))\<rparr>"
    using 1(1,2) by (auto elim!: DeleteTx_success)
  obtain k where keys: "w_db w3 = (w_db w2)\<lparr>db_keys := k\<rparr>"
    using 1(3) by (auto simp: deleteUniqueConstraintKeys_def DeleteForRecordTx_def stmt_Inr_iff)
  have recs: "db_records (w_db w') = db_records (w_db w2)" "db_accounts (w_db w') = db_accounts (w_db w)"
    using audit_view [OF 1(4)] keys 1(5) w2 1(1) by simp_all
  then show "db_accounts (w_db w') = db_accounts (w_db w)" by simp
  show "chart_follows (w_db w')"
    using I unfolding chart_follows_def mirrored_def recs w2 by (auto simp: in_upd_where live_def split: if_splits)
qed

text \<open>
  C35. Over every history of creates, updates and deletes of any types through the engine, with the hook
  on accounts registered and failures anywhere, every live \<open>Account\<close> record is mirrored in the
  ledger's chart: one of its accounts has the record as its source and the same code, name,
  type and active flag.
\<close>

theorem chart_of_accounts_follows:
  assumes hist: "(engine_step E S hooks)\<^sup>*\<^sup>* D D'" and hooks: "chart_hooks E up hooks"
    and start: "tables_wf D" "chart_follows D"
  shows "chart_follows D'"
proof -
  have "tables_wf D' \<and> chart_follows D'"
    using hist
  proof induction
    case base
    show ?case using start by simp
  next
    case (step D1 D2)
    have hw: "hooks_keep tables_wf hooks" using hooks by (simp add: chart_hooks_def)
    from step.hyps(2) show ?case
    proof cases
      case (step_create d w fo actor res w')
      show ?thesis
      proof (cases res)
        case (Inl e)
        then show ?thesis using Create_error step_create step.IH by metis
      next
        case (Inr r)
        note run = step_create(6) [unfolded Inr]
        have "tables_wf (w_db w')" using keepsD [OF Create_wf [OF hw] run] step.IH step_create(1) by simp
        moreover have "chart_follows (w_db w')"
          using create_chart [OF hooks step_create(4,5) run] step.IH step_create(1) by simp
        ultimately show ?thesis using step_create(2) by simp
      qed
    next
      case (step_update d f rid ev actor w resv w')
      show ?thesis
      proof (cases resv)
        case (Inl e)
        then show ?thesis using Update_error step_update step.IH by metis
      next
        case (Inr v)
        note run = step_update(5) [unfolded Inr]
        have "tables_wf (w_db w')" using keepsD [OF Update_wf [OF hw] run] step.IH step_update(1) by simp
        moreover have "chart_follows (w_db w')"
          using update_chart [OF hooks step_update(4) run] step.IH step_update(1) by simp
        ultimately show ?thesis using step_update(2) by simp
      qed
    next
      case (step_delete d rid actor w resu w')
      show ?thesis
      proof (cases resu)
        case (Inl e)
        then show ?thesis using Delete_error step_delete step.IH by metis
      next
        case (Inr v)
        note run = step_delete(4) [unfolded Inr]
        have "tables_wf (w_db w')" using keepsD [OF Delete_wf run] step.IH step_delete(1) by simp
        moreover have "chart_follows (w_db w')" using delete_chart(1) [OF run] step.IH step_delete(1) by simp
        ultimately show ?thesis using step_delete(2) by simp
      qed
    qed
  qed
  then show ?thesis by blast
qed

definition chart_hook :: hooks where
  "chart_hook = SetHook Map.empty ''Account'' (SyncGLAccountOnWrite sample_env id)"

lemma chart_hook_ok: "chart_hooks sample_env id chart_hook"
  by (auto simp: chart_hooks_def chart_hook_def SetHook_def hooks_keep_def intro: sync_wf)

definition finance_published :: "string \<Rightarrow> defrow" where
  "finance_published et =
     \<lparr>df_id = et, df_registry = EntityDefinitions, df_key = et, df_version = 1,
      df_status = StatusPublished, df_definition = VStr et, df_author_type = ActorHuman, df_author = ''u1'',
      df_approved_by = Some ''u1''\<rparr>"

definition cash_doc :: fields where
  "cash_doc = fmap_of_list [(''code'', VStr ''1000''), (''name'', VStr ''Cash''), (''type'', VStr ''asset''), (''is_active'', VBool True)]"

definition chart_db :: db where
  "chart_db = empty_db\<lparr>db_defs := [finance_published ''Currency'']\<rparr>"

text \<open>An account created from scratch, and the ledger account the hook makes for it.\<close>

lemma cash_created:
  "\<exists>r a w'. Create sample_env chart_hook (mk_definition ''Account'' []) (Some cash_doc) sample_actor (sample_world chart_db) = (Inr r, w') \<and>
     db_records (w_db w') = [\<lparr>rr_id = id_a, rr_type = ''Account'', rr_data = cash_doc, rr_version = 1, rr_created = 7, rr_deleted = False\<rparr>] \<and>
     db_accounts (w_db w') = [a]"
proof -
  let ?d = "mk_definition ''Account'' []"
  let ?row = "\<lparr>rr_id = id_a, rr_type = ''Account'', rr_data = cash_doc, rr_version = 1, rr_created = 7, rr_deleted = False\<rparr>"
  let ?r = "\<lparr>rec_id = id_a, rec_type = ''Account'', rec_data = cash_doc, rec_version = 1\<rparr>"
  let ?D = "chart_db\<lparr>db_records := [?row]\<rparr>"
  have json: "json_ok_fields cash_doc" "json_norm_fields cash_doc = cash_doc"
    unfolding json_ok_fields_iff cash_doc_def
    by (auto simp: fmlookup_of_list json_norm_fields_def fmmap_fmupd split: if_splits)
  have id: "e_uuid sample_env id_a = Some id_a" by (simp add: sample_env_def Canonical_id_a)
  obtain w1 where create: "CreateTx ''Account'' cash_doc (sample_world chart_db) = (Inr ?r, w1)"
    and w1: "w_faults w1 = []" "w_db w1 = ?D"
    by (simp add: CreateTx_def json sample_world_def chart_db_def empty_db_def stmt_eval)
  obtain w2 where aud: "write_audit sample_env ''Account'' id_a ActionCreate sample_actor (Some cash_doc) w1 = (Inr (), w2)"
    and w2: "w_faults w2 = []" "db_records (w_db w2) = [?row]" "db_defs (w_db w2) = [finance_published ''Currency'']"
      "db_accounts (w_db w2) = []"
    by (simp add: write_audit_def audit_New_def Actor_Validate_def audit_Insert_def json id audit_row_def InputHash_def
        sample_actor_def nullable_uuid_def uuid_arg_def rbind_def stmt_eval Canonical_id_a sent_def w1 chart_db_def empty_db_def)
  have cur: "account_currency sample_env id cash_doc w2 = (Inr DefaultGLCurrency, w2)"
    by (simp add: account_currency_def resolveBaseCurrencyTx_def getPublished_def getOne_def published_def w2
        finance_published_def ListTx_def live_def pickBaseCurrencyCode_def str_field_def cash_doc_def fmlookup_of_list
        stmt_eval bindM_def thenM_def ret_def)
  obtain v a w3 where up: "UpsertBySourceRecord sample_env id_a ''1000'' ''Cash'' ''asset'' DefaultGLCurrency True w2 = (Inr v, w3)"
    and w3: "w_faults w3 = []" "db_records (w_db w3) = [?row]" "db_accounts (w_db w3) = [a]"
    by (simp add: UpsertBySourceRecord_def id Canonical_id_a sent_def w2 account_types_def uuid_arg_def rbind_def stmt_eval DefaultGLCurrency_def)
  have cash: "str_field cash_doc ''code'' = ''1000''" "str_field cash_doc ''name'' = ''Cash''" "str_field cash_doc ''type'' = ''asset''"
    "bool_field cash_doc ''is_active''"
    by (simp_all add: str_field_def bool_field_def cash_doc_def fmlookup_of_list)
  have hook: "runHook chart_hook ?d ?r ActionCreate sample_actor w2 = (Inr (), w3)"
    by (simp add: runHook_def chart_hook_def SetHook_def SyncGLAccountOnWrite_def bindM_def thenM_def cur cash up ret_def)
  have "w_faults (sample_world chart_db) = []" by (simp add: sample_world_def)
  from plain_create_run [OF this create _ hook w3(1)] aud
  have "Create sample_env chart_hook ?d (Some cash_doc) sample_actor (sample_world chart_db) = (Inr ?r, w3)" by simp
  then show ?thesis using w3(2,3) by blast
qed

theorem chart_of_accounts_follows_witness:
  "let D = w_db (snd (Create sample_env chart_hook (mk_definition ''Account'' []) (Some cash_doc) sample_actor (sample_world chart_db)))
   in (\<exists>r a. db_records D = [r] \<and> live ''Account'' r \<and> rr_data r = cash_doc \<and> db_accounts D = [a]) \<and> chart_follows D"
proof -
  let ?w = "sample_world chart_db"
  let ?d = "mk_definition ''Account'' []"
  have "ids_read_back sample_env ?w"
    by (simp add: ids_read_back_def sample_world_def sample_env_def Canonical_id_a)
  moreover have "decoded (create_fields ?d (Some cash_doc))"
    by (auto simp: decoded_def cash_doc_def json_norm_fields_def fmmap_fmupd)
  ultimately have "(engine_step sample_env {?d} chart_hook)\<^sup>*\<^sup>* (w_db ?w)
      (w_db (snd (Create sample_env chart_hook ?d (Some cash_doc) sample_actor ?w)))"
    by (intro r_into_rtranclp engine_step.step_create [OF _ _ _ prod.collapse [symmetric]]) simp_all
  then have "chart_follows (w_db (snd (Create sample_env chart_hook ?d (Some cash_doc) sample_actor ?w)))"
    by (rule chart_of_accounts_follows [OF _ chart_hook_ok])
      (simp_all add: sample_world_def tables_wf_parts chart_follows_def chart_db_def empty_db_def)
  then show ?thesis using cash_created by (auto simp: Let_def live_def)
qed

text \<open>
  The hook never hears of a deletion: the ledger account of a deleted \<open>Account\<close> record stays as it is,
  active if it was, and the ledger goes on posting to it.
\<close>

lemma deletion_leaves_the_chart:
  "Delete E d rid actor w = (res, w') \<Longrightarrow> db_accounts (w_db w') = db_accounts (w_db w)"
proof (cases res)
  case (Inr v)
  assume run: "Delete E d rid actor w = (res, w')"
  obtain w1 w2 w3 w4 where 1: "w_db w1 = w_db w" "DeleteTx E (d_entity_type d) rid w1 = (Inr (), w2)"
    "deleteUniqueConstraintKeys E rid w2 = (Inr (), w3)"
    "write_audit E (d_entity_type d) rid ActionDelete actor None w3 = (Inr (), w4)" "w_db w' = w_db w4"
    by (rule Delete_success [OF run [unfolded Inr]], rule that, assumption+)
  have "db_accounts (w_db w2) = db_accounts (w_db w1)" using 1(2) by (auto elim!: DeleteTx_success)
  then show ?thesis
    using keepsD [OF keys_accounts(3) 1(3), of "db_accounts (w_db w2)"] audit_view [OF 1(4)] 1(1,5) by simp
qed (metis Delete_error)

section \<open>The sweep\<close>

lemma sweep_effect:
  assumes "sweep_accounts E ct base (map to_record rs) cache w = (Inr u, w')"
    and "distinct (map rr_id rs)" "\<And>r. r \<in> set rs \<Longrightarrow> e_uuid E (rr_id r) = Some (rr_id r)"
  shows "db_records (w_db w') = db_records (w_db w)"
    and "\<And>r. r \<in> set rs \<Longrightarrow> mirrored (w_db w') r"
    and "\<And>q. rr_id q \<notin> rr_id ` set rs \<Longrightarrow> mirrored (w_db w) q \<Longrightarrow> mirrored (w_db w') q"
proof -
  have "db_records (w_db w') = db_records (w_db w) \<and> (\<forall>r \<in> set rs. mirrored (w_db w') r) \<and>
      (\<forall>q. rr_id q \<notin> rr_id ` set rs \<longrightarrow> mirrored (w_db w) q \<longrightarrow> mirrored (w_db w') q)"
    using assms
  proof (induction rs arbitrary: cache w)
    case (Cons r rs)
    from Cons.prems(1) obtain cur cache' w1 x w2 where
        c: "sweep_currency E ct base cache (rr_data r) w = (Inr (cur, cache'), w1)"
      and up: "UpsertBySourceRecord E (rr_id r) (str_field (rr_data r) ''code'') (str_field (rr_data r) ''name'')
           (str_field (rr_data r) ''type'') cur (bool_field (rr_data r) ''is_active'') w1 = (Inr x, w2)"
      and rest: "sweep_accounts E ct base (map to_record rs) cache' w2 = (Inr u, w')"
      by (auto simp: bindM_Inr_iff thenM_Inr_iff to_record_def [of r])
    have "reads (sweep_currency E ct base cache (rr_data r))"
      unfolding sweep_currency_def Let_def by (intro reads_intro)
    then have w1: "w_db w1 = w_db w" using readsD c by blast
    obtain s where s: "e_uuid E (rr_id r) = Some s" "upserted s (rr_data r) (w_db w1) (w_db w2)"
      by (rule upsert_effect [OF up])
    have id: "s = rr_id r" using s(1) Cons.prems(3) [of r] by simp
    have recs: "db_records (w_db w2) = db_records (w_db w)" using s(2) w1 by (auto simp: upserted_def)
    have IH: "db_records (w_db w') = db_records (w_db w2)" "\<And>q. q \<in> set rs \<Longrightarrow> mirrored (w_db w') q"
      "\<And>q. rr_id q \<notin> rr_id ` set rs \<Longrightarrow> mirrored (w_db w2) q \<Longrightarrow> mirrored (w_db w') q"
      using Cons.IH [OF rest] Cons.prems(2,3) by auto
    have "mirrored (w_db w2) r" using upserted_mirrored(1) [OF s(2)] id by simp
    then have "mirrored (w_db w') r" using IH(3) [of r] Cons.prems(2) by auto
    moreover have "mirrored (w_db w') q" if "rr_id q \<notin> rr_id ` set (r # rs)" "mirrored (w_db w) q" for q
      using upserted_mirrored(2) [OF s(2)] IH(3) [of q] that id w1 by auto
    ultimately show ?case using IH(1,2) recs by auto
  qed simp
  then show "db_records (w_db w') = db_records (w_db w)" "\<And>r. r \<in> set rs \<Longrightarrow> mirrored (w_db w') r"
    "\<And>q. rr_id q \<notin> rr_id ` set rs \<Longrightarrow> mirrored (w_db w) q \<Longrightarrow> mirrored (w_db w') q" by blast+
qed

text \<open>
  C36. The sweep brings about what the hook keeps: from any chart of accounts, a sweep that succeeds leaves
  one in which every live \<open>Account\<close> record is mirrored.
\<close>

theorem sweep_repairs_the_chart:
  assumes run: "SyncGLAccounts E up decode w = (Inr u, w')"
    and wf: "records_wf (w_db w)" "ids_canonical E (w_db w)"
    and decode: "\<And>pd w1. getPublished EntityDefinitions ''Account'' w = (Inr pd, w1) \<Longrightarrow>
      map_option d_entity_type (decode (dv_definition pd)) = Some ''Account''"
  shows "chart_follows (w_db w')"
proof -
  from run obtain ad w1 cd w2 accs w3 base w4 where
      a: "published_definition decode ''Account'' w = (Inr ad, w1)"
    and c: "published_definition decode ''Currency'' w1 = (Inr cd, w2)"
    and l: "ListTx (d_entity_type ad) w2 = (Inr accs, w3)"
    and b: "ResolveBaseCurrency up decode w3 = (Inr base, w4)"
    and s: "sweep_accounts E (d_entity_type cd) base accs Map.empty w4 = (Inr u, w')"
    unfolding SyncGLAccounts_def bindM_Inr_iff by blast
  have rd: "reads (published_definition decode et)" for et
    unfolding published_definition_def by (intro reads_intro reads_definitions)
  have rb: "reads (ResolveBaseCurrency up decode)"
    unfolding ResolveBaseCurrency_def by (intro reads_intro reads_definitions)
  have w2: "w_db w2 = w_db w" using readsD [OF rd a] readsD [OF rd c] by simp
  have w4: "w_db w4 = w_db w" using readsD [OF reads_repo(3) l] readsD [OF rb b] w2 by simp
  obtain pd w5 where pd: "getPublished EntityDefinitions ''Account'' w = (Inr pd, w5)"
    "(case decode (dv_definition pd) of None \<Rightarrow> fail ErrPlain | Some d \<Rightarrow> ret d) w5 = (Inr ad, w1)"
    using a unfolding published_definition_def bindM_Inr_iff by blast
  have ty: "d_entity_type ad = ''Account''"
    using decode [OF pd(1)] pd(2) by (cases "decode (dv_definition pd)") simp_all
  define rs where "rs = sort_key rr_created (filter (live ''Account'') (db_records (w_db w)))"
  have accs: "accs = map to_record rs" using l w2 ty by (auto simp: ListTx_def query_Inr_iff rs_def)
  have mem: "r \<in> set rs \<longleftrightarrow> r \<in> set (db_records (w_db w)) \<and> live ''Account'' r" for r by (auto simp: rs_def)
  have "distinct (map rr_id rs)"
  proof -
    have "mset (map rr_id rs) = mset (map rr_id (filter (live ''Account'') (db_records (w_db w))))" by (simp add: rs_def)
    moreover have "distinct (map rr_id (filter (live ''Account'') (db_records (w_db w))))"
      using wf(1) by (simp add: records_wf_def distinct_map_filter)
    ultimately show ?thesis using mset_eq_imp_distinct_iff by blast
  qed
  moreover have "e_uuid E (rr_id r) = Some (rr_id r)" if "r \<in> set rs" for r
    using that wf(2) by (simp add: mem ids_canonical_def)
  ultimately have swept: "db_records (w_db w') = db_records (w_db w4)" "\<And>r. r \<in> set rs \<Longrightarrow> mirrored (w_db w') r"
    using sweep_effect [OF s [unfolded accs]] by blast+
  then show ?thesis by (simp add: chart_follows_def w4 mem)
qed

definition finance_decode :: "gval \<Rightarrow> Definition option" where
  "finance_decode v = (case v of VStr et \<Rightarrow> Some (mk_definition et []) | _ \<Rightarrow> None)"

definition cash_row :: rrow where
  "cash_row = \<lparr>rr_id = id_a, rr_type = ''Account'', rr_data = cash_doc, rr_version = 1, rr_created = 1, rr_deleted = False\<rparr>"

definition finance_db :: db where
  "finance_db = empty_db\<lparr>db_records := [cash_row], db_defs := [finance_published ''Account'', finance_published ''Currency'']\<rparr>"

lemma finance_published_versions:
  "getPublished EntityDefinitions ''Account'' (sample_world finance_db) =
     (Inr (version_of (finance_published ''Account'')), sample_world finance_db)"
  "getPublished EntityDefinitions ''Currency'' (sample_world finance_db) =
     (Inr (version_of (finance_published ''Currency'')), sample_world finance_db)"
  by (simp_all add: getPublished_def getOne_def published_def finance_db_def finance_published_def sample_world_def
      stmt_eval empty_db_def)

lemma finance_lists:
  "ListTx ''Account'' (sample_world finance_db) = (Inr [to_record cash_row], sample_world finance_db)"
  "ListTx ''Currency'' (sample_world finance_db) = (Inr [], sample_world finance_db)"
  by (simp_all add: ListTx_def finance_db_def cash_row_def sample_world_def stmt_eval empty_db_def live_def)

lemma finance_sweep:
  "\<exists>w'. SyncGLAccounts sample_env id finance_decode (sample_world finance_db) = (Inr (), w')"
proof -
  have run: "\<exists>w'. sweep_accounts sample_env ''Currency'' cur [to_record cash_row] Map.empty (sample_world finance_db) = (Inr (), w')"
    for cur
    by (simp add: sweep_currency_def UpsertBySourceRecord_def to_record_def cash_row_def cash_doc_def str_field_def
        fmlookup_of_list account_types_def sample_world_def finance_db_def empty_db_def stmt_eval sample_env_def
        Canonical_id_a)
  show ?thesis
    unfolding SyncGLAccounts_def published_definition_def ResolveBaseCurrency_def
    by (simp add: bindM_def finance_published_versions finance_lists version_of_def finance_published_def
        finance_decode_def ret_def mk_definition_def del: sweep_accounts.simps)
      (rule run [unfolded bindM_def])
qed

theorem sweep_repairs_the_chart_witness:
  "chart_follows (w_db (snd (SyncGLAccounts sample_env id finance_decode (sample_world finance_db)))) \<and>
   \<not> chart_follows finance_db"
proof -
  obtain w' where run: "SyncGLAccounts sample_env id finance_decode (sample_world finance_db) = (Inr (), w')"
    using finance_sweep by blast
  have "chart_follows (w_db w')"
  proof (rule sweep_repairs_the_chart [OF run])
    show "records_wf (w_db (sample_world finance_db))" "ids_canonical sample_env (w_db (sample_world finance_db))"
      by (simp_all add: records_wf_def ids_canonical_def sample_world_def finance_db_def cash_row_def empty_db_def
          max_int4_def sample_env_def Canonical_id_a)
  qed (simp add: finance_published_versions version_of_def finance_published_def finance_decode_def mk_definition_def)
  moreover have "\<not> chart_follows finance_db"
    by (simp add: chart_follows_def mirrored_def finance_db_def cash_row_def empty_db_def live_def)
  ultimately show ?thesis using run by simp
qed

end
