(* ===== verification/Purchasing.thy ===== *)
theory Purchasing
  imports Finance DepreciationPosting
begin

text \<open>
  The hooks of goods receipts and stock transfers
  (\<open>internal/kernel/purchasing/ledger.go\<close>): the quality split of a received line, the credit of the
  stock it arrived in, its journal entry, and the check of a transfer.
\<close>

section \<open>Numbers of a record\<close>

text \<open>\<open>float64\<close> addition and negation; the sign of a zero is not kept.\<close>

fun f_neg :: "f64 \<Rightarrow> f64" where
  "f_neg (Fin x) = Fin (- x)" | "f_neg PInf = NInf" | "f_neg NInf = PInf" | "f_neg NaN = NaN"

fun f_add :: "f64 \<Rightarrow> f64 \<Rightarrow> f64" where
  "f_add (Fin x) (Fin y) = rnd64 (x + y)"
| "f_add PInf NInf = NaN"
| "f_add NInf PInf = NaN"
| "f_add NaN y = NaN"
| "f_add x NaN = NaN"
| "f_add PInf y = PInf"
| "f_add NInf y = NInf"
| "f_add x PInf = PInf"
| "f_add x NInf = NInf"

text \<open>\<open>None\<close> is Go's \<open>(0, false)\<close>.\<close>

fun numberFieldValue :: "gval \<Rightarrow> f64 option" where
  "numberFieldValue (VNum x) = Some x"
| "numberFieldValue (VInt n) = Some (of_i64 n)"
| "numberFieldValue (VInt64 n) = Some (of_i64 n)"
| "numberFieldValue _ = None"

definition quantity :: "fields \<Rightarrow> string \<Rightarrow> f64" where
  "quantity d k = (case numberFieldValue (get_field d k) of None \<Rightarrow> Fin 0 | Some x \<Rightarrow> x)"

section \<open>The quality of a received line\<close>

definition qtyNetEpsilonAbs :: f64 where
  "qtyNetEpsilonAbs = rnd64 (1 / 10 ^ 9)"

definition qtyNetEpsilonRel :: f64 where
  "qtyNetEpsilonRel = rnd64 (1 / 10 ^ 9)"

definition qtyNetTolerance :: "f64 \<Rightarrow> f64" where
  "qtyNetTolerance received =
     (if f_lt (Fin 1) (f_abs received) then f_mul qtyNetEpsilonRel (f_abs received) else qtyNetEpsilonAbs)"

text \<open>Presence is the comma-ok of the map: a null is present.\<close>

definition validateGoodsReceiptLineQuality :: "Record \<Rightarrow> err option" where
  "validateGoodsReceiptLineQuality r =
     (case (fmlookup (rec_data r) ''qty_accepted'', fmlookup (rec_data r) ''qty_rejected'') of
        (None, None) \<Rightarrow> None
      | (Some a, Some b) \<Rightarrow>
          (case numberFieldValue a of
             None \<Rightarrow> Some (ErrHookRejected ''qty_accepted'')
           | Some accepted \<Rightarrow>
               case numberFieldValue b of
                 None \<Rightarrow> Some (ErrHookRejected ''qty_rejected'')
               | Some rejected \<Rightarrow>
                   if f_lt accepted (Fin 0) then Some (ErrHookRejected ''qty_accepted'')
                   else if f_lt rejected (Fin 0) then Some (ErrHookRejected ''qty_rejected'')
                   else
                     let received = quantity (rec_data r) ''qty_received'';
                         tolerance = qtyNetTolerance received;
                         diff = f_add (f_add accepted rejected) (f_neg received) in
                     if f_lt tolerance diff \<or> f_lt diff (f_neg tolerance) then Some (ErrHookRejected ''netting'')
                     else None)
      | _ \<Rightarrow> Some (ErrHookRejected ''together''))"

section \<open>Stock transfers\<close>

definition ValidateStockTransfer :: hook where
  "ValidateStockTransfer = (\<lambda>d r act actor.
     let from_facility = str_field (rec_data r) ''from_facility_id'';
         to_facility = str_field (rec_data r) ''to_facility_id'' in
     if from_facility \<noteq> [] \<and> from_facility = to_facility then fail (ErrHookRejected ''facilities'')
     else case numberFieldValue (get_field (rec_data r) ''qty'') of
         None \<Rightarrow> fail (ErrHookRejected ''qty'')
       | Some qty \<Rightarrow>
           if f_lt qty (Fin 0) \<or> f_eq qty (Fin 0) then fail (ErrHookRejected ''qty'') else ret ())"

section \<open>Crediting the stock\<close>

definition requiredUnique :: string where
  "requiredUnique = UniqueConstraintName [''item_id'', ''facility_id'']"

definition stock_overrides :: "string \<Rightarrow> string \<Rightarrow> f64 \<Rightarrow> f64 \<Rightarrow> fields" where
  "stock_overrides itemID facilityID onHand atp =
     fmap_of_list [(''item_id'', VStr itemID), (''facility_id'', VStr facilityID),
       (''qty_on_hand'', VNum onHand), (''qty_available_to_promise'', VNum atp)]"

text \<open>
  One turn of the loop on a row that was found. \<open>False\<close> is \<open>continue\<close>: another transaction moved
  the row on.
\<close>

definition credit_existing ::
    "env \<Rightarrow> Definition \<Rightarrow> Record \<Rightarrow> string \<Rightarrow> string \<Rightarrow> f64 \<Rightarrow> Actor \<Rightarrow> bool dbm" where
  "credit_existing E d existing itemID facilityID qty actor =
     (let overrides = stock_overrides itemID facilityID
            (f_add (quantity (rec_data existing) ''qty_on_hand'') qty)
            (f_add (quantity (rec_data existing) ''qty_available_to_promise'') qty);
          fields = mergedRecordData (rec_data existing) overrides in
      thenM (validation E d fields)
      (bindM (tryM (UpdateTx E ''InventoryItem'' (rec_id existing) fields (Some (rec_version existing)))) (\<lambda>u. case u of
           Inl e \<Rightarrow> if e = ErrVersionConflict then ret False else fail e
         | Inr _ \<Rightarrow>
             thenM (UpdateUniqueConstraintKeys E d (rec_id existing) fields)
             (thenM (write_audit E ''InventoryItem'' (rec_id existing) ActionUpdate actor (Some overrides))
               (ret True)))))"

text \<open>\<open>ROLLBACK TO SAVEPOINT\<close>: the state the savepoint was set in.\<close>

definition savepoint :: "db dbm" where
  "savepoint = query Inr"

definition rollback_to :: "db \<Rightarrow> unit dbm" where
  "rollback_to saved = stmt (\<lambda>_. Inr ((), saved))"

text \<open>One turn when none was found; a lost race for the key undoes the insert and turns again.\<close>

definition credit_new ::
    "env \<Rightarrow> Definition \<Rightarrow> string \<Rightarrow> string \<Rightarrow> f64 \<Rightarrow> Actor \<Rightarrow> bool dbm" where
  "credit_new E d itemID facilityID qty actor =
     (let fields = the (ApplyDefaults d (Some (stock_overrides itemID facilityID qty qty))) in
      thenM (validation E d fields)
      (bindM savepoint (\<lambda>saved.
       bindM (CreateTx ''InventoryItem'' fields) (\<lambda>inv.
       bindM (tryM (WriteUniqueConstraintKeys E d (rec_id inv) fields)) (\<lambda>k. case k of
           Inl (ErrUniqueConstraintViolation _ _) \<Rightarrow> thenM (rollback_to saved) (ret False)
         | Inl e \<Rightarrow> fail e
         | Inr _ \<Rightarrow>
             thenM (query (\<lambda>_. Inr ()))
             (thenM (write_audit E ''InventoryItem'' (rec_id inv) ActionCreate actor (Some fields))
               (ret True)))))))"

definition credit_turn ::
    "env \<Rightarrow> Definition \<Rightarrow> string \<Rightarrow> string \<Rightarrow> f64 \<Rightarrow> Actor \<Rightarrow> bool dbm" where
  "credit_turn E d itemID facilityID qty actor =
     bindM (GetByFieldsQ E ''InventoryItem'' [(''item_id'', itemID), (''facility_id'', facilityID)]) (\<lambda>found.
       case found of
         Some existing \<Rightarrow> credit_existing E d existing itemID facilityID qty actor
       | None \<Rightarrow> credit_new E d itemID facilityID qty actor)"

definition creditInventoryOnReceiptMaxRetries :: nat where
  "creditInventoryOnReceiptMaxRetries = 20"

fun credit_loop :: "bool dbm \<Rightarrow> nat \<Rightarrow> unit dbm" where
  "credit_loop turn 0 = bindM turn (\<lambda>done. if done then ret () else fail ErrPlain)"
| "credit_loop turn (Suc n) = bindM turn (\<lambda>done. if done then ret () else credit_loop turn n)"

definition creditInventoryOnReceipt ::
    "env \<Rightarrow> (gval \<Rightarrow> Definition option) \<Rightarrow> string \<Rightarrow> string \<Rightarrow> f64 \<Rightarrow> Actor \<Rightarrow> unit dbm" where
  "creditInventoryOnReceipt E decode itemID facilityID qty actor =
     bindM (published_definition decode ''InventoryItem'') (\<lambda>d.
       if \<not> list_ex (\<lambda>s. UniqueConstraintName s = requiredUnique) (d_unique d) then fail ErrPlain
       else credit_loop (credit_turn E d itemID facilityID qty actor) creditInventoryOnReceiptMaxRetries)"

section \<open>The hook of received lines\<close>

definition glAccountInventory :: string where
  "glAccountInventory = ''1300''"

definition glAccountAPAccrual :: string where
  "glAccountAPAccrual = ''2100''"

definition receipt_entry :: "string \<Rightarrow> string \<Rightarrow> i64 \<Rightarrow> JEntry" where
  "receipt_entry receivedDate lineID amount =
     \<lparr>e_date = receivedDate, e_description = ''Goods receipt line '' @ lineID,
      e_source_type = ''GoodsReceiptLine'', e_source_id = lineID,
      e_lines = [\<lparr>ln_account = glAccountInventory, ln_debit = amount, ln_credit = 0\<rparr>,
        \<lparr>ln_account = glAccountAPAccrual, ln_debit = 0, ln_credit = amount\<rparr>]\<rparr>"

definition receipt_effects ::
    "env \<Rightarrow> (gval \<Rightarrow> Definition option) \<Rightarrow> Record \<Rightarrow> money \<Rightarrow> Record \<Rightarrow> Actor \<Rightarrow> unit dbm" where
  "receipt_effects E decode r unitPrice goodsReceipt actor =
     (let qty = quantity (rec_data r) ''qty_received'';
          facilityID = str_field (rec_data goodsReceipt) ''facility_id'';
          amount = to_i64 (e_cv E) (f_round (f_mul qty (of_i64 unitPrice))) in
      if facilityID = [] then fail ErrPlain
      else
        thenM (if f_lt (Fin 0) qty
               then creditInventoryOnReceipt E decode (str_field (rec_data r) ''item_id'') facilityID qty actor
               else ret ())
          (if amount = 0 then ret ()
           else thenM (PostTx E (receipt_entry (str_field (rec_data goodsReceipt) ''received_date'') (rec_id r) amount)
                  actor) (ret ())))"

definition PostGoodsReceiptLineToLedger :: "env \<Rightarrow> (gval \<Rightarrow> Definition option) \<Rightarrow> hook" where
  "PostGoodsReceiptLineToLedger E decode = (\<lambda>d r act actor.
     thenM (guardM (validateGoodsReceiptLineQuality r))
     (if act \<noteq> ActionCreate then ret ()
      else
        let poLineID = str_field (rec_data r) ''po_line_id'';
            goodsReceiptID = str_field (rec_data r) ''goods_receipt_id'' in
        if poLineID = [] \<or> goodsReceiptID = [] \<or> str_field (rec_data r) ''item_id'' = [] then fail ErrPlain
        else
          bindM (GetTx E ''POLine'' poLineID) (\<lambda>poLine.
            case FromAny (e_cv E) (get_field (rec_data poLine) ''unit_price'') of
              Inl _ \<Rightarrow> fail ErrPlain
            | Inr unitPrice \<Rightarrow>
                bindM (GetTx E ''GoodsReceipt'' goodsReceiptID) (\<lambda>goodsReceipt.
                  receipt_effects E decode r unitPrice goodsReceipt actor))))"

end
