(* ===== verification/Invoicing.thy ===== *)
theory Invoicing
  imports Purchasing
begin

text \<open>
  The hooks of invoices: the three-way match of a vendor invoice against its purchase order and
  what was received (\<open>internal/kernel/purchasing/ledger.go\<close>), and the posting of an issued
  customer invoice (\<open>internal/kernel/sales/ledger.go\<close>).
\<close>

section \<open>The value received\<close>

text \<open>The lookup of a currency's scale; a value out of range counts as unresolvable.\<close>

definition invoiceMinorUnitTx :: "env \<Rightarrow> string \<Rightarrow> int dbm" where
  "invoiceMinorUnitTx E currencyID =
     bindM (GetTx E ''Currency'' currencyID) (\<lambda>c.
       case fmlookup (rec_data c) ''minor_unit'' of
         Some (VNum v) \<Rightarrow>
           if f_lt v (Fin 0) \<or> f_lt (Fin (of_int MaxMinorUnitScale)) v then fail ErrPlain
           else ret (sint (go_int E v))
       | _ \<Rightarrow> fail ErrPlain)"

text \<open>
  The scale of the match, with a flag for a lookup that Postgres refused: the code goes on with two
  decimals, in a transaction that is aborted.
\<close>

definition match_scale :: "env \<Rightarrow> string \<Rightarrow> (int \<times> bool) dbm" where
  "match_scale E currencyID =
     (if currencyID = [] then ret (int Decimals, False)
      else catchM (bindM (invoiceMinorUnitTx E currencyID) (\<lambda>v. ret (v, False)))
        (\<lambda>e. ret (int Decimals, e = ErrDB)))"

text \<open>\<open>money.FromAny\<close> with its error discarded.\<close>

definition price_of :: "env \<Rightarrow> Record \<Rightarrow> money" where
  "price_of E l = (case FromAny (e_cv E) (get_field (rec_data l) ''unit_price'') of Inl _ \<Rightarrow> 0 | Inr p \<Rightarrow> p)"

definition line_prices :: "env \<Rightarrow> string \<Rightarrow> Record list \<Rightarrow> (string \<times> money) list" where
  "line_prices E poID ls =
     map (\<lambda>l. (rec_id l, price_of E l)) (filter (\<lambda>l. str_field (rec_data l) ''purchase_order_id'' = poID) ls)"

text \<open>\<open>sumMajor += qty * price\<close>, the product rounded before the sum.\<close>

definition add_received :: "(string \<rightharpoonup> money) \<Rightarrow> f64 \<Rightarrow> Record \<Rightarrow> f64" where
  "add_received prices sumMajor l =
     (case prices (str_field (rec_data l) ''po_line_id'') of
        None \<Rightarrow> sumMajor
      | Some price \<Rightarrow> f_add sumMajor (f_mul (num_field (rec_data l) ''qty_received'') (Major price)))"

definition receivedValueForPurchaseOrder :: "env \<Rightarrow> string \<Rightarrow> int \<Rightarrow> (i64 \<times> bool) dbm" where
  "receivedValueForPurchaseOrder E poID minorUnit =
     bindM (ListTx ''POLine'') (\<lambda>poLines.
       let prices = line_prices E poID poLines in
       if prices = [] then ret (0, False)
       else bindM (ListTx ''GoodsReceiptLine'') (\<lambda>grLines.
         case FromMajorUnits (e_cv E) (foldl (add_received (map_of prices)) (Fin 0) grLines) minorUnit of
           Inl _ \<Rightarrow> fail ErrPlain
         | Inr received \<Rightarrow> ret (received, True)))"

section \<open>The match\<close>

definition statusCodeMatchException :: string where
  "statusCodeMatchException = ''match_exception''"

text \<open>\<open>float64(minor) / math.Pow(10, minorUnit)\<close>, for the scales of the match.\<close>

definition majorAtScale :: "i64 \<Rightarrow> int \<Rightarrow> f64" where
  "majorAtScale minor minorUnit = f_div_fin (of_i64 minor) (10 ^ nat minorUnit)"

text \<open>
  The reasons, in the words kept on the invoice. \<open>quote\<close> is \<open>strconv.Quote\<close> (\<open>%q\<close>); a float is
  printed as \<open>fmt.Sprint\<close> does.
\<close>

definition no_order :: "string \<Rightarrow> string" where
  "no_order poID = ''PurchaseOrder '' @ poID @ '' does not exist''"

definition other_value :: "(string \<Rightarrow> string) \<Rightarrow> string \<Rightarrow> string \<Rightarrow> string \<Rightarrow> string \<Rightarrow> string" where
  "other_value quote field mine poID theirs =
     ''VendorInvoice '' @ field @ '' '' @ quote mine @ '' does not match PurchaseOrder '' @ poID @
     [CHR 0x27] @ ''s own '' @ field @ '' '' @ quote theirs"

definition no_lines :: "string \<Rightarrow> string" where
  "no_lines poID = ''PurchaseOrder '' @ poID @ '' has no POLines yet''"

definition nothing_received :: "string \<Rightarrow> string" where
  "nothing_received poID = ''PurchaseOrder '' @ poID @ '' has nothing received against it yet''"

definition other_total :: "env \<Rightarrow> f64 \<Rightarrow> i64 \<Rightarrow> i64 \<Rightarrow> int \<Rightarrow> string \<Rightarrow> string" where
  "other_total E invoiceTotal totalMinor receivedMinor minorUnit poID =
     ''total '' @ sprint E (VNum invoiceTotal) @ '' ('' @ FormatInt (sint totalMinor) @
     '' minor units) does not match received value '' @ sprint E (VNum (majorAtScale receivedMinor minorUnit)) @
     '' ('' @ FormatInt (sint receivedMinor) @ '' minor units) for PurchaseOrder '' @ poID"

text \<open>The legs of the match once the purchase order is read: its parties, its currency, its value.\<close>

definition match_value :: "env \<Rightarrow> string \<Rightarrow> f64 \<Rightarrow> string \<Rightarrow> string dbm" where
  "match_value E poID invoiceTotal poCurrencyID =
     bindM (match_scale E poCurrencyID) (\<lambda>(minorUnit, aborted).
     bindM (catchM (if aborted then query (\<lambda>_. Inl ErrDB) else receivedValueForPurchaseOrder E poID minorUnit)
        (\<lambda>_. fail ErrVendorInvoiceMatchFailed)) (\<lambda>(receivedMinor, hasLines).
       if \<not> hasLines then ret (no_lines poID)
       else if receivedMinor = 0 then ret (nothing_received poID)
       else case FromMajorUnits (e_cv E) invoiceTotal minorUnit of
           Inl _ \<Rightarrow> fail ErrVendorInvoiceMatchFailed
         | Inr totalMinor \<Rightarrow>
             if receivedMinor \<noteq> totalMinor then ret (other_total E invoiceTotal totalMinor receivedMinor minorUnit poID)
             else ret []))"

definition match_order :: "env \<Rightarrow> (string \<Rightarrow> string) \<Rightarrow> fields \<Rightarrow> string \<Rightarrow> fields \<Rightarrow> string dbm" where
  "match_order E quote invoice poID po =
     (let vendorID = str_field invoice ''vendor_id''; poVendorID = str_field po ''vendor_id'';
          currencyID = str_field invoice ''currency_id''; poCurrencyID = str_field po ''currency_id'' in
      if vendorID = [] \<or> vendorID \<noteq> poVendorID then ret (other_value quote ''vendor_id'' vendorID poID poVendorID)
      else if currencyID \<noteq> [] \<and> poCurrencyID \<noteq> [] \<and> currencyID \<noteq> poCurrencyID
        then ret (other_value quote ''currency_id'' currencyID poID poCurrencyID)
      else match_value E poID (num_field invoice ''total'') poCurrencyID)"

definition vendorInvoiceMatchDetail :: "env \<Rightarrow> (string \<Rightarrow> string) \<Rightarrow> Record \<Rightarrow> string dbm" where
  "vendorInvoiceMatchDetail E quote r =
     (let poID = str_field (rec_data r) ''purchase_order_id'' in
      if poID = [] then fail ErrVendorInvoiceMatchFailed
      else
        bindM (catchM (optionalM (GetTx E ''PurchaseOrder'' poID)) (\<lambda>_. fail ErrVendorInvoiceMatchFailed)) (\<lambda>po.
          case po of
            None \<Rightarrow> ret (no_order poID)
          | Some po \<Rightarrow> match_order E quote (rec_data r) poID (rec_data po)))"

text \<open>A write of the hook to the invoice itself, with an audit entry of its own.\<close>

definition rewrite_invoice :: "env \<Rightarrow> Record \<Rightarrow> fields \<Rightarrow> Actor \<Rightarrow> unit dbm" where
  "rewrite_invoice E r chg actor =
     thenM (UpdateTx E ''VendorInvoice'' (rec_id r) (mergedRecordData (rec_data r) chg) (Some (rec_version r)))
       (write_audit E ''VendorInvoice'' (rec_id r) ActionUpdate actor (Some chg))"

definition clearVendorInvoiceMatchException :: "env \<Rightarrow> Record \<Rightarrow> Actor \<Rightarrow> unit dbm" where
  "clearVendorInvoiceMatchException E r actor =
     rewrite_invoice E r (fmap_of_list [(''match_exception_reason'', VStr [])]) actor"

definition MatchVendorInvoiceOnUpdate :: "env \<Rightarrow> (string \<Rightarrow> string) \<Rightarrow> hook" where
  "MatchVendorInvoiceOnUpdate E quote = (\<lambda>d r act actor.
     let statusID = str_field (rec_data r) ''status_id'' in
     if act \<noteq> ActionUpdate \<or> statusID = [] then ret ()
     else bindM (GetTx E ''Status'' statusID) (\<lambda>status.
       if str_field (rec_data status) ''code'' \<noteq> ''matched'' then ret ()
       else bindM (vendorInvoiceMatchDetail E quote r) (\<lambda>matchDetail.
         if matchDetail = [] then
           (if str_field (rec_data r) ''match_exception_reason'' = [] then ret ()
            else clearVendorInvoiceMatchException E r actor)
         else bindM (statusIDByCodeTx (str_field (rec_data status) ''status_type_id'') statusCodeMatchException)
           (\<lambda>exceptionStatusID.
             rewrite_invoice E r (fmap_of_list [(''status_id'', VStr exceptionStatusID),
               (''match_exception_reason'', VStr matchDetail)]) actor))))"

section \<open>Customer invoices\<close>

definition glAccountAR :: string where
  "glAccountAR = ''1200''"

definition glAccountRevenue :: string where
  "glAccountRevenue = ''4100''"

definition invoice_entry :: "string \<Rightarrow> string \<Rightarrow> i64 \<Rightarrow> JEntry" where
  "invoice_entry invoiceDate rid amount =
     \<lparr>e_date = invoiceDate, e_description = ''Customer invoice '' @ rid @ '' issued'',
      e_source_type = ''CustomerInvoice'', e_source_id = rid,
      e_lines = [\<lparr>ln_account = glAccountAR, ln_debit = amount, ln_credit = 0\<rparr>,
        \<lparr>ln_account = glAccountRevenue, ln_debit = 0, ln_credit = amount\<rparr>]\<rparr>"

definition PostCustomerInvoiceToLedger :: "env \<Rightarrow> hook" where
  "PostCustomerInvoiceToLedger E = (\<lambda>d r act actor.
     let statusID = str_field (rec_data r) ''status_id'' in
     if act \<noteq> ActionUpdate \<or> statusID = [] then ret ()
     else bindM (GetTx E ''Status'' statusID) (\<lambda>status.
       if str_field (rec_data status) ''code'' \<noteq> ''issued'' then ret ()
       else bindM (ExistsForSource E ''CustomerInvoice'' (rec_id r)) (\<lambda>alreadyPosted.
         if alreadyPosted then ret ()
         else case FromMajorUnits (e_cv E) (num_field (rec_data r) ''total'') (int Decimals) of
             Inl _ \<Rightarrow> fail ErrPlain
           | Inr amount \<Rightarrow>
               if amount = 0 then ret ()
               else thenM (PostTx E (invoice_entry (str_field (rec_data r) ''invoice_date'') (rec_id r) amount) actor)
                 (ret ()))))"

end
