(* ===== verification/Vetting.thy ===== *)
theory Vetting
  imports CrudUnique CrudProps
begin

text \<open>
  Hooks that vet the records of their type: an interface for every hook that refuses a write, and the
  invariant it gives over every history of the engine.
\<close>

section \<open>The rows of a type\<close>

definition rows_of :: "string \<Rightarrow> db \<Rightarrow> rrow list" where
  "rows_of et D = filter (live et) (db_records D)"

definition all_rows :: "string \<Rightarrow> (fields \<Rightarrow> bool) \<Rightarrow> db \<Rightarrow> bool" where
  "all_rows et P D \<longleftrightarrow> (\<forall>r \<in> set (rows_of et D). P (rr_data r))"

lemma rows_of_update: "et \<noteq> et' \<Longrightarrow>
    rows_of et (D\<lparr>db_records := upd_where (update_hits et' u ev) (update_row f) (db_records D)\<rparr>) = rows_of et D"
proof -
  assume "et \<noteq> et'"
  then have "filter (live et) (upd_where (update_hits et' u ev) (update_row f) rs) = filter (live et) rs" for rs
    by (induction rs) (auto simp: upd_where_def update_hits_def live_def update_row_def)
  then show ?thesis by (simp add: rows_of_def)
qed

lemma keeps_rows_of: "(\<And>rs. keeps (\<lambda>D. db_records D = rs) m) \<Longrightarrow> keeps (\<lambda>D. rows_of et D = v) m"
  unfolding keeps_def rows_of_def by metis

lemma record_statements_rows:
  assumes "et \<noteq> et'"
  shows "keeps (\<lambda>D. rows_of et D = v) (CreateTx et' f)" "keeps (\<lambda>D. rows_of et D = v) (UpdateTx E et' rid f ev)"
    "keeps (\<lambda>D. rows_of et D = v) (DeleteTx E et' rid)"
proof -
  show "keeps (\<lambda>D. rows_of et D = v) (CreateTx et' f)"
    by (rule keepsI) (erule CreateTx_success, use assms in \<open>auto simp: rows_of_def live_def\<close>)
  show "keeps (\<lambda>D. rows_of et D = v) (UpdateTx E et' rid f ev)"
    by (rule keepsI) (erule UpdateTx_success, use assms rows_of_update in simp)
  have "filter (live et) (upd_where (\<lambda>r. rr_id r = u \<and> live et' r) (\<lambda>r. r\<lparr>rr_deleted := True\<rparr>) rs) = filter (live et) rs"
    for u rs using assms by (induction rs) (auto simp: upd_where_def live_def)
  then show "keeps (\<lambda>D. rows_of et D = v) (DeleteTx E et' rid)"
    by (intro keepsI) (erule DeleteTx_success, simp add: rows_of_def)
qed

lemma write_audit_rows: "keeps (\<lambda>D. rows_of et D = v) (write_audit E t rid act actor diff)"
  by (rule keepsI) (use write_audit_db in \<open>fastforce simp: rows_of_def\<close>)

lemmas other_steps_rows = record_statements_rows write_audit_rows
  keeps_rows_of [OF write_keys_records] keeps_rows_of [OF update_keys_records]

text \<open>Key writes touch the key table only.\<close>

lemma key_ops_only:
  "keeps (\<lambda>D. D\<lparr>db_keys := []\<rparr> = v) (InsertTx E et cn x rid)"
  "keeps (\<lambda>D. D\<lparr>db_keys := []\<rparr> = v) (UpdateValueTx E et cn x rid)"
  "keeps (\<lambda>D. D\<lparr>db_keys := []\<rparr> = v) (DeleteForConstraintTx E et cn rid)"
  by (rule keepsI, erule InsertTx_success, simp_all)
    (rule keepsI, erule UpdateValueTx_success, simp,
     auto simp: keeps_def DeleteForConstraintTx_def stmt_Inr_iff)

lemma keys_only:
  "keeps (\<lambda>D. D\<lparr>db_keys := []\<rparr> = v) (WriteUniqueConstraintKeys E d rid f)"
  "keeps (\<lambda>D. D\<lparr>db_keys := []\<rparr> = v) (UpdateUniqueConstraintKeys E d rid f)"
  unfolding UpdateUniqueConstraintKeys_def WriteUniqueConstraintKeys_def
    updateConstraintKey_def writeConstraintKey_def Let_def
  by (intro keeps_intro key_ops_only)+

lemma only_keys: "D'\<lparr>db_keys := []\<rparr> = D\<lparr>db_keys := []\<rparr> \<Longrightarrow> D' = D\<lparr>db_keys := db_keys D'\<rparr>"
  by (cases D, cases D') simp

lemma keys_effect:
  "WriteUniqueConstraintKeys E d rid f w = (Inr u, w') \<Longrightarrow> w_db w' = (w_db w)\<lparr>db_keys := db_keys (w_db w')\<rparr>"
  "UpdateUniqueConstraintKeys E d rid f w = (Inr u, w') \<Longrightarrow> w_db w' = (w_db w)\<lparr>db_keys := db_keys (w_db w')\<rparr>"
  by (rule only_keys, erule keepsD [OF keys_only(1)], rule refl)
    (rule only_keys, erule keepsD [OF keys_only(2)], rule refl)

section \<open>The interface\<close>

text \<open>The hook is the one of its type, and the hooks of other types leave the rows of that type alone.\<close>

definition installed :: "string \<Rightarrow> hook \<Rightarrow> hooks \<Rightarrow> bool" where
  "installed et h hooks \<longleftrightarrow> hooks et = Some h \<and>
     (\<forall>t g d r act actor v. t \<noteq> et \<longrightarrow> hooks t = Some g \<longrightarrow> keeps (\<lambda>D. rows_of et D = v) (g d r act actor))"

text \<open>A hook that lets a write of a type through only if the record satisfies \<open>P\<close>.\<close>

locale vetting =
  fixes h :: hook and et :: string and P :: "fields \<Rightarrow> bool"
  assumes vets: "h d r act actor w = (Inr (), w') \<Longrightarrow> decoded (rec_data r) \<Longrightarrow> json_ok_fields (rec_data r) \<Longrightarrow>
      P (rec_data r)"
    and leaves: "keeps (\<lambda>D. rows_of et D = v) (h d r act actor)"
begin

lemma run_leaves: "installed et h hooks \<Longrightarrow> keeps (\<lambda>D. rows_of et D = v) (runHook hooks d r act actor)"
proof (cases "hooks (d_entity_type d)")
  case (Some g)
  assume "installed et h hooks"
  then have "keeps (\<lambda>D. rows_of et D = v) (g d r act actor)"
    using Some leaves by (cases "d_entity_type d = et") (auto simp: installed_def)
  then show ?thesis using Some by (simp add: runHook_def)
qed (simp add: runHook_def keeps_intro)

lemma run_vets: "installed et h hooks \<Longrightarrow> d_entity_type d = et \<Longrightarrow> runHook hooks d r act actor w = (Inr (), w') \<Longrightarrow>
    decoded (rec_data r) \<Longrightarrow> json_ok_fields (rec_data r) \<Longrightarrow> P (rec_data r)"
  by (auto simp: runHook_def installed_def intro: vets)

lemma create_vetted:
  assumes i: "installed et h hooks" and dec: "decoded (create_fields d fo)" and I: "all_rows et P (w_db w)"
    and run: "Create E hooks d fo actor w = (Inr r, w')"
  shows "all_rows et P (w_db w')"
proof -
  obtain w1 w2 w3 w4 w5 x where 1: "w_db w1 = w_db w"
      "checkReferenceTargetConstraints E d (create_fields d fo) w1 = (Inr (), w2)"
      "CreateTx (d_entity_type d) (create_fields d fo) w2 = (Inr r, w3)"
      "WriteUniqueConstraintKeys E d (rec_id r) (create_fields d fo) w3 = (Inr (), w4)"
      "write_audit E (d_entity_type d) (rec_id r) ActionCreate actor (Some (create_fields d fo)) w4 = (Inr (), w5)"
    and h: "runHook hooks d r ActionCreate actor w5 = (Inr (), x)" and w': "w_db w' = w_db x"
    by (rule Create_success [OF run], rule that, assumption+)
  have w2: "w_db w2 = w_db w" using readsD [OF reads_target_constraints 1(2)] 1(1) by simp
  have after: "rows_of et (w_db w') = rows_of et (w_db w3)"
    using keepsD [OF other_steps_rows(5) 1(4), of et] keepsD [OF other_steps_rows(4) 1(5), of et]
      keepsD [OF run_leaves [OF i] h] w' by simp
  have new: "rec_data r = create_fields d fo" "json_ok_fields (create_fields d fo)" "w_db w3 = (w_db w)\<lparr>db_records := db_records (w_db w) @
       [\<lparr>rr_id = rec_id r, rr_type = d_entity_type d, rr_data = json_norm_fields (create_fields d fo), rr_version = 1,
         rr_created = w_now w2, rr_deleted = False\<rparr>]\<rparr>"
    using 1(3) w2 by (auto elim!: CreateTx_success intro: Record.select_convs(3) [THEN trans, rotated])
  have "d_entity_type d = et \<Longrightarrow> P (rec_data r)" using run_vets [OF i _ h] new dec by simp
  then show ?thesis
    using I dec new unfolding all_rows_def after by (auto simp: rows_of_def live_def decoded_def)
qed

lemma update_vetted:
  assumes i: "installed et h hooks" and dec: "decoded f" and I: "all_rows et P (w_db w)"
    and run: "Update E hooks d rid f ev actor w = (Inr v, w')"
  shows "all_rows et P (w_db w')"
proof -
  obtain w1 w2 w3 w4 w5 w6 w7 v0 where 1: "w_db w1 = w_db w"
      "check_self_references E d rid f w1 = (Inr (), w2)"
      "checkReferenceTargetConstraints E d f w2 = (Inr (), w3)"
      "UpdateTx E (d_entity_type d) rid f ev w3 = (Inr v0, w4)"
      "UpdateUniqueConstraintKeys E d rid f w4 = (Inr (), w5)"
      "write_audit E (d_entity_type d) rid ActionUpdate actor (Some f) w5 = (Inr (), w6)"
    and h: "runHook hooks d \<lparr>rec_id = rid, rec_type = d_entity_type d, rec_data = f, rec_version = v0\<rparr>
       ActionUpdate actor w6 = (Inr (), w7)" and w': "w_db w' = w_db w7"
    by (rule Update_success [OF run], rule that, assumption+)
  have w3: "w_db w3 = w_db w"
    using readsD [OF reads_check_self_references 1(2)] readsD [OF reads_target_constraints 1(3)] 1(1) by simp
  have after: "rows_of et (w_db w') = rows_of et (w_db w4)"
    using keepsD [OF other_steps_rows(6) 1(5), of et] keepsD [OF other_steps_rows(4) 1(6), of et]
      keepsD [OF run_leaves [OF i] h] w' by simp
  obtain u where ok: "json_ok_fields f" and w4: "w_db w4 = (w_db w)\<lparr>db_records :=
      upd_where (update_hits (d_entity_type d) u ev) (update_row f) (db_records (w_db w))\<rparr>"
    using 1(4) w3 by (auto elim!: UpdateTx_success)
  show ?thesis
  proof (cases "d_entity_type d = et")
    case True
    then have "P f" using run_vets [OF i _ h] dec ok by simp
    then have "all_rows et P (w_db w4)"
      using I dec by (auto simp: w4 all_rows_def rows_of_def in_upd_where live_def decoded_def update_row_def split: if_splits)
    then show ?thesis by (simp add: all_rows_def after)
  next
    case False
    then show ?thesis using I rows_of_update [of et "d_entity_type d"] unfolding all_rows_def after w4 by simp
  qed
qed

lemma delete_vetted:
  assumes I: "all_rows et P (w_db w)" and run: "Delete E d rid actor w = (Inr v, w')"
  shows "all_rows et P (w_db w')"
proof -
  obtain w1 w2 w3 w4 where 1: "w_db w1 = w_db w" "DeleteTx E (d_entity_type d) rid w1 = (Inr (), w2)"
    "deleteUniqueConstraintKeys E rid w2 = (Inr (), w3)"
    "write_audit E (d_entity_type d) rid ActionDelete actor None w3 = (Inr (), w4)" "w_db w' = w_db w4"
    by (rule Delete_success [OF run], rule that, assumption+)
  obtain u where "db_records (w_db w2) =
       upd_where (\<lambda>r. rr_id r = u \<and> live (d_entity_type d) r) (\<lambda>r. r\<lparr>rr_deleted := True\<rparr>) (db_records (w_db w))"
    using 1(1,2) by (auto elim!: DeleteTx_success)
  moreover have "db_records (w_db w') = db_records (w_db w2)"
    using 1(3,4,5) write_audit_db by (fastforce simp: deleteUniqueConstraintKeys_def DeleteForRecordTx_def stmt_Inr_iff)
  ultimately show ?thesis using I by (auto simp: all_rows_def rows_of_def in_upd_where live_def split: if_splits)
qed

lemma history_vetted:
  assumes "(engine_step E S hooks)\<^sup>*\<^sup>* D D'" "installed et h hooks" "all_rows et P D"
  shows "all_rows et P D'"
  using assms(1)
proof induction
  case (step D1 D2)
  from step.hyps(2) show ?case
  proof cases
    case (step_create d w fo actor res w')
    then show ?thesis
      using create_vetted [OF assms(2), of d fo w E actor _ w'] Create_error step.IH by (cases res) metis+
  next
    case (step_update d f rid ev actor w resv w')
    then show ?thesis
      using update_vetted [OF assms(2), of f w E d rid ev actor _ w'] Update_error step.IH by (cases resv) metis+
  next
    case (step_delete d rid actor w resu w')
    then show ?thesis
      using delete_vetted [of w E d rid actor _ w'] Delete_error step.IH by (cases resu) metis+
  qed
qed (rule assms(3))

end

end
