(* ===== verification/ReceiptProps.thy ===== *)
theory ReceiptProps
  imports Vetting Purchasing PostingProps
begin

text \<open>
  Received lines and stock transfers: what the engine stores of them always satisfies the checks of
  their hooks, and what the creation of a line does to the stock and to the ledger.
\<close>

section \<open>Transfers\<close>

definition transfer_sound :: "fields \<Rightarrow> bool" where
  "transfer_sound d \<longleftrightarrow>
     (str_field d ''from_facility_id'' \<noteq> [] \<longrightarrow> str_field d ''from_facility_id'' \<noteq> str_field d ''to_facility_id'') \<and>
     (\<exists>q > 0. get_field d ''qty'' = VNum (Fin q))"

text \<open>A number of a record as the engine stores it is finite.\<close>

lemma stored_number:
  assumes "decoded d" "json_ok_fields d" "numberFieldValue (get_field d k) = Some x"
  shows "\<exists>q. x = Fin q \<and> get_field d k = VNum (Fin q)"
proof -
  have n: "json_norm (get_field d k) = get_field d k"
    using assms(1) fmlookup_json_norm [of d k] by (auto simp: decoded_def get_field_def split: option.splits)
  have "json_ok (get_field d k)"
    using assms(2) by (auto simp: json_ok_fields_iff get_field_def split: option.splits)
  moreover have "v = VNum x \<and> (\<exists>q. x = Fin q)" if "json_ok v" "json_norm v = v" "numberFieldValue v = Some x" for v
    using that by (cases v; cases x) auto
  ultimately show ?thesis using assms(3) n by metis
qed

lemma transfer_keeps: "keeps I (ValidateStockTransfer d r act actor)"
  unfolding ValidateStockTransfer_def Let_def by (intro keeps_intro)

interpretation transfer: vetting ValidateStockTransfer "''StockTransfer''" transfer_sound
proof
  fix d r act actor w w' v
  assume run: "ValidateStockTransfer d r act actor w = (Inr (), w')" "decoded (rec_data r)" "json_ok_fields (rec_data r)"
  then obtain x where x: "numberFieldValue (get_field (rec_data r) ''qty'') = Some x" "\<not> f_lt x (Fin 0)" "\<not> f_eq x (Fin 0)"
    by (auto simp: ValidateStockTransfer_def Let_def split: if_splits option.splits)
  moreover obtain q where "x = Fin q" "get_field (rec_data r) ''qty'' = VNum (Fin q)"
    using stored_number run x(1) by blast
  ultimately show "transfer_sound (rec_data r)"
    using run(1) by (auto simp: transfer_sound_def ValidateStockTransfer_def Let_def split: if_splits)
next
  show "keeps (\<lambda>D. rows_of ''StockTransfer'' D = v) (ValidateStockTransfer d r act actor)" for v d r act actor
    by (rule transfer_keeps)
qed

section \<open>Received lines\<close>

lemma rnd64_below_1:
  assumes "0 \<le> x" "x \<le> 1/2"
  shows "\<exists>v. rnd64 x = Fin v \<and> v < 1"
proof (cases "x = 0")
  case False
  then have x: "0 < x" using assms(1) by simp
  define k where "k = max (exp2 x - 52) (- 1074)"
  define v where "v = of_int (round_half_even (x / pow2 k)) * pow2 k"
  have "pow2 (exp2 x) < pow2 0" using exp2_bounds [OF x] assms(2) by (simp add: pow2_def [of 0])
  then have "exp2 x < 0" using pow2_mono [of 0 "exp2 x"] by linarith
  then have "pow2 k \<le> pow2 (- 52)" unfolding k_def by (intro pow2_mono) simp
  moreover have "pow2 (- 52) \<le> 1 / 2" by (simp add: pow2_def)
  ultimately have k: "pow2 k \<le> 1 / 2" by linarith
  have "of_int (round_half_even y) \<le> y + 1/2" for y :: rat
    using of_int_floor_le [of y] by (simp add: round_half_even_def Let_def; linarith)
  then have "v \<le> (x / pow2 k + 1/2) * pow2 k" unfolding v_def by (intro mult_right_mono) (simp_all add: less_imp_le)
  also have "\<dots> = x + pow2 k / 2" using pow2_pos [of k] by (simp add: field_simps less_imp_neq [symmetric])
  finally have "v \<le> x + pow2 k / 2" .
  then have v1: "v < 1" using k assms(2) by linarith
  then have "rnd64 x = Fin v" using x by (simp add: rnd64_def Let_def flip: k_def v_def)
  then show ?thesis using v1 by blast
qed (simp add: rnd64_def)

lemma rel_tolerance: "qtyNetEpsilonRel = Fin (4835703278458517 / 2 ^ 82)"
proof -
  have "\<lfloor>9444732965739290427392 / 1953125 :: rat\<rfloor> = 4835703278458516" by (simp add: floor_eq_iff)
  then have "round_half_even (9444732965739290427392 / 1953125) = 4835703278458517"
    by (simp add: round_half_even_def)
  then show ?thesis
    unfolding qtyNetEpsilonRel_def
    by (subst rnd64_eval [of "- 30" "1 / 10 ^ 9" "4835703278458517 / 2 ^ 82"]) (simp_all add: pow2_def)
qed

text \<open>Up to a hundred million the slack stays below one.\<close>

lemma tolerance_below_1:
  assumes "\<bar>q\<bar> \<le> 10 ^ 8"
  shows "\<exists>v. qtyNetTolerance (Fin q) = Fin v \<and> v < 1"
proof (cases "1 < \<bar>q\<bar>")
  case True
  have "4835703278458517 / 2 ^ 82 * \<bar>q\<bar> \<le> 4835703278458517 / 2 ^ 82 * 10 ^ 8"
    using assms by (intro mult_left_mono) simp_all
  also have "\<dots> \<le> 1 / 2" by simp
  finally show ?thesis using True rnd64_below_1 [of "4835703278458517 / 2 ^ 82 * \<bar>q\<bar>"]
    by (simp add: qtyNetTolerance_def rel_tolerance)
next
  case False
  then show ?thesis using rnd64_below_1 [of "1 / 10 ^ 9"] by (simp add: qtyNetTolerance_def qtyNetEpsilonAbs_def)
qed

text \<open>
  The quality of a line: not recorded, or two numbers that are not negative and together make up
  what was received, within the code's slack, and exactly so for whole quantities up to a
  hundred million.
\<close>

definition nets :: "rat \<Rightarrow> rat \<Rightarrow> f64 \<Rightarrow> bool" where
  "nets a b received \<longleftrightarrow>
     (let diff = f_add (rnd64 (a + b)) (f_neg received); tolerance = qtyNetTolerance received in
      \<not> f_lt tolerance diff \<and> \<not> f_lt diff (f_neg tolerance))"

definition whole_small :: "rat \<Rightarrow> bool" where
  "whole_small q \<longleftrightarrow> q = of_int \<lfloor>q\<rfloor> \<and> \<bar>q\<bar> \<le> 10 ^ 8"

definition line_sound :: "fields \<Rightarrow> bool" where
  "line_sound d \<longleftrightarrow>
     fmlookup d ''qty_accepted'' = None \<and> fmlookup d ''qty_rejected'' = None \<or>
     (\<exists>a b. fmlookup d ''qty_accepted'' = Some (VNum (Fin a)) \<and> fmlookup d ''qty_rejected'' = Some (VNum (Fin b)) \<and>
        0 \<le> a \<and> 0 \<le> b \<and> nets a b (quantity d ''qty_received'') \<and>
        (\<forall>q. quantity d ''qty_received'' = Fin q \<and> whole_small a \<and> whole_small b \<and> whole_small q \<longrightarrow> a + b = q))"

lemma nets_whole:
  assumes "nets a b (Fin q)" "whole_small a" "whole_small b" "whole_small q"
  shows "a + b = q"
proof -
  define i where "i = \<lfloor>a\<rfloor> + \<lfloor>b\<rfloor> - \<lfloor>q\<rfloor>"
  have s: "a + b = of_int (\<lfloor>a\<rfloor> + \<lfloor>b\<rfloor>)" and i: "a + b - q = of_int i"
    using assms(2-4) by (simp_all add: whole_small_def i_def)
  have bound: "\<bar>\<lfloor>x\<rfloor>\<bar> \<le> 10 ^ 8" if "whole_small x" for x
  proof -
    have "of_int \<bar>\<lfloor>x\<rfloor>\<bar> \<le> (of_int (10 ^ 8) :: rat)" using that by (simp add: whole_small_def)
    then show ?thesis by (simp only: of_int_le_iff)
  qed
  have "\<bar>\<lfloor>a\<rfloor> + \<lfloor>b\<rfloor>\<bar> \<le> 2 ^ 53" "\<bar>i\<bar> \<le> 2 ^ 53"
    using bound [OF assms(2)] bound [OF assms(3)] bound [OF assms(4)] by (simp_all add: i_def)
  then have "rnd64 (a + b) = Fin (a + b)" "rnd64 (a + b + - q) = Fin (of_int i)"
    using rnd64_of_int [of "\<lfloor>a\<rfloor> + \<lfloor>b\<rfloor>"] rnd64_of_int [of i] by (simp_all add: i [symmetric]) (simp add: s)
  then have d: "f_add (rnd64 (a + b)) (f_neg (Fin q)) = Fin (of_int i)" by simp
  obtain v where "qtyNetTolerance (Fin q) = Fin v" "v < 1"
    using tolerance_below_1 assms(4) by (auto simp: whole_small_def)
  then have "of_int i < (1 :: rat)" "- 1 < (of_int i :: rat)"
    using assms(1) d by (simp_all add: nets_def)
  then have "i = 0" by simp
  then show ?thesis using i by simp
qed

section \<open>The credit of the stock\<close>

text \<open>The row that is credited: the oldest of the item in the facility.\<close>

definition stock_of :: "env \<Rightarrow> db \<Rightarrow> string \<Rightarrow> string \<Rightarrow> rrow option" where
  "stock_of E D item facility =
     (case by_age (filter (\<lambda>r. live ''InventoryItem'' r \<and> field_is E r (''item_id'', item) \<and>
         field_is E r (''facility_id'', facility)) (db_records D)) of
        [] \<Rightarrow> None | r # _ \<Rightarrow> Some r)"

lemma update_failed: "UpdateTx E et rid f ev w = (Inl e, w') \<Longrightarrow> w_db w' = w_db w"
  by (auto simp: UpdateTx_def bindM_def thenM_def stmt_def query_def fail_def ret_def sent_def uuid_arg_def rbind_def
      split: if_splits option.splits sum.splits prod.splits)

lemma credit_existing_run:
  assumes run: "credit_existing E d x item facility qty actor w = (Inr turned, w')"
  defines "f \<equiv> mergedRecordData (rec_data x) (stock_overrides item facility
      (f_add (quantity (rec_data x) ''qty_on_hand'') qty) (f_add (quantity (rec_data x) ''qty_available_to_promise'') qty))"
  obtains "\<not> turned" "w_db w' = w_db w"
  | u row ks as where "turned" "e_uuid E (rec_id x) = Some u" "row \<in> set (db_records (w_db w))"
      "update_hits ''InventoryItem'' u (Some (rec_version x)) row"
      "w_db w' = (w_db w)\<lparr>db_records := upd_where (update_hits ''InventoryItem'' u (Some (rec_version x))) (update_row f)
        (db_records (w_db w)), db_keys := ks, db_audit := as\<rparr>"
proof -
  from run obtain u w1 where "UpdateTx E ''InventoryItem'' (rec_id x) f (Some (rec_version x)) w = (u, w1)"
    and rest: "(case u of
           Inl e \<Rightarrow> if e = ErrVersionConflict then ret False else fail e
         | Inr _ \<Rightarrow>
             thenM (UpdateUniqueConstraintKeys E d (rec_id x) f)
             (thenM (write_audit E ''InventoryItem'' (rec_id x) ActionUpdate actor (Some (stock_overrides item facility
      (f_add (quantity (rec_data x) ''qty_on_hand'') qty) (f_add (quantity (rec_data x) ''qty_available_to_promise'') qty))))
               (ret True))) w1 = (Inr turned, w')"
    unfolding credit_existing_def Let_def f_def [symmetric] validation_def thenM_Inr_iff bindM_Inr_iff tryM_iff by auto
  note upd = this(1)
  show thesis
  proof (cases u)
    case (Inl e)
    then show thesis using rest upd that(1) update_failed by (auto split: if_splits)
  next
    case (Inr v)
    from rest Inr obtain w2 where k: "UpdateUniqueConstraintKeys E d (rec_id x) f w1 = (Inr (), w2)"
      and a: "write_audit E ''InventoryItem'' (rec_id x) ActionUpdate actor (Some (stock_overrides item facility
      (f_add (quantity (rec_data x) ''qty_on_hand'') qty) (f_add (quantity (rec_data x) ''qty_available_to_promise'') qty))) w2 = (Inr (), w')"
      and t: "turned" by (auto simp: thenM_Inr_iff)
    obtain q row where q: "e_uuid E (rec_id x) = Some q" "row \<in> set (db_records (w_db w))"
      "update_hits ''InventoryItem'' q (Some (rec_version x)) row"
      "w_db w1 = (w_db w)\<lparr>db_records := upd_where (update_hits ''InventoryItem'' q (Some (rec_version x))) (update_row f)
        (db_records (w_db w))\<rparr>"
      using upd Inr by (auto elim!: UpdateTx_success)
    obtain ks where "w_db w2 = (w_db w1)\<lparr>db_keys := ks\<rparr>" using keys_effect(2) [OF k] by blast
    moreover obtain as where "w_db w' = (w_db w2)\<lparr>db_audit := as\<rparr>" using write_audit_db [OF a] by blast
    ultimately show thesis using that(2) [OF t q(1-3)] q(4) by simp
  qed
qed

lemma credit_new_run:
  assumes run: "credit_new E d item facility qty actor w = (Inr turned, w')"
  defines "f \<equiv> the (ApplyDefaults d (Some (stock_overrides item facility qty qty)))"
  obtains "\<not> turned" "w_db w' = w_db w"
  | i t ks as where "turned" "i \<notin> rr_id ` set (db_records (w_db w))"
      "w_db w' = (w_db w)\<lparr>db_records := db_records (w_db w) @ [\<lparr>rr_id = i, rr_type = ''InventoryItem'',
        rr_data = json_norm_fields f, rr_version = 1, rr_created = t, rr_deleted = False\<rparr>], db_keys := ks, db_audit := as\<rparr>"
proof -
  from run obtain w1 v w2 k w3 where s: "savepoint w = (Inr (w_db w), w1)" "w_db w1 = w_db w"
    and c: "CreateTx ''InventoryItem'' f w1 = (Inr v, w2)"
    and k: "WriteUniqueConstraintKeys E d (rec_id v) f w2 = (k, w3)"
    and rest: "(case k of
           Inl (ErrUniqueConstraintViolation _ _) \<Rightarrow> thenM (rollback_to (w_db w)) (ret False)
         | Inl e \<Rightarrow> fail e
         | Inr _ \<Rightarrow>
             thenM (query (\<lambda>_. Inr ()))
             (thenM (write_audit E ''InventoryItem'' (rec_id v) ActionCreate actor (Some f))
               (ret True))) w3 = (Inr turned, w')"
    unfolding credit_new_def Let_def f_def [symmetric] validation_def thenM_Inr_iff bindM_Inr_iff tryM_iff
      savepoint_def query_Inr_iff by auto
  show thesis
  proof (cases k)
    case (Inl e)
    then show thesis using rest that(1)
      by (cases e) (auto simp: thenM_Inr_iff rollback_to_def stmt_Inr_iff)
  next
    case (Inr x)
    from rest Inr have a: "write_audit E ''InventoryItem'' (rec_id v) ActionCreate actor (Some f) (sent w3) = (Inr (), w')"
      and t: "turned" by (auto simp: thenM_Inr_iff query_Inr_iff)
    have "rec_id v \<notin> rr_id ` set (db_records (w_db w))" "w_db w2 = (w_db w)\<lparr>db_records := db_records (w_db w) @
       [\<lparr>rr_id = rec_id v, rr_type = ''InventoryItem'', rr_data = json_norm_fields f, rr_version = 1,
         rr_created = w_now w1, rr_deleted = False\<rparr>]\<rparr>"
      using c s(2) by (auto elim!: CreateTx_success)
    moreover obtain ks where "w_db w3 = (w_db w2)\<lparr>db_keys := ks\<rparr>" using keys_effect(1) k Inr by blast
    moreover obtain as where "w_db w' = (w_db w3)\<lparr>db_audit := as\<rparr>" using write_audit_db [OF a] by auto
    ultimately show thesis using that(2) [OF t] by simp
  qed
qed

text \<open>
  What a credit does: one row of the stock table is written, the oldest of the item in the
  facility or a new one, and its two quantities grow by what was received.
\<close>

definition grown :: "rrow option \<Rightarrow> string \<Rightarrow> f64 \<Rightarrow> f64" where
  "grown old k qty = (case old of None \<Rightarrow> qty | Some r \<Rightarrow> f_add (quantity (rr_data r) k) qty)"

definition stock_fields :: "string set" where
  "stock_fields = {''item_id'', ''facility_id'', ''qty_on_hand'', ''qty_available_to_promise''}"

definition credited :: "env \<Rightarrow> string \<Rightarrow> string \<Rightarrow> f64 \<Rightarrow> db \<Rightarrow> db \<Rightarrow> bool" where
  "credited E item facility qty D D' \<longleftrightarrow>
     (\<exists>s \<in> set (db_records D'). live ''InventoryItem'' s \<and>
        str_field (rr_data s) ''item_id'' = item \<and> str_field (rr_data s) ''facility_id'' = facility \<and>
        quantity (rr_data s) ''qty_on_hand'' = grown (stock_of E D item facility) ''qty_on_hand'' qty \<and>
        quantity (rr_data s) ''qty_available_to_promise'' =
          grown (stock_of E D item facility) ''qty_available_to_promise'' qty \<and>
        (\<forall>old k. stock_of E D item facility = Some old \<longrightarrow> rr_id s = rr_id old \<and>
           (k \<notin> stock_fields \<longrightarrow> fmlookup (rr_data s) k = map_option json_norm (fmlookup (rr_data old) k))) \<and>
        (\<forall>r. rr_id r \<noteq> rr_id s \<longrightarrow> r \<in> set (db_records D') \<longleftrightarrow> r \<in> set (db_records D)))"

lemma stock_overrides_sel:
  "fmlookup (stock_overrides item facility a b) ''item_id'' = Some (VStr item)"
  "fmlookup (stock_overrides item facility a b) ''facility_id'' = Some (VStr facility)"
  "fmlookup (stock_overrides item facility a b) ''qty_on_hand'' = Some (VNum a)"
  "fmlookup (stock_overrides item facility a b) ''qty_available_to_promise'' = Some (VNum b)"
  "k \<notin> stock_fields \<Longrightarrow> fmlookup (stock_overrides item facility a b) k = None"
  by (auto simp: stock_overrides_def stock_fields_def fmlookup_of_list)

lemma fmdom_overrides: "k \<in> stock_fields \<Longrightarrow> k |\<in>| fmdom (stock_overrides item facility a b)"
  by (auto simp: stock_fields_def stock_overrides_def fmdom_of_list)

lemma get_field_some: "fmlookup m n = Some v \<Longrightarrow> get_field m n = v"
  by (simp add: get_field_def)

lemma lookup_by_get_field: "get_field m n = v \<Longrightarrow> v \<noteq> VNil \<Longrightarrow> fmlookup m n = Some v"
  by (auto simp: get_field_def split: option.splits)

lemma quantity_num: "fmlookup m n = Some (VNum x) \<Longrightarrow> quantity m n = x"
  by (simp add: quantity_def get_field_def)

lemma str_field_str: "fmlookup m n = Some (VStr x) \<Longrightarrow> str_field m n = x"
  by (simp add: str_field_def)

lemma existing_credited:
  assumes wf: "records_wf D" and ids: "ids_canonical E D" and old: "stock_of E D item facility = Some old"
    and u: "e_uuid E (rr_id old) = Some u" and row: "row \<in> set (db_records D)"
      "update_hits ''InventoryItem'' u (Some (rr_version old)) row"
    and D': "D' = D\<lparr>db_records := upd_where (update_hits ''InventoryItem'' u (Some (rr_version old)))
      (update_row (mergedRecordData (rr_data old) (stock_overrides item facility
         (f_add (quantity (rr_data old) ''qty_on_hand'') qty) (f_add (quantity (rr_data old) ''qty_available_to_promise'') qty))))
      (db_records D), db_keys := ks, db_audit := as\<rparr>"
  shows "credited E item facility qty D D'"
proof -
  let ?f = "mergedRecordData (rr_data old) (stock_overrides item facility
      (f_add (quantity (rr_data old) ''qty_on_hand'') qty) (f_add (quantity (rr_data old) ''qty_available_to_promise'') qty))"
  let ?hit = "update_hits ''InventoryItem'' u (Some (rr_version old))"
  have "old \<in> set (db_records D)"
  proof -
    have "old \<in> set (by_age (filter (\<lambda>r. live ''InventoryItem'' r \<and> field_is E r (''item_id'', item) \<and>
         field_is E r (''facility_id'', facility)) (db_records D)))"
      using old by (auto simp: stock_of_def split: list.splits)
    then show ?thesis by (simp add: by_age_def)
  qed
  moreover have "u = rr_id old" using u ids \<open>old \<in> set (db_records D)\<close> by (simp add: ids_canonical_def)
  ultimately have ro: "row = old" using rr_id_unique [OF wf row(1)] row(2) by (simp add: update_hits_def)
  have hits: "?hit r \<longleftrightarrow> r = old" if "r \<in> set (db_records D)" for r
    using rr_id_unique [OF wf that row(1)] row ro by (auto simp: update_hits_def)
  have mem: "r \<in> set (db_records D') \<longleftrightarrow> r = update_row ?f old \<or> r \<in> set (db_records D) \<and> r \<noteq> old" for r
    unfolding D' using row(1) ro hits by (auto simp: in_upd_where)
  have m: "fmlookup ?f k = (if k \<in> stock_fields then fmlookup (stock_overrides item facility
      (f_add (quantity (rr_data old) ''qty_on_hand'') qty) (f_add (quantity (rr_data old) ''qty_available_to_promise'') qty)) k
      else fmlookup (rr_data old) k)" for k
    using stock_overrides_sel(5) [of k] fmdom_overrides [of k]
    by (auto simp: mergedRecordData_def fmlookup_add simp del: fmlookup_dom_iff)
  have "live ''InventoryItem'' (update_row ?f old)" using row(2) ro by (simp add: update_hits_def live_def)
  moreover have "rr_id r \<noteq> rr_id old \<Longrightarrow> r \<in> set (db_records D') \<longleftrightarrow> r \<in> set (db_records D)" for r
    unfolding mem by (auto simp: update_row_def)
  ultimately show ?thesis
    unfolding credited_def old
    by (intro bexI [of _ "update_row ?f old"])
      (auto simp: grown_def update_row_def m stock_fields_def stock_overrides_sel mem
        intro!: quantity_num str_field_str)
qed

lemma new_credited:
  assumes none: "stock_of E D item facility = None" and i: "i \<notin> rr_id ` set (db_records D)"
    and D': "D' = D\<lparr>db_records := db_records D @ [\<lparr>rr_id = i, rr_type = ''InventoryItem'',
        rr_data = json_norm_fields (the (ApplyDefaults d (Some (stock_overrides item facility qty qty)))),
        rr_version = 1, rr_created = t, rr_deleted = False\<rparr>], db_keys := ks, db_audit := as\<rparr>"
  shows "credited E item facility qty D D'"
proof -
  let ?f = "the (ApplyDefaults d (Some (stock_overrides item facility qty qty)))"
  let ?s = "\<lparr>rr_id = i, rr_type = ''InventoryItem'', rr_data = json_norm_fields ?f, rr_version = 1,
      rr_created = t, rr_deleted = False\<rparr>"
  have "fmlookup ?f ''item_id'' = Some (VStr item)" "fmlookup ?f ''facility_id'' = Some (VStr facility)"
    "fmlookup ?f ''qty_on_hand'' = Some (VNum qty)" "fmlookup ?f ''qty_available_to_promise'' = Some (VNum qty)"
    by (rule lookup_by_get_field, subst defaults_keep_field, simp_all add: get_field_def stock_overrides_sel)+
  moreover have "rr_id r \<noteq> i \<Longrightarrow> r \<in> set (db_records D') \<longleftrightarrow> r \<in> set (db_records D)" for r unfolding D' by auto
  ultimately show ?thesis
    unfolding credited_def none
    by (intro bexI [of _ ?s]) (auto simp: grown_def live_def D' intro!: quantity_num str_field_str)
qed

lemma stock_found:
  assumes "GetByFieldsQ E ''InventoryItem'' [(''item_id'', item), (''facility_id'', facility)] w = (Inr x, w')"
  shows "x = map_option to_record (stock_of E (w_db w) item facility)" "w_db w' = w_db w"
  using assms by (auto simp: GetByFieldsQ_def query_Inr_iff stock_of_def split: list.splits)

text \<open>The tables a credit may touch.\<close>

definition beyond_stock :: "db \<Rightarrow> db" where
  "beyond_stock D = D\<lparr>db_records := filter (\<lambda>r. \<not> live ''InventoryItem'' r) (db_records D), db_keys := [], db_audit := []\<rparr>"

lemma beyond_update: "beyond_stock (D\<lparr>db_records := upd_where (update_hits ''InventoryItem'' u ev) (update_row f) (db_records D),
    db_keys := ks, db_audit := as\<rparr>) = beyond_stock D"
proof -
  have "filter (\<lambda>r. \<not> live ''InventoryItem'' r) (upd_where (update_hits ''InventoryItem'' u ev) (update_row f) rs) =
      filter (\<lambda>r. \<not> live ''InventoryItem'' r) rs" for rs
    by (induction rs) (auto simp: upd_where_def update_hits_def live_def update_row_def)
  then show ?thesis by (simp add: beyond_stock_def)
qed

lemma credit_turn_run:
  assumes run: "credit_turn E d item facility qty actor w = (Inr turned, w')"
  shows "(\<not> turned \<longrightarrow> w_db w' = w_db w) \<and> beyond_stock (w_db w') = beyond_stock (w_db w) \<and>
    (turned \<longrightarrow> records_wf (w_db w) \<longrightarrow> ids_canonical E (w_db w) \<longrightarrow> credited E item facility qty (w_db w) (w_db w'))"
proof -
  from run obtain x w1 where g: "GetByFieldsQ E ''InventoryItem'' [(''item_id'', item), (''facility_id'', facility)] w = (Inr x, w1)"
    and k: "(case x of
         Some existing \<Rightarrow> credit_existing E d existing item facility qty actor
       | None \<Rightarrow> credit_new E d item facility qty actor) w1 = (Inr turned, w')"
    unfolding credit_turn_def bindM_Inr_iff by blast
  note w1 = stock_found(2) [OF g]
  have step: "(case stock_of E (w_db w) item facility of
         None \<Rightarrow> credit_new E d item facility qty actor
       | Some old \<Rightarrow> credit_existing E d (to_record old) item facility qty actor) w1 = (Inr turned, w')"
    using k stock_found(1) [OF g] by (cases "stock_of E (w_db w) item facility") simp_all
  show ?thesis
  proof (cases "stock_of E (w_db w) item facility")
    case None
    then have new: "credit_new E d item facility qty actor w1 = (Inr turned, w')" using step by simp
    show ?thesis
    proof (cases rule: credit_new_run [OF new])
      case 1
      then show ?thesis using w1 by simp
    next
      case (2 i t ks as)
      then show ?thesis using new_credited [OF None _ 2(3) [unfolded w1]] w1 by (simp add: beyond_stock_def live_def)
    qed
  next
    case (Some old)
    then have ex: "credit_existing E d (to_record old) item facility qty actor w1 = (Inr turned, w')" using step by simp
    show ?thesis
    proof (cases rule: credit_existing_run [OF ex])
      case 1
      then show ?thesis using w1 by simp
    next
      case (2 u row ks as)
      have D': "w_db w' = (w_db w)\<lparr>db_records := upd_where (update_hits ''InventoryItem'' u (Some (rr_version old)))
      (update_row (mergedRecordData (rr_data old) (stock_overrides item facility
         (f_add (quantity (rr_data old) ''qty_on_hand'') qty) (f_add (quantity (rr_data old) ''qty_available_to_promise'') qty))))
      (db_records (w_db w)), db_keys := ks, db_audit := as\<rparr>"
        using 2(5) w1 by (simp add: to_record_def)
      have "credited E item facility qty (w_db w) (w_db w')" if "records_wf (w_db w)" "ids_canonical E (w_db w)"
        using existing_credited [OF that Some _ _ _ D', of row] 2(2-4) w1 by (simp add: to_record_def)
      moreover have "beyond_stock (w_db w') = beyond_stock (w_db w)" unfolding D' by (rule beyond_update)
      ultimately show ?thesis using 2(1) by blast
    qed
  qed
qed

lemma credit_run:
  assumes run: "creditInventoryOnReceipt E decode item facility qty actor w = (Inr u, w')"
  shows "beyond_stock (w_db w') = beyond_stock (w_db w)"
    and "records_wf (w_db w) \<Longrightarrow> ids_canonical E (w_db w) \<Longrightarrow> credited E item facility qty (w_db w) (w_db w')"
proof -
  have loop: "beyond_stock (w_db w') = beyond_stock (w_db w) \<and>
      (records_wf (w_db w) \<longrightarrow> ids_canonical E (w_db w) \<longrightarrow> credited E item facility qty (w_db w) (w_db w'))"
    if "credit_loop (credit_turn E d item facility qty actor) n w = (Inr u, w')" for d n w
    using that
  proof (induction n arbitrary: w)
    case 0
    then show ?case using credit_turn_run by (fastforce simp: bindM_Inr_iff split: if_splits)
  next
    case (Suc n)
    then obtain turned w1 where t: "credit_turn E d item facility qty actor w = (Inr turned, w1)"
      and rest: "(if turned then ret () else credit_loop (credit_turn E d item facility qty actor) n) w1 = (Inr u, w')"
      by (auto simp: bindM_Inr_iff)
    show ?case using credit_turn_run [OF t] Suc.IH [of w1] rest by (cases turned) simp_all
  qed
  from run obtain d w1 where d: "published_definition decode ''InventoryItem'' w = (Inr d, w1)"
    and l: "credit_loop (credit_turn E d item facility qty actor) creditInventoryOnReceiptMaxRetries w1 = (Inr u, w')"
    unfolding creditInventoryOnReceipt_def bindM_Inr_iff by (auto split: if_splits)
  have "reads (published_definition decode ''InventoryItem'')"
    unfolding published_definition_def by (intro reads_intro)
  then have "w_db w1 = w_db w" using readsD d by blast
  then show "beyond_stock (w_db w') = beyond_stock (w_db w)"
    "records_wf (w_db w) \<Longrightarrow> ids_canonical E (w_db w) \<Longrightarrow> credited E item facility qty (w_db w) (w_db w')"
    using loop [OF l] by simp_all
qed

section \<open>The hook of received lines\<close>

lemma quality_sound:
  assumes v: "validateGoodsReceiptLineQuality r = None" and d: "decoded (rec_data r)" "json_ok_fields (rec_data r)"
  shows "line_sound (rec_data r)"
proof (cases "fmlookup (rec_data r) ''qty_accepted'' = None \<and> fmlookup (rec_data r) ''qty_rejected'' = None")
  case False
  have "fmlookup (rec_data r) ''qty_accepted'' \<noteq> None"
  proof
    assume n: "fmlookup (rec_data r) ''qty_accepted'' = None"
    then obtain y where "fmlookup (rec_data r) ''qty_rejected'' = Some y" using False by auto
    then show False using v n by (simp add: validateGoodsReceiptLineQuality_def)
  qed
  moreover have "fmlookup (rec_data r) ''qty_rejected'' \<noteq> None"
  proof
    assume n: "fmlookup (rec_data r) ''qty_rejected'' = None"
    then obtain y where "fmlookup (rec_data r) ''qty_accepted'' = Some y" using False by auto
    then show False using v n by (simp add: validateGoodsReceiptLineQuality_def)
  qed
  ultimately obtain x y where xy: "fmlookup (rec_data r) ''qty_accepted'' = Some x" "fmlookup (rec_data r) ''qty_rejected'' = Some y"
    by blast
  with v have v': "(case numberFieldValue x of
             None \<Rightarrow> Some (ErrHookRejected ''qty_accepted'')
           | Some accepted \<Rightarrow>
               case numberFieldValue y of
                 None \<Rightarrow> Some (ErrHookRejected ''qty_rejected'')
               | Some rejected \<Rightarrow>
                   if f_lt accepted (Fin 0) then Some (ErrHookRejected ''qty_accepted'')
                   else if f_lt rejected (Fin 0) then Some (ErrHookRejected ''qty_rejected'')
                   else
                     let received = quantity (rec_data r) ''qty_received'';
                         tolerance = qtyNetTolerance received;
                         diff = f_add (f_add accepted rejected) (f_neg received) in
                     if f_lt tolerance diff \<or> f_lt diff (f_neg tolerance) then Some (ErrHookRejected ''netting'')
                     else None) = None"
    by (simp add: validateGoodsReceiptLineQuality_def)
  obtain a where a: "numberFieldValue x = Some a" using v' by (cases "numberFieldValue x") simp_all
  obtain b where b: "numberFieldValue y = Some b" using v' a by (cases "numberFieldValue y") simp_all
  define received where "received = quantity (rec_data r) ''qty_received''"
  define diff where "diff = f_add (f_add a b) (f_neg received)"
  note chk = v' [unfolded a b option.case Let_def, folded received_def, folded diff_def]
  have n: "\<not> f_lt a (Fin 0)" "\<not> f_lt b (Fin 0)"
    and net: "\<not> f_lt (qtyNetTolerance received) diff" "\<not> f_lt diff (f_neg (qtyNetTolerance received))"
    using chk by (simp_all split: if_splits)
  have g: "get_field (rec_data r) ''qty_accepted'' = x" "get_field (rec_data r) ''qty_rejected'' = y"
    using xy by (simp_all add: get_field_def)
  obtain p where p: "a = Fin p" "x = VNum (Fin p)"
    using stored_number [OF d, of "''qty_accepted''" a] a g by auto
  obtain q where q: "b = Fin q" "y = VNum (Fin q)"
    using stored_number [OF d, of "''qty_rejected''" b] b g by auto
  have nt: "nets p q received" using net by (simp add: nets_def Let_def diff_def p q)
  have "0 \<le> p" "0 \<le> q" using n by (simp_all add: p q)
  moreover have "\<forall>c. received = Fin c \<and> whole_small p \<and> whole_small q \<and> whole_small c \<longrightarrow> p + q = c"
    using nt nets_whole by blast
  ultimately show ?thesis
    unfolding line_sound_def received_def [symmetric] using xy p(2) q(2) nt by blast
qed (simp add: line_sound_def)

lemma beyond_rows: "beyond_stock D' = beyond_stock D \<Longrightarrow> et \<noteq> ''InventoryItem'' \<Longrightarrow> rows_of et D' = rows_of et D"
proof -
  assume eq: "beyond_stock D' = beyond_stock D" and et: "et \<noteq> ''InventoryItem''"
  have "rows_of et D = filter (live et) (db_records (beyond_stock D))" for D
    using et by (simp add: rows_of_def beyond_stock_def) (rule filter_cong, auto simp: live_def)
  then show ?thesis using eq by simp
qed

lemma beyond_sel: "beyond_stock D' = beyond_stock D \<Longrightarrow>
    db_entries D' = db_entries D \<and> db_lines D' = db_lines D \<and> db_accounts D' = db_accounts D"
  by (cases D; cases D') (simp add: beyond_stock_def)

lemma PostTx_tables:
  assumes "PostTx E e actor w = (Inr u, w')"
  shows "db_records (w_db w') = db_records (w_db w)" "db_accounts (w_db w') = db_accounts (w_db w)"
  using assms by (auto elim!: PostTx_entry)

lemma receipt_hook_run:
  assumes "PostGoodsReceiptLineToLedger E decode d r act actor w = (Inr u, w')"
  obtains "validateGoodsReceiptLineQuality r = None" "act \<noteq> ActionCreate" "w_db w' = w_db w"
  | p g price w1 where "validateGoodsReceiptLineQuality r = None" "act = ActionCreate"
      "p \<in> set (db_records (w_db w))" "live ''POLine'' p" "e_uuid E (str_field (rec_data r) ''po_line_id'') = Some (rr_id p)"
      "g \<in> set (db_records (w_db w))" "live ''GoodsReceipt'' g" "e_uuid E (str_field (rec_data r) ''goods_receipt_id'') = Some (rr_id g)"
      "FromAny (e_cv E) (get_field (rr_data p) ''unit_price'') = Inr price" "w_db w1 = w_db w"
      "receipt_effects E decode r price \<lparr>rec_id = str_field (rec_data r) ''goods_receipt_id'', rec_type = ''GoodsReceipt'',
         rec_data = rr_data g, rec_version = rr_version g\<rparr> actor w1 = (Inr u, w')"
proof (cases "act = ActionCreate")
  case False
  then show thesis using assms that(1) by (auto simp: PostGoodsReceiptLineToLedger_def thenM_Inr_iff)
next
  case True
  with assms obtain pl w2 where v: "validateGoodsReceiptLineQuality r = None"
    and p: "GetTx E ''POLine'' (str_field (rec_data r) ''po_line_id'') w = (Inr pl, w2)"
    and k: "(case FromAny (e_cv E) (get_field (rec_data pl) ''unit_price'') of
              Inl _ \<Rightarrow> fail ErrPlain
            | Inr unitPrice \<Rightarrow>
                bindM (GetTx E ''GoodsReceipt'' (str_field (rec_data r) ''goods_receipt_id'')) (\<lambda>goodsReceipt.
                  receipt_effects E decode r unitPrice goodsReceipt actor)) w2 = (Inr u, w')"
    unfolding PostGoodsReceiptLineToLedger_def Let_def thenM_Inr_iff by (auto simp: bindM_Inr_iff split: if_splits)
  from k obtain price gr w3 where price: "FromAny (e_cv E) (get_field (rec_data pl) ''unit_price'') = Inr price"
    and g: "GetTx E ''GoodsReceipt'' (str_field (rec_data r) ''goods_receipt_id'') w2 = (Inr gr, w3)"
    and e: "receipt_effects E decode r price gr actor w3 = (Inr u, w')"
    by (cases "FromAny (e_cv E) (get_field (rec_data pl) ''unit_price'')") (auto simp: bindM_Inr_iff)
  have w2: "w_db w2 = w_db w" "w_db w3 = w_db w2" using readsD [OF reads_repo(1) p] readsD [OF reads_repo(1) g] by simp_all
  obtain pr where pr: "pr \<in> set (db_records (w_db w))" "live ''POLine'' pr"
    "e_uuid E (str_field (rec_data r) ''po_line_id'') = Some (rr_id pr)" "rec_data pl = rr_data pr"
    using p unfolding GetTx_def by (auto elim!: get_where_success)
  obtain q where q: "q \<in> set (db_records (w_db w2))" "live ''GoodsReceipt'' q"
    "e_uuid E (str_field (rec_data r) ''goods_receipt_id'') = Some (rr_id q)"
    "gr = \<lparr>rec_id = str_field (rec_data r) ''goods_receipt_id'', rec_type = ''GoodsReceipt'',
         rec_data = rr_data q, rec_version = rr_version q\<rparr>"
    using g unfolding GetTx_def by (auto elim!: get_where_success)
  show thesis by (rule that(2) [OF v True pr(1-3) q(1-3) [unfolded w2] _ _ e [unfolded q(4)]]) (use price pr(4) w2 in simp_all)
qed

lemma effects_run:
  assumes run: "receipt_effects E decode r price gr actor w = (Inr u, w')"
  defines "qty \<equiv> quantity (rec_data r) ''qty_received''"
  defines "amount \<equiv> to_i64 (e_cv E) (f_round (f_mul qty (of_i64 price)))"
  obtains x w1 where
    "(if f_lt (Fin 0) qty then creditInventoryOnReceipt E decode (str_field (rec_data r) ''item_id'')
        (str_field (rec_data gr) ''facility_id'') qty actor else ret ()) w = (Inr x, w1)"
    "(if amount = 0 then ret ()
      else thenM (PostTx E (receipt_entry (str_field (rec_data gr) ''received_date'') (rec_id r) amount) actor) (ret ())) w1
       = (Inr u, w')"
proof -
  have "str_field (rec_data gr) ''facility_id'' \<noteq> []" using run by (auto simp: receipt_effects_def Let_def)
  then have "thenM (if f_lt (Fin 0) qty then creditInventoryOnReceipt E decode (str_field (rec_data r) ''item_id'')
        (str_field (rec_data gr) ''facility_id'') qty actor else ret ())
      (if amount = 0 then ret ()
       else thenM (PostTx E (receipt_entry (str_field (rec_data gr) ''received_date'') (rec_id r) amount) actor) (ret ())) w
     = (Inr u, w')"
    using run unfolding qty_def amount_def by (simp add: receipt_effects_def Let_def split del: if_split)
  from thenM_Inr_iff [THEN iffD1, OF this] show thesis
    by (elim exE conjE) (rule that)
qed

lemma effects_beyond:
  assumes "receipt_effects E decode r price gr actor w = (Inr u, w')" and "et \<noteq> ''InventoryItem''"
  shows "rows_of et (w_db w') = rows_of et (w_db w)"
proof (rule effects_run [OF assms(1)])
  let ?qty = "quantity (rec_data r) ''qty_received''"
  let ?amount = "to_i64 (e_cv E) (f_round (f_mul ?qty (of_i64 price)))"
  fix x w1
  assume c: "(if f_lt (Fin 0) ?qty then creditInventoryOnReceipt E decode (str_field (rec_data r) ''item_id'')
        (str_field (rec_data gr) ''facility_id'') ?qty actor else ret ()) w = (Inr x, w1)"
    and j: "(if ?amount = 0 then ret ()
      else thenM (PostTx E (receipt_entry (str_field (rec_data gr) ''received_date'') (rec_id r) ?amount) actor) (ret ())) w1
       = (Inr u, w')"
  have "rows_of et (w_db w1) = rows_of et (w_db w)"
  proof (cases "f_lt (Fin 0) ?qty")
    case True
    then show ?thesis using c by (intro beyond_rows assms(2)) (rule credit_run(1), simp)
  qed (use c in simp)
  moreover have "rows_of et (w_db w') = rows_of et (w_db w1)"
  proof (cases "?amount = 0")
    case False
    then obtain x where "PostTx E (receipt_entry (str_field (rec_data gr) ''received_date'') (rec_id r) ?amount) actor w1 = (Inr x, w')"
      using j by (auto simp: thenM_Inr_iff)
    then show ?thesis using PostTx_tables(1) by (simp add: rows_of_def)
  qed (use j in simp)
  ultimately show ?thesis by simp
qed

lemma receipt_rows:
  assumes "et \<noteq> ''InventoryItem''"
  shows "keeps (\<lambda>D. rows_of et D = v) (PostGoodsReceiptLineToLedger E decode d r act actor)"
proof (rule keepsI)
  fix w x w' assume I: "rows_of et (w_db w) = v" and run: "PostGoodsReceiptLineToLedger E decode d r act actor w = (Inr x, w')"
  show "rows_of et (w_db w') = v"
    by (rule receipt_hook_run [OF run]) (use I assms effects_beyond [of E decode r _ _ actor _ x w' et] in auto)
qed

interpretation lines: vetting "PostGoodsReceiptLineToLedger E decode" "''GoodsReceiptLine''" line_sound for E decode
proof
  fix d r act actor w w'
  assume run: "PostGoodsReceiptLineToLedger E decode d r act actor w = (Inr (), w')"
    and ok: "decoded (rec_data r)" "json_ok_fields (rec_data r)"
  have "validateGoodsReceiptLineQuality r = None" by (rule receipt_hook_run [OF run])
  then show "line_sound (rec_data r)" using ok by (rule quality_sound)
next
  show "keeps (\<lambda>D. rows_of ''GoodsReceiptLine'' D = v) (PostGoodsReceiptLineToLedger E decode d r act actor)"
    for v d r act actor by (rule receipt_rows) simp
qed

section \<open>What is stored of receipts and transfers\<close>

text \<open>
  C37. Over every history of creates, updates and deletes through the engine with the two hooks
  registered and failures anywhere, every live stock transfer has a positive quantity and, when it names
  a facility it comes from, names that one and its destination by different texts (two spellings of one
  uuid are different texts, see \<open>same_facility_passes\<close> below); and every live goods receipt line records
  either no quality or an accepted and a rejected quantity, both finite and not negative, that make
  up the received one: within the code's relative slack, and exactly when the three are whole
  numbers up to a hundred million.
\<close>

theorem receipts_and_transfers_stay_sound:
  assumes hist: "(engine_step E S hooks)\<^sup>*\<^sup>* D D'"
    and hooks: "installed ''StockTransfer'' ValidateStockTransfer hooks"
      "installed ''GoodsReceiptLine'' (PostGoodsReceiptLineToLedger E decode) hooks"
    and start: "all_rows ''StockTransfer'' transfer_sound D" "all_rows ''GoodsReceiptLine'' line_sound D"
  shows "all_rows ''StockTransfer'' transfer_sound D' \<and> all_rows ''GoodsReceiptLine'' line_sound D'"
  using transfer.history_vetted [OF hist hooks(1) start(1)] lines.history_vetted [OF hist hooks(2) start(2)] by blast

section \<open>What a received line does\<close>

text \<open>
  A journal entry of one debit and one credit of the same amount, on two active accounts; or none for
  the amount zero.
\<close>

definition booked :: "env \<Rightarrow> db \<Rightarrow> db \<Rightarrow> string \<Rightarrow> string \<Rightarrow> string \<Rightarrow> string \<Rightarrow> string \<Rightarrow> i64 \<Rightarrow> bool" where
  "booked E D D' source sid date debit credit amount \<longleftrightarrow>
     (if amount = 0 then db_entries D' = db_entries D \<and> db_lines D' = db_lines D
      else \<exists>j l1 l2. db_entries D' = db_entries D @ [j] \<and> db_lines D' = db_lines D @ [l1, l2] \<and>
        je_source_type j = Some source \<and> je_source_id j = Some sid \<and> e_pgdate E date = Some (je_date j) \<and>
        posted E D (je_id j) \<lparr>ln_account = debit, ln_debit = amount, ln_credit = 0\<rparr> l1 \<and>
        posted E D (je_id j) \<lparr>ln_account = credit, ln_debit = 0, ln_credit = amount\<rparr> l2)"

lemma posted_cong: "db_accounts D' = db_accounts D \<Longrightarrow> posted E D' u l jl = posted E D u l jl"
  by (simp add: posted_def)

lemma PostTx_booked:
  assumes run: "PostTx E e actor w = (Inr u, w')" and sid: "e_source_id e \<noteq> []" "e_uuid E (e_source_id e) = Some i"
    and e: "e_source_type e \<noteq> []" "e_lines e = [\<lparr>ln_account = debit, ln_debit = amount, ln_credit = 0\<rparr>,
      \<lparr>ln_account = credit, ln_debit = 0, ln_credit = amount\<rparr>]" and nz: "amount \<noteq> 0"
  shows "booked E (w_db w) (w_db w') (e_source_type e) i (e_date e) debit credit amount"
proof -
  obtain dt s t ls where p: "e_pgdate E (e_date e) = Some dt"
    "(if e_source_id e = [] then s = None else e_uuid E (e_source_id e) = s \<and> s \<noteq> None)"
    "list_all2 (posted E (w_db w) u) (e_lines e) ls"
    "w_db w' = (w_db w)\<lparr>
       db_entries := db_entries (w_db w) @
         [\<lparr>je_id = u, je_date = dt, je_description = e_description e,
           je_source_type = nullable (e_source_type e), je_source_id = s, je_posted = t\<rparr>],
       db_lines := db_lines (w_db w) @ ls,
       db_audit := db_audit (w_db w) @
         [audit_of E ''JournalEntry'' u ActionCreate actor (Some (entry_diff e))]\<rparr>"
    by (rule PostTx_entry [OF run], rule that, assumption+)
  obtain l1 l2 where "ls = [l1, l2]" "posted E (w_db w) u \<lparr>ln_account = debit, ln_debit = amount, ln_credit = 0\<rparr> l1"
    "posted E (w_db w) u \<lparr>ln_account = credit, ln_debit = 0, ln_credit = amount\<rparr> l2"
    using p(3) by (auto simp: e(2) list_all2_Cons1)
  then show ?thesis using p sid e(1) nz by (simp add: booked_def nullable_def) 
qed

definition stock_moved :: "env \<Rightarrow> string \<Rightarrow> string \<Rightarrow> f64 \<Rightarrow> db \<Rightarrow> db \<Rightarrow> bool" where
  "stock_moved E item facility qty D D' \<longleftrightarrow>
     (if f_lt (Fin 0) qty then credited E item facility qty D D' else db_records D' = db_records D)"

text \<open>
  C38. When the hook of a newly created goods receipt line succeeds, it found the live order line and
  goods receipt the line names and a price; a positive quantity was added to both quantities of
  exactly one stock record of the item in the receipt's facility (the oldest, whose other fields
  stay, or a new one), and every other record stays; and the ledger got exactly one entry, dated
  and sourced by the receipt, that debits inventory and credits the accrual with the rounded value,
  or none when that is zero.
\<close>

theorem receipt_moves_stock_and_books:
  assumes run: "PostGoodsReceiptLineToLedger E decode d r ActionCreate actor w = (Inr (), w')"
    and wf: "records_wf (w_db w)" "ids_canonical E (w_db w)" and rid: "rec_id r \<noteq> []" "e_uuid E (rec_id r) = Some i"
  shows "\<exists>p g price. p \<in> set (db_records (w_db w)) \<and> live ''POLine'' p \<and>
    e_uuid E (str_field (rec_data r) ''po_line_id'') = Some (rr_id p) \<and>
    g \<in> set (db_records (w_db w)) \<and> live ''GoodsReceipt'' g \<and>
    e_uuid E (str_field (rec_data r) ''goods_receipt_id'') = Some (rr_id g) \<and>
    FromAny (e_cv E) (get_field (rr_data p) ''unit_price'') = Inr price \<and>
    stock_moved E (str_field (rec_data r) ''item_id'') (str_field (rr_data g) ''facility_id'')
      (quantity (rec_data r) ''qty_received'') (w_db w) (w_db w') \<and>
    booked E (w_db w) (w_db w') ''GoodsReceiptLine'' i (str_field (rr_data g) ''received_date'') ''1300'' ''2100''
      (to_i64 (e_cv E) (f_round (f_mul (quantity (rec_data r) ''qty_received'') (of_i64 price))))"
proof -
  obtain p g price w1 where p: "p \<in> set (db_records (w_db w))" "live ''POLine'' p"
      "e_uuid E (str_field (rec_data r) ''po_line_id'') = Some (rr_id p)"
    and g: "g \<in> set (db_records (w_db w))" "live ''GoodsReceipt'' g"
      "e_uuid E (str_field (rec_data r) ''goods_receipt_id'') = Some (rr_id g)"
    and price: "FromAny (e_cv E) (get_field (rr_data p) ''unit_price'') = Inr price" and w1: "w_db w1 = w_db w"
    and eff: "receipt_effects E decode r price \<lparr>rec_id = str_field (rec_data r) ''goods_receipt_id'', rec_type = ''GoodsReceipt'',
         rec_data = rr_data g, rec_version = rr_version g\<rparr> actor w1 = (Inr (), w')"
    by (rule receipt_hook_run [OF run]) simp_all
  define qty where "qty = quantity (rec_data r) ''qty_received''"
  define amount where "amount = to_i64 (e_cv E) (f_round (f_mul qty (of_i64 price)))"
  obtain x w2 where c: "(if f_lt (Fin 0) qty then creditInventoryOnReceipt E decode (str_field (rec_data r) ''item_id'')
        (str_field (rr_data g) ''facility_id'') qty actor else ret ()) w1 = (Inr x, w2)"
    and j: "(if amount = 0 then ret ()
      else thenM (PostTx E (receipt_entry (str_field (rr_data g) ''received_date'') (rec_id r) amount) actor) (ret ())) w2
       = (Inr (), w')"
    unfolding qty_def amount_def by (rule effects_run [OF eff], simp only: Record.select_convs)
  have stock: "stock_moved E (str_field (rec_data r) ''item_id'') (str_field (rr_data g) ''facility_id'') qty (w_db w) (w_db w2)
    \<and> beyond_stock (w_db w2) = beyond_stock (w_db w)"
  proof (cases "f_lt (Fin 0) qty")
    case True
    then show ?thesis using c credit_run [of E decode _ _ qty actor w1 x w2] wf w1 by (simp add: stock_moved_def)
  qed (use c w1 in \<open>simp add: stock_moved_def\<close>)
  have same: "db_entries (w_db w2) = db_entries (w_db w)" "db_lines (w_db w2) = db_lines (w_db w)"
    "db_accounts (w_db w2) = db_accounts (w_db w)"
    using stock beyond_sel by blast+
  have "db_records (w_db w') = db_records (w_db w2) \<and> booked E (w_db w2) (w_db w') ''GoodsReceiptLine'' i
      (str_field (rr_data g) ''received_date'') ''1300'' ''2100'' amount"
  proof (cases "amount = 0")
    case False
    then obtain v where v: "PostTx E (receipt_entry (str_field (rr_data g) ''received_date'') (rec_id r) amount) actor w2 = (Inr v, w')"
      using j by (auto simp: thenM_Inr_iff)
    show ?thesis
      using PostTx_booked [OF v, of i "''1300''" amount "''2100''"] PostTx_tables(1) [OF v] False rid
      by (simp add: receipt_entry_def glAccountInventory_def glAccountAPAccrual_def)
  qed (use j in \<open>simp add: booked_def\<close>)
  then have "stock_moved E (str_field (rec_data r) ''item_id'') (str_field (rr_data g) ''facility_id'') qty (w_db w) (w_db w') \<and>
      booked E (w_db w) (w_db w') ''GoodsReceiptLine'' i (str_field (rr_data g) ''received_date'') ''1300'' ''2100'' amount"
    using stock same posted_cong [OF same(3)] by (simp add: stock_moved_def credited_def booked_def split del: if_split cong: if_cong)
  then show ?thesis using p g price unfolding qty_def amount_def by blast
qed

definition item_decode :: "gval \<Rightarrow> Definition option" where
  "item_decode v = Some ((mk_definition ''InventoryItem'' [])\<lparr>d_unique := [[''item_id'', ''facility_id'']]\<rparr>)"

definition item_published :: defrow where
  "item_published =
     \<lparr>df_id = ''d'', df_registry = EntityDefinitions, df_key = ''InventoryItem'', df_version = 5,
      df_status = StatusPublished, df_definition = VNil, df_author_type = ActorHuman, df_author = ''u1'',
      df_approved_by = Some ''u1''\<rparr>"

definition order_line :: rrow where
  "order_line = \<lparr>rr_id = ''p1'', rr_type = ''POLine'', rr_data = fmap_of_list [(''unit_price'', VNum (Fin 150))],
     rr_version = 1, rr_created = 1, rr_deleted = False\<rparr>"

definition delivery :: rrow where
  "delivery = \<lparr>rr_id = ''g1'', rr_type = ''GoodsReceipt'',
     rr_data = fmap_of_list [(''received_date'', VStr ''2026-05-01''), (''facility_id'', VStr ''f1'')],
     rr_version = 1, rr_created = 1, rr_deleted = False\<rparr>"

definition delivery_db :: db where
  "delivery_db = empty_db\<lparr>db_records := [order_line, delivery], db_defs := [item_published], db_accounts :=
     [\<lparr>ga_id = ''x'', ga_code = ''1300'', ga_name = ''Inventory'', ga_type = ''asset'',
       ga_currency = ''GBP'', ga_active = True, ga_source = None\<rparr>,
      \<lparr>ga_id = ''y'', ga_code = ''2100'', ga_name = ''Payable'', ga_type = ''liability'',
       ga_currency = ''GBP'', ga_active = True, ga_source = None\<rparr>]\<rparr>"

definition received_line :: Record where
  "received_line = \<lparr>rec_id = ''l1'', rec_type = ''GoodsReceiptLine'', rec_data = fmap_of_list
     [(''po_line_id'', VStr ''p1''), (''goods_receipt_id'', VStr ''g1''), (''item_id'', VStr ''i1''),
      (''qty_received'', VNum (Fin 2))], rec_version = 1\<rparr>"

lemma delivery_credit:
  "\<exists>w1. creditInventoryOnReceipt posting_env item_decode ''i1'' ''f1'' (Fin 2) sample_actor (sample_world delivery_db) = (Inr (), w1) \<and>
     w_faults w1 = [] \<and> w_newid w1 = (\<lambda>_. id_a) \<and>
     db_accounts (w_db w1) = db_accounts delivery_db \<and> db_entries (w_db w1) = [] \<and> filter (live ''Period'') (db_records (w_db w1)) = []"
proof -
  let ?w = "sample_world delivery_db"
  have pub: "published_definition item_decode ''InventoryItem'' ?w = (Inr (the (item_decode VNil)), ?w)"
    by (simp add: published_definition_def getPublished_def getOne_def published_def delivery_db_def item_published_def
        sample_world_def stmt_eval empty_db_def item_decode_def)
  have get: "GetByFieldsQ posting_env ''InventoryItem'' [(''item_id'', ''i1''), (''facility_id'', ''f1'')] ?w = (Inr None, ?w)"
    by (simp add: GetByFieldsQ_def delivery_db_def order_line_def delivery_def live_def by_age_def sample_world_def stmt_eval empty_db_def)
  let ?f = "stock_overrides ''i1'' ''f1'' (Fin 2) (Fin 2)"
  have f: "the (ApplyDefaults (the (item_decode VNil)) (Some ?f)) = ?f"
    by (simp add: ApplyDefaults_def item_decode_def mk_definition_def)
  have v: "ValidateRecord cv (the (item_decode VNil)) ?f = None" for cv
    by (simp add: ValidateRecord_def item_decode_def mk_definition_def)
  have ok: "json_ok_fields ?f" by (auto simp: json_ok_fields_iff stock_overrides_def fmlookup_of_list split: if_splits)
  define row where "row = \<lparr>rr_id = id_a, rr_type = ''InventoryItem'', rr_data = json_norm_fields ?f, rr_version = 1,
     rr_created = 7, rr_deleted = False\<rparr>"
  define w1 where "w1 = (sample_world (delivery_db\<lparr>db_records := [order_line, delivery, row]\<rparr>))\<lparr>w_ids := 1\<rparr>"
  let ?r = "\<lparr>rec_id = id_a, rec_type = ''InventoryItem'', rec_data = ?f, rec_version = 1\<rparr>"
  have cr: "CreateTx ''InventoryItem'' ?f ?w = (Inr ?r, w1)"
    by (simp add: CreateTx_def ok stmt_eval sample_world_def delivery_db_def empty_db_def order_line_def delivery_def
        row_def w1_def id_a_def)
  have kv: "uniqueKeyValue posting_env (canonicalSort [''item_id'', ''facility_id'']) ?f = Inr (Some ''h'')"
  proof -
    have "canonicalSort [''item_id'', ''facility_id''] = [''facility_id'', ''item_id'']" by code_simp
    moreover have "TrimSpace ''i1'' \<noteq> []" "TrimSpace ''f1'' \<noteq> []" by code_simp+
    ultimately show ?thesis
      by (simp add: uniqueKeyValue_def get_field_def stock_overrides_sel posting_env_def sample_env_def)
  qed
  define w2 where "w2 = w1\<lparr>w_db := (w_db w1)\<lparr>db_keys := [\<lparr>uk_type = ''InventoryItem'',
      uk_name = UniqueConstraintName [''item_id'', ''facility_id''], uk_value = ''h'', uk_record = id_a\<rparr>]\<rparr>\<rparr>"
  have ks: "WriteUniqueConstraintKeys posting_env (the (item_decode VNil)) id_a ?f w1 = (Inr (), w2)"
    by (simp add: WriteUniqueConstraintKeys_def item_decode_def mk_definition_def Let_def with_key_def kv
        writeConstraintKey_def as_violation_def catchM_def InsertTx_def UpdateValueTx_def upd_where_def uuid_arg_def rbind_def
        stmt_eval w1_def w2_def row_def sample_world_def delivery_db_def empty_db_def id_a_def)
  have "\<exists>a. write_audit posting_env ''InventoryItem'' id_a ActionCreate sample_actor (Some ?f) w2 =
      (Inr (), w2\<lparr>w_db := (w_db w2)\<lparr>db_audit := a\<rparr>\<rparr>)"
    by (simp add: write_audit_def audit_New_def Actor_Validate_def audit_Insert_def sample_actor_def InputHash_def
        nullable_uuid_def uuid_arg_def ok stmt_eval w1_def w2_def sample_world_def id_a_def
        delivery_db_def empty_db_def)
  then obtain a where au: "write_audit posting_env ''InventoryItem'' id_a ActionCreate sample_actor (Some ?f) w2 =
      (Inr (), w2\<lparr>w_db := (w_db w2)\<lparr>db_audit := a\<rparr>\<rparr>)" by blast
  have q: "query g w = (case g (w_db w) of Inl e \<Rightarrow> (Inl e, w) | Inr x \<Rightarrow> (Inr x, w))" if "w_faults w = []" for g w
    using that by (simp add: stmt_eval split: sum.split)
  have fl: "w_faults ?w = []" "w_faults w2 = []" by (simp_all add: w2_def w1_def sample_world_def)
  have "credit_new posting_env (the (item_decode VNil)) ''i1'' ''f1'' (Fin 2) sample_actor ?w =
      (Inr True, w2\<lparr>w_db := (w_db w2)\<lparr>db_audit := a\<rparr>\<rparr>)"
    unfolding credit_new_def Let_def f validation_def v
    by (simp add: savepoint_def bindM_def thenM_def guardM_def q fl cr tryM_def ks au ret_def)
  then have new: "\<exists>w1. credit_new posting_env (the (item_decode VNil)) ''i1'' ''f1'' (Fin 2) sample_actor ?w = (Inr True, w1) \<and>
     w_faults w1 = [] \<and> w_newid w1 = (\<lambda>_. id_a) \<and>
     db_accounts (w_db w1) = db_accounts delivery_db \<and> db_entries (w_db w1) = [] \<and> filter (live ''Period'') (db_records (w_db w1)) = []"
    by (simp add: w1_def w2_def sample_world_def delivery_db_def empty_db_def order_line_def delivery_def row_def live_def)
  show ?thesis
    using new by (auto simp: creditInventoryOnReceipt_def bindM_def pub get credit_turn_def item_decode_def
       mk_definition_def requiredUnique_def creditInventoryOnReceiptMaxRetries_def numeral_eq_Suc ret_def)
qed

text \<open>Posting an entry of two lines to two accounts of an open ledger.\<close>

lemma sample_posting:
  assumes w: "w_faults w = []" "w_newid w = (\<lambda>_. id_a)" "db_entries (w_db w) = []"
      "filter (live ''Period'') (db_records (w_db w)) = []"
    and acc: "db_accounts (w_db w) =
     [\<lparr>ga_id = ''x'', ga_code = da, ga_name = n1, ga_type = t1, ga_currency = ''GBP'', ga_active = True, ga_source = None\<rparr>,
      \<lparr>ga_id = ''y'', ga_code = ca, ga_name = n2, ga_type = t2, ga_currency = ''GBP'', ga_active = True, ga_source = None\<rparr>]"
    and e: "e_date e = ''2026-05-01''" "e_source_id e \<noteq> []" "e_lines e = [\<lparr>ln_account = da, ln_debit = n, ln_credit = 0\<rparr>,
       \<lparr>ln_account = ca, ln_debit = 0, ln_credit = n\<rparr>]" "da \<noteq> ca" "da \<noteq> []" "ca \<noteq> []" "0 <s n"
  shows "\<exists>u w'. PostTx posting_env e sample_actor w = (Inr u, w') \<and> w_faults w' = []"
proof -
  have n: "n \<noteq> 0" "\<not> n <s 0" using e(7) by (auto simp: word_sless_alt)
  have v: "Entry_Validate e = None" using e n by (simp add: Entry_Validate_def word_sless_alt)
  show ?thesis using e n
    by (simp add: PostTx_def v checkPeriodOpen_def ParseDate_may ListTx_def IDByCode_def w acc
      JournalEntry_CreateTx_def insert_entry_def insert_line_def write_audit_def audit_New_def InputHash_def
      Actor_Validate_def audit_Insert_def entry_diff_json audit_row_def sample_actor_def nullable_uuid_def
      uuid_arg_def rbind_def stmt_eval Let_def nullable_def word_sless_alt id_a_def del: ParseDate.simps)
qed

lemma delivery_post:
  assumes "w_faults w = []" "w_newid w = (\<lambda>_. id_a)" "db_accounts (w_db w) = db_accounts delivery_db"
    "db_entries (w_db w) = []" "filter (live ''Period'') (db_records (w_db w)) = []"
  shows "\<exists>u w'. PostTx posting_env (receipt_entry ''2026-05-01'' ''l1'' 300) sample_actor w = (Inr u, w') \<and> w_faults w' = []"
  by (rule sample_posting [OF assms(1,2,4,5), where da = "''1300''" and ca = "''2100''" and n = 300])
    (simp_all add: assms(3) delivery_db_def receipt_entry_def glAccountInventory_def glAccountAPAccrual_def word_sless_alt)

lemma delivery_run:
  "\<exists>w'. PostGoodsReceiptLineToLedger posting_env item_decode d received_line ActionCreate sample_actor
     (sample_world delivery_db) = (Inr (), w')"
proof -
  obtain w1 where c: "creditInventoryOnReceipt posting_env item_decode ''i1'' ''f1'' (Fin 2) sample_actor
      (sample_world delivery_db) = (Inr (), w1)" and w1: "w_faults w1 = []" "w_newid w1 = (\<lambda>_. id_a)"
     "db_accounts (w_db w1) = db_accounts delivery_db" "db_entries (w_db w1) = []"
     "filter (live ''Period'') (db_records (w_db w1)) = []"
    using delivery_credit by blast
  obtain u w2 where post: "PostTx posting_env (receipt_entry ''2026-05-01'' ''l1'' 300) sample_actor w1 = (Inr u, w2)"
    using delivery_post [OF w1] by blast
  have "of_i64 150 = Fin 150" using of_i64_small [of 150] by simp
  moreover have "rnd64 300 = Fin 300" using rnd64_of_int [of 300] by simp
  ultimately have amount: "to_i64 cv (f_round (f_mul (Fin 2) (of_i64 150))) = 300" for cv
    using round_away_int [of 300] trunc_int [of 300] by (simp add: fits64_def)
  have price: "FromAny cv (VNum (Fin 150)) = Inr 150" for cv
    using of_i64_small [of 150] trunc_int [of 150] by (simp add: fits64_def)
  have l: "rec_id received_line = ''l1''" "str_field (rec_data received_line) ''po_line_id'' = ''p1''"
    "str_field (rec_data received_line) ''goods_receipt_id'' = ''g1''" "str_field (rec_data received_line) ''item_id'' = ''i1''"
    "quantity (rec_data received_line) ''qty_received'' = Fin 2" "validateGoodsReceiptLineQuality received_line = None"
    by (simp_all add: received_line_def str_field_def quantity_def get_field_def validateGoodsReceiptLineQuality_def fmlookup_of_list)
  have p: "GetTx posting_env ''POLine'' ''p1'' (sample_world delivery_db) =
      (Inr \<lparr>rec_id = ''p1'', rec_type = ''POLine'', rec_data = rr_data order_line, rec_version = 1\<rparr>, sample_world delivery_db)"
    "GetTx posting_env ''GoodsReceipt'' ''g1'' (sample_world delivery_db) =
      (Inr \<lparr>rec_id = ''g1'', rec_type = ''GoodsReceipt'', rec_data = rr_data delivery, rec_version = 1\<rparr>, sample_world delivery_db)"
    by (simp_all add: GetTx_def get_where_def delivery_db_def empty_db_def order_line_def delivery_def live_def uuid_arg_def
        rbind_def stmt_eval sample_world_def)
  have g: "get_field (rr_data order_line) ''unit_price'' = VNum (Fin 150)"
    "str_field (rr_data delivery) ''facility_id'' = ''f1''" "str_field (rr_data delivery) ''received_date'' = ''2026-05-01''"
    by (simp_all add: order_line_def delivery_def get_field_def str_field_def fmlookup_of_list)
  have "receipt_effects posting_env item_decode received_line 150
      \<lparr>rec_id = ''g1'', rec_type = ''GoodsReceipt'', rec_data = rr_data delivery, rec_version = 1\<rparr> sample_actor
      (sample_world delivery_db) = (Inr (), w2)"
    by (simp add: receipt_effects_def l g amount del: f_mul.simps f_round.simps to_i64.simps)
      (simp add: thenM_def bindM_def c post ret_def)
  then show ?thesis
    unfolding PostGoodsReceiptLineToLedger_def Let_def
    by (simp add: l guardM_def thenM_def bindM_def p g price ret_def del: FromAny.simps)
qed

theorem receipt_moves_stock_and_books_witness:
  "\<exists>w' p (g :: rrow). PostGoodsReceiptLineToLedger posting_env item_decode (mk_definition ''GoodsReceiptLine'' []) received_line ActionCreate sample_actor
     (sample_world delivery_db) = (Inr (), w') \<and> p \<in> set (db_records delivery_db) \<and> live ''POLine'' p \<and>
     stock_moved posting_env (str_field (rec_data received_line) ''item_id'') (str_field (rr_data g) ''facility_id'')
       (quantity (rec_data received_line) ''qty_received'') delivery_db (w_db w')"
proof -
  obtain w' where run: "PostGoodsReceiptLineToLedger posting_env item_decode (mk_definition ''GoodsReceiptLine'' []) received_line ActionCreate sample_actor
     (sample_world delivery_db) = (Inr (), w')" using delivery_run by blast
  have wf: "records_wf (w_db (sample_world delivery_db))" "ids_canonical posting_env (w_db (sample_world delivery_db))"
    by (simp_all add: records_wf_def ids_canonical_def delivery_db_def empty_db_def order_line_def delivery_def max_int4_def)
  have rid: "rec_id received_line \<noteq> []" "e_uuid posting_env (rec_id received_line) = Some ''l1''"
    by (simp_all add: received_line_def)
  show ?thesis using receipt_moves_stock_and_books [OF run wf rid, unfolded posting_db_sel(4)]
    by (elim exE conjE) (intro exI conjI, rule run, assumption+)
qed

text \<open>
  A transfer of three pieces between two facilities, and a received line whose piece is first accepted
  and then rejected.
\<close>

definition transfer_doc :: fields where
  "transfer_doc = fmap_of_list [(''from_facility_id'', VStr ''f1''), (''to_facility_id'', VStr ''f2''), (''qty'', VNum (Fin 3))]"

definition line_doc :: "rat \<Rightarrow> rat \<Rightarrow> fields" where
  "line_doc a b = fmap_of_list [(''qty_received'', VNum (Fin 1)), (''qty_accepted'', VNum (Fin a)), (''qty_rejected'', VNum (Fin b))]"

definition line_row :: rrow where
  "line_row = (plain_row ''GoodsReceiptLine'' id_b [])\<lparr>rr_data := line_doc 1 0\<rparr>"

definition receiving_db :: db where
  "receiving_db = empty_db\<lparr>db_records := [line_row]\<rparr>"

definition receiving_hooks :: hooks where
  "receiving_hooks = Map.empty(''StockTransfer'' \<mapsto> ValidateStockTransfer,
     ''GoodsReceiptLine'' \<mapsto> PostGoodsReceiptLineToLedger sample_env item_decode)"

lemma receiving_hooks_sel [simp]:
  "receiving_hooks ''StockTransfer'' = Some ValidateStockTransfer"
  "receiving_hooks ''GoodsReceiptLine'' = Some (PostGoodsReceiptLineToLedger sample_env item_decode)"
  by (simp_all add: receiving_hooks_def)

lemma receiving_docs [simp]:
  "json_ok_fields transfer_doc" "json_norm_fields transfer_doc = transfer_doc"
  "json_ok_fields (line_doc a b)" "json_norm_fields (line_doc a b) = line_doc a b"
  unfolding json_ok_fields_iff transfer_doc_def line_doc_def
  by (auto simp: fmlookup_of_list json_norm_fields_def fmmap_fmupd split: if_splits)

lemma line_doc_nets:
  assumes "a = 0 \<and> b = 1 \<or> a = 1 \<and> b = 0"
  shows "validateGoodsReceiptLineQuality \<lparr>rec_id = i, rec_type = t, rec_data = line_doc a b, rec_version = v\<rparr> = None"
proof -
  have "rnd64 1 = Fin 1" "rnd64 0 = Fin 0" using rnd64_of_int [of 1] rnd64_of_int [of 0] by simp_all
  then show ?thesis
    using assms rel_tolerance
    by (auto simp: validateGoodsReceiptLineQuality_def line_doc_def fmlookup_of_list quantity_def get_field_def Let_def
        qtyNetTolerance_def qtyNetEpsilonAbs_def qtyNetEpsilonRel_def)
qed

lemma line_doc_sound: "a = 0 \<and> b = 1 \<or> a = 1 \<and> b = 0 \<Longrightarrow> line_sound (line_doc a b)"
  using quality_sound [OF line_doc_nets [of a b "[]" "[]" 0]] by (simp add: decoded_def)

lemma receiving_run:
  obtains r w1 w2 where
    "Create sample_env receiving_hooks (mk_definition ''StockTransfer'' []) (Some transfer_doc) sample_actor
       (sample_world receiving_db) = (Inr r, w1)"
    "Update sample_env receiving_hooks (mk_definition ''GoodsReceiptLine'' []) id_b (line_doc 0 1) None sample_actor w1 =
       (Inr 2, w2)"
    "map rr_data (rows_of ''StockTransfer'' (w_db w2)) = [transfer_doc]"
    "map rr_data (rows_of ''GoodsReceiptLine'' (w_db w2)) = [line_doc 0 1]"
proof -
  let ?t = "\<lparr>rr_id = id_a, rr_type = ''StockTransfer'', rr_data = transfer_doc, rr_version = 1, rr_created = 7, rr_deleted = False\<rparr>"
  let ?r = "\<lparr>rec_id = id_a, rec_type = ''StockTransfer'', rec_data = transfer_doc, rec_version = 1\<rparr>"
  let ?l = "line_row\<lparr>rr_data := line_doc 0 1, rr_version := 2\<rparr>"
  have id: "e_uuid sample_env id_a = Some id_a" "e_uuid sample_env id_b = Some id_b"
    by (simp_all add: sample_env_def Canonical_id_a Canonical_id_b)
  have line: "rr_id line_row = id_b" "rr_type line_row = ''GoodsReceiptLine''" "\<not> rr_deleted line_row" "rr_version line_row = 1"
    by (simp_all add: line_row_def)
  obtain w1 where create: "CreateTx ''StockTransfer'' transfer_doc (sample_world receiving_db) = (Inr ?r, w1)"
    and w1: "w_faults w1 = []" "db_records (w_db w1) = [line_row, ?t]"
    by (simp add: CreateTx_def sample_world_def receiving_db_def empty_db_def line stmt_eval)
  obtain w2 where aud: "write_audit sample_env ''StockTransfer'' id_a ActionCreate sample_actor (Some transfer_doc) w1 = (Inr (), w2)"
    and w2: "w_faults w2 = []" "db_records (w_db w2) = [line_row, ?t]"
    by (simp add: write_audit_def audit_New_def Actor_Validate_def audit_Insert_def id audit_row_def InputHash_def
        sample_actor_def nullable_uuid_def uuid_arg_def rbind_def stmt_eval Canonical_id_a sent_def w1)
  have hook: "runHook receiving_hooks (mk_definition ''StockTransfer'' []) ?r ActionCreate sample_actor w2 = (Inr (), w2)"
    by (simp add: runHook_def ValidateStockTransfer_def transfer_doc_def str_field_def get_field_def fmlookup_of_list ret_def)
  have "w_faults (sample_world receiving_db) = []" by (simp add: sample_world_def)
  from plain_create_run [OF this create _ hook w2(1)] aud
  have 1: "Create sample_env receiving_hooks (mk_definition ''StockTransfer'' []) (Some transfer_doc) sample_actor
       (sample_world receiving_db) = (Inr ?r, w2)" by simp
  obtain w3 where upd: "UpdateTx sample_env ''GoodsReceiptLine'' id_b (line_doc 0 1) None w2 = (Inr 2, w3)"
    and w3: "w_faults w3 = []" "db_records (w_db w3) = [?l, ?t]"
    by (simp add: UpdateTx_def id uuid_arg_def rbind_def Canonical_id_b int4_arg_def update_hits_def live_def upd_where_def
        update_row_def max_int4_def line w2 stmt_eval sent_def)
  obtain w4 where aud2: "write_audit sample_env ''GoodsReceiptLine'' id_b ActionUpdate sample_actor (Some (line_doc 0 1)) w3 =
      (Inr (), w4)" and w4: "w_faults w4 = []" "db_records (w_db w4) = [?l, ?t]"
    by (simp add: write_audit_def audit_New_def Actor_Validate_def audit_Insert_def id audit_row_def InputHash_def
        sample_actor_def nullable_uuid_def uuid_arg_def rbind_def stmt_eval Canonical_id_b sent_def w3)
  have hook2: "runHook receiving_hooks (mk_definition ''GoodsReceiptLine'' [])
      \<lparr>rec_id = id_b, rec_type = ''GoodsReceiptLine'', rec_data = line_doc 0 1, rec_version = 2\<rparr> ActionUpdate sample_actor w4 =
      (Inr (), w4)"
    by (simp add: runHook_def PostGoodsReceiptLineToLedger_def line_doc_nets guardM_def thenM_def bindM_def ret_def)
  obtain w5 where last: "final_version sample_env receiving_hooks (mk_definition ''GoodsReceiptLine'' []) id_b 2 w4 = (Inr 2, w5)"
    and w5: "w_faults w5 = []" "w_db w5 = w_db w4"
    by (simp add: final_version_def GetTx_def get_where_def id uuid_arg_def rbind_def Canonical_id_b live_def line w4 stmt_eval
        sent_def bindM_def ret_def)
  have 2: "Update sample_env receiving_hooks (mk_definition ''GoodsReceiptLine'' []) id_b (line_doc 0 1) None sample_actor w2 =
       (Inr 2, w5)"
    by (rule plain_update_run [OF w2(1) upd aud2 hook2 last w5(1)])
  show thesis
    by (rule that [OF 1 2]) (simp_all add: rows_of_def live_def w5 w4 line)
qed

lemma receiving_hooks_ok:
  "installed ''StockTransfer'' ValidateStockTransfer receiving_hooks"
  "installed ''GoodsReceiptLine'' (PostGoodsReceiptLineToLedger sample_env item_decode) receiving_hooks"
proof -
  have "keeps (\<lambda>D. rows_of ''GoodsReceiptLine'' D = v) (ValidateStockTransfer d r act actor)"
    "keeps (\<lambda>D. rows_of ''StockTransfer'' D = v) (PostGoodsReceiptLineToLedger sample_env item_decode d r act actor)" for v d r act actor
    using transfer_keeps receipt_rows by simp_all
  then show "installed ''StockTransfer'' ValidateStockTransfer receiving_hooks"
    "installed ''GoodsReceiptLine'' (PostGoodsReceiptLineToLedger sample_env item_decode) receiving_hooks"
    by (auto simp: installed_def receiving_hooks_def)
qed

theorem receipts_and_transfers_stay_sound_witness:
  "\<exists>r w1 w2.
     Create sample_env receiving_hooks (mk_definition ''StockTransfer'' []) (Some transfer_doc) sample_actor
       (sample_world receiving_db) = (Inr r, w1) \<and>
     Update sample_env receiving_hooks (mk_definition ''GoodsReceiptLine'' []) id_b (line_doc 0 1) None sample_actor w1 =
       (Inr 2, w2) \<and>
     map rr_data (rows_of ''StockTransfer'' (w_db w2)) = [transfer_doc] \<and>
     map rr_data (rows_of ''GoodsReceiptLine'' (w_db w2)) = [line_doc 0 1] \<and>
     all_rows ''StockTransfer'' transfer_sound (w_db w2) \<and> all_rows ''GoodsReceiptLine'' line_sound (w_db w2)"
proof -
  let ?S = "{mk_definition ''StockTransfer'' [], mk_definition ''GoodsReceiptLine'' []}"
  obtain r w1 w2 where run:
    "Create sample_env receiving_hooks (mk_definition ''StockTransfer'' []) (Some transfer_doc) sample_actor
       (sample_world receiving_db) = (Inr r, w1)"
    "Update sample_env receiving_hooks (mk_definition ''GoodsReceiptLine'' []) id_b (line_doc 0 1) None sample_actor w1 =
       (Inr 2, w2)"
    and rows: "map rr_data (rows_of ''StockTransfer'' (w_db w2)) = [transfer_doc]"
      "map rr_data (rows_of ''GoodsReceiptLine'' (w_db w2)) = [line_doc 0 1]"
    by (rule receiving_run)
  have "ids_read_back sample_env (sample_world receiving_db)"
    by (simp add: ids_read_back_def sample_world_def sample_env_def Canonical_id_a)
  then have "engine_step sample_env ?S receiving_hooks (w_db (sample_world receiving_db)) (w_db w1)"
    by (intro engine_step.step_create [OF _ _ _ run(1)]) (simp_all add: decoded_def)
  moreover have "engine_step sample_env ?S receiving_hooks (w_db w1) (w_db w2)"
    by (rule engine_step.step_update [OF _ _ run(2)]) (simp_all add: decoded_def)
  ultimately have hist: "(engine_step sample_env ?S receiving_hooks)\<^sup>*\<^sup>* (w_db (sample_world receiving_db)) (w_db w2)"
    by (meson converse_rtranclp_into_rtranclp r_into_rtranclp)
  have start: "all_rows ''StockTransfer'' transfer_sound (w_db (sample_world receiving_db))"
    "all_rows ''GoodsReceiptLine'' line_sound (w_db (sample_world receiving_db))"
    using line_doc_sound [of 1 0] by (simp_all add: all_rows_def rows_of_def receiving_db_def line_row_def live_def)
  have sound: "all_rows ''StockTransfer'' transfer_sound (w_db w2)" "all_rows ''GoodsReceiptLine'' line_sound (w_db w2)"
    using receipts_and_transfers_stay_sound [OF hist receiving_hooks_ok start] by blast+
  show ?thesis by (intro exI conjI) (rule run rows sound)+
qed

section \<open>What the checks let through and what they stop\<close>

text \<open>The two facilities are compared as texts: two spellings of one uuid pass as different ones.\<close>

definition same_place :: Record where
  "same_place = \<lparr>rec_id = ''t1'', rec_type = ''StockTransfer'', rec_data = fmap_of_list
     [(''from_facility_id'', VStr ''00000000-0000-0000-0000-00000000000a''),
      (''to_facility_id'', VStr ''00000000-0000-0000-0000-00000000000A''), (''qty'', VNum (Fin 1))], rec_version = 1\<rparr>"

lemma same_facility_passes:
  "Canonical (str_field (rec_data same_place) ''from_facility_id'') = Canonical (str_field (rec_data same_place) ''to_facility_id'') \<and>
   Canonical (str_field (rec_data same_place) ''from_facility_id'') \<noteq> None \<and>
   ValidateStockTransfer d same_place act actor w = (Inr (), w)"
proof -
  have s: "str_field (rec_data same_place) ''from_facility_id'' = ''00000000-0000-0000-0000-00000000000a''"
    "str_field (rec_data same_place) ''to_facility_id'' = ''00000000-0000-0000-0000-00000000000A''"
    "get_field (rec_data same_place) ''qty'' = VNum (Fin 1)"
    by (simp_all add: same_place_def str_field_def get_field_def fmlookup_of_list)
  have "Canonical ''00000000-0000-0000-0000-00000000000A'' = Some ''00000000-0000-0000-0000-00000000000a''"
    "Canonical ''00000000-0000-0000-0000-00000000000a'' = Some ''00000000-0000-0000-0000-00000000000a''"
    by code_simp+
  then show ?thesis by (simp add: ValidateStockTransfer_def s)
qed

text \<open>A null is absent for \<open>ValidateRecord\<close> and present for the quality check.\<close>

definition null_quality :: fields where
  "null_quality = fmap_of_list [(''qty_accepted'', VNil), (''qty_rejected'', VNil)]"

lemma null_quality_refused:
  "ValidateRecord cv (mk_definition ''GoodsReceiptLine'' [mk_field ''qty_accepted'' FieldNumber, mk_field ''qty_rejected'' FieldNumber])
     null_quality = None \<and>
   validateGoodsReceiptLineQuality \<lparr>rec_id = i, rec_type = t, rec_data = null_quality, rec_version = v\<rparr> \<noteq> None"
  by (simp add: null_quality_def ValidateRecord_def validate_field_def mk_definition_def mk_field_def get_field_def
      fmlookup_of_list validateGoodsReceiptLineQuality_def)

end
