(* ===== verification/InvoiceProps.thy ===== *)
theory InvoiceProps
  imports Invoicing ReceiptProps
begin

text \<open>
  What the hooks of invoices guarantee: a vendor invoice is stored as matched only when it agrees
  with its order and with what was received, and an issued customer invoice is booked exactly once.
\<close>

section \<open>Agreement, read off the tables\<close>

definition find_live :: "env \<Rightarrow> db \<Rightarrow> string \<Rightarrow> string \<Rightarrow> rrow option" where
  "find_live E D et rid =
     (case e_uuid E rid of None \<Rightarrow> None | Some u \<Rightarrow> List.find (\<lambda>r. rr_id r = u \<and> live et r) (db_records D))"

text \<open>The code of the status a record is in.\<close>

definition status_code :: "env \<Rightarrow> db \<Rightarrow> fields \<Rightarrow> string" where
  "status_code E D d =
     (if str_field d ''status_id'' = [] then []
      else case find_live E D ''Status'' (str_field d ''status_id'') of
        None \<Rightarrow> [] | Some s \<Rightarrow> str_field (rr_data s) ''code'')"

text \<open>The minor unit of a currency, two when there is none to be had.\<close>

definition order_scale :: "env \<Rightarrow> db \<Rightarrow> string \<Rightarrow> int" where
  "order_scale E D c =
     (if c = [] then 2
      else case find_live E D ''Currency'' c of
        None \<Rightarrow> 2
      | Some r \<Rightarrow>
          (case fmlookup (rr_data r) ''minor_unit'' of
             Some (VNum v) \<Rightarrow> if f_lt v (Fin 0) \<or> f_lt (Fin 6) v then 2 else sint (to_i64 (e_cv E) v)
           | _ \<Rightarrow> 2))"

text \<open>
  The value received for an order, in major units: over the receipt lines that name one of its lines,
  quantity times the price of that line.
\<close>

definition in_order :: "string \<Rightarrow> db \<Rightarrow> Record list" where
  "in_order et D = map to_record (sort_key rr_created (filter (live et) (db_records D)))"

definition received_value :: "env \<Rightarrow> db \<Rightarrow> string \<Rightarrow> f64" where
  "received_value E D poID =
     foldl (add_received (map_of (line_prices E poID (in_order ''POLine'' D)))) (Fin 0) (in_order ''GoodsReceiptLine'' D)"

definition agrees :: "env \<Rightarrow> db \<Rightarrow> fields \<Rightarrow> bool" where
  "agrees E D d \<longleftrightarrow>
     (\<exists>po amount. find_live E D ''PurchaseOrder'' (str_field d ''purchase_order_id'') = Some po \<and>
        str_field d ''vendor_id'' \<noteq> [] \<and> str_field d ''vendor_id'' = str_field (rr_data po) ''vendor_id'' \<and>
        (str_field d ''currency_id'' = [] \<or> str_field (rr_data po) ''currency_id'' = [] \<or>
           str_field d ''currency_id'' = str_field (rr_data po) ''currency_id'') \<and>
        amount \<noteq> 0 \<and>
        FromMajorUnits (e_cv E) (received_value E D (str_field d ''purchase_order_id''))
          (order_scale E D (str_field (rr_data po) ''currency_id'')) = Inr amount \<and>
        FromMajorUnits (e_cv E) (num_field d ''total'')
          (order_scale E D (str_field (rr_data po) ''currency_id'')) = Inr amount)"

lemma GetTx_found:
  "GetTx E et rid w = (Inr r, w') \<longleftrightarrow> \<not> faulty w \<and> w' = sent w \<and> (\<exists>p. find_live E (w_db w) et rid = Some p \<and>
     r = \<lparr>rec_id = rid, rec_type = et, rec_data = rr_data p, rec_version = rr_version p\<rparr>)"
  by (auto simp: GetTx_def get_where_def query_Inr_iff uuid_arg_def find_live_def split: option.splits)

lemma GetTx_missing:
  "GetTx E et rid w = (Inl e, w') \<Longrightarrow> e \<noteq> ErrDB \<Longrightarrow> find_live E (w_db w) et rid = None \<and> w_db w' = w_db w"
  by (auto simp: GetTx_def get_where_def query_def stmt_def rbind_def uuid_arg_def find_live_def sent_def
      split: option.splits if_splits sum.splits)

lemma match_scale_run:
  assumes "match_scale E c w = (Inr (m, False), w')"
  shows "m = order_scale E (w_db w) c \<and> w_db w' = w_db w"
proof (cases "c = []")
  case True
  then show ?thesis using assms by (simp add: match_scale_def order_scale_def Decimals_def)
next
  case False
  obtain x w1 where g: "GetTx E ''Currency'' c w = (x, w1)" by fastforce
  have w1: "w_db w1 = w_db w" using readsD [OF reads_repo(1) g] .
  show ?thesis
  proof (cases x)
    case (Inl e)
    then have "e \<noteq> ErrDB" "m = 2" "w' = w1"
      using assms False g by (auto simp: match_scale_def invoiceMinorUnitTx_def catchM_def bindM_def ret_def Decimals_def)
    then show ?thesis using GetTx_missing g Inl False by (auto simp: order_scale_def)
  next
    case (Inr r)
    then obtain p where p: "find_live E (w_db w) ''Currency'' c = Some p" "rec_data r = rr_data p"
      using g by (auto simp: GetTx_found)
    show ?thesis
      using assms False g Inr p w1
      by (auto simp: match_scale_def invoiceMinorUnitTx_def catchM_def bindM_def ret_def fail_def Decimals_def
          order_scale_def MaxMinorUnitScale_def go_int_def split: option.splits gval.splits if_splits)
  qed
qed

lemma received_run:
  assumes "receivedValueForPurchaseOrder E poID m w = (Inr (v, True), w')"
  shows "FromMajorUnits (e_cv E) (received_value E (w_db w) poID) m = Inr v \<and> w_db w' = w_db w"
  using assms
  by (auto simp: receivedValueForPurchaseOrder_def Let_def bindM_Inr_iff ListTx_def query_Inr_iff received_value_def
      in_order_def split: if_splits sum.splits)

text \<open>No reason means agreement.\<close>

lemma reasons_nonempty [simp]:
  "no_order p \<noteq> []" "other_value q f a p b \<noteq> []" "no_lines p \<noteq> []" "nothing_received p \<noteq> []"
  "other_total E t i j m p \<noteq> []"
  by (simp_all add: no_order_def other_value_def no_lines_def nothing_received_def other_total_def)

lemmas reasons_nonempty_sym [simp] = reasons_nonempty [THEN not_sym]

lemma match_value_agrees:
  assumes "match_value E poID invoiceTotal c w = (Inr [], w')"
  shows "\<exists>amount. amount \<noteq> 0 \<and> FromMajorUnits (e_cv E) (received_value E (w_db w) poID) (order_scale E (w_db w) c) = Inr amount \<and>
      FromMajorUnits (e_cv E) invoiceTotal (order_scale E (w_db w) c) = Inr amount"
proof -
  from assms obtain m aborted w1 where sc: "match_scale E c w = (Inr (m, aborted), w1)"
    and k: "bindM (catchM (if aborted then query (\<lambda>_. Inl ErrDB) else receivedValueForPurchaseOrder E poID m)
        (\<lambda>_. fail ErrVendorInvoiceMatchFailed)) (\<lambda>(receivedMinor, hasLines).
       if \<not> hasLines then ret (no_lines poID)
       else if receivedMinor = 0 then ret (nothing_received poID)
       else case FromMajorUnits (e_cv E) invoiceTotal m of
           Inl _ \<Rightarrow> fail ErrVendorInvoiceMatchFailed
         | Inr totalMinor \<Rightarrow>
             if receivedMinor \<noteq> totalMinor then ret (other_total E invoiceTotal totalMinor receivedMinor m poID)
             else ret []) w1 = (Inr [], w')"
    by (auto simp: match_value_def bindM_Inr_iff)
  from k obtain vh w2 where rv: "catchM (if aborted then query (\<lambda>_. Inl ErrDB) else receivedValueForPurchaseOrder E poID m)
        (\<lambda>_. fail ErrVendorInvoiceMatchFailed) w1 = (Inr vh, w2)"
    and k2: "(case vh of (receivedMinor, hasLines) \<Rightarrow>
       if \<not> hasLines then ret (no_lines poID)
       else if receivedMinor = 0 then ret (nothing_received poID)
       else case FromMajorUnits (e_cv E) invoiceTotal m of
           Inl _ \<Rightarrow> fail ErrVendorInvoiceMatchFailed
         | Inr totalMinor \<Rightarrow>
             if receivedMinor \<noteq> totalMinor then ret (other_total E invoiceTotal totalMinor receivedMinor m poID)
             else ret []) w2 = (Inr [], w')"
    unfolding bindM_Inr_iff by blast
  obtain v h where vh: "vh = (v, h)" by (cases vh)
  have h: "h" "v \<noteq> 0" "FromMajorUnits (e_cv E) invoiceTotal m = Inr v"
    using k2 vh by (auto split: if_splits sum.splits)
  note rv = rv [unfolded vh]
  have ab: "\<not> aborted" using rv by (auto simp: catchM_def query_def stmt_def rbind_def fail_def split: if_splits)
  then have rr: "receivedValueForPurchaseOrder E poID m w1 = (Inr (v, True), w2)"
    using rv h(1) by (auto simp: catchM_def fail_def split: prod.splits sum.splits)
  have "m = order_scale E (w_db w) c" "w_db w1 = w_db w" using match_scale_run sc ab by simp_all
  then show ?thesis using received_run [OF rr] h by auto
qed

lemma detail_agrees:
  assumes "vendorInvoiceMatchDetail E quote r w = (Inr [], w')"
  shows "agrees E (w_db w) (rec_data r)"
proof -
  let ?po = "str_field (rec_data r) ''purchase_order_id''"
  from assms obtain x w1 where x: "catchM (optionalM (GetTx E ''PurchaseOrder'' ?po))
      (\<lambda>_. fail ErrVendorInvoiceMatchFailed) w = (Inr x, w1)"
    and k: "(case x of None \<Rightarrow> ret (no_order ?po) | Some po \<Rightarrow> match_order E quote (rec_data r) ?po (rec_data po)) w1 = (Inr [], w')"
    by (auto simp: vendorInvoiceMatchDetail_def Let_def bindM_Inr_iff split: if_splits)
  from k obtain po where po: "x = Some po" by (cases x) auto
  then have "GetTx E ''PurchaseOrder'' ?po w = (Inr po, w1)"
    using x by (auto simp: catchM_def fail_def optionalM_Inr_iff split: prod.splits sum.splits)
  then obtain p where p: "find_live E (w_db w) ''PurchaseOrder'' ?po = Some p" "rec_data po = rr_data p" "w_db w1 = w_db w"
    by (auto simp: GetTx_found)
  have m: "match_order E quote (rec_data r) ?po (rr_data p) w1 = (Inr [], w')" using k po p(2) by simp
  then have "match_value E ?po (num_field (rec_data r) ''total'') (str_field (rr_data p) ''currency_id'') w1 = (Inr [], w')"
    and v: "str_field (rec_data r) ''vendor_id'' \<noteq> []" "str_field (rec_data r) ''vendor_id'' = str_field (rr_data p) ''vendor_id''"
      "str_field (rec_data r) ''currency_id'' = [] \<or> str_field (rr_data p) ''currency_id'' = [] \<or>
         str_field (rec_data r) ''currency_id'' = str_field (rr_data p) ''currency_id''"
    by (auto simp: match_order_def Let_def split: if_splits)
  from match_value_agrees [OF this(1)] v show ?thesis using p by (auto simp: agrees_def)
qed

lemma reads_detail: "reads (vendorInvoiceMatchDetail E quote r)"
  unfolding vendorInvoiceMatchDetail_def match_order_def match_value_def match_scale_def invoiceMinorUnitTx_def
    receivedValueForPurchaseOrder_def Let_def
  by (intro reads_intro) (auto intro!: reads_intro split: option.split gval.split prod.split sum.split)

section \<open>What the hook of vendor invoices does\<close>

definition rewritten :: "env \<Rightarrow> Record \<Rightarrow> fields \<Rightarrow> db \<Rightarrow> db \<Rightarrow> bool" where
  "rewritten E r f D D' \<longleftrightarrow>
     (\<exists>u row as. e_uuid E (rec_id r) = Some u \<and> row \<in> set (db_records D) \<and>
        update_hits ''VendorInvoice'' u (Some (rec_version r)) row \<and>
        D' = D\<lparr>db_records := upd_where (update_hits ''VendorInvoice'' u (Some (rec_version r))) (update_row f) (db_records D),
          db_audit := as\<rparr>)"

lemma rewrite_run:
  assumes "rewrite_invoice E r chg actor w = (Inr u, w')"
  shows "rewritten E r (mergedRecordData (rec_data r) chg) (w_db w) (w_db w')"
proof -
  from assms obtain v w1 where up: "UpdateTx E ''VendorInvoice'' (rec_id r) (mergedRecordData (rec_data r) chg)
      (Some (rec_version r)) w = (Inr v, w1)"
    and au: "write_audit E ''VendorInvoice'' (rec_id r) ActionUpdate actor (Some chg) w1 = (Inr u, w')"
    by (auto simp: rewrite_invoice_def thenM_Inr_iff)
  obtain i row where i: "e_uuid E (rec_id r) = Some i" "row \<in> set (db_records (w_db w))"
      "update_hits ''VendorInvoice'' i (Some (rec_version r)) row"
    "w_db w1 = (w_db w)\<lparr>db_records := upd_where (update_hits ''VendorInvoice'' i (Some (rec_version r)))
       (update_row (mergedRecordData (rec_data r) chg)) (db_records (w_db w))\<rparr>"
    using up by (auto elim!: UpdateTx_success)
  obtain a where "w_db w' = (w_db w1)\<lparr>db_audit := a\<rparr>" using write_audit_db [OF au] by blast
  then show ?thesis unfolding rewritten_def using i by auto
qed

lemma merged_lookup: "fmlookup (mergedRecordData f chg) k = (if k |\<in>| fmdom chg then fmlookup chg k else fmlookup f k)"
  by (simp add: mergedRecordData_def)

lemma reason_ignored: "k |\<notin>| fmdom chg \<Longrightarrow> str_field (mergedRecordData f chg) k = str_field f k"
    "k |\<notin>| fmdom chg \<Longrightarrow> num_field (mergedRecordData f chg) k = num_field f k"
  by (simp_all add: str_field_def num_field_def merged_lookup)

lemma decoded_merged:
  assumes "decoded f" "\<And>k v. fmlookup chg k = Some v \<Longrightarrow> json_norm v = v"
  shows "decoded (mergedRecordData f chg)"
proof -
  have "map_option json_norm (fmlookup f k) = fmlookup f k" for k
    using assms(1) fmlookup_json_norm [of f k] by (simp add: decoded_def)
  moreover have "map_option json_norm (fmlookup chg k) = fmlookup chg k" for k
    using assms(2) by (cases "fmlookup chg k") auto
  ultimately show ?thesis unfolding decoded_def by (intro fmap_ext) (simp add: merged_lookup)
qed

lemma find_live_id:
  assumes "records_wf D" "ids_canonical E D" "q \<in> set (db_records D)" "live et q"
  shows "find_live E D et (rr_id q) = Some q"
proof -
  have u: "e_uuid E (rr_id q) = Some (rr_id q)" using assms(2,3) by (simp add: ids_canonical_def)
  obtain r where r: "List.find (\<lambda>r. rr_id r = rr_id q \<and> live et r) (db_records D) = Some r"
    using assms(3,4) by (cases "List.find (\<lambda>r. rr_id r = rr_id q \<and> live et r) (db_records D)") (auto simp: find_None_iff)
  then have "r = q" using find_SomeD [OF r] rr_id_unique [OF assms(1) _ assms(3)] by blast
  then show ?thesis using r u by (simp add: find_live_def)
qed

text \<open>
  An order whose currency is no uuid cannot be matched: the lookup aborts the transaction the code goes
  on in, so the save fails instead of falling back to two decimals.
\<close>

lemma malformed_currency_blocks_the_match:
  assumes "c \<noteq> []" "e_uuid E c = None"
  shows "\<exists>w'. match_value E poID invoiceTotal c w = (Inl ErrVendorInvoiceMatchFailed, w')"
proof -
  obtain w1 where "GetTx E ''Currency'' c w = (Inl ErrDB, w1)"
    using assms(2) by (auto simp: GetTx_def get_where_def query_def stmt_def rbind_def uuid_arg_def)
  then have "match_scale E c w = (Inr (2, True), w1)"
    using assms(1) by (simp add: match_scale_def invoiceMinorUnitTx_def catchM_def bindM_def ret_def Decimals_def)
  moreover obtain w2 where "query (\<lambda>_. Inl ErrDB :: (err, i64 \<times> bool) result) w1 = (Inl ErrDB, w2)"
    by (auto simp: query_def stmt_def rbind_def)
  ultimately show ?thesis by (simp add: match_value_def bindM_def catchM_def fail_def)
qed

text \<open>The hook leaves the invoice as it was stored or rewrites it; what stands then is matched only if it agrees.\<close>

lemma match_hook_run:
  assumes run: "MatchVendorInvoiceOnUpdate E quote d r ActionUpdate actor w = (Inr u, w')"
    and wf: "records_wf (w_db w)" "ids_canonical E (w_db w)" and dec: "decoded (rec_data r)"
  obtains f where "decoded f" "w_db w' = w_db w \<and> f = rec_data r \<or> rewritten E r f (w_db w) (w_db w')"
    "status_code E (w_db w) f = ''matched'' \<Longrightarrow> agrees E (w_db w) f"
proof (cases "w_db w' = w_db w \<and> status_code E (w_db w) (rec_data r) \<noteq> ''matched''")
  case True
  then show thesis using that [OF dec] by blast
next
  case False
  let ?s = "str_field (rec_data r) ''status_id''"
  have s: "?s \<noteq> []" using run False by (auto simp: MatchVendorInvoiceOnUpdate_def Let_def status_code_def)
  obtain st w1 where st: "GetTx E ''Status'' ?s w = (Inr st, w1)"
    and k: "(if str_field (rec_data st) ''code'' \<noteq> ''matched'' then ret ()
       else bindM (vendorInvoiceMatchDetail E quote r) (\<lambda>matchDetail.
         if matchDetail = [] then
           (if str_field (rec_data r) ''match_exception_reason'' = [] then ret ()
            else clearVendorInvoiceMatchException E r actor)
         else bindM (statusIDByCodeTx (str_field (rec_data st) ''status_type_id'') statusCodeMatchException)
           (\<lambda>exceptionStatusID.
             rewrite_invoice E r (fmap_of_list [(''status_id'', VStr exceptionStatusID),
               (''match_exception_reason'', VStr matchDetail)]) actor))) w1 = (Inr u, w')"
    using run s by (auto simp: MatchVendorInvoiceOnUpdate_def Let_def bindM_Inr_iff)
  have w1: "w_db w1 = w_db w" using readsD [OF reads_repo(1) st] .
  have code: "status_code E (w_db w) (rec_data r) = str_field (rec_data st) ''code''"
    using st s by (auto simp: GetTx_found status_code_def)
  have m: "str_field (rec_data st) ''code'' = ''matched''"
  proof (rule ccontr)
    assume n: "str_field (rec_data st) ''code'' \<noteq> ''matched''"
    then have "w' = w1" using k by simp
    then show False using False w1 code n by simp
  qed
  with k obtain detail w2 where det: "vendorInvoiceMatchDetail E quote r w1 = (Inr detail, w2)"
    and k2: "(if detail = [] then
           (if str_field (rec_data r) ''match_exception_reason'' = [] then ret ()
            else clearVendorInvoiceMatchException E r actor)
         else bindM (statusIDByCodeTx (str_field (rec_data st) ''status_type_id'') statusCodeMatchException)
           (\<lambda>exceptionStatusID.
             rewrite_invoice E r (fmap_of_list [(''status_id'', VStr exceptionStatusID),
               (''match_exception_reason'', VStr detail)]) actor)) w2 = (Inr u, w')"
    by (auto simp: bindM_Inr_iff simp del: if_split)
  have w2: "w_db w2 = w_db w" using readsD [OF reads_detail det] w1 by simp
  show thesis
  proof (cases "detail = []")
    case True
    then have ag: "agrees E (w_db w) (rec_data r)" using detail_agrees det w1 by metis
    show thesis
    proof (cases "str_field (rec_data r) ''match_exception_reason'' = []")
      case True
      then have "w_db w' = w_db w" using k2 \<open>detail = []\<close> w2 by simp
      then show thesis using that [OF dec] ag by blast
    next
      case reason: False
      let ?f = "mergedRecordData (rec_data r) (fmap_of_list [(''match_exception_reason'', VStr [])])"
      have "rewrite_invoice E r (fmap_of_list [(''match_exception_reason'', VStr [])]) actor w2 = (Inr u, w')"
        using k2 True reason by (simp add: clearVendorInvoiceMatchException_def)
      from rewrite_run [OF this] have "rewritten E r ?f (w_db w) (w_db w')" using w2 by simp
      moreover have "agrees E (w_db w) ?f" using ag by (simp add: agrees_def reason_ignored fmdom_of_list)
      moreover have "decoded ?f" by (rule decoded_merged [OF dec]) (auto simp: fmlookup_of_list split: if_splits)
      ultimately show thesis using that by blast
    qed
  next
    case exception: False
    then obtain i w3 where i: "statusIDByCodeTx (str_field (rec_data st) ''status_type_id'') statusCodeMatchException w2 = (Inr i, w3)"
      and rw: "rewrite_invoice E r (fmap_of_list [(''status_id'', VStr i), (''match_exception_reason'', VStr detail)]) actor w3 = (Inr u, w')"
      using k2 by (auto simp: bindM_Inr_iff)
    let ?f = "mergedRecordData (rec_data r) (fmap_of_list [(''status_id'', VStr i), (''match_exception_reason'', VStr detail)])"
    obtain q where q: "q \<in> set (db_records (w_db w))" "live ''Status'' q" "str_field (rr_data q) ''code'' = ''match_exception''" "i = rr_id q"
      and w3: "w_db w3 = w_db w"
      using i w2 by (auto simp: statusIDByCodeTx_def statusCodeMatchException_def bindM_Inr_iff ListTx_def query_Inr_iff
          to_record_def split: option.splits dest!: find_SomeD)
    have "status_code E (w_db w) ?f \<noteq> ''matched''"
      using find_live_id [OF wf q(1,2)] q(3,4)
      by (simp add: status_code_def str_field_def merged_lookup fmdom_of_list fmlookup_of_list)
    moreover have "rewritten E r ?f (w_db w) (w_db w')" using rewrite_run [OF rw] w3 by simp
    moreover have "decoded ?f" by (rule decoded_merged [OF dec]) (auto simp: fmlookup_of_list split: if_splits)
    ultimately show thesis using that by blast
  qed
qed

section \<open>Matched invoices\<close>

text \<open>The match looks at records of other types than the invoice.\<close>

definition not_of :: "string \<Rightarrow> db \<Rightarrow> rrow list" where
  "not_of et D = filter (\<lambda>r. rr_type r \<noteq> et) (db_records D)"

lemma find_filter_implied: "(\<And>x. P x \<Longrightarrow> Q x) \<Longrightarrow> List.find P (filter Q xs) = List.find P xs"
  unfolding find_filter by (rule find_cong) auto

lemma find_live_not_of: "et \<noteq> t \<Longrightarrow> not_of t D' = not_of t D \<Longrightarrow> find_live E D' et rid = find_live E D et rid"
proof -
  assume et: "et \<noteq> t" and eq: "not_of t D' = not_of t D"
  have "List.find (\<lambda>r. rr_id r = u \<and> live et r) (not_of t D) = List.find (\<lambda>r. rr_id r = u \<and> live et r) (db_records D)" for u D
    unfolding not_of_def using et by (intro find_filter_implied) (auto simp: live_def)
  note f = this [symmetric]
  show ?thesis unfolding find_live_def f [of _ D'] f [of _ D] eq ..
qed

lemma in_order_not_of: "et \<noteq> t \<Longrightarrow> not_of t D' = not_of t D \<Longrightarrow> in_order et D' = in_order et D"
proof -
  assume et: "et \<noteq> t" and eq: "not_of t D' = not_of t D"
  have "filter (live et) (not_of t D) = filter (live et) (db_records D)" for D
    unfolding not_of_def filter_filter using et by (intro filter_cong) (auto simp: live_def)
  note f = this [symmetric]
  show ?thesis unfolding in_order_def f [of D'] f [of D] eq ..
qed

lemma match_not_of:
  assumes "not_of ''VendorInvoice'' D' = not_of ''VendorInvoice'' D"
  shows "status_code E D' d = status_code E D d" "agrees E D' d = agrees E D d"
  using find_live_not_of [OF _ assms] in_order_not_of [OF _ assms]
  by (simp_all add: status_code_def agrees_def order_scale_def received_value_def)

lemma update_not_of:
  "db_records D' = upd_where (update_hits et u ev) (update_row f) (db_records D) \<Longrightarrow> not_of et D' = not_of et D"
proof -
  have "filter (\<lambda>r. rr_type r \<noteq> et) (upd_where (update_hits et u ev) (update_row f) rs) = filter (\<lambda>r. rr_type r \<noteq> et) rs" for rs
    by (induction rs) (auto simp: upd_where_def update_hits_def live_def update_row_def)
  then show "db_records D' = upd_where (update_hits et u ev) (update_row f) (db_records D) \<Longrightarrow> not_of et D' = not_of et D"
    by (simp add: not_of_def)
qed

text \<open>After an update that hit a row, the row of that id holds the new document.\<close>

lemma updated_doc:
  assumes wf: "records_wf D" and p: "p \<in> set (db_records D)" "update_hits et u ev p" and dec: "decoded f"
    and D': "db_records D' = upd_where (update_hits et u ev) (update_row f) (db_records D)"
    and q: "q \<in> set (db_records D')" "rr_id q = u"
  shows "rr_data q = f"
proof -
  obtain q0 where q0: "q0 \<in> set (db_records D)" "q = (if update_hits et u ev q0 then update_row f q0 else q0)"
    using q(1) unfolding D' in_upd_where by blast
  have "rr_id q0 = u" using q0(2) q(2) by (auto simp: update_row_def split: if_splits)
  then have "q0 = p" using rr_id_unique [OF wf q0(1) p(1)] p(2) by (simp add: update_hits_def)
  then show ?thesis using q0(2) p(2) dec by (simp add: update_row_def decoded_def)
qed

lemma ids_update: "ids_canonical E D \<Longrightarrow> db_records D' = upd_where P (update_row f) (db_records D) \<Longrightarrow> ids_canonical E D'"
  by (auto simp: ids_canonical_def in_upd_where update_row_def)

text \<open>
  The hook lets a creation through unread: an invoice created in the status \<open>matched\<close> is stored so, and
  stays unchecked until it is updated.
\<close>

lemma created_invoices_unchecked: "MatchVendorInvoiceOnUpdate E quote d r ActionCreate actor w = (Inr (), w)"
  by (simp add: MatchVendorInvoiceOnUpdate_def ret_def)

text \<open>
  C39. After an update of a vendor invoice through the engine that succeeds, with the hook registered, the
  stored invoice is in the status \<open>matched\<close> only if it agrees with the records as they are then: its
  order exists, is of the same vendor and (where both name one) the same currency, and the value of
  what was received for the order is not zero and equals the total of the invoice in minor units of
  the order's currency. An invoice that does not agree is stored in another status. (An update that
  fails changes nothing, \<open>Update_error\<close>; a creation is not checked.)
\<close>

theorem matched_invoices_agree:
  assumes run: "Update E hooks d rid f ev actor w = (Inr v, w')"
    and hook: "hooks ''VendorInvoice'' = Some (MatchVendorInvoiceOnUpdate E quote)" "d_entity_type d = ''VendorInvoice''"
    and wf: "tables_wf (w_db w)" "ids_canonical E (w_db w)" and dec: "decoded f"
    and inv: "e_uuid E rid = Some u" "q \<in> set (db_records (w_db w'))" "rr_id q = u"
    and matched: "status_code E (w_db w') (rr_data q) = ''matched''"
  shows "agrees E (w_db w') (rr_data q)"
proof -
  obtain w1 w2 w3 w4 w5 w6 w7 v0 where 1: "w_db w1 = w_db w"
      "check_self_references E d rid f w1 = (Inr (), w2)"
      "checkReferenceTargetConstraints E d f w2 = (Inr (), w3)"
      "UpdateTx E (d_entity_type d) rid f ev w3 = (Inr v0, w4)"
      "UpdateUniqueConstraintKeys E d rid f w4 = (Inr (), w5)"
      "write_audit E (d_entity_type d) rid ActionUpdate actor (Some f) w5 = (Inr (), w6)"
    and h: "runHook hooks d \<lparr>rec_id = rid, rec_type = d_entity_type d, rec_data = f, rec_version = v0\<rparr>
       ActionUpdate actor w6 = (Inr (), w7)" and w': "w_db w' = w_db w7"
    by (rule Update_success [OF run], rule that, assumption+)
  have w3: "w_db w3 = w_db w"
    using readsD [OF reads_check_self_references 1(2)] readsD [OF reads_target_constraints 1(3)] 1(1) by simp
  obtain p where p: "p \<in> set (db_records (w_db w))" "update_hits ''VendorInvoice'' u ev p"
    and w4: "w_db w4 = (w_db w)\<lparr>db_records := upd_where (update_hits ''VendorInvoice'' u ev) (update_row f) (db_records (w_db w))\<rparr>"
  proof (rule UpdateTx_success [OF 1(4)])
    fix i p assume "e_uuid E rid = Some i" "p \<in> set (db_records (w_db w3))" "update_hits (d_entity_type d) i ev p"
      "w_db w4 = (w_db w3)\<lparr>db_records := upd_where (update_hits (d_entity_type d) i ev) (update_row f) (db_records (w_db w3))\<rparr>"
    then show thesis using that [of p] w3 hook(2) inv(1) by simp
  qed
  have "tables_wf (w_db w4)" using keepsD [OF UpdateTx_wf 1(4)] wf(1) w3 by simp
  moreover have recs: "db_records (w_db w6) = db_records (w_db w4)"
    using keepsD [OF update_keys_records 1(5), of "db_records (w_db w4)"] write_audit_db [OF 1(6)] by simp
  ultimately have wf6: "records_wf (w_db w6)" by (simp add: tables_wf_def records_wf_def)
  have d6: "db_records (w_db w6) = upd_where (update_hits ''VendorInvoice'' u ev) (update_row f) (db_records (w_db w))"
    unfolding recs w4 by simp
  have ids6: "ids_canonical E (w_db w6)" by (rule ids_update [OF wf(2) d6])
  have run7: "MatchVendorInvoiceOnUpdate E quote d \<lparr>rec_id = rid, rec_type = d_entity_type d, rec_data = f, rec_version = v0\<rparr>
      ActionUpdate actor w6 = (Inr (), w7)" using h hook by (simp add: runHook_def)
  obtain g where g: "decoded g" "w_db w7 = w_db w6 \<and> g = f \<or>
      rewritten E \<lparr>rec_id = rid, rec_type = d_entity_type d, rec_data = f, rec_version = v0\<rparr> g (w_db w6) (w_db w7)"
    "status_code E (w_db w6) g = ''matched'' \<Longrightarrow> agrees E (w_db w6) g"
    by (rule match_hook_run [OF run7 wf6 ids6]) (use dec in auto)
  have "rr_data q = g \<and> not_of ''VendorInvoice'' (w_db w7) = not_of ''VendorInvoice'' (w_db w6)"
    using g(2)
  proof
    assume "w_db w7 = w_db w6 \<and> g = f"
    moreover have "records_wf (w_db w)" using wf(1) by (simp add: tables_wf_def)
    ultimately show ?thesis
      using updated_doc [OF _ p dec d6, of q] w' inv(2,3) by simp
  next
    assume "rewritten E \<lparr>rec_id = rid, rec_type = d_entity_type d, rec_data = f, rec_version = v0\<rparr> g (w_db w6) (w_db w7)"
    then obtain row a where r: "row \<in> set (db_records (w_db w6))" "update_hits ''VendorInvoice'' u (Some v0) row"
      "w_db w7 = (w_db w6)\<lparr>db_records := upd_where (update_hits ''VendorInvoice'' u (Some v0)) (update_row g)
        (db_records (w_db w6)), db_audit := a\<rparr>"
      using inv(1) by (auto simp: rewritten_def)
    then have d7: "db_records (w_db w7) = upd_where (update_hits ''VendorInvoice'' u (Some v0)) (update_row g) (db_records (w_db w6))"
      by simp
    show ?thesis
      using updated_doc [OF wf6 r(1,2) g(1) d7] update_not_of [OF d7] inv(2,3) w' by simp
  qed
  then show ?thesis using g(3) matched match_not_of w' by metis
qed

text \<open>An order of two pieces at 1.50, received and invoiced at 3.00.\<close>

definition row_at :: "string \<Rightarrow> string \<Rightarrow> (string \<times> gval) list \<Rightarrow> rrow" where
  "row_at i et d = \<lparr>rr_id = i, rr_type = et, rr_data = fmap_of_list d, rr_version = 1, rr_created = 1, rr_deleted = False\<rparr>"

definition invoice_doc :: fields where
  "invoice_doc = fmap_of_list [(''status_id'', VStr ''st''), (''purchase_order_id'', VStr ''po''), (''vendor_id'', VStr ''ve''),
     (''total'', VNum (Fin 3))]"

definition invoice_row :: "int \<Rightarrow> rrow" where
  "invoice_row v = \<lparr>rr_id = ''iv'', rr_type = ''VendorInvoice'', rr_data = invoice_doc, rr_version = v, rr_created = 1, rr_deleted = False\<rparr>"

definition order_rows :: "rrow list" where
  "order_rows =
     [row_at ''st'' ''Status'' [(''code'', VStr ''matched''), (''status_type_id'', VStr ''ty'')],
      row_at ''po'' ''PurchaseOrder'' [(''vendor_id'', VStr ''ve'')],
      row_at ''pl'' ''POLine'' [(''purchase_order_id'', VStr ''po''), (''unit_price'', VNum (Fin 150))],
      row_at ''gl'' ''GoodsReceiptLine'' [(''po_line_id'', VStr ''pl''), (''qty_received'', VNum (Fin 2))]]"

definition bill_db :: db where
  "bill_db = empty_db\<lparr>db_records := invoice_row 1 # order_rows\<rparr>"

lemma invoice_doc_sel [simp]:
  "str_field invoice_doc ''status_id'' = ''st''" "str_field invoice_doc ''purchase_order_id'' = ''po''"
  "str_field invoice_doc ''vendor_id'' = ''ve''" "str_field invoice_doc ''currency_id'' = []"
  "str_field invoice_doc ''match_exception_reason'' = []" "num_field invoice_doc ''total'' = Fin 3"
  by (simp_all add: invoice_doc_def str_field_def num_field_def fmlookup_of_list)

lemma row_at_sel [simp]:
  "rr_id (row_at i et d) = i" "rr_type (row_at i et d) = et" "\<not> rr_deleted (row_at i et d)" "rr_version (row_at i et d) = 1"
  "rr_data (row_at i et d) = fmap_of_list d" "rr_created (row_at i et d) = 1"
  "rr_id (invoice_row v) = ''iv''" "rr_type (invoice_row v) = ''VendorInvoice''" "\<not> rr_deleted (invoice_row v)"
  "rr_version (invoice_row v) = v" "rr_data (invoice_row v) = invoice_doc" "rr_created (invoice_row v) = 1"
  by (simp_all add: row_at_def invoice_row_def)

lemma three: "FromMajorUnits cv (Fin 3) 2 = Inr 300"
  using round_away_int [of 300] rnd64_of_int [of 300] trunc_int [of 300]
  by (simp add: FromMajorUnits_def MaxMinorUnitScale_def fits64_def Let_def)

lemma order_value:
  assumes "db_records D = invoice_row v # order_rows"
  shows "received_value posting_env D ''po'' = Fin 3"
proof -
  have price: "FromAny cv (VNum (Fin 150)) = Inr 150" for cv
    using of_i64_small [of 150] trunc_int [of 150] by (simp add: fits64_def)
  have "Major 150 = Fin (3 / 2)"
  proof -
    have "rnd64 (3 / 2) = Fin (3 / 2)"
      using round_half_even_int [of 6755399441055744] by (subst rnd64_eval [of 0 "3 / 2" "3 / 2"]) (simp_all add: pow2_def)
    then show ?thesis using of_i64_small [of 150] by (simp add: Major_def)
  qed
  then show ?thesis
    using rnd64_of_int [of 3]
    by (simp add: received_value_def in_order_def assms order_rows_def live_def line_prices_def to_record_def price_of_def
        get_field_def str_field_def num_field_def fmlookup_of_list price add_received_def del: FromAny.simps)
qed

lemma str_field_empty [simp]: "str_field fmempty k = []"
  by (simp add: str_field_def)

lemma str_field_list: "str_field (fmap_of_list l) k = (case map_of l k of Some (VStr t) \<Rightarrow> t | _ \<Rightarrow> [])"
  by (simp add: str_field_def fmlookup_of_list)

lemma match_found:
  assumes w: "w_faults w = []" "db_records (w_db w) = invoice_row v # order_rows"
  shows "MatchVendorInvoiceOnUpdate posting_env quote d
     \<lparr>rec_id = ''iv'', rec_type = t, rec_data = invoice_doc, rec_version = v\<rparr> ActionUpdate actor w = (Inr (), w)"
proof -
  have s: "sent w = w" "\<not> faulty w" using w(1) by (simp_all add: sent_def faulty_def)
  have g: "GetTx posting_env ''Status'' ''st'' w = (Inr \<lparr>rec_id = ''st'', rec_type = ''Status'', rec_data = fmap_of_list
        [(''code'', VStr ''matched''), (''status_type_id'', VStr ''ty'')], rec_version = 1\<rparr>, w)"
    "GetTx posting_env ''PurchaseOrder'' ''po'' w = (Inr \<lparr>rec_id = ''po'', rec_type = ''PurchaseOrder'', rec_data = fmap_of_list
        [(''vendor_id'', VStr ''ve'')], rec_version = 1\<rparr>, w)"
    by (simp_all add: GetTx_found s find_live_def w order_rows_def live_def)
  have prices: "line_prices posting_env ''po'' (in_order ''POLine'' (w_db w)) \<noteq> []"
    by (simp add: line_prices_def in_order_def w order_rows_def live_def to_record_def str_field_list)
  have "receivedValueForPurchaseOrder posting_env ''po'' 2 w = (Inr (300, True), w)"
    using prices order_value [OF w(2)] three
    by (simp add: receivedValueForPurchaseOrder_def Let_def bindM_def ListTx_def query_def stmt_def rbind_def s ret_def
        received_value_def in_order_def)
  then have "vendorInvoiceMatchDetail posting_env quote \<lparr>rec_id = ''iv'', rec_type = t, rec_data = invoice_doc, rec_version = v\<rparr> w =
      (Inr [], w)"
    using three
    by (simp add: vendorInvoiceMatchDetail_def Let_def optionalM_def catchM_def bindM_def g ret_def match_order_def match_value_def
        match_scale_def Decimals_def str_field_list)
  then show ?thesis
    by (simp add: MatchVendorInvoiceOnUpdate_def bindM_def g str_field_list)
qed

definition invoice_hooks :: hooks where
  "invoice_hooks = SetHook Map.empty ''VendorInvoice'' (MatchVendorInvoiceOnUpdate posting_env id)"

lemma invoice_saved:
  "\<exists>a. Update posting_env invoice_hooks (mk_definition ''VendorInvoice'' []) ''iv'' invoice_doc None sample_actor
     (sample_world bill_db) = (Inr 2, sample_world (bill_db\<lparr>db_records := invoice_row 2 # order_rows, db_audit := a\<rparr>))"
proof -
  let ?d = "mk_definition ''VendorInvoice'' []"
  have ok: "json_ok_fields invoice_doc" and dec: "json_norm_fields invoice_doc = invoice_doc"
    by (auto simp: json_ok_fields_iff invoice_doc_def fmlookup_of_list intro!: fmap_ext split: if_splits)
  have v: "ValidateRecord cv ?d invoice_doc = None" for cv by (simp add: ValidateRecord_def mk_definition_def)
  have up: "UpdateTx posting_env ''VendorInvoice'' ''iv'' invoice_doc None (sample_world bill_db) =
      (Inr 2, sample_world (bill_db\<lparr>db_records := invoice_row 2 # order_rows\<rparr>))"
    by (simp add: UpdateTx_def ok uuid_arg_def int4_arg_def update_hits_def live_def bill_db_def empty_db_def stmt_eval
        sample_world_def order_rows_def max_int4_def upd_where_def update_row_def dec invoice_row_def)
  have "\<exists>a. write_audit posting_env ''VendorInvoice'' ''iv'' ActionUpdate sample_actor (Some invoice_doc)
      (sample_world (bill_db\<lparr>db_records := invoice_row 2 # order_rows\<rparr>)) =
      (Inr (), sample_world (bill_db\<lparr>db_records := invoice_row 2 # order_rows, db_audit := a\<rparr>))"
    by (simp add: write_audit_def audit_New_def Actor_Validate_def audit_Insert_def sample_actor_def InputHash_def
        nullable_uuid_def uuid_arg_def ok stmt_eval sample_world_def bill_db_def empty_db_def)
  then obtain a where au: "write_audit posting_env ''VendorInvoice'' ''iv'' ActionUpdate sample_actor (Some invoice_doc)
      (sample_world (bill_db\<lparr>db_records := invoice_row 2 # order_rows\<rparr>)) =
      (Inr (), sample_world (bill_db\<lparr>db_records := invoice_row 2 # order_rows, db_audit := a\<rparr>))" by blast
  let ?w = "sample_world (bill_db\<lparr>db_records := invoice_row 2 # order_rows, db_audit := a\<rparr>)"
  have h: "runHook invoice_hooks ?d \<lparr>rec_id = ''iv'', rec_type = ''VendorInvoice'', rec_data = invoice_doc, rec_version = 2\<rparr>
      ActionUpdate sample_actor ?w = (Inr (), ?w)"
    by (simp add: runHook_def invoice_hooks_def SetHook_def mk_definition_def match_found)
  have fv: "final_version posting_env invoice_hooks ?d ''iv'' 2 ?w = (Inr 2, ?w)"
  proof -
    have "GetTx posting_env ''VendorInvoice'' ''iv'' ?w = (Inr \<lparr>rec_id = ''iv'', rec_type = ''VendorInvoice'',
        rec_data = invoice_doc, rec_version = 2\<rparr>, ?w)"
      by (simp add: GetTx_found find_live_def live_def sample_world_def faulty_def sent_def)
    then show ?thesis by (simp add: final_version_def invoice_hooks_def SetHook_def mk_definition_def bindM_def ret_def)
  qed
  have q: "query (\<lambda>_. Inr ()) (sample_world D) = (Inr (), sample_world D)" for D
    by (simp add: stmt_eval sample_world_def)
  have "update_body posting_env invoice_hooks ?d ''iv'' invoice_doc None sample_actor (sample_world bill_db) = (Inr 2, ?w)"
    using up au h fv
    by (simp add: update_body_def check_self_references_def selfReferenceFields_def checkReferenceTargetConstraints_def
        UpdateUniqueConstraintKeys_def mk_definition_def Let_def thenM_def bindM_def ret_def)
  then show ?thesis
    by (intro exI [of _ a]) (simp add: Update_def validation_def v guardM_def thenM_def bindM_def ret_def in_tx_def q)
qed

theorem matched_invoices_agree_witness:
  "\<exists>D. fst (Update posting_env invoice_hooks (mk_definition ''VendorInvoice'' []) ''iv'' invoice_doc None sample_actor
      (sample_world bill_db)) = Inr 2 \<and>
     w_db (snd (Update posting_env invoice_hooks (mk_definition ''VendorInvoice'' []) ''iv'' invoice_doc None sample_actor
      (sample_world bill_db))) = D \<and> status_code posting_env D invoice_doc = ''matched'' \<and> agrees posting_env D invoice_doc"
proof -
  obtain a where run: "Update posting_env invoice_hooks (mk_definition ''VendorInvoice'' []) ''iv'' invoice_doc None sample_actor
     (sample_world bill_db) = (Inr 2, sample_world (bill_db\<lparr>db_records := invoice_row 2 # order_rows, db_audit := a\<rparr>))"
    using invoice_saved by blast
  let ?D = "bill_db\<lparr>db_records := invoice_row 2 # order_rows, db_audit := a\<rparr>"
  have st: "status_code posting_env ?D invoice_doc = ''matched''"
    by (simp add: status_code_def find_live_def order_rows_def live_def str_field_list)
  have "agrees posting_env (w_db (sample_world ?D)) (rr_data (invoice_row 2))"
  proof (rule matched_invoices_agree [OF run])
    show "invoice_hooks ''VendorInvoice'' = Some (MatchVendorInvoiceOnUpdate posting_env id)"
      by (simp add: invoice_hooks_def SetHook_def)
    show "decoded invoice_doc"
      by (auto simp: decoded_def invoice_doc_def fmlookup_of_list intro!: fmap_ext)
    show "tables_wf (w_db (sample_world bill_db))" "ids_canonical posting_env (w_db (sample_world bill_db))"
      by (simp_all add: bill_db_def order_rows_def empty_db_def tables_wf_parts ids_canonical_def max_int4_def)
  qed (use st in \<open>simp_all add: mk_definition_def\<close>)
  then show ?thesis using run st by simp
qed

section \<open>Customer invoices\<close>

definition sourced_by :: "string \<Rightarrow> string \<Rightarrow> jerow \<Rightarrow> bool" where
  "sourced_by source u e \<longleftrightarrow> je_source_type e = Some source \<and> je_source_id e = Some u"

lemma customer_hook_run:
  assumes run: "PostCustomerInvoiceToLedger E d r ActionUpdate actor w = (Inr x, w')"
    and st: "status_code E (w_db w) (rec_data r) = ''issued''"
    and rid: "rec_id r \<noteq> []" "e_uuid E (rec_id r) = Some u"
    and amount: "FromMajorUnits (e_cv E) (num_field (rec_data r) ''total'') 2 = Inr amount"
  shows "if list_ex (sourced_by ''CustomerInvoice'' u) (db_entries (w_db w)) then w_db w' = w_db w
     else booked E (w_db w) (w_db w') ''CustomerInvoice'' u (str_field (rec_data r) ''invoice_date'') ''1200'' ''4100'' amount"
proof -
  let ?s = "str_field (rec_data r) ''status_id''"
  have s: "?s \<noteq> []" using st by (auto simp: status_code_def)
  obtain status w1 where g: "GetTx E ''Status'' ?s w = (Inr status, w1)"
    and k: "(if str_field (rec_data status) ''code'' \<noteq> ''issued'' then ret ()
       else bindM (ExistsForSource E ''CustomerInvoice'' (rec_id r)) (\<lambda>alreadyPosted.
         if alreadyPosted then ret ()
         else case FromMajorUnits (e_cv E) (num_field (rec_data r) ''total'') (int Decimals) of
             Inl _ \<Rightarrow> fail ErrPlain
           | Inr amount \<Rightarrow>
               if amount = 0 then ret ()
               else thenM (PostTx E (invoice_entry (str_field (rec_data r) ''invoice_date'') (rec_id r) amount) actor)
                 (ret ()))) w1 = (Inr x, w')"
    using run s by (auto simp: PostCustomerInvoiceToLedger_def Let_def bindM_Inr_iff)
  have w1: "w_db w1 = w_db w" using readsD [OF reads_repo(1) g] .
  have "str_field (rec_data status) ''code'' = ''issued''" using g s st by (auto simp: GetTx_found status_code_def)
  then have "bindM (ExistsForSource E ''CustomerInvoice'' (rec_id r)) (\<lambda>alreadyPosted.
         if alreadyPosted then ret ()
         else case FromMajorUnits (e_cv E) (num_field (rec_data r) ''total'') (int Decimals) of
             Inl _ \<Rightarrow> fail ErrPlain
           | Inr amount \<Rightarrow>
               if amount = 0 then ret ()
               else thenM (PostTx E (invoice_entry (str_field (rec_data r) ''invoice_date'') (rec_id r) amount) actor)
                 (ret ())) w1 = (Inr x, w')" using k by simp
  then obtain already w2 where ex: "ExistsForSource E ''CustomerInvoice'' (rec_id r) w1 = (Inr already, w2)"
    and k1: "(if already then ret ()
         else case FromMajorUnits (e_cv E) (num_field (rec_data r) ''total'') (int Decimals) of
             Inl _ \<Rightarrow> fail ErrPlain
           | Inr amount \<Rightarrow>
               if amount = 0 then ret ()
               else thenM (PostTx E (invoice_entry (str_field (rec_data r) ''invoice_date'') (rec_id r) amount) actor)
                 (ret ())) w2 = (Inr x, w')"
    unfolding bindM_Inr_iff by blast
  have k2: "(if already then ret ()
         else if amount = 0 then ret ()
               else thenM (PostTx E (invoice_entry (str_field (rec_data r) ''invoice_date'') (rec_id r) amount) actor)
                 (ret ())) w2 = (Inr x, w')"
    using k1 amount by (cases already) (simp_all add: Decimals_def)
  have a: "already \<longleftrightarrow> list_ex (sourced_by ''CustomerInvoice'' u) (db_entries (w_db w))" and w2: "w_db w2 = w_db w"
    using ex rid(2) w1 by (auto simp: ExistsForSource_def query_Inr_iff sourced_by_def list_ex_iff)
  show ?thesis
  proof (cases "already \<or> amount = 0")
    case True
    then have "w_db w' = w_db w" using k2 w2 by (auto split: if_splits)
    then show ?thesis using True a by (auto simp: booked_def)
  next
    case False
    then obtain v where v: "PostTx E (invoice_entry (str_field (rec_data r) ''invoice_date'') (rec_id r) amount) actor w2 = (Inr v, w')"
      using k2 by (auto simp: thenM_Inr_iff)
    have "booked E (w_db w2) (w_db w') ''CustomerInvoice'' u (str_field (rec_data r) ''invoice_date'') ''1200'' ''4100'' amount"
      using PostTx_booked [OF v, of u "''1200''" amount "''4100''"] rid False
      by (simp add: invoice_entry_def glAccountAR_def glAccountRevenue_def)
    then show ?thesis using False a w2 by simp
  qed
qed

lemma booked_accounts:
  "booked E D D' s u dt a b n \<Longrightarrow> db_entries D0 = db_entries D \<Longrightarrow> db_lines D0 = db_lines D \<Longrightarrow> db_accounts D0 = db_accounts D \<Longrightarrow>
     db_entries D1 = db_entries D' \<Longrightarrow> db_lines D1 = db_lines D' \<Longrightarrow> booked E D0 D1 s u dt a b n"
  by (simp add: booked_def posted_cong [of D0 D] split del: if_split cong: if_cong)

text \<open>
  C40. A successful update of a customer invoice whose status is then \<open>issued\<close> books it exactly once: if the
  journal already has an entry for the invoice the ledger stays as it was, and otherwise it gets exactly one, dated by
  the invoice, that debits receivables and credits revenue with the total in hundredths (none when
  that is zero).
\<close>

theorem issued_invoices_are_booked_once:
  assumes run: "Update E hooks d rid f ev actor w = (Inr v, w')"
    and hook: "hooks ''CustomerInvoice'' = Some (PostCustomerInvoiceToLedger E)" "d_entity_type d = ''CustomerInvoice''"
    and rid: "rid \<noteq> []" "e_uuid E rid = Some u"
    and issued: "status_code E (w_db w) f = ''issued''"
    and amount: "FromMajorUnits (e_cv E) (num_field f ''total'') 2 = Inr amount"
  shows "if list_ex (sourced_by ''CustomerInvoice'' u) (db_entries (w_db w))
     then db_entries (w_db w') = db_entries (w_db w) \<and> db_lines (w_db w') = db_lines (w_db w)
     else booked E (w_db w) (w_db w') ''CustomerInvoice'' u (str_field f ''invoice_date'') ''1200'' ''4100'' amount"
proof -
  obtain w1 w2 w3 w4 w5 w6 w7 v0 where 1: "w_db w1 = w_db w"
      "check_self_references E d rid f w1 = (Inr (), w2)"
      "checkReferenceTargetConstraints E d f w2 = (Inr (), w3)"
      "UpdateTx E (d_entity_type d) rid f ev w3 = (Inr v0, w4)"
      "UpdateUniqueConstraintKeys E d rid f w4 = (Inr (), w5)"
      "write_audit E (d_entity_type d) rid ActionUpdate actor (Some f) w5 = (Inr (), w6)"
    and h: "runHook hooks d \<lparr>rec_id = rid, rec_type = d_entity_type d, rec_data = f, rec_version = v0\<rparr>
       ActionUpdate actor w6 = (Inr (), w7)" and w': "w_db w' = w_db w7"
    by (rule Update_success [OF run], rule that, assumption+)
  have w3: "w_db w3 = w_db w"
    using readsD [OF reads_check_self_references 1(2)] readsD [OF reads_target_constraints 1(3)] 1(1) by simp
  obtain rs ks a where w6: "w_db w6 = (w_db w)\<lparr>db_records := rs, db_keys := ks, db_audit := a\<rparr>"
    and rs: "not_of ''CustomerInvoice'' (w_db w6) = not_of ''CustomerInvoice'' (w_db w)"
  proof (rule UpdateTx_success [OF 1(4)])
    fix i p assume w4: "w_db w4 = (w_db w3)\<lparr>db_records := upd_where (update_hits (d_entity_type d) i ev) (update_row f) (db_records (w_db w3))\<rparr>"
    obtain ks where w5: "w_db w5 = (w_db w4)\<lparr>db_keys := ks\<rparr>" using keys_effect(2) [OF 1(5)] by blast
    obtain a where w6: "w_db w6 = (w_db w5)\<lparr>db_audit := a\<rparr>" using write_audit_db [OF 1(6)] by blast
    let ?rs = "upd_where (update_hits (d_entity_type d) i ev) (update_row f) (db_records (w_db w))"
    have "w_db w6 = (w_db w)\<lparr>db_records := ?rs, db_keys := ks, db_audit := a\<rparr>" by (simp add: w6 w5 w4 w3)
    moreover from this have "db_records (w_db w6) = ?rs" by simp
    ultimately show thesis using that update_not_of hook(2) by metis
  qed
  have "status_code E (w_db w6) f = status_code E (w_db w) f"
    by (simp add: status_code_def find_live_not_of [OF _ rs])
  then have st: "status_code E (w_db w6) f = ''issued''" using issued by simp
  have run7: "PostCustomerInvoiceToLedger E d \<lparr>rec_id = rid, rec_type = d_entity_type d, rec_data = f, rec_version = v0\<rparr>
      ActionUpdate actor w6 = (Inr (), w7)" using h hook by (simp add: runHook_def)
  have same: "db_entries (w_db w6) = db_entries (w_db w)" "db_lines (w_db w6) = db_lines (w_db w)"
    "db_accounts (w_db w6) = db_accounts (w_db w)" by (simp_all add: w6)
  have eff: "if list_ex (sourced_by ''CustomerInvoice'' u) (db_entries (w_db w)) then w_db w7 = w_db w6
     else booked E (w_db w6) (w_db w7) ''CustomerInvoice'' u (str_field f ''invoice_date'') ''1200'' ''4100'' amount"
    using customer_hook_run [OF run7, of u amount] st rid amount same(1)
    by (cases "list_ex (sourced_by ''CustomerInvoice'' u) (db_entries (w_db w))") simp_all
  show ?thesis
  proof (cases "list_ex (sourced_by ''CustomerInvoice'' u) (db_entries (w_db w))")
    case True
    then show ?thesis using eff same w' by simp
  next
    case False
    then have "booked E (w_db w6) (w_db w7) ''CustomerInvoice'' u (str_field f ''invoice_date'') ''1200'' ''4100'' amount"
      using eff by simp
    then have "booked E (w_db w) (w_db w') ''CustomerInvoice'' u (str_field f ''invoice_date'') ''1200'' ''4100'' amount"
      by (rule booked_accounts) (simp_all add: same w')
    then show ?thesis using False by simp
  qed
qed

definition sale_doc :: fields where
  "sale_doc = fmap_of_list [(''status_id'', VStr ''st''), (''total'', VNum (Fin 3)), (''invoice_date'', VStr ''2026-05-01'')]"

definition sale_row :: rrow where
  "sale_row = \<lparr>rr_id = ''iv'', rr_type = ''CustomerInvoice'', rr_data = sale_doc, rr_version = 1, rr_created = 1, rr_deleted = False\<rparr>"

definition sale_db :: db where
  "sale_db = empty_db\<lparr>db_records := [sale_row, row_at ''st'' ''Status'' [(''code'', VStr ''issued'')]], db_accounts :=
     [\<lparr>ga_id = ''x'', ga_code = ''1200'', ga_name = ''Receivable'', ga_type = ''asset'',
       ga_currency = ''GBP'', ga_active = True, ga_source = None\<rparr>,
      \<lparr>ga_id = ''y'', ga_code = ''4100'', ga_name = ''Sales'', ga_type = ''income'',
       ga_currency = ''GBP'', ga_active = True, ga_source = None\<rparr>]\<rparr>"

definition sale_hooks :: hooks where
  "sale_hooks = SetHook Map.empty ''CustomerInvoice'' (PostCustomerInvoiceToLedger posting_env)"

lemma sale_doc_sel [simp]:
  "str_field sale_doc ''status_id'' = ''st''" "num_field sale_doc ''total'' = Fin 3"
  "str_field sale_doc ''invoice_date'' = ''2026-05-01''"
  by (simp_all add: sale_doc_def str_field_list num_field_def fmlookup_of_list)

lemma sale_hook:
  assumes w: "w_faults w = []" "w_newid w = (\<lambda>_. id_a)" "db_entries (w_db w) = []"
      "db_records (w_db w) = [r, row_at ''st'' ''Status'' [(''code'', VStr ''issued'')]]" "rr_type r = ''CustomerInvoice''"
    and acc: "db_accounts (w_db w) = db_accounts sale_db"
  shows "\<exists>u w'. PostCustomerInvoiceToLedger posting_env d \<lparr>rec_id = ''iv'', rec_type = t, rec_data = sale_doc, rec_version = v\<rparr>
      ActionUpdate sample_actor w = (Inr (), w') \<and>
    PostTx posting_env (invoice_entry ''2026-05-01'' ''iv'' 300) sample_actor w = (Inr u, w') \<and> w_faults w' = []"
proof -
  have s: "sent w = w" "\<not> faulty w" using w(1) by (simp_all add: sent_def faulty_def)
  have g: "GetTx posting_env ''Status'' ''st'' w = (Inr \<lparr>rec_id = ''st'', rec_type = ''Status'', rec_data = fmap_of_list
        [(''code'', VStr ''issued'')], rec_version = 1\<rparr>, w)"
    by (simp add: GetTx_found s find_live_def w live_def)
  have ex: "ExistsForSource posting_env ''CustomerInvoice'' ''iv'' w = (Inr False, w)"
    by (simp add: ExistsForSource_def query_def stmt_def rbind_def s uuid_arg_def w)
  have p: "filter (live ''Period'') (db_records (w_db w)) = []" using w(5) by (simp add: w(4) live_def)
  have "\<exists>u w'. PostTx posting_env (invoice_entry ''2026-05-01'' ''iv'' 300) sample_actor w = (Inr u, w') \<and> w_faults w' = []"
    by (rule sample_posting [OF w(1-3) p, where da = "''1200''" and ca = "''4100''" and n = 300])
      (simp_all add: acc sale_db_def invoice_entry_def glAccountAR_def glAccountRevenue_def word_sless_alt)
  then obtain u w' where post: "PostTx posting_env (invoice_entry ''2026-05-01'' ''iv'' 300) sample_actor w = (Inr u, w')"
    "w_faults w' = []" by blast
  then have "PostCustomerInvoiceToLedger posting_env d \<lparr>rec_id = ''iv'', rec_type = t, rec_data = sale_doc, rec_version = v\<rparr>
      ActionUpdate sample_actor w = (Inr (), w')"
    using three by (simp add: PostCustomerInvoiceToLedger_def bindM_def thenM_def g ex str_field_list Decimals_def ret_def)
  then show ?thesis using post \<open>w_faults w' = []\<close> by blast
qed

lemma sale_saved:
  "\<exists>v w'. Update posting_env sale_hooks (mk_definition ''CustomerInvoice'' []) ''iv'' sale_doc None sample_actor
     (sample_world sale_db) = (Inr v, w')"
proof -
  let ?d = "mk_definition ''CustomerInvoice'' []"
  let ?rs = "[sale_row\<lparr>rr_version := 2\<rparr>, row_at ''st'' ''Status'' [(''code'', VStr ''issued'')]]"
  have ok: "json_ok_fields sale_doc" and dec: "json_norm_fields sale_doc = sale_doc"
    by (auto simp: json_ok_fields_iff sale_doc_def fmlookup_of_list intro!: fmap_ext split: if_splits)
  have v: "ValidateRecord cv ?d sale_doc = None" for cv by (simp add: ValidateRecord_def mk_definition_def)
  have up: "UpdateTx posting_env ''CustomerInvoice'' ''iv'' sale_doc None (sample_world sale_db) =
      (Inr 2, sample_world (sale_db\<lparr>db_records := ?rs\<rparr>))"
    by (simp add: UpdateTx_def ok uuid_arg_def int4_arg_def update_hits_def live_def sale_db_def empty_db_def stmt_eval
        sample_world_def max_int4_def upd_where_def update_row_def dec sale_row_def)
  have "\<exists>a. write_audit posting_env ''CustomerInvoice'' ''iv'' ActionUpdate sample_actor (Some sale_doc)
      (sample_world (sale_db\<lparr>db_records := ?rs\<rparr>)) = (Inr (), sample_world (sale_db\<lparr>db_records := ?rs, db_audit := a\<rparr>))"
    by (simp add: write_audit_def audit_New_def Actor_Validate_def audit_Insert_def sample_actor_def InputHash_def
        nullable_uuid_def uuid_arg_def ok stmt_eval sample_world_def sale_db_def empty_db_def)
  then obtain a where au: "write_audit posting_env ''CustomerInvoice'' ''iv'' ActionUpdate sample_actor (Some sale_doc)
      (sample_world (sale_db\<lparr>db_records := ?rs\<rparr>)) = (Inr (), sample_world (sale_db\<lparr>db_records := ?rs, db_audit := a\<rparr>))"
    by blast
  let ?w = "sample_world (sale_db\<lparr>db_records := ?rs, db_audit := a\<rparr>)"
  have w: "w_faults ?w = []" "w_newid ?w = (\<lambda>_. id_a)" "db_entries (w_db ?w) = []" "db_records (w_db ?w) = ?rs"
    "rr_type (sale_row\<lparr>rr_version := 2\<rparr>) = ''CustomerInvoice''" "db_accounts (w_db ?w) = db_accounts sale_db"
    by (simp_all add: sample_world_def sale_db_def empty_db_def sale_row_def)
  obtain w7 u where h: "PostCustomerInvoiceToLedger posting_env ?d \<lparr>rec_id = ''iv'', rec_type = ''CustomerInvoice'', rec_data = sale_doc, rec_version = 2\<rparr>
      ActionUpdate sample_actor ?w = (Inr (), w7)"
    and post: "PostTx posting_env (invoice_entry ''2026-05-01'' ''iv'' 300) sample_actor ?w = (Inr u, w7)"
    and fl: "w_faults w7 = []"
    using sale_hook [OF w] by blast
  have r: "db_records (w_db w7) = ?rs" using PostTx_tables(1) [OF post] w(4) by simp
  have fv: "final_version posting_env sale_hooks ?d ''iv'' 2 w7 = (Inr 2, w7)"
  proof -
    have "GetTx posting_env ''CustomerInvoice'' ''iv'' w7 = (Inr \<lparr>rec_id = ''iv'', rec_type = ''CustomerInvoice'',
        rec_data = sale_doc, rec_version = 2\<rparr>, w7)"
      using fl by (simp add: GetTx_found find_live_def live_def r sale_row_def faulty_def sent_def)
    then show ?thesis by (simp add: final_version_def sale_hooks_def SetHook_def mk_definition_def bindM_def ret_def)
  qed
  have q: "query (\<lambda>_. Inr ()) w = (Inr (), w)" if "w_faults w = []" for w
    using that by (simp add: stmt_eval)
  have "update_body posting_env sale_hooks ?d ''iv'' sale_doc None sample_actor (sample_world sale_db) = (Inr 2, w7)"
    using up au h fv
    by (simp add: update_body_def check_self_references_def selfReferenceFields_def checkReferenceTargetConstraints_def
        UpdateUniqueConstraintKeys_def runHook_def sale_hooks_def SetHook_def mk_definition_def Let_def thenM_def bindM_def ret_def)
  then show ?thesis
    using fl by (simp add: Update_def validation_def v guardM_def thenM_def bindM_def ret_def in_tx_def q)
qed

theorem issued_invoices_are_booked_once_witness:
  "booked posting_env sale_db (w_db (snd (Update posting_env sale_hooks (mk_definition ''CustomerInvoice'' []) ''iv'' sale_doc
      None sample_actor (sample_world sale_db)))) ''CustomerInvoice'' ''iv'' ''2026-05-01'' ''1200'' ''4100'' 300"
proof -
  obtain v w' where run: "Update posting_env sale_hooks (mk_definition ''CustomerInvoice'' []) ''iv'' sale_doc None sample_actor
     (sample_world sale_db) = (Inr v, w')" using sale_saved by blast
  have "status_code posting_env (w_db (sample_world sale_db)) sale_doc = ''issued''"
    by (simp add: status_code_def find_live_def sale_db_def empty_db_def sale_row_def live_def str_field_list)
  moreover have "db_entries (w_db (sample_world sale_db)) = []" by (simp add: sale_db_def empty_db_def)
  ultimately show ?thesis
    using issued_invoices_are_booked_once [OF run, of "''iv''" 300] three run
    by (simp add: sale_hooks_def SetHook_def mk_definition_def)
qed

end
