(* ===== verification/Spec2Isabelle.thy ===== *)
theory Spec2Isabelle
  imports CrudProps BackfillProps LedgerProps QueueProps SchedulerProps StatusProps FilterProps GuardedProps DefinitionProps PostingProps FinanceProps InvoiceProps
begin

text \<open>
  Universal Core: a verification development of the kernel of a metadata-driven ERP written
  in Go. All paths are under \<open>src/\<close>.

  \<^bold>\<open>The program.\<close> Every business object of the system (a customer, an account, an invoice) is
  a \<^emph>\<open>record\<close>: a JSON document whose shape is an \<^emph>\<open>entity definition\<close> published at run time. One
  generic engine creates, updates and deletes records of every type; around it stand the
  deterministic ledger, the workflow engine (a durable queue of jobs, a scheduler of cron
  expressions) and the repositories that keep all of it in a Postgres database per tenant.
  The kernel proper lives in \<open>internal/kernel\<close>, the repositories in \<open>internal/data\<close>.

  \<^bold>\<open>Foundations.\<close>
  \<^item> \<open>Prelude\<close>: results (\<open>error + value\<close>), the hint collections \<open>go_simps\<close>, \<open>go_dest\<close> and
    \<open>go_frame\<close>, lemmas on lists, maps and words.
  \<^item> \<open>GoStrings\<close>, \<open>GoTime\<close>, \<open>GoClock\<close>, \<open>GoFloat\<close>, \<open>GoValue\<close>: what the code uses of Go's
    standard library. Strings are lists of bytes, \<open>int64\<close> is a 64-bit word, \<open>float64\<close> the
    rationals of binary64 with rounding, \<open>any\<close> the datatype \<open>gval\<close> of the values JSON decodes to.
  \<^item> \<open>Store\<close>: a tenant's database as a record of tables (lists of rows, in insertion order), and the
    monad \<open>dbm\<close> of statements. A statement may fail at any time: the world carries a plan of
    failures that every theorem quantifies over, so each theorem about a transaction speaks
    of every point at which the database may break off. \<open>in_tx\<close> is a transaction: its
    effects are kept on success and discarded on every error.

  \<^bold>\<open>Components.\<close>
  \<^item> \<open>Money\<close> (\<open>kernel/money/money.go\<close>, \<open>kernel/ledger/money.go\<close>): amounts as \<open>int64\<close> minor units;
    parsing, printing, conversions. Lemmas: print/parse round trip, the exact value of what
    parses, totality and exactness of the conversions from floats and their platform
    dependence outside the range of \<open>int64\<close>.
  \<^item> \<open>Entity\<close>, \<open>EntityValidate\<close>, \<open>EntityRecord\<close> (\<open>kernel/entity\<close>): definitions, their validation,
    defaults and the validation of records. Lemmas: a definition that validates is well
    formed, a record that validates is typed and its dates are ordered.
  \<^item> \<open>Ids\<close> (\<open>kernel/ids\<close>), \<open>AuditTrail\<close> (\<open>kernel/audit\<close>): canonical uuids; actors and entries.
  \<^item> \<open>Records\<close> (\<open>data/records.go\<close>, \<open>data/record_unique_keys.go\<close>, \<open>data/audit.go\<close>): the SQL
    statements of the generic tables.
  \<^item> \<open>UniqueKeys\<close>, \<open>TargetConstraints\<close>, \<open>Crud\<close> (\<open>kernel/crud\<close>): the engine. Its theory of
    consequences is \<open>CrudUnique\<close> (unique sets hold over every history), \<open>Locking\<close> (a locale for
    versioned stores, interpreted on the repository and on the engine: no update is lost),
    \<open>Hierarchy\<close> (references of a type to itself never close a cycle) and \<open>CrudProps\<close>. The target
    conditions are enforced for references spelled as hyphenated uuids only, as in the code.
  \<^item> \<open>Backfill\<close>, \<open>BackfillProps\<close> (\<open>kernel/crud/unique_constraints.go\<close>, \<open>target_constraints.go\<close>): the walks,
    page by page, over existing records for a newly declared constraint. Lemmas: they end, the counts
    are exact, and a backfill gives every value a live holder.
  \<^item> \<open>CrudStatus\<close>, \<open>StatusProps\<close> (\<open>kernel/crud/status.go\<close>): the check of a record's status against the
    graph its type declares; an update sent with the version that was checked moves a record only
    along it, on types without hooks.
  \<^item> \<open>Filters\<close>, \<open>FilterProps\<close> (\<open>data/records.go\<close>, \<open>kernel/crud/target_constraints.go\<close>): filtered and
    sorted pages with SQL's \<open>LIKE\<close> and \<open>ORDER BY\<close>, and reference pickers. Lemmas: pages cover the
    count, a picker offers what a write accepts.
  \<^item> \<open>Roles\<close> (\<open>kernel/foundation/roles.go\<close>), \<open>Authz\<close>, \<open>AuthzPolicy\<close> (\<open>kernel/authz/authz.go\<close>): the roles a
    user holds, and the resolver that answers what he may read and write. \<open>Authz\<close> also states the
    policy as a predicate on the records; \<open>AuthzPolicy\<close> proves, with a Hoare logic for calls that
    share one resolver, that whatever is loaded and remembered agrees with it.
  \<^item> \<open>Guarded\<close> (\<open>kernel/authz\<close>): the engine behind the resolver, and the protection of records of
    read-only sources. \<open>GuardedSafe\<close> and \<open>GuardedWrites\<close> hold what its calls go through,
    \<open>GuardedRights\<close> the sessions of a user and what they leave alone, \<open>GuardedReads\<close> the comparison of
    two databases that differ in hidden values, \<open>GuardedProps\<close> the properties.
  \<^item> \<open>Definitions\<close>, \<open>DefinitionLife\<close> (\<open>data/definitions.go\<close>), \<open>Moduleseed\<close> (\<open>kernel/moduleseed\<close>),
    \<open>DefinitionProps\<close>: the registries of definition versions, refined to the life of a version; a
    locale for the repository that publishing a module works on, interpreted on the registries.
  \<^item> \<open>Ledger\<close>, \<open>Books\<close>, \<open>LedgerProps\<close> (\<open>kernel/ledger\<close>, \<open>data/ledger.go\<close>): journal entries, period
    locks, posting. Lemmas: posting is all or nothing, stays inside open periods, and keeps
    every trial balance at zero while the amounts stay below the wrap of \<open>int64\<close>.
  \<^item> \<open>Depreciation\<close> (\<open>kernel/assets/depreciation.go\<close>): straight-line schedules, exact to the minor unit.
    \<open>ScheduleHook\<close>, \<open>ScheduleProps\<close> (\<open>schedule_hook.go\<close>): the hooks that store and reconcile the schedule of
    a fixed asset when it is saved. Lemmas: posted periods survive, a stored schedule is recognised.
  \<^item> \<open>DepreciationPosting\<close>, \<open>PostingSteps\<close>, \<open>PostingProps\<close> (\<open>kernel/assets/ledger.go\<close> and the worklist
    queries of \<open>data/records.go\<close>): the batch that posts due periods to the ledger and retires
    exhausted assets. \<open>PostingSteps\<close> shows what one posting does and lifts a relation that holds
    across each call to the whole batch; the properties are instances of it.
  \<^item> \<open>Finance\<close>, \<open>FinanceProps\<close> (\<open>kernel/finance/basecurrency.go\<close>, \<open>seed.go\<close>): the base currency of a
    tenant, and the hook and the sweep that project \<open>Account\<close> records into the ledger's accounts.
    Lemmas: the chart mirrors the records while every write goes through the hook; the sweep restores
    it.
  \<^item> \<open>Vetting\<close>: a locale for hooks that refuse some writes (what a successful hook guarantees of the
    record, and that it leaves the rows of its own type alone), with the invariant it gives over
    every history of the engine.
  \<^item> \<open>Purchasing\<close>, \<open>ReceiptProps\<close> (\<open>kernel/purchasing/ledger.go\<close>): goods receipt lines and stock transfers.
    The two hooks interpret \<open>Vetting\<close>; what a receipt adds to the stock and to the books is stated
    exactly. The loop that credits the stock turns at most 21 times, as in the code.
  \<^item> \<open>Invoicing\<close>, \<open>InvoiceProps\<close> (\<open>kernel/purchasing/ledger.go\<close>, \<open>kernel/sales/ledger.go\<close>): the three-way match
    of vendor invoices and the posting of issued customer invoices, both on updates: creation is not
    checked, as in the code.
  \<^item> \<open>Workflow\<close>, \<open>Cron\<close> (\<open>kernel/workflow/workflow.go\<close>, \<open>cron.go\<close>): workflow definitions and
    the cron schedules: parser and search for the next occurrence, against a reference
    definition of "matches".
  \<^item> \<open>Jobs\<close>, \<open>JobLife\<close>, \<open>Queue\<close>, \<open>QueueProps\<close> (\<open>kernel/workflow/queue.go\<close>,
    \<open>data/workflow_jobs.go\<close>): the job table and its guarded updates as a step relation over any
    number of workers, refined to the life of a single job; the queue's operations are
    runs of that relation.
  \<^item> \<open>Scheduler\<close>, \<open>SchedulerProps\<close> (\<open>kernel/workflow/scheduler.go\<close>, \<open>data/workflow_schedules.go\<close>):
    standing schedules, their reconciliation and their firing.

  \<^bold>\<open>How the parts meet.\<close> Every operation takes the environment \<open>env\<close> (the library code the
  program calls: the machine's float conversion, \<open>fmt.Sprint\<close>, the JSON text of a map, SHA-256,
  Postgres' reading of uuids and dates) and is a function of the world \<open>db\<close>, clock, fresh ids and
  failure plan. The engine calls \<open>Records\<close>, \<open>UniqueKeys\<close> and \<open>TargetConstraints\<close> inside one
  transaction; the ledger shares its audit table; the scheduler inserts into the table the
  queue works on. What a theorem needs of a parameter is a named hypothesis of it, and a
  witness instantiates it with a concrete environment (\<open>sample_env\<close> and its variants).

  \<^bold>\<open>Bounds and fuel.\<close> The walk up a hierarchy stops after \<open>maxReferenceChainWalk\<close> steps as the code
  does. The search for the next cron occurrence is bounded by the code's own limit of ten
  years, and \<open>next_finds_possible_schedules\<close> shows the limit suffices for every schedule that
  can occur at all. The scheduler takes at most \<open>maxPerTick\<close> rows per tick, as the code does. The
  cron parser's inner loop, whose \<open>int\<close> may wrap, is a partial function: that it returns for
  small steps, and panics for huge ones, are theorems.

  \<^bold>\<open>Not modelled.\<close> HTTP handlers, HTML rendering and identity services (glue over libraries
  the sources only call), literal catalogues of definitions and seed data, importers and exporters of
  XML, XLSX and CSV, reporting SQL, connection routing and the goroutines of the worker
  process. Postgres is not modelled beyond what single statements do: transactions are
  serialised, and concurrency is the interleaving of whole statements (in the queue) or
  whole transactions (in the engine). Of error messages only the kind is kept.
\<close>

end
